(* ===== verification/Prelude.thy ===== *)
theory Prelude
  imports Main "HOL-Library.Word"
begin

text \<open>
  Shared vocabulary of the development: the \<open>Result\<close> type of \<open>src/lib/result.ts\<close>, the
  fragment of the JavaScript standard library the modelled code uses (dates, strings, rounding),
  the list operations behind a Prisma query, and the generic lemmas all components rely on.

  \<^item> A \<open>Date\<close> is the integer \<open>getTime()\<close> returns: milliseconds since the epoch (\<open>ms\<close>).
  \<^item> A JavaScript string is a \<^typ>\<open>string\<close>: the code units 0..255 (Latin-1), on which
    \<open>length\<close>, \<open>slice\<close>, \<open>trim\<close>, \<open>toLowerCase\<close> and the regular expressions of
    the source are modelled exactly. A string is falsy iff it is empty.
  \<^item> \<open>T | null | undefined\<close> is \<^typ>\<open>'a option\<close>.
\<close>

named_theorems query_simps \<open>how a query over a table reacts to an update of the table\<close>
named_theorems kept_simps \<open>what an operation leaves unchanged (frame facts)\<close>
named_theorems inv_intros \<open>operations that keep the invariant of a component\<close>

type_synonym ms = int
type_synonym ident = string

section \<open>Results of business operations\<close>

datatype ('a, 'e) result = ok (the_value: 'a) | fail (the_error: 'e)

primrec is_ok :: "('a, 'e) result \<Rightarrow> bool" where
  "is_ok (ok v) = True"
| "is_ok (fail e) = False"

section \<open>Numbers and dates\<close>

definition ceil_div :: "int \<Rightarrow> int \<Rightarrow> int" where
  "ceil_div a b = - ((- a) div b)"

definition seconds :: "int \<Rightarrow> ms" where
  "seconds n = n * 1000"

section \<open>Strings\<close>

definition code_unit :: "char \<Rightarrow> nat" where
  "code_unit c = of_char c"

definition js_space :: "char \<Rightarrow> bool" where
  "js_space c = (code_unit c \<in> {9, 10, 11, 12, 13, 32, 160})"

definition js_trim :: "string \<Rightarrow> string" where
  "js_trim s = rev (dropWhile js_space (rev (dropWhile js_space s)))"

definition lower_char :: "char \<Rightarrow> char" where
  "lower_char c = (let n = code_unit c in
     if (65 \<le> n \<and> n \<le> 90) \<or> (192 \<le> n \<and> n \<le> 222 \<and> n \<noteq> 215) then char_of (n + 32) else c)"

definition toLowerCase :: "string \<Rightarrow> string" where
  "toLowerCase s = map lower_char s"

text \<open>
  \<open>toUpperCase\<close>: the sharp s becomes two letters; the micro sign (181) and y with diaeresis
  (255) have upper-case forms outside Latin-1, which every use in the source then discards, so
  they are left as they are.
\<close>

definition upper_char :: "char \<Rightarrow> string" where
  "upper_char c = (let n = code_unit c in
     if (97 \<le> n \<and> n \<le> 122) \<or> (224 \<le> n \<and> n \<le> 254 \<and> n \<noteq> 247) then [char_of (n - 32)]
     else if n = 223 then ''SS'' else [c])"

definition toUpperCase :: "string \<Rightarrow> string" where
  "toUpperCase s = concat (map upper_char s)"

fun split_on :: "char \<Rightarrow> string \<Rightarrow> string list" where
  "split_on d [] = [[]]"
| "split_on d (c # cs) =
     (if c = d then [] # split_on d cs
      else (case split_on d cs of [] \<Rightarrow> [[c]] | w # ws \<Rightarrow> (c # w) # ws))"

fun starts_with :: "string \<Rightarrow> string \<Rightarrow> bool" where
  "starts_with s [] = True"
| "starts_with [] (p # ps) = False"
| "starts_with (c # cs) (p # ps) = (c = p \<and> starts_with cs ps)"

fun str_includes :: "string \<Rightarrow> string \<Rightarrow> bool" where
  "str_includes [] p = (p = [])"
| "str_includes (c # cs) p = (starts_with (c # cs) p \<or> str_includes cs p)"

fun str_join :: "string \<Rightarrow> string list \<Rightarrow> string" where
  "str_join sep [] = []"
| "str_join sep [w] = w"
| "str_join sep (w # v # ws) = w @ sep @ str_join sep (v # ws)"

text \<open>\<open>s || null\<close> for a string: the empty string is falsy.\<close>

definition or_null :: "string \<Rightarrow> string option" where
  "or_null s = (if s = [] then None else Some s)"

section \<open>Prisma queries over a table\<close>

text \<open>
  A table is the list of its rows in insertion order. \<open>findFirst\<close> and \<open>findUnique\<close> return the
  first row that satisfies the condition, \<open>updateMany\<close> and \<open>deleteMany\<close> treat every row that
  satisfies it and report their number, \<open>orderBy\<close> is a stable sort. These are the documented
  meanings of the calls the source makes; the database engine itself is not part of the program.
\<close>

definition find_first :: "('r \<Rightarrow> bool) \<Rightarrow> 'r list \<Rightarrow> 'r option" where
  "find_first P t = List.find P t"

definition find_many :: "('r \<Rightarrow> bool) \<Rightarrow> 'r list \<Rightarrow> 'r list" where
  "find_many P t = filter P t"

definition count_rows :: "('r \<Rightarrow> bool) \<Rightarrow> 'r list \<Rightarrow> nat" where
  "count_rows P t = length (filter P t)"

definition update_many :: "('r \<Rightarrow> bool) \<Rightarrow> ('r \<Rightarrow> 'r) \<Rightarrow> 'r list \<Rightarrow> 'r list" where
  "update_many P f t = map (\<lambda>r. if P r then f r else r) t"

definition delete_many :: "('r \<Rightarrow> bool) \<Rightarrow> 'r list \<Rightarrow> 'r list" where
  "delete_many P t = filter (\<lambda>r. \<not> P r) t"

definition insert_row :: "'r \<Rightarrow> 'r list \<Rightarrow> 'r list" where
  "insert_row r t = t @ [r]"

definition order_asc :: "('r \<Rightarrow> 'k::linorder) \<Rightarrow> 'r list \<Rightarrow> 'r list" where
  "order_asc key t = sort_key key t"

text \<open>Descending order: a stable sort on the opposite order, as \<open>ORDER BY .. DESC\<close>.\<close>

definition order_desc :: "('r \<Rightarrow> int) \<Rightarrow> 'r list \<Rightarrow> 'r list" where
  "order_desc key t = sort_key (\<lambda>r. - key r) t"

section \<open>Lemmas\<close>

lemma result_cases_ok [simp]: "is_ok r \<longleftrightarrow> (\<exists>v. r = ok v)"
  by (cases r) simp_all

lemma ceil_div_bounds:
  assumes "0 < b"
  shows "a \<le> ceil_div a b * b" and "ceil_div a b * b < a + b"
proof -
  have e: "(- a) div b * b = - a - (- a) mod b"
    by (simp add: minus_mod_eq_div_mult [symmetric])
  have "0 \<le> (- a) mod b" and "(- a) mod b < b" using assms by simp_all
  then show "a \<le> ceil_div a b * b" and "ceil_div a b * b < a + b"
    by (simp_all add: ceil_div_def e)
qed

lemma set_update_many:
  "r' \<in> set (update_many P f t) \<longleftrightarrow> (\<exists>r \<in> set t. r' = (if P r then f r else r))"
  by (auto simp: update_many_def)

lemma update_manyE:
  assumes "r' \<in> set (update_many P f t)"
  obtains r where "r \<in> set t" and "P r" and "r' = f r" | "r' \<in> set t" and "\<not> P r'"
  using assms by (auto simp: update_many_def split: if_splits)

lemma set_delete_many [query_simps]: "r \<in> set (delete_many P t) \<longleftrightarrow> r \<in> set t \<and> \<not> P r"
  by (simp add: delete_many_def)

lemma set_insert_row [query_simps]: "set (insert_row r t) = insert r (set t)"
  by (simp add: insert_row_def)

lemma set_find_many [query_simps]: "r \<in> set (find_many P t) \<longleftrightarrow> r \<in> set t \<and> P r"
  by (simp add: find_many_def)

lemma set_order_asc [simp]: "set (order_asc key t) = set t"
  by (simp add: order_asc_def)

lemma set_order_desc [simp]: "set (order_desc key t) = set t"
  by (simp add: order_desc_def)

lemma length_order_asc [simp]: "length (order_asc key t) = length t"
  by (simp add: order_asc_def)

lemma length_order_desc [simp]: "length (order_desc key t) = length t"
  by (simp add: order_desc_def)

lemma length_update_many [simp]: "length (update_many P f t) = length t"
  by (simp add: update_many_def)

lemma find_first_SomeD: "find_first P t = Some r \<Longrightarrow> r \<in> set t \<and> P r"
  by (auto simp: find_first_def find_Some_iff)

lemma find_first_None_iff: "find_first P t = None \<longleftrightarrow> (\<forall>r \<in> set t. \<not> P r)"
  by (auto simp: find_first_def find_None_iff)

lemma find_first_Nil [simp]: "find_first P [] = None"
  by (simp add: find_first_def)

lemma find_first_Cons [simp]: "find_first P (r # t) = (if P r then Some r else find_first P t)"
  by (simp add: find_first_def)

lemma find_first_append:
  "find_first P (t @ u) = (case find_first P t of None \<Rightarrow> find_first P u | Some r \<Rightarrow> Some r)"
  by (induction t) auto

lemma find_first_cong: "(\<And>r. r \<in> set t \<Longrightarrow> P r = Q r) \<Longrightarrow> find_first P t = find_first Q t"
  by (induction t) auto

text \<open>With unique keys, the row found under a key is the row that has it.\<close>

lemma find_first_key:
  assumes "distinct (map key t)" and "r \<in> set t"
  shows "find_first (\<lambda>x. key x = key r) t = Some r"
  using assms by (induction t) (auto simp: image_iff)

lemma count_rows_pos: "0 < count_rows P t \<longleftrightarrow> (\<exists>r \<in> set t. P r)"
  by (simp add: count_rows_def filter_empty_conv)

lemma count_rows_zero: "count_rows P t = 0 \<longleftrightarrow> (\<forall>r \<in> set t. \<not> P r)"
  by (simp add: count_rows_def filter_empty_conv)

lemma update_many_none: "(\<forall>r \<in> set t. \<not> P r) \<Longrightarrow> update_many P f t = t"
  by (simp add: update_many_def map_idI)

lemma update_many_Nil [simp]: "update_many P f [] = []"
  by (simp add: update_many_def)

lemma update_many_Cons [simp]:
  "update_many P f (r # t) = (if P r then f r else r) # update_many P f t"
  by (simp add: update_many_def)

lemma count_rows_Nil [simp]: "count_rows P [] = 0"
  by (simp add: count_rows_def)

lemma count_rows_Cons [simp]: "count_rows P (r # t) = (if P r then Suc (count_rows P t) else count_rows P t)"
  by (simp add: count_rows_def)

lemma count_rows_append [simp]: "count_rows P (t @ u) = count_rows P t + count_rows P u"
  by (simp add: count_rows_def)

text \<open>A projection of rows that an update never writes.\<close>

lemma map_update_many: "(\<And>r. g (f r) = g r) \<Longrightarrow> map g (update_many P f t) = map g t"
  by (simp add: update_many_def)

lemma filter_update_many:
  "(\<And>r. r \<in> set t \<Longrightarrow> P r \<Longrightarrow> \<not> Q r \<and> \<not> Q (f r)) \<Longrightarrow> filter Q (update_many P f t) = filter Q t"
  by (induction t) auto

lemma filter_delete_many:
  "(\<And>r. r \<in> set t \<Longrightarrow> P r \<Longrightarrow> \<not> Q r) \<Longrightarrow> filter Q (delete_many P t) = filter Q t"
  by (induction t) (auto simp: delete_many_def)

lemma count_update_many:
  "(\<And>r. r \<in> set t \<Longrightarrow> P r \<Longrightarrow> \<not> Q r \<and> \<not> Q (f r)) \<Longrightarrow> count_rows Q (update_many P f t) = count_rows Q t"
  by (simp add: count_rows_def filter_update_many)

lemma count_delete_many:
  "(\<And>r. r \<in> set t \<Longrightarrow> P r \<Longrightarrow> \<not> Q r) \<Longrightarrow> count_rows Q (delete_many P t) = count_rows Q t"
  by (simp add: count_rows_def filter_delete_many)

text \<open>Updating or deleting the rows of one unique key lowers a count by at most one.\<close>

lemma count_update_key:
  assumes "distinct (map key t)"
  shows "count_rows Q t \<le> Suc (count_rows Q (update_many (\<lambda>r. key r = k) f t))"
  using assms
proof (induction t)
  case (Cons r t)
  show ?case
  proof (cases "key r = k")
    case True
    with Cons.prems have "update_many (\<lambda>r. key r = k) f t = t"
      by (intro update_many_none) (auto simp: image_iff)
    then show ?thesis by auto
  next
    case False
    with Cons show ?thesis by auto
  qed
qed simp

lemma count_delete_key:
  assumes "distinct (map key t)"
  shows "count_rows Q t \<le> Suc (count_rows Q (delete_many (\<lambda>r. key r = k) t))"
  using assms
proof (induction t)
  case (Cons r t)
  show ?case
  proof (cases "key r = k")
    case True
    with Cons.prems have "delete_many (\<lambda>r. key r = k) t = t"
      by (auto simp: delete_many_def filter_id_conv image_iff)
    with True show ?thesis by (auto simp: delete_many_def)
  next
    case False
    with Cons show ?thesis by (auto simp: delete_many_def)
  qed
qed simp

lemma filter_insert_row: "\<not> Q r \<Longrightarrow> filter Q (insert_row r t) = filter Q t"
  by (simp add: insert_row_def)

lemma distinct_map_delete_many: "distinct (map key t) \<Longrightarrow> distinct (map key (delete_many P t))"
  by (simp add: delete_many_def distinct_map_filter)

lemma distinct_map_insert_row:
  "distinct (map key t) \<Longrightarrow> key r \<notin> key ` set t \<Longrightarrow> distinct (map key (insert_row r t))"
  by (simp add: insert_row_def)

lemma count_rows_unique:
  assumes "distinct (map key t)" and "r \<in> set t" and "P r" and "\<And>x. P x \<Longrightarrow> key x = key r"
  shows "count_rows P t = 1"
  using assms(1,2)
proof (induction t)
  case Nil
  then show ?case by simp
next
  case (Cons y t)
  have other: "x \<in> set t \<Longrightarrow> y = r \<Longrightarrow> \<not> P x" for x
    using Cons.prems(1) assms(4)[of x] by (auto simp: image_iff)
  show ?case
  proof (cases "y = r")
    case True
    then have "count_rows P t = 0" using other by (simp add: count_rows_zero)
    with True assms(3) show ?thesis by simp
  next
    case False
    with Cons.prems have r: "r \<in> set t" by simp
    with Cons.prems(1) have "\<not> P y" using assms(4)[of y] by (auto simp: image_iff)
    with Cons r show ?thesis by simp
  qed
qed

lemma count_rows_mono: "(\<And>r. Q r \<Longrightarrow> P r) \<Longrightarrow> count_rows Q t \<le> count_rows P t"
  by (induction t) (auto simp: le_Suc_eq)

lemma count_filter_le:
  assumes "\<And>r. Q r \<Longrightarrow> P r"
  shows "count_rows Q t = length (filter Q (filter P t))"
proof -
  have "filter Q (filter P t) = filter Q t" using assms by (induction t) auto
  then show ?thesis by (simp add: count_rows_def)
qed

lemma update_many_all:
  assumes "list_all Q t" and "\<And>r. r \<in> set t \<Longrightarrow> P r \<Longrightarrow> Q r \<Longrightarrow> Q (f r)"
  shows "list_all Q (update_many P f t)"
  using assms by (auto simp: list_all_iff set_update_many)

end
