(* ===== verification/Schema.thy ===== *)
theory Schema
  imports Prelude Complex_Main
begin

text \<open>
  The data model: the enumerations and the rows of \<open>src/prisma/schema.prisma\<close> that the modelled
  code reads or writes, and the state \<open>db\<close> of all tables. Each row is a \<open>record\<close> whose fields
  carry the column names behind a short table prefix. Columns no modelled operation reads or
  writes (timestamps maintained by the engine alone, settings of unused features) are left out.

  Values the database generates itself, ids by \<open>@default(cuid())\<close> and times by
  \<open>@default(now())\<close>, come from a parameter \<open>dbgen\<close>: \<open>cuid k\<close> is the \<open>k\<close>-th id drawn by the
  operation and \<open>clock\<close> the database server's time.
\<close>

section \<open>Enumerations\<close>

datatype ui_locale = EN | FR
datatype role = OWNER | ADMIN | OPERATOR | VIEWER
datatype health_status = UNKNOWN | UP | DEGRADED | DOWN | MAINTENANCE
datatype os_family = WINDOWS | LINUX | MACOS | UNIX | OTHER
datatype metric_source = HOST | NETWORK_DEVICE | NETWORK_INTERFACE | DATABASE | ENDPOINT
datatype metric_type =
    CPU_USAGE_PERCENT | LOAD_AVERAGE_1M | MEMORY_USED_PERCENT | MEMORY_USED_BYTES
  | SWAP_USED_PERCENT | DISK_USED_PERCENT | DISK_USED_BYTES | DISK_READ_IOPS | DISK_WRITE_IOPS
  | DISK_READ_BPS | DISK_WRITE_BPS | NETWORK_IN_BPS | NETWORK_OUT_BPS | PROCESS_COUNT
  | UPTIME_SECONDS | TEMPERATURE_CELSIUS | POWER_WATTS | BANDWIDTH_IN_BPS | BANDWIDTH_OUT_BPS
  | BANDWIDTH_UTILIZATION_PERCENT | PACKET_LOSS_PERCENT | INTERFACE_ERRORS_PER_SEC
  | INTERFACE_CRC_ERRORS_PER_SEC | LATENCY_MS | DB_QPS | DB_ACTIVE_CONNECTIONS
  | DB_CONNECTION_USAGE_PERCENT | DB_CACHE_HIT_RATIO | DB_SLOW_QUERIES_PER_MIN
  | DB_DEADLOCKS_PER_MIN | DB_REPLICATION_LAG_SECONDS | DB_STORAGE_USED_BYTES
  | ENDPOINT_RESPONSE_MS | ENDPOINT_AVAILABLE | ENDPOINT_SSL_DAYS_LEFT
datatype alert_operator = GT | GTE | LT | LTE | EQ | NEQ
datatype severity = INFO | WARNING | CRITICAL
datatype anomaly_sensitivity = LOW | MEDIUM | HIGH
datatype notification_channel = EMAIL | SLACK | TEAMS | WEBHOOK | SMS | PUSH
datatype incident_status = OPEN | ACKNOWLEDGED | RESOLVED
datatype incident_event_type =
    EV_OPENED | EV_ACKNOWLEDGED | EV_NOTE | EV_NOTIFIED | EV_REMEDIATION_STARTED
  | EV_REMEDIATION_FINISHED | EV_RCA_GENERATED | EV_RESOLVED | EV_REOPENED
datatype script_runtime = BASH | POWERSHELL | PYTHON
datatype execution_status =
    PENDING | AWAITING_APPROVAL | RUNNING | SUCCEEDED | FAILED | TIMED_OUT | SKIPPED | CANCELLED
datatype execution_trigger = ALERT | MANUAL | SCHEDULE
datatype network_device_type = ROUTER | SWITCH | FIREWALL | AP | UPS | BMC | DEVICE_OTHER
datatype snmp_version = V1 | V2C | V3
datatype snmp_security_level = NO_AUTH_NO_PRIV | AUTH_NO_PRIV | AUTH_PRIV
datatype snmp_auth_protocol = MD5 | SHA | SHA224 | SHA256 | SHA384 | SHA512
datatype snmp_priv_protocol = DES | AES | AES192 | AES256
datatype oper_status = OPER_UP | OPER_DOWN | OPER_TESTING | OPER_UNKNOWN
datatype database_engine = POSTGRESQL | MYSQL | MARIADB | MONGODB | REDIS | MSSQL
datatype http_method = GET | HEAD | POST | PUT | PATCH | DELETE | OPTIONS
datatype topology_node_kind =
  NODE_HOST | NODE_NETWORK_DEVICE | NODE_DATABASE | NODE_ENDPOINT | NODE_SERVICE | NODE_EXTERNAL
datatype dependency_kind = DEPENDS_ON | HOSTED_ON | CONNECTED_TO | ROUTES_TO | REPLICATES_TO

datatype json = JNull | JBool bool | JNum real | JStr string | JArr "json list" | JObj "(string \<times> json) list"

section \<open>Rows: accounts and access\<close>

record org_row =
  o_id :: ident
  o_name :: string
  o_slug :: string

record user_row =
  u_id :: ident
  u_email :: string
  u_name :: "string option"
  u_passwordHash :: "string option"
  u_locale :: ui_locale
  u_timezone :: string
  u_lastLoginAt :: "ms option"
  u_passwordChangedAt :: "ms option"
  u_disabledAt :: "ms option"
  u_totpSecretEnc :: "string option"
  u_totpEnabledAt :: "ms option"

record membership_row =
  m_id :: ident
  m_userId :: ident
  m_orgId :: ident
  m_role :: role
  m_createdAt :: ms

record session_row =
  s_id :: ident
  s_userId :: ident
  s_tokenHash :: string
  s_activeOrgId :: "ident option"
  s_createdAt :: ms
  s_lastUsedAt :: ms
  s_expiresAt :: ms
  s_absoluteExpiresAt :: ms
  s_ipAddress :: "string option"
  s_userAgent :: "string option"
  s_revokedAt :: "ms option"

record invitation_row =
  i_id :: ident
  i_orgId :: ident
  i_email :: string
  i_role :: role
  i_tokenHash :: string
  i_invitedById :: "ident option"
  i_expiresAt :: ms
  i_acceptedAt :: "ms option"
  i_revokedAt :: "ms option"
  i_createdAt :: ms

record login_attempt_row =
  la_id :: ident
  la_email :: string
  la_ipAddress :: "string option"
  la_success :: bool
  la_createdAt :: ms

record audit_row =
  al_id :: ident
  al_action :: string
  al_orgId :: "ident option"
  al_actorId :: "ident option"
  al_actorEmail :: "string option"
  al_targetType :: "string option"
  al_targetId :: "ident option"
  al_ipAddress :: "string option"
  al_metadata :: "json option"
  al_createdAt :: ms

record totp_challenge_row =
  tc_id :: ident
  tc_userId :: ident
  tc_tokenHash :: string
  tc_nextPath :: "string option"
  tc_failedAttempts :: nat
  tc_ipAddress :: "string option"
  tc_userAgent :: "string option"
  tc_expiresAt :: ms
  tc_createdAt :: ms

record recovery_code_row =
  rc_id :: ident
  rc_userId :: ident
  rc_codeHash :: string
  rc_usedAt :: "ms option"

section \<open>Rows: monitoring, incidents, remediation\<close>

text \<open>The inventory columns of a host, reported by its agent.\<close>

record host_inventory =
  hi_osName :: "string option"
  hi_osVersion :: "string option"
  hi_kernelVersion :: "string option"
  hi_arch :: "string option"
  hi_cpuModel :: "string option"
  hi_cpuCores :: "int option"
  hi_cpuThreads :: "int option"
  hi_cpuFrequencyMhz :: "int option"
  hi_memoryTotalBytes :: "int option"
  hi_diskTotalBytes :: "int option"
  hi_ipAddresses :: "string list"
  hi_macAddress :: "string option"
  hi_virtualization :: "string option"
  hi_cloudProvider :: "string option"
  hi_cloudRegion :: "string option"

definition no_inventory :: host_inventory where
  "no_inventory = \<lparr>hi_osName = None, hi_osVersion = None, hi_kernelVersion = None, hi_arch = None,
     hi_cpuModel = None, hi_cpuCores = None, hi_cpuThreads = None, hi_cpuFrequencyMhz = None,
     hi_memoryTotalBytes = None, hi_diskTotalBytes = None, hi_ipAddresses = [], hi_macAddress = None,
     hi_virtualization = None, hi_cloudProvider = None, hi_cloudRegion = None\<rparr>"

record host_row =
  h_id :: ident
  h_orgId :: ident
  h_hostname :: string
  h_displayName :: "string option"
  h_enabled :: bool
  h_keyId :: string
  h_hmacSecretEnc :: string
  h_secretRotatedAt :: ms
  h_previousHmacSecretEnc :: "string option"
  h_previousSecretExpiresAt :: "ms option"
  h_osFamily :: os_family
  h_status :: health_status
  h_lastSeenAt :: "ms option"
  h_remediationMode :: "string option"
  h_remediationAllowlist :: "string list"
  h_agentVersion :: "string option"
  h_firstSeenAt :: "ms option"
  h_createdAt :: ms
  h_inventory :: host_inventory

record network_device_row =
  nd_id :: ident
  nd_orgId :: ident
  nd_name :: string
  nd_ipAddress :: string
  nd_type :: network_device_type
  nd_tags :: "string list"
  nd_enabled :: bool
  nd_vendor :: "string option"
  nd_model :: "string option"
  nd_firmwareVersion :: "string option"
  nd_serialNumber :: "string option"
  nd_sysName :: "string option"
  nd_sysDescr :: "string option"
  nd_sysLocation :: "string option"
  nd_sysContact :: "string option"
  nd_uptimeSeconds :: "int option"
  nd_powerWatts :: "real option"
  nd_pollerHostId :: "ident option"
  nd_pollIntervalSec :: int
  nd_snmpVersion :: snmp_version
  nd_snmpPort :: int
  nd_snmpTimeoutMs :: int
  nd_snmpRetries :: int
  nd_snmpCommunityEnc :: "string option"
  nd_snmpV3Username :: "string option"
  nd_snmpV3SecurityLevel :: "snmp_security_level option"
  nd_snmpV3AuthProtocol :: "snmp_auth_protocol option"
  nd_snmpV3AuthKeyEnc :: "string option"
  nd_snmpV3PrivProtocol :: "snmp_priv_protocol option"
  nd_snmpV3PrivKeyEnc :: "string option"
  nd_snmpV3ContextName :: "string option"
  nd_status :: health_status
  nd_lastPolledAt :: "ms option"
  nd_createdAt :: ms

record network_interface_row =
  ni_id :: ident
  ni_deviceId :: ident
  ni_ifIndex :: int
  ni_name :: string
  ni_alias :: "string option"
  ni_description :: "string option"
  ni_macAddress :: "string option"
  ni_speedMbps :: "int option"
  ni_mtu :: "int option"
  ni_adminStatus :: oper_status
  ni_operStatus :: oper_status
  ni_inBps :: int
  ni_outBps :: int
  ni_utilizationPercent :: "real option"
  ni_packetLossPercent :: "real option"
  ni_inErrors :: int
  ni_outErrors :: int
  ni_crcErrors :: int
  ni_inDiscards :: int
  ni_outDiscards :: int
  ni_lastChangeAt :: "ms option"
  ni_lastPolledAt :: "ms option"
  ni_updatedAt :: ms

record database_row =
  db_id :: ident
  db_orgId :: ident
  db_hostId :: "ident option"
  db_name :: string
  db_engine :: database_engine
  db_version :: "string option"
  db_endpoint :: "string option"
  db_isReplica :: bool
  db_tags :: "string list"
  db_enabled :: bool
  db_storageQuotaBytes :: "int option"
  db_storageUsedBytes :: "int option"
  db_maxConnections :: "int option"
  db_activeConnections :: "int option"
  db_cacheHitRatio :: "real option"
  db_deadlocksTotal :: "int option"
  db_replicationLagSeconds :: "real option"
  db_slowQueryThresholdMs :: int
  db_status :: health_status
  db_lastPolledAt :: "ms option"
  db_createdAt :: ms

record slow_query_row =
  sq_id :: ident
  sq_dbInstanceId :: ident
  sq_capturedAt :: ms
  sq_fingerprint :: string
  sq_queryText :: "string option"
  sq_durationMs :: real
  sq_calls :: int
  sq_rowsExamined :: "int option"
  sq_rowsReturned :: "int option"
  sq_databaseName :: "string option"
  sq_userName :: "string option"

record endpoint_row =
  ep_id :: ident
  ep_orgId :: ident
  ep_name :: string
  ep_url :: string
  ep_method :: http_method
  ep_headers :: "json option"
  ep_body :: "string option"
  ep_expectedStatus :: int
  ep_expectedBodyContains :: "string option"
  ep_followRedirects :: bool
  ep_verifySsl :: bool
  ep_intervalSec :: int
  ep_timeoutMs :: int
  ep_regions :: "string list"
  ep_enabled :: bool
  ep_tags :: "string list"
  ep_slaTargetPercent :: real
  ep_sslExpiresAt :: "ms option"
  ep_sslIssuer :: "string option"
  ep_status :: health_status
  ep_lastCheckedAt :: "ms option"
  ep_lastStatusCode :: "int option"
  ep_lastResponseMs :: "real option"
  ep_consecutiveFailures :: int
  ep_lastError :: "string option"
  ep_lastErrorDetail :: "string option"
  ep_nextRunAt :: "ms option"
  ep_createdAt :: ms

record topology_node_row =
  tn_id :: ident
  tn_orgId :: ident
  tn_kind :: topology_node_kind
  tn_refId :: "ident option"
  tn_label :: string
  tn_positionX :: real
  tn_positionY :: real
  tn_createdAt :: ms

record dependency_row =
  sd_id :: ident
  sd_orgId :: ident
  sd_parentNodeId :: ident
  sd_childNodeId :: ident
  sd_kind :: dependency_kind
  sd_criticality :: severity
  sd_label :: "string option"

record metric_row =
  me_time :: ms
  me_orgId :: ident
  me_sourceKind :: metric_source
  me_sourceId :: ident
  me_metric :: metric_type
  me_instance :: string
  me_value :: real

record alert_rule_row =
  ar_id :: ident
  ar_orgId :: ident
  ar_name :: string
  ar_description :: "string option"
  ar_enabled :: bool
  ar_sourceKind :: metric_source
  ar_sourceId :: "ident option"
  ar_metric :: metric_type
  ar_instanceFilter :: "string option"
  ar_operator :: "alert_operator option"
  ar_threshold :: "real option"
  ar_durationSec :: int
  ar_severity :: severity
  ar_anomalyDetection :: bool
  ar_anomalySensitivity :: anomaly_sensitivity
  ar_channels :: "notification_channel list"
  ar_notifyEmails :: "string list"
  ar_slackWebhookUrl :: "string option"
  ar_teamsWebhookUrl :: "string option"
  ar_webhookUrl :: "string option"
  ar_cooldownSec :: int
  ar_remediationActionId :: "ident option"
  ar_autoRemediate :: bool
  ar_createdAt :: ms

text \<open>
  The structured findings of a root-cause analysis (\<open>RcaFindings\<close> of \<open>modules/aiops/rca.ts\<close>),
  stored in the JSON column \<open>rcaFindings\<close> of an incident and cast back when read.
\<close>

datatype rca_verdict = V_symptom | V_root_cause | V_isolated | V_not_mapped

record rca_incident_ref =
  rr_incidentId :: ident
  rr_title :: string
  rr_sourceLabel :: "string option"
  rr_metric :: "metric_type option"
  rr_offsetSec :: int

record rca_findings =
  rf_verdict :: rca_verdict
  rf_node :: "string option"
  rf_rootCauses :: "(string \<times> rca_incident_ref list) list"
  rf_impacted :: "(string \<times> rca_incident_ref list) list"
  rf_blastRadius :: "nat \<times> string list"
  rf_sameSource :: "rca_incident_ref list"
  rf_correlated :: "rca_incident_ref list"
  rf_firstToStart :: bool
  rf_confidence :: real

record incident_row =
  in_id :: ident
  in_orgId :: ident
  in_ruleId :: "ident option"
  in_title :: string
  in_severity :: severity
  in_status :: incident_status
  in_sourceKind :: "metric_source option"
  in_sourceId :: "ident option"
  in_sourceLabel :: "string option"
  in_metric :: "metric_type option"
  in_triggerValue :: "real option"
  in_peakValue :: "real option"
  in_anomalyScore :: "real option"
  in_startedAt :: ms
  in_acknowledgedAt :: "ms option"
  in_acknowledgedBy :: "ident option"
  in_resolvedAt :: "ms option"
  in_resolvedBy :: "ident option"
  in_resolutionNote :: "string option"
  in_rcaSummaryEn :: "string option"
  in_rcaSummaryFr :: "string option"
  in_rcaConfidence :: "real option"
  in_rcaModel :: "string option"
  in_rcaGeneratedAt :: "ms option"
  in_rcaFindings :: "rca_findings option"
  in_rcaLlmRequestedAt :: "ms option"
  in_rcaLlmAttempts :: nat
  in_rcaLlmError :: "string option"

record incident_event_row =
  ie_id :: ident
  ie_incidentId :: ident
  ie_type :: incident_event_type
  ie_message :: "string option"
  ie_actorId :: "ident option"
  ie_data :: "json option"
  ie_createdAt :: ms

record remediation_action_row =
  ra_id :: ident
  ra_orgId :: ident
  ra_name :: string
  ra_description :: "string option"
  ra_enabled :: bool
  ra_runtime :: script_runtime
  ra_scriptBody :: string
  ra_args :: "json option"
  ra_timeoutSec :: int
  ra_targetHostId :: "ident option"
  ra_allowedOsFamilies :: "os_family list"
  ra_requiresApproval :: bool
  ra_cooldownSec :: int
  ra_maxRunsPerHour :: nat
  ra_createdBy :: "ident option"

record remediation_execution_row =
  re_id :: ident
  re_orgId :: ident
  re_actionId :: ident
  re_incidentId :: "ident option"
  re_hostId :: "ident option"
  re_trigger :: execution_trigger
  re_status :: execution_status
  re_statusReason :: "string option"
  re_runtime :: script_runtime
  re_scriptBody :: string
  re_scriptSha256 :: string
  re_args :: "(string \<times> string) list"
  re_timeoutSec :: int
  re_requestedBy :: "ident option"
  re_approvedBy :: "ident option"
  re_startedAt :: "ms option"
  re_finishedAt :: "ms option"
  re_durationMs :: "int option"
  re_exitCode :: "int option"
  re_stdout :: "string option"
  re_stderr :: "string option"
  re_createdAt :: ms

section \<open>The database\<close>

record db =
  organizations :: "org_row list"
  users :: "user_row list"
  memberships :: "membership_row list"
  sessions :: "session_row list"
  invitations :: "invitation_row list"
  loginAttempts :: "login_attempt_row list"
  auditLogs :: "audit_row list"
  totpChallenges :: "totp_challenge_row list"
  totpRecoveryCodes :: "recovery_code_row list"
  monitoredHosts :: "host_row list"
  metricEntries :: "metric_row list"
  alertRules :: "alert_rule_row list"
  incidents :: "incident_row list"
  incidentEvents :: "incident_event_row list"
  remediationActions :: "remediation_action_row list"
  remediationExecutions :: "remediation_execution_row list"
  networkDevices :: "network_device_row list"
  networkInterfaces :: "network_interface_row list"
  databaseInstances :: "database_row list"
  slowQueryLogs :: "slow_query_row list"
  endpointChecks :: "endpoint_row list"
  topologyNodes :: "topology_node_row list"
  serviceDependencies :: "dependency_row list"

definition empty_db :: db where
  "empty_db = \<lparr>organizations = [], users = [], memberships = [], sessions = [], invitations = [],
     loginAttempts = [], auditLogs = [], totpChallenges = [], totpRecoveryCodes = [],
     monitoredHosts = [], metricEntries = [], alertRules = [], incidents = [],
     incidentEvents = [], remediationActions = [], remediationExecutions = [],
     networkDevices = [], networkInterfaces = [], databaseInstances = [], slowQueryLogs = [],
     endpointChecks = [], topologyNodes = [], serviceDependencies = []\<rparr>"

record dbgen =
  clock :: ms
  cuid :: "nat \<Rightarrow> ident"

text \<open>Who performs an operation (\<open>src/lib/auth/db.ts\<close>).\<close>

record actor =
  a_userId :: ident
  a_email :: string
  a_orgId :: ident
  a_role :: role
  a_ip :: "string option"

section \<open>Orders on the enumerations\<close>

text \<open>Roles by privilege, severities by the order of their declaration in the schema.\<close>

instantiation severity :: linorder
begin

primrec severity_rank :: "severity \<Rightarrow> nat" where
  "severity_rank INFO = 0"
| "severity_rank WARNING = 1"
| "severity_rank CRITICAL = 2"

definition less_eq_severity :: "severity \<Rightarrow> severity \<Rightarrow> bool" where
  "less_eq_severity a b = (severity_rank a \<le> severity_rank b)"

definition less_severity :: "severity \<Rightarrow> severity \<Rightarrow> bool" where
  "less_severity a b = (severity_rank a < severity_rank b)"

instance
proof
  fix x y :: severity
  assume "x \<le> y" and "y \<le> x"
  then show "x = y" by (cases x; cases y) (simp_all add: less_eq_severity_def)
qed (auto simp: less_eq_severity_def less_severity_def)

end

end
