(* ===== verification/Permissions.thy ===== *)
theory Permissions
  imports Schema
begin

text \<open>
  Role-based access control, \<open>src/lib/auth/permissions.ts\<close>: the permission matrix, the roles a
  member may hand out and the members they may manage. The locale \<open>role_delegation\<close> states
  what the member and invitation components rely on (privileges grow with the rank, nothing at
  or above one's own rank can be delegated, owners apart) and is interpreted on the matrix.
\<close>

section \<open>The permission matrix\<close>

datatype permission =
    hosts_read | devices_read | databases_read | endpoints_read | topology_read | finops_read
  | alerts_read | incidents_read | remediation_read | members_read
  | incidents_acknowledge | remediation_run | endpoints_check
  | hosts_write | hosts_rotate_secret | devices_write | databases_write | endpoints_write
  | topology_write | alerts_write | remediation_write
  | members_invite | members_manage | audit_read | org_settings
  | members_manage_privileged | org_delete

definition VIEWER_perms :: "permission list" where
  "VIEWER_perms = [hosts_read, devices_read, databases_read, endpoints_read, topology_read,
     finops_read, alerts_read, incidents_read, remediation_read, members_read]"

definition OPERATOR_perms :: "permission list" where
  "OPERATOR_perms = VIEWER_perms @ [incidents_acknowledge, remediation_run, endpoints_check]"

definition ADMIN_perms :: "permission list" where
  "ADMIN_perms = OPERATOR_perms @ [hosts_write, hosts_rotate_secret, devices_write,
     databases_write, endpoints_write, topology_write, alerts_write, remediation_write,
     members_invite, members_manage, audit_read, org_settings]"

definition OWNER_perms :: "permission list" where
  "OWNER_perms = ADMIN_perms @ [members_manage_privileged, org_delete]"

primrec ROLE_PERMISSIONS :: "role \<Rightarrow> permission list" where
  "ROLE_PERMISSIONS VIEWER = VIEWER_perms"
| "ROLE_PERMISSIONS OPERATOR = OPERATOR_perms"
| "ROLE_PERMISSIONS ADMIN = ADMIN_perms"
| "ROLE_PERMISSIONS OWNER = OWNER_perms"

primrec ROLE_RANK :: "role \<Rightarrow> nat" where
  "ROLE_RANK VIEWER = 0"
| "ROLE_RANK OPERATOR = 1"
| "ROLE_RANK ADMIN = 2"
| "ROLE_RANK OWNER = 3"

definition can :: "role option \<Rightarrow> permission \<Rightarrow> bool" where
  "can r p = (case r of None \<Rightarrow> False | Some x \<Rightarrow> p \<in> set (ROLE_PERMISSIONS x))"

section \<open>Delegation\<close>

definition assignableRoles :: "role \<Rightarrow> role list" where
  "assignableRoles actor =
     (if can (Some actor) members_manage_privileged then [OWNER, ADMIN, OPERATOR, VIEWER]
      else if can (Some actor) members_manage then [OPERATOR, VIEWER]
      else [])"

definition canManageMember :: "role \<Rightarrow> role \<Rightarrow> bool" where
  "canManageMember actor targetRole =
     (if can (Some actor) members_manage_privileged then True
      else can (Some actor) members_manage \<and> ROLE_RANK targetRole < ROLE_RANK ADMIN)"

definition canChangeRole :: "role \<Rightarrow> role \<Rightarrow> role \<Rightarrow> bool" where
  "canChangeRole actor targetRole newRole =
     (canManageMember actor targetRole \<and> newRole \<in> set (assignableRoles actor))"

section \<open>Roles ordered by rank\<close>

instantiation role :: linorder
begin

definition less_eq_role :: "role \<Rightarrow> role \<Rightarrow> bool" where
  "less_eq_role a b = (ROLE_RANK a \<le> ROLE_RANK b)"

definition less_role :: "role \<Rightarrow> role \<Rightarrow> bool" where
  "less_role a b = (ROLE_RANK a < ROLE_RANK b)"

instance
proof
  fix x y :: role
  assume "x \<le> y" and "y \<le> x"
  then show "x = y" by (cases x; cases y) (simp_all add: less_eq_role_def)
qed (auto simp: less_eq_role_def less_role_def)

end

section \<open>What delegation promises\<close>

locale role_delegation =
  fixes rank :: "'r \<Rightarrow> nat"
    and grants :: "'r \<Rightarrow> 'p \<Rightarrow> bool"
    and assignable :: "'r \<Rightarrow> 'r set"
    and manages :: "'r \<Rightarrow> 'r \<Rightarrow> bool"
    and top :: 'r
  assumes grants_mono: "rank a \<le> rank b \<Longrightarrow> grants a p \<Longrightarrow> grants b p"
    and rank_top: "rank r \<le> rank top"
    and assignable_below: "r \<in> assignable a \<Longrightarrow> a = top \<or> rank r < rank a"
    and manages_below: "manages a r \<Longrightarrow> a = top \<or> rank r < rank a"
begin

lemma assignable_le: "r \<in> assignable a \<Longrightarrow> rank r \<le> rank a"
  using assignable_below rank_top by fastforce

lemma manages_le: "manages a r \<Longrightarrow> rank r \<le> rank a"
  using manages_below rank_top by fastforce

lemma no_escalation: "r \<in> assignable a \<Longrightarrow> grants r p \<Longrightarrow> grants a p"
  by (rule grants_mono[OF assignable_le])

lemma equals_untouched: "rank a \<le> rank r \<Longrightarrow> a \<noteq> top \<Longrightarrow> \<not> manages a r \<and> r \<notin> assignable a"
  using assignable_below manages_below by fastforce

end

section \<open>Lemmas\<close>

lemmas perms_defs = can_def VIEWER_perms_def OPERATOR_perms_def ADMIN_perms_def OWNER_perms_def

lemma can_None [simp]: "\<not> can None p"
  by (simp add: can_def)

lemma can_privileged_iff: "can (Some r) members_manage_privileged \<longleftrightarrow> r = OWNER"
  by (cases r) (simp_all add: perms_defs)

lemma can_manage_iff: "can (Some r) members_manage \<longleftrightarrow> r = OWNER \<or> r = ADMIN"
  by (cases r) (simp_all add: perms_defs)

lemma can_invite_iff: "can (Some r) members_invite \<longleftrightarrow> r = OWNER \<or> r = ADMIN"
  by (cases r) (simp_all add: perms_defs)

lemma assignableRoles_eq:
  "assignableRoles r = (case r of OWNER \<Rightarrow> [OWNER, ADMIN, OPERATOR, VIEWER]
     | ADMIN \<Rightarrow> [OPERATOR, VIEWER] | _ \<Rightarrow> [])"
  by (cases r) (simp_all add: assignableRoles_def can_privileged_iff can_manage_iff)

lemma canManageMember_eq:
  "canManageMember a t \<longleftrightarrow> a = OWNER \<or> a = ADMIN \<and> ROLE_RANK t < ROLE_RANK ADMIN"
  by (cases a) (simp_all add: canManageMember_def can_privileged_iff can_manage_iff)

lemma perms_mono: "ROLE_RANK a \<le> ROLE_RANK b \<Longrightarrow> can (Some a) p \<Longrightarrow> can (Some b) p"
  by (cases a; cases b) (auto simp: perms_defs)

interpretation rbac: role_delegation
  ROLE_RANK "\<lambda>r. can (Some r)" "\<lambda>r. set (assignableRoles r)" canManageMember OWNER
proof unfold_locales
  fix a b p
  assume "ROLE_RANK a \<le> ROLE_RANK b" and "can (Some a) p"
  then show "can (Some b) p" by (rule perms_mono)
next
  fix r
  show "ROLE_RANK r \<le> ROLE_RANK OWNER" by (cases r) simp_all
next
  fix r a
  assume "r \<in> set (assignableRoles a)"
  then show "a = OWNER \<or> ROLE_RANK r < ROLE_RANK a"
    by (cases a) (auto simp: assignableRoles_eq)
next
  fix a r
  assume "canManageMember a r"
  then show "a = OWNER \<or> ROLE_RANK r < ROLE_RANK a" by (auto simp: canManageMember_eq)
qed

section \<open>Properties\<close>

text \<open>The four roles form a strict hierarchy: one role ranks below another exactly when its
  permissions are a proper subset of the other's.\<close>

lemma role_hierarchy_strict:
  "ROLE_RANK a < ROLE_RANK b \<longleftrightarrow> {p. can (Some a) p} \<subset> {p. can (Some b) p}"
proof
  assume less: "ROLE_RANK a < ROLE_RANK b"
  then have "{p. can (Some a) p} \<subseteq> {p. can (Some b) p}"
    using perms_mono[of a b] by auto
  moreover have "\<exists>p. can (Some b) p \<and> \<not> can (Some a) p"
    using less
    by (cases a; cases b)
      (auto simp: perms_defs intro: exI[of _ org_delete] exI[of _ hosts_write] exI[of _ remediation_run])
  ultimately show "{p. can (Some a) p} \<subset> {p. can (Some b) p}" by blast
next
  assume sub: "{p. can (Some a) p} \<subset> {p. can (Some b) p}"
  show "ROLE_RANK a < ROLE_RANK b"
  proof (rule ccontr)
    assume "\<not> ROLE_RANK a < ROLE_RANK b"
    then have "{p. can (Some b) p} \<subseteq> {p. can (Some a) p}"
      using perms_mono[of b a] by auto
    with sub show False by blast
  qed
qed

end
