(* ===== verification/Audit_Trail.thy ===== *)
theory Audit_Trail
  imports Permissions
begin

text \<open>
  The audit trail, \<open>src/lib/auth/audit.ts\<close>. An entry is appended by \<open>recordAudit\<close>; the source
  runs it inside the transaction of the change it documents. \<open>auditQuietly\<close> differs only when
  the database itself fails, which the model leaves out.
\<close>

record audit_entry =
  ae_action :: string
  ae_orgId :: "ident option"
  ae_actorId :: "ident option"
  ae_actorEmail :: "string option"
  ae_targetType :: "string option"
  ae_targetId :: "ident option"
  ae_ipAddress :: "string option"
  ae_metadata :: "json option"

text \<open>An entry with every optional field absent, completed by record updates.\<close>

definition audit_entry :: "string \<Rightarrow> audit_entry" where
  "audit_entry action = \<lparr>ae_action = action, ae_orgId = None, ae_actorId = None,
     ae_actorEmail = None, ae_targetType = None, ae_targetId = None, ae_ipAddress = None,
     ae_metadata = None\<rparr>"

text \<open>The entry the business functions build for an actor acting on a target.\<close>

definition actor_entry :: "string \<Rightarrow> actor \<Rightarrow> string \<Rightarrow> ident \<Rightarrow> json option \<Rightarrow> audit_entry" where
  "actor_entry action a ttype tid meta = \<lparr>ae_action = action, ae_orgId = Some (a_orgId a),
     ae_actorId = Some (a_userId a), ae_actorEmail = Some (a_email a), ae_targetType = Some ttype,
     ae_targetId = Some tid, ae_ipAddress = a_ip a, ae_metadata = meta\<rparr>"

definition recordAudit :: "dbgen \<Rightarrow> nat \<Rightarrow> audit_entry \<Rightarrow> db \<Rightarrow> db" where
  "recordAudit g k e d = d\<lparr>auditLogs := insert_row
     \<lparr>al_id = cuid g k, al_action = ae_action e, al_orgId = ae_orgId e, al_actorId = ae_actorId e,
      al_actorEmail = ae_actorEmail e, al_targetType = ae_targetType e, al_targetId = ae_targetId e,
      al_ipAddress = ae_ipAddress e, al_metadata = ae_metadata e, al_createdAt = clock g\<rparr>
     (auditLogs d)\<rparr>"

definition auditQuietly :: "dbgen \<Rightarrow> nat \<Rightarrow> audit_entry \<Rightarrow> db \<Rightarrow> db" where
  "auditQuietly g k e d = recordAudit g k e d"

datatype audit_error = Audit_forbidden

definition listAuditLog :: "actor \<Rightarrow> int \<Rightarrow> db \<Rightarrow> (audit_row list, audit_error) result" where
  "listAuditLog a limit d =
     (if \<not> can (Some (a_role a)) audit_read then fail Audit_forbidden
      else ok (take (nat (min (max limit 1) 500))
        (order_desc al_createdAt (find_many (\<lambda>r. al_orgId r = Some (a_orgId a)) (auditLogs d)))))"

section \<open>What recording leaves alone\<close>

lemma recordAudit_kept [simp]:
  "organizations (recordAudit g k e d) = organizations d"
  "users (recordAudit g k e d) = users d"
  "memberships (recordAudit g k e d) = memberships d"
  "sessions (recordAudit g k e d) = sessions d"
  "invitations (recordAudit g k e d) = invitations d"
  "loginAttempts (recordAudit g k e d) = loginAttempts d"
  "totpChallenges (recordAudit g k e d) = totpChallenges d"
  "totpRecoveryCodes (recordAudit g k e d) = totpRecoveryCodes d"
  "monitoredHosts (recordAudit g k e d) = monitoredHosts d"
  "metricEntries (recordAudit g k e d) = metricEntries d"
  "alertRules (recordAudit g k e d) = alertRules d"
  "incidents (recordAudit g k e d) = incidents d"
  "incidentEvents (recordAudit g k e d) = incidentEvents d"
  "remediationActions (recordAudit g k e d) = remediationActions d"
  "remediationExecutions (recordAudit g k e d) = remediationExecutions d"
  "networkDevices (recordAudit g k e d) = networkDevices d"
  "networkInterfaces (recordAudit g k e d) = networkInterfaces d"
  "databaseInstances (recordAudit g k e d) = databaseInstances d"
  "slowQueryLogs (recordAudit g k e d) = slowQueryLogs d"
  "endpointChecks (recordAudit g k e d) = endpointChecks d"
  "topologyNodes (recordAudit g k e d) = topologyNodes d"
  "serviceDependencies (recordAudit g k e d) = serviceDependencies d"
  by (simp_all add: recordAudit_def)

lemma auditQuietly_eq [simp]: "auditQuietly g k e d = recordAudit g k e d"
  by (simp add: auditQuietly_def)

lemma recordAudit_logs:
  "auditLogs (recordAudit g k e d) = auditLogs d @
     [\<lparr>al_id = cuid g k, al_action = ae_action e, al_orgId = ae_orgId e, al_actorId = ae_actorId e,
       al_actorEmail = ae_actorEmail e, al_targetType = ae_targetType e, al_targetId = ae_targetId e,
       al_ipAddress = ae_ipAddress e, al_metadata = ae_metadata e, al_createdAt = clock g\<rparr>]"
  by (simp add: recordAudit_def insert_row_def)

end
