(* ===== verification/Throttle.thy ===== *)
theory Throttle
  imports Schema
begin

text \<open>
  Sign-in throttling, \<open>src/lib/auth/throttle.ts\<close>, with its constants from
  \<open>src/lib/auth/constants.ts\<close>. The main lemmas: the decision depends only on how many failures
  the window holds, and the announced waiting time is right up to the last second.
\<close>

definition LOGIN_WINDOW_SECONDS :: int where "LOGIN_WINDOW_SECONDS = 15 * 60"
definition LOGIN_MAX_FAILURES_PER_EMAIL :: nat where "LOGIN_MAX_FAILURES_PER_EMAIL = 8"
definition LOGIN_MAX_FAILURES_PER_IP :: nat where "LOGIN_MAX_FAILURES_PER_IP = 30"

datatype throttle_decision = Allowed | Blocked int

text \<open>\<open>max\<close> is positive at both call sites; the pivot is then inside the list.\<close>

definition secondsUntilUnblocked :: "ms list \<Rightarrow> nat \<Rightarrow> ms \<Rightarrow> int" where
  "secondsUntilUnblocked failureTimesAsc mx now =
     (if length failureTimesAsc < mx then 0
      else let pivot = failureTimesAsc ! (length failureTimesAsc - mx)
           in max 1 (ceil_div (pivot + LOGIN_WINDOW_SECONDS * 1000 - now) 1000))"

definition email_failures :: "string \<Rightarrow> ms \<Rightarrow> login_attempt_row \<Rightarrow> bool" where
  "email_failures email since r = (la_email r = email \<and> \<not> la_success r \<and> since \<le> la_createdAt r)"

definition ip_failures :: "string \<Rightarrow> ms \<Rightarrow> login_attempt_row \<Rightarrow> bool" where
  "ip_failures ip since r = (la_ipAddress r = Some ip \<and> \<not> la_success r \<and> since \<le> la_createdAt r)"

definition recent_failures :: "(login_attempt_row \<Rightarrow> bool) \<Rightarrow> db \<Rightarrow> login_attempt_row list" where
  "recent_failures P d = take 500 (order_asc la_createdAt (find_many P (loginAttempts d)))"

text \<open>The address is used only when it is present and not the empty string.\<close>

definition checkLoginThrottle :: "string \<Rightarrow> string option \<Rightarrow> ms \<Rightarrow> db \<Rightarrow> throttle_decision" where
  "checkLoginThrottle email ip now d =
     (let since = now - LOGIN_WINDOW_SECONDS * 1000;
          emailFailures = recent_failures (email_failures email since) d;
          ipFailures = (case ip of None \<Rightarrow> []
             | Some a \<Rightarrow> if a = [] then [] else recent_failures (ip_failures a since) d);
          wait = max (secondsUntilUnblocked (map la_createdAt emailFailures) LOGIN_MAX_FAILURES_PER_EMAIL now)
                     (secondsUntilUnblocked (map la_createdAt ipFailures) LOGIN_MAX_FAILURES_PER_IP now)
      in if wait > 0 then Blocked wait else Allowed)"

definition recordLoginAttempt ::
  "dbgen \<Rightarrow> nat \<Rightarrow> string \<Rightarrow> string option \<Rightarrow> bool \<Rightarrow> ms \<Rightarrow> db \<Rightarrow> db" where
  "recordLoginAttempt g k email ip success now d = d\<lparr>loginAttempts := insert_row
     \<lparr>la_id = cuid g k, la_email = email, la_ipAddress = ip, la_success = success,
      la_createdAt = now\<rparr> (loginAttempts d)\<rparr>"

definition clearEmailFailures :: "string \<Rightarrow> db \<Rightarrow> db" where
  "clearEmailFailures email d =
     d\<lparr>loginAttempts := delete_many (\<lambda>r. la_email r = email \<and> \<not> la_success r) (loginAttempts d)\<rparr>"

definition purgeOldAttempts :: "ms \<Rightarrow> db \<Rightarrow> db" where
  "purgeOldAttempts now d =
     d\<lparr>loginAttempts := delete_many (\<lambda>r. la_createdAt r < now - 24 * 60 * 60 * 1000) (loginAttempts d)\<rparr>"

section \<open>Lemmas\<close>

lemmas throttle_consts =
  LOGIN_WINDOW_SECONDS_def LOGIN_MAX_FAILURES_PER_EMAIL_def LOGIN_MAX_FAILURES_PER_IP_def

lemma secondsUntilUnblocked_pos:
  "0 < secondsUntilUnblocked ts mx now \<longleftrightarrow> mx \<le> length ts"
  by (auto simp: secondsUntilUnblocked_def Let_def)

lemma length_recent_failures: "length (recent_failures P d) = min 500 (count_rows P (loginAttempts d))"
  by (simp add: recent_failures_def find_many_def count_rows_def min.commute)

lemma recent_failures_ge: "n \<le> 500 \<Longrightarrow>
  n \<le> length (recent_failures P d) \<longleftrightarrow> n \<le> count_rows P (loginAttempts d)"
  by (simp add: length_recent_failures)

text \<open>
  Of an ascending list, at most \<open>mx - 1\<close> elements lie above the pivot: those are the failures
  still counted once the pivot has left the window.
\<close>

lemma sorted_above_pivot:
  assumes "sorted xs" and "0 < mx" and "mx \<le> length xs" and "xs ! (length xs - mx) < (c::int)"
  shows "length (filter (\<lambda>x. c \<le> x) xs) < mx"
proof -
  let ?n = "length xs - mx"
  have split: "xs = take (Suc ?n) xs @ drop (Suc ?n) xs" by simp
  have low: "x < c" if "x \<in> set (take (Suc ?n) xs)" for x
  proof -
    from that obtain i where "i < Suc ?n" and "i < length xs" and "x = xs ! i"
      by (auto simp: in_set_conv_nth)
    then have "x \<le> xs ! ?n" using assms(1,2,3) by (auto intro: sorted_nth_mono)
    with assms(4) show ?thesis by simp
  qed
  have "filter (\<lambda>x. c \<le> x) (take (Suc ?n) xs) = []"
    using low by (fastforce simp: filter_empty_conv)
  then have "filter (\<lambda>x. c \<le> x) xs = filter (\<lambda>x. c \<le> x) (drop (Suc ?n) xs)"
    by (subst split) (simp only: filter_append append_Nil)
  then have "length (filter (\<lambda>x. c \<le> x) xs) \<le> length xs - Suc ?n"
    by (metis length_drop length_filter_le)
  with assms(2,3) show ?thesis by linarith
qed

lemma sorted_recent_failures: "sorted (map la_createdAt (recent_failures P d))"
  by (simp add: recent_failures_def order_asc_def take_map[symmetric] sorted_wrt_take)

text \<open>
  Once more than the announced number of seconds has passed, a list that was over the limit
  has fallen below it, provided no older failure was cut off and no failure was added.
\<close>

lemma unblocked_after_wait:
  assumes "count_rows P (loginAttempts d) \<le> 500" and "0 < mx"
    and wait: "now + secondsUntilUnblocked (map la_createdAt (recent_failures P d)) mx now * 1000 < later"
    and "now \<le> later"
    and Q: "\<And>r. Q r \<longleftrightarrow> P r \<and> later - LOGIN_WINDOW_SECONDS * 1000 \<le> la_createdAt r"
  shows "count_rows Q (loginAttempts d) < mx"
proof (cases "count_rows P (loginAttempts d) < mx")
  case True
  have "count_rows Q (loginAttempts d) \<le> count_rows P (loginAttempts d)"
    using Q by (intro count_rows_mono) simp
  with True show ?thesis by simp
next
  case False
  let ?rs = "order_asc la_createdAt (find_many P (loginAttempts d))"
  let ?ts = "map la_createdAt ?rs"
  have rs: "recent_failures P d = ?rs"
    using assms(1) by (simp add: recent_failures_def find_many_def count_rows_def)
  have len: "mx \<le> length ?ts" using False by (simp add: find_many_def count_rows_def)
  let ?pivot = "?ts ! (length ?ts - mx)"
  have "?pivot + LOGIN_WINDOW_SECONDS * 1000 - now
      \<le> ceil_div (?pivot + LOGIN_WINDOW_SECONDS * 1000 - now) 1000 * 1000"
    by (rule ceil_div_bounds(1)) simp
  moreover have "secondsUntilUnblocked ?ts mx now = max 1 (ceil_div (?pivot + LOGIN_WINDOW_SECONDS * 1000 - now) 1000)"
    using len by (simp add: secondsUntilUnblocked_def Let_def)
  ultimately have pivot: "?pivot < later - LOGIN_WINDOW_SECONDS * 1000"
    using wait rs by simp
  have "sorted ?ts" by (simp add: order_asc_def)
  from sorted_above_pivot[OF this assms(2) len pivot]
  have "length (filter (\<lambda>x. later - LOGIN_WINDOW_SECONDS * 1000 \<le> x) ?ts) < mx" .
  moreover have "count_rows Q (loginAttempts d)
      = length (filter (\<lambda>x. later - LOGIN_WINDOW_SECONDS * 1000 \<le> x) ?ts)"
  proof -
    have "count_rows Q (loginAttempts d) = length (filter Q (filter P (loginAttempts d)))"
      using Q by (intro count_filter_le) simp
    also have "filter Q (filter P (loginAttempts d))
        = filter (\<lambda>r. later - LOGIN_WINDOW_SECONDS * 1000 \<le> la_createdAt r) (filter P (loginAttempts d))"
      using Q by (auto intro: filter_cong)
    also have "length \<dots> = length (filter (\<lambda>r. later - LOGIN_WINDOW_SECONDS * 1000 \<le> la_createdAt r) ?rs)"
      by (simp add: order_asc_def find_many_def filter_sort)
    finally show ?thesis by (simp add: filter_map o_def)
  qed
  ultimately show ?thesis by simp
qed

text \<open>The two kinds of failures, as the window moves.\<close>

lemma failures_later:
  "email_failures e (later - w) r \<longleftrightarrow> email_failures e (now - w) r \<and> later - w \<le> la_createdAt r"
  "ip_failures a (later - w) r \<longleftrightarrow> ip_failures a (now - w) r \<and> later - w \<le> la_createdAt r"
  if "now \<le> later"
  using that by (auto simp: email_failures_def ip_failures_def)

lemma checkLoginThrottle_Allowed_iff:
  "checkLoginThrottle email ip now d = Allowed \<longleftrightarrow>
     count_rows (email_failures email (now - LOGIN_WINDOW_SECONDS * 1000)) (loginAttempts d)
       < LOGIN_MAX_FAILURES_PER_EMAIL
     \<and> (case ip of None \<Rightarrow> True | Some a \<Rightarrow> a = [] \<or>
          count_rows (ip_failures a (now - LOGIN_WINDOW_SECONDS * 1000)) (loginAttempts d)
            < LOGIN_MAX_FAILURES_PER_IP)"
proof -
  have blocked: "0 < secondsUntilUnblocked (map la_createdAt (recent_failures P d)) mx now
      \<longleftrightarrow> mx \<le> count_rows P (loginAttempts d)" if "mx \<le> 500" for P mx
    using that by (simp add: secondsUntilUnblocked_pos length_recent_failures)
  have free: "secondsUntilUnblocked (map la_createdAt (recent_failures P d)) mx now \<le> 0
      \<longleftrightarrow> count_rows P (loginAttempts d) < mx" if "mx \<le> 500" for P mx
    using blocked[OF that, of P] by linarith
  have none: "\<not> 0 < secondsUntilUnblocked [] LOGIN_MAX_FAILURES_PER_IP now"
    by (simp add: secondsUntilUnblocked_pos LOGIN_MAX_FAILURES_PER_IP_def del: not_less)
  have small: "LOGIN_MAX_FAILURES_PER_EMAIL \<le> 500" "LOGIN_MAX_FAILURES_PER_IP \<le> 500"
    by (simp_all add: throttle_consts)
  show ?thesis
    using none
    by (auto simp: checkLoginThrottle_def Let_def less_max_iff_disj blocked free small
        split: option.splits)
qed

lemma recordLoginAttempt_kept [simp]:
  "users (recordLoginAttempt g k e ip b t d) = users d"
  "memberships (recordLoginAttempt g k e ip b t d) = memberships d"
  "sessions (recordLoginAttempt g k e ip b t d) = sessions d"
  "organizations (recordLoginAttempt g k e ip b t d) = organizations d"
  "totpChallenges (recordLoginAttempt g k e ip b t d) = totpChallenges d"
  "totpRecoveryCodes (recordLoginAttempt g k e ip b t d) = totpRecoveryCodes d"
  "auditLogs (recordLoginAttempt g k e ip b t d) = auditLogs d"
  "invitations (recordLoginAttempt g k e ip b t d) = invitations d"
  by (simp_all add: recordLoginAttempt_def)

lemma clearEmailFailures_kept [simp]:
  "users (clearEmailFailures e d) = users d"
  "memberships (clearEmailFailures e d) = memberships d"
  "sessions (clearEmailFailures e d) = sessions d"
  "organizations (clearEmailFailures e d) = organizations d"
  "totpChallenges (clearEmailFailures e d) = totpChallenges d"
  "totpRecoveryCodes (clearEmailFailures e d) = totpRecoveryCodes d"
  "auditLogs (clearEmailFailures e d) = auditLogs d"
  "invitations (clearEmailFailures e d) = invitations d"
  by (simp_all add: clearEmailFailures_def)

section \<open>Properties\<close>

text \<open>A sign-in attempt may proceed exactly when fewer than 8 failures for its e-mail address and
  fewer than 30 from its source address (where one is known) lie in the last 15 minutes; the cap
  of 500 rows per query never changes the decision.\<close>

lemma throttle_decision:
  "checkLoginThrottle email ip now d = Allowed \<longleftrightarrow>
     count_rows (email_failures email (now - 900000)) (loginAttempts d) < 8
     \<and> (case ip of None \<Rightarrow> True
        | Some a \<Rightarrow> a = [] \<or> count_rows (ip_failures a (now - 900000)) (loginAttempts d) < 30)"
  by (simp add: checkLoginThrottle_Allowed_iff throttle_consts split: option.split)

text \<open>C17. The waiting time announced to a throttled caller is sufficient: if no further attempt is
  recorded and neither query was truncated, any moment later than that many seconds from now is
  allowed again.\<close>

theorem throttle_wait_sufficient:
  assumes "checkLoginThrottle email ip now d = Blocked w"
    and "count_rows (email_failures email (now - LOGIN_WINDOW_SECONDS * 1000)) (loginAttempts d) \<le> 500"
    and "\<And>a. count_rows (ip_failures a (now - LOGIN_WINDOW_SECONDS * 1000)) (loginAttempts d) \<le> 500"
    and "now + w * 1000 < later"
  shows "checkLoginThrottle email ip later d = Allowed"
proof -
  let ?we = "secondsUntilUnblocked (map la_createdAt
      (recent_failures (email_failures email (now - LOGIN_WINDOW_SECONDS * 1000)) d)) LOGIN_MAX_FAILURES_PER_EMAIL now"
  let ?wi = "\<lambda>a. secondsUntilUnblocked (map la_createdAt
      (recent_failures (ip_failures a (now - LOGIN_WINDOW_SECONDS * 1000)) d)) LOGIN_MAX_FAILURES_PER_IP now"
  have w: "0 < w" "?we \<le> w" and wi: "\<And>a. ip = Some a \<Longrightarrow> a \<noteq> [] \<Longrightarrow> ?wi a \<le> w"
    using assms(1) by (auto simp: checkLoginThrottle_def Let_def split: if_splits)
  have le: "now \<le> later" using w(1) assms(4) by simp
  have email: "count_rows (email_failures email (later - LOGIN_WINDOW_SECONDS * 1000)) (loginAttempts d)
      < LOGIN_MAX_FAILURES_PER_EMAIL"
    by (rule unblocked_after_wait[OF assms(2) _ _ le failures_later(1)[OF le]])
      (use w(2) assms(4) in \<open>simp_all add: LOGIN_MAX_FAILURES_PER_EMAIL_def\<close>)
  have addr: "count_rows (ip_failures a (later - LOGIN_WINDOW_SECONDS * 1000)) (loginAttempts d)
      < LOGIN_MAX_FAILURES_PER_IP" if "ip = Some a" and "a \<noteq> []" for a
    by (rule unblocked_after_wait[OF assms(3)[of a] _ _ le failures_later(2)[OF le]])
      (use wi[OF that] assms(4) in \<open>simp_all add: LOGIN_MAX_FAILURES_PER_IP_def\<close>)
  from email addr show ?thesis
    by (auto simp: checkLoginThrottle_Allowed_iff split: option.splits)
qed

text \<open>Eight failures at time 0: one second later the caller is told to wait 899 seconds.\<close>

definition eight_failures :: db where
  "eight_failures = empty_db\<lparr>loginAttempts := replicate 8
     \<lparr>la_id = ''a'', la_email = ''x@y.org'', la_ipAddress = None, la_success = False, la_createdAt = 0\<rparr>\<rparr>"

lemma eight_failures_blocked: "checkLoginThrottle ''x@y.org'' None 1000 eight_failures = Blocked 899"
  by code_simp

theorem throttle_wait_sufficient_witness:
  "checkLoginThrottle ''x@y.org'' None 1000 eight_failures = Blocked 899
   \<and> checkLoginThrottle ''x@y.org'' None 900001 eight_failures = Allowed"
proof -
  have few: "count_rows P (loginAttempts eight_failures) \<le> 500" for P
    by (simp add: eight_failures_def empty_db_def count_rows_def)
      (rule order_trans[OF length_filter_le], simp)
  have "checkLoginThrottle ''x@y.org'' None 900001 eight_failures = Allowed"
    by (rule throttle_wait_sufficient[OF eight_failures_blocked few few]) simp
  with eight_failures_blocked show ?thesis by simp
qed

text \<open>
  The bound is strict. A failure exactly as old as the window still counts, so at the very
  millisecond the announced wait ends the caller can still be refused.
\<close>

lemma throttle_wait_boundary:
  "checkLoginThrottle ''x@y.org'' None 1000 eight_failures = Blocked 899
   \<and> checkLoginThrottle ''x@y.org'' None (1000 + 899 * 1000) eight_failures \<noteq> Allowed"
  by code_simp

end
