(* ===== verification/Request.thy ===== *)
theory Request
  imports Prelude
begin

text \<open>
  Request metadata, \<open>src/lib/auth/request.ts\<close>, and the shape an e-mail address must have
  (\<open>EMAIL_SHAPE\<close> of \<open>src/lib/auth/users.ts\<close> and \<open>src/lib/auth/invitations.ts\<close>).
\<close>

text \<open>\<open>/[\u0000-\u001f\u007f\\]/\<close>: a control character or a backslash.\<close>

definition forbidden_path_char :: "char \<Rightarrow> bool" where
  "forbidden_path_char c = (code_unit c \<le> 31 \<or> code_unit c = 127 \<or> code_unit c = 92)"

definition safeNextPath :: "string option \<Rightarrow> string \<Rightarrow> string" where
  "safeNextPath value fallback =
     (case value of None \<Rightarrow> fallback
      | Some v \<Rightarrow>
          if v = [] \<or> length v > 512 then fallback
          else if \<not> starts_with v [CHR ''/''] then fallback
          else if starts_with v [CHR ''/'', CHR ''/'']
               \<or> starts_with v [CHR ''/'', CHR 0x5C] then fallback
          else if list_ex forbidden_path_char v then fallback
          else v)"

text \<open>\<open>/^[0-9a-fA-F:.]+$/\<close>\<close>

definition ip_char :: "char \<Rightarrow> bool" where
  "ip_char c = (let n = code_unit c in
     (48 \<le> n \<and> n \<le> 57) \<or> (97 \<le> n \<and> n \<le> 102) \<or> (65 \<le> n \<and> n \<le> 70) \<or> n = 58 \<or> n = 46)"

definition clientIpFromHeaders :: "string option \<Rightarrow> bool \<Rightarrow> string option" where
  "clientIpFromHeaders forwardedFor trustProxy =
     (case forwardedFor of None \<Rightarrow> None
      | Some f \<Rightarrow>
          if \<not> trustProxy \<or> f = [] then None
          else let l = js_trim (last (split_on (CHR '','') f)) in
            if l = [] \<or> length l > 45 then None
            else if list_all ip_char l then Some l else None)"

definition normalizeEmail :: "string \<Rightarrow> string" where
  "normalizeEmail email = toLowerCase (js_trim email)"

text \<open>
  \<open>/^[^\s@]+@[^\s@]+\.[^\s@]{2,}$/\<close>: one \<open>@\<close>, no white space, and in what follows it some dot
  with at least one character before it and two after it.
\<close>

fun dot_with_tail :: "string \<Rightarrow> bool" where
  "dot_with_tail [] = False"
| "dot_with_tail (c # cs) = ((c = CHR ''.'' \<and> 2 \<le> length cs) \<or> dot_with_tail cs)"

definition email_shape :: "string \<Rightarrow> bool" where
  "email_shape s =
     (case split_on (CHR ''@'') s of
        [local, domain] \<Rightarrow> local \<noteq> [] \<and> list_all (\<lambda>c. \<not> js_space c) s \<and> dot_with_tail (tl domain)
      | _ \<Rightarrow> False)"

section \<open>Lemmas\<close>

lemma split_on_nonempty [simp]: "split_on d s \<noteq> []"
  by (induction s) (auto split: list.splits)

lemma set_concat_split_on: "w \<in> set (split_on d s) \<Longrightarrow> set w \<subseteq> set s"
proof (induction s arbitrary: w)
  case Nil
  then show ?case by simp
next
  case (Cons c cs)
  show ?case
  proof (cases "c = d")
    case True
    with Cons show ?thesis by auto
  next
    case False
    obtain v vs where v: "split_on d cs = v # vs" by (cases "split_on d cs") simp_all
    with False Cons.prems have "w = c # v \<or> w \<in> set vs" by auto
    with v Cons.IH show ?thesis by fastforce
  qed
qed

lemma starts_with_iff: "starts_with s p \<longleftrightarrow> take (length p) s = p"
  by (induction s p rule: starts_with.induct) auto

lemma lower_char_idem [simp]: "lower_char (lower_char c) = lower_char c"
proof (cases "65 \<le> code_unit c \<and> code_unit c \<le> 90 \<or> 192 \<le> code_unit c \<and> code_unit c \<le> 222 \<and> code_unit c \<noteq> 215")
  case True
  then have "code_unit c + 32 < 256" by auto
  then have "code_unit (char_of (code_unit c + 32)) = code_unit c + 32"
    by (simp add: code_unit_def of_char_of)
  with True show ?thesis by (auto simp: lower_char_def Let_def)
next
  case False
  then show ?thesis by (auto simp: lower_char_def Let_def)
qed

lemma js_space_lower [simp]: "js_space (lower_char c) = js_space c"
proof (cases "65 \<le> code_unit c \<and> code_unit c \<le> 90 \<or> 192 \<le> code_unit c \<and> code_unit c \<le> 222 \<and> code_unit c \<noteq> 215")
  case True
  then have "code_unit c + 32 < 256" by auto
  then have "code_unit (char_of (code_unit c + 32)) = code_unit c + 32"
    by (simp add: code_unit_def of_char_of)
  with True show ?thesis by (auto simp: lower_char_def Let_def js_space_def)
next
  case False
  then show ?thesis by (auto simp: lower_char_def Let_def)
qed

lemma dropWhile_idle: "(xs \<noteq> [] \<Longrightarrow> \<not> P (hd xs)) \<Longrightarrow> dropWhile P xs = xs"
  by (cases xs) auto

lemma js_trim_ends:
  "js_trim s \<noteq> [] \<Longrightarrow> \<not> js_space (hd (js_trim s)) \<and> \<not> js_space (last (js_trim s))"
proof -
  assume ne: "js_trim s \<noteq> []"
  let ?t = "dropWhile js_space s"
  let ?u = "dropWhile js_space (rev ?t)"
  have u: "?u \<noteq> []" using ne by (simp add: js_trim_def)
  have "\<not> js_space (hd ?u)" by (rule hd_dropWhile[OF u])
  moreover have "last (js_trim s) = hd ?u" using u by (simp add: js_trim_def last_rev)
  moreover have "hd (js_trim s) = hd ?t"
  proof -
    have "?t = rev ?u @ rev (takeWhile js_space (rev ?t))"
      by (metis rev_append rev_rev_ident takeWhile_dropWhile_id)
    then have "\<exists>zs. ?t = js_trim s @ zs" by (auto simp only: js_trim_def)
    then obtain zs where "?t = js_trim s @ zs" by blast
    with ne show ?thesis by simp
  qed
  moreover have "?t \<noteq> []" using u by (metis dropWhile.simps(1) rev.simps(1))
  then have "\<not> js_space (hd ?t)" by (rule hd_dropWhile)
  ultimately show ?thesis by simp
qed

lemma js_trim_fixed:
  "(s \<noteq> [] \<Longrightarrow> \<not> js_space (hd s)) \<Longrightarrow> (s \<noteq> [] \<Longrightarrow> \<not> js_space (last s)) \<Longrightarrow> js_trim s = s"
proof -
  assume h: "s \<noteq> [] \<Longrightarrow> \<not> js_space (hd s)" and l: "s \<noteq> [] \<Longrightarrow> \<not> js_space (last s)"
  have "dropWhile js_space s = s" using h by (rule dropWhile_idle)
  moreover have "dropWhile js_space (rev s) = rev s"
    by (rule dropWhile_idle) (use l in \<open>simp add: hd_rev\<close>)
  ultimately show ?thesis by (simp add: js_trim_def)
qed

lemma normalizeEmail_idem: "normalizeEmail (normalizeEmail e) = normalizeEmail e"
proof -
  let ?t = "js_trim e"
  have "js_trim (toLowerCase ?t) = toLowerCase ?t"
  proof (rule js_trim_fixed)
    assume "toLowerCase ?t \<noteq> []"
    then have ne: "?t \<noteq> []" by (simp add: toLowerCase_def)
    then show "\<not> js_space (hd (toLowerCase ?t))"
      using js_trim_ends[OF ne] by (simp add: toLowerCase_def hd_map)
  next
    assume "toLowerCase ?t \<noteq> []"
    then have ne: "?t \<noteq> []" by (simp add: toLowerCase_def)
    then show "\<not> js_space (last (toLowerCase ?t))"
      using js_trim_ends[OF ne] by (simp add: toLowerCase_def last_map)
  qed
  then show ?thesis by (simp add: normalizeEmail_def) (simp add: toLowerCase_def o_def)
qed

section \<open>Properties\<close>

text \<open>Whatever a client supplies as post-login destination, the path used is the fallback or a path
  that starts with one slash, continues with neither a slash nor a backslash, and holds no
  control character and no backslash: the sign-in page cannot redirect to another site.\<close>

lemma safeNextPath_same_site:
  "safeNextPath v fb = fb
   \<or> (\<exists>rest. safeNextPath v fb = CHR ''/'' # rest
        \<and> take 1 rest \<notin> {''/'', [CHR 0x5C]}
        \<and> length (safeNextPath v fb) \<le> 512
        \<and> (\<nexists>c. c \<in> set (safeNextPath v fb) \<and> forbidden_path_char c))"
proof (cases "safeNextPath v fb = fb")
  case False
  then obtain w where v: "v = Some w" and w: "safeNextPath v fb = w"
    and len: "length w \<le> 512" and slash: "starts_with w ''/''"
    and no2: "\<not> starts_with w ''//''" and nob: "\<not> starts_with w [CHR ''/'', CHR 0x5C]"
    and chars: "\<not> list_ex forbidden_path_char w"
    by (auto simp: safeNextPath_def split: option.splits if_splits)
  obtain c rest where "w = c # rest" using slash by (cases w) simp_all
  with slash have w': "w = CHR ''/'' # rest" by simp
  have "take 1 rest \<notin> {''/'', [CHR 0x5C]}"
    using no2 nob w' by (auto simp: starts_with_iff)
  with w w' len chars show ?thesis by (auto simp: list_ex_iff)
qed simp

end
