(* ===== verification/Password.thy ===== *)
theory Password
  imports Prelude
begin

text \<open>
  The password policy, \<open>validatePasswordPolicy\<close> of \<open>src/lib/auth/password.ts\<close>. Hashing and
  verification are scrypt, a parameter of the components that call them.
\<close>

definition PASSWORD_MIN_LENGTH :: nat where "PASSWORD_MIN_LENGTH = 12"
definition PASSWORD_MAX_LENGTH :: nat where "PASSWORD_MAX_LENGTH = 128"

datatype policy_error = too_short | too_long | common | contains_email | repetitive

definition COMMON :: "string list" where
  "COMMON = [
    ''password'', ''passw0rd'', ''password1'', ''password123'', ''123456789012'', ''1234567890123'',
    ''qwertyuiop12'', ''azertyuiop12'', ''azerty123456'', ''qwerty123456'', ''letmein12345'',
    ''welcome12345'', ''administrator'', ''iloveyou1234'', ''changeme1234'', ''motdepasse12'',
    ''motdepasse123'', ''abc123456789'', ''monitoring12'', ''ikelyanemonitor'', ''adminadmin12'',
    ''admin1234567'', ''1q2w3e4r5t6y'', ''0123456789ab'']"

definition lower_alnum :: "char \<Rightarrow> bool" where
  "lower_alnum c = (let n = code_unit c in (97 \<le> n \<and> n \<le> 122) \<or> (48 \<le> n \<and> n \<le> 57))"

text \<open>\<open>context.email?.split("@")[0]?.toLowerCase()\<close>\<close>

definition email_local :: "string option \<Rightarrow> string" where
  "email_local email = (case email of None \<Rightarrow> []
     | Some e \<Rightarrow> toLowerCase (hd (split_on (CHR ''@'') e)))"

definition validatePasswordPolicy :: "string \<Rightarrow> string option \<Rightarrow> (unit, policy_error) result" where
  "validatePasswordPolicy password email =
     (if length password < PASSWORD_MIN_LENGTH then fail too_short
      else if length password > PASSWORD_MAX_LENGTH then fail too_long
      else let lowered = toLowerCase password;
               flattened = filter lower_alnum lowered in
        if lowered \<in> set COMMON \<or> flattened \<in> set COMMON then fail common
        else if length (remdups lowered) \<le> 3 then fail repetitive
        else let lcl = email_local email in
          if lcl \<noteq> [] \<and> length lcl \<ge> 4 \<and> str_includes lowered lcl then fail contains_email
          else ok ())"

lemma policy_accepts_iff:
  "validatePasswordPolicy p e = ok () \<longleftrightarrow>
     12 \<le> length p \<and> length p \<le> 128
     \<and> toLowerCase p \<notin> set COMMON \<and> filter lower_alnum (toLowerCase p) \<notin> set COMMON
     \<and> 3 < card (set (toLowerCase p))
     \<and> \<not> (4 \<le> length (email_local e) \<and> str_includes (toLowerCase p) (email_local e))"
  by (auto simp: validatePasswordPolicy_def Let_def PASSWORD_MIN_LENGTH_def PASSWORD_MAX_LENGTH_def
      length_remdups_card_conv split: if_splits)

end
