(* ===== verification/Samples.thy ===== *)
theory Samples
  imports Schema
begin

text \<open>
  Concrete rows for the witnesses: two organizations, three accounts, a source of ids,
  a host that accepts any script, a remediation action, an alert rule and an open incident. They
  model no code; they only show that the hypotheses of the theorems can be met.
\<close>

definition sample_gen :: dbgen where
  "sample_gen = \<lparr>clock = 0, cuid = (\<lambda>k. replicate (Suc k) (CHR ''c''))\<rparr>"

definition sample_user :: "ident \<Rightarrow> string \<Rightarrow> user_row" where
  "sample_user uid email = \<lparr>u_id = uid, u_email = email, u_name = None,
     u_passwordHash = Some ''pw'', u_locale = EN, u_timezone = ''UTC'', u_lastLoginAt = None,
     u_passwordChangedAt = None, u_disabledAt = None, u_totpSecretEnc = None, u_totpEnabledAt = None\<rparr>"

definition sample_membership :: "ident \<Rightarrow> ident \<Rightarrow> ident \<Rightarrow> role \<Rightarrow> membership_row" where
  "sample_membership mid uid oid r =
     \<lparr>m_id = mid, m_userId = uid, m_orgId = oid, m_role = r, m_createdAt = 0\<rparr>"

definition sample_actor :: "ident \<Rightarrow> ident \<Rightarrow> role \<Rightarrow> actor" where
  "sample_actor uid oid r =
     \<lparr>a_userId = uid, a_email = ''actor@acme.org'', a_orgId = oid, a_role = r, a_ip = None\<rparr>"

definition sample_db :: db where
  "sample_db = empty_db\<lparr>
     organizations := [\<lparr>o_id = ''acme'', o_name = ''Acme'', o_slug = ''acme''\<rparr>,
                       \<lparr>o_id = ''beta'', o_name = ''Beta'', o_slug = ''beta''\<rparr>],
     users := [sample_user ''ann'' ''ann@acme.org'', sample_user ''bob'' ''bob@acme.org'',
               sample_user ''eve'' ''eve@beta.org''],
     memberships := [sample_membership ''m1'' ''ann'' ''acme'' OWNER,
                     sample_membership ''m2'' ''bob'' ''acme'' ADMIN,
                     sample_membership ''m3'' ''eve'' ''beta'' OWNER]\<rparr>"

definition sample_host :: host_row where
  "sample_host = \<lparr>h_id = ''h1'', h_orgId = ''acme'', h_hostname = ''web01'', h_displayName = None, h_enabled = True,
     h_keyId = ''k1'', h_hmacSecretEnc = ''x'', h_secretRotatedAt = 0, h_previousHmacSecretEnc = None,
     h_previousSecretExpiresAt = None, h_osFamily = LINUX, h_status = UP, h_lastSeenAt = Some 0,
     h_remediationMode = Some ''any'', h_remediationAllowlist = [],
     h_agentVersion = None, h_firstSeenAt = None, h_createdAt = 0, h_inventory = no_inventory\<rparr>"

definition sample_action :: remediation_action_row where
  "sample_action = \<lparr>ra_id = ''a1'', ra_orgId = ''acme'', ra_name = ''restart'', ra_description = None, ra_enabled = True,
     ra_runtime = BASH, ra_scriptBody = ''reboot'', ra_args = None, ra_timeoutSec = 60, ra_targetHostId = Some ''h1'',
     ra_allowedOsFamilies = [LINUX], ra_requiresApproval = True, ra_cooldownSec = 300, ra_maxRunsPerHour = 3, ra_createdBy = None\<rparr>"

definition sample_rule :: alert_rule_row where
  "sample_rule = \<lparr>ar_id = ''r1'', ar_orgId = ''acme'', ar_name = ''CPU'', ar_description = None, ar_enabled = True,
     ar_sourceKind = HOST, ar_sourceId = None, ar_metric = CPU_USAGE_PERCENT, ar_instanceFilter = None,
     ar_operator = Some GT, ar_threshold = Some 90, ar_durationSec = 300, ar_severity = WARNING,
     ar_anomalyDetection = False, ar_anomalySensitivity = MEDIUM, ar_channels = [], ar_notifyEmails = [],
     ar_slackWebhookUrl = None, ar_teamsWebhookUrl = None, ar_webhookUrl = None, ar_cooldownSec = 600,
     ar_remediationActionId = Some ''a1'', ar_autoRemediate = True, ar_createdAt = 0\<rparr>"

definition sample_incident :: incident_row where
  "sample_incident = \<lparr>in_id = ''i1'', in_orgId = ''acme'', in_ruleId = Some ''r1'', in_title = ''CPU'', in_severity = WARNING,
     in_status = OPEN, in_sourceKind = Some HOST, in_sourceId = Some ''h1'', in_sourceLabel = None, in_metric = None,
     in_triggerValue = None, in_peakValue = None, in_anomalyScore = None, in_startedAt = 0, in_acknowledgedAt = None,
     in_acknowledgedBy = None, in_resolvedAt = None, in_resolvedBy = None, in_resolutionNote = None,
     in_rcaSummaryEn = None, in_rcaSummaryFr = None, in_rcaConfidence = None, in_rcaModel = None, in_rcaGeneratedAt = None,
     in_rcaFindings = None, in_rcaLlmRequestedAt = None, in_rcaLlmAttempts = 0, in_rcaLlmError = None\<rparr>"

end
