(* ===== verification/Interfaces.thy ===== *)
theory Interfaces
  imports Prelude
begin

text \<open>
  The contracts several components share, each a locale proved once and interpreted on the
  components' own definitions.

  \<^item> \<open>compare_and_set\<close>: an \<open>updateMany\<close> guarded by the very state it leaves. The source uses it
    to let exactly one of several racing requests win (accepting an invitation, collecting,
    approving and reporting an execution, revoking a session).
  \<^item> \<open>keyed_update\<close>: an update that never writes a unique column, so uniqueness survives it.
  \<^item> \<open>tenant_scoped\<close>: an operation issued on behalf of one organization that leaves the rows of
    every other organization alone, lifted to any sequence of such operations.
  \<^item> \<open>kept_invariant\<close>: a family of operations that keep an invariant, lifted to every state a
    sequence of them reaches.
\<close>

section \<open>Compare-and-set\<close>

locale compare_and_set =
  fixes key :: "'r \<Rightarrow> 'k"
    and guard :: "'r \<Rightarrow> bool"
    and upd :: "'p \<Rightarrow> 'r \<Rightarrow> 'r"
  assumes key_upd: "key (upd p r) = key r"
    and guard_upd: "\<not> guard (upd p r)"
begin

definition cas :: "'k \<Rightarrow> 'p \<Rightarrow> 'r list \<Rightarrow> 'r list" where
  "cas k p t = update_many (\<lambda>r. key r = k \<and> guard r) (upd p) t"

definition wins :: "'k \<Rightarrow> 'r list \<Rightarrow> bool" where
  "wins k t = (count_rows (\<lambda>r. key r = k \<and> guard r) t = 1)"

lemma cas_closes:
  assumes "r \<in> set (cas k p t)" and "key r = k"
  shows "\<not> guard r"
proof -
  from assms(1) obtain r0 where e: "r = (if key r0 = k \<and> guard r0 then upd p r0 else r0)"
    by (auto simp: cas_def set_update_many)
  show ?thesis
  proof (cases "key r0 = k \<and> guard r0")
    case True
    with e show ?thesis by (simp add: guard_upd)
  next
    case False
    with e assms(2) show ?thesis by auto
  qed
qed

lemma cas_once: "\<not> wins k (cas k p t)"
proof -
  have "count_rows (\<lambda>r. key r = k \<and> guard r) (cas k p t) = 0"
    using cas_closes by (auto simp: count_rows_zero)
  then show ?thesis by (simp add: wins_def)
qed

lemma cas_other: "k' \<noteq> k \<Longrightarrow> wins k' (cas k p t) = wins k' t"
proof -
  assume "k' \<noteq> k"
  then have "count_rows (\<lambda>r. key r = k' \<and> guard r) (cas k p t)
      = count_rows (\<lambda>r. key r = k' \<and> guard r) t"
    by (induction t) (auto simp: cas_def key_upd)
  then show ?thesis by (simp add: wins_def)
qed

lemma cas_keys: "map key (cas k p t) = map key t"
  by (simp add: cas_def map_update_many key_upd)

lemma cas_stays_closed:
  assumes "\<forall>r \<in> set t. key r = k \<longrightarrow> \<not> guard r"
  shows "\<forall>r \<in> set (cas k' p t). key r = k \<longrightarrow> \<not> guard r"
  using assms by (auto simp: cas_def set_update_many guard_upd key_upd)

lemma wins_found:
  assumes "distinct (map key t)" and "r \<in> set t" and "guard r"
  shows "wins (key r) t"
  using count_rows_unique[OF assms(1,2), of "\<lambda>x. key x = key r \<and> guard x"] assms(3)
  by (simp add: wins_def)

end

section \<open>Updates that keep a unique column\<close>

locale keyed_update =
  fixes key :: "'r \<Rightarrow> 'k"
    and upd :: "'p \<Rightarrow> 'r \<Rightarrow> 'r"
  assumes keeps_key: "key (upd p r) = key r"
begin

lemma keys_update: "map key (update_many P (upd p) t) = map key t"
  by (simp add: map_update_many keeps_key)

lemma unique_update: "distinct (map key t) \<Longrightarrow> distinct (map key (update_many P (upd p) t))"
  by (simp add: keys_update)

lemma find_update:
  assumes "distinct (map key t)" and "r \<in> set t"
  shows "find_first (\<lambda>x. key x = key r) (update_many P (upd p) t) = Some (if P r then upd p r else r)"
proof -
  let ?r = "if P r then upd p r else r"
  have "?r \<in> set (update_many P (upd p) t)" using assms(2) by (auto simp: set_update_many)
  moreover have "distinct (map key (update_many P (upd p) t))" by (simp add: keys_update assms(1))
  ultimately have "find_first (\<lambda>x. key x = key ?r) (update_many P (upd p) t) = Some ?r"
    by (intro find_first_key)
  moreover have "key ?r = key r" by (simp add: keeps_key)
  ultimately show ?thesis by simp
qed

end

section \<open>Invariants of a family of operations\<close>

locale kept_invariant =
  fixes inv :: "'s \<Rightarrow> bool"
    and op :: "'cmd \<Rightarrow> 's \<Rightarrow> 's"
  assumes op_inv: "inv s \<Longrightarrow> inv (op c s)"
begin

inductive reaches :: "'s \<Rightarrow> 's \<Rightarrow> bool" for s0 :: 's where
  here: "reaches s0 s0"
| there: "reaches s0 s \<Longrightarrow> reaches s0 (op c s)"

lemma reaches_inv: "reaches s0 s \<Longrightarrow> inv s0 \<Longrightarrow> inv s"
  by (induction rule: reaches.induct) (auto intro: op_inv)

lemma fold_inv: "inv s \<Longrightarrow> inv (fold op cs s)"
  by (induction cs arbitrary: s) (auto intro: op_inv)

lemma fold_reaches: "reaches s0 s \<Longrightarrow> reaches s0 (fold op cs s)"
  by (induction cs arbitrary: s) (auto intro: there)

end

section \<open>Operations confined to one organization\<close>

text \<open>
  An extension of \<open>kept_invariant\<close>: under the invariant (unique ids), a command issued for one
  organization leaves the rows of every other one as they are.
\<close>

locale tenant_scoped = kept_invariant inv op
  for inv :: "'s \<Rightarrow> bool" and op :: "'cmd \<Rightarrow> 's \<Rightarrow> 's" +
  fixes cmd_org :: "'cmd \<Rightarrow> 'org"
    and rows_of :: "'org \<Rightarrow> 's \<Rightarrow> 'rows"
  assumes foreign_rows: "inv s \<Longrightarrow> org \<noteq> cmd_org c \<Longrightarrow> rows_of org (op c s) = rows_of org s"
begin

lemma foreign_rows_all:
  "inv s \<Longrightarrow> \<forall>c \<in> set cs. cmd_org c \<noteq> org \<Longrightarrow> rows_of org (fold op cs s) = rows_of org s"
proof (induction cs arbitrary: s)
  case (Cons c cs)
  then have "rows_of org (fold op cs (op c s)) = rows_of org (op c s)" by (simp add: op_inv)
  also have "\<dots> = rows_of org s" using Cons.prems by (intro foreign_rows) auto
  finally show ?case by simp
qed simp

end

end
