(* ===== verification/Sessions.thy ===== *)
theory Sessions
  imports Samples Interfaces
begin

text \<open>
  Database-backed sessions, \<open>src/lib/auth/sessions.ts\<close>. \<open>hashToken\<close> (SHA-256) and the random
  token of \<open>generateToken\<close> are parameters. \<open>session_exec\<close> runs the operations of the component
  as commands; \<open>sessions_ok\<close> is their invariant (the idle and the absolute limit), interpreted as
  a \<open>kept_invariant\<close>.
\<close>

definition SESSION_IDLE_SECONDS :: int where "SESSION_IDLE_SECONDS = 12 * 60 * 60"
definition SESSION_ABSOLUTE_SECONDS :: int where "SESSION_ABSOLUTE_SECONDS = 7 * 24 * 60 * 60"
definition SESSION_REFRESH_INTERVAL_SECONDS :: int where "SESSION_REFRESH_INTERVAL_SECONDS = 5 * 60"

record session_user =
  su_id :: ident
  su_email :: string
  su_name :: "string option"
  su_locale :: ui_locale
  su_timezone :: string
  su_totpEnabledAt :: "ms option"

record session_membership =
  sm_orgId :: ident
  sm_orgName :: string
  sm_orgSlug :: string
  sm_role :: role

record session_context =
  sc_sessionId :: ident
  sc_user :: session_user
  sc_memberships :: "session_membership list"
  sc_activeOrg :: "session_membership option"
  sc_expiresAt :: ms

record created_session =
  cs_token :: string
  cs_sessionId :: ident
  cs_expiresAt :: ms
  cs_activeOrgId :: "ident option"

section \<open>Operations\<close>

definition createSession ::
  "(string \<Rightarrow> string) \<Rightarrow> dbgen \<Rightarrow> nat \<Rightarrow> string \<Rightarrow> ident \<Rightarrow> string option \<Rightarrow> string option \<Rightarrow> ms
   \<Rightarrow> db \<Rightarrow> db \<times> created_session" where
  "createSession hashToken g k token userId ip userAgent now d =
     (let absoluteExpiresAt = now + seconds SESSION_ABSOLUTE_SECONDS;
          expiresAt = min (now + seconds SESSION_IDLE_SECONDS) absoluteExpiresAt;
          firstMembership = find_first (\<lambda>m. True)
            (order_asc m_createdAt (find_many (\<lambda>m. m_userId m = userId) (memberships d)));
          activeOrgId = map_option m_orgId firstMembership
      in (d\<lparr>sessions := insert_row
            \<lparr>s_id = cuid g k, s_userId = userId, s_tokenHash = hashToken token,
             s_activeOrgId = activeOrgId, s_createdAt = now, s_lastUsedAt = now,
             s_expiresAt = expiresAt, s_absoluteExpiresAt = absoluteExpiresAt, s_ipAddress = ip,
             s_userAgent = map_option (take 255) userAgent, s_revokedAt = None\<rparr> (sessions d)\<rparr>,
          \<lparr>cs_token = token, cs_sessionId = cuid g k, cs_expiresAt = expiresAt,
           cs_activeOrgId = activeOrgId\<rparr>))"

text \<open>
  The memberships of a user with the organization each belongs to, oldest first. The foreign key
  of the schema guarantees that the organization exists.
\<close>

definition user_memberships :: "db \<Rightarrow> ident \<Rightarrow> session_membership list" where
  "user_memberships d userId =
     concat (map (\<lambda>m. case find_first (\<lambda>og. o_id og = m_orgId m) (organizations d) of
           None \<Rightarrow> []
         | Some og \<Rightarrow> [\<lparr>sm_orgId = o_id og, sm_orgName = o_name og, sm_orgSlug = o_slug og,
                      sm_role = m_role m\<rparr>])
       (order_asc m_createdAt (find_many (\<lambda>m. m_userId m = userId) (memberships d))))"

definition choose_active :: "ident option \<Rightarrow> session_membership list \<Rightarrow> session_membership option" where
  "choose_active stored ms =
     (case find_first (\<lambda>m. Some (sm_orgId m) = stored) ms of
        Some m \<Rightarrow> Some m
      | None \<Rightarrow> (case ms of [] \<Rightarrow> None | m # _ \<Rightarrow> Some m))"

definition validateSession ::
  "(string \<Rightarrow> string) \<Rightarrow> string \<Rightarrow> ms \<Rightarrow> db \<Rightarrow> db \<times> session_context option" where
  "validateSession hashToken token now d =
     (if token = [] \<or> length token > 256 then (d, None)
      else case find_first (\<lambda>s. s_tokenHash s = hashToken token) (sessions d) of
        None \<Rightarrow> (d, None)
      | Some s \<Rightarrow>
        (case find_first (\<lambda>u. u_id u = s_userId s) (users d) of
           None \<Rightarrow> (d, None)
         | Some u \<Rightarrow>
           if s_revokedAt s \<noteq> None then (d, None)
           else if s_expiresAt s \<le> now \<or> s_absoluteExpiresAt s \<le> now then (d, None)
           else if u_disabledAt u \<noteq> None then (d, None)
           else
             let ms = user_memberships d (u_id u);
                 active = choose_active (s_activeOrgId s) ms;
                 idleFor = now - s_lastUsedAt s;
                 activeOrgChanged = (map_option sm_orgId active \<noteq> s_activeOrgId s);
                 refresh = (idleFor > seconds SESSION_REFRESH_INTERVAL_SECONDS \<or> activeOrgChanged);
                 expiresAt = (if refresh
                   then min (now + seconds SESSION_IDLE_SECONDS) (s_absoluteExpiresAt s)
                   else s_expiresAt s);
                 d' = (if refresh
                   then d\<lparr>sessions := update_many (\<lambda>r. s_id r = s_id s)
                          (\<lambda>r. r\<lparr>s_lastUsedAt := now, s_expiresAt := expiresAt,
                                s_activeOrgId := map_option sm_orgId active\<rparr>) (sessions d)\<rparr>
                   else d)
             in (d', Some \<lparr>sc_sessionId = s_id s,
                   sc_user = \<lparr>su_id = u_id u, su_email = u_email u, su_name = u_name u,
                      su_locale = u_locale u, su_timezone = u_timezone u,
                      su_totpEnabledAt = u_totpEnabledAt u\<rparr>,
                   sc_memberships = ms, sc_activeOrg = active, sc_expiresAt = expiresAt\<rparr>)))"

definition setActiveOrg :: "ident \<Rightarrow> ident \<Rightarrow> ident \<Rightarrow> db \<Rightarrow> db \<times> bool" where
  "setActiveOrg sessionId userId orgId d =
     (case find_first (\<lambda>m. m_userId m = userId \<and> m_orgId m = orgId) (memberships d) of
        None \<Rightarrow> (d, False)
      | Some _ \<Rightarrow>
          let own = (\<lambda>s. s_id s = sessionId \<and> s_userId s = userId \<and> s_revokedAt s = None)
          in (d\<lparr>sessions := update_many own (\<lambda>s. s\<lparr>s_activeOrgId := Some orgId\<rparr>) (sessions d)\<rparr>,
              count_rows own (sessions d) = 1))"

definition revokeSessionByToken :: "(string \<Rightarrow> string) \<Rightarrow> string \<Rightarrow> ms \<Rightarrow> db \<Rightarrow> db" where
  "revokeSessionByToken hashToken token now d =
     d\<lparr>sessions := update_many (\<lambda>s. s_tokenHash s = hashToken token \<and> s_revokedAt s = None)
         (\<lambda>s. s\<lparr>s_revokedAt := Some now\<rparr>) (sessions d)\<rparr>"

definition revokeAllSessions :: "ident \<Rightarrow> ident option \<Rightarrow> ms \<Rightarrow> db \<Rightarrow> db \<times> nat" where
  "revokeAllSessions userId exceptSessionId now d =
     (let hit = (\<lambda>s. s_userId s = userId \<and> s_revokedAt s = None \<and>
            (case exceptSessionId of None \<Rightarrow> True | Some e \<Rightarrow> e = [] \<or> s_id s \<noteq> e))
      in (d\<lparr>sessions := update_many hit (\<lambda>s. s\<lparr>s_revokedAt := Some now\<rparr>) (sessions d)\<rparr>,
          count_rows hit (sessions d)))"

definition purgeDeadSessions :: "ms \<Rightarrow> db \<Rightarrow> db" where
  "purgeDeadSessions now d =
     (let cutoff = now - 24 * 60 * 60 * 1000
      in d\<lparr>sessions := delete_many (\<lambda>s. s_absoluteExpiresAt s < cutoff \<or>
            (case s_revokedAt s of None \<Rightarrow> False | Some t \<Rightarrow> t < cutoff)) (sessions d)\<rparr>)"

section \<open>The component as a state machine\<close>

datatype session_cmd =
    Create dbgen nat string ident "string option" "string option" ms
  | Validate string ms
  | SetActive ident ident ident
  | RevokeToken string ms
  | RevokeAll ident "ident option" ms
  | Purge ms

text \<open>
  \<open>Session.id\<close> is the primary key and \<open>Session.tokenHash\<close> is unique: inserting a duplicate makes
  the database raise an error and leaves the table as it was.
\<close>

definition session_clash :: "(string \<Rightarrow> string) \<Rightarrow> ident \<Rightarrow> string \<Rightarrow> db \<Rightarrow> bool" where
  "session_clash h sid tok d = list_ex (\<lambda>s. s_id s = sid \<or> s_tokenHash s = h tok) (sessions d)"

primrec session_exec :: "(string \<Rightarrow> string) \<Rightarrow> session_cmd \<Rightarrow> db \<Rightarrow> db" where
  "session_exec h (Create g k tok u ip ua now) d =
     (if session_clash h (cuid g k) tok d then d else fst (createSession h g k tok u ip ua now d))"
| "session_exec h (Validate tok now) d = fst (validateSession h tok now d)"
| "session_exec h (SetActive sid u og) d = fst (setActiveOrg sid u og d)"
| "session_exec h (RevokeToken tok now) d = revokeSessionByToken h tok now d"
| "session_exec h (RevokeAll u ex now) d = fst (revokeAllSessions u ex now d)"
| "session_exec h (Purge now) d = purgeDeadSessions now d"

text \<open>The limits every stored session respects.\<close>

definition session_ok :: "session_row \<Rightarrow> bool" where
  "session_ok s = (s_expiresAt s \<le> s_absoluteExpiresAt s
     \<and> s_absoluteExpiresAt s \<le> s_createdAt s + seconds SESSION_ABSOLUTE_SECONDS
     \<and> s_expiresAt s \<le> s_lastUsedAt s + seconds SESSION_IDLE_SECONDS)"

definition sessions_ok :: "db \<Rightarrow> bool" where
  "sessions_ok d = (list_all session_ok (sessions d)
     \<and> distinct (map s_id (sessions d)) \<and> distinct (map s_tokenHash (sessions d)))"

text \<open>No session of this token hash is live.\<close>

definition token_dead :: "string \<Rightarrow> db \<Rightarrow> bool" where
  "token_dead th d = list_all (\<lambda>s. s_tokenHash s = th \<longrightarrow> s_revokedAt s \<noteq> None) (sessions d)"

primrec creates_hash :: "(string \<Rightarrow> string) \<Rightarrow> string \<Rightarrow> session_cmd \<Rightarrow> bool" where
  "creates_hash h th (Create g k tok u ip ua now) = (h tok = th)"
| "creates_hash h th (Validate tok now) = False"
| "creates_hash h th (SetActive sid u og) = False"
| "creates_hash h th (RevokeToken tok now) = False"
| "creates_hash h th (RevokeAll u ex now) = False"
| "creates_hash h th (Purge now) = False"

section \<open>Lemmas\<close>

lemmas session_consts = SESSION_IDLE_SECONDS_def SESSION_ABSOLUTE_SECONDS_def
  SESSION_REFRESH_INTERVAL_SECONDS_def seconds_def

text \<open>Revoking is a compare-and-set on the session's id; no update of the component writes the
  unique columns.\<close>

interpretation revoke: compare_and_set s_id "\<lambda>s. s_revokedAt s = None"
  "\<lambda>now s. s\<lparr>s_revokedAt := Some now\<rparr>"
  by unfold_locales simp_all

interpretation session_ids: keyed_update s_id
  "\<lambda>p s. s\<lparr>s_lastUsedAt := fst p, s_expiresAt := fst (snd p), s_activeOrgId := snd (snd p)\<rparr>"
  by unfold_locales simp

lemma createSession_sessions:
  "sessions (fst (createSession h g k tok u ip ua now d)) = sessions d @
     [\<lparr>s_id = cuid g k, s_userId = u, s_tokenHash = h tok,
       s_activeOrgId = cs_activeOrgId (snd (createSession h g k tok u ip ua now d)),
       s_createdAt = now, s_lastUsedAt = now, s_expiresAt = now + seconds SESSION_IDLE_SECONDS,
       s_absoluteExpiresAt = now + seconds SESSION_ABSOLUTE_SECONDS, s_ipAddress = ip,
       s_userAgent = map_option (take 255) ua, s_revokedAt = None\<rparr>]"
  by (simp add: createSession_def Let_def insert_row_def session_consts)

lemma createSession_kept [simp]:
  "users (fst (createSession h g k tok u ip ua now d)) = users d"
  "memberships (fst (createSession h g k tok u ip ua now d)) = memberships d"
  "organizations (fst (createSession h g k tok u ip ua now d)) = organizations d"
  "loginAttempts (fst (createSession h g k tok u ip ua now d)) = loginAttempts d"
  "totpChallenges (fst (createSession h g k tok u ip ua now d)) = totpChallenges d"
  "totpRecoveryCodes (fst (createSession h g k tok u ip ua now d)) = totpRecoveryCodes d"
  "auditLogs (fst (createSession h g k tok u ip ua now d)) = auditLogs d"
  "invitations (fst (createSession h g k tok u ip ua now d)) = invitations d"
  by (simp_all add: createSession_def Let_def)

text \<open>What a successful validation has established, and what it leaves behind.\<close>

lemma validateSession_Some:
  assumes "validateSession h tok now d = (d', Some ctx)"
  shows "\<exists>s u. find_first (\<lambda>s. s_tokenHash s = h tok) (sessions d) = Some s
    \<and> find_first (\<lambda>u. u_id u = s_userId s) (users d) = Some u
    \<and> s_revokedAt s = None \<and> now < s_expiresAt s \<and> now < s_absoluteExpiresAt s \<and> u_disabledAt u = None
    \<and> sc_sessionId ctx = s_id s \<and> su_id (sc_user ctx) = u_id u \<and> su_email (sc_user ctx) = u_email u
    \<and> sc_memberships ctx = user_memberships d (u_id u)
    \<and> sc_activeOrg ctx = choose_active (s_activeOrgId s) (user_memberships d (u_id u))
    \<and> (sc_expiresAt ctx = s_expiresAt s
       \<or> sc_expiresAt ctx = min (now + seconds SESSION_IDLE_SECONDS) (s_absoluteExpiresAt s))"
  using assms
  by (auto simp: validateSession_def Let_def not_le split: if_splits option.splits)

lemma validateSession_sessions:
  "sessions (fst (validateSession h tok now d)) = sessions d
   \<or> (\<exists>s ac. s \<in> set (sessions d) \<and> s_tokenHash s = h tok \<and> s_revokedAt s = None \<and>
        sessions (fst (validateSession h tok now d)) =
          update_many (\<lambda>r. s_id r = s_id s)
            (\<lambda>r. r\<lparr>s_lastUsedAt := now,
                   s_expiresAt := min (now + seconds SESSION_IDLE_SECONDS) (s_absoluteExpiresAt s),
                   s_activeOrgId := ac\<rparr>) (sessions d))"
proof (cases "find_first (\<lambda>s. s_tokenHash s = h tok) (sessions d)")
  case None
  then show ?thesis by (auto simp: validateSession_def)
next
  case (Some s)
  then have "s \<in> set (sessions d)" and "s_tokenHash s = h tok" by (auto dest: find_first_SomeD)
  with Some show ?thesis
    by (auto simp: validateSession_def Let_def split: option.splits)
qed

lemma choose_active_in: "choose_active st ms = Some m \<Longrightarrow> m \<in> set ms"
  by (auto simp: choose_active_def split: option.splits list.splits dest: find_first_SomeD)

lemma user_memberships_in:
  assumes "sm \<in> set (user_memberships d u)"
  shows "\<exists>m \<in> set (memberships d). m_userId m = u \<and> m_orgId m = sm_orgId sm \<and> m_role m = sm_role sm"
  using assms
  by (auto simp: user_memberships_def find_many_def split: option.splits
      dest!: find_first_SomeD[OF sym])

section \<open>The invariant\<close>

lemma validate_keeps_ok:
  assumes inv: "sessions_ok d"
  shows "sessions_ok (fst (validateSession h tok now d))"
  using validateSession_sessions[of h tok now d]
proof (elim disjE exE conjE)
  assume "sessions (fst (validateSession h tok now d)) = sessions d"
  with inv show ?thesis by (simp add: sessions_ok_def)
next
  fix s :: session_row and ac
  let ?f = "\<lambda>r. r\<lparr>s_lastUsedAt := now,
    s_expiresAt := min (now + seconds SESSION_IDLE_SECONDS) (s_absoluteExpiresAt s), s_activeOrgId := ac\<rparr>"
  assume s: "s \<in> set (sessions d)"
    and eq: "sessions (fst (validateSession h tok now d)) = update_many (\<lambda>r. s_id r = s_id s) ?f (sessions d)"
  have same: "r = s" if "r \<in> set (sessions d)" and "s_id r = s_id s" for r
    using inv s that by (auto simp: sessions_ok_def distinct_map dest: inj_onD)
  have "list_all session_ok (update_many (\<lambda>r. s_id r = s_id s) ?f (sessions d))"
    using inv by (intro update_many_all) (auto simp: sessions_ok_def session_ok_def dest!: same)
  with inv show ?thesis by (simp add: sessions_ok_def eq map_update_many)
qed

lemma create_keeps_ok:
  assumes "sessions_ok d" and "\<not> session_clash h (cuid g k) tok d"
  shows "sessions_ok (fst (createSession h g k tok u ip ua now d))"
  using assms
  by (auto simp: sessions_ok_def createSession_sessions session_ok_def session_consts
      session_clash_def list_ex_iff)

lemma revocations_keep_ok:
  "sessions_ok d \<Longrightarrow> sessions_ok (revokeSessionByToken h tok now d)"
  "sessions_ok d \<Longrightarrow> sessions_ok (fst (revokeAllSessions u ex now d))"
  "sessions_ok d \<Longrightarrow> sessions_ok (fst (setActiveOrg sid u og d))"
  "sessions_ok d \<Longrightarrow> sessions_ok (purgeDeadSessions now d)"
     apply (auto simp: sessions_ok_def revokeSessionByToken_def map_update_many session_ok_def
      intro!: update_many_all)[1]
    apply (auto simp: sessions_ok_def revokeAllSessions_def Let_def map_update_many session_ok_def
      intro!: update_many_all)[1]
   apply (auto simp: sessions_ok_def setActiveOrg_def Let_def map_update_many session_ok_def
      intro!: update_many_all split: option.splits)[1]
  apply (auto simp: sessions_ok_def purgeDeadSessions_def Let_def list_all_iff
      set_delete_many intro: distinct_map_delete_many)[1]
  done

interpretation session_machine: kept_invariant sessions_ok "session_exec h" for h
proof unfold_locales
  fix d c
  assume "sessions_ok d"
  then show "sessions_ok (session_exec h c d)"
    by (cases c) (simp_all add: create_keeps_ok validate_keeps_ok revocations_keep_ok)
qed

section \<open>Revocation is final\<close>

lemma exec_keeps_token_dead:
  assumes "token_dead th d" and "\<not> creates_hash h th c"
  shows "token_dead th (session_exec h c d)"
proof (cases c)
  case (Create g k tok u ip ua now)
  with assms show ?thesis by (auto simp: token_dead_def createSession_sessions)
next
  case (Validate tok now)
  with assms show ?thesis
    using validateSession_sessions[of h tok now d]
    by (auto simp: token_dead_def list_all_iff set_update_many)
next
  case (SetActive sid u og)
  with assms show ?thesis
    by (auto simp: token_dead_def setActiveOrg_def Let_def list_all_iff set_update_many split: option.splits)
next
  case (RevokeToken tok now)
  with assms show ?thesis
    by (auto simp: token_dead_def revokeSessionByToken_def list_all_iff set_update_many)
next
  case (RevokeAll u ex now)
  with assms show ?thesis
    by (auto simp: token_dead_def revokeAllSessions_def Let_def list_all_iff set_update_many)
next
  case (Purge now)
  with assms show ?thesis
    by (auto simp: token_dead_def purgeDeadSessions_def Let_def list_all_iff set_delete_many)
qed

lemma fold_keeps_token_dead:
  "token_dead th d \<Longrightarrow> list_all (\<lambda>c. \<not> creates_hash h th c) cs
   \<Longrightarrow> token_dead th (fold (session_exec h) cs d)"
  by (induction cs arbitrary: d) (simp_all add: exec_keeps_token_dead)

lemma token_dead_refused: "token_dead (h tok) d \<Longrightarrow> snd (validateSession h tok now d) = None"
  by (auto simp: validateSession_def token_dead_def list_all_iff dest: find_first_SomeD split: option.splits)

lemma revoke_makes_dead: "token_dead (h tok) (revokeSessionByToken h tok now d)"
  by (auto simp: token_dead_def revokeSessionByToken_def list_all_iff set_update_many)

section \<open>Properties\<close>

text \<open>A session token resolves to a context only while its session is stored, unrevoked and inside
  both limits and its user is enabled; the role it carries is the one the membership table holds
  for that user and organization at that moment.\<close>

lemma validated_session_is_live:
  assumes "validateSession h tok now d = (d', Some ctx)"
  shows "(\<exists>s \<in> set (sessions d). s_tokenHash s = h tok \<and> sc_sessionId ctx = s_id s
       \<and> s_revokedAt s = None \<and> now < s_expiresAt s \<and> now < s_absoluteExpiresAt s
       \<and> (\<exists>u \<in> set (users d). u_id u = s_userId s \<and> u_id u = su_id (sc_user ctx) \<and> u_disabledAt u = None))
    \<and> (case sc_activeOrg ctx of None \<Rightarrow> True
       | Some org \<Rightarrow> \<exists>m \<in> set (memberships d). m_userId m = su_id (sc_user ctx)
            \<and> m_orgId m = sm_orgId org \<and> m_role m = sm_role org)"
  using validateSession_Some[OF assms]
proof (elim exE conjE)
  fix s :: session_row and u :: user_row
  assume s: "find_first (\<lambda>s. s_tokenHash s = h tok) (sessions d) = Some s"
    and u: "find_first (\<lambda>u. u_id u = s_userId s) (users d) = Some u"
    and live: "s_revokedAt s = None" "now < s_expiresAt s" "now < s_absoluteExpiresAt s" "u_disabledAt u = None"
    and ctx: "sc_sessionId ctx = s_id s" "su_id (sc_user ctx) = u_id u"
    and act: "sc_activeOrg ctx = choose_active (s_activeOrgId s) (user_memberships d (u_id u))"
  have "\<exists>s \<in> set (sessions d). s_tokenHash s = h tok \<and> sc_sessionId ctx = s_id s
       \<and> s_revokedAt s = None \<and> now < s_expiresAt s \<and> now < s_absoluteExpiresAt s
       \<and> (\<exists>u \<in> set (users d). u_id u = s_userId s \<and> u_id u = su_id (sc_user ctx) \<and> u_disabledAt u = None)"
    using find_first_SomeD[OF s] find_first_SomeD[OF u] live ctx
    by (intro bexI[of _ s] conjI bexI[of _ u]) simp_all
  moreover have "\<exists>m \<in> set (memberships d). m_userId m = su_id (sc_user ctx)
       \<and> m_orgId m = sm_orgId org \<and> m_role m = sm_role org" if "sc_activeOrg ctx = Some org" for org
  proof -
    from that act have "org \<in> set (user_memberships d (u_id u))" by (metis choose_active_in)
    from user_memberships_in[OF this] ctx(2) show ?thesis by simp
  qed
  ultimately show ?thesis by (auto split: option.split)
qed

text \<open>C15. Whatever sequence of session operations has run, a session that still resolves is less than
  seven days old, was last refreshed less than twelve hours ago, and the expiry announced to the
  browser never lies more than seven days after its creation.\<close>

theorem session_lifetime_bounded:
  assumes "sessions_ok d0"
    and "validateSession h tok now (fold (session_exec h) cs d0) = (d', Some ctx)"
  shows "\<exists>s \<in> set (sessions (fold (session_exec h) cs d0)). s_id s = sc_sessionId ctx
     \<and> now < s_createdAt s + 7 * 24 * 60 * 60 * 1000
     \<and> now < s_lastUsedAt s + 12 * 60 * 60 * 1000
     \<and> sc_expiresAt ctx \<le> s_createdAt s + 7 * 24 * 60 * 60 * 1000"
proof -
  let ?d = "fold (session_exec h) cs d0"
  have inv: "sessions_ok ?d" by (rule session_machine.fold_inv[OF assms(1)])
  show ?thesis
    using validateSession_Some[OF assms(2)]
  proof (elim exE conjE)
    fix s :: session_row
    assume s: "find_first (\<lambda>s. s_tokenHash s = h tok) (sessions ?d) = Some s"
      and live: "now < s_expiresAt s" and sid: "sc_sessionId ctx = s_id s"
      and exp: "sc_expiresAt ctx = s_expiresAt s
         \<or> sc_expiresAt ctx = min (now + seconds SESSION_IDLE_SECONDS) (s_absoluteExpiresAt s)"
    from s have mem: "s \<in> set (sessions ?d)" by (auto dest: find_first_SomeD)
    with inv have "session_ok s" by (simp add: sessions_ok_def list_all_iff)
    with live exp have "now < s_createdAt s + 7 * 24 * 60 * 60 * 1000
       \<and> now < s_lastUsedAt s + 12 * 60 * 60 * 1000
       \<and> sc_expiresAt ctx \<le> s_createdAt s + 7 * 24 * 60 * 60 * 1000"
      by (auto simp: session_ok_def session_consts)
    with mem sid show ?thesis by auto
  qed
qed

text \<open>C10. Signing out is final: once a token has been revoked, it resolves to nothing at any later time
  and after any sequence of session operations that does not hand out the same token again.\<close>

theorem revocation_final:
  assumes "list_all (\<lambda>c. \<not> creates_hash h (h tok) c) cs"
  shows "snd (validateSession h tok later (fold (session_exec h) cs (revokeSessionByToken h tok now d))) = None"
  by (rule token_dead_refused, rule fold_keeps_token_dead, rule revoke_makes_dead, rule assms)

section \<open>Witnesses\<close>

definition session_script :: "session_cmd list" where
  "session_script = [Create sample_gen 0 ''t1'' ''ann'' None None 0, Validate ''t1'' 600000]"

lemma session_script_live:
  "validateSession rev ''t1'' 700000 (fold (session_exec rev) session_script sample_db)
   = (fold (session_exec rev) session_script sample_db,
      snd (validateSession rev ''t1'' 700000 (fold (session_exec rev) session_script sample_db)))
   \<and> snd (validateSession rev ''t1'' 700000 (fold (session_exec rev) session_script sample_db)) \<noteq> None"
  by code_simp

lemma validated_session_is_live_witness:
  "\<exists>s \<in> set (sessions (fold (session_exec rev) session_script sample_db)).
     s_revokedAt s = None \<and> 700000 < s_expiresAt s"
proof -
  obtain ctx where "validateSession rev ''t1'' 700000 (fold (session_exec rev) session_script sample_db)
      = (fold (session_exec rev) session_script sample_db, Some ctx)"
    using session_script_live by (metis not_Some_eq)
  from validated_session_is_live[OF this] show ?thesis by blast
qed

theorem session_lifetime_bounded_witness:
  "sessions_ok sample_db
   \<and> (\<exists>s \<in> set (sessions (fold (session_exec rev) session_script sample_db)).
        700000 < s_lastUsedAt s + 12 * 60 * 60 * 1000)"
proof -
  have ok0: "sessions_ok sample_db" by code_simp
  obtain ctx where "validateSession rev ''t1'' 700000 (fold (session_exec rev) session_script sample_db)
      = (fold (session_exec rev) session_script sample_db, Some ctx)"
    using session_script_live by (metis not_Some_eq)
  from session_lifetime_bounded[OF ok0 this] ok0 show ?thesis by blast
qed

theorem revocation_final_witness:
  "snd (validateSession rev ''t1'' 700000 (fold (session_exec rev) session_script sample_db)) \<noteq> None
   \<and> snd (validateSession rev ''t1'' 900000 (fold (session_exec rev) [Validate ''t1'' 800000, Purge 0]
        (revokeSessionByToken rev ''t1'' 750000 (fold (session_exec rev) session_script sample_db)))) = None"
  using session_script_live
  by (intro conjI revocation_final) simp_all

end
