(* ===== verification/Users.thy ===== *)
theory Users
  imports Audit_Trail Throttle Request Password Sessions
begin

text \<open>
  Accounts and organizations, \<open>src/lib/auth/users.ts\<close>. Parameters: \<open>hashPassword\<close> and
  \<open>verifyPassword\<close> (scrypt), \<open>fold_accents\<close> (Unicode NFKD decomposition followed by the removal of
  the combining accents) and the random suffix of a slug.
\<close>

datatype create_user_error = CU_invalid_email | CU_email_taken | CU_policy policy_error

definition createUser ::
  "(string \<Rightarrow> string) \<Rightarrow> dbgen \<Rightarrow> nat \<Rightarrow> string \<Rightarrow> string option \<Rightarrow> string \<Rightarrow> ui_locale option \<Rightarrow> ms
   \<Rightarrow> db \<Rightarrow> db \<times> (ident \<times> string, create_user_error) result" where
  "createUser hashPassword g k rawEmail name password locale_opt now d =
     (let email = normalizeEmail rawEmail in
      if length email > 254 \<or> \<not> email_shape email then (d, fail CU_invalid_email)
      else case validatePasswordPolicy password (Some email) of
        fail c \<Rightarrow> (d, fail (CU_policy c))
      | ok _ \<Rightarrow>
          (case find_first (\<lambda>u. u_email u = email) (users d) of
             Some _ \<Rightarrow> (d, fail CU_email_taken)
           | None \<Rightarrow>
              (d\<lparr>users := insert_row
                 \<lparr>u_id = cuid g k, u_email = email,
                  u_name = (case name of None \<Rightarrow> None | Some n \<Rightarrow> or_null (take 120 (js_trim n))),
                  u_passwordHash = Some (hashPassword password),
                  u_locale = (case locale_opt of None \<Rightarrow> EN | Some l \<Rightarrow> l), u_timezone = ''UTC'',
                  u_lastLoginAt = None, u_passwordChangedAt = Some now, u_disabledAt = None,
                  u_totpSecretEnc = None, u_totpEnabledAt = None\<rparr> (users d)\<rparr>,
               ok (cuid g k, email))))"

section \<open>Slugs and organizations\<close>

text \<open>\<open>replace(/[^a-z0-9]+/g, "-")\<close>: every maximal run of other characters becomes one dash.\<close>

fun dash_runs :: "bool \<Rightarrow> string \<Rightarrow> string" where
  "dash_runs inrun [] = []"
| "dash_runs inrun (c # cs) =
     (if lower_alnum c then c # dash_runs False cs
      else if inrun then dash_runs True cs
      else CHR ''-'' # dash_runs True cs)"

definition strip_leading_dashes :: "string \<Rightarrow> string" where
  "strip_leading_dashes s = dropWhile (\<lambda>c. c = CHR ''-'') s"

definition strip_trailing_dashes :: "string \<Rightarrow> string" where
  "strip_trailing_dashes s = rev (dropWhile (\<lambda>c. c = CHR ''-'') (rev s))"

definition slugify :: "(string \<Rightarrow> string) \<Rightarrow> string \<Rightarrow> string" where
  "slugify fold_accents name =
     (let base = strip_trailing_dashes (take 40 (strip_trailing_dashes (strip_leading_dashes
                   (dash_runs False (toLowerCase (fold_accents name))))))
      in if 2 \<le> length base then base else ''org'')"

text \<open>The loop of at most six attempts: the plain slug first, then random suffixes.\<close>

primrec pick_slug :: "(string \<Rightarrow> bool) \<Rightarrow> string \<Rightarrow> (nat \<Rightarrow> string) \<Rightarrow> nat \<Rightarrow> string \<Rightarrow> string" where
  "pick_slug taken base suffix 0 slug = slug"
| "pick_slug taken base suffix (Suc n) slug =
     (if \<not> taken slug then slug
      else pick_slug taken base suffix n (base @ ''-'' @ suffix n))"

text \<open>\<open>None\<close>: the slug is still taken, the unique index raises and the transaction is rolled back.\<close>

definition createOrganization ::
  "(string \<Rightarrow> string) \<Rightarrow> (nat \<Rightarrow> string) \<Rightarrow> dbgen \<Rightarrow> string \<Rightarrow> ident \<Rightarrow> string \<Rightarrow> string option
   \<Rightarrow> db \<Rightarrow> (db \<times> (ident \<times> string)) option" where
  "createOrganization fold_accents suffix g rawName ownerUserId ownerEmail ip d =
     (let name = (case or_null (take 120 (js_trim rawName)) of None \<Rightarrow> ''My organization'' | Some n \<Rightarrow> n);
          base = slugify fold_accents name;
          taken = (\<lambda>s. find_first (\<lambda>og. o_slug og = s) (organizations d) \<noteq> None);
          slug = pick_slug taken base suffix 6 base
      in if taken slug then None
         else Some
          (recordAudit g 2 ((audit_entry ''org.created'')\<lparr>ae_orgId := Some (cuid g 0),
               ae_actorId := Some ownerUserId, ae_actorEmail := Some ownerEmail,
               ae_targetType := Some ''organization'', ae_targetId := Some (cuid g 0),
               ae_ipAddress := ip\<rparr>)
             (d\<lparr>organizations := insert_row \<lparr>o_id = cuid g 0, o_name = name, o_slug = slug\<rparr> (organizations d),
                memberships := insert_row \<lparr>m_id = cuid g 1, m_userId = ownerUserId, m_orgId = cuid g 0,
                  m_role = OWNER, m_createdAt = clock g\<rparr> (memberships d)\<rparr>),
           (cuid g 0, slug)))"

section \<open>Changing the password\<close>

datatype change_password_error = CP_invalid_current_password | CP_throttled | CP_not_found | CP_policy policy_error

definition changePassword ::
  "(string \<Rightarrow> string \<Rightarrow> bool) \<Rightarrow> (string \<Rightarrow> string) \<Rightarrow> dbgen \<Rightarrow> ident \<Rightarrow> string \<Rightarrow> string \<Rightarrow> ident
   \<Rightarrow> string option \<Rightarrow> ms \<Rightarrow> db \<Rightarrow> db \<times> (nat, change_password_error) result" where
  "changePassword verifyPassword hashPassword g userId currentPassword newPassword keepSessionId ip now d =
     (case find_first (\<lambda>u. u_id u = userId) (users d) of
        None \<Rightarrow> (d, fail CP_not_found)
      | Some u \<Rightarrow>
        if checkLoginThrottle (u_email u) ip now d \<noteq> Allowed then (d, fail CP_throttled)
        else if length currentPassword > 1024 \<or>
            \<not> (case u_passwordHash u of None \<Rightarrow> False
               | Some st \<Rightarrow> st \<noteq> [] \<and> verifyPassword currentPassword st)
        then (recordLoginAttempt g 0 (u_email u) ip False now d, fail CP_invalid_current_password)
        else case validatePasswordPolicy newPassword (Some (u_email u)) of
          fail c \<Rightarrow> (d, fail (CP_policy c))
        | ok _ \<Rightarrow>
            let d1 = d\<lparr>users := update_many (\<lambda>r. u_id r = u_id u)
                  (\<lambda>r. r\<lparr>u_passwordHash := Some (hashPassword newPassword), u_passwordChangedAt := Some now\<rparr>) (users d)\<rparr>;
                (d2, count) = revokeAllSessions (u_id u) (Some keepSessionId) now d1
            in (recordAudit g 1 ((audit_entry ''auth.password_changed'')\<lparr>ae_actorId := Some (u_id u),
                   ae_actorEmail := Some (u_email u), ae_ipAddress := ip,
                   ae_metadata := Some (JObj [(''revokedSessions'', JNum (real count))])\<rparr>) d2,
                ok count))"

definition setUserLocale :: "ident \<Rightarrow> ui_locale \<Rightarrow> db \<Rightarrow> db" where
  "setUserLocale userId l d =
     d\<lparr>users := update_many (\<lambda>u. u_id u = userId) (\<lambda>u. u\<lparr>u_locale := l\<rparr>) (users d)\<rparr>"

section \<open>Slugs are well formed\<close>

text \<open>Letters, digits and single dashes.\<close>

fun dashes_apart :: "string \<Rightarrow> bool" where
  "dashes_apart (c # e # cs) = (\<not> (c = CHR ''-'' \<and> e = CHR ''-'') \<and> dashes_apart (e # cs))"
| "dashes_apart cs = True"

definition slug_char :: "char \<Rightarrow> bool" where
  "slug_char c = (lower_alnum c \<or> c = CHR ''-'')"

lemma not_alnum_dash [simp]: "\<not> lower_alnum (CHR ''-'')"
  by (simp add: lower_alnum_def code_unit_def)

lemma dash_runs_chars: "list_all slug_char (dash_runs b s)"
  by (induction b s rule: dash_runs.induct) (auto simp: slug_char_def)

lemma dash_runs_head: "dash_runs True s = [] \<or> hd (dash_runs True s) \<noteq> CHR ''-''"
proof (induction s)
  case (Cons c cs)
  then show ?case by (cases "lower_alnum c") auto
qed simp

lemma dashes_apart_Cons:
  "dashes_apart (c # cs) \<longleftrightarrow> dashes_apart cs \<and> (cs = [] \<or> \<not> (c = CHR ''-'' \<and> hd cs = CHR ''-''))"
  by (cases cs) auto

lemma dash_runs_apart: "dashes_apart (dash_runs b s)"
proof (induction b s rule: dash_runs.induct)
  case (2 b c cs)
  show ?case
  proof (cases "lower_alnum c")
    case True
    with 2 show ?thesis by (auto simp: dashes_apart_Cons)
  next
    case False
    with 2 dash_runs_head[of cs] show ?thesis by (auto simp: dashes_apart_Cons)
  qed
qed simp

lemma dashes_apart_append: "dashes_apart (xs @ ys) \<Longrightarrow> dashes_apart xs \<and> dashes_apart ys"
  by (induction xs) (auto simp: dashes_apart_Cons)

lemma sublist_apart: "dashes_apart (ps @ xs @ qs) \<Longrightarrow> dashes_apart xs"
  using dashes_apart_append[of ps "xs @ qs"] dashes_apart_append[of xs qs] by simp

lemma strip_leading_split: "\<exists>ps. s = ps @ strip_leading_dashes s"
  unfolding strip_leading_dashes_def
  by (rule exI[of _ "takeWhile (\<lambda>c. c = CHR ''-'') s"]) simp

lemma strip_trailing_split: "\<exists>qs. s = strip_trailing_dashes s @ qs"
proof -
  have "s = rev (rev s)" by simp
  also have "\<dots> = rev (takeWhile (\<lambda>c. c = CHR ''-'') (rev s) @ dropWhile (\<lambda>c. c = CHR ''-'') (rev s))"
    by (simp only: takeWhile_dropWhile_id)
  finally show ?thesis unfolding strip_trailing_dashes_def rev_append by (rule exI)
qed

lemma strip_trailing_last:
  "strip_trailing_dashes s \<noteq> [] \<Longrightarrow> last (strip_trailing_dashes s) \<noteq> CHR ''-''"
  using hd_dropWhile[of "\<lambda>c. c = CHR ''-''" "rev s"] by (simp add: strip_trailing_dashes_def last_rev)

lemma strip_leading_head:
  "strip_leading_dashes s \<noteq> [] \<Longrightarrow> hd (strip_leading_dashes s) \<noteq> CHR ''-''"
  using hd_dropWhile[of "\<lambda>c. c = CHR ''-''" s] by (simp add: strip_leading_dashes_def)

lemma prefix_head: "s = p @ q \<Longrightarrow> p \<noteq> [] \<Longrightarrow> hd p = hd s"
  by simp

text \<open>The candidate slug is a factor of the dashed name: it inherits its shape.\<close>

lemma slug_base_factor:
  fixes t :: string
  defines "x \<equiv> dash_runs False t"
  defines "b \<equiv> strip_trailing_dashes (take 40 (strip_trailing_dashes (strip_leading_dashes x)))"
  shows "\<exists>ps qs. x = ps @ b @ qs"
    and "b \<noteq> [] \<Longrightarrow> hd b \<noteq> CHR ''-''"
    and "b \<noteq> [] \<Longrightarrow> last b \<noteq> CHR ''-''"
    and "length b \<le> 40"
proof -
  let ?l = "strip_leading_dashes x" and ?m = "strip_trailing_dashes (strip_leading_dashes x)"
  obtain ps where ps: "x = ps @ ?l" using strip_leading_split by blast
  obtain q1 where q1: "?l = ?m @ q1" using strip_trailing_split by blast
  obtain q2 where q2: "take 40 ?m = b @ q2" unfolding b_def using strip_trailing_split by blast
  have m: "?m = b @ (q2 @ drop 40 ?m)" using q2 by (metis append_assoc append_take_drop_id)
  from ps q1 m show "\<exists>ps qs. x = ps @ b @ qs" by (metis append_assoc)
  show "last b \<noteq> CHR ''-''" if "b \<noteq> []" using that unfolding b_def by (rule strip_trailing_last)
  show "hd b \<noteq> CHR ''-''" if "b \<noteq> []"
  proof -
    from q1 m have "?l = b @ (q2 @ drop 40 ?m @ q1)" by (metis append_assoc)
    moreover have "?l \<noteq> []" using q1 m that by auto
    ultimately show ?thesis using strip_leading_head[of x] that by (metis hd_append2)
  qed
  have "length b \<le> length (take 40 ?m)" using q2 by simp
  then show "length b \<le> 40" by simp
qed

section \<open>Passwords\<close>

lemma revokeAll_effect:
  "s \<in> set (sessions (fst (revokeAllSessions u (Some keep) now d))) \<Longrightarrow> s_userId s = u \<Longrightarrow>
     s_id s = keep \<or> keep = [] \<or> s_revokedAt s \<noteq> None"
  unfolding revokeAllSessions_def Let_def fst_conv
  by (simp, erule update_manyE) auto

lemma revokeAll_kept:
  "users (fst (revokeAllSessions u ex now d)) = users d"
  "snd (revokeAllSessions u ex now (d\<lparr>users := us\<rparr>)) = snd (revokeAllSessions u ex now d)"
  "sessions (fst (revokeAllSessions u ex now (d\<lparr>users := us\<rparr>))) = sessions (fst (revokeAllSessions u ex now d))"
  by (simp_all add: revokeAllSessions_def Let_def)

lemma revokeAll_others:
  "filter (\<lambda>s. s_userId s \<noteq> u) (sessions (fst (revokeAllSessions u ex now d))) = filter (\<lambda>s. s_userId s \<noteq> u) (sessions d)"
  unfolding revokeAllSessions_def Let_def fst_conv by (simp, rule filter_update_many) auto

text \<open>The only way to succeed, and the tables it leaves.\<close>

lemma changePassword_ok:
  assumes "changePassword vp hp g uid cur new keep ip now d = (d', ok n)"
  shows "\<exists>u st. find_first (\<lambda>u. u_id u = uid) (users d) = Some u \<and> u_passwordHash u = Some st
     \<and> vp cur st \<and> checkLoginThrottle (u_email u) ip now d = Allowed
     \<and> validatePasswordPolicy new (Some (u_email u)) = ok ()
     \<and> sessions d' = sessions (fst (revokeAllSessions (u_id u) (Some keep) now d))
     \<and> users d' = update_many (\<lambda>r. u_id r = u_id u)
          (\<lambda>r. r\<lparr>u_passwordHash := Some (hp new), u_passwordChangedAt := Some now\<rparr>) (users d)"
proof -
  obtain u where u: "find_first (\<lambda>u. u_id u = uid) (users d) = Some u"
    using assms by (cases "find_first (\<lambda>u. u_id u = uid) (users d)") (simp_all add: changePassword_def)
  have al: "checkLoginThrottle (u_email u) ip now d = Allowed"
    using assms by (rule contrapos_pp) (simp add: changePassword_def u)
  obtain st where st: "u_passwordHash u = Some st" "st \<noteq> []" "vp cur st" "length cur \<le> 1024"
    using assms by (cases "u_passwordHash u") (auto simp: changePassword_def u al split: if_splits)
  have pol: "validatePasswordPolicy new (Some (u_email u)) = ok ()"
    using assms st
    by (cases "validatePasswordPolicy new (Some (u_email u))") (simp_all add: changePassword_def u al)
  have "sessions d' = sessions (fst (revokeAllSessions (u_id u) (Some keep) now d))
     \<and> users d' = update_many (\<lambda>r. u_id r = u_id u)
          (\<lambda>r. r\<lparr>u_passwordHash := Some (hp new), u_passwordChangedAt := Some now\<rparr>) (users d)"
    using assms st by (auto simp: changePassword_def u al pol revokeAll_kept split_beta Let_def)
  with u st al pol show ?thesis by blast
qed

section \<open>Properties\<close>

text \<open>Every slug is a valid one, whatever the organization is called: between 2 and 40 letters
  and digits separated by single dashes, with a dash neither at the start nor at the end.\<close>

lemma slugify_well_formed:
  "2 \<le> length (slugify fa name) \<and> length (slugify fa name) \<le> 40
   \<and> list_all slug_char (slugify fa name) \<and> dashes_apart (slugify fa name)
   \<and> hd (slugify fa name) \<noteq> CHR ''-'' \<and> last (slugify fa name) \<noteq> CHR ''-''"
proof -
  let ?x = "dash_runs False (toLowerCase (fa name))"
  let ?b = "strip_trailing_dashes (take 40 (strip_trailing_dashes (strip_leading_dashes ?x)))"
  have slug: "slugify fa name = (if 2 \<le> length ?b then ?b else ''org'')"
    by (simp add: slugify_def Let_def)
  show ?thesis
  proof (cases "2 \<le> length ?b")
    case True
    then have ne: "?b \<noteq> []" by auto
    obtain ps qs where f: "?x = ps @ ?b @ qs"
      using slug_base_factor(1)[of "toLowerCase (fa name)"] by blast
    have "list_all slug_char (ps @ ?b @ qs)" using dash_runs_chars[of False "toLowerCase (fa name)"] f by simp
    then have "list_all slug_char ?b" by simp
    moreover have "dashes_apart ?b" using dash_runs_apart[of False "toLowerCase (fa name)"] f sublist_apart by metis
    ultimately show ?thesis
      using True ne slug_base_factor(2,3,4)[of "toLowerCase (fa name)"] by (simp add: slug)
  next
    case False
    then have "slugify fa name = ''org''" by (simp add: slug)
    then show ?thesis by (simp add: slug_char_def lower_alnum_def code_unit_def)
  qed
qed

text \<open>Changing the password requires the current one and signs everybody else out: afterwards the
  user's sessions are all revoked except the one that made the change, and no session of another
  user is affected.\<close>

lemma password_change_signs_out_others:
  assumes "changePassword vp hp g uid cur new keep ip now d = (d', ok n)" and "keep \<noteq> []"
  shows "(\<exists>u \<in> set (users d). u_id u = uid \<and> (\<exists>st. u_passwordHash u = Some st \<and> vp cur st))
    \<and> list_all (\<lambda>s. s_userId s = uid \<longrightarrow> s_id s = keep \<or> s_revokedAt s \<noteq> None) (sessions d')
    \<and> filter (\<lambda>s. s_userId s \<noteq> uid) (sessions d') = filter (\<lambda>s. s_userId s \<noteq> uid) (sessions d)"
  using changePassword_ok[OF assms(1)]
proof (elim exE conjE)
  fix u st
  assume u: "find_first (\<lambda>u. u_id u = uid) (users d) = Some u" and st: "u_passwordHash u = Some st" "vp cur st"
    and ses: "sessions d' = sessions (fst (revokeAllSessions (u_id u) (Some keep) now d))"
  have uid: "u \<in> set (users d)" "u_id u = uid" using find_first_SomeD[OF u] by simp_all
  have "list_all (\<lambda>s. s_userId s = uid \<longrightarrow> s_id s = keep \<or> s_revokedAt s \<noteq> None) (sessions d')"
    using revokeAll_effect[of _ uid keep now d] assms(2) uid(2) by (auto simp: list_all_iff ses)
  moreover have "filter (\<lambda>s. s_userId s \<noteq> uid) (sessions d') = filter (\<lambda>s. s_userId s \<noteq> uid) (sessions d)"
    using revokeAll_others[of uid] uid(2) by (simp add: ses)
  ultimately show ?thesis using uid st by blast
qed

text \<open>Two sessions of the same account; changing the password in the first ends the second.\<close>

definition two_sessions :: db where
  "two_sessions = fold (session_exec rev) [Create sample_gen 0 ''t1'' ''ann'' None None 0,
     Create sample_gen 1 ''t2'' ''ann'' None None 0] sample_db"

lemma two_sessions_change:
  "snd (changePassword (\<lambda>p st. st = p) rev sample_gen ''ann'' ''pw'' ''a-Fine-long-1-secret'' ''c'' None 5 two_sessions) = ok 1"
  by code_simp

lemma password_change_signs_out_others_witness:
  "\<not> list_ex (\<lambda>s. s_userId s = ''ann'' \<and> s_id s \<noteq> ''c'' \<and> s_revokedAt s = None)
     (sessions (fst (changePassword (\<lambda>p st. st = p) rev sample_gen ''ann'' ''pw'' ''a-Fine-long-1-secret'' ''c'' None 5 two_sessions)))"
proof -
  have "changePassword (\<lambda>p st. st = p) rev sample_gen ''ann'' ''pw'' ''a-Fine-long-1-secret'' ''c'' None 5 two_sessions
     = (fst (changePassword (\<lambda>p st. st = p) rev sample_gen ''ann'' ''pw'' ''a-Fine-long-1-secret'' ''c'' None 5 two_sessions), ok 1)"
    using two_sessions_change by (metis prod.collapse)
  from password_change_signs_out_others[OF this] show ?thesis by (auto simp: list_all_iff list_ex_iff)
qed

end
