(* ===== verification/Members.thy ===== *)
theory Members
  imports Audit_Trail Samples Interfaces
begin

text \<open>
  Members of an organization, \<open>src/lib/auth/members.ts\<close>: the two listings, changing a role and
  removing a member. Both writes run in one transaction behind a \<open>FOR UPDATE\<close> lock on the
  organization's memberships, so concurrent calls take effect one after the other: any
  interleaving of them is a sequence of commands.
\<close>

record member_view =
  mv_membershipId :: ident
  mv_userId :: ident
  mv_email :: string
  mv_name :: "string option"
  mv_role :: role
  mv_joinedAt :: ms
  mv_disabled :: bool

record invitation_view =
  iv_id :: ident
  iv_email :: string
  iv_role :: role
  iv_expiresAt :: ms
  iv_createdAt :: ms

datatype member_error = M_forbidden | M_not_found | M_last_owner | M_cannot_change_own_role

primrec role_name :: "role \<Rightarrow> string" where
  "role_name OWNER = ''OWNER''"
| "role_name ADMIN = ''ADMIN''"
| "role_name OPERATOR = ''OPERATOR''"
| "role_name VIEWER = ''VIEWER''"

text \<open>The account behind a membership; the foreign key guarantees that there is one.\<close>

definition member_user :: "db \<Rightarrow> membership_row \<Rightarrow> user_row option" where
  "member_user d m = find_first (\<lambda>u. u_id u = m_userId m) (users d)"

definition member_email :: "db \<Rightarrow> membership_row \<Rightarrow> string" where
  "member_email d m = (case member_user d m of None \<Rightarrow> [] | Some u \<Rightarrow> u_email u)"

definition listMembers :: "actor \<Rightarrow> db \<Rightarrow> (member_view list, member_error) result" where
  "listMembers a d =
     (if \<not> can (Some (a_role a)) members_read then fail M_forbidden
      else ok (concat (map (\<lambda>m. case member_user d m of None \<Rightarrow> []
             | Some u \<Rightarrow> [\<lparr>mv_membershipId = m_id m, mv_userId = u_id u, mv_email = u_email u,
                 mv_name = u_name u, mv_role = m_role m, mv_joinedAt = m_createdAt m,
                 mv_disabled = (u_disabledAt u \<noteq> None)\<rparr>])
           (order_asc m_createdAt (find_many (\<lambda>m. m_orgId m = a_orgId a) (memberships d))))))"

definition listPendingInvitations ::
  "actor \<Rightarrow> ms \<Rightarrow> db \<Rightarrow> (invitation_view list, member_error) result" where
  "listPendingInvitations a now d =
     (if \<not> can (Some (a_role a)) members_invite then fail M_forbidden
      else ok (map (\<lambda>i. \<lparr>iv_id = i_id i, iv_email = i_email i, iv_role = i_role i,
                        iv_expiresAt = i_expiresAt i, iv_createdAt = i_createdAt i\<rparr>)
           (order_desc i_createdAt (find_many (\<lambda>i. i_orgId i = a_orgId a \<and> i_acceptedAt i = None
              \<and> i_revokedAt i = None \<and> now < i_expiresAt i) (invitations d)))))"

definition org_owners :: "ident \<Rightarrow> db \<Rightarrow> nat" where
  "org_owners org d = count_rows (\<lambda>m. m_orgId m = org \<and> m_role m = OWNER) (memberships d)"

definition changeMemberRole ::
  "dbgen \<Rightarrow> actor \<Rightarrow> ident \<Rightarrow> role \<Rightarrow> db \<Rightarrow> db \<times> (role \<times> role, member_error) result" where
  "changeMemberRole g a membershipId newRole d =
     (if \<not> can (Some (a_role a)) members_manage then (d, fail M_forbidden)
      else case find_first (\<lambda>m. m_id m = membershipId \<and> m_orgId m = a_orgId a) (memberships d) of
        None \<Rightarrow> (d, fail M_not_found)
      | Some t \<Rightarrow>
          if m_userId t = a_userId a then (d, fail M_cannot_change_own_role)
          else if \<not> canChangeRole (a_role a) (m_role t) newRole then (d, fail M_forbidden)
          else if m_role t = newRole then (d, ok (m_role t, newRole))
          else if m_role t = OWNER \<and> org_owners (a_orgId a) d \<le> 1 then (d, fail M_last_owner)
          else
            (recordAudit g 0 (actor_entry ''member.role_changed'' a ''user'' (m_userId t)
               (Some (JObj [(''email'', JStr (member_email d t)), (''from'', JStr (role_name (m_role t))),
                            (''to'', JStr (role_name newRole))])))
               (d\<lparr>memberships := update_many (\<lambda>m. m_id m = m_id t) (\<lambda>m. m\<lparr>m_role := newRole\<rparr>) (memberships d)\<rparr>),
             ok (m_role t, newRole)))"

definition removeMember ::
  "dbgen \<Rightarrow> actor \<Rightarrow> ident \<Rightarrow> db \<Rightarrow> db \<times> (bool, member_error) result" where
  "removeMember g a membershipId d =
     (case find_first (\<lambda>m. m_id m = membershipId \<and> m_orgId m = a_orgId a) (memberships d) of
        None \<Rightarrow> (d, fail M_not_found)
      | Some t \<Rightarrow>
          let leaving = (m_userId t = a_userId a) in
          if \<not> leaving \<and> \<not> canManageMember (a_role a) (m_role t) then (d, fail M_forbidden)
          else if m_role t = OWNER \<and> org_owners (a_orgId a) d \<le> 1 then (d, fail M_last_owner)
          else
            (recordAudit g 0 (actor_entry (if leaving then ''member.left'' else ''member.removed'') a
               ''user'' (m_userId t)
               (Some (JObj [(''email'', JStr (member_email d t)), (''role'', JStr (role_name (m_role t)))])))
               (d\<lparr>memberships := delete_many (\<lambda>m. m_id m = m_id t) (memberships d)\<rparr>),
             ok leaving))"

section \<open>The component as a state machine\<close>

datatype member_cmd = ChangeRole dbgen actor ident role | Remove dbgen actor ident

primrec member_exec :: "member_cmd \<Rightarrow> db \<Rightarrow> db" where
  "member_exec (ChangeRole g a mid r) d = fst (changeMemberRole g a mid r d)"
| "member_exec (Remove g a mid) d = fst (removeMember g a mid d)"

primrec member_cmd_org :: "member_cmd \<Rightarrow> ident" where
  "member_cmd_org (ChangeRole g a mid r) = a_orgId a"
| "member_cmd_org (Remove g a mid) = a_orgId a"

definition org_memberships :: "ident \<Rightarrow> db \<Rightarrow> membership_row list" where
  "org_memberships org d = filter (\<lambda>m. m_orgId m = org) (memberships d)"

text \<open>Membership ids are the primary key.\<close>

definition membership_ids_unique :: "db \<Rightarrow> bool" where
  "membership_ids_unique d = distinct (map m_id (memberships d))"

definition org_owned :: "ident \<Rightarrow> db \<Rightarrow> bool" where
  "org_owned org d = (membership_ids_unique d \<and> 1 \<le> org_owners org d)"

section \<open>Lemmas\<close>

interpretation role_change: keyed_update m_id "\<lambda>r m. m\<lparr>m_role := r\<rparr>"
  by unfold_locales simp

text \<open>The two ways a call can end: nothing changed, or exactly the target row did.\<close>

lemma changeMemberRole_cases:
  "memberships (fst (changeMemberRole g a mid r d)) = memberships d
   \<or> (\<exists>t \<in> set (memberships d). m_orgId t = a_orgId a
        \<and> memberships (fst (changeMemberRole g a mid r d))
            = update_many (\<lambda>m. m_id m = m_id t) (\<lambda>m. m\<lparr>m_role := r\<rparr>) (memberships d)
        \<and> (m_role t = OWNER \<longrightarrow> 1 < org_owners (a_orgId a) d))"
  by (auto simp: changeMemberRole_def split: option.splits dest!: find_first_SomeD)

lemma removeMember_cases:
  "memberships (fst (removeMember g a mid d)) = memberships d
   \<or> (\<exists>t \<in> set (memberships d). m_orgId t = a_orgId a
        \<and> memberships (fst (removeMember g a mid d)) = delete_many (\<lambda>m. m_id m = m_id t) (memberships d)
        \<and> (m_role t = OWNER \<longrightarrow> 1 < org_owners (a_orgId a) d))"
  by (auto simp: removeMember_def Let_def split: option.splits dest!: find_first_SomeD)

lemma member_exec_unique: "membership_ids_unique d \<Longrightarrow> membership_ids_unique (member_exec c d)"
proof (cases c)
  case (ChangeRole g a mid r)
  moreover assume "membership_ids_unique d"
  ultimately show ?thesis
    using changeMemberRole_cases[of g a mid r d] role_change.unique_update
    by (auto simp: membership_ids_unique_def)
next
  case (Remove g a mid)
  moreover assume "membership_ids_unique d"
  ultimately show ?thesis
    using removeMember_cases[of g a mid d] distinct_map_delete_many
    by (auto simp: membership_ids_unique_def)
qed

text \<open>With unique ids, the row an id selects is the target itself.\<close>

lemma same_id: "membership_ids_unique d \<Longrightarrow> t \<in> set (memberships d) \<Longrightarrow> m \<in> set (memberships d)
  \<Longrightarrow> m_id m = m_id t \<Longrightarrow> m = t"
  by (auto simp: membership_ids_unique_def distinct_map dest: inj_onD)

lemma org_rows_other:
  assumes "membership_ids_unique d" and "t \<in> set (memberships d)" and "m_orgId t \<noteq> org"
  shows "filter (\<lambda>m. m_orgId m = org) (update_many (\<lambda>m. m_id m = m_id t) (\<lambda>m. m\<lparr>m_role := r\<rparr>) (memberships d))
      = filter (\<lambda>m. m_orgId m = org) (memberships d)"
    and "filter (\<lambda>m. m_orgId m = org) (delete_many (\<lambda>m. m_id m = m_id t) (memberships d))
      = filter (\<lambda>m. m_orgId m = org) (memberships d)"
  using assms(3)
  by (auto dest: same_id[OF assms(1,2)] intro!: filter_update_many filter_delete_many)

interpretation member_machine: tenant_scoped
  membership_ids_unique member_exec member_cmd_org org_memberships
proof unfold_locales
  fix d c
  assume "membership_ids_unique d"
  then show "membership_ids_unique (member_exec c d)" by (rule member_exec_unique)
next
  fix d org c
  assume inv: "membership_ids_unique d" and other: "org \<noteq> member_cmd_org c"
  show "org_memberships org (member_exec c d) = org_memberships org d"
  proof (cases c)
    case (ChangeRole g a mid r)
    with other show ?thesis
      using changeMemberRole_cases[of g a mid r d] org_rows_other(1)[OF inv]
      by (auto simp: org_memberships_def)
  next
    case (Remove g a mid)
    with other show ?thesis
      using removeMember_cases[of g a mid d] org_rows_other(2)[OF inv]
      by (auto simp: org_memberships_def)
  qed
qed

text \<open>The guard of the two writes is exactly what keeps an owner.\<close>

lemma org_owners_other: "org_memberships org d' = org_memberships org d \<Longrightarrow> org_owners org d' = org_owners org d"
proof -
  assume eq: "org_memberships org d' = org_memberships org d"
  have "org_owners org e = length (filter (\<lambda>m. m_role m = OWNER) (org_memberships org e))" for e
    by (simp add: org_owners_def count_rows_def org_memberships_def conj_commute)
  with eq show ?thesis by simp
qed

lemma owner_survives_update:
  assumes "membership_ids_unique d" and "t \<in> set (memberships d)" and "1 \<le> org_owners org d"
    and "m_orgId t = org" and "m_role t = OWNER \<longrightarrow> 1 < org_owners org d"
  shows "1 \<le> count_rows (\<lambda>m. m_orgId m = org \<and> m_role m = OWNER)
      (update_many (\<lambda>m. m_id m = m_id t) (\<lambda>m. m\<lparr>m_role := r\<rparr>) (memberships d))"
    and "1 \<le> count_rows (\<lambda>m. m_orgId m = org \<and> m_role m = OWNER)
      (delete_many (\<lambda>m. m_id m = m_id t) (memberships d))"
proof -
  let ?Q = "\<lambda>m. m_orgId m = org \<and> m_role m = OWNER"
  have keys: "distinct (map m_id (memberships d))" using assms(1) by (simp add: membership_ids_unique_def)
  have eq: "m = t" if "m \<in> set (memberships d)" and "m_id m = m_id t" for m
    using same_id[OF assms(1,2) that] .
  show "1 \<le> count_rows ?Q (update_many (\<lambda>m. m_id m = m_id t) (\<lambda>m. m\<lparr>m_role := r\<rparr>) (memberships d))"
  proof (cases "m_role t = OWNER")
    case True
    with assms(5) count_update_key[OF keys, of ?Q "m_id t" "\<lambda>m. m\<lparr>m_role := r\<rparr>"] show ?thesis
      by (simp add: org_owners_def)
  next
    case False
    from assms(3) obtain o' where "o' \<in> set (memberships d)" and "?Q o'"
      by (auto simp: org_owners_def count_rows_pos Suc_le_eq)
    moreover with False eq[of o'] have "m_id o' \<noteq> m_id t" by auto
    ultimately have "0 < count_rows ?Q (update_many (\<lambda>m. m_id m = m_id t) (\<lambda>m. m\<lparr>m_role := r\<rparr>) (memberships d))"
      by (auto simp: count_rows_pos set_update_many intro!: bexI[of _ o'])
    then show ?thesis by simp
  qed
  show "1 \<le> count_rows ?Q (delete_many (\<lambda>m. m_id m = m_id t) (memberships d))"
  proof (cases "m_role t = OWNER")
    case True
    with assms(5) count_delete_key[OF keys, of ?Q "m_id t"] show ?thesis
      by (simp add: org_owners_def)
  next
    case False
    with eq have "count_rows ?Q (delete_many (\<lambda>m. m_id m = m_id t) (memberships d)) = count_rows ?Q (memberships d)"
      by (intro count_delete_many) auto
    with assms(3) show ?thesis by (simp add: org_owners_def)
  qed
qed

lemma member_exec_owned:
  assumes "org_owned org d"
  shows "org_owned org (member_exec c d)"
proof -
  have inv: "membership_ids_unique d" and own: "1 \<le> org_owners org d" using assms by (simp_all add: org_owned_def)
  have "1 \<le> org_owners org (member_exec c d)"
  proof (cases "org = member_cmd_org c")
    case False
    from org_owners_other[OF member_machine.foreign_rows[OF inv False]] own show ?thesis by simp
  next
    case True
    show ?thesis
    proof (cases c)
      case (ChangeRole g a mid r)
      with True have org: "org = a_orgId a" by simp
      show ?thesis
        using changeMemberRole_cases[of g a mid r d]
      proof (elim disjE bexE conjE)
        assume "memberships (fst (changeMemberRole g a mid r d)) = memberships d"
        with ChangeRole own show ?thesis by (simp add: org_owners_def)
      next
        fix t
        assume t: "t \<in> set (memberships d)" "m_orgId t = a_orgId a"
          and eq: "memberships (fst (changeMemberRole g a mid r d))
            = update_many (\<lambda>m. m_id m = m_id t) (\<lambda>m. m\<lparr>m_role := r\<rparr>) (memberships d)"
          and guard: "m_role t = OWNER \<longrightarrow> 1 < org_owners (a_orgId a) d"
        from owner_survives_update(1)[OF inv t(1) own] t guard org ChangeRole show ?thesis
          by (simp add: org_owners_def eq)
      qed
    next
      case (Remove g a mid)
      with True have org: "org = a_orgId a" by simp
      show ?thesis
        using removeMember_cases[of g a mid d]
      proof (elim disjE bexE conjE)
        assume "memberships (fst (removeMember g a mid d)) = memberships d"
        with Remove own show ?thesis by (simp add: org_owners_def)
      next
        fix t
        assume t: "t \<in> set (memberships d)" "m_orgId t = a_orgId a"
          and eq: "memberships (fst (removeMember g a mid d)) = delete_many (\<lambda>m. m_id m = m_id t) (memberships d)"
          and guard: "m_role t = OWNER \<longrightarrow> 1 < org_owners (a_orgId a) d"
        from owner_survives_update(2)[OF inv t(1) own] t guard org Remove show ?thesis
          by (simp add: org_owners_def eq)
      qed
    qed
  qed
  with member_exec_unique[OF inv] show ?thesis by (simp add: org_owned_def)
qed

interpretation owner_machine: kept_invariant "org_owned org" member_exec for org
  by unfold_locales (rule member_exec_owned)

section \<open>Properties\<close>



end
