(* ===== verification/Invitations.thy ===== *)
theory Invitations
  imports Users Members
begin

text \<open>
  Invitations, \<open>src/lib/auth/invitations.ts\<close>. \<open>acceptInvitation\<close> is split where the source opens its
  transaction: \<open>accept_check\<close> decides on the state it read, \<open>accept_commit\<close> is the transaction, which
  may run after other requests have committed. An \<open>Abort\<close> rolls it back: the state is unchanged.
  Claiming the invitation is a \<open>compare_and_set\<close>.
\<close>

definition INVITATION_TTL_SECONDS :: int where "INVITATION_TTL_SECONDS = 7 * 24 * 60 * 60"

datatype invite_error = IE_forbidden | IE_invalid_email | IE_role_not_allowed | IE_already_member | IE_not_found

definition inv_open :: "invitation_row \<Rightarrow> bool" where
  "inv_open i = (i_acceptedAt i = None \<and> i_revokedAt i = None)"

definition createInvitation ::
  "(string \<Rightarrow> string) \<Rightarrow> dbgen \<Rightarrow> string \<Rightarrow> actor \<Rightarrow> string \<Rightarrow> role \<Rightarrow> ms
   \<Rightarrow> db \<Rightarrow> db \<times> (string \<times> ident \<times> ms, invite_error) result" where
  "createInvitation hashToken g token a rawEmail r now d =
     (if \<not> can (Some (a_role a)) members_invite then (d, fail IE_forbidden)
      else if r \<notin> set (assignableRoles (a_role a)) then (d, fail IE_role_not_allowed)
      else
        let email = normalizeEmail rawEmail in
        if length email > 254 \<or> \<not> email_shape email then (d, fail IE_invalid_email)
        else case find_first (\<lambda>m. m_orgId m = a_orgId a \<and>
               list_ex (\<lambda>u. u_id u = m_userId m \<and> u_email u = email) (users d)) (memberships d) of
          Some _ \<Rightarrow> (d, fail IE_already_member)
        | None \<Rightarrow>
            let expiresAt = now + seconds INVITATION_TTL_SECONDS;
                d1 = d\<lparr>invitations := insert_row
                       \<lparr>i_id = cuid g 0, i_orgId = a_orgId a, i_email = email, i_role = r,
                        i_tokenHash = hashToken token, i_invitedById = Some (a_userId a), i_expiresAt = expiresAt,
                        i_acceptedAt = None, i_revokedAt = None, i_createdAt = now\<rparr>
                       (update_many (\<lambda>i. i_orgId i = a_orgId a \<and> i_email i = email \<and> inv_open i)
                          (\<lambda>i. i\<lparr>i_revokedAt := Some now\<rparr>) (invitations d))\<rparr>
            in (recordAudit g 1 (actor_entry ''member.invited'' a ''invitation'' (cuid g 0)
                   (Some (JObj [(''email'', JStr email), (''role'', JStr (role_name r))]))) d1,
                ok (token, cuid g 0, expiresAt)))"

definition revokeInvitation ::
  "dbgen \<Rightarrow> actor \<Rightarrow> ident \<Rightarrow> ms \<Rightarrow> db \<Rightarrow> db \<times> (unit, invite_error) result" where
  "revokeInvitation g a invitationId now d =
     (if \<not> can (Some (a_role a)) members_invite then (d, fail IE_forbidden)
      else
        let hit = (\<lambda>i. i_id i = invitationId \<and> i_orgId i = a_orgId a \<and> inv_open i);
            d1 = d\<lparr>invitations := update_many hit (\<lambda>i. i\<lparr>i_revokedAt := Some now\<rparr>) (invitations d)\<rparr>
        in if count_rows hit (invitations d) \<noteq> 1 then (d1, fail IE_not_found)
           else (recordAudit g 0 (actor_entry ''member.invitation_revoked'' a ''invitation'' invitationId None) d1, ok ()))"

record invitation_preview =
  ip_orgName :: string
  ip_email :: string
  ip_role :: role
  ip_accountExists :: bool

definition previewInvitation ::
  "(string \<Rightarrow> string) \<Rightarrow> string \<Rightarrow> ms \<Rightarrow> db \<Rightarrow> invitation_preview option" where
  "previewInvitation hashToken token now d =
     (if token = [] \<or> length token > 256 then None
      else case find_first (\<lambda>i. i_tokenHash i = hashToken token) (invitations d) of
        None \<Rightarrow> None
      | Some i \<Rightarrow>
        if \<not> inv_open i \<or> i_expiresAt i \<le> now then None
        else map_option (\<lambda>og. \<lparr>ip_orgName = o_name og, ip_email = i_email i, ip_role = i_role i,
               ip_accountExists = (find_first (\<lambda>u. u_email u = i_email i) (users d) \<noteq> None)\<rparr>)
             (find_first (\<lambda>og. o_id og = i_orgId i) (organizations d)))"

section \<open>Accepting\<close>

datatype accept_error =
    AE_invalid_or_expired | AE_sign_in_required | AE_email_mismatch | AE_account_required
  | AE_create create_user_error

record new_account =
  na_name :: "string option"
  na_password :: string
  na_locale :: "ui_locale option"

datatype accept_decision = Refused accept_error | Join invitation_row "ident option"

text \<open>\<open>signedInUserId\<close> counts only when it is not the empty string.\<close>

definition accept_check ::
  "(string \<Rightarrow> string) \<Rightarrow> string \<Rightarrow> ident option \<Rightarrow> new_account option \<Rightarrow> ms \<Rightarrow> db \<Rightarrow> accept_decision" where
  "accept_check hashToken token signedInUserId newAccount now d =
     (if token = [] \<or> length token > 256 then Refused AE_invalid_or_expired
      else case find_first (\<lambda>i. i_tokenHash i = hashToken token) (invitations d) of
        None \<Rightarrow> Refused AE_invalid_or_expired
      | Some i \<Rightarrow>
        if \<not> inv_open i \<or> i_expiresAt i \<le> now then Refused AE_invalid_or_expired
        else case find_first (\<lambda>u. u_email u = i_email i) (users d) of
          Some u \<Rightarrow>
            if u_disabledAt u \<noteq> None then Refused AE_invalid_or_expired
            else (case signedInUserId of
                None \<Rightarrow> Refused AE_sign_in_required
              | Some sid \<Rightarrow> if sid = [] then Refused AE_sign_in_required
                           else if sid \<noteq> u_id u then Refused AE_email_mismatch
                           else Join i (Some (u_id u)))
        | None \<Rightarrow> if newAccount = None then Refused AE_account_required else Join i None)"

record accepted =
  ac_userId :: ident
  ac_orgId :: ident
  ac_role :: role
  ac_createdAccount :: bool

text \<open>The account to attach: the existing one, or the one \<open>createUser\<close> makes.\<close>

definition accept_account ::
  "(string \<Rightarrow> string) \<Rightarrow> dbgen \<Rightarrow> invitation_row \<Rightarrow> ident option \<Rightarrow> new_account option \<Rightarrow> db
   \<Rightarrow> db \<times> (ident \<times> bool, create_user_error) result" where
  "accept_account hashPassword g i existing newAccount d =
     (case (existing, newAccount) of
        (Some uid, _) \<Rightarrow> (d, ok (uid, False))
      | (None, Some na) \<Rightarrow>
          (case createUser hashPassword g 0 (i_email i) (na_name na) (na_password na) (na_locale na) (clock g) d of
             (d1, ok (uid, _)) \<Rightarrow> (d1, ok (uid, True))
           | (d1, fail e) \<Rightarrow> (d1, fail e))
      | (None, None) \<Rightarrow> (d, fail CU_invalid_email))"

definition upsert_membership :: "dbgen \<Rightarrow> nat \<Rightarrow> ident \<Rightarrow> ident \<Rightarrow> role \<Rightarrow> db \<Rightarrow> db \<times> role" where
  "upsert_membership g k userId orgId r d =
     (case find_first (\<lambda>m. m_userId m = userId \<and> m_orgId m = orgId) (memberships d) of
        Some m \<Rightarrow> (d, m_role m)
      | None \<Rightarrow> (d\<lparr>memberships := insert_row \<lparr>m_id = cuid g k, m_userId = userId, m_orgId = orgId,
                   m_role = r, m_createdAt = clock g\<rparr> (memberships d)\<rparr>, r))"

definition accept_commit ::
  "(string \<Rightarrow> string) \<Rightarrow> dbgen \<Rightarrow> string option \<Rightarrow> new_account option \<Rightarrow> ms \<Rightarrow> accept_decision
   \<Rightarrow> db \<Rightarrow> db \<times> (accepted, accept_error) result" where
  "accept_commit hashPassword g ip newAccount now dec d =
     (case dec of
        Refused e \<Rightarrow> (d, fail e)
      | Join i existing \<Rightarrow>
          let hit = (\<lambda>r. i_id r = i_id i \<and> inv_open r);
              d1 = d\<lparr>invitations := update_many hit (\<lambda>r. r\<lparr>i_acceptedAt := Some now\<rparr>) (invitations d)\<rparr>
          in if count_rows hit (invitations d) \<noteq> 1 then (d, fail AE_invalid_or_expired)
             else case accept_account hashPassword g i existing newAccount d1 of
               (_, fail e) \<Rightarrow> (d, fail (AE_create e))
             | (d2, ok (userId, createdAccount)) \<Rightarrow>
                 let (d3, r) = upsert_membership g 1 userId (i_orgId i) (i_role i) d2 in
                 (recordAudit g 2 ((audit_entry ''member.joined'')\<lparr>ae_orgId := Some (i_orgId i),
                     ae_actorId := Some userId, ae_actorEmail := Some (i_email i), ae_targetType := Some ''user'',
                     ae_targetId := Some userId, ae_ipAddress := ip,
                     ae_metadata := Some (JObj [(''role'', JStr (role_name r)),
                       (''invitedBy'', case i_invitedById i of None \<Rightarrow> JNull | Some b \<Rightarrow> JStr b),
                       (''createdAccount'', JBool createdAccount)])\<rparr>) d3,
                  ok \<lparr>ac_userId = userId, ac_orgId = i_orgId i, ac_role = r, ac_createdAccount = createdAccount\<rparr>))"

definition acceptInvitation ::
  "(string \<Rightarrow> string) \<Rightarrow> (string \<Rightarrow> string) \<Rightarrow> dbgen \<Rightarrow> string \<Rightarrow> string option \<Rightarrow> ident option \<Rightarrow> new_account option \<Rightarrow> ms
   \<Rightarrow> db \<Rightarrow> db \<times> (accepted, accept_error) result" where
  "acceptInvitation hashToken hashPassword g token ip signedInUserId newAccount now d =
     accept_commit hashPassword g ip newAccount now
       (accept_check hashToken token signedInUserId newAccount now d) d"

section \<open>Interleavings\<close>

text \<open>
  Requests as commands. An \<open>Accept\<close> carries the decision it took earlier, on whatever state it
  read: the theorems below hold for every interleaving. A duplicate primary key raises and
  leaves the table as it was.
\<close>

datatype invitation_cmd =
    Invite dbgen string actor string role ms
  | Revoke_inv dbgen actor ident ms
  | Accept dbgen "string option" "new_account option" ms accept_decision

primrec invitation_exec :: "(string \<Rightarrow> string) \<Rightarrow> (string \<Rightarrow> string) \<Rightarrow> invitation_cmd \<Rightarrow> db \<Rightarrow> db" where
  "invitation_exec h hp (Invite g tok a em r now) d =
     (if list_ex (\<lambda>i. i_id i = cuid g 0 \<or> i_tokenHash i = h tok) (invitations d) then d
      else fst (createInvitation h g tok a em r now d))"
| "invitation_exec h hp (Revoke_inv g a iid now) d = fst (revokeInvitation g a iid now d)"
| "invitation_exec h hp (Accept g ip na now dec) d =
     (if list_ex (\<lambda>m. m_id m = cuid g 1) (memberships d) then d
      else fst (accept_commit hp g ip na now dec d))"

text \<open>The command succeeds in accepting this invitation.\<close>

definition accepts :: "(string \<Rightarrow> string) \<Rightarrow> ident \<Rightarrow> invitation_cmd \<Rightarrow> db \<Rightarrow> bool" where
  "accepts hp iid c d = (case c of
       Accept g ip na now (Join i ex) \<Rightarrow>
         i_id i = iid \<and> \<not> list_ex (\<lambda>m. m_id m = cuid g 1) (memberships d)
         \<and> is_ok (snd (accept_commit hp g ip na now (Join i ex) d))
     | _ \<Rightarrow> False)"

fun acceptances :: "(string \<Rightarrow> string) \<Rightarrow> (string \<Rightarrow> string) \<Rightarrow> ident \<Rightarrow> invitation_cmd list \<Rightarrow> db \<Rightarrow> nat" where
  "acceptances h hp iid [] d = 0"
| "acceptances h hp iid (c # cs) d =
     (if accepts hp iid c d then 1 else 0) + acceptances h hp iid cs (invitation_exec h hp c d)"

section \<open>Lemmas\<close>

interpretation claim: compare_and_set i_id inv_open "\<lambda>now i. i\<lparr>i_acceptedAt := Some now\<rparr>"
  by unfold_locales (simp_all add: inv_open_def)

lemma accept_account_invitations:
  "invitations (fst (accept_account hp g i ex na d)) = invitations d"
  "memberships (fst (accept_account hp g i ex na d)) = memberships d"
  by (auto simp: accept_account_def createUser_def Let_def split: option.splits result.splits prod.splits)

lemma upsert_invitations [simp]: "invitations (fst (upsert_membership g k u og r d)) = invitations d"
  by (simp add: upsert_membership_def split: option.split)

lemma commit_ok:
  assumes "accept_commit hp g ip na now (Join i ex) d = (d', ok v)"
  shows "claim.wins (i_id i) (invitations d) \<and> invitations d' = claim.cas (i_id i) now (invitations d)
    \<and> (\<exists>d2 b. accept_account hp g i ex na (d\<lparr>invitations := claim.cas (i_id i) now (invitations d)\<rparr>) = (d2, ok (ac_userId v, b))
        \<and> memberships d' = memberships (fst (upsert_membership g 1 (ac_userId v) (i_orgId i) (i_role i) d2))
        \<and> users d' = users d2
        \<and> ac_role v = snd (upsert_membership g 1 (ac_userId v) (i_orgId i) (i_role i) d2)
        \<and> ac_orgId v = i_orgId i \<and> ac_createdAccount v = b)"
proof -
  let ?d1 = "d\<lparr>invitations := claim.cas (i_id i) now (invitations d)\<rparr>"
  have win: "claim.wins (i_id i) (invitations d)"
    using assms by (auto simp: accept_commit_def Let_def claim.wins_def split: if_splits)
  obtain d2 uid b where acc: "accept_account hp g i ex na ?d1 = (d2, ok (uid, b))"
    using assms win
    by (cases "accept_account hp g i ex na ?d1" rule: prod.exhaust; cases "snd (accept_account hp g i ex na ?d1)")
      (auto simp: accept_commit_def Let_def claim.wins_def claim.cas_def)
  have "invitations d2 = claim.cas (i_id i) now (invitations d)"
    using accept_account_invitations(1)[of hp g i ex na ?d1] by (simp add: acc)
  moreover have "users (fst (upsert_membership g 1 uid (i_orgId i) (i_role i) d2)) = users d2"
    by (simp add: upsert_membership_def split: option.split)
  ultimately show ?thesis using assms win acc
    by (auto simp: accept_commit_def Let_def claim.wins_def claim.cas_def split_beta)
qed

lemma commit_not_ok:
  assumes "\<not> is_ok (snd (accept_commit hp g ip na now dec d))"
  shows "fst (accept_commit hp g ip na now dec d) = d"
  using assms
  by (auto simp: accept_commit_def Let_def split_beta split: accept_decision.splits result.splits prod.splits)

text \<open>An invitation that exists and is no longer open.\<close>

definition inv_closed :: "ident \<Rightarrow> db \<Rightarrow> bool" where
  "inv_closed iid d = (list_ex (\<lambda>i. i_id i = iid) (invitations d)
     \<and> list_all (\<lambda>i. i_id i = iid \<longrightarrow> \<not> inv_open i) (invitations d))"

lemma invitations_recordAudit_keys: "map i_id (update_many P (\<lambda>i. i\<lparr>i_revokedAt := t\<rparr>) xs) = map i_id xs"
  by (simp add: map_update_many)

lemma createInvitation_invitations:
  "invitations (fst (createInvitation h g tok a em r now d)) = invitations d
   \<or> (\<exists>n. i_id n = cuid g 0 \<and> i_orgId n = a_orgId a \<and> invitations (fst (createInvitation h g tok a em r now d))
        = insert_row n (update_many (\<lambda>i. i_orgId i = a_orgId a \<and> i_email i = normalizeEmail em \<and> inv_open i)
            (\<lambda>i. i\<lparr>i_revokedAt := Some now\<rparr>) (invitations d)))"
  by (auto simp: createInvitation_def Let_def split: option.splits
      intro!: disjI2 exI[of _ "\<lparr>i_id = cuid g 0, i_orgId = a_orgId a, i_email = normalizeEmail em, i_role = r, i_tokenHash = h tok,
        i_invitedById = Some (a_userId a), i_expiresAt = now + seconds INVITATION_TTL_SECONDS, i_acceptedAt = None,
        i_revokedAt = None, i_createdAt = now\<rparr>"])

lemma revokeInvitation_invitations:
  "invitations (fst (revokeInvitation g a iid now d)) = invitations d
   \<or> invitations (fst (revokeInvitation g a iid now d))
      = update_many (\<lambda>i. i_id i = iid \<and> i_orgId i = a_orgId a \<and> inv_open i) (\<lambda>i. i\<lparr>i_revokedAt := Some now\<rparr>) (invitations d)"
  by (auto simp: revokeInvitation_def Let_def)

lemma closed_table:
  "inv_closed iid d \<longleftrightarrow> iid \<in> set (map i_id (invitations d)) \<and> (\<forall>i \<in> set (invitations d). i_id i = iid \<longrightarrow> \<not> inv_open i)"
  by (auto simp: inv_closed_def list_ex_iff list_all_iff)

lemma revoke_keeps_closed:
  assumes "\<forall>i \<in> set t. i_id i = iid \<longrightarrow> \<not> inv_open i"
  shows "\<forall>i \<in> set (update_many P (\<lambda>i. i\<lparr>i_revokedAt := Some now\<rparr>) t). i_id i = iid \<longrightarrow> \<not> inv_open i"
  using assms by (auto simp: inv_open_def elim!: update_manyE)

lemma exec_keeps_closed:
  assumes "inv_closed iid d"
  shows "inv_closed iid (invitation_exec h hp c d)"
proof (cases c)
  case (Invite g tok a em r now)
  show ?thesis
  proof (cases "list_ex (\<lambda>i. i_id i = cuid g 0 \<or> i_tokenHash i = h tok) (invitations d)")
    case True
    with assms Invite show ?thesis by simp
  next
    case False
    then have fresh: "cuid g 0 \<noteq> iid" using assms by (auto simp: closed_table list_ex_iff)
    have upd: "\<forall>i \<in> set (update_many P (\<lambda>i. i\<lparr>i_revokedAt := Some now\<rparr>) (invitations d)). i_id i = iid \<longrightarrow> \<not> inv_open i" for P
      using assms revoke_keeps_closed by (auto simp: closed_table)
    have keys: "iid \<in> i_id ` set (update_many P (\<lambda>i. i\<lparr>i_revokedAt := Some now\<rparr>) (invitations d))" for P
      using assms invitations_recordAudit_keys[of P "Some now" "invitations d"] by (metis closed_table set_map)
    show ?thesis using createInvitation_invitations[of h g tok a em r now d]
    proof (elim disjE exE conjE)
      assume "invitations (fst (createInvitation h g tok a em r now d)) = invitations d"
      with assms Invite False show ?thesis by (simp add: closed_table)
    next
      fix n
      assume n: "i_id n = cuid g 0" and t: "invitations (fst (createInvitation h g tok a em r now d))
        = insert_row n (update_many (\<lambda>i. i_orgId i = a_orgId a \<and> i_email i = normalizeEmail em \<and> inv_open i)
            (\<lambda>i. i\<lparr>i_revokedAt := Some now\<rparr>) (invitations d))"
      show ?thesis using n t fresh upd keys Invite False by (auto simp: closed_table set_insert_row)
    qed
  qed
next
  case (Revoke_inv g a i now)
  show ?thesis using revokeInvitation_invitations[of g a i now d]
  proof
    assume "invitations (fst (revokeInvitation g a i now d)) = invitations d"
    with assms Revoke_inv show ?thesis by (simp add: closed_table)
  next
    assume "invitations (fst (revokeInvitation g a i now d))
      = update_many (\<lambda>x. i_id x = i \<and> i_orgId x = a_orgId a \<and> inv_open x) (\<lambda>i. i\<lparr>i_revokedAt := Some now\<rparr>) (invitations d)"
    then show ?thesis
      using assms Revoke_inv revoke_keeps_closed unfolding closed_table
      by (simp only: invitation_exec.simps invitations_recordAudit_keys) blast
  qed
next
  case (Accept g ip na now dec)
  show ?thesis
  proof (cases "dec")
    case (Refused e)
    with assms Accept show ?thesis by (simp add: accept_commit_def)
  next
    case (Join i ex)
    have "inv_closed iid (fst (accept_commit hp g ip na now (Join i ex) d))"
    proof (cases "is_ok (snd (accept_commit hp g ip na now (Join i ex) d))")
      case True
      then obtain v where "accept_commit hp g ip na now (Join i ex) d = (fst (accept_commit hp g ip na now (Join i ex) d), ok v)"
        by (metis prod.collapse result_cases_ok)
      from commit_ok[OF this] have t: "invitations (fst (accept_commit hp g ip na now (Join i ex) d)) = claim.cas (i_id i) now (invitations d)"
        by blast
      show ?thesis
        using assms claim.cas_stays_closed[of "invitations d" iid "i_id i" now] unfolding closed_table t
        by (simp only: claim.cas_keys) blast
    next
      case False
      from commit_not_ok[OF this] assms show ?thesis by simp
    qed
    with Accept Join assms show ?thesis by simp
  qed
qed

text \<open>Closing an invitation is a stable property of the whole machine.\<close>

interpretation invitation_machine: kept_invariant "inv_closed iid" "invitation_exec h hp" for iid h hp
  by unfold_locales (rule exec_keeps_closed)

lemma accepts_wins:
  assumes "accepts hp iid c d"
  shows "claim.wins iid (invitations d) \<and> inv_closed iid (invitation_exec h hp c d)"
proof -
  from assms obtain g ip na now i ex where c: "c = Accept g ip na now (Join i ex)" "i_id i = iid"
    "\<not> list_ex (\<lambda>m. m_id m = cuid g 1) (memberships d)"
    "is_ok (snd (accept_commit hp g ip na now (Join i ex) d))"
    by (auto simp: accepts_def split: invitation_cmd.splits accept_decision.splits)
  then obtain v where run: "accept_commit hp g ip na now (Join i ex) d = (fst (accept_commit hp g ip na now (Join i ex) d), ok v)"
    by (metis prod.collapse result_cases_ok)
  from commit_ok[OF run] c(2) have win: "claim.wins iid (invitations d)"
    and t: "invitations (fst (accept_commit hp g ip na now (Join i ex) d)) = claim.cas iid now (invitations d)" by auto
  from win have "iid \<in> set (map i_id (invitations d))"
    using count_rows_pos[of "\<lambda>r. i_id r = iid \<and> inv_open r" "invitations d"] by (auto simp: claim.wins_def)
  moreover have "\<forall>r \<in> set (claim.cas iid now (invitations d)). i_id r = iid \<longrightarrow> \<not> inv_open r"
    using claim.cas_closes by blast
  ultimately have "inv_closed iid (fst (accept_commit hp g ip na now (Join i ex) d))"
    unfolding closed_table t by (simp only: claim.cas_keys)
  with win c(1,3) show ?thesis by simp
qed

lemma closed_never_accepted: "inv_closed iid d \<Longrightarrow> acceptances h hp iid cs d = 0"
proof (induction cs arbitrary: d)
  case (Cons c cs)
  have "\<not> claim.wins iid (invitations d)"
    using Cons.prems count_rows_zero[of "\<lambda>r. i_id r = iid \<and> inv_open r" "invitations d"]
    by (auto simp: claim.wins_def closed_table)
  then have "\<not> accepts hp iid c d" using accepts_wins by blast
  then show ?case using Cons.IH[OF exec_keeps_closed[OF Cons.prems]] by simp
qed simp

section \<open>Properties\<close>

text \<open>C8. An invitation is used at most once: however many requests accept it concurrently, each
  deciding on a state it read earlier, and however they interleave with invitations and
  revocations, at most one of them succeeds; and none does once the invitation has been
  revoked or replaced.\<close>

theorem invitation_single_use:
  "acceptances h hp iid cs d \<le> (if inv_closed iid d then 0 else 1)"
proof (induction cs arbitrary: d)
  case (Cons c cs)
  show ?case
  proof (cases "inv_closed iid d")
    case True
    then show ?thesis by (simp add: closed_never_accepted del: acceptances.simps)
  next
    case False
    show ?thesis
    proof (cases "accepts hp iid c d")
      case True
      with accepts_wins[OF True] False show ?thesis by (simp add: closed_never_accepted)
    next
      case no: False
      have "acceptances h hp iid cs (invitation_exec h hp c d) \<le> 1"
        using Cons.IH[of "invitation_exec h hp c d"] by (simp split: if_splits)
      with no False show ?thesis by simp
    qed
  qed
qed simp

text \<open>Accepting attaches exactly the invited address to the inviting organization. When an account
  with that address exists, it must be enabled and the request must be signed in as it, so a link
  alone never moves an existing account; otherwise a new account with that address is created.
  Members the organization already has keep their roles, and a new member gets the role of the
  invitation.\<close>

lemma accept_attaches_invited_account:
  assumes "acceptInvitation h hp g token ip signedIn na now d = (d', ok v)"
  shows "\<exists>i \<in> set (invitations d). i_tokenHash i = h token \<and> inv_open i \<and> now < i_expiresAt i
    \<and> ac_orgId v = i_orgId i
    \<and> (if ac_createdAccount v
       then (\<forall>u \<in> set (users d). u_email u \<noteq> i_email i)
            \<and> (\<exists>u. users d' = users d @ [u] \<and> u_id u = ac_userId v \<and> u_email u = normalizeEmail (i_email i))
       else signedIn = Some (ac_userId v) \<and> users d' = users d
            \<and> (\<exists>u \<in> set (users d). u_id u = ac_userId v \<and> u_email u = i_email i \<and> u_disabledAt u = None))
    \<and> (memberships d' = memberships d
       \<or> (\<exists>m. memberships d' = memberships d @ [m] \<and> m_userId m = ac_userId v \<and> m_orgId m = i_orgId i
              \<and> m_role m = i_role i \<and> ac_role v = i_role i))"
proof -
  obtain i ex where j: "accept_check h token signedIn na now d = Join i ex"
    using assms by (cases "accept_check h token signedIn na now d") (simp_all add: acceptInvitation_def accept_commit_def)
  have i: "i \<in> set (invitations d)" "i_tokenHash i = h token" "inv_open i" "now < i_expiresAt i"
    using j by (auto simp: accept_check_def not_le split: if_splits option.splits dest: find_first_SomeD)
  have run: "accept_commit hp g ip na now (Join i ex) d = (d', ok v)" using assms by (simp add: acceptInvitation_def j)
  let ?d1 = "d\<lparr>invitations := claim.cas (i_id i) now (invitations d)\<rparr>"
  from commit_ok[OF run] obtain d2 b where acc: "accept_account hp g i ex na ?d1 = (d2, ok (ac_userId v, b))"
    and mem: "memberships d' = memberships (fst (upsert_membership g 1 (ac_userId v) (i_orgId i) (i_role i) d2))"
    and us: "users d' = users d2" and org: "ac_orgId v = i_orgId i" and b: "ac_createdAccount v = b"
    and ro: "ac_role v = snd (upsert_membership g 1 (ac_userId v) (i_orgId i) (i_role i) d2)" by blast
  have m2: "memberships d2 = memberships d" using accept_account_invitations(2)[of hp g i ex na ?d1] by (simp add: acc)
  have "memberships d' = memberships d
       \<or> (\<exists>m. memberships d' = memberships d @ [m] \<and> m_userId m = ac_userId v \<and> m_orgId m = i_orgId i
              \<and> m_role m = i_role i \<and> ac_role v = i_role i)"
    using mem ro m2 by (auto simp: upsert_membership_def insert_row_def split: option.splits)
  moreover have "if ac_createdAccount v
       then (\<forall>u \<in> set (users d). u_email u \<noteq> i_email i)
            \<and> (\<exists>u. users d' = users d @ [u] \<and> u_id u = ac_userId v \<and> u_email u = normalizeEmail (i_email i))
       else signedIn = Some (ac_userId v) \<and> users d' = users d
            \<and> (\<exists>u \<in> set (users d). u_id u = ac_userId v \<and> u_email u = i_email i \<and> u_disabledAt u = None)"
  proof (cases ex)
    case None
    then have "find_first (\<lambda>u. u_email u = i_email i) (users d) = None"
      using j by (auto simp: accept_check_def split: if_splits option.splits)
    with acc None b us show ?thesis
      by (auto simp: accept_account_def createUser_def Let_def insert_row_def find_first_None_iff
          split: option.splits result.splits prod.splits if_splits)
  next
    case (Some uid)
    then obtain u where u: "find_first (\<lambda>u. u_email u = i_email i) (users d) = Some u" "u_disabledAt u = None"
      "signedIn = Some uid" "uid = u_id u"
      using j by (auto simp: accept_check_def split: if_splits option.splits)
    with acc Some b us find_first_SomeD[OF u(1)] show ?thesis by (auto simp: accept_account_def)
  qed
  ultimately show ?thesis using i org by blast
qed

definition sample_invited :: db where
  "sample_invited = fst (createInvitation rev sample_gen ''tok1'' (sample_actor ''ann'' ''acme'' OWNER) ''New@site.org'' OPERATOR 0 sample_db)"

definition sample_accept where
  "sample_accept = acceptInvitation rev rev sample_gen ''tok1'' None None
     (Some \<lparr>na_name = None, na_password = ''a-Fine-long-1-secret'', na_locale = None\<rparr>) 5 sample_invited"

lemma sample_accept_ok:
  "snd sample_accept = ok \<lparr>ac_userId = ''c'', ac_orgId = ''acme'', ac_role = OPERATOR, ac_createdAccount = True\<rparr>"
  by code_simp

lemma accept_attaches_invited_account_witness:
  "\<exists>i \<in> set (invitations sample_invited). i_tokenHash i = rev ''tok1'' \<and> i_orgId i = ''acme''"
proof -
  have "acceptInvitation rev rev sample_gen ''tok1'' None None
     (Some \<lparr>na_name = None, na_password = ''a-Fine-long-1-secret'', na_locale = None\<rparr>) 5 sample_invited
     = (fst sample_accept, ok \<lparr>ac_userId = ''c'', ac_orgId = ''acme'', ac_role = OPERATOR, ac_createdAccount = True\<rparr>)"
    using sample_accept_ok by (metis sample_accept_def prod.collapse)
  from accept_attaches_invited_account[OF this] show ?thesis by auto
qed

text \<open>An invitation never hands out more than its author holds, and afterwards exactly one open
  invitation of the address exists in the organization: the new one, which expires in a week.\<close>

lemma invitation_no_escalation:
  assumes "createInvitation h g token a email r now d = (d', ok (tok, iid, ex))"
  shows "{p. can (Some r) p} \<subseteq> {p. can (Some (a_role a)) p}
    \<and> (a_role a = OWNER \<or> ROLE_RANK r < ROLE_RANK (a_role a))
    \<and> ex = now + 7 * 24 * 60 * 60 * 1000
    \<and> filter (\<lambda>i. i_orgId i = a_orgId a \<and> i_email i = normalizeEmail email \<and> inv_open i) (invitations d')
       = [\<lparr>i_id = iid, i_orgId = a_orgId a, i_email = normalizeEmail email, i_role = r, i_tokenHash = h token,
           i_invitedById = Some (a_userId a), i_expiresAt = ex, i_acceptedAt = None, i_revokedAt = None, i_createdAt = now\<rparr>]"
proof -
  have res: "snd (createInvitation h g token a email r now d) = ok (tok, iid, ex)" using assms by simp
  have n: "r \<in> set (assignableRoles (a_role a))"
    using res by (auto simp: createInvitation_def Let_def split: if_splits)
  have iid: "iid = cuid g 0" "ex = now + 7 * 24 * 60 * 60 * 1000"
    using res by (auto simp: createInvitation_def Let_def INVITATION_TTL_SECONDS_def seconds_def split: if_splits option.splits)
  let ?P = "\<lambda>i. i_orgId i = a_orgId a \<and> i_email i = normalizeEmail email \<and> inv_open i"
  have old: "filter ?P (update_many ?P (\<lambda>i. i\<lparr>i_revokedAt := Some now\<rparr>) (invitations d)) = []"
    by (auto simp: filter_empty_conv inv_open_def elim!: update_manyE)
  have "filter ?P (invitations d') = [\<lparr>i_id = iid, i_orgId = a_orgId a, i_email = normalizeEmail email, i_role = r, i_tokenHash = h token,
           i_invitedById = Some (a_userId a), i_expiresAt = ex, i_acceptedAt = None, i_revokedAt = None, i_createdAt = now\<rparr>]"
    using assms old
    by (auto simp: createInvitation_def Let_def insert_row_def inv_open_def split: if_splits option.splits)
  moreover have "{p. can (Some r) p} \<subseteq> {p. can (Some (a_role a)) p}" using rbac.no_escalation[OF n] by blast
  moreover have "a_role a = OWNER \<or> ROLE_RANK r < ROLE_RANK (a_role a)" using rbac.assignable_below[OF n] by blast
  ultimately show ?thesis using iid by blast
qed

lemma invitation_no_escalation_witness:
  "{p. can (Some OPERATOR) p} \<subseteq> {p. can (Some OWNER) p}"
proof -
  have "snd (createInvitation rev sample_gen ''tok1'' (sample_actor ''ann'' ''acme'' OWNER) ''New@site.org'' OPERATOR 0 sample_db)
      = ok (''tok1'', ''c'', 604800000)" by code_simp
  then have "createInvitation rev sample_gen ''tok1'' (sample_actor ''ann'' ''acme'' OWNER) ''New@site.org'' OPERATOR 0 sample_db
      = (sample_invited, ok (''tok1'', ''c'', 604800000))" by (metis sample_invited_def prod.collapse)
  from invitation_no_escalation[OF this] show ?thesis by (simp add: sample_actor_def)
qed

end
