(* ===== verification/Remediation_Actions.thy ===== *)
theory Remediation_Actions
  imports Audit_Trail Samples
begin

text \<open>
  Remediation actions, \<open>src/modules/remediation/actions.ts\<close>, their constants
  (\<open>src/modules/remediation/constants.ts\<close>) and the guard-rails (\<open>src/modules/remediation/guard.ts\<close>).
  SHA-256 is a parameter. The actions' list is read-only presentation and returns the rows.
\<close>

definition MAX_SCRIPT_BYTES :: nat where "MAX_SCRIPT_BYTES = 64 * 1024"
definition MAX_OUTPUT_BYTES :: nat where "MAX_OUTPUT_BYTES = 64 * 1024"
definition MAX_ARGS :: nat where "MAX_ARGS = 20"

definition LIVE_STATUSES :: "execution_status list" where
  "LIVE_STATUSES = [AWAITING_APPROVAL, PENDING, RUNNING]"

datatype status_reason =
    action_disabled | no_target_host | host_disabled | host_not_accepting | not_in_allowlist
  | os_not_allowed | already_queued | cooldown | rate_limited | cancelled | expired | agent_lost
  | refused_by_agent_policy | unsupported_runtime | interpreter_not_found | start_failed

primrec reason_name :: "status_reason \<Rightarrow> string" where
  "reason_name action_disabled = ''action_disabled''"
| "reason_name no_target_host = ''no_target_host''"
| "reason_name host_disabled = ''host_disabled''"
| "reason_name host_not_accepting = ''host_not_accepting''"
| "reason_name not_in_allowlist = ''not_in_allowlist''"
| "reason_name os_not_allowed = ''os_not_allowed''"
| "reason_name already_queued = ''already_queued''"
| "reason_name cooldown = ''cooldown''"
| "reason_name rate_limited = ''rate_limited''"
| "reason_name cancelled = ''cancelled''"
| "reason_name expired = ''expired''"
| "reason_name agent_lost = ''agent_lost''"
| "reason_name refused_by_agent_policy = ''refused_by_agent_policy''"
| "reason_name unsupported_runtime = ''unsupported_runtime''"
| "reason_name interpreter_not_found = ''interpreter_not_found''"
| "reason_name start_failed = ''start_failed''"

text \<open>\<open>/^[A-Z][A-Z0-9_]{0,63}$/\<close>\<close>

definition upper_letter :: "char \<Rightarrow> bool" where
  "upper_letter c = (65 \<le> code_unit c \<and> code_unit c \<le> 90)"

definition arg_name_char :: "char \<Rightarrow> bool" where
  "arg_name_char c = (upper_letter c \<or> (48 \<le> code_unit c \<and> code_unit c \<le> 57) \<or> c = CHR ''_'')"

definition ARG_NAME :: "string \<Rightarrow> bool" where
  "ARG_NAME s = (case s of [] \<Rightarrow> False | c # cs \<Rightarrow> upper_letter c \<and> length cs \<le> 63 \<and> list_all arg_name_char cs)"

text \<open>\<open>Buffer.byteLength(s, "utf8")\<close>\<close>

definition utf8_length :: "string \<Rightarrow> nat" where
  "utf8_length s = sum_list (map (\<lambda>c. if code_unit c < 128 then 1 else 2) s)"

definition readArgs :: "json option \<Rightarrow> (string \<times> string) list" where
  "readArgs v = (case v of
       Some (JObj kvs) \<Rightarrow> concat (map (\<lambda>(k, x). case x of JStr s \<Rightarrow> if ARG_NAME k then [(k, s)] else [] | _ \<Rightarrow> []) kvs)
     | _ \<Rightarrow> [])"

record action_input =
  ai_name :: string
  ai_description :: "string option"
  ai_runtime :: script_runtime
  ai_scriptBody :: string
  ai_args :: "(string \<times> string) list"
  ai_timeoutSec :: int
  ai_targetHostId :: "ident option"
  ai_allowedOsFamilies :: "os_family list"
  ai_requiresApproval :: bool
  ai_cooldownSec :: int
  ai_maxRunsPerHour :: nat

datatype remediation_write_error = RW_forbidden | RW_not_found | RW_invalid_host | RW_invalid_script | RW_invalid_args

definition has_nul :: "string \<Rightarrow> bool" where
  "has_nul s = list_ex (\<lambda>c. code_unit c = 0) s"

definition validate :: "action_input \<Rightarrow> remediation_write_error option" where
  "validate inp =
     (if js_trim (ai_scriptBody inp) = [] \<or> utf8_length (ai_scriptBody inp) > MAX_SCRIPT_BYTES \<or> has_nul (ai_scriptBody inp)
      then Some RW_invalid_script
      else if length (ai_args inp) > MAX_ARGS \<or>
          list_ex (\<lambda>(name, val). \<not> ARG_NAME name \<or> length val > 1000 \<or> has_nul val) (ai_args inp)
      then Some RW_invalid_args else None)"

definition hostInOrg :: "ident \<Rightarrow> ident option \<Rightarrow> db \<Rightarrow> bool" where
  "hostInOrg orgId hostId d = (case hostId of None \<Rightarrow> True
     | Some h \<Rightarrow> h = [] \<or> count_rows (\<lambda>r. h_id r = h \<and> h_orgId r = orgId) (monitoredHosts d) = 1)"

definition args_json :: "(string \<times> string) list \<Rightarrow> json option" where
  "args_json args = Some (JObj (map (\<lambda>(k, v). (k, JStr v)) args))"

definition runtime_name :: "script_runtime \<Rightarrow> string" where
  "runtime_name r = (case r of BASH \<Rightarrow> ''BASH'' | POWERSHELL \<Rightarrow> ''POWERSHELL'' | PYTHON \<Rightarrow> ''PYTHON'')"

definition createRemediationAction ::
  "(string \<Rightarrow> string) \<Rightarrow> dbgen \<Rightarrow> actor \<Rightarrow> action_input \<Rightarrow> db \<Rightarrow> db \<times> (ident, remediation_write_error) result" where
  "createRemediationAction scriptSha256 g a inp d =
     (if \<not> can (Some (a_role a)) remediation_write then (d, fail RW_forbidden)
      else case validate inp of
        Some e \<Rightarrow> (d, fail e)
      | None \<Rightarrow>
        if \<not> hostInOrg (a_orgId a) (ai_targetHostId inp) d then (d, fail RW_invalid_host)
        else
          (recordAudit g 1 (actor_entry ''remediation_action.created'' a ''remediation_action'' (cuid g 0)
             (Some (JObj [(''name'', JStr (ai_name inp)), (''runtime'', JStr (runtime_name (ai_runtime inp))),
                (''scriptSha256'', JStr (scriptSha256 (ai_scriptBody inp)))])))
            (d\<lparr>remediationActions := insert_row
               \<lparr>ra_id = cuid g 0, ra_orgId = a_orgId a, ra_name = ai_name inp, ra_description = ai_description inp,
                ra_enabled = True, ra_runtime = ai_runtime inp, ra_scriptBody = ai_scriptBody inp,
                ra_args = args_json (ai_args inp), ra_timeoutSec = ai_timeoutSec inp, ra_targetHostId = ai_targetHostId inp,
                ra_allowedOsFamilies = ai_allowedOsFamilies inp, ra_requiresApproval = ai_requiresApproval inp,
                ra_cooldownSec = ai_cooldownSec inp, ra_maxRunsPerHour = ai_maxRunsPerHour inp,
                ra_createdBy = Some (a_userId a)\<rparr> (remediationActions d)\<rparr>),
           ok (cuid g 0)))"

definition updateRemediationAction ::
  "(string \<Rightarrow> string) \<Rightarrow> dbgen \<Rightarrow> actor \<Rightarrow> ident \<Rightarrow> action_input \<Rightarrow> db \<Rightarrow> db \<times> (unit, remediation_write_error) result" where
  "updateRemediationAction scriptSha256 g a actionId inp d =
     (if \<not> can (Some (a_role a)) remediation_write then (d, fail RW_forbidden)
      else case validate inp of
        Some e \<Rightarrow> (d, fail e)
      | None \<Rightarrow>
        if \<not> hostInOrg (a_orgId a) (ai_targetHostId inp) d then (d, fail RW_invalid_host)
        else case find_first (\<lambda>r. ra_id r = actionId \<and> ra_orgId r = a_orgId a) (remediationActions d) of
          None \<Rightarrow> (d, fail RW_not_found)
        | Some previous \<Rightarrow>
          (recordAudit g 0 (actor_entry ''remediation_action.updated'' a ''remediation_action'' actionId
             (Some (JObj [(''name'', JStr (ai_name inp)), (''runtime'', JStr (runtime_name (ai_runtime inp))),
                (''scriptSha256'', JStr (scriptSha256 (ai_scriptBody inp))),
                (''previousScriptSha256'', JStr (scriptSha256 (ra_scriptBody previous)))])))
            (d\<lparr>remediationActions := update_many (\<lambda>r. ra_id r = actionId)
               (\<lambda>r. r\<lparr>ra_name := ai_name inp, ra_description := ai_description inp, ra_runtime := ai_runtime inp,
                  ra_scriptBody := ai_scriptBody inp, ra_args := args_json (ai_args inp),
                  ra_timeoutSec := ai_timeoutSec inp, ra_targetHostId := ai_targetHostId inp,
                  ra_allowedOsFamilies := ai_allowedOsFamilies inp, ra_requiresApproval := ai_requiresApproval inp,
                  ra_cooldownSec := ai_cooldownSec inp, ra_maxRunsPerHour := ai_maxRunsPerHour inp\<rparr>)
               (remediationActions d)\<rparr>),
           ok ()))"

definition setRemediationActionEnabled ::
  "dbgen \<Rightarrow> actor \<Rightarrow> ident \<Rightarrow> bool \<Rightarrow> db \<Rightarrow> db \<times> (unit, remediation_write_error) result" where
  "setRemediationActionEnabled g a actionId en d =
     (if \<not> can (Some (a_role a)) remediation_write then (d, fail RW_forbidden)
      else
        let hit = (\<lambda>r. ra_id r = actionId \<and> ra_orgId r = a_orgId a);
            d1 = d\<lparr>remediationActions := update_many hit (\<lambda>r. r\<lparr>ra_enabled := en\<rparr>) (remediationActions d)\<rparr>
        in if count_rows hit (remediationActions d) \<noteq> 1 then (d1, fail RW_not_found)
           else (recordAudit g 0 (actor_entry (if en then ''remediation_action.enabled'' else ''remediation_action.disabled'')
                  a ''remediation_action'' actionId None) d1, ok ()))"

text \<open>Deleting an action deletes its executions (\<open>onDelete: Cascade\<close>) and clears it from the rules.\<close>

definition deleteRemediationAction ::
  "dbgen \<Rightarrow> actor \<Rightarrow> ident \<Rightarrow> db \<Rightarrow> db \<times> (unit, remediation_write_error) result" where
  "deleteRemediationAction g a actionId d =
     (if \<not> can (Some (a_role a)) remediation_write then (d, fail RW_forbidden)
      else
        let hit = (\<lambda>r. ra_id r = actionId \<and> ra_orgId r = a_orgId a) in
        if count_rows hit (remediationActions d) \<noteq> 1 then (d, fail RW_not_found)
        else (recordAudit g 0 (actor_entry ''remediation_action.deleted'' a ''remediation_action'' actionId None)
               (d\<lparr>remediationActions := delete_many hit (remediationActions d),
                  remediationExecutions := delete_many (\<lambda>e. re_actionId e = actionId) (remediationExecutions d),
                  alertRules := update_many (\<lambda>r. ar_remediationActionId r = Some actionId)
                    (\<lambda>r. r\<lparr>ar_remediationActionId := None\<rparr>) (alertRules d)\<rparr>), ok ()))"

section \<open>Guard-rails\<close>

definition guardrailViolation ::
  "remediation_action_row \<Rightarrow> host_row \<Rightarrow> string \<Rightarrow> (execution_status \<times> ms) list \<Rightarrow> ms \<Rightarrow> status_reason option" where
  "guardrailViolation action host sha recent now =
     (if \<not> ra_enabled action then Some action_disabled
      else if \<not> h_enabled host then Some host_disabled
      else if h_remediationMode host \<noteq> Some ''allowlist'' \<and> h_remediationMode host \<noteq> Some ''any'' then Some host_not_accepting
      else if h_remediationMode host = Some ''allowlist'' \<and> sha \<notin> set (h_remediationAllowlist host) then Some not_in_allowlist
      else if ra_allowedOsFamilies action \<noteq> [] \<and> h_osFamily host \<notin> set (ra_allowedOsFamilies action) then Some os_not_allowed
      else
        let counted = filter (\<lambda>(st, c). st \<noteq> SKIPPED \<and> st \<noteq> CANCELLED) recent in
        if list_ex (\<lambda>(st, c). st \<in> set LIVE_STATUSES) counted then Some already_queued
        else if list_ex (\<lambda>(st, c). now - c < ra_cooldownSec action * 1000) counted then Some cooldown
        else if length (filter (\<lambda>(st, c). now - c < 3600000) counted) \<ge> ra_maxRunsPerHour action then Some rate_limited
        else None)"

section \<open>Lemmas\<close>

lemma guardrail_None:
  "guardrailViolation action host sha recent now = None \<longleftrightarrow>
     ra_enabled action \<and> h_enabled host
     \<and> (h_remediationMode host = Some ''any'' \<or> h_remediationMode host = Some ''allowlist'' \<and> sha \<in> set (h_remediationAllowlist host))
     \<and> (ra_allowedOsFamilies action = [] \<or> h_osFamily host \<in> set (ra_allowedOsFamilies action))
     \<and> list_all (\<lambda>(st, c). st \<in> {SKIPPED, CANCELLED} \<or> (st \<notin> set LIVE_STATUSES \<and> ra_cooldownSec action * 1000 \<le> now - c)) recent
     \<and> length (filter (\<lambda>(st, c). st \<notin> {SKIPPED, CANCELLED} \<and> now - c < 3600000) recent) < ra_maxRunsPerHour action"
proof -
  define counted where "counted = filter (\<lambda>(st, c). st \<noteq> SKIPPED \<and> st \<noteq> CANCELLED) recent"
  have hour: "filter (\<lambda>(st, c). now - c < 3600000) counted
      = filter (\<lambda>(st, c). st \<notin> {SKIPPED, CANCELLED} \<and> now - c < 3600000) recent"
    by (auto simp: counted_def intro: filter_cong)
  have calm: "list_all (\<lambda>(st, c). st \<in> {SKIPPED, CANCELLED} \<or> (st \<notin> set LIVE_STATUSES \<and> ra_cooldownSec action * 1000 \<le> now - c)) recent
      \<longleftrightarrow> \<not> list_ex (\<lambda>(st, c). st \<in> set LIVE_STATUSES) counted \<and> \<not> list_ex (\<lambda>(st, c). now - c < ra_cooldownSec action * 1000) counted"
    unfolding counted_def by (induction recent) auto
  show ?thesis unfolding guardrailViolation_def Let_def counted_def[symmetric] hour calm
    by (simp add: not_le)
qed

lemma actions_keep_executions [simp]:
  "remediationExecutions (fst (createRemediationAction sha g a inp d)) = remediationExecutions d"
  "remediationExecutions (fst (updateRemediationAction sha g a i inp d)) = remediationExecutions d"
  "remediationExecutions (fst (setRemediationActionEnabled g a i en d)) = remediationExecutions d"
  by (simp_all add: createRemediationAction_def updateRemediationAction_def setRemediationActionEnabled_def Let_def
      split: option.split)

end
