(* ===== verification/Remediation.thy ===== *)
theory Remediation
  imports Remediation_Actions Interfaces
begin

text \<open>
  The lifecycle of remediation executions, \<open>src/modules/remediation/executions.ts\<close>. Creation runs under an
  advisory lock and is one step. Approval and collection read first and then write with a
  compare-and-set; they are split there, so that the theorems cover every interleaving.
\<close>

definition RESULT_GRACE_MS :: int where "RESULT_GRACE_MS = 2 * 60 * 1000"
definition PENDING_TTL_MS :: int where "PENDING_TTL_MS = 60 * 60 * 1000"
definition APPROVAL_TTL_MS :: int where "APPROVAL_TTL_MS = 24 * 60 * 60 * 1000"

record create_input =
  ci_orgId :: ident
  ci_actionId :: ident
  ci_hostId :: "ident option"
  ci_trigger :: execution_trigger
  ci_incidentId :: "ident option"
  ci_requestedBy :: "ident option"
  ci_needsApproval :: bool

record created_execution =
  ce_id :: ident
  ce_status :: execution_status
  ce_statusReason :: "status_reason option"

text \<open>The row both branches of the creation insert; the snapshot is copied from the action.\<close>

definition new_execution ::
  "(string \<Rightarrow> string) \<Rightarrow> dbgen \<Rightarrow> create_input \<Rightarrow> remediation_action_row \<Rightarrow> ident option \<Rightarrow> execution_status
   \<Rightarrow> status_reason option \<Rightarrow> ms option \<Rightarrow> remediation_execution_row" where
  "new_execution scriptSha256 g inp action hostId status reason finishedAt =
     \<lparr>re_id = cuid g 0, re_orgId = ci_orgId inp, re_actionId = ra_id action, re_incidentId = ci_incidentId inp,
      re_hostId = hostId, re_trigger = ci_trigger inp, re_status = status,
      re_statusReason = map_option reason_name reason, re_runtime = ra_runtime action,
      re_scriptBody = ra_scriptBody action, re_scriptSha256 = scriptSha256 (ra_scriptBody action),
      re_args = readArgs (ra_args action), re_timeoutSec = ra_timeoutSec action,
      re_requestedBy = ci_requestedBy inp, re_approvedBy = None, re_startedAt = None, re_finishedAt = finishedAt,
      re_durationMs = None, re_exitCode = None, re_stdout = None, re_stderr = None, re_createdAt = clock g\<rparr>"

definition recent_executions :: "remediation_action_row \<Rightarrow> ident \<Rightarrow> ms \<Rightarrow> db \<Rightarrow> (execution_status \<times> ms) list" where
  "recent_executions action hostId now d =
     map (\<lambda>e. (re_status e, re_createdAt e))
       (find_many (\<lambda>e. re_actionId e = ra_id action \<and> re_hostId e = Some hostId \<and>
          (now - max 3600 (ra_cooldownSec action) * 1000 \<le> re_createdAt e \<or> re_status e \<in> set LIVE_STATUSES))
        (remediationExecutions d))"

definition createExecution ::
  "(string \<Rightarrow> string) \<Rightarrow> dbgen \<Rightarrow> create_input \<Rightarrow> ms \<Rightarrow> db \<Rightarrow> db \<times> created_execution option" where
  "createExecution scriptSha256 g inp now d =
     (case find_first (\<lambda>r. ra_id r = ci_actionId inp \<and> ra_orgId r = ci_orgId inp) (remediationActions d) of
        None \<Rightarrow> (d, None)
      | Some action \<Rightarrow>
          let hostId = (case ci_hostId inp of Some h \<Rightarrow> Some h | None \<Rightarrow> ra_targetHostId action);
              host = (case hostId of None \<Rightarrow> None
                | Some h \<Rightarrow> if h = [] then None
                            else find_first (\<lambda>r. h_id r = h \<and> h_orgId r = ci_orgId inp) (monitoredHosts d))
          in case host of
            None \<Rightarrow>
              (d\<lparr>remediationExecutions := insert_row
                 (new_execution scriptSha256 g inp action None SKIPPED (Some no_target_host) (Some now)) (remediationExecutions d)\<rparr>,
               Some \<lparr>ce_id = cuid g 0, ce_status = SKIPPED, ce_statusReason = Some no_target_host\<rparr>)
          | Some hst \<Rightarrow>
              let violation = guardrailViolation action hst (scriptSha256 (ra_scriptBody action))
                    (recent_executions action (h_id hst) now d) now;
                  status = (if violation \<noteq> None then SKIPPED else if ci_needsApproval inp then AWAITING_APPROVAL else PENDING)
              in (d\<lparr>remediationExecutions := insert_row
                    (new_execution scriptSha256 g inp action (Some (h_id hst)) status violation
                       (if violation \<noteq> None then Some now else None)) (remediationExecutions d)\<rparr>,
                  Some \<lparr>ce_id = cuid g 0, ce_status = status, ce_statusReason = violation\<rparr>))"

datatype execution_write_error = EW_forbidden | EW_not_found | EW_invalid_status

primrec status_name :: "execution_status \<Rightarrow> string" where
  "status_name PENDING = ''PENDING''"
| "status_name AWAITING_APPROVAL = ''AWAITING_APPROVAL''"
| "status_name RUNNING = ''RUNNING''"
| "status_name SUCCEEDED = ''SUCCEEDED''"
| "status_name FAILED = ''FAILED''"
| "status_name TIMED_OUT = ''TIMED_OUT''"
| "status_name SKIPPED = ''SKIPPED''"
| "status_name CANCELLED = ''CANCELLED''"

definition reason_json :: "status_reason option \<Rightarrow> json" where
  "reason_json r = (case r of None \<Rightarrow> JNull | Some x \<Rightarrow> JStr (reason_name x))"

definition str_json :: "string option \<Rightarrow> json" where
  "str_json s = (case s of None \<Rightarrow> JNull | Some x \<Rightarrow> JStr x)"

definition requestRun ::
  "(string \<Rightarrow> string) \<Rightarrow> dbgen \<Rightarrow> actor \<Rightarrow> ident \<Rightarrow> ident option \<Rightarrow> ms
   \<Rightarrow> db \<Rightarrow> db \<times> (created_execution, execution_write_error) result" where
  "requestRun scriptSha256 g a actionId hostId now d =
     (if \<not> can (Some (a_role a)) remediation_run then (d, fail EW_forbidden)
      else case createExecution scriptSha256 g
             \<lparr>ci_orgId = a_orgId a, ci_actionId = actionId, ci_hostId = hostId, ci_trigger = MANUAL, ci_incidentId = None,
              ci_requestedBy = Some (a_userId a), ci_needsApproval = False\<rparr> now d of
        (d1, None) \<Rightarrow> (d1, fail EW_not_found)
      | (d1, Some c) \<Rightarrow>
          (recordAudit g 1 (actor_entry ''remediation.run_requested'' a ''remediation_execution'' (ce_id c)
             (Some (JObj [(''actionId'', JStr actionId), (''hostId'', str_json hostId),
                (''status'', JStr (status_name (ce_status c))), (''reason'', reason_json (ce_statusReason c))]))) d1, ok c))"

section \<open>Approval and cancellation\<close>

text \<open>Reading half: the refusal, or the frozen hash and the verdict of the guard-rails.\<close>

definition approve_check ::
  "actor \<Rightarrow> ident \<Rightarrow> ms \<Rightarrow> db \<Rightarrow> (string \<times> status_reason option, execution_write_error) result" where
  "approve_check a eid now d =
     (if \<not> can (Some (a_role a)) remediation_run then fail EW_forbidden
      else case find_first (\<lambda>e. re_id e = eid \<and> re_orgId e = a_orgId a) (remediationExecutions d) of
        None \<Rightarrow> fail EW_not_found
      | Some e \<Rightarrow>
        if re_status e \<noteq> AWAITING_APPROVAL then fail EW_invalid_status
        else case find_first (\<lambda>r. ra_id r = re_actionId e) (remediationActions d) of
          None \<Rightarrow> fail EW_not_found
        | Some action \<Rightarrow>
            ok (re_scriptSha256 e,
                case Option.bind (re_hostId e) (\<lambda>h. find_first (\<lambda>r. h_id r = h) (monitoredHosts d)) of
                  None \<Rightarrow> Some no_target_host
                | Some hst \<Rightarrow> guardrailViolation (action\<lparr>ra_cooldownSec := 0, ra_maxRunsPerHour := 1000\<rparr>) hst (re_scriptSha256 e) [] now))"

definition approve_commit ::
  "dbgen \<Rightarrow> actor \<Rightarrow> ident \<Rightarrow> ms \<Rightarrow> string \<times> status_reason option \<Rightarrow> db \<Rightarrow> db \<times> (created_execution, execution_write_error) result" where
  "approve_commit g a eid now verdict d =
     (let violation = snd verdict;
          status = (if violation \<noteq> None then SKIPPED else PENDING);
          hit = (\<lambda>e. re_id e = eid \<and> re_status e = AWAITING_APPROVAL);
          d1 = d\<lparr>remediationExecutions := update_many hit
                 (\<lambda>e. e\<lparr>re_status := status, re_statusReason := map_option reason_name violation,
                    re_approvedBy := Some (a_userId a),
                    re_finishedAt := (if violation \<noteq> None then Some now else re_finishedAt e)\<rparr>) (remediationExecutions d)\<rparr>
      in if count_rows hit (remediationExecutions d) \<noteq> 1 then (d1, fail EW_invalid_status)
         else (recordAudit g 0 (actor_entry ''remediation.approved'' a ''remediation_execution'' eid
                (Some (JObj [(''scriptSha256'', JStr (fst verdict)), (''status'', JStr (status_name status)),
                   (''reason'', reason_json violation)]))) d1,
               ok \<lparr>ce_id = eid, ce_status = status, ce_statusReason = violation\<rparr>))"

definition approveExecution ::
  "dbgen \<Rightarrow> actor \<Rightarrow> ident \<Rightarrow> ms \<Rightarrow> db \<Rightarrow> db \<times> (created_execution, execution_write_error) result" where
  "approveExecution g a eid now d =
     (case approve_check a eid now d of fail e \<Rightarrow> (d, fail e) | ok v \<Rightarrow> approve_commit g a eid now v d)"

definition cancelExecution ::
  "dbgen \<Rightarrow> actor \<Rightarrow> ident \<Rightarrow> ms \<Rightarrow> db \<Rightarrow> db \<times> (unit, execution_write_error) result" where
  "cancelExecution g a eid now d =
     (if \<not> can (Some (a_role a)) remediation_run then (d, fail EW_forbidden)
      else
        let hit = (\<lambda>e. re_id e = eid \<and> re_orgId e = a_orgId a \<and> re_status e \<in> {AWAITING_APPROVAL, PENDING});
            d1 = d\<lparr>remediationExecutions := update_many hit
                   (\<lambda>e. e\<lparr>re_status := CANCELLED, re_statusReason := Some (reason_name cancelled), re_finishedAt := Some now\<rparr>)
                   (remediationExecutions d)\<rparr>
        in if count_rows hit (remediationExecutions d) \<noteq> 1
           then (d1, fail (if count_rows (\<lambda>e. re_id e = eid \<and> re_orgId e = a_orgId a) (remediationExecutions d1) = 1
                           then EW_invalid_status else EW_not_found))
           else (recordAudit g 0 (actor_entry ''remediation.cancelled'' a ''remediation_execution'' eid None) d1, ok ()))"

section \<open>The alert trigger\<close>

definition triggerForIncident ::
  "(string \<Rightarrow> string) \<Rightarrow> dbgen \<Rightarrow> alert_rule_row \<Rightarrow> incident_row \<Rightarrow> ms \<Rightarrow> db \<Rightarrow> db \<times> created_execution option" where
  "triggerForIncident scriptSha256 g rule incident now d =
     (case ar_remediationActionId rule of
        None \<Rightarrow> (d, None)
      | Some actionId \<Rightarrow>
        if actionId = [] then (d, None)
        else case find_first (\<lambda>r. ra_id r = actionId \<and> ra_orgId r = ar_orgId rule) (remediationActions d) of
          None \<Rightarrow> (d, None)
        | Some action \<Rightarrow>
            let incidentHost = (if in_sourceKind incident = Some HOST then in_sourceId incident else None);
                (d1, created) = createExecution scriptSha256 g
                  \<lparr>ci_orgId = ar_orgId rule, ci_actionId = actionId, ci_hostId = incidentHost, ci_trigger = ALERT,
                   ci_incidentId = Some (in_id incident), ci_requestedBy = None,
                   ci_needsApproval = (\<not> ar_autoRemediate rule \<or> ra_requiresApproval action)\<rparr> now d
            in case created of
                 None \<Rightarrow> (d1, None)
               | Some c \<Rightarrow>
                   (d1\<lparr>incidentEvents := insert_row
                      \<lparr>ie_id = cuid g 1, ie_incidentId = in_id incident, ie_type = EV_REMEDIATION_STARTED, ie_message = None,
                       ie_actorId = None, ie_data = Some (JObj [(''executionId'', JStr (ce_id c)),
                         (''status'', JStr (status_name (ce_status c))), (''reason'', reason_json (ce_statusReason c))]),
                       ie_createdAt = clock g\<rparr> (incidentEvents d1)\<rparr>, Some c))"

section \<open>The agent's side\<close>

record delivered_execution =
  de_id :: ident
  de_runtime :: script_runtime
  de_script :: string
  de_sha256 :: string
  de_args :: "(string \<times> string) list"
  de_timeoutSec :: int
  de_incidentId :: "ident option"

definition claim_cas :: "ident \<Rightarrow> ms \<Rightarrow> db \<Rightarrow> db \<times> bool" where
  "claim_cas eid now d =
     (let hit = (\<lambda>e. re_id e = eid \<and> re_status e = PENDING)
      in (d\<lparr>remediationExecutions := update_many hit (\<lambda>e. e\<lparr>re_status := RUNNING, re_startedAt := Some now\<rparr>)
             (remediationExecutions d)\<rparr>,
          count_rows hit (remediationExecutions d) = 1))"

text \<open>
  The loop of at most three attempts. \<open>others k\<close> is what other requests do between the read and
  the write of the attempt with \<open>k\<close> attempts left.
\<close>

primrec claim_attempts :: "nat \<Rightarrow> (nat \<Rightarrow> db \<Rightarrow> db) \<Rightarrow> ident \<Rightarrow> ident \<Rightarrow> ms \<Rightarrow> db \<Rightarrow> db \<times> delivered_execution option" where
  "claim_attempts 0 others orgId hostId now d = (d, None)"
| "claim_attempts (Suc n) others orgId hostId now d =
     (case find_first (\<lambda>e. True) (order_asc re_createdAt
             (find_many (\<lambda>e. re_orgId e = orgId \<and> re_hostId e = Some hostId \<and> re_status e = PENDING) (remediationExecutions d))) of
        None \<Rightarrow> (d, None)
      | Some nx \<Rightarrow>
          (case claim_cas (re_id nx) now (others n d) of
             (d1, False) \<Rightarrow> claim_attempts n others orgId hostId now d1
           | (d1, True) \<Rightarrow>
               (d1, Some \<lparr>de_id = re_id nx, de_runtime = re_runtime nx, de_script = re_scriptBody nx,
                  de_sha256 = re_scriptSha256 nx, de_args = filter (\<lambda>(k, v). ARG_NAME k) (re_args nx),
                  de_timeoutSec = re_timeoutSec nx, de_incidentId = re_incidentId nx\<rparr>)))"

definition claimNextExecution ::
  "(nat \<Rightarrow> db \<Rightarrow> db) \<Rightarrow> ident \<Rightarrow> ident \<Rightarrow> ms \<Rightarrow> db \<Rightarrow> db \<times> delivered_execution option" where
  "claimNextExecution others orgId hostId now d = claim_attempts 3 others orgId hostId now d"

text \<open>The longest prefix whose UTF-8 form fits.\<close>

fun take_bytes :: "nat \<Rightarrow> string \<Rightarrow> string" where
  "take_bytes n [] = []"
| "take_bytes n (c # cs) =
     (let w = (if code_unit c < 128 then 1 else 2) in if w \<le> n then c # take_bytes (n - w) cs else [])"

definition truncateOutput :: "string option \<Rightarrow> string option" where
  "truncateOutput text = (case text of None \<Rightarrow> None
     | Some s \<Rightarrow> if s = [] then None
                else if utf8_length s \<le> MAX_OUTPUT_BYTES then Some s else Some (take_bytes MAX_OUTPUT_BYTES s))"

datatype result_status = R_succeeded | R_failed | R_timed_out | R_skipped

primrec RESULT_STATUS :: "result_status \<Rightarrow> execution_status" where
  "RESULT_STATUS R_succeeded = SUCCEEDED"
| "RESULT_STATUS R_failed = FAILED"
| "RESULT_STATUS R_timed_out = TIMED_OUT"
| "RESULT_STATUS R_skipped = SKIPPED"

record execution_result_input =
  xr_executionId :: ident
  xr_status :: result_status
  xr_reason :: "status_reason option"
  xr_exitCode :: "int option"
  xr_durationMs :: "int option"
  xr_stdout :: "string option"
  xr_stderr :: "string option"

definition recordExecutionResult ::
  "dbgen \<Rightarrow> ident \<Rightarrow> ident \<Rightarrow> execution_result_input \<Rightarrow> ms \<Rightarrow> db \<Rightarrow> db \<times> bool" where
  "recordExecutionResult g orgId hostId inp now d =
     (let status = RESULT_STATUS (xr_status inp);
          hit = (\<lambda>e. re_id e = xr_executionId inp \<and> re_orgId e = orgId \<and> re_hostId e = Some hostId \<and> re_status e = RUNNING);
          d1 = d\<lparr>remediationExecutions := update_many hit
                 (\<lambda>e. e\<lparr>re_status := status, re_statusReason := map_option reason_name (xr_reason inp),
                    re_exitCode := xr_exitCode inp, re_durationMs := xr_durationMs inp,
                    re_stdout := truncateOutput (xr_stdout inp), re_stderr := truncateOutput (xr_stderr inp),
                    re_finishedAt := Some now\<rparr>) (remediationExecutions d)\<rparr>
      in if count_rows hit (remediationExecutions d) \<noteq> 1 then (d1, False)
         else case Option.bind (find_first (\<lambda>e. re_id e = xr_executionId inp) (remediationExecutions d1)) re_incidentId of
           None \<Rightarrow> (d1, True)
         | Some i \<Rightarrow>
             if i = [] then (d1, True)
             else (d1\<lparr>incidentEvents := insert_row
                \<lparr>ie_id = cuid g 0, ie_incidentId = i, ie_type = EV_REMEDIATION_FINISHED, ie_message = None, ie_actorId = None,
                 ie_data = Some (JObj [(''executionId'', JStr (xr_executionId inp)), (''status'', JStr (status_name status)),
                   (''exitCode'', case xr_exitCode inp of None \<Rightarrow> JNull | Some c \<Rightarrow> JNum (of_int c)),
                   (''reason'', reason_json (xr_reason inp))]),
                 ie_createdAt = clock g\<rparr> (incidentEvents d1)\<rparr>, True))"

section \<open>Housekeeping\<close>

text \<open>The three updates run one after the other. SQL comparison with a null start time is not true.\<close>

definition sweepExecutions :: "ms \<Rightarrow> db \<Rightarrow> db \<times> nat" where
  "sweepExecutions now d =
     (let stale = (\<lambda>st ttl e. re_status e = st \<and> re_createdAt e < now - ttl);
          expire = (\<lambda>e. e\<lparr>re_status := CANCELLED, re_statusReason := Some (reason_name expired), re_finishedAt := Some now\<rparr>);
          t1 = update_many (stale PENDING PENDING_TTL_MS) expire (remediationExecutions d);
          t2 = update_many (stale AWAITING_APPROVAL APPROVAL_TTL_MS) expire t1;
          lost = (\<lambda>e. re_status e = RUNNING \<and> (case re_startedAt e of None \<Rightarrow> False
                   | Some s \<Rightarrow> s + (re_timeoutSec e + RESULT_GRACE_MS div 1000) * 1000 < now));
          t3 = update_many lost (\<lambda>e. e\<lparr>re_status := TIMED_OUT, re_statusReason := Some (reason_name agent_lost),
                 re_finishedAt := Some now\<rparr>) t2
      in (d\<lparr>remediationExecutions := t3\<rparr>,
          count_rows (stale PENDING PENDING_TTL_MS) (remediationExecutions d)
          + count_rows (stale AWAITING_APPROVAL APPROVAL_TTL_MS) t1 + count_rows lost t2))"

section \<open>The lifecycle as a state machine\<close>

inductive lifecycle :: "execution_status \<Rightarrow> execution_status \<Rightarrow> bool" where
  approve: "lifecycle AWAITING_APPROVAL PENDING"
| refuse: "lifecycle AWAITING_APPROVAL SKIPPED"
| drop_request: "lifecycle AWAITING_APPROVAL CANCELLED"
| drop_queued: "lifecycle PENDING CANCELLED"
| collect: "lifecycle PENDING RUNNING"
| finish: "st \<in> {SUCCEEDED, FAILED, TIMED_OUT, SKIPPED} \<Longrightarrow> lifecycle RUNNING st"

inductive_cases lifecycle_fromE: "lifecycle s t"

code_pred lifecycle .

text \<open>
  The commands the component receives. An approval carries the verdict its reading half reached
  earlier; a collection is its compare-and-set. Inserting a row under an existing primary key
  raises and changes nothing. Edits of the action are commands too.
\<close>

datatype remediation_cmd =
    Run dbgen actor ident "ident option" ms
  | Approve dbgen actor ident ms "string \<times> status_reason option"
  | Cancel dbgen actor ident ms
  | Trigger dbgen alert_rule_row incident_row ms
  | Deliver ident ms
  | Report dbgen ident ident execution_result_input ms
  | Sweep ms
  | EditAction dbgen actor ident action_input
  | ToggleAction dbgen actor ident bool

definition execution_id_taken :: "dbgen \<Rightarrow> db \<Rightarrow> bool" where
  "execution_id_taken g d = list_ex (\<lambda>e. re_id e = cuid g 0) (remediationExecutions d)"

primrec remediation_exec :: "(string \<Rightarrow> string) \<Rightarrow> remediation_cmd \<Rightarrow> db \<Rightarrow> db" where
  "remediation_exec sha (Run g a aid hid now) d = (if execution_id_taken g d then d else fst (requestRun sha g a aid hid now d))"
| "remediation_exec sha (Approve g a eid now v) d =
     (if \<not> can (Some (a_role a)) remediation_run then d else fst (approve_commit g a eid now v d))"
| "remediation_exec sha (Cancel g a eid now) d = fst (cancelExecution g a eid now d)"
| "remediation_exec sha (Trigger g r i now) d = (if execution_id_taken g d then d else fst (triggerForIncident sha g r i now d))"
| "remediation_exec sha (Deliver eid now) d = fst (claim_cas eid now d)"
| "remediation_exec sha (Report g og h inp now) d = fst (recordExecutionResult g og h inp now d)"
| "remediation_exec sha (Sweep now) d = fst (sweepExecutions now d)"
| "remediation_exec sha (EditAction g a aid inp) d = fst (updateRemediationAction sha g a aid inp d)"
| "remediation_exec sha (ToggleAction g a aid en) d = fst (setRemediationActionEnabled g a aid en d)"

text \<open>What an execution was created with, and is approved and run with.\<close>

definition snapshot where
  "snapshot e = (re_orgId e, re_actionId e, re_hostId e, re_incidentId e, re_runtime e, re_scriptBody e,
     re_scriptSha256 e, re_args e, re_timeoutSec e, re_createdAt e)"

text \<open>The executions of \<open>t\<close> are all still in \<open>t'\<close>, each with its snapshot and further along; ids stay unique.\<close>

definition evolves :: "remediation_execution_row list \<Rightarrow> remediation_execution_row list \<Rightarrow> bool" where
  "evolves t t' = (set (map re_id t) \<subseteq> set (map re_id t')
     \<and> (distinct (map re_id t) \<longrightarrow> distinct (map re_id t'))
     \<and> (\<forall>e' \<in> set t'. re_id e' \<in> set (map re_id t) \<longrightarrow>
          (\<exists>e \<in> set t. re_id e = re_id e' \<and> snapshot e = snapshot e' \<and> lifecycle\<^sup>*\<^sup>* (re_status e) (re_status e'))))"

section \<open>Lemmas\<close>

interpretation collecting: compare_and_set re_id "\<lambda>e. re_status e = PENDING"
  "\<lambda>now e. e\<lparr>re_status := RUNNING, re_startedAt := Some now\<rparr>"
  by unfold_locales simp_all

interpretation collecting_keys: keyed_update re_id "\<lambda>now e. e\<lparr>re_status := RUNNING, re_startedAt := Some now\<rparr>"
  by unfold_locales simp

lemma evolves_refl [simp]: "evolves t t"
  by (auto simp: evolves_def)

lemma evolves_trans:
  assumes "evolves t1 t2" and "evolves t2 t3"
  shows "evolves t1 t3"
proof -
  have ids: "set (map re_id t1) \<subseteq> set (map re_id t2)" "set (map re_id t2) \<subseteq> set (map re_id t3)"
    using assms unfolding evolves_def by blast+
  have "\<exists>e \<in> set t1. re_id e = re_id e3 \<and> snapshot e = snapshot e3 \<and> lifecycle\<^sup>*\<^sup>* (re_status e) (re_status e3)"
    if e3: "e3 \<in> set t3" "re_id e3 \<in> set (map re_id t1)" for e3
  proof -
    from e3 ids(1) have "re_id e3 \<in> set (map re_id t2)" by blast
    then obtain e2 where e2: "e2 \<in> set t2" "re_id e2 = re_id e3" "snapshot e2 = snapshot e3"
      "lifecycle\<^sup>*\<^sup>* (re_status e2) (re_status e3)"
      using assms(2) e3(1) unfolding evolves_def by blast
    then obtain e1 where "e1 \<in> set t1" "re_id e1 = re_id e2" "snapshot e1 = snapshot e2"
      "lifecycle\<^sup>*\<^sup>* (re_status e1) (re_status e2)"
      using assms(1) e3(2) unfolding evolves_def by metis
    with e2 show ?thesis by (auto intro: rtranclp_trans)
  qed
  moreover have "distinct (map re_id t1) \<longrightarrow> distinct (map re_id t3)" using assms unfolding evolves_def by blast
  ultimately show ?thesis using ids unfolding evolves_def by blast
qed

lemma evolves_update:
  assumes "\<And>e. P e \<Longrightarrow> re_id (f e) = re_id e \<and> snapshot (f e) = snapshot e \<and> lifecycle (re_status e) (re_status (f e))"
  shows "evolves t (update_many P f t)"
proof -
  have "map re_id (update_many P f t) = map re_id t" using assms by (auto simp: update_many_def)
  moreover have "\<exists>e \<in> set t. re_id e = re_id e' \<and> snapshot e = snapshot e' \<and> lifecycle\<^sup>*\<^sup>* (re_status e) (re_status e')"
    if "e' \<in> set (update_many P f t)" for e'
    using that by (elim update_manyE) (use assms in \<open>auto intro!: bexI\<close>)
  ultimately show ?thesis by (simp add: evolves_def)
qed

lemma evolves_insert: "re_id n = k \<Longrightarrow> \<not> list_ex (\<lambda>e. re_id e = k) t \<Longrightarrow> evolves t (insert_row n t)"
  by (auto simp: evolves_def insert_row_def list_ex_iff)

lemma createExecution_table:
  "remediationExecutions (fst (createExecution sha g inp now d)) = remediationExecutions d
   \<or> (\<exists>n. re_id n = cuid g 0 \<and> re_orgId n = ci_orgId inp
        \<and> remediationExecutions (fst (createExecution sha g inp now d)) = insert_row n (remediationExecutions d))"
proof -
  have "re_id (new_execution sha g inp ac h st r f) = cuid g 0 \<and> re_orgId (new_execution sha g inp ac h st r f) = ci_orgId inp"
    for ac h st r f by (simp add: new_execution_def)
  then show ?thesis by (simp add: createExecution_def Let_def split: option.split) blast
qed

lemma create_evolves:
  assumes "\<not> execution_id_taken g d"
  shows "evolves (remediationExecutions d) (remediationExecutions (fst (createExecution sha g inp now d)))"
  using createExecution_table[of sha g inp now d] assms by (auto simp: execution_id_taken_def intro: evolves_insert)

lemma sweep_evolves: "evolves (remediationExecutions d) (remediationExecutions (fst (sweepExecutions now d)))"
proof -
  have stale: "evolves t (update_many (\<lambda>e. re_status e = st \<and> re_createdAt e < now - ttl)
      (\<lambda>e. e\<lparr>re_status := CANCELLED, re_statusReason := r, re_finishedAt := f\<rparr>) t)"
    if "st \<in> {PENDING, AWAITING_APPROVAL}" for t st ttl r f
    using that by (intro evolves_update) (auto simp: snapshot_def intro: lifecycle.intros)
  have lost: "evolves t (update_many (\<lambda>e. re_status e = RUNNING \<and> Q e)
      (\<lambda>e. e\<lparr>re_status := TIMED_OUT, re_statusReason := r, re_finishedAt := f\<rparr>) t)" for t Q r f
    by (intro evolves_update) (auto simp: snapshot_def intro: lifecycle.intros)
  show ?thesis unfolding sweepExecutions_def Let_def fst_conv
    by (simp, rule evolves_trans[OF evolves_trans[OF stale stale] lost]) simp_all
qed

lemma exec_evolves: "evolves (remediationExecutions d) (remediationExecutions (remediation_exec sha c d))"
proof (cases c)
  case (Run g a aid hid now)
  then show ?thesis by (simp add: requestRun_def create_evolves split_beta split: option.split)
next
  case (Trigger g r i now)
  then show ?thesis by (simp add: triggerForIncident_def Let_def create_evolves split_beta split: option.split)
next
  case (Report g og h inp now)
  have "lifecycle RUNNING (RESULT_STATUS st)" for st by (cases st) (simp_all add: lifecycle.finish)
  then have "evolves t (update_many (\<lambda>e. re_id e = i \<and> re_orgId e = og \<and> re_hostId e = Some h \<and> re_status e = RUNNING)
      (\<lambda>e. e\<lparr>re_status := RESULT_STATUS st, re_statusReason := r, re_exitCode := x, re_durationMs := du,
         re_stdout := so, re_stderr := se, re_finishedAt := f\<rparr>) t)" for t i st r x du so se f
    by (intro evolves_update) (simp add: snapshot_def)
  with Report show ?thesis by (simp add: recordExecutionResult_def Let_def split: option.split)
qed (simp_all add: approve_commit_def cancelExecution_def claim_cas_def Let_def sweep_evolves,
     auto simp: snapshot_def intro!: evolves_update lifecycle.intros)

section \<open>One live execution per action and host\<close>

definition live_of :: "ident \<Rightarrow> ident \<Rightarrow> remediation_execution_row \<Rightarrow> bool" where
  "live_of aid hid e = (re_actionId e = aid \<and> re_hostId e = Some hid \<and> re_status e \<in> set LIVE_STATUSES)"

definition one_live :: "db \<Rightarrow> bool" where
  "one_live d = list_all (\<lambda>e. case re_hostId e of None \<Rightarrow> True
     | Some h \<Rightarrow> count_rows (live_of (re_actionId e) h) (remediationExecutions d) \<le> 1) (remediationExecutions d)"

lemma one_live_iff: "one_live d \<longleftrightarrow> (\<forall>aid hid. count_rows (live_of aid hid) (remediationExecutions d) \<le> 1)"
proof
  assume ol: "one_live d"
  show "\<forall>aid hid. count_rows (live_of aid hid) (remediationExecutions d) \<le> 1"
  proof (intro allI)
    fix aid hid
    show "count_rows (live_of aid hid) (remediationExecutions d) \<le> 1"
    proof (cases "count_rows (live_of aid hid) (remediationExecutions d) = 0")
      case False
      then obtain e where "e \<in> set (remediationExecutions d)" "live_of aid hid e" by (auto simp: count_rows_zero)
      with ol show ?thesis by (auto simp: one_live_def list_all_iff live_of_def)
    qed simp
  qed
qed (simp add: one_live_def list_all_iff split: option.split)

lemma lifecycle_live: "lifecycle s t \<Longrightarrow> t \<in> set LIVE_STATUSES \<Longrightarrow> s \<in> set LIVE_STATUSES"
  by (auto simp: LIVE_STATUSES_def elim: lifecycle_fromE)

lemma lifecycle_star_live: "lifecycle\<^sup>*\<^sup>* s t \<Longrightarrow> t \<in> set LIVE_STATUSES \<Longrightarrow> s \<in> set LIVE_STATUSES"
  by (induction rule: converse_rtranclp_induct) (auto dest: lifecycle_live)

text \<open>Rows that do not come to life do not raise the count.\<close>

lemma count_live_update:
  assumes "\<And>e. P e \<Longrightarrow> re_actionId (f e) = re_actionId e \<and> re_hostId (f e) = re_hostId e
    \<and> (re_status (f e) \<in> set LIVE_STATUSES \<longrightarrow> re_status e \<in> set LIVE_STATUSES)"
  shows "count_rows (live_of a h) (update_many P f t) \<le> count_rows (live_of a h) t"
  using assms by (induction t) (auto simp: live_of_def le_SucI)

text \<open>A creation that adds a live row found none for the pair.\<close>

lemma create_live:
  assumes "count_rows (live_of aid hid) (remediationExecutions d) \<le> 1"
  shows "count_rows (live_of aid hid) (remediationExecutions (fst (createExecution sha g inp now d))) \<le> 1"
proof (cases "find_first (\<lambda>r. ra_id r = ci_actionId inp \<and> ra_orgId r = ci_orgId inp) (remediationActions d)")
  case None
  then show ?thesis using assms by (simp add: createExecution_def)
next
  case (Some action)
  let ?hid = "case ci_hostId inp of Some h \<Rightarrow> Some h | None \<Rightarrow> ra_targetHostId action"
  let ?host = "case ?hid of None \<Rightarrow> None
      | Some h \<Rightarrow> if h = [] then None else find_first (\<lambda>r. h_id r = h \<and> h_orgId r = ci_orgId inp) (monitoredHosts d)"
  show ?thesis
  proof (cases ?host)
    case None
    then show ?thesis using assms Some by (simp add: createExecution_def Let_def insert_row_def new_execution_def live_of_def)
  next
    case (Some hst)
    let ?v = "guardrailViolation action hst (sha (ra_scriptBody action)) (recent_executions action (h_id hst) now d) now"
    have tab: "remediationExecutions (fst (createExecution sha g inp now d)) = insert_row
        (new_execution sha g inp action (Some (h_id hst))
           (if ?v \<noteq> None then SKIPPED else if ci_needsApproval inp then AWAITING_APPROVAL else PENDING) ?v
           (if ?v \<noteq> None then Some now else None)) (remediationExecutions d)"
      using Some \<open>find_first _ _ = Some action\<close> by (simp add: createExecution_def Let_def)
    show ?thesis
    proof (cases ?v)
      case (Some r)
      with tab show ?thesis
        using assms by (simp add: insert_row_def new_execution_def live_of_def LIVE_STATUSES_def)
    next
      case None
      then have calm: "list_all (\<lambda>(st, c). st \<notin> set LIVE_STATUSES) (recent_executions action (h_id hst) now d)"
        by (auto simp: guardrail_None list_all_iff LIVE_STATUSES_def)
      have "count_rows (live_of (ra_id action) (h_id hst)) (remediationExecutions d) = 0"
        using calm by (auto simp: count_rows_zero live_of_def recent_executions_def list_all_iff find_many_def)
      then show ?thesis
        using assms tab by (auto simp: insert_row_def new_execution_def live_of_def)
    qed
  qed
qed

lemma exec_one_live:
  assumes "one_live d"
  shows "one_live (remediation_exec sha c d)"
proof -
  have "count_rows (live_of aid hid) (remediationExecutions (remediation_exec sha c d)) \<le> 1" for aid hid
  proof -
    have le: "count_rows (live_of aid hid) (remediationExecutions d) \<le> 1" using assms by (simp add: one_live_iff)
    have upd: "count_rows (live_of aid hid) (update_many P f t) \<le> 1"
      if "count_rows (live_of aid hid) t \<le> 1" and "\<And>e. P e \<Longrightarrow> snapshot (f e) = snapshot e \<and> lifecycle (re_status e) (re_status (f e))" for P f t
      using count_live_update[of P f aid hid t] that lifecycle_live unfolding snapshot_def by fastforce
    note steps = upd[OF le] upd[OF upd[OF upd[OF le]]]
    show ?thesis
    proof (cases c)
      case (Run g a aid' hid' now)
      then show ?thesis using le by (simp add: requestRun_def create_live split_beta del: One_nat_def split: option.split)
    next
      case (Trigger g r i now)
      then show ?thesis using le by (simp add: triggerForIncident_def Let_def create_live split_beta del: One_nat_def split: option.split)
    next
      case (Report g og h inp now)
      have "lifecycle RUNNING (RESULT_STATUS st)" for st by (cases st) (simp_all add: lifecycle.finish)
      then have "count_rows (live_of aid hid) (update_many (\<lambda>e. re_id e = i \<and> re_orgId e = og \<and> re_hostId e = Some h \<and> re_status e = RUNNING)
        (\<lambda>e. e\<lparr>re_status := RESULT_STATUS st, re_statusReason := r, re_exitCode := x, re_durationMs := du,
           re_stdout := so, re_stderr := se, re_finishedAt := f\<rparr>) (remediationExecutions d)) \<le> 1" for i st r x du so se f
        by (intro steps(1)) (simp add: snapshot_def)
      with Report show ?thesis
        by (simp add: recordExecutionResult_def Let_def del: One_nat_def split: option.split)
    next
      case (Sweep now)
      then show ?thesis by (simp add: sweepExecutions_def Let_def del: One_nat_def) (rule steps(2); auto simp: snapshot_def simp del: One_nat_def intro: lifecycle.intros)
    next
      case (Approve g a eid now v)
      then show ?thesis using le
        by (simp add: approve_commit_def Let_def del: One_nat_def) (auto intro!: steps(1) lifecycle.intros simp: snapshot_def simp del: One_nat_def)
    next
      case (Cancel g a eid now)
      then show ?thesis using le
        by (simp add: cancelExecution_def Let_def del: One_nat_def) (auto intro!: steps(1) lifecycle.intros simp: snapshot_def simp del: One_nat_def)
    next
      case (Deliver eid now)
      then show ?thesis using le
        by (simp add: claim_cas_def Let_def del: One_nat_def) (auto intro!: steps(1) lifecycle.intros simp: snapshot_def simp del: One_nat_def)
    qed (use le in simp_all)
  qed
  then show ?thesis by (simp add: one_live_iff)
qed

interpretation live_machine: kept_invariant one_live "remediation_exec sha" for sha
  by unfold_locales (rule exec_one_live)

section \<open>Collecting and approving\<close>

lemma run_evolves: "evolves (remediationExecutions d) (remediationExecutions (fold (remediation_exec sha) cs d))"
proof (induction cs arbitrary: d)
  case (Cons c cs)
  from evolves_trans[OF exec_evolves Cons.IH] show ?case by simp
qed simp

text \<open>Past collection: collected or ended.\<close>

definition past_pending :: "ident \<Rightarrow> db \<Rightarrow> bool" where
  "past_pending eid d = (list_ex (\<lambda>e. re_id e = eid) (remediationExecutions d)
     \<and> list_all (\<lambda>e. re_id e = eid \<longrightarrow> re_status e \<notin> {AWAITING_APPROVAL, PENDING}) (remediationExecutions d))"

lemma lifecycle_past: "lifecycle\<^sup>*\<^sup>* s t \<Longrightarrow> s \<notin> {AWAITING_APPROVAL, PENDING} \<Longrightarrow> t \<notin> {AWAITING_APPROVAL, PENDING}"
  by (induction rule: rtranclp_induct) (auto elim: lifecycle_fromE)

lemma evolves_past:
  assumes "evolves (remediationExecutions d) (remediationExecutions d')" and "past_pending eid d"
  shows "past_pending eid d'"
proof -
  have id: "eid \<in> set (map re_id (remediationExecutions d))" using assms(2) by (auto simp: past_pending_def list_ex_iff)
  then have "eid \<in> set (map re_id (remediationExecutions d'))" using assms(1) unfolding evolves_def by blast
  moreover have "re_status e' \<notin> {AWAITING_APPROVAL, PENDING}" if e': "e' \<in> set (remediationExecutions d')" "re_id e' = eid" for e'
  proof -
    obtain e where "e \<in> set (remediationExecutions d)" "re_id e = eid" "lifecycle\<^sup>*\<^sup>* (re_status e) (re_status e')"
      using assms(1) e' id unfolding evolves_def by metis
    then show ?thesis using assms(2) lifecycle_past by (auto simp: past_pending_def list_all_iff)
  qed
  ultimately show ?thesis by (auto simp: past_pending_def list_ex_iff list_all_iff)
qed

definition delivers :: "ident \<Rightarrow> remediation_cmd \<Rightarrow> db \<Rightarrow> bool" where
  "delivers eid c d = (case c of Deliver i now \<Rightarrow> i = eid \<and> snd (claim_cas i now d) | _ \<Rightarrow> False)"

fun deliveries :: "(string \<Rightarrow> string) \<Rightarrow> ident \<Rightarrow> remediation_cmd list \<Rightarrow> db \<Rightarrow> nat" where
  "deliveries sha eid [] d = 0"
| "deliveries sha eid (c # cs) d = (if delivers eid c d then 1 else 0) + deliveries sha eid cs (remediation_exec sha c d)"

lemma delivers_past:
  assumes "delivers eid c d" and "distinct (map re_id (remediationExecutions d))"
  shows "\<not> past_pending eid d \<and> past_pending eid (remediation_exec sha c d)"
proof -
  obtain now where c: "c = Deliver eid now" and win: "collecting.wins eid (remediationExecutions d)"
    using assms(1) by (auto simp: delivers_def claim_cas_def collecting.wins_def Let_def split: remediation_cmd.splits)
  have tab: "remediationExecutions (remediation_exec sha c d) = collecting.cas eid now (remediationExecutions d)"
    by (simp add: c claim_cas_def collecting.cas_def Let_def)
  from win obtain e where e: "e \<in> set (remediationExecutions d)" "re_id e = eid" "re_status e = PENDING"
    using count_rows_pos[of "\<lambda>r. re_id r = eid \<and> re_status r = PENDING" "remediationExecutions d"]
    by (auto simp: collecting.wins_def)
  have only: "x = e" if "x \<in> set (remediationExecutions d)" "re_id x = eid" for x
    using assms(2) that e by (metis distinct_map inj_onD)
  have "eid \<in> set (map re_id (collecting.cas eid now (remediationExecutions d)))"
    using e by (auto simp only: collecting.cas_keys set_map)
  moreover have "re_status x = RUNNING" if "x \<in> set (collecting.cas eid now (remediationExecutions d))" "re_id x = eid" for x
    using that only e(3) unfolding collecting.cas_def by (elim update_manyE) auto
  ultimately have "past_pending eid (remediation_exec sha c d)"
    unfolding past_pending_def tab by (auto simp: list_ex_iff list_all_iff)
  then show ?thesis using e by (auto simp: past_pending_def list_all_iff)
qed

lemma past_not_delivered: "past_pending eid d \<Longrightarrow> deliveries sha eid cs d = 0"
proof (induction cs arbitrary: d)
  case (Cons c cs)
  have "\<not> delivers eid c d"
    using Cons.prems count_rows_zero[of "\<lambda>r. re_id r = eid \<and> re_status r = PENDING" "remediationExecutions d"]
    by (auto simp: delivers_def claim_cas_def past_pending_def list_all_iff Let_def split: remediation_cmd.splits)
  with Cons.IH[OF evolves_past[OF exec_evolves Cons.prems]] show ?case by simp
qed simp

text \<open>Waiting, or dropped without having been approved.\<close>

definition all_unapproved :: "ident \<Rightarrow> remediation_execution_row list \<Rightarrow> bool" where
  "all_unapproved eid t =
     list_all (\<lambda>e. re_id e = eid \<longrightarrow> re_status e \<in> {AWAITING_APPROVAL, CANCELLED} \<and> re_startedAt e = None) t"

definition unapproved :: "ident \<Rightarrow> db \<Rightarrow> bool" where
  "unapproved eid d = (eid \<in> set (map re_id (remediationExecutions d)) \<and> all_unapproved eid (remediationExecutions d))"

definition approves :: "ident \<Rightarrow> remediation_cmd \<Rightarrow> bool" where
  "approves eid c = (case c of Approve g a i now v \<Rightarrow> i = eid \<and> can (Some (a_role a)) remediation_run | _ \<Rightarrow> False)"

lemma unapproved_update:
  assumes "all_unapproved eid t"
    and "\<And>e. P e \<Longrightarrow> re_id (f e) = re_id e"
    and "\<And>e. P e \<Longrightarrow> re_id e = eid \<Longrightarrow> re_status e \<in> {AWAITING_APPROVAL, CANCELLED} \<Longrightarrow> re_status (f e) = CANCELLED \<and> re_startedAt (f e) = re_startedAt e"
  shows "all_unapproved eid (update_many P f t)"
  using assms(1) unfolding all_unapproved_def by (rule update_many_all) (use assms(2,3) in auto)

lemma create_unapproved:
  assumes "unapproved eid d" and "\<not> execution_id_taken g d"
  shows "all_unapproved eid (remediationExecutions (fst (createExecution sha g inp now d)))"
  using createExecution_table[of sha g inp now d]
proof (elim disjE exE conjE)
  fix n
  assume "re_id n = cuid g 0" "remediationExecutions (fst (createExecution sha g inp now d)) = insert_row n (remediationExecutions d)"
  moreover have "cuid g 0 \<noteq> eid" using assms by (auto simp: unapproved_def execution_id_taken_def list_ex_iff)
  ultimately show ?thesis using assms(1) by (simp add: unapproved_def all_unapproved_def insert_row_def)
qed (use assms in \<open>simp add: unapproved_def\<close>)

lemma exec_unapproved:
  assumes un: "unapproved eid d" and no: "\<not> approves eid c"
  shows "unapproved eid (remediation_exec sha c d)"
proof -
  have "eid \<in> set (map re_id (remediationExecutions (remediation_exec sha c d)))"
    using exec_evolves[of d sha c] un unfolding evolves_def unapproved_def by blast
  moreover have "all_unapproved eid (remediationExecutions (remediation_exec sha c d))"
  proof -
    have tab: "all_unapproved eid (remediationExecutions d)" using un by (simp add: unapproved_def)
    note upd = unapproved_update[OF tab] and upd3 = unapproved_update[OF unapproved_update[OF unapproved_update[OF tab]]]
    show ?thesis
    proof (cases c)
      case (Run g a aid hid now)
      then show ?thesis using tab create_unapproved[OF un] by (simp add: requestRun_def split_beta split: option.split)
    next
      case (Trigger g r i now)
      then show ?thesis using tab create_unapproved[OF un]
        by (simp add: triggerForIncident_def Let_def split_beta split: option.split)
    next
      case (Approve g a i now v)
      with no have "i \<noteq> eid \<or> \<not> can (Some (a_role a)) remediation_run" by (simp add: approves_def)
      then show ?thesis using Approve tab
        by (auto simp: approve_commit_def Let_def intro!: upd)
    next
      case (Cancel g a i now)
      then show ?thesis using tab by (auto simp: cancelExecution_def Let_def intro!: upd)
    next
      case (Deliver i now)
      then show ?thesis by (auto simp: claim_cas_def Let_def intro!: upd)
    next
      case (Report g og h inp now)
      have "all_unapproved eid (update_many (\<lambda>e. re_id e = i \<and> re_orgId e = og \<and> re_hostId e = Some h \<and> re_status e = RUNNING)
        (\<lambda>e. e\<lparr>re_status := st, re_statusReason := r, re_exitCode := x, re_durationMs := du,
           re_stdout := so, re_stderr := se, re_finishedAt := f\<rparr>) (remediationExecutions d))" for i st r x du so se f
        by (rule upd) auto
      with Report show ?thesis by (simp add: recordExecutionResult_def Let_def split: option.split)
    next
      case (Sweep now)
      then show ?thesis by (auto simp: sweepExecutions_def Let_def intro!: upd3)
    qed (use tab in simp_all)
  qed
  ultimately show ?thesis by (simp add: unapproved_def)
qed

lemma run_unapproved: "unapproved eid d \<Longrightarrow> \<forall>c \<in> set cs. \<not> approves eid c \<Longrightarrow> unapproved eid (fold (remediation_exec sha) cs d)"
  by (induction cs arbitrary: d) (auto intro: exec_unapproved)

text \<open>Without interference the first attempt succeeds.\<close>

definition next_pending :: "ident \<Rightarrow> ident \<Rightarrow> db \<Rightarrow> remediation_execution_row option" where
  "next_pending orgId hostId d = find_first (\<lambda>e. True) (order_asc re_createdAt
     (find_many (\<lambda>e. re_orgId e = orgId \<and> re_hostId e = Some hostId \<and> re_status e = PENDING) (remediationExecutions d)))"

lemma next_pending_Some:
  assumes "next_pending orgId hostId d = Some e"
  shows "e \<in> set (remediationExecutions d) \<and> re_orgId e = orgId \<and> re_hostId e = Some hostId \<and> re_status e = PENDING"
  using assms by (auto simp: next_pending_def find_many_def dest: find_first_SomeD)

lemma first_sorted:
  assumes "find_first (\<lambda>e. True) (order_asc key t) = Some e" and "x \<in> set t"
  shows "key e \<le> key x"
proof -
  obtain rest where r: "order_asc key t = e # rest"
    using assms(1) by (cases "order_asc key t") simp_all
  have "sorted (map key (order_asc key t))" by (simp add: order_asc_def)
  moreover have "x \<in> set (order_asc key t)" using assms(2) by simp
  ultimately show ?thesis using r by auto
qed

lemma claim_sequential:
  assumes "distinct (map re_id (remediationExecutions d))"
  shows "claimNextExecution (\<lambda>k d. d) orgId hostId now d =
     (case next_pending orgId hostId d of
        None \<Rightarrow> (d, None)
      | Some e \<Rightarrow> (fst (claim_cas (re_id e) now d),
          Some \<lparr>de_id = re_id e, de_runtime = re_runtime e, de_script = re_scriptBody e,
            de_sha256 = re_scriptSha256 e, de_args = filter (\<lambda>(k, v). ARG_NAME k) (re_args e),
            de_timeoutSec = re_timeoutSec e, de_incidentId = re_incidentId e\<rparr>))"
proof (cases "next_pending orgId hostId d")
  case None
  then show ?thesis by (simp add: claimNextExecution_def next_pending_def numeral_3_eq_3)
next
  case (Some e)
  note e = next_pending_Some[OF Some]
  have "collecting.wins (re_id e) (remediationExecutions d)"
    using e assms by (intro collecting.wins_found) auto
  then obtain d1 where "claim_cas (re_id e) now d = (d1, True)"
    by (simp add: claim_cas_def collecting.wins_def Let_def)
  then show ?thesis using Some by (simp add: claimNextExecution_def numeral_3_eq_3 next_pending_def)
qed

section \<open>Properties\<close>

text \<open>C12. Through any sequence of requests, agent reports, sweeps and edits of the action, an execution
  keeps exactly what it was created with (script, hash, runtime, arguments, time limit, host), so
  what is approved is what runs; and its status only moves forward along the lifecycle.\<close>

theorem execution_frozen:
  "\<forall>e' \<in> set (remediationExecutions (fold (remediation_exec sha) cs d)).
     re_id e' \<in> set (map re_id (remediationExecutions d)) \<longrightarrow>
       (\<exists>e \<in> set (remediationExecutions d). re_id e = re_id e' \<and> lifecycle\<^sup>*\<^sup>* (re_status e) (re_status e')
          \<and> re_runtime e' = re_runtime e \<and> re_scriptBody e' = re_scriptBody e \<and> re_scriptSha256 e' = re_scriptSha256 e
          \<and> re_args e' = re_args e \<and> re_timeoutSec e' = re_timeoutSec e \<and> re_hostId e' = re_hostId e)"
proof (intro ballI impI)
  fix e'
  assume "e' \<in> set (remediationExecutions (fold (remediation_exec sha) cs d))" "re_id e' \<in> set (map re_id (remediationExecutions d))"
  then obtain e where "e \<in> set (remediationExecutions d)" "re_id e = re_id e'" "snapshot e = snapshot e'"
    "lifecycle\<^sup>*\<^sup>* (re_status e) (re_status e')"
    using run_evolves[of d sha cs] unfolding evolves_def by blast
  then show "\<exists>e \<in> set (remediationExecutions d). re_id e = re_id e' \<and> lifecycle\<^sup>*\<^sup>* (re_status e) (re_status e')
          \<and> re_runtime e' = re_runtime e \<and> re_scriptBody e' = re_scriptBody e \<and> re_scriptSha256 e' = re_scriptSha256 e
          \<and> re_args e' = re_args e \<and> re_timeoutSec e' = re_timeoutSec e \<and> re_hostId e' = re_hostId e"
    by (auto simp: snapshot_def)
qed

text \<open>An execution of the sample action that waits for approval.\<close>

definition sample_remediation_db :: db where
  "sample_remediation_db = sample_db\<lparr>monitoredHosts := [sample_host], remediationActions := [sample_action], incidents := [sample_incident]\<rparr>"

definition sample_waiting :: db where
  "sample_waiting = remediation_exec rev (Trigger sample_gen sample_rule sample_incident 0) sample_remediation_db"

definition sample_operator :: actor where
  "sample_operator = sample_actor ''bob'' ''acme'' ADMIN"

theorem execution_frozen_witness:
  "\<exists>e' \<in> set (remediationExecutions (fold (remediation_exec rev)
       [Approve sample_gen sample_operator ''c'' 5 (''x'', None), Deliver ''c'' 6] sample_waiting)).
     \<exists>e \<in> set (remediationExecutions sample_waiting). re_id e = re_id e' \<and> re_scriptBody e' = re_scriptBody e"
proof -
  let ?t = "remediationExecutions (fold (remediation_exec rev)
       [Approve sample_gen sample_operator ''c'' 5 (''x'', None), Deliver ''c'' 6] sample_waiting)"
  have "?t \<noteq> [] \<and> list_all (\<lambda>e'. re_id e' \<in> set (map re_id (remediationExecutions sample_waiting))) ?t" by code_simp
  then obtain e' where "e' \<in> set ?t" "re_id e' \<in> set (map re_id (remediationExecutions sample_waiting))"
    by (cases ?t) (auto simp: list_all_iff)
  with execution_frozen[of rev "[Approve sample_gen sample_operator ''c'' 5 (''x'', None), Deliver ''c'' 6]" sample_waiting]
  show ?thesis by blast
qed

text \<open>However many agents' polls race for it and whatever else happens in between, an execution is
  handed out to run at most once.\<close>

lemma execution_delivered_once:
  assumes "distinct (map re_id (remediationExecutions d))"
  shows "deliveries sha eid cs d \<le> 1"
  using assms
proof (induction cs arbitrary: d)
  case (Cons c cs)
  have dist: "distinct (map re_id (remediationExecutions (remediation_exec sha c d)))"
    using exec_evolves[of d sha c] Cons.prems unfolding evolves_def by blast
  show ?case
  proof (cases "delivers eid c d")
    case True
    with delivers_past[OF True Cons.prems, of sha] show ?thesis by (simp add: past_not_delivered)
  next
    case False
    with Cons.IH[OF dist] show ?thesis by simp
  qed
qed simp

lemma execution_delivered_once_witness:
  "deliveries rev ''c'' [Approve sample_gen sample_operator ''c'' 5 (''x'', None), Deliver ''c'' 6, Deliver ''c'' 6] sample_waiting \<le> 1"
proof -
  have "distinct (map re_id (remediationExecutions sample_waiting))" by code_simp
  then show ?thesis by (rule execution_delivered_once)
qed

text \<open>A poll by the agent of a host hands out the oldest queued execution of that host and marks it
  running, with the script, hash and time limit of the stored snapshot; it comes back empty-handed only
  if nothing is queued for the host.\<close>

lemma claim_delivers_oldest:
  assumes "distinct (map re_id (remediationExecutions d))"
  shows "case snd (claimNextExecution (\<lambda>k d. d) orgId hostId now d) of
      None \<Rightarrow> \<not> (\<exists>e \<in> set (remediationExecutions d). re_orgId e = orgId \<and> re_hostId e = Some hostId \<and> re_status e = PENDING)
    | Some x \<Rightarrow> \<exists>e \<in> set (remediationExecutions d). re_orgId e = orgId \<and> re_hostId e = Some hostId \<and> re_status e = PENDING
         \<and> de_id x = re_id e \<and> de_runtime x = re_runtime e \<and> de_script x = re_scriptBody e \<and> de_sha256 x = re_scriptSha256 e
         \<and> de_timeoutSec x = re_timeoutSec e
         \<and> (\<forall>e' \<in> set (remediationExecutions d). re_orgId e' = orgId \<and> re_hostId e' = Some hostId \<and> re_status e' = PENDING
               \<longrightarrow> re_createdAt e \<le> re_createdAt e')
         \<and> find_first (\<lambda>r. re_id r = re_id e) (remediationExecutions (fst (claimNextExecution (\<lambda>k d. d) orgId hostId now d)))
             = Some (e\<lparr>re_status := RUNNING, re_startedAt := Some now\<rparr>)"
proof (cases "next_pending orgId hostId d")
  case None
  have "find_many (\<lambda>e. re_orgId e = orgId \<and> re_hostId e = Some hostId \<and> re_status e = PENDING) (remediationExecutions d) = []"
    using None set_order_asc by (fastforce simp: next_pending_def find_first_None_iff)
  then show ?thesis using None by (auto simp: claim_sequential[OF assms] find_many_def filter_empty_conv)
next
  case (Some e)
  note e = next_pending_Some[OF Some]
  have old: "re_createdAt e \<le> re_createdAt e'"
    if "e' \<in> set (remediationExecutions d)" "re_orgId e' = orgId" "re_hostId e' = Some hostId" "re_status e' = PENDING" for e'
    by (rule first_sorted[OF Some[unfolded next_pending_def]]) (use that in \<open>simp add: find_many_def\<close>)
  have "find_first (\<lambda>r. re_id r = re_id e) (update_many (\<lambda>r. re_id r = re_id e \<and> re_status r = PENDING)
      (\<lambda>r. r\<lparr>re_status := RUNNING, re_startedAt := Some now\<rparr>) (remediationExecutions d))
      = Some (e\<lparr>re_status := RUNNING, re_startedAt := Some now\<rparr>)"
    using collecting_keys.find_update[OF assms, of e "\<lambda>r. re_id r = re_id e \<and> re_status r = PENDING" now] e by simp
  with e old Some show ?thesis
    by (auto simp: claim_sequential[OF assms] claim_cas_def Let_def intro!: bexI[of _ e])
qed

lemma claim_delivers_oldest_witness:
  "case snd (claimNextExecution (\<lambda>k d. d) ''acme'' ''h1'' 9 sample_waiting) of
      None \<Rightarrow> \<not> (\<exists>e \<in> set (remediationExecutions sample_waiting). re_orgId e = ''acme'' \<and> re_hostId e = Some ''h1'' \<and> re_status e = PENDING)
    | Some x \<Rightarrow> True"
proof -
  have "distinct (map re_id (remediationExecutions sample_waiting))" by code_simp
  from claim_delivers_oldest[OF this, of "''acme''" "''h1''" 9] show ?thesis by (auto split: option.splits)
qed

text \<open>C9. An execution that waits for approval is never run without one: unless somebody who may run
  remediations approves it, it stays waiting or is cancelled, and it is never started.\<close>

theorem unapproved_never_runs:
  assumes "unapproved eid d" and "\<forall>c \<in> set cs. \<not> approves eid c"
  shows "\<forall>e \<in> set (remediationExecutions (fold (remediation_exec sha) cs d)).
     re_id e = eid \<longrightarrow> re_status e \<in> {AWAITING_APPROVAL, CANCELLED} \<and> re_startedAt e = None"
  using run_unapproved[OF assms, of sha] by (auto simp: unapproved_def all_unapproved_def list_all_iff)

theorem unapproved_never_runs_witness:
  "\<not> (\<exists>e \<in> set (remediationExecutions (fold (remediation_exec rev) [Deliver ''c'' 6, Sweep 7,
       Approve sample_gen (sample_actor ''eve'' ''acme'' VIEWER) ''c'' 5 (''x'', None), Deliver ''c'' 9] sample_waiting)).
     re_id e = ''c'' \<and> re_startedAt e \<noteq> None)"
proof -
  have un: "unapproved ''c'' sample_waiting" by code_simp
  have no: "\<forall>c \<in> set [Deliver ''c'' 6, Sweep 7, Approve sample_gen (sample_actor ''eve'' ''acme'' VIEWER) ''c'' 5 (''x'', None), Deliver ''c'' 9].
      \<not> approves ''c'' c" by code_simp
  show ?thesis
  proof (rule notI, elim bexE conjE)
    fix e
    assume e: "e \<in> set (remediationExecutions (fold (remediation_exec rev) [Deliver ''c'' 6, Sweep 7,
       Approve sample_gen (sample_actor ''eve'' ''acme'' VIEWER) ''c'' 5 (''x'', None), Deliver ''c'' 9] sample_waiting))"
      "re_id e = ''c''" and started: "re_startedAt e \<noteq> None"
    from unapproved_never_runs[OF un no, of rev, THEN bspec, OF e(1), rule_format, OF e(2)] started show False by blast
  qed
qed

text \<open>C13. At any time there is at most one live execution of an action on a host: the guard-rails keep a
  second one from being queued, whatever the order of requests, alerts, approvals and reports.\<close>

theorem one_live_execution:
  assumes "one_live d"
  shows "count_rows (\<lambda>e. re_actionId e = aid \<and> re_hostId e = Some hid \<and> re_status e \<in> {AWAITING_APPROVAL, PENDING, RUNNING})
       (remediationExecutions (fold (remediation_exec sha) cs d)) \<le> 1"
proof -
  have "count_rows (live_of aid hid) (remediationExecutions (fold (remediation_exec sha) cs d)) \<le> 1"
    using live_machine.fold_inv[OF assms] by (simp only: one_live_iff)
  moreover have "live_of aid hid = (\<lambda>e. re_actionId e = aid \<and> re_hostId e = Some hid \<and> re_status e \<in> {AWAITING_APPROVAL, PENDING, RUNNING})"
    by (auto simp: live_of_def LIVE_STATUSES_def)
  ultimately show ?thesis by simp
qed

theorem one_live_execution_witness:
  "count_rows (\<lambda>e. re_actionId e = ''a1'' \<and> re_hostId e = Some ''h1'' \<and> re_status e \<in> {AWAITING_APPROVAL, PENDING, RUNNING})
     (remediationExecutions (fold (remediation_exec rev)
       [Run (sample_gen\<lparr>cuid := \<lambda>k. ''second''\<rparr>) sample_operator ''a1'' None 1, Sweep 7] sample_waiting)) \<le> 1"
proof -
  have "one_live sample_waiting" by code_simp
  then show ?thesis by (rule one_live_execution)
qed

text \<open>Whoever asks, an execution is queued or put up for approval only within the guard-rails: its
  action is enabled, its host belongs to the organization, is enabled, runs an allowed system and
  has an agent that accepts this very script; no execution of the action is live on the host, none
  was counted during the cooldown, and the hourly limit is not reached.\<close>

lemma queued_within_guardrails:
  assumes "createExecution sha g inp now d = (d', Some c)" and "ce_status c \<noteq> SKIPPED"
  shows "\<exists>ac \<in> set (remediationActions d). \<exists>ho \<in> set (monitoredHosts d).
     ra_id ac = ci_actionId inp \<and> ra_orgId ac = ci_orgId inp \<and> h_orgId ho = ci_orgId inp
     \<and> (if ci_needsApproval inp then ce_status c = AWAITING_APPROVAL else ce_status c = PENDING)
     \<and> ra_enabled ac \<and> h_enabled ho
     \<and> (h_remediationMode ho = Some ''any''
        \<or> h_remediationMode ho = Some ''allowlist'' \<and> sha (ra_scriptBody ac) \<in> set (h_remediationAllowlist ho))
     \<and> (ra_allowedOsFamilies ac = [] \<or> h_osFamily ho \<in> set (ra_allowedOsFamilies ac))
     \<and> (\<forall>e \<in> set (remediationExecutions d). re_actionId e = ra_id ac \<and> re_hostId e = Some (h_id ho) \<longrightarrow>
          re_status e \<notin> {AWAITING_APPROVAL, PENDING, RUNNING}
          \<and> (re_status e \<in> {SKIPPED, CANCELLED} \<or> re_createdAt e \<le> now - ra_cooldownSec ac * 1000))
     \<and> length (filter (\<lambda>e. re_actionId e = ra_id ac \<and> re_hostId e = Some (h_id ho)
            \<and> re_status e \<notin> {SKIPPED, CANCELLED} \<and> now - re_createdAt e < 3600000) (remediationExecutions d))
         < ra_maxRunsPerHour ac"
proof -
  have res: "snd (createExecution sha g inp now d) = Some c" using assms(1) by simp
  then obtain ac where ac: "find_first (\<lambda>r. ra_id r = ci_actionId inp \<and> ra_orgId r = ci_orgId inp) (remediationActions d) = Some ac"
    by (cases "find_first (\<lambda>r. ra_id r = ci_actionId inp \<and> ra_orgId r = ci_orgId inp) (remediationActions d)")
      (simp_all add: createExecution_def)
  let ?hid = "case ci_hostId inp of Some h \<Rightarrow> Some h | None \<Rightarrow> ra_targetHostId ac"
  let ?host = "case ?hid of None \<Rightarrow> None
      | Some h \<Rightarrow> if h = [] then None else find_first (\<lambda>r. h_id r = h \<and> h_orgId r = ci_orgId inp) (monitoredHosts d)"
  obtain ho where ho: "?host = Some ho"
    using res assms(2) ac by (cases ?host) (auto simp: createExecution_def Let_def)
  let ?recent = "recent_executions ac (h_id ho) now d"
  have none: "guardrailViolation ac ho (sha (ra_scriptBody ac)) ?recent now = None"
    and st: "if ci_needsApproval inp then ce_status c = AWAITING_APPROVAL else ce_status c = PENDING"
    using res assms(2) ac ho by (auto simp: createExecution_def Let_def split: if_splits)
  have hin: "ho \<in> set (monitoredHosts d)" "h_orgId ho = ci_orgId inp"
    using ho by (auto split: option.splits if_splits dest: find_first_SomeD)
  note guard = none[unfolded guardrail_None]
  let ?mine = "\<lambda>e. re_actionId e = ra_id ac \<and> re_hostId e = Some (h_id ho)"
  have calm: "re_status e \<notin> {AWAITING_APPROVAL, PENDING, RUNNING}
      \<and> (re_status e \<in> {SKIPPED, CANCELLED} \<or> re_createdAt e \<le> now - ra_cooldownSec ac * 1000)"
    if e: "e \<in> set (remediationExecutions d)" "?mine e" for e
  proof (cases "(re_status e, re_createdAt e) \<in> set ?recent")
    case True
    with guard show ?thesis by (fastforce simp: list_all_iff LIVE_STATUSES_def)
  next
    case False
    with e have "re_status e \<notin> set LIVE_STATUSES" "re_createdAt e < now - max 3600 (ra_cooldownSec ac) * 1000"
      by (auto simp: recent_executions_def find_many_def image_iff)
    then show ?thesis by (auto simp: LIVE_STATUSES_def)
  qed
  have "filter (\<lambda>e. ?mine e \<and> re_status e \<notin> {SKIPPED, CANCELLED} \<and> now - re_createdAt e < 3600000) (remediationExecutions d)
      = filter (\<lambda>e. re_status e \<notin> {SKIPPED, CANCELLED} \<and> now - re_createdAt e < 3600000)
          (find_many (\<lambda>e. re_actionId e = ra_id ac \<and> re_hostId e = Some (h_id ho) \<and>
            (now - max 3600 (ra_cooldownSec ac) * 1000 \<le> re_createdAt e \<or> re_status e \<in> set LIVE_STATUSES)) (remediationExecutions d))"
    by (auto simp: find_many_def intro!: filter_cong)
  then have "length (filter (\<lambda>e. ?mine e \<and> re_status e \<notin> {SKIPPED, CANCELLED} \<and> now - re_createdAt e < 3600000) (remediationExecutions d))
      = length (filter (\<lambda>(st, t). st \<notin> {SKIPPED, CANCELLED} \<and> now - t < 3600000) ?recent)"
    by (simp add: recent_executions_def filter_map o_def)
  with guard calm find_first_SomeD[OF ac] hin st show ?thesis
    by (intro bexI[of _ ac] bexI[of _ ho]) auto
qed

definition sample_creation where
  "sample_creation = createExecution rev sample_gen \<lparr>ci_orgId = ''acme'', ci_actionId = ''a1'', ci_hostId = None, ci_trigger = MANUAL,
     ci_incidentId = None, ci_requestedBy = None, ci_needsApproval = False\<rparr> 0 sample_remediation_db"

lemma queued_within_guardrails_witness:
  "\<exists>ac \<in> set (remediationActions sample_remediation_db). \<exists>ho \<in> set (monitoredHosts sample_remediation_db).
     ra_id ac = ''a1'' \<and> h_orgId ho = ''acme'' \<and> ra_enabled ac \<and> h_enabled ho"
proof -
  have "snd sample_creation = Some \<lparr>ce_id = ''c'', ce_status = PENDING, ce_statusReason = None\<rparr>" by code_simp
  then have "createExecution rev sample_gen \<lparr>ci_orgId = ''acme'', ci_actionId = ''a1'', ci_hostId = None, ci_trigger = MANUAL,
     ci_incidentId = None, ci_requestedBy = None, ci_needsApproval = False\<rparr> 0 sample_remediation_db
     = (fst sample_creation, Some \<lparr>ce_id = ''c'', ce_status = PENDING, ce_statusReason = None\<rparr>)"
    by (metis sample_creation_def prod.collapse)
  from queued_within_guardrails[OF this] show ?thesis by auto
qed

text \<open>
  The sweep measures the age of a queued execution from its creation, not from its approval: one
  approved after an hour is cancelled as expired before an agent had a chance to collect it.
\<close>

lemma late_approval_swept:
  "map re_status (remediationExecutions (fold (remediation_exec rev)
     [Approve sample_gen sample_operator ''c'' 3600001 (''x'', None), Sweep 3600002, Deliver ''c'' 3600003] sample_waiting)) = [CANCELLED]"
  by code_simp

end
