(* ===== verification/Tenancy.thy ===== *)
theory Tenancy
  imports Invitations Remediation
begin

text \<open>
  Two machines that span components. \<open>access_exec\<close> runs everything that writes memberships (role
  changes, removals, accepted invitations, new organizations) and keeps an owner in every
  organization. \<open>tenant_exec\<close> runs what members and agents of an organization may ask for (members,
  invitations, remediation actions and executions) and is confined to that organization. An
  insertion under a primary key that exists raises and changes nothing.
\<close>

section \<open>Owners\<close>

datatype access_cmd =
    Member_op member_cmd
  | Join_op dbgen string "string option" "ident option" "new_account option" ms
  | New_org "nat \<Rightarrow> string" dbgen string ident string "string option"

definition membership_taken :: "dbgen \<Rightarrow> db \<Rightarrow> bool" where
  "membership_taken g d = list_ex (\<lambda>m. m_id m = cuid g 1) (memberships d)"

primrec access_exec ::
  "(string \<Rightarrow> string) \<Rightarrow> (string \<Rightarrow> string) \<Rightarrow> (string \<Rightarrow> string) \<Rightarrow> access_cmd \<Rightarrow> db \<Rightarrow> db" where
  "access_exec h hp fa (Member_op c) d = member_exec c d"
| "access_exec h hp fa (Join_op g tok ip si na now) d =
     (if membership_taken g d then d else fst (acceptInvitation h hp g tok ip si na now d))"
| "access_exec h hp fa (New_org suffix g name uid email ip) d =
     (if membership_taken g d then d
      else case createOrganization fa suffix g name uid email ip d of None \<Rightarrow> d | Some (d', _) \<Rightarrow> d')"

lemma accept_memberships:
  "memberships (fst (acceptInvitation h hp g tok ip si na now d)) = memberships d
   \<or> (\<exists>m. m_id m = cuid g 1 \<and> memberships (fst (acceptInvitation h hp g tok ip si na now d)) = memberships d @ [m])"
proof (cases "accept_check h tok si na now d")
  case (Refused e)
  then show ?thesis by (simp add: acceptInvitation_def accept_commit_def)
next
  case (Join i ex)
  show ?thesis
  proof (cases "is_ok (snd (accept_commit hp g ip na now (Join i ex) d))")
    case False
    from commit_not_ok[OF this] Join show ?thesis by (simp add: acceptInvitation_def)
  next
    case True
    then obtain v where run: "accept_commit hp g ip na now (Join i ex) d = (fst (accept_commit hp g ip na now (Join i ex) d), ok v)"
      by (metis prod.collapse result_cases_ok)
    from commit_ok[OF run] obtain d2 b where
      acc: "accept_account hp g i ex na (d\<lparr>invitations := claim.cas (i_id i) now (invitations d)\<rparr>) = (d2, ok (ac_userId v, b))"
      and mem: "memberships (fst (accept_commit hp g ip na now (Join i ex) d))
        = memberships (fst (upsert_membership g 1 (ac_userId v) (i_orgId i) (i_role i) d2))" by blast
    have "memberships d2 = memberships d"
      using accept_account_invitations(2)[of hp g i ex na "d\<lparr>invitations := claim.cas (i_id i) now (invitations d)\<rparr>"] by (simp add: acc)
    with mem Join show ?thesis
      by (auto simp: acceptInvitation_def upsert_membership_def insert_row_def split: option.splits)
  qed
qed

lemma createOrganization_memberships:
  assumes "createOrganization fa suffix g name uid email ip d = Some (d', oid, slug)"
  shows "oid = cuid g 0 \<and> (\<exists>m. m_id m = cuid g 1 \<and> m_orgId m = oid \<and> m_role m = OWNER \<and> m_userId m = uid
     \<and> memberships d' = memberships d @ [m])"
  using assms by (auto simp: createOrganization_def Let_def insert_row_def split: if_splits)

text \<open>Adding a membership under a fresh id keeps the ids unique and takes no owner away.\<close>

lemma append_owned:
  assumes "org_owned org d" and "m_id m \<notin> m_id ` set (memberships d)" and "memberships d' = memberships d @ [m]"
  shows "org_owned org d'"
  using assms by (simp add: org_owned_def membership_ids_unique_def org_owners_def)

lemma access_exec_owned:
  assumes "org_owned org d"
  shows "org_owned org (access_exec h hp fa c d)"
proof (cases c)
  case (Member_op mc)
  with assms show ?thesis by (simp add: owner_machine.op_inv)
next
  case (Join_op g tok ip si na now)
  show ?thesis
  proof (cases "membership_taken g d")
    case False
    then have "cuid g 1 \<notin> m_id ` set (memberships d)" by (auto simp: membership_taken_def list_ex_iff)
    with accept_memberships[of h hp g tok ip si na now d] assms Join_op False show ?thesis
      by (auto simp: org_owned_def membership_ids_unique_def org_owners_def)
  qed (use assms Join_op in simp)
next
  case (New_org suffix g name uid email ip)
  show ?thesis
  proof (cases "membership_taken g d \<or> createOrganization fa suffix g name uid email ip d = None")
    case False
    then obtain d' oid slug where run: "createOrganization fa suffix g name uid email ip d = Some (d', oid, slug)" by auto
    from False have "cuid g 1 \<notin> m_id ` set (memberships d)" by (auto simp: membership_taken_def list_ex_iff)
    moreover obtain m where m: "m_id m = cuid g 1" "memberships d' = memberships d @ [m]"
      using createOrganization_memberships[OF run] by blast
    ultimately have "org_owned org d'" by (intro append_owned[OF assms]) simp_all
    with New_org False run show ?thesis by simp
  qed (use assms New_org in auto)
qed

interpretation access_machine: kept_invariant "org_owned org" "access_exec h hp fa" for org h hp fa
  by unfold_locales (rule access_exec_owned)

section \<open>Tenants\<close>

datatype tenant_cmd =
    T_member member_cmd
  | T_invite dbgen string actor string role ms
  | T_revoke dbgen actor ident ms
  | T_createAction dbgen actor action_input
  | T_updateAction dbgen actor ident action_input
  | T_enableAction dbgen actor ident bool
  | T_run dbgen actor ident "ident option" ms
  | T_approve dbgen actor ident ms
  | T_cancel dbgen actor ident ms
  | T_claim ident ident ms
  | T_report dbgen ident ident execution_result_input ms

primrec tenant_exec :: "(string \<Rightarrow> string) \<Rightarrow> tenant_cmd \<Rightarrow> db \<Rightarrow> db" where
  "tenant_exec h (T_member c) d = member_exec c d"
| "tenant_exec h (T_invite g tok a em r now) d =
     (if list_ex (\<lambda>i. i_id i = cuid g 0) (invitations d) then d else fst (createInvitation h g tok a em r now d))"
| "tenant_exec h (T_revoke g a iid now) d = fst (revokeInvitation g a iid now d)"
| "tenant_exec h (T_createAction g a inp) d =
     (if list_ex (\<lambda>r. ra_id r = cuid g 0) (remediationActions d) then d else fst (createRemediationAction h g a inp d))"
| "tenant_exec h (T_updateAction g a aid inp) d = fst (updateRemediationAction h g a aid inp d)"
| "tenant_exec h (T_enableAction g a aid en) d = fst (setRemediationActionEnabled g a aid en d)"
| "tenant_exec h (T_run g a aid hid now) d = (if execution_id_taken g d then d else fst (requestRun h g a aid hid now d))"
| "tenant_exec h (T_approve g a eid now) d = fst (approveExecution g a eid now d)"
| "tenant_exec h (T_cancel g a eid now) d = fst (cancelExecution g a eid now d)"
| "tenant_exec h (T_claim og hid now) d = fst (claimNextExecution (\<lambda>k d. d) og hid now d)"
| "tenant_exec h (T_report g og hid inp now) d = fst (recordExecutionResult g og hid inp now d)"

primrec tenant_of :: "tenant_cmd \<Rightarrow> ident" where
  "tenant_of (T_member c) = member_cmd_org c"
| "tenant_of (T_invite g tok a em r now) = a_orgId a"
| "tenant_of (T_revoke g a iid now) = a_orgId a"
| "tenant_of (T_createAction g a inp) = a_orgId a"
| "tenant_of (T_updateAction g a aid inp) = a_orgId a"
| "tenant_of (T_enableAction g a aid en) = a_orgId a"
| "tenant_of (T_run g a aid hid now) = a_orgId a"
| "tenant_of (T_approve g a eid now) = a_orgId a"
| "tenant_of (T_cancel g a eid now) = a_orgId a"
| "tenant_of (T_claim og hid now) = og"
| "tenant_of (T_report g og hid inp now) = og"

record tenant_view =
  tv_memberships :: "membership_row list"
  tv_invitations :: "invitation_row list"
  tv_actions :: "remediation_action_row list"
  tv_executions :: "remediation_execution_row list"

definition tenant_rows :: "ident \<Rightarrow> db \<Rightarrow> tenant_view" where
  "tenant_rows org d =
     \<lparr>tv_memberships = filter (\<lambda>m. m_orgId m = org) (memberships d),
      tv_invitations = filter (\<lambda>i. i_orgId i = org) (invitations d),
      tv_actions = filter (\<lambda>r. ra_orgId r = org) (remediationActions d),
      tv_executions = filter (\<lambda>e. re_orgId e = org) (remediationExecutions d)\<rparr>"

text \<open>Primary keys.\<close>

definition keys_unique :: "db \<Rightarrow> bool" where
  "keys_unique d = (distinct (map m_id (memberships d)) \<and> distinct (map ra_id (remediationActions d))
     \<and> distinct (map re_id (remediationExecutions d)))"

lemma same_key: "distinct (map key t) \<Longrightarrow> x \<in> set t \<Longrightarrow> y \<in> set t \<Longrightarrow> key x = key y \<Longrightarrow> x = y"
  by (auto simp: distinct_map dest: inj_onD)

lemma claim_now_table:
  assumes "distinct (map re_id (remediationExecutions d))"
  shows "\<exists>P f. fst (claimNextExecution (\<lambda>k d. d) og hid now d)
       = d\<lparr>remediationExecutions := update_many P f (remediationExecutions d)\<rparr>
     \<and> (\<forall>e. re_id (f e) = re_id e \<and> re_orgId (f e) = re_orgId e)
     \<and> (\<forall>e \<in> set (remediationExecutions d). P e \<longrightarrow> re_orgId e = og)"
proof (cases "next_pending og hid d")
  case None
  have "update_many (\<lambda>e. False) id t = t" for t :: "remediation_execution_row list" by (simp add: update_many_none)
  then show ?thesis using None
    by (intro exI[of _ "\<lambda>e. False"] exI[of _ id]) (simp add: claim_sequential[OF assms])
next
  case (Some e)
  have "x = e" if "x \<in> set (remediationExecutions d)" "re_id x = re_id e" for x
    using same_key[OF assms that(1) _ that(2)] next_pending_Some[OF Some] by blast
  then show ?thesis using Some next_pending_Some[OF Some]
    by (intro exI[of _ "\<lambda>x. re_id x = re_id e \<and> re_status x = PENDING"]
        exI[of _ "\<lambda>e. e\<lparr>re_status := RUNNING, re_startedAt := Some now\<rparr>"])
      (auto simp: claim_sequential[OF assms] claim_cas_def Let_def)
qed

text \<open>Which tables each command writes.\<close>

lemma tenant_exec_memberships:
  assumes "keys_unique d" and "\<And>mc. c \<noteq> T_member mc"
  shows "memberships (tenant_exec h c d) = memberships d"
proof (cases c)
  case (T_claim og hid now)
  then show ?thesis using claim_now_table[of d og hid now] assms(1) by (auto simp: keys_unique_def)
qed (use assms(2) in \<open>auto simp: createInvitation_def revokeInvitation_def createRemediationAction_def updateRemediationAction_def
    setRemediationActionEnabled_def requestRun_def createExecution_def approveExecution_def approve_commit_def cancelExecution_def
    recordExecutionResult_def Let_def split: option.splits result.splits\<close>)

lemma member_exec_other:
  "invitations (member_exec c d) = invitations d"
  "remediationActions (member_exec c d) = remediationActions d"
  "remediationExecutions (member_exec c d) = remediationExecutions d"
  by (cases c; simp add: changeMemberRole_def removeMember_def Let_def split: option.split)+

lemma tenant_exec_invitations:
  assumes "keys_unique d" and "org \<noteq> tenant_of c"
  shows "filter (\<lambda>i. i_orgId i = org) (invitations (tenant_exec h c d)) = filter (\<lambda>i. i_orgId i = org) (invitations d)"
proof (cases c)
  case (T_invite g tok a em r now)
  have upd: "filter (\<lambda>i. i_orgId i = org) (update_many (\<lambda>i. i_orgId i = a_orgId a \<and> i_email i = normalizeEmail em \<and> inv_open i)
      (\<lambda>i. i\<lparr>i_revokedAt := Some now\<rparr>) (invitations d)) = filter (\<lambda>i. i_orgId i = org) (invitations d)"
    using assms(2) T_invite by (intro filter_update_many) auto
  show ?thesis
    using createInvitation_invitations[of h g tok a em r now d]
  proof (elim disjE exE conjE)
    assume "invitations (fst (createInvitation h g tok a em r now d)) = invitations d"
    with T_invite show ?thesis by simp
  next
    fix n
    assume "i_orgId n = a_orgId a" and "invitations (fst (createInvitation h g tok a em r now d))
        = insert_row n (update_many (\<lambda>i. i_orgId i = a_orgId a \<and> i_email i = normalizeEmail em \<and> inv_open i)
            (\<lambda>i. i\<lparr>i_revokedAt := Some now\<rparr>) (invitations d))"
    with T_invite assms(2) upd show ?thesis by (simp add: filter_insert_row)
  qed
next
  case (T_revoke g a iid now)
  have "filter (\<lambda>i. i_orgId i = org) (update_many (\<lambda>i. i_id i = iid \<and> i_orgId i = a_orgId a \<and> inv_open i)
      (\<lambda>i. i\<lparr>i_revokedAt := Some now\<rparr>) (invitations d)) = filter (\<lambda>i. i_orgId i = org) (invitations d)"
    using assms(2) T_revoke by (intro filter_update_many) auto
  with T_revoke revokeInvitation_invitations[of g a iid now d] show ?thesis by auto
next
  case (T_claim og hid now)
  then show ?thesis using claim_now_table[of d og hid now] assms(1) by (auto simp: keys_unique_def)
qed (auto simp: member_exec_other createRemediationAction_def updateRemediationAction_def
    setRemediationActionEnabled_def requestRun_def createExecution_def approveExecution_def approve_commit_def cancelExecution_def
    recordExecutionResult_def Let_def split: option.splits result.splits)

text \<open>Actions: a new row, or an update of rows of the actor's organization.\<close>

lemma updateAction_table:
  assumes "distinct (map ra_id (remediationActions d))"
  shows "\<exists>P f. remediationActions (fst (updateRemediationAction h g a aid inp d)) = update_many P f (remediationActions d)
     \<and> (\<forall>r. ra_id (f r) = ra_id r \<and> ra_orgId (f r) = ra_orgId r)
     \<and> (\<forall>r \<in> set (remediationActions d). P r \<longrightarrow> ra_orgId r = a_orgId a)"
proof (cases "remediationActions (fst (updateRemediationAction h g a aid inp d)) = remediationActions d")
  case True
  have "update_many (\<lambda>e. False) id t = t" for t :: "remediation_action_row list" by (simp add: update_many_none)
  then show ?thesis using True by (intro exI[of _ "\<lambda>e. False"] exI[of _ id]) simp
next
  case False
  then obtain pr where pr: "find_first (\<lambda>r. ra_id r = aid \<and> ra_orgId r = a_orgId a) (remediationActions d) = Some pr"
    by (auto simp: updateRemediationAction_def split: option.splits if_splits)
  have "x = pr" if "x \<in> set (remediationActions d)" "ra_id x = aid" for x
    using same_key[OF assms that(1), of pr] find_first_SomeD[OF pr] that(2) by simp
  moreover have "\<exists>f. remediationActions (fst (updateRemediationAction h g a aid inp d)) = update_many (\<lambda>r. ra_id r = aid) f (remediationActions d)
      \<and> (\<forall>r. ra_id (f r) = ra_id r \<and> ra_orgId (f r) = ra_orgId r)"
    using False pr by (auto simp: updateRemediationAction_def split: option.splits if_splits)
  ultimately show ?thesis using find_first_SomeD[OF pr] by blast
qed

lemma tenant_exec_actions:
  assumes "keys_unique d" and "org \<noteq> tenant_of c"
  shows "filter (\<lambda>r. ra_orgId r = org) (remediationActions (tenant_exec h c d)) = filter (\<lambda>r. ra_orgId r = org) (remediationActions d)"
proof (cases c)
  case (T_createAction g a inp)
  with assms(2) show ?thesis
    by (auto simp: createRemediationAction_def insert_row_def split: option.splits)
next
  case (T_updateAction g a aid inp)
  obtain P f where tab: "remediationActions (fst (updateRemediationAction h g a aid inp d)) = update_many P f (remediationActions d)"
    "\<forall>r. ra_id (f r) = ra_id r \<and> ra_orgId (f r) = ra_orgId r" "\<forall>r \<in> set (remediationActions d). P r \<longrightarrow> ra_orgId r = a_orgId a"
    using updateAction_table[of d h g a aid inp] assms(1) by (auto simp: keys_unique_def)
  have "filter (\<lambda>r. ra_orgId r = org) (update_many P f (remediationActions d)) = filter (\<lambda>r. ra_orgId r = org) (remediationActions d)"
    using tab(2,3) assms(2) T_updateAction by (intro filter_update_many) auto
  then show ?thesis by (simp add: T_updateAction tab(1))
next
  case (T_enableAction g a aid en)
  have "filter (\<lambda>r. ra_orgId r = org) (update_many (\<lambda>r. ra_id r = aid \<and> ra_orgId r = a_orgId a) (\<lambda>r. r\<lparr>ra_enabled := en\<rparr>) (remediationActions d))
      = filter (\<lambda>r. ra_orgId r = org) (remediationActions d)"
    using assms(2) T_enableAction by (intro filter_update_many) auto
  with T_enableAction show ?thesis by (simp add: setRemediationActionEnabled_def Let_def)
next
  case (T_claim og hid now)
  then show ?thesis using claim_now_table[of d og hid now] assms(1) by (auto simp: keys_unique_def)
qed (auto simp: member_exec_other createInvitation_def revokeInvitation_def requestRun_def createExecution_def approveExecution_def approve_commit_def cancelExecution_def
    recordExecutionResult_def Let_def split: option.splits result.splits)

text \<open>Executions: a new row of the organization, or an update of some of its rows.\<close>

lemma approve_table:
  assumes "distinct (map re_id (remediationExecutions d))"
  shows "\<exists>P f. remediationExecutions (fst (approveExecution g a eid now d)) = update_many P f (remediationExecutions d)
     \<and> (\<forall>r. re_id (f r) = re_id r \<and> re_orgId (f r) = re_orgId r)
     \<and> (\<forall>r \<in> set (remediationExecutions d). P r \<longrightarrow> re_orgId r = a_orgId a)"
proof (cases "approve_check a eid now d")
  case (fail e)
  have "update_many (\<lambda>e. False) id t = t" for t :: "remediation_execution_row list" by (simp add: update_many_none)
  then show ?thesis using fail by (intro exI[of _ "\<lambda>e. False"] exI[of _ id]) (simp add: approveExecution_def)
next
  case (ok v)
  then obtain e where e: "find_first (\<lambda>e. re_id e = eid \<and> re_orgId e = a_orgId a) (remediationExecutions d) = Some e"
    by (auto simp: approve_check_def split: if_splits option.splits)
  have "x = e" if "x \<in> set (remediationExecutions d)" "re_id x = eid" for x
    using same_key[OF assms that(1), of e] find_first_SomeD[OF e] that(2) by simp
  moreover have "\<exists>f. remediationExecutions (fst (approveExecution g a eid now d))
        = update_many (\<lambda>e. re_id e = eid \<and> re_status e = AWAITING_APPROVAL) f (remediationExecutions d)
      \<and> (\<forall>r. re_id (f r) = re_id r \<and> re_orgId (f r) = re_orgId r)"
    by (intro exI[of _ "\<lambda>e. e\<lparr>re_status := (if snd v \<noteq> None then SKIPPED else PENDING),
          re_statusReason := map_option reason_name (snd v), re_approvedBy := Some (a_userId a),
          re_finishedAt := (if snd v \<noteq> None then Some now else re_finishedAt e)\<rparr>"])
      (simp add: approveExecution_def ok approve_commit_def Let_def)
  ultimately show ?thesis using find_first_SomeD[OF e] by blast
qed

lemma tenant_exec_executions:
  assumes "keys_unique d" and "org \<noteq> tenant_of c"
  shows "filter (\<lambda>e. re_orgId e = org) (remediationExecutions (tenant_exec h c d)) = filter (\<lambda>e. re_orgId e = org) (remediationExecutions d)"
proof -
  have ids: "distinct (map re_id (remediationExecutions d))" using assms(1) by (simp add: keys_unique_def)
  have upd: "filter (\<lambda>e. re_orgId e = org) (update_many P f (remediationExecutions d)) = filter (\<lambda>e. re_orgId e = org) (remediationExecutions d)"
    if "\<forall>r. re_orgId (f r) = re_orgId r" "\<forall>r \<in> set (remediationExecutions d). P r \<longrightarrow> re_orgId r = tenant_of c" for P f
    using that assms(2) by (intro filter_update_many) auto
  show ?thesis
  proof (cases c)
    case (T_run g a aid hid now)
    have "filter (\<lambda>e. re_orgId e = org) (remediationExecutions (fst (createExecution h g inp now d)))
        = filter (\<lambda>e. re_orgId e = org) (remediationExecutions d)" if "ci_orgId inp = a_orgId a" for inp
      using createExecution_table[of h g inp now d] that assms(2) T_run by (auto simp: filter_insert_row)
    with T_run show ?thesis by (simp add: requestRun_def split_beta split: option.split)
  next
    case (T_approve g a eid now)
    then show ?thesis using approve_table[OF ids, of g a eid now] upd by auto
  next
    case (T_cancel g a eid now)
    then show ?thesis by (simp add: cancelExecution_def Let_def upd)
  next
    case (T_claim og hid now)
    then show ?thesis using claim_now_table[OF ids, of og hid now] upd by auto
  next
    case (T_report g og hid inp now)
    then show ?thesis by (simp add: recordExecutionResult_def Let_def upd split: option.split)
  qed (auto simp: member_exec_other createInvitation_def revokeInvitation_def createRemediationAction_def updateRemediationAction_def
      setRemediationActionEnabled_def Let_def split: option.splits)
qed

section \<open>Keys stay unique\<close>

lemma tenant_exec_keys:
  assumes "keys_unique d"
  shows "keys_unique (tenant_exec h c d)"
proof -
  have mem: "distinct (map m_id (memberships (tenant_exec h c d)))"
  proof (cases "\<exists>mc. c = T_member mc")
    case True
    then show ?thesis using assms member_exec_unique by (auto simp: keys_unique_def membership_ids_unique_def)
  next
    case False
    then show ?thesis using tenant_exec_memberships[OF assms] assms by (auto simp: keys_unique_def)
  qed
  have ids: "distinct (map re_id (remediationExecutions d))" and acts: "distinct (map ra_id (remediationActions d))"
    using assms by (simp_all add: keys_unique_def)
  have "distinct (map ra_id (remediationActions (tenant_exec h c d)))"
  proof (cases c)
    case (T_createAction g a inp)
    then show ?thesis using acts
      by (auto simp: createRemediationAction_def insert_row_def list_ex_iff split: option.splits)
  next
    case (T_updateAction g a aid inp)
    then show ?thesis using updateAction_table[OF acts, of h g a aid inp] acts by (auto simp: map_update_many)
  next
    case (T_enableAction g a aid en)
    then show ?thesis using acts by (simp add: setRemediationActionEnabled_def Let_def map_update_many)
  next
    case (T_claim og hid now)
    then show ?thesis using claim_now_table[OF ids, of og hid now] acts by auto
  qed (use acts in \<open>auto simp: member_exec_other createInvitation_def revokeInvitation_def requestRun_def createExecution_def
      approveExecution_def approve_commit_def cancelExecution_def recordExecutionResult_def Let_def split: option.splits result.splits\<close>)
  moreover have "distinct (map re_id (remediationExecutions (tenant_exec h c d)))"
  proof (cases c)
    case (T_run g a aid hid now)
    then show ?thesis using exec_evolves[of d h "Run g a aid hid now"] ids by (simp add: evolves_def)
  next
    case (T_approve g a eid now)
    then show ?thesis using approve_table[OF ids, of g a eid now] ids by (auto simp: map_update_many)
  next
    case (T_cancel g a eid now)
    then show ?thesis using exec_evolves[of d h "Cancel g a eid now"] ids by (simp add: evolves_def)
  next
    case (T_claim og hid now)
    then show ?thesis using claim_now_table[OF ids, of og hid now] ids by (auto simp: map_update_many)
  next
    case (T_report g og hid inp now)
    then show ?thesis using exec_evolves[of d h "Report g og hid inp now"] ids by (simp add: evolves_def)
  qed (use ids in \<open>auto simp: member_exec_other createInvitation_def revokeInvitation_def createRemediationAction_def updateRemediationAction_def
      setRemediationActionEnabled_def Let_def split: option.splits\<close>)
  ultimately show ?thesis using mem by (simp add: keys_unique_def)
qed

interpretation tenants: tenant_scoped keys_unique "tenant_exec h" tenant_of tenant_rows for h
proof unfold_locales
  fix d c
  assume "keys_unique d"
  then show "keys_unique (tenant_exec h c d)" by (rule tenant_exec_keys)
next
  fix d org c
  assume inv: "keys_unique d" and other: "org \<noteq> tenant_of c"
  have "filter (\<lambda>m. m_orgId m = org) (memberships (tenant_exec h c d)) = filter (\<lambda>m. m_orgId m = org) (memberships d)"
  proof (cases "\<exists>mc. c = T_member mc")
    case True
    then show ?thesis using member_machine.foreign_rows[of d org] inv other
      by (auto simp: keys_unique_def membership_ids_unique_def org_memberships_def)
  next
    case False
    then show ?thesis using tenant_exec_memberships[OF inv] by auto
  qed
  then show "tenant_rows org (tenant_exec h c d) = tenant_rows org d"
    using inv other by (simp add: tenant_rows_def tenant_exec_invitations tenant_exec_actions tenant_exec_executions)
qed

end
