(* ===== verification/Totp.thy ===== *)
theory Totp
  imports Prelude
begin

unbundle bit_operations_syntax

text \<open>
  Time-based one-time passwords, \<open>src/lib/auth/totp.ts\<close>. The accumulator of the base32 coder is a
  32-bit integer that JavaScript shifts with wrap-around, so it is a \<^typ>\<open>32 word\<close>: its high bits
  are junk and the lemmas show that only the low ones matter. HMAC-SHA1 is a parameter.
\<close>

type_synonym byte = "8 word"

definition BASE32_ALPHABET :: string where
  "BASE32_ALPHABET = ''ABCDEFGHIJKLMNOPQRSTUVWXYZ234567''"
definition STEP_SECONDS :: int where "STEP_SECONDS = 30"
definition DIGITS :: nat where "DIGITS = 6"

section \<open>Base32\<close>

text \<open>\<open>while (bits >= 5)\<close>: emit the five highest of the pending bits.\<close>

fun b32_drain :: "32 word \<Rightarrow> nat \<Rightarrow> nat list \<times> nat" where
  "b32_drain v bits =
     (if 5 \<le> bits
      then let (out, left) = b32_drain v (bits - 5)
           in (unat (drop_bit (bits - 5) v AND 31) # out, left)
      else ([], bits))"

declare b32_drain.simps [simp del]

fun b32_enc :: "32 word \<Rightarrow> nat \<Rightarrow> byte list \<Rightarrow> nat list" where
  "b32_enc v bits [] = (if 0 < bits then [unat (push_bit (5 - bits) v AND 31)] else [])"
| "b32_enc v bits (b # bs) =
     (let v' = push_bit 8 v OR ucast b;
          (out, left) = b32_drain v' (bits + 8)
      in out @ b32_enc v' left bs)"

definition base32Encode :: "byte list \<Rightarrow> string" where
  "base32Encode bs = map (\<lambda>i. BASE32_ALPHABET ! i) (b32_enc 0 0 bs)"

definition base32_char :: "char \<Rightarrow> bool" where
  "base32_char c = (let n = code_unit c in (65 \<le> n \<and> n \<le> 90) \<or> (50 \<le> n \<and> n \<le> 55))"

fun index_of :: "char \<Rightarrow> string \<Rightarrow> nat option" where
  "index_of c [] = None"
| "index_of c (x # xs) = (if c = x then Some 0 else map_option Suc (index_of c xs))"

fun b32_dec :: "32 word \<Rightarrow> nat \<Rightarrow> string \<Rightarrow> byte list" where
  "b32_dec v bits [] = []"
| "b32_dec v bits (c # cs) =
     (case index_of c BASE32_ALPHABET of
        None \<Rightarrow> b32_dec v bits cs
      | Some i \<Rightarrow>
          let v' = push_bit 5 v OR of_nat i in
          if 8 \<le> bits + 5 then ucast (drop_bit (bits + 5 - 8) v' AND 255) # b32_dec v' (bits + 5 - 8) cs
          else b32_dec v' (bits + 5) cs)"

definition base32Decode :: "string \<Rightarrow> byte list" where
  "base32Decode encoded = b32_dec 0 0 (filter base32_char (toUpperCase encoded))"

text \<open>20 random bytes.\<close>

definition generateTotpSecret :: "byte list \<Rightarrow> string" where
  "generateTotpSecret random20 = base32Encode random20"

section \<open>HOTP and TOTP\<close>

definition be64 :: "int \<Rightarrow> byte list" where
  "be64 n = map (\<lambda>k. word_of_int (n div 256 ^ k)) [7, 6, 5, 4, 3, 2, 1, 0]"

text \<open>\<open>digest[i] & mask\<close>: a read past the end is \<open>undefined\<close>, which \<open>&\<close> turns into 0.\<close>

definition digest_at :: "byte list \<Rightarrow> nat \<Rightarrow> 32 word" where
  "digest_at ds i = (if i < length ds then ucast (ds ! i) else 0)"

fun dec_string :: "nat \<Rightarrow> string" where
  "dec_string n = (if n < 10 then [char_of (48 + n)] else dec_string (n div 10) @ [char_of (48 + n mod 10)])"

declare dec_string.simps [simp del]

definition padStart :: "nat \<Rightarrow> char \<Rightarrow> string \<Rightarrow> string" where
  "padStart n c s = replicate (n - length s) c @ s"

definition hotp :: "(byte list \<Rightarrow> byte list \<Rightarrow> byte list) \<Rightarrow> byte list \<Rightarrow> int \<Rightarrow> string" where
  "hotp hmac_sha1 secret counter =
     (let digest = hmac_sha1 secret (be64 counter);
          offset = unat (digest_at digest (length digest - 1) AND 15);
          binary = push_bit 24 (digest_at digest offset AND 127)
                   OR push_bit 16 (digest_at digest (offset + 1) AND 255)
                   OR push_bit 8 (digest_at digest (offset + 2) AND 255)
                   OR (digest_at digest (offset + 3) AND 255)
      in padStart DIGITS (CHR ''0'') (dec_string (unat binary mod 10 ^ DIGITS)))"

definition currentStep :: "ms \<Rightarrow> int" where
  "currentStep time = time div 1000 div STEP_SECONDS"

definition generateTotpCode :: "(byte list \<Rightarrow> byte list \<Rightarrow> byte list) \<Rightarrow> string \<Rightarrow> ms \<Rightarrow> string" where
  "generateTotpCode hmac_sha1 base32Secret time = hotp hmac_sha1 (base32Decode base32Secret) (currentStep time)"

definition is_digit_char :: "char \<Rightarrow> bool" where
  "is_digit_char c = (48 \<le> code_unit c \<and> code_unit c \<le> 57)"

text \<open>\<open>/^\d{6}$/\<close>\<close>

definition six_digits :: "string \<Rightarrow> bool" where
  "six_digits s = (length s = 6 \<and> list_all is_digit_char s)"

text \<open>The loop over the drift \<open>-1, 0, 1\<close>.\<close>

definition verifyTotpCode ::
  "(byte list \<Rightarrow> byte list \<Rightarrow> byte list) \<Rightarrow> string \<Rightarrow> string \<Rightarrow> ms \<Rightarrow> bool" where
  "verifyTotpCode hmac_sha1 base32Secret code time =
     (six_digits code \<and>
      (let secret = base32Decode base32Secret; step = currentStep time
       in list_ex (\<lambda>drift. hotp hmac_sha1 secret (step + drift) = code) [-1, 0, 1]))"

section \<open>The enrolment URI\<close>

text \<open>\<open>encodeURIComponent\<close> and the serialisation of \<open>URLSearchParams\<close>, over UTF-8.\<close>

definition hex_digit :: "nat \<Rightarrow> char" where
  "hex_digit n = ''0123456789ABCDEF'' ! n"

definition percent_encode :: "char \<Rightarrow> string" where
  "percent_encode c =
     (let n = code_unit c;
          pct = (\<lambda>b. [CHR ''%'', hex_digit (b div 16), hex_digit (b mod 16)])
      in if n < 128 then pct n else pct (192 + n div 64) @ pct (128 + n mod 64))"

definition alnum :: "char \<Rightarrow> bool" where
  "alnum c = (let n = code_unit c in
     (48 \<le> n \<and> n \<le> 57) \<or> (65 \<le> n \<and> n \<le> 90) \<or> (97 \<le> n \<and> n \<le> 122))"

definition encodeURIComponent :: "string \<Rightarrow> string" where
  "encodeURIComponent s =
     concat (map (\<lambda>c. if alnum c \<or> c \<in> set ''-_.!~*()'' \<or> code_unit c = 39 then [c] else percent_encode c) s)"

definition form_encode :: "string \<Rightarrow> string" where
  "form_encode s =
     concat (map (\<lambda>c. if alnum c \<or> c \<in> set ''*-._'' then [c]
                      else if c = CHR '' '' then ''+'' else percent_encode c) s)"

definition totpUri :: "string \<Rightarrow> string \<Rightarrow> string" where
  "totpUri secret email =
     (let issuer = ''IkelyaneMonitor'' in
      ''otpauth://totp/'' @ encodeURIComponent (issuer @ '':'' @ email)
      @ ''?secret='' @ form_encode secret @ ''&issuer='' @ form_encode issuer
      @ ''&algorithm=SHA1&digits='' @ dec_string DIGITS @ ''&period='' @ dec_string (nat STEP_SECONDS))"

section \<open>Recovery codes\<close>

definition RECOVERY_CODE_COUNT :: nat where "RECOVERY_CODE_COUNT = 10"

text \<open>\<open>raw.match(/.{1,4}/g)?.join("-")\<close>\<close>

fun groups_of_4 :: "string \<Rightarrow> string" where
  "groups_of_4 (a # b # c # e # f # rest) = a # b # c # e # CHR ''-'' # groups_of_4 (f # rest)"
| "groups_of_4 s = s"

definition generateRecoveryCode :: "byte list \<Rightarrow> string" where
  "generateRecoveryCode random10 = groups_of_4 (take 16 (base32Encode random10))"

definition generateRecoveryCodes :: "nat \<Rightarrow> (nat \<Rightarrow> byte list) \<Rightarrow> string list" where
  "generateRecoveryCodes count random = map (\<lambda>i. generateRecoveryCode (random i)) [0..<count]"

definition normalizeRecoveryCode :: "string \<Rightarrow> string" where
  "normalizeRecoveryCode input = filter base32_char (toUpperCase (js_trim input))"

section \<open>Bits of a word, most significant first\<close>

definition bl :: "nat \<Rightarrow> 'a::len word \<Rightarrow> bool list" where
  "bl n v = map (\<lambda>i. bit v i) (rev [0..<n])"

lemma length_bl [simp]: "length (bl n v) = n"
  by (simp add: bl_def)

lemma bl_0 [simp]: "bl 0 v = []"
  by (simp add: bl_def)

lemma bl_nth: "i < n \<Longrightarrow> bl n v ! i = bit v (n - Suc i)"
  by (simp add: bl_def rev_nth)

lemma bl_split: "m \<le> n \<Longrightarrow> bl n v = bl (n - m) (drop_bit m v) @ bl m v"
  by (rule nth_equalityI) (auto simp: bl_nth nth_append bit_drop_bit_eq)

lemma bl_append:
  fixes v c :: "32 word"
  assumes "k + n \<le> 32" and small: "\<And>j. bit c j \<Longrightarrow> j < n"
  shows "bl (k + n) (push_bit n v OR c) = bl k v @ bl n c"
proof (rule nth_equalityI)
  fix i
  assume i: "i < length (bl (k + n) (push_bit n v OR c))"
  then have i': "i < k + n" by simp
  show "bl (k + n) (push_bit n v OR c) ! i = (bl k v @ bl n c) ! i"
  proof (cases "i < k")
    case True
    then have "k + n - Suc i = n + (k - Suc i)" and "k + n - Suc i < 32" using assms(1) by auto
    with True i' small show ?thesis
      by (auto simp: bl_nth nth_append bit_or_iff bit_push_bit_iff dest: small)
  next
    case False
    then have "k + n - Suc i < n" and "k + n - Suc i = n - Suc (i - k)" using i' by auto
    with False i' show ?thesis by (auto simp: bl_nth nth_append bit_or_iff bit_push_bit_iff)
  qed
qed simp

lemma bit_byte: "bit (ucast (b :: byte) :: 32 word) j \<Longrightarrow> j < 8"
  by (auto simp: bit_ucast_iff dest: bit_imp_le_length)

lemma bl_byte: "bl 8 (ucast (b :: byte) :: 32 word) = bl 8 b"
  by (auto simp: bl_def bit_ucast_iff)

lemma bit_index: "i < 32 \<Longrightarrow> bit (of_nat i :: 32 word) j \<Longrightarrow> j < 5"
proof (rule ccontr)
  assume i: "i < 32" and bit: "bit (of_nat i :: 32 word) j" and "\<not> j < 5"
  then have "(2::nat) ^ 5 \<le> 2 ^ j" by (intro power_increasing) auto
  with i have "i div 2 ^ j = 0" by simp
  moreover from bit have "bit i j" by (simp add: bit_simps)
  ultimately show False by (simp add: bit_nat_def bit_iff_odd)
qed

lemma bl_mask:
  "bl 5 (w AND 31 :: 32 word) = bl 5 w"
  "bl 8 (w AND 255 :: 32 word) = bl 8 w"
proof -
  have "w AND 31 = take_bit 5 w" "w AND 255 = take_bit 8 w"
    by (simp_all add: take_bit_eq_mask mask_eq_exp_minus_1)
  then show "bl 5 (w AND 31) = bl 5 w" "bl 8 (w AND 255) = bl 8 w"
    by (auto simp: bl_def bit_take_bit_iff)
qed

lemma masked_index: "unat (w AND 31 :: 32 word) < 32"
proof -
  have "w AND 31 \<le> (31 :: 32 word)" by (rule word_and_le1)
  then have "unat (w AND 31) \<le> unat (31 :: 32 word)" by (rule word_le_nat_alt[THEN iffD1])
  then show ?thesis by simp
qed

lemma bl_inject: "bl LENGTH('a) (v :: 'a::len word) = bl LENGTH('a) w \<Longrightarrow> v = w"
proof (rule bit_word_eqI)
  fix n
  assume eq: "bl LENGTH('a) v = bl LENGTH('a) w" and n: "n < LENGTH('a)"
  have "bl LENGTH('a) v ! (LENGTH('a) - Suc n) = bl LENGTH('a) w ! (LENGTH('a) - Suc n)" using eq by simp
  with n show "bit v n = bit w n" by (simp add: bl_nth Suc_diff_Suc)
qed

section \<open>Base32 round trip\<close>

text \<open>The five bits an index stands for.\<close>

definition b5 :: "nat \<Rightarrow> bool list" where
  "b5 i = bl 5 (of_nat i :: 32 word)"

lemma b5_masked: "b5 (unat (w AND 31 :: 32 word)) = bl 5 w"
  by (simp add: b5_def bl_mask)

lemma drain_bits:
  "b32_drain v n = (out, left) \<Longrightarrow>
     concat (map b5 out) @ bl left v = bl n v \<and> left < 5 \<and> (\<forall>i \<in> set out. i < 32)"
proof (induction v n arbitrary: out left rule: b32_drain.induct)
  case (1 v n)
  show ?case
  proof (cases "5 \<le> n")
    case False
    with 1 show ?thesis by (simp add: b32_drain.simps)
  next
    case True
    obtain out' where rec: "b32_drain v (n - 5) = (out', left)"
      and out: "out = unat (drop_bit (n - 5) v AND 31) # out'"
      using "1.prems" True by (subst (asm) b32_drain.simps) (auto split: prod.splits)
    from "1.IH"[OF True rec]
    have IH: "concat (map b5 out') @ bl left v = bl (n - 5) v" "left < 5" "\<forall>i \<in> set out'. i < 32" by simp_all
    have "bl n v = bl 5 (drop_bit (n - 5) v) @ bl (n - 5) v"
      using bl_split[of "n - 5" n v] True by simp
    then show ?thesis using IH masked_index by (auto simp: out b5_masked)
  qed
qed

lemma pad_bits:
  assumes "k < 5"
  shows "bl 5 (push_bit (5 - k) (v :: 32 word)) = bl k v @ replicate (5 - k) False"
proof (rule nth_equalityI)
  fix i
  assume "i < length (bl 5 (push_bit (5 - k) v))"
  then have "i < 5" by simp
  with assms show "bl 5 (push_bit (5 - k) v) ! i = (bl k v @ replicate (5 - k) False) ! i"
    by (auto simp: bl_nth nth_append bit_push_bit_iff)
qed (use assms in simp)

lemma enc_bits:
  "k < 5 \<Longrightarrow> (\<exists>p < 5. concat (map b5 (b32_enc v k bs)) = bl k v @ concat (map (bl 8) bs) @ replicate p False)
     \<and> (\<forall>i \<in> set (b32_enc v k bs). i < 32)"
proof (induction bs arbitrary: v k)
  case Nil
  show ?case
  proof (cases "k = 0")
    case True
    then show ?thesis by (auto intro: exI[of _ 0])
  next
    case False
    with Nil show ?thesis
      by (auto simp: b5_masked pad_bits masked_index intro!: exI[of _ "5 - k"])
  qed
next
  case (Cons b bs)
  let ?v = "push_bit 8 v OR ucast b :: 32 word"
  obtain out left where dr: "b32_drain ?v (k + 8) = (out, left)" by fastforce
  from drain_bits[OF dr] have d: "concat (map b5 out) @ bl left ?v = bl (k + 8) ?v" "left < 5" "\<forall>i \<in> set out. i < 32"
    by simp_all
  have app: "bl (k + 8) ?v = bl k v @ bl 8 b"
    using bl_append[of k 8 "ucast b" v] Cons.prems bit_byte[of b] by (simp add: bl_byte)
  from Cons.IH[OF d(2), of ?v] obtain p where p: "p < 5"
    "concat (map b5 (b32_enc ?v left bs)) = bl left ?v @ concat (map (bl 8) bs) @ replicate p False"
    "\<forall>i \<in> set (b32_enc ?v left bs). i < 32" by blast
  have enc: "b32_enc v k (b # bs) = out @ b32_enc ?v left bs" by (simp add: dr Let_def)
  have "concat (map b5 (b32_enc v k (b # bs))) = bl k v @ concat (map (bl 8) (b # bs)) @ replicate p False"
  proof -
    have "concat (map b5 (b32_enc v k (b # bs)))
        = (concat (map b5 out) @ bl left ?v) @ concat (map (bl 8) bs) @ replicate p False"
      by (simp only: enc p(2) map_append concat_append append_assoc)
    also have "\<dots> = (bl k v @ bl 8 b) @ concat (map (bl 8) bs) @ replicate p False"
      by (simp only: d(1) app)
    finally show ?thesis by simp
  qed
  moreover have "\<forall>i \<in> set (b32_enc v k (b # bs)). i < 32"
    using p(3) d(3) by (simp only: enc set_append ball_Un)
  ultimately show ?case using p(1) by blast
qed

lemma alphabet_index: "i < 32 \<Longrightarrow> index_of (BASE32_ALPHABET ! i) BASE32_ALPHABET = Some i"
proof -
  have "list_all (\<lambda>i. index_of (BASE32_ALPHABET ! i) BASE32_ALPHABET = Some i) [0..<32]" by code_simp
  then show "i < 32 \<Longrightarrow> ?thesis" by (simp add: list_all_iff)
qed

lemma alphabet_clean: "i < 32 \<Longrightarrow>
  base32_char (BASE32_ALPHABET ! i) \<and> upper_char (BASE32_ALPHABET ! i) = [BASE32_ALPHABET ! i]
  \<and> \<not> js_space (BASE32_ALPHABET ! i) \<and> upper_char (lower_char (BASE32_ALPHABET ! i)) = [BASE32_ALPHABET ! i]"
proof -
  have "list_all (\<lambda>i. base32_char (BASE32_ALPHABET ! i) \<and> upper_char (BASE32_ALPHABET ! i) = [BASE32_ALPHABET ! i]
    \<and> \<not> js_space (BASE32_ALPHABET ! i) \<and> upper_char (lower_char (BASE32_ALPHABET ! i)) = [BASE32_ALPHABET ! i]) [0..<32]"
    by code_simp
  then show "i < 32 \<Longrightarrow> ?thesis" by (simp add: list_all_iff)
qed

lemma dec_bits:
  "k < 8 \<Longrightarrow> \<forall>i \<in> set js. i < 32 \<Longrightarrow>
     \<exists>rest. concat (map (bl 8) (b32_dec v k (map (\<lambda>i. BASE32_ALPHABET ! i) js))) @ rest
        = bl k v @ concat (map b5 js) \<and> length rest < 8"
proof (induction js arbitrary: v k)
  case Nil
  then show ?case by (auto intro: exI[of _ "bl k v"])
next
  case (Cons i js)
  let ?v = "push_bit 5 v OR of_nat i :: 32 word"
  have i: "i < 32" using Cons.prems by simp
  have app: "bl (k + 5) ?v = bl k v @ b5 i"
    unfolding b5_def by (rule bl_append) (use Cons.prems bit_index[OF i] in auto)
  show ?case
  proof (cases "8 \<le> k + 5")
    case True
    let ?k = "k + 5 - 8"
    let ?b = "ucast (drop_bit ?k ?v AND 255) :: byte"
    have "bl 8 ?b = bl 8 (drop_bit ?k ?v AND 255)" by (auto simp: bl_def bit_ucast_iff)
    then have byte: "bl 8 ?b = bl 8 (drop_bit ?k ?v)" by (simp add: bl_mask)
    have split: "bl (k + 5) ?v = bl 8 ?b @ bl ?k ?v"
      unfolding byte using bl_split[of ?k "k + 5" ?v] True by (simp only: diff_diff_cancel diff_le_self)
    have "?k < 8" using Cons.prems by simp
    from Cons.IH[OF this, of ?v] Cons.prems obtain rest where
      "concat (map (bl 8) (b32_dec ?v ?k (map (\<lambda>i. BASE32_ALPHABET ! i) js))) @ rest = bl ?k ?v @ concat (map b5 js)"
      "length rest < 8" by auto
    with True split app show ?thesis
      by (intro exI[of _ rest]) (simp add: alphabet_index[OF i] Let_def)
  next
    case False
    then have "k + 5 < 8" by simp
    from Cons.IH[OF this, of ?v] Cons.prems obtain rest where
      "concat (map (bl 8) (b32_dec ?v (k + 5) (map (\<lambda>i. BASE32_ALPHABET ! i) js))) @ rest = bl (k + 5) ?v @ concat (map b5 js)"
      "length rest < 8" by auto
    with False app show ?thesis
      by (intro exI[of _ rest]) (simp add: alphabet_index[OF i] Let_def)
  qed
qed

lemma blocks_unique:
  fixes xs ys :: "byte list"
  shows "concat (map (bl 8) xs) @ r = concat (map (bl 8) ys) @ q \<Longrightarrow> length r < 8 \<Longrightarrow> length q < 8 \<Longrightarrow> xs = ys"
proof (induction xs arbitrary: ys)
  case Nil
  then have "length r = length (concat (map (bl 8) ys)) + length q" by simp
  with Nil.prems(2) show ?case by (cases ys) auto
next
  case (Cons x xs)
  show ?case
  proof (cases ys)
    case Nil
    then have "length (concat (map (bl 8) (x # xs)) @ r) = length q" using Cons.prems(1) by simp
    with Cons.prems(3) show ?thesis by simp
  next
    case (Cons y zs)
    with Cons.prems have "bl 8 x = bl 8 y" "concat (map (bl 8) xs) @ r = concat (map (bl 8) zs) @ q" by simp_all
    moreover have "x = y" using bl_inject[of x y] \<open>bl 8 x = bl 8 y\<close> by simp
    ultimately show ?thesis using Cons.IH[of zs] Cons.prems(2,3) Cons by simp
  qed
qed

lemma base32Encode_clean: "filter base32_char (toUpperCase (base32Encode bs)) = base32Encode bs"
proof -
  have "filter base32_char (concat (map upper_char (map (\<lambda>i. BASE32_ALPHABET ! i) js))) = map (\<lambda>i. BASE32_ALPHABET ! i) js"
    if "\<forall>i \<in> set js. i < 32" for js
    using that by (induction js) (simp_all add: alphabet_clean)
  then show ?thesis using enc_bits[of 0 0 bs] by (simp add: base32Encode_def toUpperCase_def)
qed

section \<open>Codes\<close>

lemma dec_string_digits: "list_all is_digit_char (dec_string n)"
proof (induction n rule: dec_string.induct)
  case (1 n)
  have digit: "is_digit_char (char_of (48 + k))" if "k < 10" for k :: nat
    using that by (simp add: is_digit_char_def code_unit_def)
  show ?case
    by (subst dec_string.simps) (use 1 digit in auto)
qed

lemma dec_string_length: "n < 10 ^ Suc k \<Longrightarrow> length (dec_string n) \<le> Suc k"
proof (induction k arbitrary: n)
  case 0
  then show ?case by (simp add: dec_string.simps)
next
  case (Suc k)
  then have "n div 10 < 10 ^ Suc k" by (simp add: less_mult_imp_div_less)
  from Suc.IH[OF this] show ?case by (subst dec_string.simps) simp
qed

lemma hotp_six_digits: "six_digits (hotp hmac_sha1 secret counter)"
proof -
  have len: "length (dec_string (b mod 10 ^ 6)) \<le> 6" for b
    using dec_string_length[of "b mod 10 ^ 6" 5] by simp
  have "six_digits (padStart DIGITS (CHR ''0'') (dec_string (b mod 10 ^ DIGITS)))" for b
    using len[of b] dec_string_digits[of "b mod 10 ^ 6"]
    by (auto simp: six_digits_def padStart_def DIGITS_def is_digit_char_def code_unit_def list_all_iff)
  then show ?thesis by (simp add: hotp_def Let_def)
qed

text \<open>What one typed character contributes to the canonical code.\<close>

definition canon_char :: "char \<Rightarrow> string" where
  "canon_char c = filter base32_char (upper_char c)"

lemma canon_space: "js_space c \<Longrightarrow> canon_char c = []"
proof -
  assume sp: "js_space c"
  define n where "n = code_unit c"
  from sp have n: "n \<in> {9, 10, 11, 12, 13, 32, 160}" by (simp only: js_space_def n_def)
  then have "upper_char c = [c]" by (auto simp: upper_char_def Let_def n_def[symmetric])
  moreover have "\<not> base32_char c" using n by (auto simp: base32_char_def Let_def n_def[symmetric])
  ultimately show ?thesis by (simp add: canon_char_def)
qed

lemma canon_spaces: "list_all js_space s \<Longrightarrow> concat (map canon_char s) = []"
  by (induction s) (simp_all add: canon_space)

lemma canon_trim: "concat (map canon_char (js_trim s)) = concat (map canon_char s)"
proof -
  have front: "concat (map canon_char (dropWhile js_space t)) = concat (map canon_char t)" for t
    by (induction t) (simp_all add: canon_space)
  have rear: "concat (map canon_char (rev (dropWhile js_space (rev t)))) = concat (map canon_char t)" for t
    by (induction t rule: rev_induct) (simp_all add: canon_space)
  show ?thesis by (simp add: js_trim_def front rear)
qed

lemma normalizeRecoveryCode_canon: "normalizeRecoveryCode s = concat (map canon_char s)"
proof -
  have "filter base32_char (toUpperCase t) = concat (map canon_char t)" for t
    by (induction t) (simp_all add: toUpperCase_def canon_char_def)
  then show ?thesis by (simp add: normalizeRecoveryCode_def canon_trim)
qed

lemma groups_of_4_canon: "concat (map canon_char (groups_of_4 s)) = concat (map canon_char s)"
proof -
  have "canon_char (CHR ''-'') = []" by code_simp
  then show ?thesis by (induction s rule: groups_of_4.induct) simp_all
qed

lemma canon_lower: "c \<in> set BASE32_ALPHABET \<union> {CHR ''-''} \<Longrightarrow> canon_char (lower_char c) = canon_char c"
proof -
  have "list_all (\<lambda>c. canon_char (lower_char c) = canon_char c) (CHR ''-'' # BASE32_ALPHABET)"
    by (simp add: BASE32_ALPHABET_def canon_char_def lower_char_def upper_char_def base32_char_def code_unit_def char_of_eq_iff)
  then show "c \<in> set BASE32_ALPHABET \<union> {CHR ''-''} \<Longrightarrow> ?thesis" by (auto simp: list_all_iff)
qed

lemma groups_of_4_set: "set (groups_of_4 s) \<subseteq> set s \<union> {CHR ''-''}"
  by (induction s rule: groups_of_4.induct) auto

lemma base32Encode_alphabet: "set (base32Encode bs) \<subseteq> set BASE32_ALPHABET"
proof -
  have "length BASE32_ALPHABET = 32" by (simp add: BASE32_ALPHABET_def)
  then show ?thesis using enc_bits[of 0 0 bs] by (auto simp: base32Encode_def)
qed

lemma canon_alphabet: "set s \<subseteq> set BASE32_ALPHABET \<Longrightarrow> concat (map canon_char s) = s"
proof (induction s)
  case (Cons c s)
  have "list_all (\<lambda>c. canon_char c = [c]) BASE32_ALPHABET" by code_simp
  with Cons show ?case by (simp add: list_all_iff)
qed simp

text \<open>Some letters typed in lower case.\<close>

fun lowered :: "bool list \<Rightarrow> string \<Rightarrow> string" where
  "lowered (b # bs) (c # cs) = (if b then lower_char c else c) # lowered bs cs"
| "lowered _ cs = cs"

lemma canon_lowered:
  "set s \<subseteq> set BASE32_ALPHABET \<union> {CHR ''-''} \<Longrightarrow> concat (map canon_char (lowered bs s)) = concat (map canon_char s)"
  by (induction bs s rule: lowered.induct) (use canon_lower in auto)

section \<open>Properties\<close>

text \<open>Decoding the base32 form of a secret gives the secret back, byte for byte, although the
  32-bit accumulators of both directions overflow: what an authenticator app is shown is what the
  server computes codes with.\<close>

lemma base32_roundtrip: "base32Decode (base32Encode bs) = bs"
proof -
  obtain p where p: "p < 5" "concat (map b5 (b32_enc 0 0 bs)) = concat (map (bl 8) bs) @ replicate p False"
    and ix: "\<forall>i \<in> set (b32_enc 0 0 bs). i < 32"
    using enc_bits[of 0 0 bs] by auto
  obtain rest where "concat (map (bl 8) (b32_dec 0 0 (base32Encode bs))) @ rest
      = concat (map (bl 8) bs) @ replicate p False" "length rest < 8"
    using dec_bits[OF _ ix, of 0 0] p(2) by (auto simp: base32Encode_def)
  then have "b32_dec 0 0 (base32Encode bs) = bs" using p(1) by (intro blocks_unique[where r = rest and q = "replicate p False"]) auto
  then show ?thesis by (simp add: base32Decode_def base32Encode_clean)
qed

text \<open>Whenever the clocks of the server and of the authenticator are in the same or in
  neighbouring 30-second steps, the code the authenticator shows is accepted: it is always six
  digits long, leading zeros included, and the three steps around the server's are all tried.\<close>

lemma totp_accepts_neighbouring_step:
  assumes "\<bar>currentStep shown - currentStep now\<bar> \<le> 1"
  shows "verifyTotpCode hmac_sha1 secret (generateTotpCode hmac_sha1 secret shown) now"
proof -
  let ?d = "currentStep shown - currentStep now"
  have "?d \<in> {-1, 0, 1}" using assms by auto
  moreover have "currentStep shown = currentStep now + ?d" by simp
  ultimately have "\<exists>d \<in> {-1, 0, 1}. hotp hmac_sha1 (base32Decode secret) (currentStep now + d)
      = generateTotpCode hmac_sha1 secret shown"
    by (metis generateTotpCode_def)
  then show ?thesis by (simp add: verifyTotpCode_def generateTotpCode_def hotp_six_digits Let_def)
qed

lemma totp_accepts_neighbouring_step_witness:
  "\<bar>currentStep 59000 - currentStep 89999\<bar> \<le> 1
   \<and> verifyTotpCode (\<lambda>k m. k @ m) ''JBSWY3DPEHPK3PXP'' (generateTotpCode (\<lambda>k m. k @ m) ''JBSWY3DPEHPK3PXP'' 59000) 89999"
proof -
  have "\<bar>currentStep 59000 - currentStep 89999\<bar> \<le> 1" by (simp add: currentStep_def STEP_SECONDS_def)
  then show ?thesis using totp_accepts_neighbouring_step by blast
qed

text \<open>A recovery code typed back with any of its letters in lower case and any white space
  around it normalises to the very string that was hashed when the code was issued.\<close>

lemma recovery_code_typed_back:
  assumes "list_all js_space before" and "list_all js_space after"
  shows "normalizeRecoveryCode (before @ lowered which (generateRecoveryCode random10) @ after)
         = normalizeRecoveryCode (generateRecoveryCode random10)
       \<and> normalizeRecoveryCode (generateRecoveryCode random10) = take 16 (base32Encode random10)"
proof -
  let ?raw = "take 16 (base32Encode random10)"
  have raw: "set ?raw \<subseteq> set BASE32_ALPHABET" using base32Encode_alphabet set_take_subset by fastforce
  then have "set (groups_of_4 ?raw) \<subseteq> set BASE32_ALPHABET \<union> {CHR ''-''}" using groups_of_4_set by fastforce
  then show ?thesis
    by (simp add: normalizeRecoveryCode_canon generateRecoveryCode_def canon_spaces[OF assms(1)]
        canon_spaces[OF assms(2)] canon_lowered groups_of_4_canon canon_alphabet[OF raw])
qed

lemma recovery_code_typed_back_witness:
  "normalizeRecoveryCode ('' '' @ lowered [True, False, True] (generateRecoveryCode [1, 2, 3, 4, 5, 6, 7, 8, 9, 10]) @ '' '')
     = normalizeRecoveryCode (generateRecoveryCode [1, 2, 3, 4, 5, 6, 7, 8, 9, 10])
   \<and> normalizeRecoveryCode (generateRecoveryCode [1, 2, 3, 4, 5, 6, 7, 8, 9, 10])
     = take 16 (base32Encode [1, 2, 3, 4, 5, 6, 7, 8, 9, 10])"
  by (rule recovery_code_typed_back) code_simp+

end
