(* ===== verification/Two_Factor.thy ===== *)
theory Two_Factor
  imports Users Totp
begin

text \<open>
  The second factor, \<open>src/lib/auth/two-factor.ts\<close>: enrolment, the password-protected changes and the
  sign-in challenge. Parameters: \<open>hashToken\<close> (SHA-256), \<open>hmac\<close> (HMAC-SHA1), the cipher of
  \<open>src/lib/crypto.ts\<close> (\<open>decryptSecret\<close> throws on a forged or malformed payload: \<open>None\<close>),
  \<open>verifyPassword\<close> and the random values.

  \<open>verifyTotpChallenge\<close> is split where the source stops reading and starts writing: \<open>totp_check\<close>
  decides on the state it read, \<open>totp_commit\<close> writes, possibly after another request has written.
\<close>

definition TOTP_CHALLENGE_TTL_SECONDS :: int where "TOTP_CHALLENGE_TTL_SECONDS = 5 * 60"
definition TOTP_MAX_CHALLENGE_ATTEMPTS :: nat where "TOTP_MAX_CHALLENGE_ATTEMPTS = 5"

definition totpSecretAad :: "ident \<Rightarrow> string" where
  "totpSecretAad userId = ''user:'' @ userId @ '':totp''"

type_synonym cipher = "string \<Rightarrow> string \<Rightarrow> string"
type_synonym decipher = "string \<Rightarrow> string \<Rightarrow> string option"
type_synonym hmac = "byte list \<Rightarrow> byte list \<Rightarrow> byte list"

section \<open>Enrolment\<close>

definition startTotpSetup ::
  "cipher \<Rightarrow> byte list \<Rightarrow> ident \<Rightarrow> string \<Rightarrow> db \<Rightarrow> db \<times> (string \<times> string)" where
  "startTotpSetup encryptSecret random20 userId email d =
     (let secret = generateTotpSecret random20
      in (d\<lparr>users := update_many (\<lambda>u. u_id u = userId)
            (\<lambda>u. u\<lparr>u_totpSecretEnc := Some (encryptSecret secret (totpSecretAad userId))\<rparr>) (users d)\<rparr>,
          (secret, totpUri secret email)))"

text \<open>\<open>deleteMany\<close> then \<open>createMany\<close>: the whole batch of a user's codes is replaced.\<close>

definition replace_codes ::
  "(string \<Rightarrow> string) \<Rightarrow> dbgen \<Rightarrow> nat \<Rightarrow> ident \<Rightarrow> string list \<Rightarrow> db \<Rightarrow> db" where
  "replace_codes hashToken g k userId codes d =
     d\<lparr>totpRecoveryCodes := delete_many (\<lambda>r. rc_userId r = userId) (totpRecoveryCodes d)
        @ map (\<lambda>(i, c). \<lparr>rc_id = cuid g (k + i), rc_userId = userId,
                         rc_codeHash = hashToken (normalizeRecoveryCode c), rc_usedAt = None\<rparr>)
              (enumerate 0 codes)\<rparr>"

text \<open>\<open>Raised\<close> is the exception of \<open>decryptSecret\<close>.\<close>

datatype confirm_totp_error = CT_no_pending_setup | CT_invalid_code | CT_raised

definition confirmTotpSetup ::
  "(string \<Rightarrow> string) \<Rightarrow> hmac \<Rightarrow> decipher \<Rightarrow> dbgen \<Rightarrow> (nat \<Rightarrow> byte list) \<Rightarrow> ident \<Rightarrow> string \<Rightarrow> ms
   \<Rightarrow> db \<Rightarrow> db \<times> (string list, confirm_totp_error) result" where
  "confirmTotpSetup hashToken hmac decryptSecret g random userId code now d =
     (case Option.bind (find_first (\<lambda>u. u_id u = userId) (users d)) u_totpSecretEnc of
        None \<Rightarrow> (d, fail CT_no_pending_setup)
      | Some enc \<Rightarrow>
        if enc = [] then (d, fail CT_no_pending_setup)
        else case decryptSecret enc (totpSecretAad userId) of
          None \<Rightarrow> (d, fail CT_raised)
        | Some secret \<Rightarrow>
          if \<not> verifyTotpCode hmac secret (js_trim code) now then (d, fail CT_invalid_code)
          else
            let recoveryCodes = generateRecoveryCodes RECOVERY_CODE_COUNT random;
                d1 = replace_codes hashToken g 1 userId recoveryCodes d;
                d2 = d1\<lparr>users := update_many (\<lambda>u. u_id u = userId)
                         (\<lambda>u. u\<lparr>u_totpEnabledAt := Some now\<rparr>) (users d1)\<rparr>
            in (recordAudit g 0 ((audit_entry ''auth.totp_enabled'')\<lparr>ae_actorId := Some userId\<rparr>) d2,
                ok recoveryCodes))"

section \<open>Changes that require the password\<close>

datatype totp_credential_error = TC_invalid_password | TC_throttled | TC_not_enabled

definition verifyCurrentPassword ::
  "(string \<Rightarrow> string \<Rightarrow> bool) \<Rightarrow> dbgen \<Rightarrow> ident \<Rightarrow> string \<Rightarrow> string option \<Rightarrow> ms
   \<Rightarrow> db \<Rightarrow> db \<times> (string, totp_credential_error) result" where
  "verifyCurrentPassword verifyPassword g userId password ip now d =
     (case find_first (\<lambda>u. u_id u = userId) (users d) of
        None \<Rightarrow> (d, fail TC_invalid_password)
      | Some u \<Rightarrow>
        if checkLoginThrottle (u_email u) ip now d \<noteq> Allowed then (d, fail TC_throttled)
        else if length password > 1024 \<or>
            \<not> (case u_passwordHash u of None \<Rightarrow> False | Some st \<Rightarrow> st \<noteq> [] \<and> verifyPassword password st)
        then (recordLoginAttempt g 0 (u_email u) ip False now d, fail TC_invalid_password)
        else (d, ok (u_email u)))"

definition totp_enabled :: "db \<Rightarrow> ident \<Rightarrow> bool" where
  "totp_enabled d userId =
     (case find_first (\<lambda>u. u_id u = userId) (users d) of None \<Rightarrow> False | Some u \<Rightarrow> u_totpEnabledAt u \<noteq> None)"

definition disableTotp ::
  "(string \<Rightarrow> string \<Rightarrow> bool) \<Rightarrow> dbgen \<Rightarrow> ident \<Rightarrow> string \<Rightarrow> string option \<Rightarrow> ms
   \<Rightarrow> db \<Rightarrow> db \<times> (unit, totp_credential_error) result" where
  "disableTotp verifyPassword g userId password ip now d =
     (case verifyCurrentPassword verifyPassword g userId password ip now d of
        (d1, fail e) \<Rightarrow> (d1, fail e)
      | (d1, ok email) \<Rightarrow>
        if \<not> totp_enabled d1 userId then (d1, fail TC_not_enabled)
        else
          let d2 = d1\<lparr>users := update_many (\<lambda>u. u_id u = userId)
                       (\<lambda>u. u\<lparr>u_totpSecretEnc := None, u_totpEnabledAt := None\<rparr>) (users d1),
                     totpRecoveryCodes := delete_many (\<lambda>r. rc_userId r = userId) (totpRecoveryCodes d1),
                     totpChallenges := delete_many (\<lambda>c. tc_userId c = userId) (totpChallenges d1)\<rparr>
          in (recordAudit g 1 ((audit_entry ''auth.totp_disabled'')\<lparr>ae_actorId := Some userId,
                 ae_actorEmail := Some email, ae_ipAddress := ip\<rparr>) d2, ok ()))"

definition regenerateRecoveryCodes ::
  "(string \<Rightarrow> string) \<Rightarrow> (string \<Rightarrow> string \<Rightarrow> bool) \<Rightarrow> dbgen \<Rightarrow> (nat \<Rightarrow> byte list) \<Rightarrow> ident \<Rightarrow> string
   \<Rightarrow> string option \<Rightarrow> ms \<Rightarrow> db \<Rightarrow> db \<times> (string list, totp_credential_error) result" where
  "regenerateRecoveryCodes hashToken verifyPassword g random userId password ip now d =
     (case verifyCurrentPassword verifyPassword g userId password ip now d of
        (d1, fail e) \<Rightarrow> (d1, fail e)
      | (d1, ok email) \<Rightarrow>
        if \<not> totp_enabled d1 userId then (d1, fail TC_not_enabled)
        else
          let recoveryCodes = generateRecoveryCodes RECOVERY_CODE_COUNT random
          in (recordAudit g 1 ((audit_entry ''auth.totp_recovery_codes_regenerated'')\<lparr>ae_actorId := Some userId,
                 ae_actorEmail := Some email, ae_ipAddress := ip\<rparr>)
                (replace_codes hashToken g 2 userId recoveryCodes d1), ok recoveryCodes))"

section \<open>The sign-in challenge\<close>

definition createTotpChallenge ::
  "(string \<Rightarrow> string) \<Rightarrow> dbgen \<Rightarrow> nat \<Rightarrow> string \<Rightarrow> ident \<Rightarrow> string option \<Rightarrow> string option \<Rightarrow> string option \<Rightarrow> ms
   \<Rightarrow> db \<Rightarrow> db \<times> (string \<times> ms)" where
  "createTotpChallenge hashToken g k token userId ip userAgent nextPath now d =
     (let expiresAt = now + seconds TOTP_CHALLENGE_TTL_SECONDS
      in (d\<lparr>totpChallenges := insert_row
            \<lparr>tc_id = cuid g k, tc_userId = userId, tc_tokenHash = hashToken token, tc_nextPath = nextPath,
             tc_failedAttempts = 0, tc_ipAddress = ip, tc_userAgent = map_option (take 255) userAgent,
             tc_expiresAt = expiresAt, tc_createdAt = now\<rparr> (totpChallenges d)\<rparr>,
          (token, expiresAt)))"

definition previewTotpChallenge ::
  "(string \<Rightarrow> string) \<Rightarrow> string \<Rightarrow> ms \<Rightarrow> db \<Rightarrow> (string \<times> string option) option" where
  "previewTotpChallenge hashToken token now d =
     (if token = [] \<or> length token > 256 then None
      else case find_first (\<lambda>c. tc_tokenHash c = hashToken token) (totpChallenges d) of
        None \<Rightarrow> None
      | Some c \<Rightarrow>
        if tc_expiresAt c \<le> now then None
        else map_option (\<lambda>u. (u_email u, tc_nextPath c))
               (find_first (\<lambda>u. u_id u = tc_userId c) (users d)))"

datatype verify_totp_error = VT_challenge_expired | VT_invalid_code | VT_too_many_attempts | VT_raised

record verified_totp =
  vt_token :: string
  vt_expiresAt :: ms
  vt_userId :: ident
  vt_email :: string
  vt_locale :: ui_locale
  vt_nextPath :: "string option"
  vt_usedRecoveryCode :: bool

datatype totp_decision =
    Refuse verify_totp_error
  | Miss totp_challenge_row
  | Hit totp_challenge_row user_row "ident option"

definition totp_check ::
  "(string \<Rightarrow> string) \<Rightarrow> hmac \<Rightarrow> decipher \<Rightarrow> string \<Rightarrow> string \<Rightarrow> ms \<Rightarrow> db \<Rightarrow> totp_decision" where
  "totp_check hashToken hmac decryptSecret token rawCode now d =
     (if token = [] \<or> length token > 256 then Refuse VT_challenge_expired
      else case find_first (\<lambda>c. tc_tokenHash c = hashToken token) (totpChallenges d) of
        None \<Rightarrow> Refuse VT_challenge_expired
      | Some c \<Rightarrow>
        (case find_first (\<lambda>u. u_id u = tc_userId c) (users d) of
           None \<Rightarrow> Refuse VT_challenge_expired
         | Some u \<Rightarrow>
           if tc_expiresAt c \<le> now \<or> u_disabledAt u \<noteq> None then Refuse VT_challenge_expired
           else
             let code = js_trim rawCode in
             if six_digits code then
               (case u_totpSecretEnc u of
                  None \<Rightarrow> Miss c
                | Some enc \<Rightarrow>
                    if enc = [] then Miss c
                    else case decryptSecret enc (totpSecretAad (u_id u)) of
                      None \<Rightarrow> Refuse VT_raised
                    | Some secret \<Rightarrow> if verifyTotpCode hmac secret code now then Hit c u None else Miss c)
             else
               (case find_first (\<lambda>r. rc_codeHash r = hashToken (normalizeRecoveryCode code)) (totpRecoveryCodes d) of
                  None \<Rightarrow> Miss c
                | Some r \<Rightarrow> if rc_userId r = tc_userId c \<and> rc_usedAt r = None then Hit c u (Some (rc_id r)) else Miss c)))"

text \<open>
  \<open>delete\<close> and \<open>update\<close> by id raise when the row is gone, and the transaction is rolled back.
\<close>

definition totp_commit ::
  "(string \<Rightarrow> string) \<Rightarrow> dbgen \<Rightarrow> string \<Rightarrow> string option \<Rightarrow> string option \<Rightarrow> ms \<Rightarrow> totp_decision
   \<Rightarrow> db \<Rightarrow> db \<times> (verified_totp, verify_totp_error) result" where
  "totp_commit hashToken g sessionToken ip userAgent now dec d =
     (case dec of
        Refuse e \<Rightarrow> (d, fail e)
      | Miss c \<Rightarrow>
          if find_first (\<lambda>r. tc_id r = tc_id c) (totpChallenges d) = None then (d, fail VT_raised)
          else
            let attempts = tc_failedAttempts c + 1 in
            if attempts \<ge> TOTP_MAX_CHALLENGE_ATTEMPTS
            then (d\<lparr>totpChallenges := delete_many (\<lambda>r. tc_id r = tc_id c) (totpChallenges d)\<rparr>, fail VT_too_many_attempts)
            else (d\<lparr>totpChallenges := update_many (\<lambda>r. tc_id r = tc_id c)
                     (\<lambda>r. r\<lparr>tc_failedAttempts := attempts\<rparr>) (totpChallenges d)\<rparr>, fail VT_invalid_code)
      | Hit c u matched \<Rightarrow>
          if find_first (\<lambda>r. tc_id r = tc_id c) (totpChallenges d) = None
             \<or> (case matched of None \<Rightarrow> False
                | Some rid \<Rightarrow> find_first (\<lambda>r. rc_id r = rid) (totpRecoveryCodes d) = None)
          then (d, fail VT_raised)
          else
            let d1 = d\<lparr>totpChallenges := delete_many (\<lambda>r. tc_id r = tc_id c) (totpChallenges d),
                      totpRecoveryCodes := (case matched of None \<Rightarrow> totpRecoveryCodes d
                        | Some rid \<Rightarrow> update_many (\<lambda>r. rc_id r = rid) (\<lambda>r. r\<lparr>rc_usedAt := Some now\<rparr>) (totpRecoveryCodes d))\<rparr>;
                (d2, s) = createSession hashToken g 0 sessionToken (u_id u) ip userAgent now d1
            in (recordAudit g 1 ((audit_entry ''auth.login'')\<lparr>ae_orgId := cs_activeOrgId s,
                   ae_actorId := Some (u_id u), ae_actorEmail := Some (u_email u), ae_ipAddress := ip,
                   ae_metadata := Some (JObj [(''via'', JStr (if matched = None then ''totp'' else ''totp_recovery_code''))])\<rparr>) d2,
                ok \<lparr>vt_token = cs_token s, vt_expiresAt = cs_expiresAt s, vt_userId = u_id u,
                    vt_email = u_email u, vt_locale = u_locale u, vt_nextPath = tc_nextPath c,
                    vt_usedRecoveryCode = (matched \<noteq> None)\<rparr>))"

definition verifyTotpChallenge ::
  "(string \<Rightarrow> string) \<Rightarrow> hmac \<Rightarrow> decipher \<Rightarrow> dbgen \<Rightarrow> string \<Rightarrow> string \<Rightarrow> string \<Rightarrow> string option \<Rightarrow> string option \<Rightarrow> ms
   \<Rightarrow> db \<Rightarrow> db \<times> (verified_totp, verify_totp_error) result" where
  "verifyTotpChallenge hashToken hmac decryptSecret g sessionToken token code ip userAgent now d =
     totp_commit hashToken g sessionToken ip userAgent now
       (totp_check hashToken hmac decryptSecret token code now d) d"

section \<open>Sequences of guesses\<close>

text \<open>One attempt against a challenge: the code typed, when, and the values drawn if it succeeds.\<close>

record guess =
  gs_code :: string
  gs_now :: ms
  gs_gen :: dbgen
  gs_sessionToken :: string

fun guesses ::
  "(string \<Rightarrow> string) \<Rightarrow> hmac \<Rightarrow> decipher \<Rightarrow> string \<Rightarrow> guess list \<Rightarrow> db
   \<Rightarrow> db \<times> (verified_totp, verify_totp_error) result list" where
  "guesses h hm dec token [] d = (d, [])"
| "guesses h hm dec token (x # xs) d =
     (let (d1, r) = verifyTotpChallenge h hm dec (gs_gen x) (gs_sessionToken x) token (gs_code x) None None (gs_now x) d;
          (d2, rs) = guesses h hm dec token xs d1
      in (d2, r # rs))"

text \<open>The code was compared with the secret or the stored codes.\<close>

definition evaluated :: "(verified_totp, verify_totp_error) result \<Rightarrow> bool" where
  "evaluated r = (r \<noteq> fail VT_challenge_expired \<and> r \<noteq> fail VT_raised)"

text \<open>\<open>TotpChallenge.id\<close> and \<open>tokenHash\<close> are unique, and a challenge is gone before its fifth miss.\<close>

definition challenges_ok :: "db \<Rightarrow> bool" where
  "challenges_ok d = (distinct (map tc_id (totpChallenges d)) \<and> distinct (map tc_tokenHash (totpChallenges d))
     \<and> list_all (\<lambda>c. tc_failedAttempts c < TOTP_MAX_CHALLENGE_ATTEMPTS) (totpChallenges d))"

definition guesses_left :: "string \<Rightarrow> db \<Rightarrow> nat" where
  "guesses_left th d = (case find_first (\<lambda>c. tc_tokenHash c = th) (totpChallenges d) of
     None \<Rightarrow> 0 | Some c \<Rightarrow> TOTP_MAX_CHALLENGE_ATTEMPTS - tc_failedAttempts c)"

section \<open>Lemmas\<close>

lemmas totp_consts = TOTP_MAX_CHALLENGE_ATTEMPTS_def TOTP_CHALLENGE_TTL_SECONDS_def

interpretation challenge_ids: keyed_update tc_id "\<lambda>n c. c\<lparr>tc_failedAttempts := n\<rparr>"
  by unfold_locales simp

interpretation challenge_hashes: keyed_update tc_tokenHash "\<lambda>n c. c\<lparr>tc_failedAttempts := n\<rparr>"
  by unfold_locales simp

interpretation enrolment: keyed_update u_id "\<lambda>s u. u\<lparr>u_totpSecretEnc := s\<rparr>"
  by unfold_locales simp

text \<open>What the reading half has established.\<close>

lemma totp_check_found:
  assumes "totp_check h hm dec token code now d = Miss c \<or> totp_check h hm dec token code now d = Hit c u m"
  shows "find_first (\<lambda>c. tc_tokenHash c = h token) (totpChallenges d) = Some c"
  using assms
  by (auto simp: totp_check_def Let_def split: if_splits option.splits)

lemma totp_check_not_evaluated:
  "totp_check h hm dec token code now d = Refuse e \<Longrightarrow> e = VT_challenge_expired \<or> e = VT_raised"
  by (auto simp: totp_check_def Let_def split: if_splits option.splits)

lemma totp_check_Hit:
  assumes "totp_check h hm dec token code now d = Hit c u m"
  shows "find_first (\<lambda>c. tc_tokenHash c = h token) (totpChallenges d) = Some c
    \<and> find_first (\<lambda>u. u_id u = tc_userId c) (users d) = Some u
    \<and> now < tc_expiresAt c \<and> u_disabledAt u = None
    \<and> (case m of
         None \<Rightarrow> \<exists>enc secret. u_totpSecretEnc u = Some enc \<and> dec enc (totpSecretAad (u_id u)) = Some secret
                  \<and> verifyTotpCode hm secret (js_trim code) now
       | Some rid \<Rightarrow> \<exists>r. find_first (\<lambda>r. rc_codeHash r = h (normalizeRecoveryCode (js_trim code))) (totpRecoveryCodes d) = Some r
                  \<and> rc_id r = rid \<and> rc_userId r = tc_userId c \<and> rc_usedAt r = None)"
  using assms
  by (auto simp: totp_check_def Let_def not_le split: if_splits option.splits)

lemma found_in_table:
  assumes "find_first P t = Some r"
  shows "find_first (\<lambda>x. key x = key r) t \<noteq> None"
  using find_first_SomeD[OF assms] by (auto simp: find_first_None_iff)

text \<open>What one attempt does to the challenges: nothing, remove it, or count a miss.\<close>

lemma verify_challenges:
  fixes h hm dec g st token code ip ua now d
  defines "v \<equiv> verifyTotpChallenge h hm dec g st token code ip ua now d"
  shows "(totpChallenges (fst v) = totpChallenges d \<and> \<not> evaluated (snd v))
    \<or> (\<exists>c. find_first (\<lambda>c. tc_tokenHash c = h token) (totpChallenges d) = Some c \<and>
        (totpChallenges (fst v) = delete_many (\<lambda>r. tc_id r = tc_id c) (totpChallenges d)
         \<or> (Suc (tc_failedAttempts c) < TOTP_MAX_CHALLENGE_ATTEMPTS \<and> totpChallenges (fst v)
             = update_many (\<lambda>r. tc_id r = tc_id c) (\<lambda>r. r\<lparr>tc_failedAttempts := Suc (tc_failedAttempts c)\<rparr>) (totpChallenges d))))"
proof (cases "totp_check h hm dec token code now d")
  case (Refuse e)
  then show ?thesis using totp_check_not_evaluated[OF Refuse]
    by (auto simp: v_def verifyTotpChallenge_def totp_commit_def evaluated_def)
next
  case (Miss c)
  note f = totp_check_found[OF disjI1, OF Miss]
  then show ?thesis using found_in_table[OF f, of tc_id]
    by (auto simp: v_def verifyTotpChallenge_def totp_commit_def Miss Let_def not_le)
next
  case (Hit c u m)
  note f = totp_check_found[OF disjI2, OF Hit]
  then show ?thesis using found_in_table[OF f, of tc_id]
    by (auto simp: v_def verifyTotpChallenge_def totp_commit_def Hit Let_def evaluated_def split_beta)
qed

lemma find_after_delete:
  assumes "distinct (map key t)" and "distinct (map id' t)" and "find_first (\<lambda>r. key r = k) t = Some c"
  shows "find_first (\<lambda>r. key r = k) (delete_many (\<lambda>r. id' r = id' c) t) = None"
proof -
  have c: "c \<in> set t" "key c = k" using find_first_SomeD[OF assms(3)] by simp_all
  have "r = c" if "r \<in> set t" "key r = k" for r
    using that c assms(1) by (metis distinct_map inj_onD)
  then show ?thesis by (auto simp: find_first_None_iff set_delete_many)
qed

text \<open>The potential: an evaluated attempt uses up at least one of the guesses left.\<close>

lemma verify_uses_guess:
  fixes h hm dec g st token code ip ua now d
  defines "v \<equiv> verifyTotpChallenge h hm dec g st token code ip ua now d"
  assumes ok: "challenges_ok d"
  shows "challenges_ok (fst v) \<and> (if evaluated (snd v) then 1 else 0) + guesses_left (h token) (fst v) \<le> guesses_left (h token) d"
  using verify_challenges[of h hm dec g st token code ip ua now d, folded v_def]
proof (elim disjE exE conjE)
  assume "totpChallenges (fst v) = totpChallenges d" "\<not> evaluated (snd v)"
  then show ?thesis using ok by (simp add: challenges_ok_def guesses_left_def)
next
  fix c
  assume f: "find_first (\<lambda>c. tc_tokenHash c = h token) (totpChallenges d) = Some c"
    and del: "totpChallenges (fst v) = delete_many (\<lambda>r. tc_id r = tc_id c) (totpChallenges d)"
  have "tc_failedAttempts c < TOTP_MAX_CHALLENGE_ATTEMPTS"
    using ok find_first_SomeD[OF f] by (auto simp: challenges_ok_def list_all_iff)
  moreover have "guesses_left (h token) (fst v) = 0"
    using find_after_delete[OF _ _ f, of tc_id] ok by (simp add: guesses_left_def del challenges_ok_def)
  moreover have "challenges_ok (fst v)"
    using ok by (auto simp: challenges_ok_def del distinct_map_delete_many list_all_iff set_delete_many)
  moreover have "guesses_left (h token) d = TOTP_MAX_CHALLENGE_ATTEMPTS - tc_failedAttempts c"
    using f by (simp add: guesses_left_def)
  ultimately show ?thesis by (cases "evaluated (snd v)") simp_all
next
  fix c :: totp_challenge_row
  let ?u = "\<lambda>r. r\<lparr>tc_failedAttempts := Suc (tc_failedAttempts c)\<rparr>"
  assume f: "find_first (\<lambda>c. tc_tokenHash c = h token) (totpChallenges d) = Some c"
    and lt: "Suc (tc_failedAttempts c) < TOTP_MAX_CHALLENGE_ATTEMPTS"
    and upd: "totpChallenges (fst v) = update_many (\<lambda>r. tc_id r = tc_id c) ?u (totpChallenges d)"
  have c: "c \<in> set (totpChallenges d)" "tc_tokenHash c = h token" using find_first_SomeD[OF f] by simp_all
  have "find_first (\<lambda>x. tc_tokenHash x = tc_tokenHash c) (totpChallenges (fst v)) = Some (?u c)"
    using challenge_hashes.find_update[OF _ c(1), of "\<lambda>r. tc_id r = tc_id c"] ok by (simp add: upd challenges_ok_def)
  then have "guesses_left (h token) (fst v) = TOTP_MAX_CHALLENGE_ATTEMPTS - Suc (tc_failedAttempts c)"
    by (simp add: guesses_left_def c(2))
  moreover have "challenges_ok (fst v)"
    using ok lt by (auto simp: challenges_ok_def upd challenge_ids.unique_update challenge_hashes.unique_update
        list_all_iff elim!: update_manyE)
  moreover have "guesses_left (h token) d = TOTP_MAX_CHALLENGE_ATTEMPTS - tc_failedAttempts c"
    using f by (simp add: guesses_left_def)
  ultimately show ?thesis using lt by (cases "evaluated (snd v)") simp_all
qed

section \<open>Properties\<close>


text \<open>A challenge for an enrolled account with one recovery code, hashed by reversing.\<close>

definition sample_totp_db :: db where
  "sample_totp_db = sample_db\<lparr>
     users := [(sample_user ''ann'' ''ann@acme.org'')\<lparr>u_totpSecretEnc := Some ''JBSWY3DPEHPK3PXP'', u_totpEnabledAt := Some 0\<rparr>],
     totpRecoveryCodes := [\<lparr>rc_id = ''r1'', rc_userId = ''ann'', rc_codeHash = ''DCBA'', rc_usedAt = None\<rparr>],
     totpChallenges := [\<lparr>tc_id = ''c1'', tc_userId = ''ann'', tc_tokenHash = ''1t'', tc_nextPath = None,
        tc_failedAttempts = 0, tc_ipAddress = None, tc_userAgent = None, tc_expiresAt = 300000, tc_createdAt = 0\<rparr>,
        \<lparr>tc_id = ''c2'', tc_userId = ''ann'', tc_tokenHash = ''2t'', tc_nextPath = None,
        tc_failedAttempts = 0, tc_ipAddress = None, tc_userAgent = None, tc_expiresAt = 300000, tc_createdAt = 0\<rparr>]\<rparr>"

definition sample_guess :: "string \<Rightarrow> guess" where
  "sample_guess code = \<lparr>gs_code = code, gs_now = 1000, gs_gen = sample_gen, gs_sessionToken = ''s1''\<rparr>"


text \<open>C7. A challenge that is passed opens exactly one session, of the account it was created for, and
  only with a code of that account: a current one-time code or one of its unused recovery codes.
  The challenge is spent with it, so presenting its token again never opens a second session, and
  so is the recovery code.\<close>

theorem totp_success_spends:
  assumes v: "verifyTotpChallenge h hm dec g st token code ip ua now d = (d', ok r)"
    and uniq: "challenges_ok d"
  shows "(\<exists>c u. find_first (\<lambda>c. tc_tokenHash c = h token) (totpChallenges d) = Some c \<and> now < tc_expiresAt c
       \<and> u \<in> set (users d) \<and> u_id u = tc_userId c \<and> u_disabledAt u = None
       \<and> vt_userId r = u_id u \<and> map s_userId (sessions d') = map s_userId (sessions d) @ [u_id u]
       \<and> (if vt_usedRecoveryCode r
          then \<exists>rc \<in> set (totpRecoveryCodes d). rc_userId rc = u_id u \<and> rc_usedAt rc = None
                 \<and> rc_codeHash rc = h (normalizeRecoveryCode (js_trim code))
                 \<and> (\<forall>rc' \<in> set (totpRecoveryCodes d'). rc_id rc' = rc_id rc \<longrightarrow> rc_usedAt rc' = Some now)
          else \<exists>enc secret. u_totpSecretEnc u = Some enc \<and> dec enc (totpSecretAad (u_id u)) = Some secret
                 \<and> verifyTotpCode hm secret (js_trim code) now))
    \<and> (\<forall>g' st' code' ip' ua' now'. snd (verifyTotpChallenge h hm dec g' st' token code' ip' ua' now' d') = fail VT_challenge_expired)"
proof -
  obtain c u m where hit: "totp_check h hm dec token code now d = Hit c u m"
    using v by (cases "totp_check h hm dec token code now d")
      (auto simp: verifyTotpChallenge_def totp_commit_def Let_def split: if_splits)
  note found = totp_check_Hit[OF hit]
  then have f: "find_first (\<lambda>c. tc_tokenHash c = h token) (totpChallenges d) = Some c" by blast
  have u: "u \<in> set (users d)" "u_id u = tc_userId c" using found find_first_SomeD[of _ "users d" u] by auto
  have post: "totpChallenges d' = delete_many (\<lambda>r. tc_id r = tc_id c) (totpChallenges d)
     \<and> totpRecoveryCodes d' = (case m of None \<Rightarrow> totpRecoveryCodes d
          | Some rid \<Rightarrow> update_many (\<lambda>r. rc_id r = rid) (\<lambda>r. r\<lparr>rc_usedAt := Some now\<rparr>) (totpRecoveryCodes d))
     \<and> map s_userId (sessions d') = map s_userId (sessions d) @ [u_id u]
     \<and> vt_userId r = u_id u \<and> vt_usedRecoveryCode r = (m \<noteq> None)"
    using v by (auto simp: verifyTotpChallenge_def totp_commit_def hit Let_def split_beta
        createSession_sessions split: if_splits option.splits)
  have "find_first (\<lambda>c. tc_tokenHash c = h token) (totpChallenges d') = None"
    using find_after_delete[OF _ _ f, of tc_id] uniq post by (simp add: challenges_ok_def)
  then have gone: "snd (verifyTotpChallenge h hm dec g' st' token code' ip' ua' now' d') = fail VT_challenge_expired"
    for g' st' code' ip' ua' now'
    by (simp add: verifyTotpChallenge_def totp_check_def totp_commit_def)
  have "if vt_usedRecoveryCode r
          then \<exists>rc \<in> set (totpRecoveryCodes d). rc_userId rc = u_id u \<and> rc_usedAt rc = None
                 \<and> rc_codeHash rc = h (normalizeRecoveryCode (js_trim code))
                 \<and> (\<forall>rc' \<in> set (totpRecoveryCodes d'). rc_id rc' = rc_id rc \<longrightarrow> rc_usedAt rc' = Some now)
          else \<exists>enc secret. u_totpSecretEnc u = Some enc \<and> dec enc (totpSecretAad (u_id u)) = Some secret
                 \<and> verifyTotpCode hm secret (js_trim code) now"
  proof (cases m)
    case None
    with found post show ?thesis by auto
  next
    case (Some rid)
    with found obtain rc where rc: "find_first (\<lambda>r. rc_codeHash r = h (normalizeRecoveryCode (js_trim code))) (totpRecoveryCodes d) = Some rc"
      "rc_id rc = rid" "rc_userId rc = tc_userId c" "rc_usedAt rc = None" by auto
    have "\<forall>rc' \<in> set (totpRecoveryCodes d'). rc_id rc' = rc_id rc \<longrightarrow> rc_usedAt rc' = Some now"
      using post Some rc(2) by (auto elim!: update_manyE)
    with find_first_SomeD[OF rc(1)] rc(3,4) u(2) post Some show ?thesis by auto
  qed
  with f found u post gone show ?thesis by blast
qed

text \<open>The recovery code typed in lower case with dashes.\<close>

definition sample_totp_login where
  "sample_totp_login = verifyTotpChallenge rev (\<lambda>k m. k) (\<lambda>e a. Some e) sample_gen ''s1'' ''t1'' ''ab-cd'' None None 1000 sample_totp_db"

lemma sample_totp_login_ok: "is_ok (snd sample_totp_login)"
  unfolding sample_totp_login_def by code_simp

theorem totp_success_spends_witness:
  "snd (verifyTotpChallenge rev (\<lambda>k m. k) (\<lambda>e a. Some e) sample_gen ''s2'' ''t1'' ''ab-cd'' None None 1001 (fst sample_totp_login))
     = fail VT_challenge_expired"
proof -
  obtain r where "snd sample_totp_login = ok r" using sample_totp_login_ok by auto
  then have "verifyTotpChallenge rev (\<lambda>k m. k) (\<lambda>e a. Some e) sample_gen ''s1'' ''t1'' ''ab-cd'' None None 1000 sample_totp_db
      = (fst sample_totp_login, ok r)" by (metis sample_totp_login_def prod.collapse)
  moreover have "challenges_ok sample_totp_db" by code_simp
  ultimately show ?thesis by (rule totp_success_spends[THEN conjunct2, rule_format])
qed

section \<open>Interleaved requests\<close>

text \<open>
  Two requests that read before either writes. Both halves of \<open>verifyTotpChallenge\<close> work by id and do
  not repeat the check, so one recovery code presented to two pending challenges opens two
  sessions.
\<close>

lemma recovery_code_spent_twice:
  "let chk = (\<lambda>t. totp_check rev (\<lambda>k m. k) (\<lambda>e a. Some e) t ''ABCD'' 1000 sample_totp_db);
       (d1, r1) = totp_commit rev sample_gen ''s1'' None None 1000 (chk ''t1'') sample_totp_db;
       (d2, r2) = totp_commit rev (sample_gen\<lparr>cuid := \<lambda>k. replicate (Suc k) (CHR ''e'')\<rparr>) ''s2'' None None 1000 (chk ''t2'') d1
   in is_ok r1 \<and> is_ok r2 \<and> length (sessions d2) = 2"
  by code_simp

text \<open>
  The count of misses is computed from the value read, so wrong guesses checked in parallel are
  counted once: writing back the same decision again changes nothing.
\<close>

lemma parallel_misses_count_once:
  assumes "totp_check h hm dec token code now d = Miss c" and "Suc (tc_failedAttempts c) < TOTP_MAX_CHALLENGE_ATTEMPTS"
  shows "totp_commit h g st ip ua now (Miss c) (fst (totp_commit h g st ip ua now (Miss c) d))
       = totp_commit h g st ip ua now (Miss c) d"
proof -
  have "update_many P f (update_many P f t) = update_many P f t"
    if "\<And>r. P r \<Longrightarrow> f (f r) = f r" "\<And>r. P (f r) = P r" for P f and t :: "totp_challenge_row list"
    using that by (induction t) auto
  moreover have "find_first (\<lambda>r. tc_id r = tc_id c) (totpChallenges d) \<noteq> None"
    by (rule found_in_table[OF totp_check_found[OF disjI1, OF assms(1)]])
  moreover have "find_first (\<lambda>r. tc_id r = tc_id c)
      (update_many (\<lambda>r. tc_id r = tc_id c) (\<lambda>r. r\<lparr>tc_failedAttempts := n\<rparr>) (totpChallenges d)) \<noteq> None" for n
  proof -
    have "tc_id c \<in> set (map tc_id (totpChallenges d))"
      using find_first_SomeD[OF totp_check_found[OF disjI1, OF assms(1)]] by simp
    then have "tc_id c \<in> set (map tc_id (update_many (\<lambda>r. tc_id r = tc_id c) (\<lambda>r. r\<lparr>tc_failedAttempts := n\<rparr>) (totpChallenges d)))"
      by (simp only: challenge_ids.keys_update)
    then show ?thesis by (auto simp: find_first_None_iff)
  qed
  ultimately show ?thesis using assms(2) by (simp add: totp_commit_def Let_def)
qed

text \<open>
  Starting the set-up again on an account whose second factor is on: the new secret is the one the
  next sign-in is checked with, although it has never been confirmed and no password was asked.
\<close>

lemma restarted_setup_is_active:
  assumes "find_first (\<lambda>u. u_id u = uid) (users d) = Some u" and "u_totpEnabledAt u \<noteq> None"
    and "distinct (map u_id (users d))"
  shows "\<exists>u'. find_first (\<lambda>u. u_id u = uid) (users (fst (startTotpSetup enc rnd uid email d))) = Some u'
    \<and> u_totpEnabledAt u' = u_totpEnabledAt u
    \<and> u_totpSecretEnc u' = Some (enc (generateTotpSecret rnd) (totpSecretAad uid))"
proof -
  have u: "u \<in> set (users d)" "u_id u = uid" using find_first_SomeD[OF assms(1)] by simp_all
  show ?thesis
    using enrolment.find_update[OF assms(3) u(1), of "\<lambda>x. u_id x = uid"] u(2)
    by (simp add: startTotpSetup_def Let_def)
qed

end
