(* ===== verification/Login.thy ===== *)
theory Login
  imports Two_Factor
begin

text \<open>
  Signing in, \<open>src/lib/auth/login.ts\<close>. Parameters: the password functions, the two random tokens
  (session and challenge) and the outcome of the coin that triggers the housekeeping.
\<close>

datatype sign_in_result =
    SI_ok string ms ident string ui_locale
  | SI_invalid_credentials
  | SI_throttled int
  | SI_totp_required string ms

definition MAX_PASSWORD_INPUT :: nat where "MAX_PASSWORD_INPUT = 1024"

record password_functions =
  pf_verify :: "string \<Rightarrow> string \<Rightarrow> bool"
  pf_hash :: "string \<Rightarrow> string"
  pf_needsRehash :: "string \<Rightarrow> bool"

record sign_in_input =
  si_email :: string
  si_password :: string
  si_ip :: "string option"
  si_userAgent :: "string option"
  si_nextPath :: "string option"
  si_now :: ms

record sign_in_draws =
  sd_gen :: dbgen
  sd_token :: string
  sd_housekeeping :: bool

definition password_ok :: "password_functions \<Rightarrow> string \<Rightarrow> user_row option \<Rightarrow> bool" where
  "password_ok pf password user =
     (0 < length password \<and> length password \<le> MAX_PASSWORD_INPUT \<and>
      (case Option.bind user u_passwordHash of None \<Rightarrow> False | Some st \<Rightarrow> st \<noteq> [] \<and> pf_verify pf password st))"

text \<open>The update of the account after the password was right: last sign-in, upgraded hash.\<close>

definition touch_user :: "password_functions \<Rightarrow> string \<Rightarrow> ms \<Rightarrow> user_row \<Rightarrow> db \<Rightarrow> db" where
  "touch_user pf password now user d =
     (let rehashed = (case u_passwordHash user of None \<Rightarrow> None
            | Some st \<Rightarrow> if st \<noteq> [] \<and> pf_needsRehash pf st then or_null (pf_hash pf password) else None)
      in d\<lparr>users := update_many (\<lambda>u. u_id u = u_id user)
            (\<lambda>u. case rehashed of None \<Rightarrow> u\<lparr>u_lastLoginAt := Some now\<rparr>
                | Some h \<Rightarrow> u\<lparr>u_lastLoginAt := Some now, u_passwordHash := Some h\<rparr>) (users d)\<rparr>)"

definition signIn ::
  "(string \<Rightarrow> string) \<Rightarrow> password_functions \<Rightarrow> sign_in_draws \<Rightarrow> sign_in_input \<Rightarrow> db \<Rightarrow> db \<times> sign_in_result" where
  "signIn hashToken pf dr inp d =
     (let now = si_now inp; email = normalizeEmail (si_email inp); g = sd_gen dr in
      case checkLoginThrottle email (si_ip inp) now d of
        Blocked n \<Rightarrow>
          (auditQuietly g 0 ((audit_entry ''auth.login_throttled'')\<lparr>ae_actorEmail := Some email,
              ae_ipAddress := si_ip inp\<rparr>) d, SI_throttled n)
      | Allowed \<Rightarrow>
        let user = find_first (\<lambda>u. u_email u = email) (users d);
            passwordOk = password_ok pf (si_password inp) user
        in case user of
          None \<Rightarrow>
            (auditQuietly g 1 ((audit_entry ''auth.login_failed'')\<lparr>ae_actorEmail := Some email,
                ae_ipAddress := si_ip inp, ae_metadata := Some (JObj [(''reason'', JStr ''unknown_account'')])\<rparr>)
              (recordLoginAttempt g 0 email (si_ip inp) False now d), SI_invalid_credentials)
        | Some u \<Rightarrow>
          if \<not> passwordOk \<or> u_disabledAt u \<noteq> None then
            (auditQuietly g 1 ((audit_entry ''auth.login_failed'')\<lparr>ae_actorId := Some (u_id u),
                ae_actorEmail := Some email, ae_ipAddress := si_ip inp,
                ae_metadata := Some (JObj [(''reason'', JStr
                  (if u_disabledAt u \<noteq> None then ''account_disabled'' else ''wrong_password''))])\<rparr>)
              (recordLoginAttempt g 0 email (si_ip inp) False now d), SI_invalid_credentials)
          else
            let d1 = clearEmailFailures email (recordLoginAttempt g 0 email (si_ip inp) True now d);
                d2 = touch_user pf (si_password inp) now u d1
            in if u_totpEnabledAt u \<noteq> None then
                 let (d3, (tok, ex)) = createTotpChallenge hashToken g 1 (sd_token dr) (u_id u) (si_ip inp)
                       (si_userAgent inp) (si_nextPath inp) now d2
                 in (d3, SI_totp_required tok ex)
               else
                 let (d3, s) = createSession hashToken g 1 (sd_token dr) (u_id u) (si_ip inp) (si_userAgent inp) now d2;
                     d4 = auditQuietly g 2 ((audit_entry ''auth.login'')\<lparr>ae_orgId := cs_activeOrgId s,
                       ae_actorId := Some (u_id u), ae_actorEmail := Some (u_email u), ae_ipAddress := si_ip inp\<rparr>) d3;
                     d5 = (if sd_housekeeping dr then purgeDeadSessions now (purgeOldAttempts now d4) else d4)
                 in (d5, SI_ok (cs_token s) (cs_expiresAt s) (u_id u) (u_email u) (u_locale u)))"

section \<open>Sequences of sign-ins\<close>

fun sign_ins ::
  "(string \<Rightarrow> string) \<Rightarrow> password_functions \<Rightarrow> (sign_in_draws \<times> sign_in_input) list \<Rightarrow> db \<Rightarrow> db \<times> sign_in_result list" where
  "sign_ins h pf [] d = (d, [])"
| "sign_ins h pf ((dr, inp) # xs) d =
     (let (d1, r) = signIn h pf dr inp d; (d2, rs) = sign_ins h pf xs d1 in (d2, r # rs))"

section \<open>Lemmas\<close>

lemma helper_kept [simp]:
  "sessions (recordLoginAttempt g k e ip b now d) = sessions d"
  "users (recordLoginAttempt g k e ip b now d) = users d"
  "totpChallenges (recordLoginAttempt g k e ip b now d) = totpChallenges d"
  "memberships (recordLoginAttempt g k e ip b now d) = memberships d"
  "sessions (clearEmailFailures e d) = sessions d"
  "users (clearEmailFailures e d) = users d"
  "totpChallenges (clearEmailFailures e d) = totpChallenges d"
  "sessions (touch_user pf pw now u d) = sessions d"
  "totpChallenges (touch_user pf pw now u d) = totpChallenges d"
  "loginAttempts (touch_user pf pw now u d) = loginAttempts d"
  "sessions (purgeOldAttempts now d) = sessions d"
  by (simp_all add: recordLoginAttempt_def clearEmailFailures_def touch_user_def purgeOldAttempts_def Let_def)

text \<open>The four ways a sign-in ends.\<close>

lemma signIn_cases:
  fixes h pf dr inp d
  defines "email \<equiv> normalizeEmail (si_email inp)"
  defines "found \<equiv> find_first (\<lambda>u. u_email u = email) (users d)"
  obtains (throttled) n where "checkLoginThrottle email (si_ip inp) (si_now inp) d = Blocked n"
      "snd (signIn h pf dr inp d) = SI_throttled n" "loginAttempts (fst (signIn h pf dr inp d)) = loginAttempts d"
      "sessions (fst (signIn h pf dr inp d)) = sessions d" "totpChallenges (fst (signIn h pf dr inp d)) = totpChallenges d"
  | (refused) "checkLoginThrottle email (si_ip inp) (si_now inp) d = Allowed"
      "\<not> password_ok pf (si_password inp) found \<or> (\<exists>u. found = Some u \<and> u_disabledAt u \<noteq> None)"
      "snd (signIn h pf dr inp d) = SI_invalid_credentials"
      "loginAttempts (fst (signIn h pf dr inp d)) = loginAttempts (recordLoginAttempt (sd_gen dr) 0 email (si_ip inp) False (si_now inp) d)"
      "sessions (fst (signIn h pf dr inp d)) = sessions d" "totpChallenges (fst (signIn h pf dr inp d)) = totpChallenges d"
  | (challenged) u where "checkLoginThrottle email (si_ip inp) (si_now inp) d = Allowed"
      "found = Some u" "password_ok pf (si_password inp) found" "u_disabledAt u = None" "u_totpEnabledAt u \<noteq> None"
      "snd (signIn h pf dr inp d) = SI_totp_required (sd_token dr) (si_now inp + seconds TOTP_CHALLENGE_TTL_SECONDS)"
      "sessions (fst (signIn h pf dr inp d)) = sessions d"
      "map tc_userId (totpChallenges (fst (signIn h pf dr inp d))) = map tc_userId (totpChallenges d) @ [u_id u]"
  | (opened) u where "checkLoginThrottle email (si_ip inp) (si_now inp) d = Allowed"
      "found = Some u" "password_ok pf (si_password inp) found" "u_disabledAt u = None" "u_totpEnabledAt u = None"
      "\<exists>ex. snd (signIn h pf dr inp d) = SI_ok (sd_token dr) ex (u_id u) (u_email u) (u_locale u)"
proof (cases "checkLoginThrottle email (si_ip inp) (si_now inp) d")
  case (Blocked n)
  then show thesis by (intro throttled) (simp_all add: signIn_def email_def)
next
  case Allowed
  note al = this
  show thesis
  proof (cases found)
    case None
    then show thesis using al
      by (intro refused) (simp_all add: signIn_def Let_def email_def found_def password_ok_def)
  next
    case (Some u)
    consider "\<not> password_ok pf (si_password inp) found \<or> u_disabledAt u \<noteq> None"
      | "password_ok pf (si_password inp) found" "u_disabledAt u = None" "u_totpEnabledAt u \<noteq> None"
      | "password_ok pf (si_password inp) found" "u_disabledAt u = None" "u_totpEnabledAt u = None" by blast
    then show thesis
    proof cases
      case 1
      then show thesis using al Some
        by (intro refused) (auto simp: signIn_def Let_def email_def found_def)
    next
      case 2
      then show thesis using al Some
        by (intro challenged[of u]) (simp_all add: signIn_def Let_def email_def found_def createTotpChallenge_def insert_row_def)
    next
      case 3
      then show thesis using al Some
        by (intro opened[of u]) (simp_all add: signIn_def Let_def email_def found_def split_beta createSession_def)
    qed
  qed
qed

text \<open>A refused sign-in adds a failure; a row of the window stays in it.\<close>

lemma refused_adds_failure:
  assumes "snd (signIn h pf dr inp d) = SI_invalid_credentials" and "since \<le> si_now inp"
  shows "count_rows (email_failures (normalizeEmail (si_email inp)) since) (loginAttempts (fst (signIn h pf dr inp d)))
    = Suc (count_rows (email_failures (normalizeEmail (si_email inp)) since) (loginAttempts d))"
  using assms
  by (cases rule: signIn_cases[where h = h and pf = pf and dr = dr and inp = inp and d = d])
    (auto simp: recordLoginAttempt_def insert_row_def email_failures_def)

lemma refused_run_counts:
  assumes "list_all (\<lambda>r. r = SI_invalid_credentials) (snd (sign_ins h pf xs d))"
    and "list_all (\<lambda>(dr, inp). normalizeEmail (si_email inp) = email \<and> since \<le> si_now inp) xs"
  shows "length xs + count_rows (email_failures email since) (loginAttempts d)
    \<le> count_rows (email_failures email since) (loginAttempts (fst (sign_ins h pf xs d)))"
  using assms
proof (induction xs arbitrary: d)
  case (Cons x xs)
  obtain dr inp where x: "x = (dr, inp)" by (cases x)
  let ?d = "fst (signIn h pf dr inp d)"
  have r: "snd (signIn h pf dr inp d) = SI_invalid_credentials"
    and rs: "list_all (\<lambda>r. r = SI_invalid_credentials) (snd (sign_ins h pf xs ?d))"
    using Cons.prems(1) by (simp_all add: x Let_def split_beta)
  have e: "normalizeEmail (si_email inp) = email" "since \<le> si_now inp" using Cons.prems(2) by (simp_all add: x)
  have "length xs + count_rows (email_failures email since) (loginAttempts ?d)
      \<le> count_rows (email_failures email since) (loginAttempts (fst (sign_ins h pf xs ?d)))"
    using Cons.IH[OF rs] Cons.prems(2) by simp
  then show ?case using refused_adds_failure[OF r e(2)] e(1) by (simp add: x Let_def split_beta)
qed simp

section \<open>Properties\<close>

text \<open>C5. A sign-in that succeeds at once was neither throttled nor made without the right password, and
  the account is active and has no second factor. In every other outcome no session exists that
  did not exist before; in particular an account with a second factor only gets a challenge.\<close>

theorem sign_in_needs_every_factor:
  "case snd (signIn h pf dr inp d) of
     SI_ok tok ex uid em loc \<Rightarrow>
       checkLoginThrottle (normalizeEmail (si_email inp)) (si_ip inp) (si_now inp) d = Allowed
       \<and> (\<exists>u \<in> set (users d). u_id u = uid \<and> u_email u = normalizeEmail (si_email inp) \<and> u_disabledAt u = None
            \<and> u_totpEnabledAt u = None \<and> (\<exists>st. u_passwordHash u = Some st \<and> pf_verify pf (si_password inp) st))
   | SI_totp_required tok ex \<Rightarrow>
       sessions (fst (signIn h pf dr inp d)) = sessions d
       \<and> (\<exists>u \<in> set (users d). u_email u = normalizeEmail (si_email inp) \<and> u_totpEnabledAt u \<noteq> None
            \<and> (\<exists>st. u_passwordHash u = Some st \<and> pf_verify pf (si_password inp) st)
            \<and> map tc_userId (totpChallenges (fst (signIn h pf dr inp d))) = map tc_userId (totpChallenges d) @ [u_id u])
   | _ \<Rightarrow> sessions (fst (signIn h pf dr inp d)) = sessions d
          \<and> totpChallenges (fst (signIn h pf dr inp d)) = totpChallenges d"
proof (cases rule: signIn_cases[where h = h and pf = pf and dr = dr and inp = inp and d = d])
  case (challenged u)
  have "u \<in> set (users d) \<and> u_email u = normalizeEmail (si_email inp)"
    using find_first_SomeD[OF challenged(2)] .
  moreover have "\<exists>st. u_passwordHash u = Some st \<and> pf_verify pf (si_password inp) st"
    using challenged(2,3) by (auto simp: password_ok_def split: option.splits)
  ultimately show ?thesis using challenged(5-8) by auto
next
  case (opened u)
  have "u \<in> set (users d) \<and> u_email u = normalizeEmail (si_email inp)"
    using find_first_SomeD[OF opened(2)] .
  moreover have "\<exists>st. u_passwordHash u = Some st \<and> pf_verify pf (si_password inp) st"
    using opened(2,3) by (auto simp: password_ok_def split: option.splits)
  ultimately show ?thesis using opened(1,4-6) by (auto intro!: bexI[of _ u])
qed simp_all

text \<open>Outside the throttle, an unknown address, a wrong password and a disabled account are
  answered alike and leave the same record among the attempts: nothing a client sees tells which
  of them it met.\<close>

lemma refusals_look_alike:
  assumes "checkLoginThrottle (normalizeEmail (si_email inp)) (si_ip inp) (si_now inp) d = Allowed"
    and "\<forall>u. find_first (\<lambda>u. u_email u = normalizeEmail (si_email inp)) (users d) = Some u \<longrightarrow>
           u_disabledAt u \<noteq> None \<or> \<not> password_ok pf (si_password inp) (Some u)"
  shows "snd (signIn h pf dr inp d) = SI_invalid_credentials
    \<and> loginAttempts (fst (signIn h pf dr inp d))
       = loginAttempts d @ [\<lparr>la_id = cuid (sd_gen dr) 0, la_email = normalizeEmail (si_email inp),
           la_ipAddress = si_ip inp, la_success = False, la_createdAt = si_now inp\<rparr>]"
  using assms
  by (cases rule: signIn_cases[where h = h and pf = pf and dr = dr and inp = inp and d = d])
    (auto simp: recordLoginAttempt_def insert_row_def)

definition sample_pf :: password_functions where
  "sample_pf = \<lparr>pf_verify = (\<lambda>p st. st = p), pf_hash = id, pf_needsRehash = (\<lambda>st. False)\<rparr>"

definition sample_sign_in :: "string \<Rightarrow> string \<Rightarrow> ms \<Rightarrow> sign_in_draws \<times> sign_in_input" where
  "sample_sign_in email pw now = (\<lparr>sd_gen = sample_gen, sd_token = ''tok'', sd_housekeeping = False\<rparr>,
     \<lparr>si_email = email, si_password = pw, si_ip = None, si_userAgent = None, si_nextPath = None, si_now = now\<rparr>)"

lemma refusals_look_alike_witness:
  "snd (signIn rev sample_pf (fst (sample_sign_in ''Ann@acme.org '' ''wrong'' 7)) (snd (sample_sign_in ''Ann@acme.org '' ''wrong'' 7)) sample_db)
     = SI_invalid_credentials"
proof -
  have u: "find_first (\<lambda>u. u_email u = normalizeEmail (si_email (snd (sample_sign_in ''Ann@acme.org '' ''wrong'' 7)))) (users sample_db)
      = Some (sample_user ''ann'' ''ann@acme.org'')" by code_simp
  have "\<not> password_ok sample_pf (si_password (snd (sample_sign_in ''Ann@acme.org '' ''wrong'' 7))) (Some (sample_user ''ann'' ''ann@acme.org''))"
    by code_simp
  moreover have "checkLoginThrottle (normalizeEmail (si_email (snd (sample_sign_in ''Ann@acme.org '' ''wrong'' 7))))
      (si_ip (snd (sample_sign_in ''Ann@acme.org '' ''wrong'' 7))) (si_now (snd (sample_sign_in ''Ann@acme.org '' ''wrong'' 7))) sample_db = Allowed"
    by code_simp
  ultimately show ?thesis
    by (intro refusals_look_alike[THEN conjunct1]) (simp_all add: u)
qed

text \<open>After eight refused sign-ins for an address within a quarter of an hour, from whatever
  sources and in whatever spelling of the address, the next one is throttled, even with the right
  password.\<close>

lemma sign_in_locks_out:
  assumes "list_all (\<lambda>r. r = SI_invalid_credentials) (snd (sign_ins h pf xs d))" and "8 \<le> length xs"
    and "list_all (\<lambda>(dr, i). normalizeEmail (si_email i) = normalizeEmail (si_email inp)
           \<and> si_now inp - 15 * 60 * 1000 \<le> si_now i) xs"
  shows "\<exists>n. snd (signIn h pf dr inp (fst (sign_ins h pf xs d))) = SI_throttled n"
proof -
  let ?d = "fst (sign_ins h pf xs d)" and ?e = "normalizeEmail (si_email inp)"
  have "8 \<le> count_rows (email_failures ?e (si_now inp - LOGIN_WINDOW_SECONDS * 1000)) (loginAttempts ?d)"
    using refused_run_counts[OF assms(1), of ?e "si_now inp - LOGIN_WINDOW_SECONDS * 1000"] assms(2,3)
    by (simp add: LOGIN_WINDOW_SECONDS_def)
  then have "checkLoginThrottle ?e (si_ip inp) (si_now inp) ?d \<noteq> Allowed"
    by (simp add: checkLoginThrottle_Allowed_iff LOGIN_MAX_FAILURES_PER_EMAIL_def)
  then show ?thesis
    by (cases rule: signIn_cases[where h = h and pf = pf and dr = dr and inp = inp and d = ?d]) auto
qed

definition eight_wrong :: "(sign_in_draws \<times> sign_in_input) list" where
  "eight_wrong = map (\<lambda>t. sample_sign_in ''ann@acme.org'' ''guess'' t) [1, 2, 3, 4, 5, 6, 7, 8]"

lemma sign_in_locks_out_witness:
  "\<exists>n. snd (signIn rev sample_pf (fst (sample_sign_in ''ANN@acme.org'' ''pw'' 1000)) (snd (sample_sign_in ''ANN@acme.org'' ''pw'' 1000))
      (fst (sign_ins rev sample_pf eight_wrong sample_db))) = SI_throttled n"
proof (rule sign_in_locks_out)
  show "list_all (\<lambda>r. r = SI_invalid_credentials) (snd (sign_ins rev sample_pf eight_wrong sample_db))" by code_simp
  show "8 \<le> length eight_wrong" by code_simp
  show "list_all (\<lambda>(dr, i). normalizeEmail (si_email i) = normalizeEmail (si_email (snd (sample_sign_in ''ANN@acme.org'' ''pw'' 1000)))
      \<and> si_now (snd (sample_sign_in ''ANN@acme.org'' ''pw'' 1000)) - 15 * 60 * 1000 \<le> si_now i) eight_wrong" by code_simp
qed

end
