(* ===== verification/Graph.thy ===== *)
theory Graph
  imports Schema
begin

text \<open>
  Dependency analysis, \<open>src/modules/topology/graph.ts\<close>: breadth-first reachability, the blast radius of a
  failure and the root-cause candidates. An edge \<open>parent \<rightarrow> child\<close> says that the parent depends on the
  child. A JavaScript \<open>Map\<close> is an association list in insertion order, a \<open>Set\<close> a list without
  duplicates.
\<close>

record edge =
  parent :: ident
  child :: ident

type_synonym index = "(ident \<times> ident list) list"

definition map_get :: "index \<Rightarrow> ident \<Rightarrow> ident list" where
  "map_get ix n = (case map_of ix n of None \<Rightarrow> [] | Some l \<Rightarrow> l)"

text \<open>\<open>list.push\<close> when the key is present, \<open>index.set\<close> with a fresh array otherwise.\<close>

fun index_push :: "ident \<Rightarrow> ident \<Rightarrow> index \<Rightarrow> index" where
  "index_push k v [] = [(k, [v])]"
| "index_push k v ((k', l) # ix) = (if k = k' then (k', l @ [v]) # ix else (k', l) # index_push k v ix)"

definition buildIndex :: "edge list \<Rightarrow> (edge \<Rightarrow> ident) \<Rightarrow> (edge \<Rightarrow> ident) \<Rightarrow> index" where
  "buildIndex edges from to = foldl (\<lambda>ix e. index_push (from e) (to e) ix) [] edges"

text \<open>The inner loop over the neighbours: the ones not visited yet, each once.\<close>

fun fresh :: "ident list \<Rightarrow> ident list \<Rightarrow> ident list" where
  "fresh visited [] = []"
| "fresh visited (n # ns) = (if n \<in> set visited then fresh visited ns else n # fresh (n # visited) ns)"

lemma fresh_props: "set (fresh vis ns) = set ns - set vis \<and> distinct (fresh vis ns)"
  by (induction vis ns rule: fresh.induct) auto

text \<open>
  The queue loop. It ends because every iteration takes one node off the queue and every node
  added to the queue leaves the finite set of nodes not visited yet.
\<close>

definition targets :: "index \<Rightarrow> ident set" where
  "targets ix = set (concat (map snd ix))"

lemma map_get_targets: "set (map_get ix n) \<subseteq> targets ix"
  by (cases "map_of ix n") (force simp: map_get_def targets_def dest: map_of_SomeD)+

function reach_loop :: "index \<Rightarrow> ident list \<Rightarrow> ident list \<Rightarrow> ident list \<Rightarrow> ident list" where
  "reach_loop ix visited [] order = order"
| "reach_loop ix visited (node # queue) order =
     (let new = fresh visited (map_get ix node)
      in reach_loop ix (visited @ new) (queue @ new) (order @ new))"
  by pat_completeness auto

termination
proof (relation "measure (\<lambda>(ix, visited, queue, order). card (targets ix - set visited) + length queue)")
  fix ix visited node queue order new
  assume new: "(new :: ident list) = fresh visited (map_get ix node)"
  have sub: "set new \<subseteq> targets ix - set visited" and dist: "distinct new"
    using fresh_props[of visited "map_get ix node"] map_get_targets[of ix node] by (auto simp: new)
  have fin: "finite (targets ix - set visited)" by (simp add: targets_def)
  have "card (targets ix - set (visited @ new)) = card (targets ix - set visited - set new)"
    by (simp add: Diff_Un Int_Diff[symmetric] Diff_Int_distrib2[symmetric] Un_Diff Diff_eq inf_assoc)
  also have "\<dots> = card (targets ix - set visited) - length new"
    using sub dist fin by (simp add: card_Diff_subset distinct_card)
  moreover have "length new \<le> card (targets ix - set visited)"
    using card_mono[OF fin sub] by (simp add: distinct_card[OF dist])
  ultimately show "((ix, visited @ new, queue @ new, order @ new), (ix, visited, node # queue, order))
      \<in> measure (\<lambda>(ix, visited, queue, order). card (targets ix - set visited) + length queue)" by simp
qed simp

definition reach :: "ident \<Rightarrow> index \<Rightarrow> ident list" where
  "reach start nxt = reach_loop nxt [start] [start] []"

definition blastRadius :: "edge list \<Rightarrow> ident \<Rightarrow> ident list" where
  "blastRadius edges failedNodeId = reach failedNodeId (buildIndex edges child parent)"

definition dependenciesOf :: "edge list \<Rightarrow> ident \<Rightarrow> ident list" where
  "dependenciesOf edges nodeId = reach nodeId (buildIndex edges parent child)"

text \<open>
  \<open>localeCompare\<close> compares by a collation key, a parameter. Sorting by radius after sorting by name
  is sorting by the pair, because the sort is stable.
\<close>

definition rootCauseCandidates ::
  "(ident \<Rightarrow> 'k::linorder) \<Rightarrow> edge list \<Rightarrow> ident list \<Rightarrow> ident list" where
  "rootCauseCandidates collation edges unhealthy =
     (let dependencies = buildIndex edges parent child;
          kept = filter (\<lambda>node. \<not> list_ex (\<lambda>dep. dep \<in> set unhealthy) (map_get dependencies node)) unhealthy;
          scored = map (\<lambda>node. (node, length (blastRadius edges node))) kept
      in map fst (order_desc (\<lambda>x. int (snd x)) (order_asc (\<lambda>x. collation (fst x)) scored)))"

section \<open>The index\<close>

lemma map_get_push: "map_get (index_push k v ix) n = (if n = k then map_get ix n @ [v] else map_get ix n)"
  by (induction k v ix rule: index_push.induct) (auto simp: map_get_def)

lemma buildIndex_get: "map_get (buildIndex edges f t) n = map t (filter (\<lambda>e. f e = n) edges)"
proof -
  have "map_get (foldl (\<lambda>ix e. index_push (f e) (t e) ix) ix edges) n
      = map_get ix n @ map t (filter (\<lambda>e. f e = n) edges)" for ix
    by (induction edges arbitrary: ix) (simp_all add: map_get_push)
  from this[of "[]"] show ?thesis by (simp add: buildIndex_def map_get_def)
qed

section \<open>Breadth-first search\<close>

definition steps :: "index \<Rightarrow> (ident \<times> ident) set" where
  "steps ix = {(a, b). b \<in> set (map_get ix a)}"

text \<open>
  The loop invariant: visited nodes are reachable, the order lists them without the start, and
  the neighbours of every visited node outside the queue are visited.
\<close>

definition bfs_inv :: "ident \<Rightarrow> index \<Rightarrow> ident list \<Rightarrow> ident list \<Rightarrow> ident list \<Rightarrow> bool" where
  "bfs_inv start ix visited queue order =
     (visited = start # order \<and> distinct visited \<and> set queue \<subseteq> set visited
      \<and> (\<forall>v \<in> set visited. (start, v) \<in> (steps ix)\<^sup>*)
      \<and> (\<forall>v \<in> set visited - set queue. set (map_get ix v) \<subseteq> set visited))"

lemma bfs_step:
  assumes inv: "bfs_inv start ix visited (node # queue) order"
  defines "new \<equiv> fresh visited (map_get ix node)"
  shows "bfs_inv start ix (visited @ new) (queue @ new) (order @ new)"
proof -
  have new: "set new = set (map_get ix node) - set visited" "distinct new"
    using fresh_props[of visited "map_get ix node"] by (auto simp: new_def)
  have node: "node \<in> set visited" using inv unfolding bfs_inv_def by auto
  have "(start, v) \<in> (steps ix)\<^sup>*" if "v \<in> set new" for v
  proof -
    have "(node, v) \<in> steps ix" using that new(1) by (auto simp: steps_def)
    moreover have "(start, node) \<in> (steps ix)\<^sup>*" using inv node by (simp add: bfs_inv_def)
    ultimately show ?thesis by (rule rtrancl_into_rtrancl[rotated])
  qed
  moreover have "set (map_get ix v) \<subseteq> set (visited @ new)" if "v \<in> set (visited @ new) - set (queue @ new)" for v
  proof (cases "v = node")
    case True
    then show ?thesis using new(1) by auto
  next
    case False
    then have "v \<in> set visited - set (node # queue)" using that by auto
    then have "set (map_get ix v) \<subseteq> set visited" using inv unfolding bfs_inv_def by blast
    then show ?thesis by auto
  qed
  ultimately show ?thesis using inv new by (auto simp: bfs_inv_def)
qed

lemma reach_loop_correct:
  "bfs_inv start ix visited queue order \<Longrightarrow>
     set (start # reach_loop ix visited queue order) = {v. (start, v) \<in> (steps ix)\<^sup>*}
     \<and> distinct (start # reach_loop ix visited queue order)"
proof (induction ix visited queue order rule: reach_loop.induct)
  case (1 ix visited order)
  note inv = "1.prems"[unfolded bfs_inv_def]
  have vis: "visited = start # order" "distinct visited" "\<forall>v \<in> set visited. (start, v) \<in> (steps ix)\<^sup>*" using inv by blast+
  have closed: "set (map_get ix v) \<subseteq> set visited" if "v \<in> set visited" for v
    using inv that by (metis Diff_empty empty_set)
  have "v \<in> set visited" if "(start, v) \<in> (steps ix)\<^sup>*" for v
    using that
  proof (induction rule: rtrancl_induct)
    case base
    then show ?case by (simp add: vis(1))
  next
    case (step y z)
    then show ?case using closed[of y] by (auto simp: steps_def)
  qed
  then have "set visited = {v. (start, v) \<in> (steps ix)\<^sup>*}" using vis(3) by blast
  then show ?case using vis(1,2) by simp
next
  case (2 ix visited node queue order)
  from "2.IH"[OF refl bfs_step[OF "2.prems"]] show ?case by (simp add: Let_def)
qed

lemma reach_correct:
  "set (reach start ix) = {v. v \<noteq> start \<and> (start, v) \<in> (steps ix)\<^sup>*} \<and> distinct (reach start ix)"
proof -
  have "bfs_inv start ix [start] [start] []" by (simp add: bfs_inv_def)
  from reach_loop_correct[OF this] show ?thesis by (auto simp: reach_def)
qed

definition depends :: "edge list \<Rightarrow> (ident \<times> ident) set" where
  "depends edges = (\<lambda>e. (parent e, child e)) ` set edges"

lemma steps_buildIndex:
  "steps (buildIndex edges parent child) = depends edges"
  "steps (buildIndex edges child parent) = (depends edges)\<inverse>"
  by (auto simp: steps_def buildIndex_get depends_def)

lemma trancl_other: "a \<noteq> b \<Longrightarrow> (a, b) \<in> r\<^sup>+ \<longleftrightarrow> (a, b) \<in> r\<^sup>*"
  by (metis rtranclD trancl_into_rtrancl)

lemma blastRadius_set: "set (blastRadius edges n) = {v. v \<noteq> n \<and> (v, n) \<in> (depends edges)\<^sup>+}"
  using reach_correct[of n "buildIndex edges child parent"] trancl_other[of _ n "depends edges"]
  by (auto simp: blastRadius_def steps_buildIndex rtrancl_converse)

lemma dependenciesOf_set: "set (dependenciesOf edges n) = {v. v \<noteq> n \<and> (n, v) \<in> (depends edges)\<^sup>+}"
  using reach_correct[of n "buildIndex edges parent child"] trancl_other[of n _ "depends edges"]
  by (auto simp: dependenciesOf_def steps_buildIndex)

lemma blastRadius_distinct: "distinct (blastRadius edges n)"
  and dependenciesOf_distinct: "distinct (dependenciesOf edges n)"
  using reach_correct by (simp_all add: blastRadius_def dependenciesOf_def)

section \<open>Properties\<close>

text \<open>The blast radius of a node lists, each once, exactly the other nodes that depend on it directly
  or transitively, on any graph, cyclic or not; and the dependencies of a node are the other
  nodes it depends on.\<close>

lemma blast_radius_exact:
  "set (blastRadius edges n) = {v. v \<noteq> n \<and> (v, n) \<in> (depends edges)\<^sup>+} \<and> distinct (blastRadius edges n)
   \<and> set (dependenciesOf edges n) = {v. v \<noteq> n \<and> (n, v) \<in> (depends edges)\<^sup>+} \<and> distinct (dependenciesOf edges n)"
  by (simp add: blastRadius_set dependenciesOf_set blastRadius_distinct dependenciesOf_distinct)

lemma candidates_set:
  "set (rootCauseCandidates coll edges bad) = {n \<in> set bad. \<forall>v. (n, v) \<in> depends edges \<longrightarrow> v \<notin> set bad}"
  by (fastforce simp: rootCauseCandidates_def Let_def buildIndex_get list_ex_iff depends_def image_iff)

lemma candidates_sorted:
  "sorted_wrt (\<lambda>a b. length (blastRadius edges b) \<le> length (blastRadius edges a)) (rootCauseCandidates coll edges bad)"
proof -
  define ns where "ns = filter (\<lambda>node. \<not> list_ex (\<lambda>dep. dep \<in> set bad) (map_get (buildIndex edges parent child) node)) bad"
  define xs where "xs = order_desc (\<lambda>x. int (snd x)) (order_asc (\<lambda>x. coll (fst x))
      (map (\<lambda>node. (node, length (blastRadius edges node))) ns))"
  have "sorted (map (\<lambda>x. - int (snd x)) xs)" by (simp add: xs_def order_desc_def)
  then have srt: "sorted_wrt (\<lambda>x y. snd y \<le> snd x) xs" by (simp add: sorted_wrt_map)
  have "snd x = length (blastRadius edges (fst x))" if "x \<in> set xs" for x
    using that by (auto simp: xs_def)
  then have "sorted_wrt (\<lambda>x y. length (blastRadius edges (fst y)) \<le> length (blastRadius edges (fst x))) xs"
    using srt by (metis (mono_tags, lifting) sorted_wrt_mono_rel)
  then show ?thesis by (simp add: rootCauseCandidates_def Let_def sorted_wrt_map xs_def ns_def)
qed

text \<open>C18. The root-cause candidates are exactly the unhealthy nodes none of whose direct dependencies is
  unhealthy, the one that explains most breakage first. Unless unhealthy nodes depend on each other
  in a circle, they explain every symptom: each unhealthy node is a candidate or depends,
  through unhealthy nodes only, on one.\<close>

theorem root_causes_explain_all:
  assumes "acyclic {(a, b) \<in> depends edges. a \<in> set unhealthy \<and> b \<in> set unhealthy}"
  shows "set (rootCauseCandidates coll edges unhealthy)
       = {n \<in> set unhealthy. \<forall>v. (n, v) \<in> depends edges \<longrightarrow> v \<notin> set unhealthy}
    \<and> sorted_wrt (\<lambda>a b. length (blastRadius edges b) \<le> length (blastRadius edges a)) (rootCauseCandidates coll edges unhealthy)
    \<and> (\<forall>n \<in> set unhealthy. \<exists>c \<in> set (rootCauseCandidates coll edges unhealthy).
         (n, c) \<in> {(a, b) \<in> depends edges. a \<in> set unhealthy \<and> b \<in> set unhealthy}\<^sup>*)"
proof -
  let ?r = "{(a, b) \<in> depends edges. a \<in> set unhealthy \<and> b \<in> set unhealthy}"
  have "finite ?r" by (rule finite_subset[of _ "set unhealthy \<times> set unhealthy"]) auto
  then have wf: "wf (?r\<inverse>)" using assms by (rule finite_acyclic_wf_converse)
  have "n \<in> set unhealthy \<Longrightarrow> \<exists>c \<in> set (rootCauseCandidates coll edges unhealthy). (n, c) \<in> ?r\<^sup>*" for n
  proof (induction n rule: wf_induct_rule[OF wf])
    case (1 n)
    show ?case
    proof (cases "n \<in> set (rootCauseCandidates coll edges unhealthy)")
      case True
      then show ?thesis by blast
    next
      case False
      then obtain v where v: "(n, v) \<in> ?r" using "1.prems" by (auto simp: candidates_set)
      then obtain c where "c \<in> set (rootCauseCandidates coll edges unhealthy)" "(v, c) \<in> ?r\<^sup>*"
        using "1.IH"[of v] by auto
      then show ?thesis using v by (meson converse_rtrancl_into_rtrancl)
    qed
  qed
  then show ?thesis using candidates_set[of coll edges unhealthy] candidates_sorted[of edges coll unhealthy] by blast
qed

text \<open>A web service and a cache that both need the database, all three failing.\<close>

definition sample_edges :: "edge list" where
  "sample_edges = [\<lparr>parent = ''web'', child = ''cache''\<rparr>, \<lparr>parent = ''web'', child = ''db''\<rparr>, \<lparr>parent = ''cache'', child = ''db''\<rparr>]"

theorem root_causes_explain_all_witness:
  "\<exists>c \<in> set (rootCauseCandidates (\<lambda>n. length n) sample_edges [''web'', ''cache'', ''db'']).
     (''web'', c) \<in> {(a, b) \<in> depends sample_edges. a \<in> set [''web'', ''cache'', ''db''] \<and> b \<in> set [''web'', ''cache'', ''db'']}\<^sup>*"
proof -
  have dep: "depends sample_edges = {(''web'', ''cache''), (''web'', ''db''), (''cache'', ''db'')}"
    by (auto simp: depends_def sample_edges_def)
  let ?r = "{(a, b) \<in> depends sample_edges. a \<in> set [''web'', ''cache'', ''db''] \<and> b \<in> set [''web'', ''cache'', ''db'']}"
  have "?r \<subseteq> (measure (\<lambda>n. if n = ''web'' then 2 else if n = ''cache'' then 1 else 0))\<inverse>" by (auto simp: dep)
  then have "acyclic ?r" by (meson acyclic_subset acyclic_converse wf_acyclic wf_measure)
  from root_causes_explain_all[OF this, of "\<lambda>n. length n", THEN conjunct2, THEN conjunct2, THEN bspec, of "''web''"]
  show ?thesis by simp
qed

text \<open>Two failing nodes that depend on each other hide one another: no candidate is reported.\<close>

lemma cyclic_failure_has_no_candidate:
  "rootCauseCandidates (\<lambda>n. length n) [\<lparr>parent = ''a'', child = ''b''\<rparr>, \<lparr>parent = ''b'', child = ''a''\<rparr>] [''a'', ''b''] = []"
  by code_simp

end
