(* ===== verification/Layout.thy ===== *)
theory Layout
  imports Graph "HOL-Library.Product_Lexorder" "HOL-Library.Multiset"
begin

text \<open>
  The drawing of the dependency map, \<open>backEdges\<close> and \<open>layeredLayout\<close> of
  \<open>src/modules/topology/graph.ts\<close>: a depth-first walk finds the edges that close a cycle, a
  topological walk over the rest gives each node its layer, and each layer is ordered by the mean
  position of its parents.

  A JavaScript \<open>Set\<close> of edge objects compares by identity, so an edge object is a pair of its
  identity (its place in the input) and its contents. The two walks are loops over a stack and a
  queue; their termination is part of their definitions.
\<close>

type_synonym oedge = "nat \<times> edge"

section \<open>Edges that close a cycle\<close>

datatype mark = M_open | M_done

definition out_edges :: "oedge list \<Rightarrow> ident \<Rightarrow> oedge list" where
  "out_edges es n = filter (\<lambda>e. parent (snd e) = n) es"

definition set_add :: "'a \<Rightarrow> 'a list \<Rightarrow> 'a list" where
  "set_add x s = (if x \<in> set s then s else s @ [x])"

text \<open>
  What is left to do: the edges not scanned yet of the nodes on the stack, and the nodes that carry no
  mark, with all their edges.
\<close>

definition pending_nodes :: "oedge list \<Rightarrow> (ident \<Rightarrow> mark option) \<Rightarrow> ident set" where
  "pending_nodes es st = {c \<in> (\<lambda>e. child (snd e)) ` set es. st c = None}"

definition dfs_left :: "oedge list \<Rightarrow> (ident \<Rightarrow> mark option) \<Rightarrow> (ident \<times> nat) list \<Rightarrow> nat" where
  "dfs_left es st stk = sum_list (map (\<lambda>(n, i). Suc (length (out_edges es n) - i)) stk)
     + (\<Sum>c \<in> pending_nodes es st. length (out_edges es c) + 2)"

lemma finite_pending [simp]: "finite (pending_nodes es st)"
  by (simp add: pending_nodes_def)

lemma pending_mark:
  "pending_nodes es (st(n \<mapsto> m)) = pending_nodes es st - {n}"
  by (auto simp: pending_nodes_def)

lemma out_edges_child: "i < length (out_edges es n) \<Longrightarrow> out_edges es n ! i \<in> set es"
  using nth_mem[of i "out_edges es n"] by (auto simp: out_edges_def)

function dfs_loop ::
  "oedge list \<Rightarrow> (ident \<Rightarrow> mark option) \<Rightarrow> (ident \<times> nat) list \<Rightarrow> oedge list
   \<Rightarrow> (ident \<Rightarrow> mark option) \<times> oedge list" where
  "dfs_loop es st [] bk = (st, bk)"
| "dfs_loop es st ((n, i) # stk) bk =
     (if length (out_edges es n) \<le> i then dfs_loop es (st(n \<mapsto> M_done)) stk bk
      else let e = out_edges es n ! i; c = child (snd e) in
        case st c of
          Some M_open \<Rightarrow> dfs_loop es st ((n, Suc i) # stk) (set_add e bk)
        | Some M_done \<Rightarrow> dfs_loop es st ((n, Suc i) # stk) bk
        | None \<Rightarrow> dfs_loop es (st(c \<mapsto> M_open)) ((c, 0) # (n, Suc i) # stk) bk)"
  by pat_completeness auto

termination
proof (relation "measure (\<lambda>(es, st, stk, bk). dfs_left es st stk)")
  fix es :: "oedge list" and st :: "ident \<Rightarrow> mark option" and n i stk and bk :: "oedge list"
  assume "length (out_edges es n) \<le> i"
  have "(\<Sum>c \<in> pending_nodes es st - {n}. length (out_edges es c) + 2)
      \<le> (\<Sum>c \<in> pending_nodes es st. length (out_edges es c) + 2)"
    by (rule sum_mono2) auto
  then show "((es, st(n \<mapsto> M_done), stk, bk), es, st, (n, i) # stk, bk)
      \<in> measure (\<lambda>(es, st, stk, bk). dfs_left es st stk)"
    by (simp add: dfs_left_def pending_mark)
next
  fix es :: "oedge list" and st :: "ident \<Rightarrow> mark option" and n i stk and bk :: "oedge list" and e c
  assume i: "\<not> length (out_edges es n) \<le> i" and e: "e = out_edges es n ! i" and c: "c = child (snd e)"
    and new: "st c = None"
  have "e \<in> set es" using i e by (simp add: out_edges_child)
  then have mem: "c \<in> pending_nodes es st" using c new by (simp add: pending_nodes_def)
  have "(\<Sum>c \<in> pending_nodes es st. length (out_edges es c) + 2)
      = length (out_edges es c) + 2 + (\<Sum>c \<in> pending_nodes es st - {c}. length (out_edges es c) + 2)"
    by (rule sum.remove[OF finite_pending mem])
  then show "((es, st(c \<mapsto> M_open), (c, 0) # (n, Suc i) # stk, bk), es, st, (n, i) # stk, bk)
      \<in> measure (\<lambda>(es, st, stk, bk). dfs_left es st stk)"
    using i by (simp add: dfs_left_def pending_mark)
qed (auto simp: dfs_left_def)

text \<open>The outer loop over the nodes, in input order.\<close>

definition dfs_root ::
  "oedge list \<Rightarrow> ident \<Rightarrow> (ident \<Rightarrow> mark option) \<times> oedge list \<Rightarrow> (ident \<Rightarrow> mark option) \<times> oedge list" where
  "dfs_root es r s = (if fst s r \<noteq> None then s
     else dfs_loop es ((fst s)(r \<mapsto> M_open)) [(r, 0)] (snd s))"

definition backEdges :: "ident list \<Rightarrow> oedge list \<Rightarrow> oedge list" where
  "backEdges nodeIds es = snd (fold (dfs_root es) nodeIds (Map.empty, []))"

section \<open>What is left is acyclic\<close>

definition odepends :: "oedge list \<Rightarrow> (ident \<times> ident) set" where
  "odepends es = (\<lambda>e. (parent (snd e), child (snd e))) ` set es"

text \<open>
  The invariant of the walk. Nodes on the stack are the open ones; every edge scanned so far is a
  back edge, leads to a finished node, or leads to the next node on the stack; and the finished nodes
  can be ranked so that every other edge out of one of them leads to a smaller rank.
\<close>

definition ranked :: "oedge list \<Rightarrow> (ident \<Rightarrow> mark option) \<Rightarrow> oedge list \<Rightarrow> (ident \<Rightarrow> nat) \<Rightarrow> bool" where
  "ranked es st bk rank = (\<forall>e \<in> set es. st (parent (snd e)) = Some M_done \<longrightarrow> e \<notin> set bk \<longrightarrow>
     st (child (snd e)) = Some M_done \<and> rank (child (snd e)) < rank (parent (snd e)))"

fun scanned :: "oedge list \<Rightarrow> (ident \<Rightarrow> mark option) \<Rightarrow> oedge list \<Rightarrow> ident option \<Rightarrow> (ident \<times> nat) list \<Rightarrow> bool" where
  "scanned es st bk abv [] = True"
| "scanned es st bk abv ((n, i) # stk) =
     ((\<forall>j < min i (length (out_edges es n)). let e = out_edges es n ! j in
         e \<in> set bk \<or> st (child (snd e)) = Some M_done \<or> Some (child (snd e)) = abv)
      \<and> scanned es st bk (Some n) stk)"

definition dfs_inv :: "oedge list \<Rightarrow> (ident \<Rightarrow> mark option) \<Rightarrow> (ident \<times> nat) list \<Rightarrow> oedge list \<Rightarrow> bool" where
  "dfs_inv es st stk bk \<longleftrightarrow> distinct (map fst stk) \<and> (\<forall>n. st n = Some M_open \<longleftrightarrow> n \<in> fst ` set stk)
     \<and> scanned es st bk None stk \<and> (\<exists>rank. ranked es st bk rank)"

lemma set_set_add [simp]: "set (set_add x s) = insert x (set s)"
  by (auto simp: set_add_def)

lemma scanned_mono:
  assumes "scanned es st bk ab stk" and "set bk \<subseteq> set bk'"
    and "\<And>n. st n = Some M_done \<Longrightarrow> st' n = Some M_done"
    and "\<And>n. ab = Some n \<Longrightarrow> ab' = Some n \<or> st' n = Some M_done"
  shows "scanned es st' bk' ab' stk"
  using assms(1,4)
proof (induction stk arbitrary: ab ab')
  case (Cons f stk)
  obtain n i where f: "f = (n, i)" by (cases f)
  have "scanned es st' bk' (Some n) stk" using Cons.prems(1) f by (intro Cons.IH[of "Some n"]) auto
  then show ?case using Cons.prems assms(2,3) f by (fastforce simp: Let_def)
qed simp

text \<open>Finishing a node all of whose edges are scanned keeps the ranking.\<close>

lemma ranked_finish:
  assumes r: "ranked es st bk rank" and n: "st n \<noteq> Some M_done"
    and out: "\<And>e. e \<in> set (out_edges es n) \<Longrightarrow> e \<in> set bk \<or> st (child (snd e)) = Some M_done"
  shows "\<exists>rank'. ranked es (st(n \<mapsto> M_done)) bk rank'"
proof -
  let ?top = "Suc (sum_list (map (\<lambda>e. rank (child (snd e))) es))"
  have below: "rank (child (snd e)) < ?top" if "e \<in> set es" for e
    using that member_le_sum_list[of "rank (child (snd e))" "map (\<lambda>e. rank (child (snd e))) es"]
    by (auto simp: less_Suc_eq_le)
  have "ranked es (st(n \<mapsto> M_done)) bk (rank(n := ?top))"
    unfolding ranked_def
  proof (intro ballI impI)
    fix e
    assume e: "e \<in> set es" and p: "(st(n \<mapsto> M_done)) (parent (snd e)) = Some M_done" and nb: "e \<notin> set bk"
    have "st (child (snd e)) = Some M_done \<and> (parent (snd e) \<noteq> n \<longrightarrow> rank (child (snd e)) < rank (parent (snd e)))"
    proof (cases "parent (snd e) = n")
      case True
      then have "e \<in> set (out_edges es n)" using e by (simp add: out_edges_def)
      from out[OF this] show ?thesis using nb True by simp
    next
      case False
      then show ?thesis using r e p nb by (simp add: ranked_def)
    qed
    moreover from this have "child (snd e) \<noteq> n" using n by auto
    ultimately show "(st(n \<mapsto> M_done)) (child (snd e)) = Some M_done
        \<and> (rank(n := ?top)) (child (snd e)) < (rank(n := ?top)) (parent (snd e))"
      using below[OF e] by auto
  qed
  then show ?thesis by blast
qed

lemma dfs_inv_finish:
  assumes "dfs_inv es st ((n, i) # stk) bk" and "length (out_edges es n) \<le> i"
  shows "dfs_inv es (st(n \<mapsto> M_done)) stk bk"
proof -
  from assms(1) obtain rank where I: "distinct (map fst ((n, i) # stk))"
      "\<And>m. st m = Some M_open \<longleftrightarrow> m \<in> fst ` set ((n, i) # stk)"
      "scanned es st bk None ((n, i) # stk)" "ranked es st bk rank"
    by (auto simp: dfs_inv_def)
  have "st n = Some M_open" using I(2)[of n] by simp
  moreover have "e \<in> set bk \<or> st (child (snd e)) = Some M_done" if "e \<in> set (out_edges es n)" for e
    using I(3) assms(2) that by (auto simp: in_set_conv_nth Let_def)
  ultimately have "\<exists>rank'. ranked es (st(n \<mapsto> M_done)) bk rank'" by (intro ranked_finish[OF I(4)]) auto
  moreover have "scanned es (st(n \<mapsto> M_done)) bk None stk"
    using I(3) by (auto intro: scanned_mono[of es st bk "Some n" stk])
  moreover have "(st(n \<mapsto> M_done)) m = Some M_open \<longleftrightarrow> m \<in> fst ` set stk" for m
    using I(1) I(2)[of m] by auto
  ultimately show ?thesis using I(1) by (simp add: dfs_inv_def)
qed

lemma dfs_inv_scan:
  assumes "dfs_inv es st ((n, i) # stk) bk" and i: "i < length (out_edges es n)"
    and e: "e = out_edges es n ! i" and c: "c = child (snd e)"
  shows "st c = Some M_open \<Longrightarrow> dfs_inv es st ((n, Suc i) # stk) (set_add e bk)"
    and "st c = Some M_done \<Longrightarrow> dfs_inv es st ((n, Suc i) # stk) bk"
    and "st c = None \<Longrightarrow> dfs_inv es (st(c \<mapsto> M_open)) ((c, 0) # (n, Suc i) # stk) bk"
proof -
  from assms(1) obtain rank where I: "distinct (map fst ((n, i) # stk))"
      "\<And>m. st m = Some M_open \<longleftrightarrow> m \<in> fst ` set ((n, i) # stk)"
      "scanned es st bk None ((n, i) # stk)" "ranked es st bk rank"
    by (auto simp: dfs_inv_def)
  have top: "out_edges es n ! j \<in> set bk \<or> st (child (snd (out_edges es n ! j))) = Some M_done" if "j < i" for j
    using I(3) i that by (auto simp: Let_def)
  have rest: "scanned es st bk (Some n) stk" using I(3) by simp
  {
    assume "st c = Some M_open"
    have "ranked es st (set_add e bk) rank" using I(4) by (auto simp: ranked_def)
    moreover have "scanned es st (set_add e bk) None ((n, Suc i) # stk)"
      using top e rest by (fastforce simp: Let_def less_Suc_eq intro: scanned_mono[of es st bk "Some n" stk])
    ultimately show "dfs_inv es st ((n, Suc i) # stk) (set_add e bk)"
      using I(1,2) by (auto simp: dfs_inv_def)
  next
    assume d: "st c = Some M_done"
    have "scanned es st bk None ((n, Suc i) # stk)"
      using top e c d rest by (auto simp: Let_def less_Suc_eq)
    then show "dfs_inv es st ((n, Suc i) # stk) bk"
      using I(1,2,4) by (auto simp: dfs_inv_def)
  next
    assume new: "st c = None"
    let ?st = "st(c \<mapsto> M_open)"
    have "ranked es ?st bk rank" using I(4) new by (auto simp: ranked_def split: if_splits)
    moreover have "scanned es ?st bk None ((c, 0) # (n, Suc i) # stk)"
    proof -
      have "scanned es ?st bk (Some n) stk" by (rule scanned_mono[OF rest]) (auto simp: new)
      moreover have "out_edges es n ! j \<in> set bk \<or> ?st (child (snd (out_edges es n ! j))) = Some M_done
          \<or> child (snd (out_edges es n ! j)) = c" if "j < Suc i" for j
        using that top[of j] e c new by (auto simp: less_Suc_eq)
      ultimately show ?thesis by (auto simp: Let_def)
    qed
    moreover have "c \<notin> fst ` set ((n, i) # stk)" using I(2)[of c] new by simp
    ultimately show "dfs_inv es ?st ((c, 0) # (n, Suc i) # stk) bk"
      using I(1,2) by (auto simp: dfs_inv_def)
  }
qed

lemma dfs_loop_inv:
  "dfs_inv es st stk bk \<Longrightarrow> (case dfs_loop es st stk bk of (st', bk') \<Rightarrow> dfs_inv es st' [] bk')"
proof (induction es st stk bk rule: dfs_loop.induct)
  case (2 es st n i stk bk)
  show ?case
  proof (cases "length (out_edges es n) \<le> i")
    case True
    from "2.IH"(1)[OF True dfs_inv_finish[OF "2.prems" True]] True show ?thesis by (simp add: fun_upd_def)
  next
    case False
    let ?e = "out_edges es n ! i"
    note scan = dfs_inv_scan[OF "2.prems" _ refl refl]
    show ?thesis
    proof (cases "st (child (snd ?e))")
      case None
      then show ?thesis using False "2.IH"(2)[OF False refl refl] scan(3) by (simp add: Let_def fun_upd_def)
    next
      case (Some m)
      then show ?thesis
        using False "2.IH"(3,4)[OF False refl refl Some] scan(1,2) by (cases m) (simp_all add: Let_def)
    qed
  qed
qed simp

text \<open>The outer loop: after it, every node of the input is finished.\<close>

lemma dfs_loop_marks:
  "st m \<noteq> None \<Longrightarrow> fst (dfs_loop es st stk bk) m \<noteq> None"
proof (induction es st stk bk rule: dfs_loop.induct)
  case (2 es st n i stk bk)
  show ?case
  proof (cases "length (out_edges es n) \<le> i")
    case True
    with "2.IH"(1) "2.prems" show ?thesis by (simp add: fun_upd_def)
  next
    case False
    let ?c = "child (snd (out_edges es n ! i))"
    show ?thesis
    proof (cases "st ?c")
      case None
      with False "2.IH"(2)[OF False refl refl None] "2.prems" show ?thesis by (simp add: Let_def fun_upd_def)
    next
      case (Some k)
      with False "2.IH"(3,4)[OF False refl refl Some] "2.prems" show ?thesis by (cases k) (simp_all add: Let_def)
    qed
  qed
qed simp

lemma dfs_root_inv:
  assumes "dfs_inv es (fst s) [] (snd s)"
  shows "dfs_inv es (fst (dfs_root es r s)) [] (snd (dfs_root es r s))"
    and "fst (dfs_root es r s) r \<noteq> None"
    and "fst s m \<noteq> None \<Longrightarrow> fst (dfs_root es r s) m \<noteq> None"
proof -
  have start: "dfs_inv es ((fst s)(r \<mapsto> M_open)) [(r, 0)] (snd s)" if "fst s r = None"
  proof -
    from assms obtain rank where "ranked es (fst s) (snd s) rank" by (auto simp: dfs_inv_def)
    then have "ranked es ((fst s)(r \<mapsto> M_open)) (snd s) rank" using that by (fastforce simp: ranked_def)
    then show ?thesis using assms by (auto simp: dfs_inv_def)
  qed
  show "dfs_inv es (fst (dfs_root es r s)) [] (snd (dfs_root es r s))"
    using assms dfs_loop_inv[OF start] by (auto simp: dfs_root_def split_beta)
  show "fst (dfs_root es r s) r \<noteq> None"
    using dfs_loop_marks[of "(fst s)(r \<mapsto> M_open)" r es "[(r, 0)]" "snd s"] by (auto simp: dfs_root_def)
  show "fst s m \<noteq> None \<Longrightarrow> fst (dfs_root es r s) m \<noteq> None"
    using dfs_loop_marks[of "(fst s)(r \<mapsto> M_open)" m es "[(r, 0)]" "snd s"] by (auto simp: dfs_root_def)
qed

lemma dfs_roots_inv:
  assumes "dfs_inv es (fst s) [] (snd s)"
  shows "dfs_inv es (fst (fold (dfs_root es) ns s)) [] (snd (fold (dfs_root es) ns s))
    \<and> (\<forall>m. fst s m \<noteq> None \<or> m \<in> set ns \<longrightarrow> fst (fold (dfs_root es) ns s) m \<noteq> None)"
  using assms
proof (induction ns arbitrary: s)
  case (Cons r ns)
  note step = dfs_root_inv[OF Cons.prems, where r = r]
  from Cons.IH[OF step(1)] step(2,3) show ?case by auto
qed simp

lemma acyclic_rank: "(\<And>a b. (a, b) \<in> r \<Longrightarrow> f b < (f a :: nat)) \<Longrightarrow> acyclic r"
  by (rule acyclic_subset[of "(measure f)\<inverse>"]) (auto simp: acyclic_converse wf_acyclic)

lemma backEdges_acyclic:
  assumes "\<forall>e \<in> set es. parent (snd e) \<in> set nodeIds"
  shows "acyclic (odepends (filter (\<lambda>e. e \<notin> set (backEdges nodeIds es)) es))"
proof -
  let ?s = "fold (dfs_root es) nodeIds (Map.empty, [])"
  have "dfs_inv es (fst (Map.empty, [])) [] (snd (Map.empty, []))"
    by (auto simp: dfs_inv_def ranked_def)
  from dfs_roots_inv[OF this, of nodeIds]
  have I: "dfs_inv es (fst ?s) [] (snd ?s)" and M: "\<And>m. m \<in> set nodeIds \<Longrightarrow> fst ?s m \<noteq> None"
    by auto
  from I obtain rank where rank: "ranked es (fst ?s) (snd ?s) rank" and op: "\<And>n. fst ?s n \<noteq> Some M_open"
    by (auto simp: dfs_inv_def)
  have fin: "fst ?s (parent (snd e)) = Some M_done" if "e \<in> set es" for e
  proof -
    have "fst ?s (parent (snd e)) \<noteq> None" using assms that by (intro M) simp
    then obtain m where "fst ?s (parent (snd e)) = Some m" by (cases "fst ?s (parent (snd e))") simp_all
    with op[of "parent (snd e)"] show ?thesis by (cases m) simp_all
  qed
  show ?thesis
  proof (rule acyclic_rank)
    fix a b
    assume "(a, b) \<in> odepends (filter (\<lambda>e. e \<notin> set (backEdges nodeIds es)) es)"
    then obtain e where "e \<in> set es" "e \<notin> set (snd ?s)" "a = parent (snd e)" "b = child (snd e)"
      by (auto simp: odepends_def backEdges_def)
    with rank fin[of e] show "rank b < rank a" by (simp add: ranked_def)
  qed
qed

section \<open>No edge is given up without a cycle\<close>

text \<open>The nodes on the stack form a path, so an edge back into it closes a cycle.\<close>

definition stack_path :: "oedge list \<Rightarrow> (ident \<times> nat) list \<Rightarrow> bool" where
  "stack_path es stk = sorted_wrt (\<lambda>f g. (fst g, fst f) \<in> (odepends es)\<^sup>+) stk"

lemma out_edge_depends: "i < length (out_edges es n) \<Longrightarrow> (n, child (snd (out_edges es n ! i))) \<in> odepends es"
  using nth_mem[of i "out_edges es n"] by (force simp: out_edges_def odepends_def)

lemma stack_path_frame: "stack_path es ((n, i) # stk) \<longleftrightarrow> stack_path es ((n, j) # stk)"
  by (simp add: stack_path_def)

lemma stack_path_push:
  assumes "stack_path es ((n, i) # stk)" and "(n, c) \<in> odepends es"
  shows "stack_path es ((c, k) # (n, j) # stk)"
  using assms by (auto simp: stack_path_def intro: trancl_into_trancl)

lemma dfs_loop_no_back:
  "acyclic (odepends es) \<Longrightarrow> stack_path es stk \<Longrightarrow> (\<forall>n. st n = Some M_open \<longleftrightarrow> n \<in> fst ` set stk) \<Longrightarrow> distinct (map fst stk)
    \<Longrightarrow> snd (dfs_loop es st stk bk) = bk \<and> (\<forall>n. fst (dfs_loop es st stk bk) n \<noteq> Some M_open)"
proof (induction es st stk bk rule: dfs_loop.induct)
  case (2 es st n i stk bk)
  note acyc = "2.prems"(1) and path = "2.prems"(2) and op = "2.prems"(3) and dist = "2.prems"(4)
  show ?case
  proof (cases "length (out_edges es n) \<le> i")
    case True
    have "stack_path es stk" using path by (simp add: stack_path_def)
    moreover have "\<forall>m. (st(n \<mapsto> M_done)) m = Some M_open \<longleftrightarrow> m \<in> fst ` set stk" using op dist by auto
    ultimately show ?thesis using "2.IH"(1)[OF True acyc] dist True by (simp add: fun_upd_def)
  next
    case False
    let ?c = "child (snd (out_edges es n ! i))"
    have edge: "(n, ?c) \<in> odepends es" using False by (intro out_edge_depends) simp
    show ?thesis
    proof (cases "st ?c")
      case None
      have "stack_path es ((?c, 0) # (n, Suc i) # stk)" by (rule stack_path_push[OF path edge])
      moreover have "\<forall>m. (st(?c \<mapsto> M_open)) m = Some M_open \<longleftrightarrow> m \<in> fst ` set ((?c, 0) # (n, Suc i) # stk)"
        using op by auto
      moreover have "?c \<notin> fst ` set ((n, i) # stk)" using op None by (metis option.distinct(1))
      ultimately show ?thesis using "2.IH"(2)[OF False refl refl None acyc] dist False None
        by (simp add: Let_def fun_upd_def)
    next
      case (Some m)
      show ?thesis
      proof (cases m)
        case M_open
        then have "?c \<in> fst ` set ((n, i) # stk)" using op Some by blast
        then have "?c = n \<or> (?c, n) \<in> (odepends es)\<^sup>+"
          using path by (auto simp: stack_path_def)
        then have "(n, n) \<in> (odepends es)\<^sup>+" using edge by (auto intro: trancl_into_trancl2)
        then show ?thesis using acyc by (simp add: acyclic_def)
      next
        case M_done
        then show ?thesis using "2.IH"(4)[OF False refl refl Some] acyc path op dist False Some stack_path_frame[of es n i stk "Suc i"]
          by (simp add: Let_def)
      qed
    qed
  qed
qed simp

lemma backEdges_none:
  assumes "acyclic (odepends es)"
  shows "backEdges nodeIds es = []"
proof -
  have "snd (fold (dfs_root es) ns s) = snd s \<and> (\<forall>n. fst (fold (dfs_root es) ns s) n \<noteq> Some M_open)"
    if "\<forall>n. fst s n \<noteq> Some M_open" for ns s
    using that
  proof (induction ns arbitrary: s)
    case (Cons r ns)
    have "stack_path es [(r, 0)]" by (simp add: stack_path_def)
    then have "snd (dfs_root es r s) = snd s \<and> (\<forall>n. fst (dfs_root es r s) n \<noteq> Some M_open)"
      using dfs_loop_no_back[OF assms, of "[(r, 0)]" "(fst s)(r \<mapsto> M_open)" "snd s"] Cons.prems
      by (simp add: dfs_root_def)
    with Cons.IH[of "dfs_root es r s"] show ?case by simp
  qed simp
  from this[of "(Map.empty, [])" nodeIds] show ?thesis by (simp add: backEdges_def)
qed

section \<open>Layers by a topological walk\<close>

text \<open>
  The inner loop over the children of one node. Maps to numbers are functions (0 where the code
  falls back to 0 with \<open>??\<close>).
\<close>

fun relax ::
  "ident \<Rightarrow> ident list \<Rightarrow> (ident \<Rightarrow> int) \<Rightarrow> (ident \<Rightarrow> nat) \<Rightarrow> ident list \<Rightarrow> (ident \<Rightarrow> int) \<times> (ident \<Rightarrow> nat) \<times> ident list" where
  "relax node [] indegree layer queue = (indegree, layer, queue)"
| "relax node (c # cs) indegree layer queue =
     (let layer' = layer(c := max (layer c) (layer node + 1));
          left = indegree c - 1
      in relax node cs (indegree(c := left)) layer' (if left = 0 then queue @ [c] else queue))"

lemma relax_frame: "c \<notin> set cs \<Longrightarrow> fst (relax node cs ind lay q) c = ind c"
  by (induction node cs ind lay q rule: relax.induct) (auto simp: Let_def)

text \<open>
  The walk ends: a node enters the queue only when its count drops to zero, and counts never rise.
\<close>

definition waiting :: "index \<Rightarrow> (ident \<Rightarrow> int) \<Rightarrow> ident set" where
  "waiting ix ind = {c \<in> targets ix. 0 < ind c}"

lemma finite_waiting [simp]: "finite (waiting ix ind)"
  by (simp add: waiting_def targets_def)

lemma relax_measure:
  "set cs \<subseteq> targets ix \<Longrightarrow> relax node cs ind lay q = (ind', lay', q')
   \<Longrightarrow> card (waiting ix ind') + length q' \<le> card (waiting ix ind) + length q"
proof (induction node cs ind lay q rule: relax.induct)
  case (2 node c cs ind lay q)
  let ?ind = "ind(c := ind c - 1)"
  have "card (waiting ix ?ind) + (if ind c - 1 = 0 then 1 else 0) \<le> card (waiting ix ind)"
  proof (cases "ind c = 1")
    case True
    then have "waiting ix ind = insert c (waiting ix ?ind)" and "c \<notin> waiting ix ?ind"
      using "2.prems"(1) by (auto simp: waiting_def)
    then show ?thesis using True by simp
  next
    case False
    have "waiting ix ?ind \<subseteq> waiting ix ind" by (auto simp: waiting_def split: if_splits)
    then show ?thesis using False by (simp add: card_mono)
  qed
  with "2.IH"[OF refl refl _ "2.prems"(2)[simplified relax.simps Let_def]] "2.prems"(1)
  show ?case by (auto simp: fun_upd_def split: if_splits)
qed simp

function kahn :: "index \<Rightarrow> ident list \<Rightarrow> (ident \<Rightarrow> int) \<Rightarrow> (ident \<Rightarrow> nat) \<Rightarrow> (ident \<Rightarrow> nat)" where
  "kahn ix [] indegree layer = layer"
| "kahn ix (node # queue) indegree layer =
     (case relax node (map_get ix node) indegree layer queue of
        (indegree', layer', queue') \<Rightarrow> kahn ix queue' indegree' layer')"
  by pat_completeness auto

termination
proof (relation "measure (\<lambda>(ix, queue, ind, lay). card (waiting ix ind) + length queue)")
  fix ix node queue ind lay ind' y lay' queue'
  assume "(ind', y) = relax node (map_get ix node) ind lay queue" and "(lay', queue') = y"
  then have "relax node (map_get ix node) ind lay queue = (ind', lay', queue')" by simp
  from relax_measure[OF map_get_targets this]
  show "((ix, queue', ind', lay'), ix, node # queue, ind, lay)
      \<in> measure (\<lambda>(ix, queue, ind, lay). card (waiting ix ind) + length queue)" by simp
qed simp

definition layers_of :: "ident list \<Rightarrow> edge list \<Rightarrow> (ident \<Rightarrow> nat)" where
  "layers_of nodeIds dag =
     (let parentsOf = buildIndex dag child parent; childrenOf = buildIndex dag parent child;
          indegree = (\<lambda>n. if n \<in> set nodeIds then int (length (map_get parentsOf n)) else 0)
      in kahn childrenOf (filter (\<lambda>n. indegree n = 0) nodeIds) indegree (\<lambda>_. 0))"

section \<open>Every kept edge leads to a deeper layer\<close>

lemma relax_result:
  assumes "\<forall>v. int (count_list cs v) \<le> max 0 (ind v)" and "node \<notin> set cs"
    and "relax node cs ind lay q = (ind', lay', q')"
  shows "(\<forall>v. ind' v = ind v - int (count_list cs v))
    \<and> (\<forall>v. lay' v = (if v \<in> set cs then max (lay v) (lay node + 1) else lay v))
    \<and> (\<exists>new. q' = q @ new \<and> distinct new \<and> set new = {v \<in> set cs. ind' v = 0})"
  using assms
proof (induction node cs ind lay q rule: relax.induct)
  case (2 node c cs ind lay q)
  let ?ind = "ind(c := ind c - 1)" and ?lay = "lay(c := max (lay c) (lay node + 1))"
    and ?q = "if ind c - 1 = 0 then q @ [c] else q"
  have pos: "int (Suc (count_list cs c)) \<le> ind c" using "2.prems"(1)[rule_format, of c] by simp
  have "int (count_list cs v) \<le> max 0 (?ind v)" for v
    using "2.prems"(1)[rule_format, of v] pos by auto
  moreover have "relax node cs ?ind ?lay ?q = (ind', lay', q')" using "2.prems"(3) by (simp add: Let_def)
  ultimately have R: "\<forall>v. ind' v = ?ind v - int (count_list cs v)"
      "\<forall>v. lay' v = (if v \<in> set cs then max (?lay v) (?lay node + 1) else ?lay v)"
      "\<exists>new. q' = ?q @ new \<and> distinct new \<and> set new = {v \<in> set cs. ind' v = 0}"
    using "2.IH"[OF refl refl] "2.prems"(2) by (auto simp del: fun_upd_apply)
  from R(3) obtain new where new: "q' = ?q @ new" "distinct new" "set new = {v \<in> set cs. ind' v = 0}" by blast
  have zero: "ind' c = 0 \<longleftrightarrow> ind c - 1 = int (count_list cs c)" using R(1) by simp
  have mem: "c \<in> set cs \<longleftrightarrow> count_list cs c \<noteq> 0" by (simp add: count_list_0_iff)
  have "distinct ((if ind c - 1 = 0 then [c] else []) @ new)
    \<and> set ((if ind c - 1 = 0 then [c] else []) @ new) = {v \<in> set (c # cs). ind' v = 0}"
  proof (cases "ind c - 1 = 0")
    case True
    then have "c \<notin> set cs" and "ind' c = 0" using pos mem zero by simp_all
    then show ?thesis using True new(2) unfolding new(3)[symmetric] by (auto simp: new(3))
  next
    case False
    then have "ind' c = 0 \<Longrightarrow> c \<in> set cs" using mem zero by simp
    then show ?thesis using False new(2) by (auto simp: new(3))
  qed
  then have "\<exists>new. q' = q @ new \<and> distinct new \<and> set new = {v \<in> set (c # cs). ind' v = 0}"
    using new(1) by (intro exI[of _ "(if ind c - 1 = 0 then [c] else []) @ new"]) simp
  moreover have "ind' v = ind v - int (count_list (c # cs) v)" for v using R(1) by simp
  moreover have "lay' v = (if v \<in> set (c # cs) then max (lay v) (lay node + 1) else lay v)" for v
    using R(2)[rule_format, of v] "2.prems"(2) by simp
  ultimately show ?case by blast
qed simp

definition open_parents :: "edge list \<Rightarrow> ident set \<Rightarrow> ident \<Rightarrow> nat" where
  "open_parents D P v = length (filter (\<lambda>e. child e = v \<and> parent e \<notin> P) D)"

definition kahn_inv ::
  "ident set \<Rightarrow> edge list \<Rightarrow> ident set \<Rightarrow> ident list \<Rightarrow> (ident \<Rightarrow> int) \<Rightarrow> (ident \<Rightarrow> nat) \<Rightarrow> bool" where
  "kahn_inv N D P q ind lay \<longleftrightarrow> distinct q \<and> set q \<inter> P = {} \<and> (\<forall>v. ind v = int (open_parents D P v))
     \<and> (\<forall>v \<in> N. ind v = 0 \<longleftrightarrow> v \<in> P \<union> set q) \<and> set q \<subseteq> N \<and> P \<subseteq> N
     \<and> (\<forall>e \<in> set D. parent e \<in> P \<longrightarrow> lay (parent e) + 1 \<le> lay (child e))"

lemma open_parents_zero: "open_parents D P v = 0 \<longleftrightarrow> (\<forall>e \<in> set D. child e = v \<longrightarrow> parent e \<in> P)"
  by (auto simp: open_parents_def filter_empty_conv)

lemma open_parents_close:
  assumes "n \<notin> P"
  shows "open_parents D P v
    = open_parents D (insert n P) v + count_list (map child (filter (\<lambda>e. parent e = n) D)) v"
  using assms by (induction D) (auto simp: open_parents_def)

lemma kahn_step:
  assumes inv: "kahn_inv N D P (n # q) ind lay" and edges: "\<forall>e \<in> set D. child e \<in> N"
    and r: "relax n (map child (filter (\<lambda>e. parent e = n) D)) ind lay q = (ind', lay', q')"
  shows "kahn_inv N D (insert n P) q' ind' lay'"
proof -
  let ?cs = "map child (filter (\<lambda>e. parent e = n) D)"
  from inv have I: "distinct (n # q)" "set (n # q) \<inter> P = {}" "\<And>v. ind v = int (open_parents D P v)"
      "\<And>v. v \<in> N \<Longrightarrow> ind v = 0 \<longleftrightarrow> v \<in> P \<union> set (n # q)" "set (n # q) \<subseteq> N" "P \<subseteq> N"
      "\<And>e. e \<in> set D \<Longrightarrow> parent e \<in> P \<Longrightarrow> lay (parent e) + 1 \<le> lay (child e)"
    by (auto simp: kahn_inv_def)
  have n: "n \<notin> P" "n \<in> N" using I(2,5) by auto
  have closed: "parent e \<in> P" if "e \<in> set D" "child e \<in> P \<union> set (n # q)" for e
  proof -
    have "child e \<in> N" using that(1) edges by simp
    then have "ind (child e) = 0" using I(4) that(2) by simp
    then show ?thesis using I(3) that(1) open_parents_zero[of D P "child e"] by auto
  qed
  have apart: "v \<notin> P \<union> set (n # q)" if "v \<in> set ?cs" for v
  proof -
    from that obtain e where "e \<in> set D" "parent e = n" "v = child e" by auto
    with closed[of e] n(1) show ?thesis by auto
  qed
  have cnt: "\<forall>v. int (count_list ?cs v) \<le> max 0 (ind v)"
  proof
    fix v
    show "int (count_list ?cs v) \<le> max 0 (ind v)"
      unfolding I(3) open_parents_close[OF n(1), of D v] by simp
  qed
  have "n \<notin> set ?cs" using apart[of n] by auto
  note R = relax_result[OF cnt this r]
  from R obtain new where new: "q' = q @ new" "distinct new" "set new = {v \<in> set ?cs. ind' v = 0}" by blast
  have ind': "ind' v = int (open_parents D (insert n P) v)" for v
    using R I(3)[of v] open_parents_close[OF n(1), of D v] by simp
  have lay': "lay' v = (if v \<in> set ?cs then max (lay v) (lay n + 1) else lay v)" for v using R by blast
  have "ind' v = 0 \<longleftrightarrow> v \<in> insert n P \<union> set q'" if "v \<in> N" for v
  proof (cases "v \<in> set ?cs")
    case True
    then show ?thesis using apart[OF True] new by auto
  next
    case False
    then have "ind' v = ind v" using R by (simp add: count_list_0_iff)
    then show ?thesis using False I(4)[OF that] new by auto
  qed
  moreover have "lay' (parent e) + 1 \<le> lay' (child e)" if e: "e \<in> set D" "parent e \<in> insert n P" for e
  proof -
    have "parent e \<notin> set ?cs"
    proof
      assume "parent e \<in> set ?cs"
      from apart[OF this] e(2) show False by simp
    qed
    then have p: "lay' (parent e) = lay (parent e)" using lay' by simp
    show ?thesis
    proof (cases "parent e = n")
      case True
      then have "child e \<in> set ?cs" using e(1) by auto
      then show ?thesis using p lay' True by simp
    next
      case False
      then have "lay (parent e) + 1 \<le> lay (child e)" using e I(7) by simp
      also have "\<dots> \<le> lay' (child e)" using lay' by simp
      finally show ?thesis using p by simp
    qed
  qed
  moreover have "v \<notin> insert n (P \<union> set q) \<and> v \<in> N" if "v \<in> set new" for v
  proof -
    from that have v: "v \<in> set ?cs" unfolding new(3) by blast
    moreover from v have "v \<in> N" using edges by auto
    ultimately show ?thesis using apart[OF v] by simp
  qed
  then have "distinct q'" "set q' \<inter> insert n P = {}" "set q' \<subseteq> N" "insert n P \<subseteq> N"
    using I(1,2,5,6) new(1,2) n(2) by auto
  ultimately show ?thesis using ind' by (simp add: kahn_inv_def)
qed

lemma kahn_layers:
  assumes "kahn_inv N D P q ind lay" and "\<forall>e \<in> set D. child e \<in> N \<and> parent e \<in> N"
    and "acyclic (depends D)" and "\<And>n. map_get ix n = map child (filter (\<lambda>e. parent e = n) D)"
  shows "\<forall>e \<in> set D. kahn ix q ind lay (parent e) + 1 \<le> kahn ix q ind lay (child e)"
  using assms
proof (induction ix q ind lay arbitrary: P rule: kahn.induct)
  case (1 ix ind lay)
  have "wf (depends D)" using "1.prems"(3) by (intro finite_acyclic_wf) (simp_all add: depends_def)
  then have "v \<in> N \<Longrightarrow> v \<in> P" for v
  proof (induction v rule: wf_induct_rule)
    case (less v)
    have "\<forall>e \<in> set D. child e = v \<longrightarrow> parent e \<in> P"
      using less.IH "1.prems"(2) by (auto simp: depends_def)
    then show ?case using "1.prems"(1) less.prems open_parents_zero[of D P v] by (auto simp: kahn_inv_def)
  qed
  then show ?case using "1.prems"(1,2) by (auto simp: kahn_inv_def)
next
  case (2 ix n q ind lay)
  obtain ind' lay' q' where r: "relax n (map_get ix n) ind lay q = (ind', lay', q')" by (cases "relax n (map_get ix n) ind lay q")
  have "kahn_inv N D (insert n P) q' ind' lay'"
    using kahn_step[OF "2.prems"(1)] r "2.prems"(2,4) by auto
  from "2.IH"[OF r[symmetric] refl this "2.prems"(2,3)] "2.prems"(4) r show ?case by simp
qed

lemma layers_of_increase:
  assumes "distinct nodeIds" and "\<forall>e \<in> set dag. parent e \<in> set nodeIds \<and> child e \<in> set nodeIds"
    and "acyclic (depends dag)" and "e \<in> set dag"
  shows "layers_of nodeIds dag (parent e) < layers_of nodeIds dag (child e)"
proof -
  let ?ind = "\<lambda>n. if n \<in> set nodeIds then int (length (map_get (buildIndex dag child parent) n)) else 0"
  have ind: "?ind n = int (open_parents dag {} n)" for n
    using assms(2) by (auto simp: buildIndex_get open_parents_def filter_empty_conv)
  then have "kahn_inv (set nodeIds) dag {} (filter (\<lambda>n. ?ind n = 0) nodeIds) ?ind (\<lambda>_. 0)"
    using assms(1) by (simp add: kahn_inv_def)
  from kahn_layers[OF this _ assms(3)] assms(2,4)
  show ?thesis by (auto simp: layers_of_def Let_def buildIndex_get Suc_le_eq)
qed

section \<open>The layout\<close>

text \<open>
  The barycentre of the parents already placed; \<open>Infinity\<close> (no such parent) sorts last, so the sort
  key is a pair.
\<close>

definition row_score :: "index \<Rightarrow> (ident \<Rightarrow> real option) \<Rightarrow> ident \<Rightarrow> bool \<times> real" where
  "row_score parentsOf order_of n =
     (let ps = filter (\<lambda>p. order_of p \<noteq> None) (map_get parentsOf n) in
      if ps = [] then (True, 0) else (False, sum_list (map (\<lambda>p. the (order_of p)) ps) / real (length ps)))"

definition centred :: "nat \<Rightarrow> nat \<Rightarrow> real" where
  "centred len i = real i - (real len - 1) / 2"

fun order_rows :: "index \<Rightarrow> (ident \<Rightarrow> real option) \<Rightarrow> ident list list \<Rightarrow> ident list list" where
  "order_rows parentsOf order_of [] = []"
| "order_rows parentsOf order_of (row # rows) =
     (let scored = sort_key (row_score parentsOf order_of) row;
          order' = fold (\<lambda>(i, n) om. om(n \<mapsto> centred (length scored) i)) (enumerate 0 scored) order_of
      in scored # order_rows parentsOf order' rows)"

definition place_rows :: "real \<Rightarrow> real \<Rightarrow> ident list list \<Rightarrow> (ident \<times> real \<times> real) list" where
  "place_rows columnGap rowGap rows =
     concat (map (\<lambda>(depth, row). map (\<lambda>(i, n). (n, centred (length row) i * columnGap, real depth * rowGap))
       (enumerate 0 row)) (enumerate 0 rows))"

definition valid_edges :: "ident list \<Rightarrow> edge list \<Rightarrow> oedge list" where
  "valid_edges nodeIds edges =
     filter (\<lambda>e. parent (snd e) \<in> set nodeIds \<and> child (snd e) \<in> set nodeIds \<and> parent (snd e) \<noteq> child (snd e))
       (zip [0..<length edges] edges)"

definition drawn_dag :: "ident list \<Rightarrow> edge list \<Rightarrow> edge list" where
  "drawn_dag nodeIds edges = (let valid = valid_edges nodeIds edges in
     map snd (filter (\<lambda>e. e \<notin> set (backEdges nodeIds valid)) valid))"

definition connected_nodes :: "ident list \<Rightarrow> edge list \<Rightarrow> ident list" where
  "connected_nodes nodeIds edges = filter (\<lambda>n. list_ex (\<lambda>e. parent (snd e) = n \<or> child (snd e) = n)
     (valid_edges nodeIds edges)) nodeIds"

text \<open>The array of layers; an index no node has is a hole (here an empty row), skipped later.\<close>

definition layer_rows :: "ident list \<Rightarrow> edge list \<Rightarrow> ident list list" where
  "layer_rows nodeIds edges =
     (let layer = layers_of nodeIds (drawn_dag nodeIds edges); conn = connected_nodes nodeIds edges
      in map (\<lambda>depth. filter (\<lambda>n. layer n = depth) conn) [0..<foldr max (map (\<lambda>n. Suc (layer n)) conn) 0])"

definition layout_rows :: "ident list \<Rightarrow> edge list \<Rightarrow> ident list list" where
  "layout_rows nodeIds edges =
     (let parentsOf = buildIndex (drawn_dag nodeIds edges) child parent;
          isolated = filter (\<lambda>n. n \<notin> set (connected_nodes nodeIds edges)) nodeIds
      in filter (\<lambda>r. r \<noteq> []) (order_rows parentsOf (\<lambda>_. None) (layer_rows nodeIds edges))
         @ (if isolated \<noteq> [] then [isolated] else []))"

definition layeredLayout ::
  "ident list \<Rightarrow> edge list \<Rightarrow> real option \<Rightarrow> real option \<Rightarrow> (ident \<times> real \<times> real) list" where
  "layeredLayout nodeIds edges columnGap rowGap =
     place_rows (case columnGap of None \<Rightarrow> 200 | Some g \<Rightarrow> g) (case rowGap of None \<Rightarrow> 130 | Some g \<Rightarrow> g)
       (layout_rows nodeIds edges)"

section \<open>Lemmas on the layout\<close>

lemma place_rows_iff:
  "(n, x, y) \<in> set (place_rows cg rg rows) \<longleftrightarrow>
     (\<exists>i < length rows. \<exists>j < length (rows ! i). n = rows ! i ! j
        \<and> x = centred (length (rows ! i)) j * cg \<and> y = real i * rg)"
proof -
  have enum: "set (enumerate 0 xs) = (\<lambda>i. (i, xs ! i)) ` {..<length xs}" for xs :: "'a list"
    by (auto simp: in_set_enumerate_eq)
  have "set (place_rows cg rg rows) = (\<Union>i \<in> {..<length rows}. (\<lambda>j.
      (rows ! i ! j, centred (length (rows ! i)) j * cg, real i * rg)) ` {..<length (rows ! i)})"
    by (simp add: place_rows_def enum image_image)
  then show ?thesis by auto
qed

lemma place_rows_names: "map fst (place_rows cg rg rows) = concat rows"
proof -
  have row: "map fst (map (\<lambda>(i, n). (n, f i)) (enumerate 0 row)) = row" for f :: "nat \<Rightarrow> real \<times> real" and row :: "ident list"
  proof -
    have "map fst (map (\<lambda>(i, n). (n, f i)) (enumerate 0 row)) = map snd (enumerate 0 row)"
      unfolding map_map by (rule map_cong) auto
    then show ?thesis by simp
  qed
  have "map fst (place_rows cg rg rows) = concat (map (\<lambda>(d, r). map fst (map (\<lambda>(i, n).
      (n, (\<lambda>i. (centred (length r) i * cg, real d * rg)) i)) (enumerate 0 r))) (enumerate 0 rows))"
    by (simp add: place_rows_def map_concat comp_def case_prod_unfold)
  also have "\<dots> = concat (map snd (enumerate 0 rows))" unfolding row by (simp add: case_prod_unfold)
  finally show ?thesis by simp
qed

lemma order_rows_rows:
  "list_all2 (\<lambda>r' r. mset r' = mset r) (order_rows ix om rows) rows"
  by (induction ix om rows rule: order_rows.induct) (simp_all add: Let_def)

lemma foldr_max_bound: "x \<in> set xs \<Longrightarrow> x \<le> foldr max xs (0::nat)"
  by (induction xs) auto

text \<open>The rows of the layers: each node once, its row fixed by its layer, rows by increasing layer.\<close>

lemma list_all2_mset_concat: "list_all2 (\<lambda>r' r. mset r' = mset r) xs ys \<Longrightarrow> mset (concat xs) = mset (concat ys)"
  by (induction rule: list_all2_induct) simp_all

lemma concat_filter_nonempty: "concat (filter (\<lambda>r. r \<noteq> []) rows) = concat rows"
  by (induction rows) auto

lemma mset_layers:
  "(\<And>n. n \<in> set ns \<Longrightarrow> f n < k) \<Longrightarrow> mset (concat (map (\<lambda>d. filter (\<lambda>n. f n = d) ns) [0..<k])) = mset ns"
proof (induction ns)
  case (Cons n ns)
  have k: "[0..<k] = [0..<f n] @ f n # [Suc (f n)..<k]"
    using Cons.prems[of n] by (metis le_add_diff_inverse less_imp_le list.set_intros(1) plus_nat.add_0 upt_add_eq_append upt_conv_Cons zero_le)
  have same: "map (\<lambda>d. filter (\<lambda>m. f m = d) (n # ns)) [a..<b] = map (\<lambda>d. filter (\<lambda>m. f m = d) ns) [a..<b]"
    if "f n < a \<or> b \<le> f n" for a b using that by auto
  note parts = same[of 0 "f n"] same[of "Suc (f n)" k]
  have "mset (concat (map (\<lambda>d. filter (\<lambda>m. f m = d) (n # ns)) [0..<k]))
      = add_mset n (mset (concat (map (\<lambda>d. filter (\<lambda>m. f m = d) ns) [0..<k])))"
    unfolding k map_append list.map concat_append concat.simps by (subst parts(1), simp, subst parts(2), simp, simp)
  with Cons show ?case by simp
qed (induction k, simp_all)

definition by_level :: "(ident \<Rightarrow> nat) \<Rightarrow> ident list list \<Rightarrow> bool" where
  "by_level lay rows \<longleftrightarrow> sorted_wrt (\<lambda>r r'. \<forall>a \<in> set r. \<forall>b \<in> set r'. lay a < lay b) rows
     \<and> (\<forall>r \<in> set rows. \<forall>a \<in> set r. \<forall>b \<in> set r. lay a = lay b)"

lemma by_level_indexed:
  assumes "\<And>i a. i < length rows \<Longrightarrow> a \<in> set (rows ! i) \<Longrightarrow> lay a = i"
  shows "by_level lay rows"
  unfolding by_level_def sorted_wrt_iff_nth_less
proof (intro conjI allI impI ballI)
  fix i j a b
  assume "i < j" "j < length rows" "a \<in> set (rows ! i)" "b \<in> set (rows ! j)"
  with assms[of i a] assms[of j b] show "lay a < lay b" by simp
next
  fix r a b
  assume "r \<in> set rows" "a \<in> set r" "b \<in> set r"
  moreover from this(1) obtain i where "i < length rows" "r = rows ! i" by (auto simp: in_set_conv_nth)
  ultimately show "lay a = lay b" using assms[of i a] assms[of i b] by simp
qed

lemma by_level_filter: "by_level lay rows \<Longrightarrow> by_level lay (filter P rows)"
  unfolding by_level_def by (auto intro: sorted_wrt_filter)

lemma by_level_less:
  assumes lev: "by_level lay rows" and "i < length rows" and "j < length rows"
    and "a \<in> set (rows ! i)" and "b \<in> set (rows ! j)" and "lay a < lay b"
  shows "i < j"
proof (rule ccontr)
  assume "\<not> i < j"
  then consider "i = j" | "j < i" by linarith
  then show False
  proof cases
    case 1
    then have "lay a = lay b" using lev assms(2,4,5) nth_mem[OF assms(2)] unfolding by_level_def by blast
    with assms(6) show False by simp
  next
    case 2
    then have "lay b < lay a" using lev assms(2,4,5) unfolding by_level_def sorted_wrt_iff_nth_less by blast
    with assms(6) show False by simp
  qed
qed

lemma layout_rows_nodes:
  fixes nodeIds edges
  defines "ix \<equiv> buildIndex (drawn_dag nodeIds edges) child parent"
    and "lay \<equiv> layers_of nodeIds (drawn_dag nodeIds edges)"
  defines "R \<equiv> filter (\<lambda>r. r \<noteq> []) (order_rows ix (\<lambda>_. None) (layer_rows nodeIds edges))"
  shows "mset (concat R) = mset (connected_nodes nodeIds edges)" and "by_level lay R"
proof -
  let ?conn = "connected_nodes nodeIds edges" and ?L = "layer_rows nodeIds edges"
  let ?O = "order_rows ix (\<lambda>_. None) ?L"
  note O = order_rows_rows[of ix "\<lambda>_. None" ?L]
  have L: "?L = map (\<lambda>d. filter (\<lambda>n. lay n = d) ?conn) [0..<foldr max (map (\<lambda>n. Suc (lay n)) ?conn) 0]"
    by (simp add: layer_rows_def lay_def Let_def)
  have bound: "lay n < foldr max (map (\<lambda>n. Suc (lay n)) ?conn) 0" if "n \<in> set ?conn" for n
    using foldr_max_bound[of "Suc (lay n)" "map (\<lambda>n. Suc (lay n)) ?conn"] that by (simp add: Suc_le_eq)
  have "mset (concat ?L) = mset ?conn" unfolding L by (rule mset_layers) (rule bound)
  then show "mset (concat R) = mset ?conn"
    using list_all2_mset_concat[OF O] by (simp add: R_def concat_filter_nonempty)
  have "lay a = i" if "i < length ?O" and "a \<in> set (?O ! i)" for i a
  proof -
    have i: "i < length ?L" using that(1) list_all2_lengthD[OF O] by simp
    have "mset (?O ! i) = mset (?L ! i)" using O that(1) by (simp add: list_all2_conv_all_nth)
    then have "a \<in> set (?L ! i)" using that(2) mset_eq_setD by blast
    with i show ?thesis unfolding L by simp
  qed
  then show "by_level lay R" unfolding R_def by (intro by_level_filter by_level_indexed)
qed

lemma layout_rows_distinct:
  assumes "distinct nodeIds"
  shows "distinct (concat (layout_rows nodeIds edges))" and "set (concat (layout_rows nodeIds edges)) = set nodeIds"
proof -
  let ?conn = "connected_nodes nodeIds edges"
  let ?iso = "filter (\<lambda>n. n \<notin> set ?conn) nodeIds"
  note M = layout_rows_nodes(1)[of nodeIds edges]
  have conn: "distinct ?conn" "set ?conn \<subseteq> set nodeIds" using assms by (auto simp: connected_nodes_def)
  have e: "concat (layout_rows nodeIds edges) = concat (filter (\<lambda>r. r \<noteq> []) (order_rows
      (buildIndex (drawn_dag nodeIds edges) child parent) (\<lambda>_. None) (layer_rows nodeIds edges))) @ ?iso"
    by (auto simp: layout_rows_def Let_def)
  have "distinct (concat (filter (\<lambda>r. r \<noteq> []) (order_rows
      (buildIndex (drawn_dag nodeIds edges) child parent) (\<lambda>_. None) (layer_rows nodeIds edges))))"
    using mset_eq_imp_distinct_iff[OF M] conn(1) by blast
  moreover note mset_eq_setD[OF M]
  ultimately show "distinct (concat (layout_rows nodeIds edges))"
    and "set (concat (layout_rows nodeIds edges)) = set nodeIds"
    unfolding e using assms conn(2) by auto
qed

text \<open>A node in a list of distinct rows stands in one place.\<close>

lemma distinct_concat_place:
  assumes "distinct (concat rows)" and "i < length rows" "j < length (rows ! i)"
    and "i' < length rows" "j' < length (rows ! i')" and "rows ! i ! j = rows ! i' ! j'"
  shows "i = i' \<and> j = j'"
  using assms
proof (induction rows arbitrary: i i')
  case (Cons r rows)
  have mem: "rows ! k ! l \<in> set (concat rows)" if "k < length rows" "l < length (rows ! k)" for k l
    using nth_mem[OF that(1)] nth_mem[OF that(2)] by auto
  show ?case
  proof (cases i)
    case 0
    then show ?thesis using Cons.prems mem[of "i' - 1" j'] nth_mem[of j r]
      by (cases i') (auto simp: nth_eq_iff_index_eq simp del: nth_mem)
  next
    case (Suc k)
    then show ?thesis using Cons.prems mem[of k j] nth_mem[of j' r] Cons.IH[of k "i' - 1"]
      by (cases i') (auto simp del: nth_mem)
  qed
qed simp

lemma drawn_dag_edges:
  "\<forall>e \<in> set (drawn_dag nodeIds edges). parent e \<in> set (connected_nodes nodeIds edges)
     \<and> child e \<in> set (connected_nodes nodeIds edges)"
  by (force simp: drawn_dag_def connected_nodes_def valid_edges_def Let_def list_ex_iff)

lemma depends_map_snd: "depends (map snd es) = odepends es"
  by (auto simp: depends_def odepends_def image_image)

lemma drawn_dag_acyclic: "acyclic (depends (drawn_dag nodeIds edges))"
  using backEdges_acyclic[of "valid_edges nodeIds edges" nodeIds]
  by (simp add: drawn_dag_def Let_def depends_map_snd valid_edges_def)

lemma drawn_dag_all:
  assumes "acyclic (depends edges)"
  shows "drawn_dag nodeIds edges = filter (\<lambda>e. parent e \<in> set nodeIds \<and> child e \<in> set nodeIds) edges"
proof -
  let ?v = "valid_edges nodeIds edges"
  have snd: "map snd (filter (\<lambda>e. P (snd e)) (zip [0..<length edges] edges)) = filter P edges" for P
    using filter_map[of P snd "zip [0..<length edges] edges"] by (simp add: comp_def)
  have "depends (map snd ?v) \<subseteq> depends edges"
    unfolding depends_map_snd by (auto simp: odepends_def valid_edges_def depends_def dest: set_zip_rightD)
  then have "acyclic (odepends ?v)" using assms acyclic_subset depends_map_snd by metis
  then have "drawn_dag nodeIds edges = map snd ?v" by (simp add: drawn_dag_def Let_def backEdges_none)
  also have "\<dots> = filter (\<lambda>e. parent e \<in> set nodeIds \<and> child e \<in> set nodeIds \<and> parent e \<noteq> child e) edges"
    unfolding valid_edges_def by (rule snd)
  also have "\<dots> = filter (\<lambda>e. parent e \<in> set nodeIds \<and> child e \<in> set nodeIds) edges"
  proof (rule filter_cong)
    fix e assume "e \<in> set edges"
    then have "(parent e, child e) \<in> depends edges" by (auto simp: depends_def)
    then have "parent e \<noteq> child e" using assms by (metis acyclic_def r_into_trancl')
    then show "(parent e \<in> set nodeIds \<and> child e \<in> set nodeIds \<and> parent e \<noteq> child e)
        = (parent e \<in> set nodeIds \<and> child e \<in> set nodeIds)" by simp
  qed simp
  finally show ?thesis .
qed

section \<open>Properties\<close>

text \<open>The layout of the dependency map, for any graph, cyclic or not: it terminates, every node gets
  exactly one position and no two nodes the same; every dependency that does not close a cycle is
  drawn downwards; what is drawn so is acyclic, and it is all dependencies between the given nodes
  when they form no cycle.
\<close>

lemma layout_faithful:
  assumes "distinct nodeIds" and "0 < cg" and "0 < rg"
    and pos_def: "pos = layeredLayout nodeIds edges (Some cg) (Some rg)"
  shows "distinct (map fst pos) \<and> set (map fst pos) = set nodeIds \<and> inj_on snd (set pos)
    \<and> (\<forall>e \<in> set (drawn_dag nodeIds edges). \<exists>x y x' y'.
         map_of pos (parent e) = Some (x, y) \<and> map_of pos (child e) = Some (x', y') \<and> y < y')
    \<and> acyclic (depends (drawn_dag nodeIds edges))
    \<and> (acyclic (depends edges) \<longrightarrow>
         drawn_dag nodeIds edges = filter (\<lambda>e. parent e \<in> set nodeIds \<and> child e \<in> set nodeIds) edges)"
proof -
  let ?rows = "layout_rows nodeIds edges" and ?dag = "drawn_dag nodeIds edges"
  have pos: "pos = place_rows cg rg ?rows" by (simp add: pos_def layeredLayout_def)
  note D = layout_rows_distinct[OF assms(1), of edges]
  have names: "distinct (map fst pos)" "set (map fst pos) = set nodeIds"
    unfolding pos place_rows_names using D by simp_all
  have "inj_on snd (set pos)"
  proof (rule inj_onI)
    fix p q assume p: "p \<in> set pos" and q: "q \<in> set pos" and e: "snd p = snd q"
    obtain n x y m where pq: "p = (n, x, y)" "q = (m, x, y)" using e by (cases p; cases q) auto
    from p[unfolded pos pq place_rows_iff] q[unfolded pos pq place_rows_iff]
    obtain i j i' j' where "n = ?rows ! i ! j" "m = ?rows ! i' ! j'" "real i * rg = real i' * rg"
      "centred (length (?rows ! i)) j * cg = centred (length (?rows ! i')) j' * cg" by metis
    then show "p = q" using assms(2,3) pq by (auto simp: centred_def)
  qed
  moreover have "\<exists>x y x' y'. map_of pos (parent e) = Some (x, y) \<and> map_of pos (child e) = Some (x', y') \<and> y < y'"
    if e: "e \<in> set ?dag" for e
  proof -
    define R where "R = filter (\<lambda>r. r \<noteq> []) (order_rows (buildIndex ?dag child parent) (\<lambda>_. None) (layer_rows nodeIds edges))"
    define lay where "lay = layers_of nodeIds ?dag"
    have R: "mset (concat R) = mset (connected_nodes nodeIds edges)" "by_level lay R"
      unfolding R_def lay_def by (rule layout_rows_nodes)+
    have conn: "parent e \<in> set (concat R)" "child e \<in> set (concat R)"
      using drawn_dag_edges[of nodeIds edges] e mset_eq_setD[OF R(1)] by auto
    have rows: "\<exists>rest. ?rows = R @ rest" by (auto simp: layout_rows_def R_def Let_def)
    have at_row: "\<exists>i j x. i < length R \<and> n \<in> set (R ! i) \<and> map_of pos n = Some (x, real i * rg)"
      if "n \<in> set (concat R)" for n
    proof -
      from that obtain i j where ij: "i < length R" "j < length (R ! i)" "n = R ! i ! j" by (auto simp: in_set_conv_nth)
      moreover have "i < length ?rows" "?rows ! i = R ! i" using rows ij(1) by (auto simp: nth_append)
      ultimately have "(n, centred (length (?rows ! i)) j * cg, real i * rg) \<in> set pos"
        unfolding pos place_rows_iff by (intro exI[of _ i] exI[of _ j] conjI) simp_all
      then have "map_of pos n = Some (centred (length (?rows ! i)) j * cg, real i * rg)"
        using names(1) by simp
      with ij show ?thesis by auto
    qed
    from at_row[OF conn(1)] obtain i x where p: "i < length R" "parent e \<in> set (R ! i)"
      "map_of pos (parent e) = Some (x, real i * rg)" by metis
    from at_row[OF conn(2)] obtain i' x' where c: "i' < length R" "child e \<in> set (R ! i')"
      "map_of pos (child e) = Some (x', real i' * rg)" by metis
    have "lay (parent e) < lay (child e)"
      using layers_of_increase[OF assms(1) _ drawn_dag_acyclic e] drawn_dag_edges[of nodeIds edges]
      by (auto simp: lay_def connected_nodes_def)
    then have "i < i'" by (rule by_level_less[OF R(2) p(1) c(1) p(2) c(2)])
    then show ?thesis using p(3) c(3) assms(3) by simp
  qed
  ultimately show ?thesis using names drawn_dag_acyclic drawn_dag_all by blast
qed

text \<open>The sample graph drawn from the web service down to the database, next to an unrelated node.\<close>

lemma layout_faithful_witness:
  "\<exists>x y x' y'. map_of (layeredLayout [''db'', ''web'', ''cache'', ''lone''] sample_edges (Some 200) (Some 130)) ''web'' = Some (x, y)
     \<and> map_of (layeredLayout [''db'', ''web'', ''cache'', ''lone''] sample_edges (Some 200) (Some 130)) ''cache'' = Some (x', y') \<and> y < y'"
proof -
  let ?ns = "[''db'', ''web'', ''cache'', ''lone'']"
  have "depends sample_edges \<subseteq> (measure (\<lambda>n. if n = ''web'' then 2 else if n = ''cache'' then 1 else 0))\<inverse>"
    by (auto simp: depends_def sample_edges_def)
  then have acyc: "acyclic (depends sample_edges)"
    by (meson acyclic_subset acyclic_converse wf_acyclic wf_measure)
  note L = layout_faithful[of ?ns 200 130 _ sample_edges, OF _ _ _ refl]
  have "drawn_dag ?ns sample_edges = sample_edges"
    using L acyc by (simp add: sample_edges_def)
  then have "\<lparr>parent = ''web'', child = ''cache''\<rparr> \<in> set (drawn_dag ?ns sample_edges)" by (simp add: sample_edges_def)
  with L show ?thesis by fastforce
qed

end
