(* ===== verification/Health.thy ===== *)
theory Health
  imports Graph
begin

text \<open>
  Live health of the dependency map, \<open>src/modules/topology/health.ts\<close>.
\<close>

datatype node_health = H_up | H_degraded | H_down | H_maintenance | H_unknown

definition combineHealth :: "health_status option \<Rightarrow> severity list \<Rightarrow> node_health" where
  "combineHealth entityStatus openIncidentSeverities =
     (if entityStatus = Some MAINTENANCE then H_maintenance
      else if entityStatus = Some DOWN \<or> CRITICAL \<in> set openIncidentSeverities then H_down
      else if entityStatus = Some DEGRADED \<or> WARNING \<in> set openIncidentSeverities then H_degraded
      else if entityStatus = Some UP then H_up
      else H_unknown)"

definition isUnhealthy :: "node_health \<Rightarrow> bool" where
  "isUnhealthy h = (h = H_down \<or> h = H_degraded)"

text \<open>Nested loops over the unhealthy nodes and their blast radii; the set is a list without duplicates.\<close>

definition impactedNodes :: "edge list \<Rightarrow> ident list \<Rightarrow> ident list" where
  "impactedNodes edges unhealthy =
     fold (\<lambda>node imp. fold (\<lambda>p imp. if p \<in> set unhealthy \<or> p \<in> set imp then imp else imp @ [p])
       (blastRadius edges node) imp) unhealthy []"

section \<open>Lemmas\<close>

lemma impact_inner:
  "distinct imp \<Longrightarrow> distinct (fold (\<lambda>p imp. if p \<in> B \<or> p \<in> set imp then imp else imp @ [p]) ps imp)
     \<and> set (fold (\<lambda>p imp. if p \<in> B \<or> p \<in> set imp then imp else imp @ [p]) ps imp) = set imp \<union> (set ps - B)"
  by (induction ps arbitrary: imp) auto

lemma impact_outer:
  "distinct imp \<Longrightarrow> distinct (fold (\<lambda>node imp. fold (\<lambda>p imp. if p \<in> B \<or> p \<in> set imp then imp else imp @ [p]) (f node) imp) ns imp)
     \<and> set (fold (\<lambda>node imp. fold (\<lambda>p imp. if p \<in> B \<or> p \<in> set imp then imp else imp @ [p]) (f node) imp) ns imp)
       = set imp \<union> (\<Union>n \<in> set ns. set (f n) - B)"
proof (induction ns arbitrary: imp)
  case (Cons n ns)
  from impact_inner[OF Cons.prems, of B "f n"] Cons.IH show ?case by auto
qed simp

text \<open>The impacted nodes are the healthy ones that depend, directly or not, on an unhealthy one.\<close>

lemma impactedNodes_set:
  "set (impactedNodes edges bad) = {v. v \<notin> set bad \<and> (\<exists>n \<in> set bad. (v, n) \<in> (depends edges)\<^sup>+)}"
  and impactedNodes_distinct: "distinct (impactedNodes edges bad)"
proof -
  note O = impact_outer[of "[]" "set bad" "blastRadius edges" bad]
  show "set (impactedNodes edges bad) = {v. v \<notin> set bad \<and> (\<exists>n \<in> set bad. (v, n) \<in> (depends edges)\<^sup>+)}"
    using O by (auto simp: impactedNodes_def blastRadius_set)
  show "distinct (impactedNodes edges bad)" using O by (simp add: impactedNodes_def)
qed

text \<open>Maintenance hides everything; otherwise the worse of the two signals decides.\<close>

lemma combineHealth_unhealthy_iff:
  "isUnhealthy (combineHealth st sev) \<longleftrightarrow> st \<noteq> Some MAINTENANCE
     \<and> (st = Some DOWN \<or> st = Some DEGRADED \<or> CRITICAL \<in> set sev \<or> WARNING \<in> set sev)"
  by (auto simp: combineHealth_def isUnhealthy_def)

lemma combineHealth_incident_monotone:
  "set sev \<subseteq> set sev' \<Longrightarrow> isUnhealthy (combineHealth st sev) \<Longrightarrow> isUnhealthy (combineHealth st sev')"
  by (auto simp: combineHealth_unhealthy_iff)

end
