(* ===== verification/Anomaly.thy ===== *)
theory Anomaly
  imports Schema
begin

text \<open>
  Anomaly detection: the statistics of \<open>src/modules/aiops/anomaly.ts\<close> and the cached baselines of
  \<open>src/modules/aiops/baseline.ts\<close>. Numbers are reals (rounding of floating point is not
  modelled); where the code filters with \<open>Number.isFinite\<close>, a sample is \<open>real option\<close> and
  \<open>None\<close> stands for \<open>NaN\<close> and the infinities.

  The lemmas show that the baseline is robust (fewer than half of the points cannot move it out of
  the range of the others), that the score is calibrated to the threshold, that the excluded stretch
  really is excluded for rules of up to 23 h 20 min (and not for longer ones), and that the cache is
  bounded and never serves a baseline older than ten minutes.
\<close>

section \<open>The time ranges of a baseline\<close>

definition RECENT_WINDOW_MS :: ms where "RECENT_WINDOW_MS = 6 * 60 * 60 * 1000"
definition SEASONAL_DAYS :: nat where "SEASONAL_DAYS = 7"
definition SEASONAL_HALF_WIDTH_MS :: ms where "SEASONAL_HALF_WIDTH_MS = 30 * 60 * 1000"
definition MIN_BASELINE_POINTS :: nat where "MIN_BASELINE_POINTS = 30"
definition DAY_MS :: ms where "DAY_MS = 24 * 60 * 60 * 1000"

record time_range =
  tr_from :: ms
  tr_to :: ms

definition baselineRanges :: "ms \<Rightarrow> int \<Rightarrow> time_range list" where
  "baselineRanges t durationSec =
     (let guard = durationSec * 1000 + 10 * 60 * 1000;
          recent = \<lparr>tr_from = t - RECENT_WINDOW_MS, tr_to = t - guard\<rparr>;
          seasonal = map (\<lambda>day. let centre = t - int day * DAY_MS in
            \<lparr>tr_from = centre - SEASONAL_HALF_WIDTH_MS, tr_to = centre + SEASONAL_HALF_WIDTH_MS\<rparr>)
            [1..<Suc SEASONAL_DAYS]
      in filter (\<lambda>r. tr_to r > tr_from r) (recent # seasonal))"

section \<open>Median, deviation, verdict\<close>

definition MAD_TO_SIGMA :: real where "MAD_TO_SIGMA = 1.4826"
definition RELATIVE_SCALE_FLOOR :: real where "RELATIVE_SCALE_FLOOR = 0.05"
definition ABSOLUTE_SCALE_FLOOR :: real where "ABSOLUTE_SCALE_FLOOR = 1 / 10 ^ 9"

primrec Z_THRESHOLD :: "anomaly_sensitivity \<Rightarrow> real" where
  "Z_THRESHOLD HIGH = 3"
| "Z_THRESHOLD MEDIUM = 4.5"
| "Z_THRESHOLD LOW = 6"

record baseline =
  bl_median :: real
  bl_scale :: real
  bl_points :: nat

definition median :: "real list \<Rightarrow> real" where
  "median sorted_vs =
     (let mid = length sorted_vs div 2 in
      if length sorted_vs mod 2 = 1 then sorted_vs ! mid
      else (sorted_vs ! (mid - 1) + sorted_vs ! mid) / 2)"

definition computeBaseline :: "real option list \<Rightarrow> baseline option" where
  "computeBaseline vals =
     (let finite_vs = map the (filter (\<lambda>v. v \<noteq> None) vals) in
      if length finite_vs < MIN_BASELINE_POINTS then None
      else
        let sorted_vs = sort finite_vs;
            med = median sorted_vs;
            mad = median (sort (map (\<lambda>v. \<bar>v - med\<bar>) sorted_vs));
            scale = max (max (MAD_TO_SIGMA * mad) (RELATIVE_SCALE_FLOOR * \<bar>med\<bar>)) ABSOLUTE_SCALE_FLOOR
        in Some \<lparr>bl_median = med, bl_scale = scale, bl_points = length finite_vs\<rparr>)"

record anomaly_verdict =
  av_anomalous :: bool
  av_z :: real
  av_score :: real

definition assess :: "real \<Rightarrow> baseline \<Rightarrow> anomaly_sensitivity \<Rightarrow> anomaly_verdict" where
  "assess v b sensitivity =
     (let z = (v - bl_median b) / bl_scale b;
          threshold = Z_THRESHOLD sensitivity;
          magnitude = \<bar>z\<bar>
      in \<lparr>av_anomalous = (magnitude \<ge> threshold), av_z = z, av_score = magnitude / (magnitude + threshold)\<rparr>)"

section \<open>Cached baselines\<close>

definition CACHE_TTL_MS :: ms where "CACHE_TTL_MS = 10 * 60 * 1000"
definition CACHE_MAX_ENTRIES :: nat where "CACHE_MAX_ENTRIES = 10000"
definition MAX_SAMPLE_POINTS :: nat where "MAX_SAMPLE_POINTS = 6000"

record series_key =
  sk_orgId :: ident
  sk_sourceKind :: metric_source
  sk_sourceId :: ident
  sk_metric :: metric_type
  sk_instance :: string

text \<open>
  The cache is a JavaScript \<open>Map\<close>: its entries in insertion order, where setting a key that is
  present keeps its place. The key joins four parts with U+0000, which cannot occur in a text
  column, so it is the tuple of the parts.
\<close>

type_synonym cache_key = "ident \<times> metric_type \<times> string \<times> int"
type_synonym baseline_cache = "(cache_key \<times> (ms \<times> baseline option)) list"

definition cacheKey :: "series_key \<Rightarrow> int \<Rightarrow> cache_key" where
  "cacheKey s durationSec = (sk_sourceId s, sk_metric s, sk_instance s, durationSec)"

fun map_set :: "'k \<Rightarrow> 'v \<Rightarrow> ('k \<times> 'v) list \<Rightarrow> ('k \<times> 'v) list" where
  "map_set k v [] = [(k, v)]"
| "map_set k v ((k', v') # m) = (if k' = k then (k, v) # m else (k', v') # map_set k v m)"

definition load_rows :: "db \<Rightarrow> series_key \<Rightarrow> int \<Rightarrow> ms \<Rightarrow> metric_row list" where
  "load_rows d s durationSec now =
     take MAX_SAMPLE_POINTS (find_many (\<lambda>r. me_orgId r = sk_orgId s \<and> me_sourceKind r = sk_sourceKind s
       \<and> me_sourceId r = sk_sourceId s \<and> me_metric r = sk_metric s \<and> me_instance r = sk_instance s
       \<and> list_ex (\<lambda>g. tr_from g \<le> me_time r \<and> me_time r < tr_to g) (baselineRanges now durationSec))
       (metricEntries d))"

definition loadBaseline ::
  "db \<Rightarrow> series_key \<Rightarrow> int \<Rightarrow> ms \<Rightarrow> baseline_cache \<Rightarrow> baseline_cache \<times> baseline option" where
  "loadBaseline d s durationSec now cache =
     (let key = cacheKey s durationSec;
          fresh = (let b = computeBaseline (map (\<lambda>r. Some (me_value r)) (load_rows d s durationSec now));
                       kept = (if length cache \<ge> CACHE_MAX_ENTRIES then drop 1 cache else cache)
                   in (map_set key (now, b) kept, b))
      in case map_of cache key of
           Some (at0, b) \<Rightarrow> if now - at0 < CACHE_TTL_MS \<and> now \<ge> at0 then (cache, b) else fresh
         | None \<Rightarrow> fresh)"

text \<open>A process over time: loads of any series, each against the database of its moment.\<close>

fun load_all :: "(db \<times> series_key \<times> int \<times> ms) list \<Rightarrow> baseline_cache \<Rightarrow> baseline_cache" where
  "load_all [] c = c"
| "load_all ((d, s, dur, now) # calls) c = load_all calls (fst (loadBaseline d s dur now c))"

section \<open>Lemmas\<close>

lemma map_set_map_of: "map_of (map_set k v m) = (map_of m)(k \<mapsto> v)"
  by (induction m rule: map_set.induct) auto

lemma map_set_keys: "set (map fst (map_set k v m)) = insert k (set (map fst m))"
  by (induction m rule: map_set.induct) auto

lemma map_set_distinct: "distinct (map fst m) \<Longrightarrow> distinct (map fst (map_set k v m))"
proof (induction m rule: map_set.induct)
  case (2 k v k' v' m)
  then show ?case using map_set_keys[of k v m] by auto
qed simp

lemma map_set_length: "length (map_set k v m) \<le> Suc (length m)"
  by (induction m rule: map_set.induct) auto

text \<open>An element past the middle of a sorted list outside a range puts at least half outside.\<close>

lemma sorted_tail_above:
  assumes "sorted xs" and "i < length xs" and "(hi::real) < xs ! i"
  shows "length xs - i \<le> length (filter (\<lambda>v. hi < v) xs)"
proof -
  have "hi < v" if "v \<in> set (drop i xs)" for v
  proof -
    from that obtain j where "j < length xs - i" and "v = xs ! (i + j)"
      by (auto simp: in_set_conv_nth)
    then have "xs ! i \<le> v" using assms(1,2) by (simp add: sorted_nth_mono)
    with assms(3) show ?thesis by simp
  qed
  then have "filter (\<lambda>v. hi < v) (drop i xs) = drop i xs" by (simp add: filter_id_conv)
  moreover have "filter (\<lambda>v. hi < v) xs = filter (\<lambda>v. hi < v) (take i xs) @ filter (\<lambda>v. hi < v) (drop i xs)"
    by (metis append_take_drop_id filter_append)
  ultimately show ?thesis by simp
qed

lemma sorted_head_below:
  assumes "sorted xs" and "i < length xs" and "xs ! i < (lo::real)"
  shows "Suc i \<le> length (filter (\<lambda>v. v < lo) xs)"
proof -
  have "v < lo" if "v \<in> set (take (Suc i) xs)" for v
  proof -
    from that obtain j where "j < Suc i" and "v = xs ! j" by (auto simp: in_set_conv_nth)
    then have "v \<le> xs ! i" using assms(1,2) by (simp add: sorted_nth_mono)
    with assms(3) show ?thesis by simp
  qed
  then have "filter (\<lambda>v. v < lo) (take (Suc i) xs) = take (Suc i) xs" by (simp add: filter_id_conv)
  moreover have "filter (\<lambda>v. v < lo) xs
      = filter (\<lambda>v. v < lo) (take (Suc i) xs) @ filter (\<lambda>v. v < lo) (drop (Suc i) xs)"
    by (metis append_take_drop_id filter_append)
  ultimately show ?thesis using assms(2) by simp
qed

lemma filter_length_mono:
  "(\<And>v. P v \<Longrightarrow> Q v) \<Longrightarrow> length (filter P xs) \<le> length (filter Q xs)"
  by (induction xs) (auto simp: le_SucI)

lemma sorted_middle_in_range:
  assumes "sorted xs" and "2 * length (filter (\<lambda>v. v < lo \<or> (hi::real) < v) xs) < length xs"
    and "i < length xs" and "length xs \<le> 2 * Suc i" and "2 * i \<le> length xs"
  shows "lo \<le> xs ! i" and "xs ! i \<le> hi"
proof -
  show "xs ! i \<le> hi"
  proof (rule ccontr)
    assume "\<not> xs ! i \<le> hi"
    then have "length xs - i \<le> length (filter (\<lambda>v. hi < v) xs)"
      using sorted_tail_above[OF assms(1,3)] by simp
    also have "\<dots> \<le> length (filter (\<lambda>v. v < lo \<or> hi < v) xs)" by (rule filter_length_mono) simp
    finally show False using assms(2,5) by linarith
  qed
  show "lo \<le> xs ! i"
  proof (rule ccontr)
    assume "\<not> lo \<le> xs ! i"
    then have "Suc i \<le> length (filter (\<lambda>v. v < lo) xs)"
      using sorted_head_below[OF assms(1,3)] by simp
    also have "\<dots> \<le> length (filter (\<lambda>v. v < lo \<or> hi < v) xs)" by (rule filter_length_mono) simp
    finally have "2 * Suc i < length xs" using assms(2) by simp
    with assms(4) show False by simp
  qed
qed

lemma median_in_range:
  assumes "sorted xs" and "2 * length (filter (\<lambda>v. v < lo \<or> (hi::real) < v) xs) < length xs"
  shows "lo \<le> median xs" and "median xs \<le> hi"
proof -
  let ?m = "length xs div 2"
  note mid = sorted_middle_in_range[OF assms]
  have ne: "xs \<noteq> []" using assms(2) by auto
  have "lo \<le> median xs \<and> median xs \<le> hi"
  proof (cases "length xs mod 2 = 1")
    case True
    then have "length xs = Suc (2 * ?m)" by presburger
    then have "lo \<le> xs ! ?m" and "xs ! ?m \<le> hi" using mid[of ?m] ne by auto
    with True show ?thesis by (simp add: median_def)
  next
    case False
    then have e: "length xs = 2 * ?m" by presburger
    with ne have pos: "0 < ?m" by (metis length_0_conv mult_0_right neq0_conv)
    have "lo \<le> xs ! ?m" and "xs ! ?m \<le> hi" using mid[of ?m] e ne by auto
    moreover have "lo \<le> xs ! (?m - 1)" and "xs ! (?m - 1) \<le> hi" using mid[of "?m - 1"] e pos by auto
    ultimately show ?thesis using False by (simp add: median_def Let_def)
  qed
  then show "lo \<le> median xs" and "median xs \<le> hi" by simp_all
qed

lemma length_filter_sort: "length (filter P (sort xs)) = length (filter P xs)" for xs :: "real list"
  by (simp add: filter_sort)

text \<open>The sample behind a baseline.\<close>

abbreviation finite_values :: "real option list \<Rightarrow> real list" where
  "finite_values vals \<equiv> map the (filter (\<lambda>v. v \<noteq> None) vals)"

lemma computeBaselineD:
  assumes "computeBaseline vals = Some b"
  shows "bl_median b = median (sort (finite_values vals))"
    and "bl_scale b = max (max (MAD_TO_SIGMA * median (sort (map (\<lambda>v. \<bar>v - bl_median b\<bar>) (sort (finite_values vals)))))
           (RELATIVE_SCALE_FLOOR * \<bar>bl_median b\<bar>)) ABSOLUTE_SCALE_FLOOR"
    and "bl_points b = length (finite_values vals)"
    and "MIN_BASELINE_POINTS \<le> length (finite_values vals)"
  using assms by (auto simp: computeBaseline_def Let_def not_less split: if_splits)

lemma baseline_scale_pos: "computeBaseline vals = Some b \<Longrightarrow> 0 < bl_scale b"
  using computeBaselineD(2)[of vals b] by (simp add: ABSOLUTE_SCALE_FLOOR_def max_def split: if_splits)

lemma half_share_iff: "0 \<le> m \<Longrightarrow> 0 < t \<Longrightarrow> (t \<le> m) = (1 / 2 \<le> m / (m + t))" for m t :: real
  by (simp add: le_divide_eq)

lemma share_bounds: "0 \<le> m \<Longrightarrow> 0 < t \<Longrightarrow> 0 \<le> m / (m + t) \<and> m / (m + t) < 1" for m t :: real
  by (simp add: divide_less_eq)

lemma Z_THRESHOLD_pos: "3 \<le> Z_THRESHOLD s"
  by (cases s) auto

text \<open>The cache: distinct keys, a bounded size, no entry from the future.\<close>

definition cache_ok :: "baseline_cache \<Rightarrow> bool" where
  "cache_ok c = (distinct (map fst c) \<and> length c \<le> CACHE_MAX_ENTRIES)"

lemma loadBaseline_cases:
  obtains (hit) at0 b where "map_of cache (cacheKey s dur) = Some (at0, b)" and "now - at0 < CACHE_TTL_MS" and "at0 \<le> now"
      and "loadBaseline d s dur now cache = (cache, b)"
  | (miss) b kept where "b = computeBaseline (map (\<lambda>r. Some (me_value r)) (load_rows d s dur now))"
      and "kept = (if length cache \<ge> CACHE_MAX_ENTRIES then drop 1 cache else cache)"
      and "loadBaseline d s dur now cache = (map_set (cacheKey s dur) (now, b) kept, b)"
proof -
  let ?b = "computeBaseline (map (\<lambda>r. Some (me_value r)) (load_rows d s dur now))"
  let ?kept = "if length cache \<ge> CACHE_MAX_ENTRIES then drop 1 cache else cache"
  let ?fresh = "loadBaseline d s dur now cache = (map_set (cacheKey s dur) (now, ?b) ?kept, ?b)"
  show thesis
  proof (cases "map_of cache (cacheKey s dur)")
    case None
    then have ?fresh by (simp add: loadBaseline_def Let_def)
    then show thesis by (intro miss) simp_all
  next
    case (Some p)
    obtain at0 b where p: "p = (at0, b)" by (cases p)
    show thesis
    proof (cases "now - at0 < CACHE_TTL_MS \<and> now \<ge> at0")
      case True
      with Some p show thesis by (intro hit[of at0 b]) (simp_all add: loadBaseline_def Let_def)
    next
      case False
      with Some p have ?fresh by (auto simp: loadBaseline_def Let_def)
      then show thesis by (intro miss) simp_all
    qed
  qed
qed

lemma loadBaseline_cache_ok:
  assumes "cache_ok cache"
  shows "cache_ok (fst (loadBaseline d s dur now cache))"
proof (cases rule: loadBaseline_cases[of cache s dur now d])
  case hit
  with assms show ?thesis by simp
next
  case (miss b kept)
  have "distinct (map fst kept)" and "Suc (length kept) \<le> CACHE_MAX_ENTRIES"
    using assms miss(2) by (auto simp: cache_ok_def drop_map[symmetric] distinct_drop CACHE_MAX_ENTRIES_def)
  then show ?thesis using miss(3) map_set_distinct[of kept] map_set_length[of "cacheKey s dur" "(now, b)" kept]
    by (simp add: cache_ok_def)
qed

text \<open>The stretch a rule evaluates is left out of its own baseline, up to 23 h 20 min.\<close>

lemma baseline_range_bound:
  assumes "r \<in> set (baselineRanges t dur)" and "dur \<le> 84000"
  shows "tr_to r \<le> t - (dur * 1000 + 600000)"
  using assms
  by (auto simp: baselineRanges_def Let_def SEASONAL_DAYS_def DAY_MS_def SEASONAL_HALF_WIDTH_MS_def
      RECENT_WINDOW_MS_def split: if_splits)

text \<open>
  For longer rules (the form accepts up to 86,400 s) yesterday's seasonal hour reaches into the
  stretch under evaluation.
\<close>

lemma long_rule_contaminates_baseline:
  "\<exists>r \<in> set (baselineRanges 0 86400). tr_to r > 0 - (86400 * 1000 + 600000)"
  by (auto simp: baselineRanges_def Let_def SEASONAL_DAYS_def DAY_MS_def SEASONAL_HALF_WIDTH_MS_def
      RECENT_WINDOW_MS_def upt_rec)

text \<open>Every entry of the cache was computed by an earlier load under the same key.\<close>

definition justified :: "(db \<times> series_key \<times> int \<times> ms) set \<Rightarrow> cache_key \<Rightarrow> ms \<Rightarrow> baseline option \<Rightarrow> bool" where
  "justified calls k at0 b \<longleftrightarrow> (\<exists>(d, s, dur, now) \<in> calls. cacheKey s dur = k \<and> now = at0
     \<and> b = computeBaseline (map (\<lambda>r. Some (me_value r)) (load_rows d s dur now)))"

definition cache_justified :: "(db \<times> series_key \<times> int \<times> ms) set \<Rightarrow> baseline_cache \<Rightarrow> bool" where
  "cache_justified calls c \<longleftrightarrow> (\<forall>(k, at0, b) \<in> set c. justified calls k at0 b)"

lemma map_set_in: "x \<in> set (map_set k v m) \<Longrightarrow> x = (k, v) \<or> x \<in> set m"
  by (induction m rule: map_set.induct) (auto split: if_splits)

lemma loadBaseline_justified:
  assumes "cache_justified calls c"
  shows "cache_justified (insert (d, s, dur, now) calls) (fst (loadBaseline d s dur now c))"
    and "\<exists>at0. justified (insert (d, s, dur, now) calls) (cacheKey s dur) at0 (snd (loadBaseline d s dur now c))
           \<and> now - CACHE_TTL_MS < at0 \<and> at0 \<le> now"
proof -
  let ?calls = "insert (d, s, dur, now) calls"
  have old: "justified ?calls k at0 b" if "(k, at0, b) \<in> set c" for k at0 b
    using assms that by (fastforce simp: cache_justified_def justified_def)
  have "cache_justified ?calls (fst (loadBaseline d s dur now c))
      \<and> (\<exists>at0. justified ?calls (cacheKey s dur) at0 (snd (loadBaseline d s dur now c))
           \<and> now - CACHE_TTL_MS < at0 \<and> at0 \<le> now)"
  proof (cases rule: loadBaseline_cases[of c s dur now d])
    case (hit at0 b)
    have "justified ?calls (cacheKey s dur) at0 b" by (rule old[OF map_of_SomeD[OF hit(1)]])
    moreover have "now - CACHE_TTL_MS < at0" using hit(2) by simp
    moreover have "cache_justified ?calls c" using old by (auto simp: cache_justified_def)
    ultimately show ?thesis using hit(3,4) by auto
  next
    case (miss b kept)
    have new: "justified ?calls (cacheKey s dur) now b" by (simp add: justified_def miss(1))
    have "set kept \<subseteq> set c" unfolding miss(2) by (auto dest: in_set_dropD)
    then have "cache_justified ?calls (map_set (cacheKey s dur) (now, b) kept)"
      using old new by (auto simp: cache_justified_def dest!: map_set_in)
    with new miss(3) show ?thesis by (auto simp: CACHE_TTL_MS_def)
  qed
  then show "cache_justified ?calls (fst (loadBaseline d s dur now c))"
    and "\<exists>at0. justified ?calls (cacheKey s dur) at0 (snd (loadBaseline d s dur now c))
           \<and> now - CACHE_TTL_MS < at0 \<and> at0 \<le> now" by simp_all
qed

lemma load_all_justified:
  "cache_justified calls c \<Longrightarrow> cache_justified (calls \<union> set hist) (load_all hist c)"
proof (induction hist c arbitrary: calls rule: load_all.induct)
  case (2 d s dur now hist c)
  from loadBaseline_justified(1)[OF "2.prems", of d s dur now] show ?case
    by (auto dest: "2.IH")
qed simp

section \<open>Properties\<close>

text \<open>The baseline is robust. If fewer than half of the finite points lie outside a range \<open>[lo, hi]\<close>,
  then however far out they are, the median stays inside the range and the scale stays below what
  the width and the level of the range allow: past outages do not become the normal level.
\<close>

lemma baseline_robust:
  assumes "computeBaseline vals = Some b"
    and "2 * length (filter (\<lambda>v. v < lo \<or> hi < v) (finite_values vals)) < length (finite_values vals)"
  shows "lo \<le> bl_median b \<and> bl_median b \<le> hi
    \<and> bl_scale b \<le> max (max (MAD_TO_SIGMA * (hi - lo)) (RELATIVE_SCALE_FLOOR * max \<bar>lo\<bar> \<bar>hi\<bar>)) ABSOLUTE_SCALE_FLOOR"
proof -
  let ?xs = "finite_values vals" and ?m = "bl_median b"
  note B = computeBaselineD[OF assms(1)]
  have half: "2 * length (filter (\<lambda>v. v < lo \<or> hi < v) (sort ?xs)) < length (sort ?xs)"
    using assms(2) by (simp add: length_filter_sort)
  have med: "lo \<le> ?m" "?m \<le> hi"
    using median_in_range[OF sorted_sort half] B(1) by simp_all
  let ?dev = "map (\<lambda>v. \<bar>v - ?m\<bar>) (sort ?xs)"
  have "length (filter (\<lambda>u. u < 0 \<or> hi - lo < u) ?dev) = length (filter (\<lambda>v. hi - lo < \<bar>v - ?m\<bar>) (sort ?xs))"
    by (auto simp: filter_map o_def intro!: arg_cong[where f = length] filter_cong)
  also have "\<dots> \<le> length (filter (\<lambda>v. v < lo \<or> hi < v) (sort ?xs))"
    by (rule filter_length_mono) (use med in linarith)
  finally have "2 * length (filter (\<lambda>u. u < 0 \<or> hi - lo < u) (sort ?dev)) < length (sort ?dev)"
    using half by (simp add: length_filter_sort)
  from median_in_range(2)[OF sorted_sort this] have "median (sort ?dev) \<le> hi - lo" .
  then have "MAD_TO_SIGMA * median (sort ?dev) \<le> MAD_TO_SIGMA * (hi - lo)"
    by (simp add: MAD_TO_SIGMA_def)
  moreover have "RELATIVE_SCALE_FLOOR * \<bar>?m\<bar> \<le> RELATIVE_SCALE_FLOOR * max \<bar>lo\<bar> \<bar>hi\<bar>"
    using med by (simp add: RELATIVE_SCALE_FLOOR_def)
  ultimately have "bl_scale b \<le> max (max (MAD_TO_SIGMA * (hi - lo)) (RELATIVE_SCALE_FLOOR * max \<bar>lo\<bar> \<bar>hi\<bar>))
      ABSOLUTE_SCALE_FLOOR"
    unfolding B(2) by (intro max.mono order.refl)
  with med show ?thesis by simp
qed

text \<open>Twenty-five points at 10, five spikes: the baseline stays at 10.\<close>

definition spiky :: "real option list" where
  "spiky = replicate 25 (Some 10) @ replicate 5 (Some 1000000)"

lemma spiky_values: "finite_values spiky = replicate 25 10 @ replicate 5 1000000"
  by (simp add: spiky_def)

lemma spiky_baseline: "\<exists>b. computeBaseline spiky = Some b"
  unfolding computeBaseline_def spiky_values by (simp add: MIN_BASELINE_POINTS_def Let_def)

lemma baseline_robust_witness:
  "\<exists>b. computeBaseline spiky = Some b \<and> bl_median b = 10"
proof -
  obtain b where b: "computeBaseline spiky = Some b" using spiky_baseline by blast
  have "2 * length (filter (\<lambda>v. v < 10 \<or> 10 < v) (finite_values spiky)) < length (finite_values spiky)"
    unfolding spiky_values by simp
  from baseline_robust[OF b this] b show ?thesis by auto
qed

text \<open>The verdict of the detector is calibrated, whatever sample the baseline comes from: the score is in
  \<open>[0, 1)\<close>, it reaches one half exactly when the value is anomalous, a value within 15 % of the
  typical level is never anomalous, and a more sensitive setting flags whatever a less sensitive one
  flags.
\<close>

lemma anomaly_score_calibrated:
  assumes "computeBaseline vals = Some b"
  shows "0 \<le> av_score (assess v b s) \<and> av_score (assess v b s) < 1
    \<and> (av_anomalous (assess v b s) = (1 / 2 \<le> av_score (assess v b s)))
    \<and> (\<bar>v - bl_median b\<bar> < 3 * RELATIVE_SCALE_FLOOR * \<bar>bl_median b\<bar> \<longrightarrow> \<not> av_anomalous (assess v b s))
    \<and> (av_anomalous (assess v b LOW) \<longrightarrow> av_anomalous (assess v b MEDIUM))
    \<and> (av_anomalous (assess v b MEDIUM) \<longrightarrow> av_anomalous (assess v b HIGH))"
proof -
  define m where "m = \<bar>(v - bl_median b) / bl_scale b\<bar>"
  have sc: "0 < bl_scale b" by (rule baseline_scale_pos[OF assms])
  have floor: "RELATIVE_SCALE_FLOOR * \<bar>bl_median b\<bar> \<le> bl_scale b"
    unfolding computeBaselineD(2)[OF assms] by (simp add: le_max_iff_disj)
  have t: "0 < Z_THRESHOLD s" using Z_THRESHOLD_pos[of s] by linarith
  have m0: "0 \<le> m" by (simp add: m_def)
  have near: "\<not> Z_THRESHOLD s \<le> m" if "\<bar>v - bl_median b\<bar> < 3 * RELATIVE_SCALE_FLOOR * \<bar>bl_median b\<bar>"
  proof -
    have "\<bar>v - bl_median b\<bar> < 3 * bl_scale b" using that floor by linarith
    then have "m < 3" using sc by (simp add: m_def abs_divide divide_less_eq)
    then show ?thesis using Z_THRESHOLD_pos[of s] by linarith
  qed
  have score: "av_score (assess v b s) = m / (m + Z_THRESHOLD s)" for s
    by (simp add: assess_def Let_def m_def)
  have flag: "av_anomalous (assess v b s) = (Z_THRESHOLD s \<le> m)" for s
    by (simp add: assess_def Let_def m_def)
  show ?thesis unfolding score flag
    using share_bounds[OF m0 t] half_share_iff[OF m0 t] near by (simp del: divide_le_eq_1)
qed

lemma anomaly_score_calibrated_witness:
  "\<exists>b. computeBaseline spiky = Some b \<and> av_score (assess 1000 b HIGH) < 1"
proof -
  obtain b where b: "computeBaseline spiky = Some b" using spiky_baseline by blast
  from anomaly_score_calibrated[OF b] b show ?thesis by blast
qed

text \<open>A rule never learns from the stretch it is judging: for a duration of at most 23 h 20 min every
  point of the baseline is older than the duration plus ten minutes.
\<close>

lemma own_stretch_excluded:
  assumes "dur \<le> 84000" and "r \<in> set (load_rows d s dur now)"
  shows "me_time r < now - (seconds dur + seconds 600)"
proof -
  from assms(2) have "list_ex (\<lambda>g. tr_from g \<le> me_time r \<and> me_time r < tr_to g) (baselineRanges now dur)"
    by (auto simp: load_rows_def set_find_many dest!: in_set_takeD)
  then obtain g where "g \<in> set (baselineRanges now dur)" and "me_time r < tr_to g"
    by (auto simp: list_ex_iff)
  with baseline_range_bound[OF this(1) assms(1)] show ?thesis by (simp add: seconds_def)
qed

definition sample_point :: "ms \<Rightarrow> real \<Rightarrow> metric_row" where
  "sample_point t v = \<lparr>me_time = t, me_orgId = ''acme'', me_sourceKind = HOST, me_sourceId = ''h1'',
     me_metric = CPU_USAGE_PERCENT, me_instance = [], me_value = v\<rparr>"

definition sample_series :: series_key where
  "sample_series = \<lparr>sk_orgId = ''acme'', sk_sourceKind = HOST, sk_sourceId = ''h1'',
     sk_metric = CPU_USAGE_PERCENT, sk_instance = []\<rparr>"

definition sample_metrics_db :: db where
  "sample_metrics_db = empty_db\<lparr>metricEntries := [sample_point (-1000000) 10, sample_point (-1000) 99]\<rparr>"

lemma own_stretch_excluded_witness:
  "sample_point (-1000000) 10 \<in> set (load_rows sample_metrics_db sample_series 300 0)
   \<and> me_time (sample_point (-1000000) 10) < 0 - (seconds 300 + seconds 600)"
proof -
  have "sample_point (-1000000) 10 \<in> set (load_rows sample_metrics_db sample_series 300 0)"
    by (simp add: load_rows_def sample_metrics_db_def sample_series_def sample_point_def empty_db_def
        find_many_def baselineRanges_def Let_def SEASONAL_DAYS_def DAY_MS_def SEASONAL_HALF_WIDTH_MS_def
        RECENT_WINDOW_MS_def MAX_SAMPLE_POINTS_def)
  with own_stretch_excluded[of 300 "sample_point (-1000000) 10" sample_metrics_db sample_series 0]
  show ?thesis by simp
qed

text \<open>The cache of a process: after any history of loads it holds at most 10,000 entries, and the
  baseline a load returns was computed by itself or by an earlier load of the same series and
  duration less than ten minutes before.
\<close>

lemma served_baseline_fresh:
  "length (load_all hist []) \<le> CACHE_MAX_ENTRIES
   \<and> (\<exists>at0. justified (insert (d, s, dur, now) (set hist)) (cacheKey s dur) at0
              (snd (loadBaseline d s dur now (load_all hist [])))
          \<and> now - CACHE_TTL_MS < at0 \<and> at0 \<le> now)"
proof -
  have "cache_ok (load_all hist c)" if "cache_ok c" for c
    using that by (induction hist c rule: load_all.induct) (auto intro: loadBaseline_cache_ok)
  from this[of "[]"] have "length (load_all hist []) \<le> CACHE_MAX_ENTRIES"
    by (simp add: cache_ok_def CACHE_MAX_ENTRIES_def)
  moreover have "cache_justified (set hist) (load_all hist [])"
    using load_all_justified[of "{}" "[]" hist] by (simp add: cache_justified_def)
  ultimately show ?thesis using loadBaseline_justified(2)[of "set hist" "load_all hist []" d s dur now] by blast
qed

end
