(* ===== verification/Rca.thy ===== *)
theory Rca
  imports Graph Samples "HOL-Library.List_Lexorder" "HOL-Library.Char_ord"
begin

text \<open>
  Root-cause analysis, \<open>src/modules/aiops/rca.ts\<close>: the pure analysis of one incident against the
  other incidents of its organization and the dependency map, its confidence, and the stored result
  that is rewritten only when it changed. Whether a language model is configured is a parameter
  (\<open>wantsLlm\<close>); so is the collation of \<open>localeCompare\<close>.
\<close>

definition RCA_MODEL :: string where "RCA_MODEL = ''ikelyane-rca-v1''"
definition CORRELATION_WINDOW_MS :: ms where "CORRELATION_WINDOW_MS = 15 * 60 * 1000"
definition MAX_REFRESH :: nat where "MAX_REFRESH = 20"
definition MAX_LISTED :: nat where "MAX_LISTED = 10"

record rca_incident =
  ri_id :: ident
  ri_title :: string
  ri_status :: incident_status
  ri_sourceKind :: "metric_source option"
  ri_sourceId :: "ident option"
  ri_sourceLabel :: "string option"
  ri_metric :: "metric_type option"
  ri_startedAt :: ms

record rca_node =
  rn_id :: ident
  rn_refId :: "ident option"
  rn_label :: string

section \<open>The analysis\<close>

text \<open>\<open>Math.round\<close> of a difference in milliseconds to seconds rounds halves up.\<close>

definition rca_ref :: "rca_incident \<Rightarrow> rca_incident \<Rightarrow> rca_incident_ref" where
  "rca_ref i origin = \<lparr>rr_incidentId = ri_id i, rr_title = ri_title i, rr_sourceLabel = ri_sourceLabel i,
     rr_metric = ri_metric i, rr_offsetSec = (ri_startedAt i - ri_startedAt origin + 500) div 1000\<rparr>"

definition by_offset :: "(ident \<Rightarrow> 'k::linorder) \<Rightarrow> rca_incident_ref list \<Rightarrow> rca_incident_ref list" where
  "by_offset coll rs = order_asc (\<lambda>r. \<bar>rr_offsetSec r\<bar>) (order_asc (\<lambda>r. coll (rr_incidentId r)) rs)"

text \<open>\<open>m.set(k, [...(m.get(k) ?? []), v])\<close>\<close>

fun group_push :: "'k \<Rightarrow> 'v \<Rightarrow> ('k \<times> 'v list) list \<Rightarrow> ('k \<times> 'v list) list" where
  "group_push k v [] = [(k, [v])]"
| "group_push k v ((k', vs) # m) = (if k' = k then (k', vs @ [v]) # m else (k', vs) # group_push k v m)"

definition group_get :: "('k \<times> 'v list) list \<Rightarrow> 'k \<Rightarrow> 'v list" where
  "group_get m k = (case map_of m k of None \<Rightarrow> [] | Some vs \<Rightarrow> vs)"

text \<open>A \<open>Map\<close> built from pairs: the last pair of a key wins.\<close>

definition nodeByRef :: "rca_node list \<Rightarrow> ident \<Rightarrow> rca_node option" where
  "nodeByRef nodes r = (if r = [] then None else find_first (\<lambda>n. rn_refId n = Some r) (rev nodes))"

definition labelOf :: "rca_node list \<Rightarrow> ident \<Rightarrow> string" where
  "labelOf nodes v = (case find_first (\<lambda>n. rn_id n = v) (rev nodes) of None \<Rightarrow> v | Some n \<Rightarrow> rn_label n)"

definition source_node :: "rca_node list \<Rightarrow> rca_incident \<Rightarrow> rca_node option" where
  "source_node nodes i = (case ri_sourceId i of None \<Rightarrow> None | Some s \<Rightarrow> nodeByRef nodes s)"

definition in_window :: "rca_incident \<Rightarrow> rca_incident \<Rightarrow> bool" where
  "in_window i o' = (\<bar>ri_startedAt o' - ri_startedAt i\<bar> \<le> CORRELATION_WINDOW_MS)"

definition relevant :: "rca_incident \<Rightarrow> rca_incident \<Rightarrow> bool" where
  "relevant i o' = (ri_status o' \<noteq> RESOLVED \<or> in_window i o')"

definition incidentsByNode ::
  "rca_incident \<Rightarrow> rca_incident list \<Rightarrow> rca_node list \<Rightarrow> (ident \<times> rca_incident list) list" where
  "incidentsByNode i peers nodes = fold (\<lambda>o' m.
     if relevant i o' then (case source_node nodes o' of None \<Rightarrow> m | Some n \<Rightarrow> group_push (rn_id n) o' m) else m) peers []"

definition confidenceOf :: "rca_verdict \<Rightarrow> nat \<Rightarrow> nat \<Rightarrow> nat \<Rightarrow> nat \<Rightarrow> bool \<Rightarrow> real" where
  "confidenceOf verdict roots impacted correlated sameSource first =
     (case verdict of
        V_symptom \<Rightarrow> if roots = 1 then 0.8 else 0.6
      | V_root_cause \<Rightarrow> min 0.9 (0.7 + 0.05 * real impacted + (if first then 0.05 else 0))
      | V_isolated \<Rightarrow> if correlated > 0 then 0.35 else 0.5 + (if sameSource > 0 then 0.1 else 0)
      | V_not_mapped \<Rightarrow> if correlated > 0 \<or> sameSource > 0 then 0.3 else 0.2)"

text \<open>What the dependency map says when the source of the incident is on it.\<close>

record map_view =
  mv_verdict :: rca_verdict
  mv_rootCauses :: "(string \<times> rca_incident_ref list) list"
  mv_impacted :: "(string \<times> rca_incident_ref list) list"
  mv_radius :: "ident list"
  mv_linked :: "ident list"

definition analyze_mapped ::
  "(ident \<Rightarrow> 'k::linorder) \<Rightarrow> rca_incident \<Rightarrow> rca_incident list \<Rightarrow> rca_node list \<Rightarrow> edge list \<Rightarrow> rca_node \<Rightarrow> map_view" where
  "analyze_mapped coll i peers nodes edges self =
     (let byNode = incidentsByNode i peers nodes;
          keys = map fst byNode;
          unhealthy = (if rn_id self \<in> set keys then keys else keys @ [rn_id self]);
          radius = blastRadius edges (rn_id self);
          failingUpstream = filter (\<lambda>v. v \<in> set unhealthy \<and> v \<noteq> rn_id self) (dependenciesOf edges (rn_id self));
          roots = filter (\<lambda>v. v \<in> set failingUpstream) (rootCauseCandidates coll edges unhealthy);
          rootNodes = (if failingUpstream = [] then [] else if roots \<noteq> [] then roots else failingUpstream);
          refs = (\<lambda>v. by_offset coll (map (\<lambda>o'. rca_ref o' i) (group_get byNode v)));
          failingDependents = filter (\<lambda>v. v \<in> set unhealthy) radius
      in \<lparr>mv_verdict = (if failingUpstream \<noteq> [] then V_symptom else if failingDependents \<noteq> [] then V_root_cause else V_isolated),
          mv_rootCauses = map (\<lambda>v. (labelOf nodes v, refs v)) rootNodes,
          mv_impacted = map (\<lambda>v. (labelOf nodes v, refs v)) failingDependents,
          mv_radius = radius,
          mv_linked = map ri_id (concat (map (group_get byNode) (failingUpstream @ rootNodes @ failingDependents)))\<rparr>)"

definition no_map_view :: map_view where
  "no_map_view = \<lparr>mv_verdict = V_not_mapped, mv_rootCauses = [], mv_impacted = [], mv_radius = [], mv_linked = []\<rparr>"

definition analyzeIncident ::
  "(ident \<Rightarrow> 'k::linorder) \<Rightarrow> rca_incident \<Rightarrow> rca_incident list \<Rightarrow> rca_node list \<Rightarrow> edge list \<Rightarrow> rca_findings" where
  "analyzeIncident coll i others nodes edges =
     (let peers = filter (\<lambda>o'. ri_id o' \<noteq> ri_id i) others;
          self = source_node nodes i;
          sameSource = by_offset coll (map (\<lambda>o'. rca_ref o' i)
            (filter (\<lambda>o'. ri_sourceId o' \<noteq> None \<and> ri_sourceId o' = ri_sourceId i \<and> relevant i o') peers));
          mv = (case self of None \<Rightarrow> no_map_view | Some n \<Rightarrow> analyze_mapped coll i peers nodes edges n);
          linkedIds = map rr_incidentId sameSource @ mv_linked mv;
          correlated = by_offset coll (map (\<lambda>o'. rca_ref o' i)
            (filter (\<lambda>o'. in_window i o' \<and> ri_id o' \<notin> set linkedIds) peers));
          firstToStart = list_all (\<lambda>o'. ri_startedAt o' \<ge> ri_startedAt i) (filter (in_window i) peers)
      in \<lparr>rf_verdict = mv_verdict mv, rf_node = map_option rn_label self,
          rf_rootCauses = take MAX_LISTED (mv_rootCauses mv), rf_impacted = take MAX_LISTED (mv_impacted mv),
          rf_blastRadius = (length (mv_radius mv), map (labelOf nodes) (take MAX_LISTED (mv_radius mv))),
          rf_sameSource = take MAX_LISTED sameSource, rf_correlated = take MAX_LISTED correlated,
          rf_firstToStart = firstToStart,
          rf_confidence = confidenceOf (mv_verdict mv) (length (mv_rootCauses mv)) (length (mv_impacted mv))
            (length correlated) (length sameSource) firstToStart\<rparr>)"

section \<open>The stored result\<close>

text \<open>
  The signature is the JSON text of this tuple; \<open>sort()\<close> on strings is the order of code units. JSON
  text is equal exactly when the tuples are.
\<close>

definition sig_ids :: "rca_incident_ref list \<Rightarrow> string" where
  "sig_ids rs = str_join '','' (sort (map rr_incidentId rs))"

type_synonym rca_signature =
  "rca_verdict \<times> string option \<times> (string \<times> string) list \<times> (string \<times> string) list \<times> string \<times> string \<times> nat \<times> bool"

definition rca_signature :: "rca_findings \<Rightarrow> rca_signature" where
  "rca_signature f = (rf_verdict f, rf_node f, map (\<lambda>(l, rs). (l, sig_ids rs)) (rf_rootCauses f),
     map (\<lambda>(l, rs). (l, sig_ids rs)) (rf_impacted f), sig_ids (rf_sameSource f), sig_ids (rf_correlated f),
     fst (rf_blastRadius f), rf_firstToStart f)"

definition rca_view :: "incident_row \<Rightarrow> rca_incident" where
  "rca_view r = \<lparr>ri_id = in_id r, ri_title = in_title r, ri_status = in_status r, ri_sourceKind = in_sourceKind r,
     ri_sourceId = in_sourceId r, ri_sourceLabel = in_sourceLabel r, ri_metric = in_metric r, ri_startedAt = in_startedAt r\<rparr>"

definition loadContext :: "ident \<Rightarrow> ms \<Rightarrow> db \<Rightarrow> rca_incident list \<times> rca_node list \<times> edge list" where
  "loadContext orgId around d =
     (let windowStart = around - CORRELATION_WINDOW_MS; windowEnd = around + CORRELATION_WINDOW_MS in
      (map rca_view (take 500 (order_desc in_startedAt (find_many (\<lambda>r. in_orgId r = orgId
          \<and> (in_status r \<noteq> RESOLVED \<or> (windowStart \<le> in_startedAt r \<and> in_startedAt r \<le> windowEnd))) (incidents d)))),
       map (\<lambda>n. \<lparr>rn_id = tn_id n, rn_refId = tn_refId n, rn_label = tn_label n\<rparr>) (find_many (\<lambda>n. tn_orgId n = orgId) (topologyNodes d)),
       map (\<lambda>e. \<lparr>parent = sd_parentNodeId e, child = sd_childNodeId e\<rparr>) (find_many (\<lambda>e. sd_orgId e = orgId) (serviceDependencies d))))"

primrec verdict_name :: "rca_verdict \<Rightarrow> string" where
  "verdict_name V_symptom = ''symptom''"
| "verdict_name V_root_cause = ''root_cause''"
| "verdict_name V_isolated = ''isolated''"
| "verdict_name V_not_mapped = ''not_mapped''"

definition findings_upd :: "bool \<Rightarrow> ms \<Rightarrow> rca_findings \<Rightarrow> incident_row \<Rightarrow> incident_row" where
  "findings_upd wantsLlm now findings r = r\<lparr>in_rcaFindings := Some findings,
     in_rcaConfidence := Some (rf_confidence findings), in_rcaModel := Some RCA_MODEL, in_rcaGeneratedAt := Some now,
     in_rcaSummaryEn := None, in_rcaSummaryFr := None, in_rcaLlmRequestedAt := (if wantsLlm then Some now else None),
     in_rcaLlmAttempts := 0, in_rcaLlmError := None\<rparr>"

definition store_findings :: "dbgen \<Rightarrow> bool \<Rightarrow> ident \<Rightarrow> ms \<Rightarrow> rca_findings \<Rightarrow> db \<Rightarrow> db" where
  "store_findings g wantsLlm iid now findings d =
     d\<lparr>incidents := update_many (\<lambda>r. in_id r = iid) (findings_upd wantsLlm now findings) (incidents d),
       incidentEvents := insert_row \<lparr>ie_id = cuid g 0, ie_incidentId = iid, ie_type = EV_RCA_GENERATED, ie_message = None,
          ie_actorId = None, ie_data = Some (JObj [(''model'', JStr RCA_MODEL), (''verdict'', JStr (verdict_name (rf_verdict findings))),
            (''confidence'', JNum (rf_confidence findings))]), ie_createdAt = clock g\<rparr> (incidentEvents d)\<rparr>"

definition refreshIncidentRca ::
  "(ident \<Rightarrow> 'k::linorder) \<Rightarrow> dbgen \<Rightarrow> bool \<Rightarrow> ident \<Rightarrow> ident \<Rightarrow> ms \<Rightarrow> bool \<Rightarrow> db \<Rightarrow> db \<times> bool" where
  "refreshIncidentRca coll g wantsLlm orgId incidentId now force d =
     (case find_first (\<lambda>r. in_id r = incidentId \<and> in_orgId r = orgId) (incidents d) of
        None \<Rightarrow> (d, False)
      | Some r \<Rightarrow>
          let (others, nodes, edges) = loadContext orgId (in_startedAt r) d;
              findings = analyzeIncident coll (rca_view r) others nodes edges
          in if \<not> force \<and> (case in_rcaFindings r of None \<Rightarrow> False | Some p \<Rightarrow> rca_signature p = rca_signature findings)
             then (d, False)
             else (store_findings g wantsLlm (in_id r) now findings d, True))"

definition analyzeAfterOpen ::
  "(ident \<Rightarrow> 'k::linorder) \<Rightarrow> (nat \<Rightarrow> dbgen) \<Rightarrow> bool \<Rightarrow> ident \<Rightarrow> ident \<Rightarrow> ms \<Rightarrow> db \<Rightarrow> db" where
  "analyzeAfterOpen coll gens wantsLlm orgId incidentId now d =
     (let d1 = fst (refreshIncidentRca coll (gens 0) wantsLlm orgId incidentId now False d);
          neighbours = take MAX_REFRESH (order_desc in_startedAt (find_many (\<lambda>r. in_orgId r = orgId \<and> in_id r \<noteq> incidentId
            \<and> in_status r \<noteq> RESOLVED) (incidents d1)))
      in fold (\<lambda>(k, r) d. fst (refreshIncidentRca coll (gens (Suc k)) wantsLlm orgId (in_id r) now False d))
           (enumerate 0 neighbours) d1)"

section \<open>Lemmas\<close>

lemma group_get_push: "group_get (group_push k v m) k' = (if k' = k then group_get m k' @ [v] else group_get m k')"
  by (induction k v m rule: group_push.induct) (auto simp: group_get_def)

lemma group_keys_push: "set (map fst (group_push k v m)) = insert k (set (map fst m))"
  by (induction k v m rule: group_push.induct) auto

text \<open>The incidents filed under a node are the relevant peers whose source is that node.\<close>

definition filed :: "rca_incident \<Rightarrow> rca_node list \<Rightarrow> ident \<Rightarrow> rca_incident \<Rightarrow> bool" where
  "filed i nodes v o' \<longleftrightarrow> relevant i o' \<and> (case source_node nodes o' of None \<Rightarrow> False | Some n \<Rightarrow> rn_id n = v)"

lemma incidentsByNode_get: "set (group_get (incidentsByNode i peers nodes) v) = {o' \<in> set peers. filed i nodes v o'}"
proof -
  have "set (group_get (fold (\<lambda>o' m. if relevant i o' then (case source_node nodes o' of None \<Rightarrow> m
      | Some n \<Rightarrow> group_push (rn_id n) o' m) else m) peers m) v) = set (group_get m v) \<union> {o' \<in> set peers. filed i nodes v o'}" for m
  proof (induction peers arbitrary: m)
    case (Cons p peers)
    then show ?case by (auto simp: group_get_push filed_def split: option.splits)
  qed simp
  from this[of "[]"] show ?thesis by (simp add: incidentsByNode_def group_get_def)
qed

lemma incidentsByNode_keys: "set (map fst (incidentsByNode i peers nodes)) = {v. \<exists>o' \<in> set peers. filed i nodes v o'}"
proof -
  have "set (map fst (fold (\<lambda>o' m. if relevant i o' then (case source_node nodes o' of None \<Rightarrow> m
      | Some n \<Rightarrow> group_push (rn_id n) o' m) else m) peers m)) = set (map fst m) \<union> {v. \<exists>o' \<in> set peers. filed i nodes v o'}" for m
  proof (induction peers arbitrary: m)
    case (Cons p peers)
    show ?case
    proof (cases "relevant i p")
      case True
      then show ?thesis using Cons.IH by (cases "source_node nodes p") (auto simp: filed_def group_keys_push simp del: set_map)
    next
      case False
      then show ?thesis using Cons.IH by (auto simp: filed_def)
    qed
  qed simp
  from this[of "[]"] show ?thesis by (simp add: incidentsByNode_def)
qed

lemma unhealthy_keys:
  "v \<noteq> rn_id self \<Longrightarrow> v \<in> set (let keys = map fst (incidentsByNode i peers nodes) in
      if rn_id self \<in> set keys then keys else keys @ [rn_id self]) \<longleftrightarrow> (\<exists>o' \<in> set peers. filed i nodes v o')"
  using incidentsByNode_keys[of i peers nodes] by (auto simp: Let_def)

text \<open>Failing dependencies and failing dependents of the analysed node.\<close>

definition upstream_failing :: "rca_incident \<Rightarrow> rca_incident list \<Rightarrow> rca_node list \<Rightarrow> edge list \<Rightarrow> ident \<Rightarrow> ident \<Rightarrow> bool" where
  "upstream_failing i peers nodes edges self v \<longleftrightarrow> v \<noteq> self \<and> (self, v) \<in> (depends edges)\<^sup>+ \<and> (\<exists>o' \<in> set peers. filed i nodes v o')"

definition downstream_failing :: "rca_incident \<Rightarrow> rca_incident list \<Rightarrow> rca_node list \<Rightarrow> edge list \<Rightarrow> ident \<Rightarrow> ident \<Rightarrow> bool" where
  "downstream_failing i peers nodes edges self v \<longleftrightarrow> v \<noteq> self \<and> (v, self) \<in> (depends edges)\<^sup>+ \<and> (\<exists>o' \<in> set peers. filed i nodes v o')"

lemma analyze_mapped_facts:
  fixes coll i peers nodes edges self
  defines "mv \<equiv> analyze_mapped coll i peers nodes edges self"
  shows "mv_verdict mv = (if \<exists>v. upstream_failing i peers nodes edges (rn_id self) v then V_symptom
      else if \<exists>v. downstream_failing i peers nodes edges (rn_id self) v then V_root_cause else V_isolated)"
    and "set (mv_linked mv) = ri_id ` {o' \<in> set peers. \<exists>v. filed i nodes v o'
      \<and> (upstream_failing i peers nodes edges (rn_id self) v \<or> downstream_failing i peers nodes edges (rn_id self) v)}"
    and "mv_radius mv = blastRadius edges (rn_id self)"
proof -
  define unhealthy where "unhealthy = (let keys = map fst (incidentsByNode i peers nodes) in
      if rn_id self \<in> set keys then keys else keys @ [rn_id self])"
  define up where "up = filter (\<lambda>v. v \<in> set unhealthy \<and> v \<noteq> rn_id self) (dependenciesOf edges (rn_id self))"
  define roots where "roots = filter (\<lambda>v. v \<in> set up) (rootCauseCandidates coll edges unhealthy)"
  define rn where "rn = (if up = [] then [] else if roots \<noteq> [] then roots else up)"
  define down where "down = filter (\<lambda>v. v \<in> set unhealthy) (blastRadius edges (rn_id self))"
  note keys = unhealthy_keys[of _ self i peers nodes, folded unhealthy_def]
  have up: "set up = {v. upstream_failing i peers nodes edges (rn_id self) v}"
    using keys by (auto simp: up_def dependenciesOf_set upstream_failing_def)
  have down: "set down = {v. downstream_failing i peers nodes edges (rn_id self) v}"
    using keys by (auto simp: down_def blastRadius_set downstream_failing_def)
  have rn: "set rn \<subseteq> set up" by (auto simp: rn_def roots_def)
  have verdict: "mv_verdict mv = (if up \<noteq> [] then V_symptom else if down \<noteq> [] then V_root_cause else V_isolated)"
    by (simp add: mv_def analyze_mapped_def Let_def up_def down_def unhealthy_def)
  have linked: "mv_linked mv = map ri_id (concat (map (group_get (incidentsByNode i peers nodes)) (up @ rn @ down)))"
    by (simp add: mv_def analyze_mapped_def Let_def up_def down_def unhealthy_def rn_def roots_def)
  have "(up \<noteq> []) = (\<exists>v. upstream_failing i peers nodes edges (rn_id self) v)"
    and "(down \<noteq> []) = (\<exists>v. downstream_failing i peers nodes edges (rn_id self) v)"
    using up down by (metis (mono_tags) empty_Collect_eq set_empty)+
  then show "mv_verdict mv = (if \<exists>v. upstream_failing i peers nodes edges (rn_id self) v then V_symptom
      else if \<exists>v. downstream_failing i peers nodes edges (rn_id self) v then V_root_cause else V_isolated)"
    unfolding verdict by simp
  have "set (mv_linked mv) = ri_id ` (\<Union>v \<in> set up \<union> set down. {o' \<in> set peers. filed i nodes v o'})"
    unfolding linked using rn by (auto simp: incidentsByNode_get)
  also have "\<dots> = ri_id ` {o' \<in> set peers. \<exists>v. filed i nodes v o' \<and> v \<in> set up \<union> set down}" by auto
  finally show "set (mv_linked mv) = ri_id ` {o' \<in> set peers. \<exists>v. filed i nodes v o'
      \<and> (upstream_failing i peers nodes edges (rn_id self) v \<or> downstream_failing i peers nodes edges (rn_id self) v)}"
    unfolding up down by simp
  show "mv_radius mv = blastRadius edges (rn_id self)" by (simp add: mv_def analyze_mapped_def Let_def)
qed

lemma confidence_bounds: "0.2 \<le> confidenceOf v r i c s f \<and> confidenceOf v r i c s f \<le> 0.9"
  by (cases v) (auto simp: confidenceOf_def min_def)

lemma set_by_offset [simp]: "set (by_offset coll rs) = set rs"
  by (simp add: by_offset_def)

text \<open>Storing findings changes no column the analysis reads.\<close>

lemma insort_key_map: "insort_key k (u x) (map u xs) = map u (insort_key (\<lambda>r. k (u r)) x xs)"
  by (induction xs) auto

lemma sort_key_map: "sort_key k (map u xs) = map u (sort_key (\<lambda>r. k (u r)) xs)"
  by (induction xs) (simp_all add: insort_key_map)

lemma findings_upd_keeps [simp]:
  "in_id (findings_upd w now f r) = in_id r" "in_orgId (findings_upd w now f r) = in_orgId r"
  "in_status (findings_upd w now f r) = in_status r" "in_startedAt (findings_upd w now f r) = in_startedAt r"
  "rca_view (findings_upd w now f r) = rca_view r" "in_rcaFindings (findings_upd w now f r) = Some f"
  "in_ruleId (findings_upd w now f r) = in_ruleId r" "in_sourceId (findings_upd w now f r) = in_sourceId r"
  "in_metric (findings_upd w now f r) = in_metric r" "in_acknowledgedAt (findings_upd w now f r) = in_acknowledgedAt r"
  "in_resolvedAt (findings_upd w now f r) = in_resolvedAt r" "in_resolvedBy (findings_upd w now f r) = in_resolvedBy r"
  "in_acknowledgedBy (findings_upd w now f r) = in_acknowledgedBy r"
  by (simp_all add: findings_upd_def rca_view_def)

lemma loadContext_store:
  "loadContext orgId t (store_findings g w iid now f d) = loadContext orgId t d"
proof -
  define u where "u = (\<lambda>r. if in_id r = iid then findings_upd w now f r else r)"
  have keep: "in_orgId (u r) = in_orgId r" "in_status (u r) = in_status r" "in_startedAt (u r) = in_startedAt r"
      "rca_view (u r) = rca_view r" for r by (simp_all add: u_def findings_upd_keeps)
  have "incidents (store_findings g w iid now f d) = map u (incidents d)"
    by (simp add: store_findings_def update_many_def u_def)
  moreover have "topologyNodes (store_findings g w iid now f d) = topologyNodes d"
    "serviceDependencies (store_findings g w iid now f d) = serviceDependencies d" by (simp_all add: store_findings_def)
  ultimately show ?thesis
    by (simp add: loadContext_def Let_def find_many_def order_desc_def filter_map comp_def keep sort_key_map take_map)
qed

section \<open>Properties\<close>

text \<open>The verdict of the root-cause analysis is exact. An incident whose source is not on the map is
  not mapped; otherwise it is a symptom exactly when something it depends on, directly or
  transitively, has a relevant incident (still active, or started within 15 minutes), the root
  cause exactly when nothing it depends on has one but something that depends on it does, and
  isolated otherwise. The confidence lies between 0.2 and 0.9, and an incident listed as merely
  correlated is neither on something the analysed source depends on nor on something that depends on it.
\<close>

lemma rca_verdict_exact:
  assumes "peers = filter (\<lambda>o'. ri_id o' \<noteq> ri_id i) others" and "distinct (map ri_id others)"
  shows "rf_verdict (analyzeIncident coll i others nodes edges) =
      (case source_node nodes i of None \<Rightarrow> V_not_mapped
       | Some n \<Rightarrow> if \<exists>v. upstream_failing i peers nodes edges (rn_id n) v then V_symptom
                  else if \<exists>v. downstream_failing i peers nodes edges (rn_id n) v then V_root_cause else V_isolated)
    \<and> 0.2 \<le> rf_confidence (analyzeIncident coll i others nodes edges)
    \<and> rf_confidence (analyzeIncident coll i others nodes edges) \<le> 0.9
    \<and> (\<forall>o' \<in> set peers. \<forall>n m. rca_ref o' i \<in> set (rf_correlated (analyzeIncident coll i others nodes edges))
         \<and> source_node nodes i = Some n \<and> source_node nodes o' = Some m \<and> rn_id m \<noteq> rn_id n
         \<longrightarrow> (rn_id n, rn_id m) \<notin> (depends edges)\<^sup>+ \<and> (rn_id m, rn_id n) \<notin> (depends edges)\<^sup>+)"
proof -
  let ?f = "analyzeIncident coll i others nodes edges"
  have "rf_verdict ?f = (case source_node nodes i of None \<Rightarrow> V_not_mapped
      | Some n \<Rightarrow> mv_verdict (analyze_mapped coll i peers nodes edges n))"
    by (simp add: analyzeIncident_def Let_def assms(1) no_map_view_def split: option.split)
  moreover have "0.2 \<le> rf_confidence ?f \<and> rf_confidence ?f \<le> 0.9"
    using confidence_bounds by (simp add: analyzeIncident_def Let_def)
  moreover have "(rn_id n, rn_id m) \<notin> (depends edges)\<^sup>+ \<and> (rn_id m, rn_id n) \<notin> (depends edges)\<^sup>+"
    if o: "o' \<in> set peers" "rca_ref o' i \<in> set (rf_correlated ?f)" and n: "source_node nodes i = Some n"
      and m: "source_node nodes o' = Some m" "rn_id m \<noteq> rn_id n" for o' n m
  proof -
    from o(2) obtain p where p: "p \<in> set peers" "in_window i p" "rca_ref p i = rca_ref o' i"
        "ri_id p \<notin> set (mv_linked (analyze_mapped coll i peers nodes edges n))"
      by (auto simp: analyzeIncident_def Let_def assms(1) n dest!: in_set_takeD)
    have "ri_id p = ri_id o'" using p(3) by (simp add: rca_ref_def)
    then have "p = o'" using assms p(1) o(1) by (auto dest: inj_onD simp: distinct_map)
    with p have "filed i nodes (rn_id m) o'" using m(1) by (simp add: filed_def relevant_def)
    then show ?thesis using p \<open>p = o'\<close> m(2) unfolding analyze_mapped_facts(2)
      by (auto simp: upstream_failing_def downstream_failing_def)
  qed
  ultimately show ?thesis by (simp add: analyze_mapped_facts(1) split: option.split)
qed

text \<open>The web server fails while the database it needs fails too: a symptom.\<close>

definition sample_rca_incident :: "ident \<Rightarrow> ident \<Rightarrow> ms \<Rightarrow> rca_incident" where
  "sample_rca_incident iid sid t = \<lparr>ri_id = iid, ri_title = iid, ri_status = OPEN, ri_sourceKind = Some HOST,
     ri_sourceId = Some sid, ri_sourceLabel = None, ri_metric = None, ri_startedAt = t\<rparr>"

definition sample_rca_nodes :: "rca_node list" where
  "sample_rca_nodes = [\<lparr>rn_id = ''web'', rn_refId = Some ''h1'', rn_label = ''Web''\<rparr>, \<lparr>rn_id = ''db'', rn_refId = Some ''h2'', rn_label = ''DB''\<rparr>]"

lemma rca_verdict_exact_witness:
  "rf_verdict (analyzeIncident (\<lambda>n. length n) (sample_rca_incident ''i1'' ''h1'' 0)
      [sample_rca_incident ''i1'' ''h1'' 0, sample_rca_incident ''i2'' ''h2'' 5000] sample_rca_nodes
      [\<lparr>parent = ''web'', child = ''db''\<rparr>]) = V_symptom
   \<and> rf_confidence (analyzeIncident (\<lambda>n. length n) (sample_rca_incident ''i1'' ''h1'' 0)
      [sample_rca_incident ''i1'' ''h1'' 0, sample_rca_incident ''i2'' ''h2'' 5000] sample_rca_nodes
      [\<lparr>parent = ''web'', child = ''db''\<rparr>]) \<le> 0.9"
proof -
  let ?i = "sample_rca_incident ''i1'' ''h1'' 0" and ?o = "sample_rca_incident ''i2'' ''h2'' 5000"
    and ?e = "[\<lparr>parent = ''web'', child = ''db''\<rparr>] :: edge list"
  have "upstream_failing ?i [?o] sample_rca_nodes ?e ''web'' ''db''"
    by (auto simp: upstream_failing_def filed_def relevant_def source_node_def nodeByRef_def sample_rca_nodes_def
        sample_rca_incident_def depends_def)
  moreover have "source_node sample_rca_nodes ?i = Some \<lparr>rn_id = ''web'', rn_refId = Some ''h1'', rn_label = ''Web''\<rparr>"
    by (simp add: source_node_def nodeByRef_def sample_rca_nodes_def sample_rca_incident_def)
  ultimately show ?thesis
    using rca_verdict_exact[of "[?o]" ?i "[?i, ?o]" "\<lambda>n. length n" sample_rca_nodes ?e]
    by (auto simp: sample_rca_incident_def)
qed

text \<open>Recomputing a root-cause analysis writes only when the findings changed: a second refresh of the
  same incident, at any later time, changes nothing and reports that nothing was written.
\<close>

lemma rca_refresh_idempotent:
  assumes "refreshIncidentRca coll g w orgId iid now force d = (d1, written)"
  shows "refreshIncidentRca coll g' w' orgId iid now' False d1 = (d1, False)"
proof (cases "find_first (\<lambda>r. in_id r = iid \<and> in_orgId r = orgId) (incidents d)")
  case None
  with assms show ?thesis by (auto simp: refreshIncidentRca_def)
next
  case (Some r)
  obtain others nodes edges where ctx: "loadContext orgId (in_startedAt r) d = (others, nodes, edges)"
    by (cases "loadContext orgId (in_startedAt r) d") auto
  define f where "f = analyzeIncident coll (rca_view r) others nodes edges"
  show ?thesis
  proof (cases "\<not> force \<and> (case in_rcaFindings r of None \<Rightarrow> False | Some p \<Rightarrow> rca_signature p = rca_signature f)")
    case True
    note same = True[unfolded f_def]
    have "d1 = d" using assms Some ctx same by (simp add: refreshIncidentRca_def Let_def)
    then show ?thesis using Some ctx same by (simp add: refreshIncidentRca_def Let_def)
  next
    case False
    note other = False[unfolded f_def]
    have d1: "d1 = store_findings g w (in_id r) now f d"
      using assms Some ctx other unfolding f_def by (simp add: refreshIncidentRca_def Let_def split: if_splits)
    have r: "r \<in> set (incidents d)" "in_id r = iid" "in_orgId r = orgId" using find_first_SomeD[OF Some] by simp_all
    define u where "u = (\<lambda>x. if in_id x = iid then findings_upd w now f x else x)"
    have rows: "incidents d1 = map u (incidents d)" by (simp add: d1 store_findings_def update_many_def r(2) u_def)
    have "find_first (\<lambda>x. in_id x = iid \<and> in_orgId x = orgId) (map u t)
        = map_option u (find_first (\<lambda>x. in_id x = iid \<and> in_orgId x = orgId) t)" for t
      by (induction t) (auto simp: u_def)
    then have row: "find_first (\<lambda>x. in_id x = iid \<and> in_orgId x = orgId) (incidents d1) = Some (findings_upd w now f r)"
      using Some rows r(2) by (simp add: u_def)
    have "loadContext orgId (in_startedAt r) d1 = (others, nodes, edges)" by (simp add: d1 loadContext_store ctx)
    then show ?thesis using row by (simp add: refreshIncidentRca_def f_def)
  qed
qed

lemma rca_refresh_idempotent_witness:
  "\<exists>d1. refreshIncidentRca (\<lambda>n. length n) sample_gen True ''acme'' ''i1'' 0 False (empty_db\<lparr>incidents := [sample_incident]\<rparr>) = (d1, True)
     \<and> refreshIncidentRca (\<lambda>n. length n) sample_gen True ''acme'' ''i1'' 60000 False d1 = (d1, False)"
proof -
  let ?d = "empty_db\<lparr>incidents := [sample_incident]\<rparr>"
  obtain d1 b where e: "refreshIncidentRca (\<lambda>n. length n) sample_gen True ''acme'' ''i1'' 0 False ?d = (d1, b)" by fastforce
  then have b: "b = True" by (auto simp: refreshIncidentRca_def sample_incident_def Let_def split_beta)
  from rca_refresh_idempotent[OF e] e b show ?thesis by blast
qed

end
