(* ===== verification/Target_Guard.thy ===== *)
theory Target_Guard
  imports Prelude
begin

text \<open>
  The guard against requests to private targets, \<open>src/lib/net/target-guard.ts\<close>, and the webhook
  client above it, \<open>src/lib/notify/http.ts\<close>.

  \<open>net.isIP\<close> is modelled as a parser of the textual forms it accepts (dotted quads without leading
  zeros; colon-separated hexadecimal groups with at most one \<open>::\<close> and an optional dotted tail; zone
  identifiers, which never occur in the host of a URL, are not accepted), giving a 32- or a 128-bit
  word; \<open>net.BlockList\<close> is comparison of the leading bits. Parameters: the URL parser of the runtime,
  the resolver (\<open>dns.lookup\<close>) and the exchange with the server once connected.
\<close>

unbundle bit_operations_syntax

section \<open>Textual addresses\<close>

datatype ip = IPv4 "32 word" | IPv6 "128 word"

definition digit_value :: "char \<Rightarrow> nat option" where
  "digit_value c = (let n = code_unit c in if 48 \<le> n \<and> n \<le> 57 then Some (n - 48) else None)"

definition hex_value :: "char \<Rightarrow> nat option" where
  "hex_value c = (let n = code_unit c in
     if 48 \<le> n \<and> n \<le> 57 then Some (n - 48)
     else if 97 \<le> n \<and> n \<le> 102 then Some (n - 87)
     else if 65 \<le> n \<and> n \<le> 70 then Some (n - 55) else None)"

fun numeral_in :: "(char \<Rightarrow> nat option) \<Rightarrow> nat \<Rightarrow> nat \<Rightarrow> string \<Rightarrow> nat option" where
  "numeral_in digit b acc [] = Some acc"
| "numeral_in digit b acc (c # cs) = (case digit c of None \<Rightarrow> None | Some v \<Rightarrow> numeral_in digit b (acc * b + v) cs)"

fun collect :: "'a option list \<Rightarrow> 'a list option" where
  "collect [] = Some []"
| "collect (None # xs) = None"
| "collect (Some x # xs) = map_option ((#) x) (collect xs)"

definition octet :: "string \<Rightarrow> nat option" where
  "octet s = (if s = [] \<or> 3 < length s \<or> (1 < length s \<and> hd s = CHR ''0'') then None
     else case numeral_in digit_value 10 0 s of Some n \<Rightarrow> if n \<le> 255 then Some n else None | None \<Rightarrow> None)"

definition parse_v4 :: "string \<Rightarrow> nat option" where
  "parse_v4 s = (case collect (map octet (split_on (CHR ''.'') s)) of
       Some [a, b, c, d] \<Rightarrow> Some (((a * 256 + b) * 256 + c) * 256 + d)
     | _ \<Rightarrow> None)"

definition hex_group :: "string \<Rightarrow> nat option" where
  "hex_group s = (if s = [] \<or> 4 < length s then None else numeral_in hex_value 16 0 s)"

text \<open>The groups of one side; the last part may be a dotted quad, which makes two groups.\<close>

fun v6_parts :: "string list \<Rightarrow> nat list option" where
  "v6_parts [] = Some []"
| "v6_parts [p] = (case parse_v4 p of
       Some n \<Rightarrow> Some [n div 65536, n mod 65536]
     | None \<Rightarrow> map_option (\<lambda>g. [g]) (hex_group p))"
| "v6_parts (p # q # ps) = (case hex_group p of None \<Rightarrow> None | Some g \<Rightarrow> map_option ((#) g) (v6_parts (q # ps)))"

definition v6_side :: "string \<Rightarrow> nat list option" where
  "v6_side s = (if s = [] then Some [] else v6_parts (split_on (CHR '':'') s))"

fun split_double :: "string \<Rightarrow> (string \<times> string) option" where
  "split_double (c # c' # cs) = (if c = CHR '':'' \<and> c' = CHR '':'' then Some ([], cs)
     else map_option (\<lambda>(l, r). (c # l, r)) (split_double (c' # cs)))"
| "split_double cs = None"

text \<open>A dotted tail is only accepted at the end of the address, so the left side is plain groups.\<close>

definition parse_v6 :: "string \<Rightarrow> nat list option" where
  "parse_v6 s = (case split_double s of
       None \<Rightarrow> (case v6_side s of Some gs \<Rightarrow> if length gs = 8 then Some gs else None | None \<Rightarrow> None)
     | Some (l, r) \<Rightarrow>
         (case (if l = [] then Some [] else collect (map hex_group (split_on (CHR '':'') l)), v6_side r) of
            (Some gl, Some gr) \<Rightarrow> if length gl + length gr \<le> 7
               then Some (gl @ replicate (8 - length gl - length gr) 0 @ gr) else None
          | _ \<Rightarrow> None))"

definition v6_number :: "nat list \<Rightarrow> nat" where
  "v6_number gs = foldl (\<lambda>acc g. acc * 65536 + g) 0 gs"

definition parse_ip :: "string \<Rightarrow> ip option" where
  "parse_ip s = (case parse_v4 s of
       Some n \<Rightarrow> Some (IPv4 (word_of_nat n))
     | None \<Rightarrow> map_option (\<lambda>gs. IPv6 (word_of_nat (v6_number gs))) (parse_v6 s))"

definition isIP :: "string \<Rightarrow> nat" where
  "isIP s = (case parse_ip s of None \<Rightarrow> 0 | Some (IPv4 _) \<Rightarrow> 4 | Some (IPv6 _) \<Rightarrow> 6)"

section \<open>Block lists\<close>

definition BLOCKED_V4 :: "(string \<times> nat) list" where
  "BLOCKED_V4 = [(''0.0.0.0'', 8), (''10.0.0.0'', 8), (''100.64.0.0'', 10), (''127.0.0.0'', 8),
     (''169.254.0.0'', 16), (''172.16.0.0'', 12), (''192.0.0.0'', 24), (''192.0.2.0'', 24),
     (''192.88.99.0'', 24), (''192.168.0.0'', 16), (''198.18.0.0'', 15), (''198.51.100.0'', 24),
     (''203.0.113.0'', 24), (''224.0.0.0'', 4), (''240.0.0.0'', 4)]"

definition BLOCKED_V6 :: "(string \<times> nat) list" where
  "BLOCKED_V6 = [(''::'', 128), (''::1'', 128), (''::ffff:0:0'', 96), (''64:ff9b::'', 96), (''64:ff9b:1::'', 48),
     (''100::'', 64), (''2001::'', 23), (''2001:db8::'', 32), (''2002::'', 16), (''fc00::'', 7),
     (''fe80::'', 10), (''fec0::'', 10), (''ff00::'', 8)]"

definition same_prefix :: "nat \<Rightarrow> 'a::len word \<Rightarrow> 'a word \<Rightarrow> bool" where
  "same_prefix bits a b = (drop_bit (LENGTH('a) - bits) a = drop_bit (LENGTH('a) - bits) b)"

definition in_subnet :: "ip \<Rightarrow> string \<times> nat \<Rightarrow> bool" where
  "in_subnet a sub = (case (a, parse_ip (fst sub)) of
       (IPv4 w, Some (IPv4 p)) \<Rightarrow> same_prefix (snd sub) w p
     | (IPv6 w, Some (IPv6 p)) \<Rightarrow> same_prefix (snd sub) w p
     | _ \<Rightarrow> False)"

definition isPublicAddress :: "string \<Rightarrow> bool" where
  "isPublicAddress address = (case parse_ip address of
       None \<Rightarrow> False
     | Some (IPv4 w) \<Rightarrow> \<not> list_ex (in_subnet (IPv4 w)) BLOCKED_V4
     | Some (IPv6 w) \<Rightarrow> \<not> list_ex (in_subnet (IPv6 w)) BLOCKED_V6)"

section \<open>Literal targets and guarded resolution\<close>

record url =
  url_protocol :: string
  url_hostname :: string

definition hostnameOf :: "url \<Rightarrow> string" where
  "hostnameOf u = (if starts_with (url_hostname u) ''['' then butlast (drop 1 (url_hostname u)) else url_hostname u)"

text \<open>What a connection attempt can fail with: the guard's own error or an error code of the system.\<close>

datatype net_error = Blocked_target string | Errno string

definition assertLiteralTargetAllowed :: "url \<Rightarrow> bool \<Rightarrow> net_error option" where
  "assertLiteralTargetAllowed u allowPrivate =
     (let host = hostnameOf u in
      if \<not> allowPrivate \<and> isIP host \<noteq> 0 \<and> \<not> isPublicAddress host then Some (Blocked_target host) else None)"

text \<open>
  The resolver returns an error code or a list of addresses. With \<open>all\<close> the caller receives the list,
  otherwise its first element.
\<close>

definition guardedLookup ::
  "(string \<Rightarrow> string + string list) \<Rightarrow> bool \<Rightarrow> string \<Rightarrow> bool \<Rightarrow> net_error + string list" where
  "guardedLookup lookup allowPrivate hostname all =
     (case lookup hostname of
        Inl err \<Rightarrow> Inl (Errno err)
      | Inr addrs \<Rightarrow>
          (case (if allowPrivate then None else find_first (\<lambda>a. \<not> isPublicAddress a) addrs) of
             Some a \<Rightarrow> Inl (Blocked_target a)
           | None \<Rightarrow> if addrs = [] then Inl (Errno ''ENOTFOUND'')
                     else if all then Inr addrs else Inr [hd addrs]))"

section \<open>Webhooks\<close>

datatype webhook_code =
  WC_invalid_url | WC_blocked_target | WC_redirect | WC_http_status | WC_timeout | WC_dns | WC_connection

primrec webhook_code_name :: "webhook_code \<Rightarrow> string" where
  "webhook_code_name WC_invalid_url = ''invalid_url''"
| "webhook_code_name WC_blocked_target = ''blocked_target''"
| "webhook_code_name WC_redirect = ''redirect''"
| "webhook_code_name WC_http_status = ''http_status''"
| "webhook_code_name WC_timeout = ''timeout''"
| "webhook_code_name WC_dns = ''dns''"
| "webhook_code_name WC_connection = ''connection''"

record webhook_error =
  we_code :: webhook_code
  we_detail :: "string option"

definition webhook_message :: "webhook_error \<Rightarrow> string" where
  "webhook_message e = (case we_detail e of
       Some d \<Rightarrow> if d = [] then webhook_code_name (we_code e) else webhook_code_name (we_code e) @ '': '' @ d
     | None \<Rightarrow> webhook_code_name (we_code e))"

definition classify :: "net_error \<Rightarrow> webhook_error" where
  "classify e = (case e of
       Blocked_target a \<Rightarrow> \<lparr>we_code = WC_blocked_target, we_detail = Some a\<rparr>
     | Errno code \<Rightarrow>
         if code \<in> {''ENOTFOUND'', ''EAI_AGAIN'', ''EAI_NODATA'', ''EAI_NONAME''}
         then \<lparr>we_code = WC_dns, we_detail = Some code\<rparr>
         else if code = ''ABORT_ERR'' then \<lparr>we_code = WC_timeout, we_detail = None\<rparr>
         else \<lparr>we_code = WC_connection, we_detail = or_null code\<rparr>)"

text \<open>
  The runtime connects to an address literal directly and asks the \<open>lookup\<close> option for a name. The
  result pairs the addresses a connection is attempted to with the outcome; \<open>exchange\<close> sends the request
  to them and gives the error code of a failed one or the status of the response.
\<close>

definition connect_to ::
  "(string \<Rightarrow> string + string list) \<Rightarrow> bool \<Rightarrow> bool \<Rightarrow> url \<Rightarrow> net_error + string list" where
  "connect_to lookup all allowPrivate u =
     (let host = hostnameOf u in
      if isIP host \<noteq> 0 then Inr [host] else guardedLookup lookup allowPrivate host all)"

definition postJson ::
  "(string \<Rightarrow> url option) \<Rightarrow> (string \<Rightarrow> string + string list) \<Rightarrow> (string list \<Rightarrow> string + nat) \<Rightarrow> (nat \<Rightarrow> string)
   \<Rightarrow> bool \<Rightarrow> string \<Rightarrow> bool \<Rightarrow> string list \<times> (unit, webhook_error) result" where
  "postJson parse_url lookup exchange show_nat all rawUrl allowPrivate =
     (case parse_url rawUrl of
        None \<Rightarrow> ([], fail \<lparr>we_code = WC_invalid_url, we_detail = None\<rparr>)
      | Some u \<Rightarrow>
          if url_protocol u \<noteq> ''https:'' \<and> url_protocol u \<noteq> ''http:''
          then ([], fail \<lparr>we_code = WC_invalid_url, we_detail = None\<rparr>)
          else case assertLiteralTargetAllowed u allowPrivate of
            Some e \<Rightarrow> ([], fail (classify e))
          | None \<Rightarrow>
            (case connect_to lookup all allowPrivate u of
               Inl e \<Rightarrow> ([], fail (classify e))
             | Inr addrs \<Rightarrow>
               (addrs, case exchange addrs of
                  Inl code \<Rightarrow> fail (classify (Errno code))
                | Inr status \<Rightarrow>
                    if 200 \<le> status \<and> status < 300 then ok ()
                    else if 300 \<le> status \<and> status < 400
                    then fail \<lparr>we_code = WC_redirect, we_detail = Some (show_nat status)\<rparr>
                    else fail \<lparr>we_code = WC_http_status, we_detail = Some (show_nat status)\<rparr>)))"

definition ends_with :: "string \<Rightarrow> string \<Rightarrow> bool" where
  "ends_with s p = starts_with (rev s) (rev p)"

definition webhookUrlAllowed :: "(string \<Rightarrow> url option) \<Rightarrow> string \<Rightarrow> bool \<Rightarrow> bool" where
  "webhookUrlAllowed parse_url rawUrl allowPrivateTargets =
     (case parse_url rawUrl of
        None \<Rightarrow> False
      | Some u \<Rightarrow>
          if url_protocol u \<noteq> ''https:'' \<and> url_protocol u \<noteq> ''http:'' then False
          else let host = toLowerCase (url_hostname u) in
            if \<not> allowPrivateTargets \<and> (host = ''localhost'' \<or> ends_with host ''.localhost'') then False
            else assertLiteralTargetAllowed u allowPrivateTargets = None)"

section \<open>Lemmas: dotted quads\<close>

text \<open>The decimal form of a byte and its parse.\<close>

definition show_byte :: "nat \<Rightarrow> string" where
  "show_byte n =
     (if n < 10 then [char_of (48 + n)]
      else if n < 100 then [char_of (48 + n div 10), char_of (48 + n mod 10)]
      else [char_of (48 + n div 100), char_of (48 + n div 10 mod 10), char_of (48 + n mod 10)])"

definition dotted :: "nat \<Rightarrow> nat \<Rightarrow> nat \<Rightarrow> nat \<Rightarrow> string" where
  "dotted a b c d = show_byte a @ ''.'' @ show_byte b @ ''.'' @ show_byte c @ ''.'' @ show_byte d"

lemma code_unit_digit: "k < 10 \<Longrightarrow> code_unit (char_of (48 + k)) = 48 + k"
  by (simp add: code_unit_def)

lemma digit_value_digit: "k < 10 \<Longrightarrow> digit_value (char_of (48 + k)) = Some k"
  by (simp add: digit_value_def code_unit_digit Let_def)

lemma digit_char_eq: "k < 10 \<Longrightarrow> (char_of (48 + k) = c) = (48 + k = code_unit c)" for c :: char
  by (metis char_of_char code_unit_def code_unit_digit)

lemma octet_show_byte:
  assumes "n < 256"
  shows "octet (show_byte n) = Some n"
proof -
  have d: "n div 100 < 10" "n div 10 mod 10 < 10" "n mod 10 < 10" using assms by simp_all
  have "n div 100 = n div 10 div 10" by (simp flip: div_mult2_eq)
  then have q: "n div 100 * 10 + n div 10 mod 10 = n div 10" by simp
  consider "n < 10" | "10 \<le> n" "n < 100" | "100 \<le> n" by linarith
  then show ?thesis
  proof cases
    case 1
    then show ?thesis by (simp add: octet_def show_byte_def digit_value_digit)
  next
    case 2
    then have "n div 10 < 10" "n div 10 \<noteq> 0" by simp_all
    then show ?thesis using 2 assms d by (simp add: octet_def show_byte_def digit_value_digit digit_char_eq code_unit_def)
  next
    case 3
    then have "n div 100 \<noteq> 0" by simp
    then show ?thesis using 3 assms d q
      by (simp add: octet_def show_byte_def digit_value_digit digit_char_eq code_unit_def)
  qed
qed

lemma show_byte_no_dot: "n < 256 \<Longrightarrow> CHR ''.'' \<notin> set (show_byte n)"
  using less_mult_imp_div_less[of n 10 100] less_mult_imp_div_less[of n 10 10] digit_char_eq[of "n div 100" "CHR ''.''"] digit_char_eq[of "n div 10 mod 10" "CHR ''.''"]
    digit_char_eq[of "n mod 10" "CHR ''.''"] digit_char_eq[of "n div 10" "CHR ''.''"] digit_char_eq[of n "CHR ''.''"]
  by (auto simp: show_byte_def code_unit_def split: if_splits)

lemma split_on_plain: "d \<notin> set s \<Longrightarrow> split_on d s = [s]"
  by (induction s) auto

lemma split_on_cons: "d \<notin> set s \<Longrightarrow> split_on d (s @ d # t) = s # split_on d t"
  by (induction s) auto

lemma parse_v4_dotted:
  assumes "a < 256" "b < 256" "c < 256" "d < 256"
  shows "parse_v4 (dotted a b c d) = Some (((a * 256 + b) * 256 + c) * 256 + d)"
  using assms by (simp add: parse_v4_def dotted_def split_on_cons split_on_plain show_byte_no_dot octet_show_byte)

lemma isIP_dotted:
  assumes "a < 256" "b < 256" "c < 256" "d < 256"
  shows "isIP (dotted a b c d) = 4"
  using parse_v4_dotted[OF assms] by (simp add: isIP_def parse_ip_def)

text \<open>Comparing leading bits is comparing quotients.\<close>

lemma same_prefix_nat:
  assumes "n < 2 ^ LENGTH('a)" and "m < 2 ^ LENGTH('a)"
  shows "same_prefix bits (word_of_nat n :: 'a::len word) (word_of_nat m)
    \<longleftrightarrow> n div 2 ^ (LENGTH('a) - bits) = m div 2 ^ (LENGTH('a) - bits)"
  unfolding same_prefix_def word_unat_eq_iff unat_drop_bit_eq
  using assms by (simp add: unat_of_nat drop_bit_eq_div)

definition blocked_quads :: "((nat \<times> nat \<times> nat \<times> nat) \<times> nat) list" where
  "blocked_quads = [((0, 0, 0, 0), 8), ((10, 0, 0, 0), 8), ((100, 64, 0, 0), 10), ((127, 0, 0, 0), 8),
     ((169, 254, 0, 0), 16), ((172, 16, 0, 0), 12), ((192, 0, 0, 0), 24), ((192, 0, 2, 0), 24),
     ((192, 88, 99, 0), 24), ((192, 168, 0, 0), 16), ((198, 18, 0, 0), 15), ((198, 51, 100, 0), 24),
     ((203, 0, 113, 0), 24), ((224, 0, 0, 0), 4), ((240, 0, 0, 0), 4)]"

lemma BLOCKED_V4_quads:
  "BLOCKED_V4 = map (\<lambda>((p, q, r, s), bits). (dotted p q r s, bits)) blocked_quads"
  by code_simp

abbreviation quad :: "nat \<Rightarrow> nat \<Rightarrow> nat \<Rightarrow> nat \<Rightarrow> nat" where
  "quad a b c d \<equiv> ((a * 256 + b) * 256 + c) * 256 + d"

lemma quad_bound: "a < 256 \<Longrightarrow> b < 256 \<Longrightarrow> c < 256 \<Longrightarrow> d < 256 \<Longrightarrow> quad a b c d < 2 ^ 32"
  by simp

lemma in_subnet_v4:
  assumes "n < 2 ^ 32" and "p < 256" "q < 256" "r < 256" "s < 256"
  shows "in_subnet (IPv4 (word_of_nat n)) (dotted p q r s, bits)
    \<longleftrightarrow> n div 2 ^ (32 - bits) = quad p q r s div 2 ^ (32 - bits)"
proof -
  have "parse_ip (dotted p q r s) = Some (IPv4 (word_of_nat (quad p q r s)))"
    using parse_v4_dotted[OF assms(2-5)] by (simp add: parse_ip_def)
  moreover have "same_prefix bits (word_of_nat n :: 32 word) (word_of_nat (quad p q r s))
      \<longleftrightarrow> n div 2 ^ (32 - bits) = quad p q r s div 2 ^ (32 - bits)"
    using same_prefix_nat[where 'a = 32, of n "quad p q r s" bits] assms(1) quad_bound[OF assms(2-5)] by simp
  ultimately show ?thesis by (simp add: in_subnet_def)
qed

lemma quad_div:
  assumes "a < 256" "b < 256" "c < 256" "d < 256"
  shows "quad a b c d div 16777216 = a" and "quad a b c d div 65536 = a * 256 + b"
    and "quad a b c d div 256 = (a * 256 + b) * 256 + c" and "quad a b c d div 4194304 = a * 4 + b div 64"
    and "quad a b c d div 1048576 = a * 16 + b div 16" and "quad a b c d div 131072 = a * 128 + b div 2"
    and "quad a b c d div 268435456 = a div 16"
  using assms by (simp_all add: algebra_simps)

lemma div_range:
  assumes "0 < k"
  shows "b div k = q \<longleftrightarrow> q * k \<le> b \<and> b < Suc q * (k::nat)"
proof
  assume "b div k = q"
  then show "q * k \<le> b \<and> b < Suc q * k"
    using div_mult_mod_eq[of b k] mod_less_divisor[OF assms, of b] by (auto simp: add.commute)
next
  assume "q * k \<le> b \<and> b < Suc q * k"
  then show "b div k = q" by (intro div_nat_eqI) (simp_all add: mult.commute)
qed

lemma mixed_radix:
  assumes "q < k" and "Q < k"
  shows "a * k + q = A * k + Q \<longleftrightarrow> a = A \<and> q = (Q::nat)"
  using assms by (metis add_left_imp_eq div_mult_self3 div_less add_cancel_left_right add.commute mult.commute not_less_zero)

definition special_use_v4 :: "nat \<Rightarrow> nat \<Rightarrow> nat \<Rightarrow> bool" where
  "special_use_v4 a b c \<longleftrightarrow> a = 0 \<or> a = 10 \<or> (a = 100 \<and> 64 \<le> b \<and> b \<le> 127) \<or> a = 127 \<or> (a = 169 \<and> b = 254)
     \<or> (a = 172 \<and> 16 \<le> b \<and> b \<le> 31) \<or> (a = 192 \<and> b = 0 \<and> (c = 0 \<or> c = 2)) \<or> (a = 192 \<and> b = 88 \<and> c = 99)
     \<or> (a = 192 \<and> b = 168) \<or> (a = 198 \<and> (b = 18 \<or> b = 19)) \<or> (a = 198 \<and> b = 51 \<and> c = 100)
     \<or> (a = 203 \<and> b = 0 \<and> c = 113) \<or> 224 \<le> a"

lemma blocked_v4_iff:
  assumes o: "a < 256" "b < 256" "c < 256" "d < 256"
  shows "list_ex (in_subnet (IPv4 (word_of_nat (quad a b c d)))) BLOCKED_V4 \<longleftrightarrow> special_use_v4 a b c"
proof -
  define N where "N = quad a b c d"
  note sub = in_subnet_v4[OF quad_bound[OF o], folded N_def] and quot = quad_div[OF o, folded N_def]
  have "list_ex (in_subnet (IPv4 (word_of_nat N))) BLOCKED_V4 \<longleftrightarrow>
      a = 0 \<or> a = 10 \<or> a * 4 + b div 64 = 401 \<or> a = 127 \<or> a * 256 + b = 43518 \<or> a * 16 + b div 16 = 2753
      \<or> (a * 256 + b) * 256 + c = 12582912 \<or> (a * 256 + b) * 256 + c = 12582914
      \<or> (a * 256 + b) * 256 + c = 12605539 \<or> a * 256 + b = 49320 \<or> a * 128 + b div 2 = 25353
      \<or> (a * 256 + b) * 256 + c = 12989284 \<or> (a * 256 + b) * 256 + c = 13303921 \<or> a div 16 = 14 \<or> a div 16 = 15"
    unfolding BLOCKED_V4_quads blocked_quads_def by (simp add: sub quot)
  also have "\<dots> \<longleftrightarrow> special_use_v4 a b c"
  proof -
    have "b div 64 = 1 \<longleftrightarrow> 64 \<le> b \<and> b \<le> 127" "b div 16 = 1 \<longleftrightarrow> 16 \<le> b \<and> b \<le> 31" "b div 2 = 9 \<longleftrightarrow> b = 18 \<or> b = 19"
      by (auto simp: div_range)
    moreover have "b div 64 < 4" "b div 16 < 16" "b div 2 < 128" using o(2) by simp_all
    ultimately have e0: "a * 4 + b div 64 = 401 \<longleftrightarrow> a = 100 \<and> 64 \<le> b \<and> b \<le> 127"
        "a * 16 + b div 16 = 2753 \<longleftrightarrow> a = 172 \<and> 16 \<le> b \<and> b \<le> 31"
        "a * 128 + b div 2 = 25353 \<longleftrightarrow> a = 198 \<and> (b = 18 \<or> b = 19)"
      using mixed_radix[of "b div 64" 4 1 a 100] mixed_radix[of "b div 16" 16 1 a 172] mixed_radix[of "b div 2" 128 9 a 198]
      by simp_all
    have e1: "a * 256 + b = 43518 \<longleftrightarrow> a = 169 \<and> b = 254" using mixed_radix[of b 256 254 a 169] o(2) by simp
    have e2: "a * 256 + b = 49320 \<longleftrightarrow> a = 192 \<and> b = 168" using mixed_radix[of b 256 168 a 192] o(2) by simp
    have e3: "(a * 256 + b) * 256 + c = 12582912 \<longleftrightarrow> a = 192 \<and> b = 0 \<and> c = 0"
      using mixed_radix[of c 256 0 "a * 256 + b" 49152] mixed_radix[of b 256 0 a 192] o(2,3) by simp
    have e4: "(a * 256 + b) * 256 + c = 12582914 \<longleftrightarrow> a = 192 \<and> b = 0 \<and> c = 2"
      using mixed_radix[of c 256 2 "a * 256 + b" 49152] mixed_radix[of b 256 0 a 192] o(2,3) by simp
    have e5: "(a * 256 + b) * 256 + c = 12605539 \<longleftrightarrow> a = 192 \<and> b = 88 \<and> c = 99"
      using mixed_radix[of c 256 99 "a * 256 + b" 49240] mixed_radix[of b 256 88 a 192] o(2,3) by simp
    have e6: "(a * 256 + b) * 256 + c = 12989284 \<longleftrightarrow> a = 198 \<and> b = 51 \<and> c = 100"
      using mixed_radix[of c 256 100 "a * 256 + b" 50739] mixed_radix[of b 256 51 a 198] o(2,3) by simp
    have e7: "(a * 256 + b) * 256 + c = 13303921 \<longleftrightarrow> a = 203 \<and> b = 0 \<and> c = 113"
      using mixed_radix[of c 256 113 "a * 256 + b" 51968] mixed_radix[of b 256 0 a 203] o(2,3) by simp
    have e8: "a div 16 = 14 \<or> a div 16 = 15 \<longleftrightarrow> 224 \<le> a" using o(1) by (auto simp: div_range)
    show ?thesis unfolding special_use_v4_def e0 e1 e2 e3 e4 e5 e6 e7 e8 by argo
  qed
  finally show ?thesis unfolding N_def .
qed

section \<open>Lemmas: IPv6 groups\<close>

lemma hex_value_bound: "hex_value c = Some v \<Longrightarrow> v < 16"
  by (auto simp: hex_value_def Let_def split: if_splits)

lemma numeral_in_bound:
  assumes "\<And>c v. digit c = Some v \<Longrightarrow> v < b"
  shows "numeral_in digit b acc s = Some n \<Longrightarrow> n < Suc acc * b ^ length s"
proof (induction s arbitrary: acc)
  case (Cons c s)
  then obtain v where v: "digit c = Some v" "numeral_in digit b (acc * b + v) s = Some n" by (auto split: option.splits)
  have "Suc (acc * b + v) \<le> Suc acc * b" using assms[OF v(1)] by simp
  then have "Suc (acc * b + v) * b ^ length s \<le> Suc acc * b * b ^ length s" by (rule mult_le_mono1)
  with Cons.IH[OF v(2)] have "n < Suc acc * b * b ^ length s" by (rule less_le_trans)
  then show ?case by (simp only: length_Cons power_Suc mult.assoc)
qed simp

lemma hex_group_bound:
  assumes "hex_group s = Some g"
  shows "g < 65536"
proof -
  from assms have len: "length s \<le> 4" and n: "numeral_in hex_value 16 0 s = Some g"
    by (auto simp: hex_group_def split: if_splits)
  have "g < 16 ^ length s" using numeral_in_bound[OF hex_value_bound n] by simp
  also have "\<dots> \<le> 16 ^ 4" using len by (intro power_increasing) simp_all
  finally show ?thesis by simp
qed

lemma collect_Some: "collect xs = Some ys \<Longrightarrow> xs = map Some ys"
  by (induction xs arbitrary: ys rule: collect.induct) auto

lemma octet_bound: "octet s = Some n \<Longrightarrow> n < 256"
  by (auto simp: octet_def split: if_splits option.splits)

lemma parse_v4_quad:
  assumes "parse_v4 s = Some n"
  obtains a b c d where "a < 256" "b < 256" "c < 256" "d < 256" "n = quad a b c d"
proof -
  from assms obtain a b c d where "collect (map octet (split_on (CHR ''.'') s)) = Some [a, b, c, d]" "n = quad a b c d"
    by (auto simp: parse_v4_def split: option.splits list.splits)
  moreover from collect_Some[OF this(1)] have "\<forall>x \<in> {a, b, c, d}. \<exists>t. octet t = Some x"
    by (auto simp: map_eq_Cons_conv)
  ultimately show thesis using octet_bound by (intro that[of a b c d]) auto
qed

lemma v6_parts_bound: "v6_parts ps = Some gs \<Longrightarrow> g \<in> set gs \<Longrightarrow> g < 65536"
proof (induction ps arbitrary: gs rule: v6_parts.induct)
  case (2 p)
  show ?case
  proof (cases "parse_v4 p")
    case None
    with 2 show ?thesis using hex_group_bound by auto
  next
    case (Some n)
    then obtain a b c d where "a < 256" "b < 256" "c < 256" "d < 256" "n = quad a b c d" by (rule parse_v4_quad)
    then have "n < 2 ^ 32" using quad_bound by simp
    with 2 Some show ?thesis by auto
  qed
next
  case (3 p q ps)
  then show ?case using hex_group_bound by (auto split: option.splits)
qed simp

lemma parse_v6_groups:
  assumes "parse_v6 s = Some gs"
  shows "length gs = 8" and "\<forall>g \<in> set gs. g < 65536"
proof -
  have side: "g < 65536" if "v6_side t = Some l" "g \<in> set l" for t l g
    using that v6_parts_bound by (auto simp: v6_side_def split: if_splits)
  have left: "g < 65536" if "collect (map hex_group ts) = Some l" "g \<in> set l" for ts l g
    using collect_Some[OF that(1)] that(2) hex_group_bound
    by (metis (no_types, lifting) imageE image_eqI image_set list.set_map)
  show "length gs = 8" "\<forall>g \<in> set gs. g < 65536"
    using assms by (auto simp: parse_v6_def side split: option.splits prod.splits if_splits dest: side left)
qed

lemma v6_number_8: "v6_number [a, b, c, d, e, f, g, h]
    = a * 2 ^ 112 + (b * 2 ^ 96 + c * 2 ^ 80 + d * 2 ^ 64 + e * 2 ^ 48 + f * 2 ^ 32 + g * 2 ^ 16 + h)"
  by (simp add: v6_number_def)

lemma v6_number_quot:
  assumes "length gs = 8" and "\<forall>g \<in> set gs. g < 65536"
  shows "v6_number gs < 2 ^ 128" and "v6_number gs div 2 ^ 112 = hd gs"
    and "v6_number gs div 2 ^ 32 = foldl (\<lambda>acc g. acc * 65536 + g) 0 (take 6 gs)"
proof -
  from assms(1) obtain a b c d e f g h where gs: "gs = [a, b, c, d, e, f, g, h]"
    by (auto simp: numeral_eq_Suc length_Suc_conv)
  have bd: "a < 65536" "b < 65536" "c < 65536" "d < 65536" "e < 65536" "f < 65536" "g < 65536" "h < 65536"
    using assms(2) by (auto simp: gs)
  show "v6_number gs < 2 ^ 128" using bd unfolding gs v6_number_8 by simp
  show "v6_number gs div 2 ^ 112 = hd gs"
    using bd unfolding gs v6_number_8 by (subst div_mult_self3) simp_all
  show "v6_number gs div 2 ^ 32 = foldl (\<lambda>acc g. acc * 65536 + g) 0 (take 6 gs)"
    using bd unfolding gs by (simp add: v6_number_def div_range)
qed

text \<open>The prefixes of the block list that matter for private networks, parsed.\<close>

lemmas parse_simps = parse_v6_def v6_side_def hex_group_def hex_value_def code_unit_def parse_v4_def octet_def digit_value_def

lemma parse_private_v6:
  "parse_v6 ''fc00::'' = Some [64512, 0, 0, 0, 0, 0, 0, 0]"
  "parse_v6 ''fe80::'' = Some [65152, 0, 0, 0, 0, 0, 0, 0]"
  "parse_v6 ''fec0::'' = Some [65216, 0, 0, 0, 0, 0, 0, 0]"
  "parse_v6 ''ff00::'' = Some [65280, 0, 0, 0, 0, 0, 0, 0]"
  "parse_v6 ''::1'' = Some [0, 0, 0, 0, 0, 0, 0, 1]"
  "parse_v6 ''::'' = Some [0, 0, 0, 0, 0, 0, 0, 0]"
  "parse_v6 ''::ffff:0:0'' = Some [0, 0, 0, 0, 0, 65535, 0, 0]"
  by (simp_all add: parse_simps, simp_all add: numeral_eq_Suc)

lemma in_subnet_v6:
  assumes "length gs = 8" "\<forall>g \<in> set gs. g < 65536" and "parse_v4 t = None" "parse_v6 t = Some ps"
  shows "in_subnet (IPv6 (word_of_nat (v6_number gs))) (t, bits)
    \<longleftrightarrow> v6_number gs div 2 ^ (128 - bits) = v6_number ps div 2 ^ (128 - bits)"
proof -
  have "v6_number gs < 2 ^ 128" and "v6_number ps < 2 ^ 128"
    using v6_number_quot(1)[OF assms(1,2)] v6_number_quot(1)[OF parse_v6_groups[OF assms(4)]] by simp_all
  then show ?thesis using same_prefix_nat[where 'a = 128, of "v6_number gs" "v6_number ps" bits] assms(3,4)
    by (simp add: in_subnet_def parse_ip_def)
qed

text \<open>
  The private IPv6 space by its groups: loopback and unspecified, addresses that wrap an IPv4
  address, unique-local, link- and site-local, multicast.
\<close>

definition private_v6 :: "nat list \<Rightarrow> bool" where
  "private_v6 gs \<longleftrightarrow> gs = [0, 0, 0, 0, 0, 0, 0, 0] \<or> gs = [0, 0, 0, 0, 0, 0, 0, 1] \<or> take 6 gs = [0, 0, 0, 0, 0, 65535]
     \<or> (64512 \<le> hd gs \<and> hd gs < 65024) \<or> (65152 \<le> hd gs \<and> hd gs < 65280) \<or> 65280 \<le> hd gs"

lemma quot_chain: "n div 2 ^ (a + b) = n div 2 ^ a div 2 ^ b" for n :: nat
  by (simp add: power_add div_mult2_eq)

lemma private_v6_blocked:
  assumes g: "length gs = 8" "\<forall>g \<in> set gs. g < 65536" and "private_v6 gs"
  shows "list_ex (in_subnet (IPv6 (word_of_nat (v6_number gs)))) BLOCKED_V6"
proof -
  define N where "N = v6_number gs"
  note sub = in_subnet_v6[OF g, folded N_def]
  note top = v6_number_quot(2)[OF g, folded N_def]
  have v4: "parse_v4 t = None" if "t \<in> {''fc00::'', ''fe80::'', ''fec0::'', ''ff00::'', ''::1'', ''::'', ''::ffff:0:0''}" for t
    using that by (auto simp: parse_simps)
  have hd_bound: "hd gs < 65536" using g by (cases gs) auto
  have hd_quot: "N div 2 ^ (128 - (16 - k)) = hd gs div 2 ^ k" if "k \<le> 16" for k
    using quot_chain[of N 112 k] that top by simp
  have pre: "in_subnet (IPv6 (word_of_nat N)) (t, 16 - k) \<longleftrightarrow> hd gs div 2 ^ k = hd ps div 2 ^ k"
    if "parse_v4 t = None" "parse_v6 t = Some ps" "k \<le> 16" for t ps k
    using sub[OF that(1,2), of "16 - k"] hd_quot[OF that(3)] that(3)
      quot_chain[of "v6_number ps" 112 k] v6_number_quot(2)[OF parse_v6_groups[OF that(2)]] by simp
  note P = parse_private_v6
  consider "gs = [0, 0, 0, 0, 0, 0, 0, 0]" | "gs = [0, 0, 0, 0, 0, 0, 0, 1]" | "take 6 gs = [0, 0, 0, 0, 0, 65535]"
    | "64512 \<le> hd gs" "hd gs < 65024" | "65152 \<le> hd gs" "hd gs < 65216" | "65216 \<le> hd gs" "hd gs < 65280" | "65280 \<le> hd gs"
    using assms(3) unfolding private_v6_def by linarith
  then have "\<exists>s \<in> set BLOCKED_V6. in_subnet (IPv6 (word_of_nat N)) s"
  proof cases
    case 1
    then show ?thesis using sub[OF v4 P(6), of 128] by (intro bexI[of _ "(''::'', 128)"]) (simp_all add: N_def BLOCKED_V6_def)
  next
    case 2
    then show ?thesis using sub[OF v4 P(5), of 128] by (intro bexI[of _ "(''::1'', 128)"]) (simp_all add: N_def BLOCKED_V6_def)
  next
    case 3
    have "v6_number [0, 0, 0, 0, 0, 65535, 0, 0] div 2 ^ 32 = N div 2 ^ 32"
      using v6_number_quot(3)[OF g] 3 v6_number_quot(3)[OF parse_v6_groups[OF P(7)]] by (simp add: N_def)
    then show ?thesis using sub[OF v4 P(7), of 96]
      by (intro bexI[of _ "(''::ffff:0:0'', 96)"]) (simp_all add: BLOCKED_V6_def)
  next
    case 4
    then have "hd gs div 512 = 126" by (simp add: div_range)
    then show ?thesis using pre[OF v4 P(1), of 9] by (intro bexI[of _ "(''fc00::'', 7)"]) (simp_all add: BLOCKED_V6_def)
  next
    case 5
    then have "hd gs div 64 = 1018" by (simp add: div_range)
    then show ?thesis using pre[OF v4 P(2), of 6] by (intro bexI[of _ "(''fe80::'', 10)"]) (simp_all add: BLOCKED_V6_def)
  next
    case 6
    then have "hd gs div 64 = 1019" by (simp add: div_range)
    then show ?thesis using pre[OF v4 P(3), of 6] by (intro bexI[of _ "(''fec0::'', 10)"]) (simp_all add: BLOCKED_V6_def)
  next
    case 7
    then have "hd gs div 256 = 255" using hd_bound by (simp add: div_range)
    then show ?thesis using pre[OF v4 P(4), of 8] by (intro bexI[of _ "(''ff00::'', 8)"]) (simp_all add: BLOCKED_V6_def)
  qed
  then show ?thesis by (auto simp: N_def list_ex_iff)
qed

lemma public_quad:
  assumes "a < 256" "b < 256" "c < 256" "d < 256"
  shows "isPublicAddress (dotted a b c d) \<longleftrightarrow> \<not> special_use_v4 a b c"
  using blocked_v4_iff[OF assms] parse_v4_dotted[OF assms] by (simp add: isPublicAddress_def parse_ip_def)

lemma public_groups:
  assumes "isPublicAddress s" and "parse_v4 s = None" and "parse_v6 s = Some gs"
  shows "\<not> private_v6 gs"
  using assms private_v6_blocked[OF parse_v6_groups[OF assms(3)]]
  by (auto simp: isPublicAddress_def parse_ip_def)

text \<open>Every address a guarded request connects to has passed the guard.\<close>

lemma guardedLookup_public:
  "guardedLookup lookup False h all = Inr addrs \<Longrightarrow> a \<in> set addrs \<Longrightarrow> isPublicAddress a"
  by (auto simp: guardedLookup_def find_first_None_iff split: sum.splits option.splits if_splits)

lemma connect_public:
  assumes "assertLiteralTargetAllowed u False = None" and "connect_to lookup all False u = Inr addrs" and "a \<in> set addrs"
  shows "isPublicAddress a"
  using assms guardedLookup_public[of lookup "hostnameOf u" all addrs a]
  by (auto simp: connect_to_def assertLiteralTargetAllowed_def Let_def split: if_splits)

section \<open>Properties\<close>

text \<open>C40.
  A webhook never reaches a private network: whatever the URL, the resolver and the server do, every
  address a guarded request connects to is public. For a dotted quad this means it is outside all
  special-use ranges (loopback, 10/8, 172.16/12, 192.168/16, link-local with the cloud metadata
  address, carrier-grade NAT, multicast and the rest); for an IPv6 address that it is not loopback,
  does not wrap an IPv4 address, and is not unique-local, link-local or multicast.
\<close>

theorem webhook_never_private:
  assumes "addr \<in> set (fst (postJson parse_url lookup exchange show_nat all rawUrl False))"
  shows "isPublicAddress addr
    \<and> (\<forall>a b c d. a < 256 \<and> b < 256 \<and> c < 256 \<and> d < 256 \<and> addr = dotted a b c d \<longrightarrow> \<not> special_use_v4 a b c)
    \<and> (\<forall>gs. parse_v4 addr = None \<and> parse_v6 addr = Some gs \<longrightarrow> \<not> private_v6 gs)"
proof -
  from assms obtain u addrs where "assertLiteralTargetAllowed u False = None"
      "connect_to lookup all False u = Inr addrs" "addr \<in> set addrs"
    by (auto simp: postJson_def split: option.splits if_splits sum.splits)
  then have "isPublicAddress addr" by (rule connect_public)
  then show ?thesis using public_quad public_groups by blast
qed

text \<open>A host that resolves to a public address is contacted there.\<close>

definition sample_url :: "string \<Rightarrow> url option" where
  "sample_url s = Some \<lparr>url_protocol = ''https:'', url_hostname = s\<rparr>"

theorem webhook_never_private_witness:
  "''8.8.8.8'' \<in> set (fst (postJson sample_url (\<lambda>_. Inr [''8.8.8.8'']) (\<lambda>_. Inr 200) (\<lambda>_. []) True ''hooks'' False))
   \<and> isPublicAddress ''8.8.8.8''
   \<and> fst (postJson sample_url (\<lambda>_. Inr [''127.0.0.1'']) (\<lambda>_. Inr 200) (\<lambda>_. []) True ''hooks'' False) = []"
proof -
  have quads: "''8.8.8.8'' = dotted 8 8 8 8" "''127.0.0.1'' = dotted 127 0 0 1" by code_simp+
  have pub: "isPublicAddress ''8.8.8.8''" "\<not> isPublicAddress ''127.0.0.1''"
    unfolding quads by (simp_all add: public_quad special_use_v4_def)
  have name: "isIP ''hooks'' = 0" by (simp add: isIP_def parse_ip_def parse_simps)
  have m: "''8.8.8.8'' \<in> set (fst (postJson sample_url (\<lambda>_. Inr [''8.8.8.8'']) (\<lambda>_. Inr 200) (\<lambda>_. []) True ''hooks'' False))"
    by (simp add: postJson_def sample_url_def assertLiteralTargetAllowed_def hostnameOf_def connect_to_def name
        guardedLookup_def pub(1))
  have "fst (postJson sample_url (\<lambda>_. Inr [''127.0.0.1'']) (\<lambda>_. Inr 200) (\<lambda>_. []) True ''hooks'' False) = []"
    by (simp add: postJson_def sample_url_def assertLiteralTargetAllowed_def hostnameOf_def connect_to_def name
        guardedLookup_def pub(2))
  with m webhook_never_private[OF m] show ?thesis by blast
qed

end
