(* ===== verification/Notify.thy ===== *)
theory Notify
  imports Samples Target_Guard
begin

text \<open>
  Incident notifications, \<open>src/modules/alerts/notify.ts\<close>: the texts and payloads, the fan-out to the
  channels of a rule, the pause between two notifications.

  Parameters: how JavaScript prints a number, the mail transport, and the parameters of the webhook
  client (\<open>Target_Guard\<close>). The em dash of the subject line (U+2014, outside Latin-1) is the byte 0x97 it
  has in Windows-1252.
\<close>

section \<open>Names of the enumerations\<close>

primrec severity_name :: "severity \<Rightarrow> string" where
  "severity_name INFO = ''INFO''"
| "severity_name WARNING = ''WARNING''"
| "severity_name CRITICAL = ''CRITICAL''"

primrec source_kind_name :: "metric_source \<Rightarrow> string" where
  "source_kind_name HOST = ''HOST''"
| "source_kind_name NETWORK_DEVICE = ''NETWORK_DEVICE''"
| "source_kind_name NETWORK_INTERFACE = ''NETWORK_INTERFACE''"
| "source_kind_name DATABASE = ''DATABASE''"
| "source_kind_name ENDPOINT = ''ENDPOINT''"

primrec channel_name :: "notification_channel \<Rightarrow> string" where
  "channel_name EMAIL = ''EMAIL''"
| "channel_name SLACK = ''SLACK''"
| "channel_name TEAMS = ''TEAMS''"
| "channel_name WEBHOOK = ''WEBHOOK''"
| "channel_name SMS = ''SMS''"
| "channel_name PUSH = ''PUSH''"

primrec operator_name :: "alert_operator \<Rightarrow> string" where
  "operator_name GT = ''GT''"
| "operator_name GTE = ''GTE''"
| "operator_name LT = ''LT''"
| "operator_name LTE = ''LTE''"
| "operator_name EQ = ''EQ''"
| "operator_name NEQ = ''NEQ''"

primrec metric_name :: "metric_type \<Rightarrow> string" where
  "metric_name CPU_USAGE_PERCENT = ''CPU_USAGE_PERCENT''"
| "metric_name LOAD_AVERAGE_1M = ''LOAD_AVERAGE_1M''"
| "metric_name MEMORY_USED_PERCENT = ''MEMORY_USED_PERCENT''"
| "metric_name MEMORY_USED_BYTES = ''MEMORY_USED_BYTES''"
| "metric_name SWAP_USED_PERCENT = ''SWAP_USED_PERCENT''"
| "metric_name DISK_USED_PERCENT = ''DISK_USED_PERCENT''"
| "metric_name DISK_USED_BYTES = ''DISK_USED_BYTES''"
| "metric_name DISK_READ_IOPS = ''DISK_READ_IOPS''"
| "metric_name DISK_WRITE_IOPS = ''DISK_WRITE_IOPS''"
| "metric_name DISK_READ_BPS = ''DISK_READ_BPS''"
| "metric_name DISK_WRITE_BPS = ''DISK_WRITE_BPS''"
| "metric_name NETWORK_IN_BPS = ''NETWORK_IN_BPS''"
| "metric_name NETWORK_OUT_BPS = ''NETWORK_OUT_BPS''"
| "metric_name PROCESS_COUNT = ''PROCESS_COUNT''"
| "metric_name UPTIME_SECONDS = ''UPTIME_SECONDS''"
| "metric_name TEMPERATURE_CELSIUS = ''TEMPERATURE_CELSIUS''"
| "metric_name POWER_WATTS = ''POWER_WATTS''"
| "metric_name BANDWIDTH_IN_BPS = ''BANDWIDTH_IN_BPS''"
| "metric_name BANDWIDTH_OUT_BPS = ''BANDWIDTH_OUT_BPS''"
| "metric_name BANDWIDTH_UTILIZATION_PERCENT = ''BANDWIDTH_UTILIZATION_PERCENT''"
| "metric_name PACKET_LOSS_PERCENT = ''PACKET_LOSS_PERCENT''"
| "metric_name INTERFACE_ERRORS_PER_SEC = ''INTERFACE_ERRORS_PER_SEC''"
| "metric_name INTERFACE_CRC_ERRORS_PER_SEC = ''INTERFACE_CRC_ERRORS_PER_SEC''"
| "metric_name LATENCY_MS = ''LATENCY_MS''"
| "metric_name DB_QPS = ''DB_QPS''"
| "metric_name DB_ACTIVE_CONNECTIONS = ''DB_ACTIVE_CONNECTIONS''"
| "metric_name DB_CONNECTION_USAGE_PERCENT = ''DB_CONNECTION_USAGE_PERCENT''"
| "metric_name DB_CACHE_HIT_RATIO = ''DB_CACHE_HIT_RATIO''"
| "metric_name DB_SLOW_QUERIES_PER_MIN = ''DB_SLOW_QUERIES_PER_MIN''"
| "metric_name DB_DEADLOCKS_PER_MIN = ''DB_DEADLOCKS_PER_MIN''"
| "metric_name DB_REPLICATION_LAG_SECONDS = ''DB_REPLICATION_LAG_SECONDS''"
| "metric_name DB_STORAGE_USED_BYTES = ''DB_STORAGE_USED_BYTES''"
| "metric_name ENDPOINT_RESPONSE_MS = ''ENDPOINT_RESPONSE_MS''"
| "metric_name ENDPOINT_AVAILABLE = ''ENDPOINT_AVAILABLE''"
| "metric_name ENDPOINT_SSL_DAYS_LEFT = ''ENDPOINT_SSL_DAYS_LEFT''"

definition replace_all :: "char \<Rightarrow> char \<Rightarrow> string \<Rightarrow> string" where
  "replace_all a b s = map (\<lambda>c. if c = a then b else c) s"

definition humanizeMetric :: "metric_type \<Rightarrow> string" where
  "humanizeMetric metric = replace_all (CHR ''_'') (CHR '' '') (toLowerCase (metric_name metric))"

section \<open>Texts and payloads\<close>

record notifiable_incident =
  no_id :: ident
  no_title :: string
  no_severity :: severity
  no_sourceKind :: "metric_source option"
  no_sourceLabel :: "string option"
  no_metric :: "metric_type option"
  no_triggerValue :: "real option"
  no_peakValue :: "real option"

record notifiable_rule =
  nr_channels :: "notification_channel list"
  nr_notifyEmails :: "string list"
  nr_slackWebhookUrl :: "string option"
  nr_teamsWebhookUrl :: "string option"
  nr_webhookUrl :: "string option"

datatype notification_outcome = N_opened | N_still_open | N_resolved | N_test

primrec outcome_name :: "notification_outcome \<Rightarrow> string" where
  "outcome_name N_opened = ''opened''"
| "outcome_name N_still_open = ''still_open''"
| "outcome_name N_resolved = ''resolved''"
| "outcome_name N_test = ''test''"

text \<open>\<open>if (x)\<close> for an optional string: absent and empty are both false.\<close>

definition truthy :: "string option \<Rightarrow> string option" where
  "truthy x = (case x of Some s \<Rightarrow> or_null s | None \<Rightarrow> None)"

definition EM_DASH :: string where "EM_DASH = [char_of (151 :: nat)]"
definition NEWLINE :: string where "NEWLINE = [char_of (10 :: nat)]"
definition QUOTE :: string where "QUOTE = [char_of (34 :: nat)]"

definition subject :: "notifiable_incident \<Rightarrow> notification_outcome \<Rightarrow> string" where
  "subject i outcome =
     (let prefix = (case outcome of N_resolved \<Rightarrow> ''[RESOLVED]'' | N_test \<Rightarrow> ''[TEST]''
                    | _ \<Rightarrow> ''['' @ severity_name (no_severity i) @ '']'')
      in prefix @ '' '' @ no_title i
         @ (case truthy (no_sourceLabel i) of Some l \<Rightarrow> '' '' @ EM_DASH @ '' '' @ l | None \<Rightarrow> []))"

definition headline :: "notifiable_incident \<Rightarrow> notification_outcome \<Rightarrow> string" where
  "headline i outcome = (case outcome of
       N_resolved \<Rightarrow> ''This incident has been resolved automatically: the condition no longer breaches the threshold.''
     | N_test \<Rightarrow> ''Test notification for the alert rule '' @ QUOTE @ no_title i @ QUOTE @ '' '' @ EM_DASH
                 @ '' no incident is open, nothing to do.''
     | _ \<Rightarrow> ''Alert: '' @ no_title i)"

definition incidents_url :: "string option \<Rightarrow> string option" where
  "incidents_url appUrl = map_option (\<lambda>u. u @ ''/incidents'') (truthy appUrl)"

text \<open>The lines between the headline and the link, as label and value.\<close>

definition incident_facts :: "(real \<Rightarrow> string) \<Rightarrow> notifiable_incident \<Rightarrow> notification_outcome \<Rightarrow> (string \<times> string) list" where
  "incident_facts numstr i outcome =
     (case truthy (no_sourceLabel i) of Some l \<Rightarrow> [(''Source'', l)] | None \<Rightarrow> [])
     @ (case no_metric i of Some m \<Rightarrow> [(''Metric'', humanizeMetric m)] | None \<Rightarrow> [])
     @ (case no_triggerValue i of Some v \<Rightarrow> [(''Current value'', numstr v)] | None \<Rightarrow> [])
     @ (case no_peakValue i of Some v \<Rightarrow> if outcome = N_opened \<or> outcome = N_still_open then [(''Peak value'', numstr v)] else []
        | None \<Rightarrow> [])"

definition textBody :: "(real \<Rightarrow> string) \<Rightarrow> notifiable_incident \<Rightarrow> notification_outcome \<Rightarrow> string option \<Rightarrow> string" where
  "textBody numstr i outcome appUrl =
     str_join NEWLINE ([headline i outcome] @ map (\<lambda>(l, v). l @ '': '' @ v) (incident_facts numstr i outcome)
       @ (case incidents_url appUrl of Some u \<Rightarrow> [[], u] | None \<Rightarrow> []))"

definition slackPayload :: "(real \<Rightarrow> string) \<Rightarrow> notifiable_incident \<Rightarrow> notification_outcome \<Rightarrow> string option \<Rightarrow> json" where
  "slackPayload numstr i outcome appUrl =
     (let emoji = (case outcome of N_resolved \<Rightarrow> '':white_check_mark:'' | N_test \<Rightarrow> '':test_tube:''
                   | _ \<Rightarrow> if no_severity i = CRITICAL then '':red_circle:'' else '':warning:'')
      in JObj [(''text'', JStr (emoji @ '' '' @ subject i outcome @ NEWLINE @ textBody numstr i outcome appUrl))])"

definition teamsPayload :: "(real \<Rightarrow> string) \<Rightarrow> notifiable_incident \<Rightarrow> notification_outcome \<Rightarrow> string option \<Rightarrow> json" where
  "teamsPayload numstr i outcome appUrl =
     (let color = (case outcome of N_resolved \<Rightarrow> ''Good'' | N_test \<Rightarrow> ''Accent''
                   | _ \<Rightarrow> if no_severity i = CRITICAL then ''Attention'' else ''Warning'');
          facts = map (\<lambda>(l, v). JObj [(''title'', JStr l), (''value'', JStr v)]) (incident_facts numstr i outcome);
          body = [JObj [(''type'', JStr ''TextBlock''), (''text'', JStr (subject i outcome)), (''weight'', JStr ''Bolder''),
                        (''size'', JStr ''Medium''), (''color'', JStr color), (''wrap'', JBool True)],
                  JObj [(''type'', JStr ''TextBlock''), (''text'', JStr (headline i outcome)), (''wrap'', JBool True)]]
                 @ (if facts \<noteq> [] then [JObj [(''type'', JStr ''FactSet''), (''facts'', JArr facts)]] else []);
          actions = (case incidents_url appUrl of
             Some u \<Rightarrow> [JObj [(''type'', JStr ''Action.OpenUrl''), (''title'', JStr ''Open incidents''), (''url'', JStr u)]]
           | None \<Rightarrow> [])
      in JObj [(''type'', JStr ''message''),
               (''attachments'', JArr [JObj [
                  (''contentType'', JStr ''application/vnd.microsoft.card.adaptive''),
                  (''contentUrl'', JNull),
                  (''content'', JObj [
                     (''$schema'', JStr ''http://adaptivecards.io/schemas/adaptive-card.json''),
                     (''type'', JStr ''AdaptiveCard''), (''version'', JStr ''1.4''),
                     (''body'', JArr body), (''actions'', JArr actions)])]])])"

definition opt_json :: "('a \<Rightarrow> json) \<Rightarrow> 'a option \<Rightarrow> json" where
  "opt_json f x = (case x of None \<Rightarrow> JNull | Some v \<Rightarrow> f v)"

definition webhookPayload :: "notifiable_incident \<Rightarrow> notification_outcome \<Rightarrow> json" where
  "webhookPayload i outcome = JObj [(''outcome'', JStr (outcome_name outcome)), (''incidentId'', JStr (no_id i)),
     (''title'', JStr (no_title i)), (''severity'', JStr (severity_name (no_severity i))),
     (''sourceKind'', opt_json (JStr \<circ> source_kind_name) (no_sourceKind i)), (''sourceLabel'', opt_json JStr (no_sourceLabel i)),
     (''metric'', opt_json (JStr \<circ> metric_name) (no_metric i)), (''triggerValue'', opt_json JNum (no_triggerValue i)),
     (''peakValue'', opt_json JNum (no_peakValue i))]"

section \<open>Fan-out\<close>

record channel_result =
  cr_channel :: notification_channel
  cr_ok :: bool
  cr_code :: "string option"
  cr_error :: "string option"

text \<open>The mail transport fails with a text, the webhook client with a \<open>webhook_error\<close>.\<close>

record senders =
  sn_numstr :: "real \<Rightarrow> string"
  sn_email :: "string list \<Rightarrow> string \<Rightarrow> string \<Rightarrow> string option"
  sn_parse_url :: "string \<Rightarrow> url option"
  sn_lookup :: "string \<Rightarrow> string + string list"
  sn_exchange :: "json \<Rightarrow> string list \<Rightarrow> string + nat"
  sn_show_nat :: "nat \<Rightarrow> string"
  sn_all :: bool

definition sent :: "notification_channel \<Rightarrow> channel_result" where
  "sent ch = \<lparr>cr_channel = ch, cr_ok = True, cr_code = None, cr_error = None\<rparr>"

definition failed_webhook :: "notification_channel \<Rightarrow> webhook_error \<Rightarrow> channel_result" where
  "failed_webhook ch e = \<lparr>cr_channel = ch, cr_ok = False, cr_code = Some (webhook_code_name (we_code e)),
     cr_error = Some (webhook_message e)\<rparr>"

definition failed_other :: "notification_channel \<Rightarrow> string \<Rightarrow> channel_result" where
  "failed_other ch e = \<lparr>cr_channel = ch, cr_ok = False,
     cr_code = Some (if ch = EMAIL then ''smtp'' else ''connection''), cr_error = Some e\<rparr>"

definition email_job ::
  "senders \<Rightarrow> notifiable_rule \<Rightarrow> notifiable_incident \<Rightarrow> notification_outcome \<Rightarrow> string option \<Rightarrow> channel_result" where
  "email_job sn rule i outcome appUrl =
     (case sn_email sn (nr_notifyEmails rule) (subject i outcome) (textBody (sn_numstr sn) i outcome appUrl) of
        None \<Rightarrow> sent EMAIL | Some e \<Rightarrow> failed_other EMAIL e)"

text \<open>A webhook job: the addresses it connects to and its result.\<close>

definition webhook_job :: "senders \<Rightarrow> bool \<Rightarrow> notification_channel \<Rightarrow> string \<Rightarrow> json \<Rightarrow> string list \<times> channel_result" where
  "webhook_job sn allowPrivate ch target payload =
     (case postJson (sn_parse_url sn) (sn_lookup sn) (sn_exchange sn payload) (sn_show_nat sn) (sn_all sn) target allowPrivate of
        (addrs, ok _) \<Rightarrow> (addrs, sent ch) | (addrs, fail e) \<Rightarrow> (addrs, failed_webhook ch e))"

definition dispatch ::
  "senders \<Rightarrow> notifiable_rule \<Rightarrow> notifiable_incident \<Rightarrow> notification_outcome \<Rightarrow> string option \<Rightarrow> bool
   \<Rightarrow> (string list \<times> channel_result) list" where
  "dispatch sn rule i outcome appUrl allowPrivate =
     (if EMAIL \<in> set (nr_channels rule) \<and> nr_notifyEmails rule \<noteq> []
      then [([], email_job sn rule i outcome appUrl)] else [])
     @ concat (map (\<lambda>(ch, target, payload).
         case truthy target of
           Some u \<Rightarrow> if ch \<in> set (nr_channels rule) then [webhook_job sn allowPrivate ch u payload] else []
         | None \<Rightarrow> [])
       [(SLACK, nr_slackWebhookUrl rule, slackPayload (sn_numstr sn) i outcome appUrl),
        (TEAMS, nr_teamsWebhookUrl rule, teamsPayload (sn_numstr sn) i outcome appUrl),
        (WEBHOOK, nr_webhookUrl rule, webhookPayload i outcome)])"

definition dispatchIncidentNotification ::
  "senders \<Rightarrow> notifiable_rule \<Rightarrow> notifiable_incident \<Rightarrow> notification_outcome \<Rightarrow> string option \<Rightarrow> bool \<Rightarrow> channel_result list" where
  "dispatchIncidentNotification sn rule i outcome appUrl allowPrivate = map snd (dispatch sn rule i outcome appUrl allowPrivate)"

definition shouldRenotify :: "ms option \<Rightarrow> int \<Rightarrow> ms \<Rightarrow> bool" where
  "shouldRenotify lastNotifiedAt cooldownSec now =
     (case lastNotifiedAt of None \<Rightarrow> True | Some t \<Rightarrow> now - t \<ge> cooldownSec * 1000)"

section \<open>Lemmas\<close>

text \<open>Which channels a dispatch uses: the configured ones that have a target, each once, in a fixed order.\<close>

definition usable :: "notifiable_rule \<Rightarrow> notification_channel \<Rightarrow> bool" where
  "usable rule ch = (ch \<in> set (nr_channels rule) \<and> (case ch of
       EMAIL \<Rightarrow> nr_notifyEmails rule \<noteq> []
     | SLACK \<Rightarrow> truthy (nr_slackWebhookUrl rule) \<noteq> None
     | TEAMS \<Rightarrow> truthy (nr_teamsWebhookUrl rule) \<noteq> None
     | WEBHOOK \<Rightarrow> truthy (nr_webhookUrl rule) \<noteq> None
     | _ \<Rightarrow> False))"

lemma webhook_job_channel: "cr_channel (snd (webhook_job sn ap ch u p)) = ch"
  by (auto simp: webhook_job_def sent_def failed_webhook_def split: prod.split result.split)

lemma email_job_channel: "cr_channel (email_job sn rule i out u) = EMAIL"
  by (simp add: email_job_def sent_def failed_other_def split: option.split)

lemma dispatch_channels:
  "map cr_channel (dispatchIncidentNotification sn rule i outcome appUrl ap)
     = filter (usable rule) [EMAIL, SLACK, TEAMS, WEBHOOK]"
  by (auto simp: dispatchIncidentNotification_def dispatch_def usable_def webhook_job_channel email_job_channel
      split: option.split)

lemma webhook_job_addresses:
  "fst (webhook_job sn ap ch u p)
     = fst (postJson (sn_parse_url sn) (sn_lookup sn) (sn_exchange sn p) (sn_show_nat sn) (sn_all sn) u ap)"
  by (auto simp: webhook_job_def split: prod.split result.split)

lemma postJson_public:
  "a \<in> set (fst (postJson pu lk ex shw al raw False)) \<Longrightarrow> isPublicAddress a"
  by (auto simp: postJson_def split: option.splits if_splits sum.splits intro: connect_public)

lemma dispatch_public:
  assumes "job \<in> set (dispatch sn rule i outcome appUrl False)" and "a \<in> set (fst job)"
  shows "isPublicAddress a"
  using assms
  by (auto simp: dispatch_def webhook_job_addresses split: if_splits option.splits intro: postJson_public)

lemma dispatch_no_channel:
  "dispatchIncidentNotification sn rule i outcome appUrl ap = [] \<longleftrightarrow> (\<forall>ch. \<not> usable rule ch)"
proof -
  have "dispatchIncidentNotification sn rule i outcome appUrl ap = []
      \<longleftrightarrow> filter (usable rule) [EMAIL, SLACK, TEAMS, WEBHOOK] = []"
    using dispatch_channels[of sn rule i outcome appUrl ap] by (metis map_is_Nil_conv)
  also have "\<dots> \<longleftrightarrow> (\<forall>ch. \<not> usable rule ch)"
  proof -
    have "\<not> usable rule SMS" "\<not> usable rule PUSH" by (simp_all add: usable_def)
    moreover have "(\<forall>ch. \<not> usable rule ch) \<longleftrightarrow> (\<forall>ch \<in> {EMAIL, SLACK, TEAMS, WEBHOOK, SMS, PUSH}. \<not> usable rule ch)"
    proof -
      have "ch \<in> {EMAIL, SLACK, TEAMS, WEBHOOK, SMS, PUSH}" for ch by (cases ch) simp_all
      then show ?thesis by blast
    qed
    ultimately show ?thesis by simp
  qed
  finally show ?thesis .
qed

end
