(* ===== verification/Alerts.thy ===== *)
theory Alerts
  imports Anomaly Rca Remediation Notify
begin

text \<open>
  Alert evaluation, \<open>src/modules/alerts/evaluate.ts\<close>, with the resolution of source labels
  (\<open>src/modules/alerts/resolve-source.ts\<close>): every ingested point is checked against the enabled rules of
  its organization; a condition that held long enough opens an incident, keeps it up to date, or,
  when it no longer holds, resolves it. Opening one notifies, analyses and triggers a remediation.

  Environment variables and the outside world are the parameter \<open>eval_env\<close>. Ids and database times of
  the \<open>k\<close>-th evaluated pair of point and rule come from \<open>gens k\<close>. The evaluation runs after the
  transaction that stored the points; failures of the database are not modelled.
\<close>

section \<open>Source labels\<close>

definition resolveSourceLabels :: "db \<Rightarrow> ident \<Rightarrow> metric_source \<Rightarrow> ident list \<Rightarrow> (ident \<times> string) list" where
  "resolveSourceLabels d orgId kind ids =
     (case kind of
        HOST \<Rightarrow> map (\<lambda>h. (h_id h, case h_displayName h of Some n \<Rightarrow> n | None \<Rightarrow> h_hostname h))
                  (find_many (\<lambda>h. h_orgId h = orgId \<and> h_id h \<in> set ids) (monitoredHosts d))
      | NETWORK_DEVICE \<Rightarrow> map (\<lambda>x. (nd_id x, nd_name x)) (find_many (\<lambda>x. nd_orgId x = orgId \<and> nd_id x \<in> set ids) (networkDevices d))
      | NETWORK_INTERFACE \<Rightarrow> map (\<lambda>x. (nd_id x, nd_name x)) (find_many (\<lambda>x. nd_orgId x = orgId \<and> nd_id x \<in> set ids) (networkDevices d))
      | DATABASE \<Rightarrow> map (\<lambda>x. (db_id x, db_name x)) (find_many (\<lambda>x. db_orgId x = orgId \<and> db_id x \<in> set ids) (databaseInstances d))
      | ENDPOINT \<Rightarrow> map (\<lambda>x. (ep_id x, ep_name x)) (find_many (\<lambda>x. ep_orgId x = orgId \<and> ep_id x \<in> set ids) (endpointChecks d)))"

definition sourceExists :: "db \<Rightarrow> ident \<Rightarrow> metric_source \<Rightarrow> ident \<Rightarrow> bool" where
  "sourceExists d orgId kind sourceId = (map_of (resolveSourceLabels d orgId kind [sourceId]) sourceId \<noteq> None)"

section \<open>Conditions\<close>

primrec breaches :: "alert_operator \<Rightarrow> real \<Rightarrow> real \<Rightarrow> bool" where
  "breaches GT v t = (v > t)"
| "breaches GTE v t = (v \<ge> t)"
| "breaches LT v t = (v < t)"
| "breaches LTE v t = (v \<le> t)"
| "breaches EQ v t = (v = t)"
| "breaches NEQ v t = (v \<noteq> t)"

record metric_point =
  mp_time :: ms
  mp_value :: real

fun streak_loop :: "ms option \<Rightarrow> metric_point list \<Rightarrow> (real \<Rightarrow> bool) \<Rightarrow> ms option" where
  "streak_loop since [] holds = since"
| "streak_loop since (p # ps) holds = (if \<not> holds (mp_value p) then since else streak_loop (Some (mp_time p)) ps holds)"

definition streakSince :: "metric_point list \<Rightarrow> (real \<Rightarrow> bool) \<Rightarrow> ms option" where
  "streakSince pointsDesc holds = streak_loop None pointsDesc holds"

definition breachingSince :: "metric_point list \<Rightarrow> alert_operator \<Rightarrow> real \<Rightarrow> ms option" where
  "breachingSince pointsDesc op threshold = streakSince pointsDesc (\<lambda>v. breaches op v threshold)"

record rule_condition =
  rc_threshold :: "(alert_operator \<times> real) option"
  rc_anomaly :: "(baseline option \<times> anomaly_sensitivity) option"

definition conditionHolds :: "rule_condition \<Rightarrow> real \<Rightarrow> bool" where
  "conditionHolds c v =
     (if (case rc_threshold c of Some (op, t) \<Rightarrow> \<not> breaches op v t | None \<Rightarrow> False) then False
      else if (case rc_anomaly c of
                 Some (b, s) \<Rightarrow> (case b of None \<Rightarrow> True | Some bl \<Rightarrow> \<not> av_anomalous (assess v bl s))
               | None \<Rightarrow> False) then False
      else rc_threshold c \<noteq> None \<or> rc_anomaly c \<noteq> None)"

definition worstValue :: "alert_operator \<Rightarrow> real \<Rightarrow> real \<Rightarrow> real" where
  "worstValue op a b = (if op = GT \<or> op = GTE then max a b else if op = LT \<or> op = LTE then min a b else b)"

definition worstFor :: "rule_condition \<Rightarrow> anomaly_verdict option \<Rightarrow> real \<Rightarrow> real \<Rightarrow> real" where
  "worstFor c verdict a b =
     (case rc_threshold c of
        Some (op, _) \<Rightarrow> worstValue op a b
      | None \<Rightarrow> (case verdict of Some v \<Rightarrow> if av_z v \<ge> 0 then max a b else min a b | None \<Rightarrow> b))"

definition isSustained :: "ms option \<Rightarrow> int \<Rightarrow> ms \<Rightarrow> bool" where
  "isSustained since durationSec now = (case since of None \<Rightarrow> False | Some t \<Rightarrow> now - t \<ge> durationSec * 1000)"

definition HISTORY_LOOKBACK_POINTS :: nat where "HISTORY_LOOKBACK_POINTS = 500"
definition AUTO_RESOLUTION_NOTE :: string where "AUTO_RESOLUTION_NOTE = ''auto''"

section \<open>Environment and notifications\<close>

record eval_env =
  ev_senders :: senders
  ev_APP_BASE_URL :: "string option"
  ev_allowPrivate :: bool
  ev_wantsLlm :: bool
  ev_collation :: "ident \<Rightarrow> real"
  ev_sha256 :: "string \<Rightarrow> string"

definition appUrl :: "string option \<Rightarrow> string option" where
  "appUrl base = (case base of None \<Rightarrow> None
     | Some u \<Rightarrow> or_null (rev (dropWhile (\<lambda>c. c = CHR ''/'') (rev (js_trim u)))))"

definition notifiable :: "incident_row \<Rightarrow> notifiable_incident" where
  "notifiable r = \<lparr>no_id = in_id r, no_title = in_title r, no_severity = in_severity r, no_sourceKind = in_sourceKind r,
     no_sourceLabel = in_sourceLabel r, no_metric = in_metric r, no_triggerValue = in_triggerValue r, no_peakValue = in_peakValue r\<rparr>"

definition rule_channels :: "alert_rule_row \<Rightarrow> notifiable_rule" where
  "rule_channels r = \<lparr>nr_channels = ar_channels r, nr_notifyEmails = ar_notifyEmails r, nr_slackWebhookUrl = ar_slackWebhookUrl r,
     nr_teamsWebhookUrl = ar_teamsWebhookUrl r, nr_webhookUrl = ar_webhookUrl r\<rparr>"

definition incident_event :: "dbgen \<Rightarrow> nat \<Rightarrow> ident \<Rightarrow> incident_event_type \<Rightarrow> json option \<Rightarrow> incident_event_row" where
  "incident_event g k iid ty data = \<lparr>ie_id = cuid g k, ie_incidentId = iid, ie_type = ty, ie_message = None,
     ie_actorId = None, ie_data = data, ie_createdAt = clock g\<rparr>"

definition add_event :: "incident_event_row \<Rightarrow> db \<Rightarrow> db" where
  "add_event e d = d\<lparr>incidentEvents := insert_row e (incidentEvents d)\<rparr>"

definition notify :: "eval_env \<Rightarrow> dbgen \<Rightarrow> alert_rule_row \<Rightarrow> incident_row \<Rightarrow> notification_outcome \<Rightarrow> db \<Rightarrow> db" where
  "notify env g rule incident outcome d =
     (let results = dispatchIncidentNotification (ev_senders env) (rule_channels rule) (notifiable incident) outcome
            (appUrl (ev_APP_BASE_URL env)) (ev_allowPrivate env)
      in if results = [] then d
         else add_event (incident_event g 2 (in_id incident) EV_NOTIFIED (Some (JObj [
                (''outcome'', JStr (outcome_name outcome)),
                (''results'', JArr (map (\<lambda>r. JObj [(''channel'', JStr (channel_name (cr_channel r))), (''ok'', JBool (cr_ok r)),
                   (''code'', opt_json JStr (cr_code r)), (''error'', opt_json JStr (cr_error r))]) results))]))) d)"

section \<open>One point against one rule\<close>

definition rule_threshold :: "alert_rule_row \<Rightarrow> (alert_operator \<times> real) option" where
  "rule_threshold rule = (case (ar_operator rule, ar_threshold rule) of (Some op, Some t) \<Rightarrow> Some (op, t) | _ \<Rightarrow> None)"

definition point_series :: "ident \<Rightarrow> metric_row \<Rightarrow> series_key" where
  "point_series orgId p = \<lparr>sk_orgId = orgId, sk_sourceKind = me_sourceKind p, sk_sourceId = me_sourceId p,
     sk_metric = me_metric p, sk_instance = me_instance p\<rparr>"

definition load_history :: "ident \<Rightarrow> metric_row \<Rightarrow> ms \<Rightarrow> db \<Rightarrow> metric_point list" where
  "load_history orgId p now d = map (\<lambda>r. \<lparr>mp_time = me_time r, mp_value = me_value r\<rparr>)
     (take HISTORY_LOOKBACK_POINTS (order_desc me_time (find_many (\<lambda>r. me_orgId r = orgId \<and> me_sourceKind r = me_sourceKind p
        \<and> me_sourceId r = me_sourceId p \<and> me_metric r = me_metric p \<and> me_instance r = me_instance p \<and> me_time r \<le> now)
        (metricEntries d))))"

definition matches_open :: "ident \<Rightarrow> alert_rule_row \<Rightarrow> metric_row \<Rightarrow> incident_row \<Rightarrow> bool" where
  "matches_open orgId rule p r = (in_orgId r = orgId \<and> in_ruleId r = Some (ar_id rule) \<and> in_sourceId r = Some (me_sourceId p)
     \<and> in_metric r = Some (me_metric p) \<and> in_status r \<noteq> RESOLVED)"

definition find_open :: "ident \<Rightarrow> alert_rule_row \<Rightarrow> metric_row \<Rightarrow> db \<Rightarrow> incident_row option" where
  "find_open orgId rule p d = find_first (matches_open orgId rule p) (incidents d)"

definition new_incident :: "dbgen \<Rightarrow> ident \<Rightarrow> alert_rule_row \<Rightarrow> metric_row \<Rightarrow> anomaly_verdict option \<Rightarrow> ms \<Rightarrow> db \<Rightarrow> incident_row" where
  "new_incident g orgId rule p verdict now d =
     \<lparr>in_id = cuid g 0, in_orgId = orgId, in_ruleId = Some (ar_id rule), in_title = ar_name rule, in_severity = ar_severity rule,
      in_status = OPEN, in_sourceKind = Some (me_sourceKind p), in_sourceId = Some (me_sourceId p),
      in_sourceLabel = map_of (resolveSourceLabels d orgId (me_sourceKind p) [me_sourceId p]) (me_sourceId p),
      in_metric = Some (me_metric p), in_triggerValue = Some (me_value p), in_peakValue = Some (me_value p),
      in_anomalyScore = map_option av_score verdict, in_startedAt = now, in_acknowledgedAt = None, in_acknowledgedBy = None,
      in_resolvedAt = None, in_resolvedBy = None, in_resolutionNote = None,
      in_rcaSummaryEn = None, in_rcaSummaryFr = None, in_rcaConfidence = None, in_rcaModel = None, in_rcaGeneratedAt = None,
      in_rcaFindings = None, in_rcaLlmRequestedAt = None, in_rcaLlmAttempts = 0, in_rcaLlmError = None\<rparr>"

definition opened_data :: "rule_condition \<Rightarrow> anomaly_verdict option \<Rightarrow> metric_row \<Rightarrow> json" where
  "opened_data c verdict p = JObj (
     [(''operator'', opt_json (JStr \<circ> operator_name \<circ> fst) (rc_threshold c)), (''threshold'', opt_json (JNum \<circ> snd) (rc_threshold c)),
      (''value'', JNum (me_value p)), (''instance'', JStr (me_instance p))]
     @ (case (verdict, rc_anomaly c) of
          (Some v, Some (Some b, _)) \<Rightarrow> [(''anomaly'', JObj [(''z'', JNum (av_z v)), (''score'', JNum (av_score v)),
             (''baselineMedian'', JNum (bl_median b)), (''baselineScale'', JNum (bl_scale b)), (''baselinePoints'', JNum (real (bl_points b)))])]
        | _ \<Rightarrow> []))"

definition open_incident ::
  "eval_env \<Rightarrow> (nat \<Rightarrow> dbgen) \<Rightarrow> ident \<Rightarrow> ms \<Rightarrow> metric_row \<Rightarrow> alert_rule_row \<Rightarrow> rule_condition \<Rightarrow> anomaly_verdict option \<Rightarrow> db \<Rightarrow> db" where
  "open_incident env gens orgId now p rule c verdict d =
     (let g = gens 0;
          incident = new_incident g orgId rule p verdict now d;
          d1 = d\<lparr>incidents := insert_row incident (incidents d)\<rparr>;
          d2 = add_event (incident_event g 1 (in_id incident) EV_OPENED (Some (opened_data c verdict p))) d1;
          d3 = notify env g rule incident N_opened d2;
          d4 = analyzeAfterOpen (ev_collation env) (\<lambda>k. gens (k + 2)) (ev_wantsLlm env) orgId (in_id incident) now d3
      in fst (triggerForIncident (ev_sha256 env) (gens 1) rule incident now d4))"

definition refresh_upd :: "rule_condition \<Rightarrow> anomaly_verdict option \<Rightarrow> metric_row \<Rightarrow> incident_row \<Rightarrow> incident_row" where
  "refresh_upd c verdict p r = r\<lparr>in_triggerValue := Some (me_value p),
     in_peakValue := Some (worstFor c verdict (case in_peakValue r of Some v \<Rightarrow> v | None \<Rightarrow> me_value p) (me_value p)),
     in_anomalyScore := (case verdict of None \<Rightarrow> in_anomalyScore r
        | Some v \<Rightarrow> Some (max (case in_anomalyScore r of Some s \<Rightarrow> s | None \<Rightarrow> 0) (av_score v)))\<rparr>"

definition last_notified :: "ident \<Rightarrow> db \<Rightarrow> ms option" where
  "last_notified iid d = (case order_desc ie_createdAt (find_many (\<lambda>e. ie_incidentId e = iid \<and> ie_type e = EV_NOTIFIED) (incidentEvents d)) of
       [] \<Rightarrow> None | e # _ \<Rightarrow> Some (ie_createdAt e))"

definition keep_incident ::
  "eval_env \<Rightarrow> dbgen \<Rightarrow> ms \<Rightarrow> metric_row \<Rightarrow> alert_rule_row \<Rightarrow> rule_condition \<Rightarrow> anomaly_verdict option \<Rightarrow> incident_row \<Rightarrow> db \<Rightarrow> db" where
  "keep_incident env g now p rule c verdict opn d =
     (let d1 = d\<lparr>incidents := update_many (\<lambda>r. in_id r = in_id opn) (refresh_upd c verdict p) (incidents d)\<rparr>
      in if shouldRenotify (last_notified (in_id opn) d1) (ar_cooldownSec rule) now
         then notify env g rule (refresh_upd c verdict p opn) N_still_open d1 else d1)"

definition resolve_upd :: "ms \<Rightarrow> incident_row \<Rightarrow> incident_row" where
  "resolve_upd now r = r\<lparr>in_status := RESOLVED, in_resolvedAt := Some now, in_resolvedBy := None,
     in_resolutionNote := Some AUTO_RESOLUTION_NOTE\<rparr>"

definition auto_resolve :: "eval_env \<Rightarrow> dbgen \<Rightarrow> ms \<Rightarrow> alert_rule_row \<Rightarrow> incident_row \<Rightarrow> db \<Rightarrow> db" where
  "auto_resolve env g now rule opn d =
     (let d1 = d\<lparr>incidents := update_many (\<lambda>r. in_id r = in_id opn) (resolve_upd now) (incidents d)\<rparr>;
          d2 = add_event (incident_event g 1 (in_id opn) EV_RESOLVED (Some (JObj [(''auto'', JBool True)]))) d1
      in notify env g rule (resolve_upd now opn) N_resolved d2)"

definition rule_condition_of ::
  "ident \<Rightarrow> ms \<Rightarrow> metric_row \<Rightarrow> alert_rule_row \<Rightarrow> db \<Rightarrow> baseline_cache \<Rightarrow> baseline_cache \<times> rule_condition" where
  "rule_condition_of orgId now p rule d cache =
     (if ar_anomalyDetection rule
      then let (cache', b) = loadBaseline d (point_series orgId p) (ar_durationSec rule) now cache
           in (cache', \<lparr>rc_threshold = rule_threshold rule, rc_anomaly = Some (b, ar_anomalySensitivity rule)\<rparr>)
      else (cache, \<lparr>rc_threshold = rule_threshold rule, rc_anomaly = None\<rparr>))"

definition verdict_of :: "rule_condition \<Rightarrow> real \<Rightarrow> anomaly_verdict option" where
  "verdict_of c v = (case rc_anomaly c of Some (Some b, s) \<Rightarrow> Some (assess v b s) | _ \<Rightarrow> None)"

definition sustained :: "ident \<Rightarrow> ms \<Rightarrow> metric_row \<Rightarrow> alert_rule_row \<Rightarrow> rule_condition \<Rightarrow> db \<Rightarrow> bool" where
  "sustained orgId now p rule c d = isSustained (streakSince (load_history orgId p now d) (conditionHolds c)) (ar_durationSec rule) now"

definition evaluate_pair ::
  "eval_env \<Rightarrow> (nat \<Rightarrow> dbgen) \<Rightarrow> ident \<Rightarrow> ms \<Rightarrow> metric_row \<Rightarrow> alert_rule_row \<Rightarrow> db \<times> baseline_cache \<Rightarrow> db \<times> baseline_cache" where
  "evaluate_pair env gens orgId now p rule s =
     (let (d, cache) = s;
          (cache', c) = rule_condition_of orgId now p rule d cache
      in if rc_threshold c = None \<and> rc_anomaly c = None then (d, cache')
         else
           let verdict = verdict_of c (me_value p);
               held = sustained orgId now p rule c d
           in (case find_open orgId rule p d of
                 None \<Rightarrow> if held then open_incident env gens orgId now p rule c verdict d else d
               | Some opn \<Rightarrow> if held then keep_incident env (gens 0) now p rule c verdict opn d
                            else auto_resolve env (gens 0) now rule opn d,
               cache'))"

section \<open>A batch\<close>

type_synonym series_id = "metric_source \<times> ident \<times> metric_type \<times> string"

definition latest_points :: "metric_row list \<Rightarrow> metric_row list" where
  "latest_points rows = map snd (fold (\<lambda>r m.
     let key = (me_sourceKind r, me_sourceId r, me_metric r, me_instance r) in
     case map_of m key of
       Some cur \<Rightarrow> if me_time r > me_time cur then map_set key r m else m
     | None \<Rightarrow> map_set key r m) rows [])"

definition candidate_rules :: "ident \<Rightarrow> metric_row list \<Rightarrow> db \<Rightarrow> alert_rule_row list" where
  "candidate_rules orgId points d = find_many (\<lambda>r. ar_orgId r = orgId \<and> ar_enabled r
     \<and> (ar_anomalyDetection r \<or> (ar_operator r \<noteq> None \<and> ar_threshold r \<noteq> None))
     \<and> ar_sourceKind r \<in> me_sourceKind ` set points \<and> ar_metric r \<in> me_metric ` set points) (alertRules d)"

definition rule_matches :: "metric_row \<Rightarrow> alert_rule_row \<Rightarrow> bool" where
  "rule_matches p r = (ar_sourceKind r = me_sourceKind p \<and> ar_metric r = me_metric p
     \<and> (ar_sourceId r = None \<or> ar_sourceId r = Some (me_sourceId p))
     \<and> (ar_instanceFilter r = None \<or> ar_instanceFilter r = Some (me_instance p)))"

definition batch_pairs :: "metric_row list \<Rightarrow> alert_rule_row list \<Rightarrow> (metric_row \<times> alert_rule_row) list" where
  "batch_pairs points rules = concat (map (\<lambda>p. map (\<lambda>r. (p, r)) (filter (rule_matches p) rules)) points)"

definition evaluateIngestedMetrics ::
  "eval_env \<Rightarrow> (nat \<Rightarrow> nat \<Rightarrow> dbgen) \<Rightarrow> ident \<Rightarrow> metric_row list \<Rightarrow> ms \<Rightarrow> db \<times> baseline_cache \<Rightarrow> db \<times> baseline_cache" where
  "evaluateIngestedMetrics env gens orgId rows now s =
     (if rows = [] then s
      else
        let points = latest_points rows;
            rules = candidate_rules orgId points (fst s)
        in fold (\<lambda>(k, p, r). evaluate_pair env (gens k) orgId now p r) (enumerate 0 (batch_pairs points rules)) s)"

section \<open>Lemmas: streaks\<close>

lemma streak_loop_takeWhile:
  "streak_loop s ps holds = (let w = takeWhile (\<lambda>p. holds (mp_value p)) ps in if w = [] then s else Some (mp_time (last w)))"
  by (induction s ps holds rule: streak_loop.induct) (auto simp: Let_def)

text \<open>The loop computes the end of the longest unbroken run of the newest samples.\<close>

lemma streakSince_takeWhile:
  "streakSince ps holds = (let w = takeWhile (\<lambda>p. holds (mp_value p)) ps in if w = [] then None else Some (mp_time (last w)))"
  by (simp add: streakSince_def streak_loop_takeWhile)

lemma streakSince_holds:
  assumes "streakSince ps holds = Some t" and "sorted_wrt (\<lambda>a b. mp_time b \<le> mp_time a) ps"
    and "p \<in> set ps" and "t < mp_time p"
  shows "holds (mp_value p)"
proof -
  let ?w = "takeWhile (\<lambda>p. holds (mp_value p)) ps"
  from assms(1) have w: "?w \<noteq> []" "mp_time (last ?w) = t" by (auto simp: streakSince_takeWhile Let_def split: if_splits)
  have "p \<in> set ?w"
  proof (rule ccontr)
    assume "p \<notin> set ?w"
    then have "p \<in> set (dropWhile (\<lambda>p. holds (mp_value p)) ps)"
      using assms(3) by (metis Un_iff set_append takeWhile_dropWhile_id)
    moreover have "\<forall>a \<in> set ?w. \<forall>b \<in> set (dropWhile (\<lambda>p. holds (mp_value p)) ps). mp_time b \<le> mp_time a"
      using assms(2) by (metis sorted_wrt_append takeWhile_dropWhile_id)
    ultimately have "mp_time p \<le> mp_time (last ?w)" using w(1) last_in_set by blast
    with w(2) assms(4) show False by simp
  qed
  then show ?thesis by (auto dest: set_takeWhileD)
qed

lemma load_history_sorted: "sorted_wrt (\<lambda>a b. mp_time b \<le> mp_time a) (load_history orgId p now d)"
proof -
  have "sorted_wrt (\<lambda>a b. me_time b \<le> me_time a) (order_desc me_time t)" for t
    using sorted_sort_key[of "\<lambda>r. - me_time r" t] by (simp add: order_desc_def sorted_wrt_map)
  then have "sorted_wrt (\<lambda>a b. me_time b \<le> me_time a) (take k (order_desc me_time t))" for k t
    by (rule sorted_wrt_take)
  then show ?thesis by (simp add: load_history_def sorted_wrt_map)
qed

text \<open>With both kinds of condition, both must hold; a missing baseline never holds.\<close>

lemma conditionHolds_both:
  "conditionHolds \<lparr>rc_threshold = Some (op, t), rc_anomaly = Some (b, s)\<rparr> v
     \<longleftrightarrow> breaches op v t \<and> (\<exists>bl. b = Some bl \<and> av_anomalous (assess v bl s))"
  by (auto simp: conditionHolds_def split: option.split)

section \<open>Lemmas: what an evaluation leaves alone\<close>

lemma createExecution_incidents [kept_simps]: "incidents (fst (createExecution sha g ci now d)) = incidents d"
  by (auto simp: createExecution_def Let_def split: option.split)

lemma trigger_incidents [kept_simps]: "incidents (fst (triggerForIncident sha g rule i now d)) = incidents d"
  using createExecution_incidents[of sha g _ now d]
  by (auto simp: triggerForIncident_def Let_def split_beta split: option.split)

lemma notify_incidents [kept_simps]: "incidents (notify env g rule i out d) = incidents d"
  by (simp add: notify_def Let_def add_event_def)

lemma add_event_incidents [kept_simps]: "incidents (add_event e d) = incidents d"
  by (simp add: add_event_def)

text \<open>An incident opened by a rule is identified by its organization, rule, source and metric.\<close>

type_synonym incident_key = "ident \<times> ident option \<times> ident option \<times> metric_type option"

definition incident_key :: "incident_row \<Rightarrow> incident_key" where
  "incident_key r = (in_orgId r, in_ruleId r, in_sourceId r, in_metric r)"

definition engine_open :: "incident_row \<Rightarrow> bool" where
  "engine_open r = (in_status r \<noteq> RESOLVED \<and> in_ruleId r \<noteq> None)"

definition open_keys :: "db \<Rightarrow> incident_key list" where
  "open_keys d = map incident_key (filter engine_open (incidents d))"

definition one_open :: "db \<Rightarrow> bool" where
  "one_open d = distinct (open_keys d)"

lemma open_keys_update:
  assumes "\<And>r. incident_key (f r) = incident_key r" and "\<And>r. engine_open (f r) = engine_open r"
  shows "map incident_key (filter engine_open (update_many P f t)) = map incident_key (filter engine_open t)"
  using assms by (induction t) auto

lemma open_keys_close:
  assumes "distinct (map incident_key (filter engine_open t))" and "\<And>r. incident_key (f r) = incident_key r"
    and "\<And>r. P r \<Longrightarrow> engine_open (f r) \<Longrightarrow> engine_open r"
  shows "distinct (map incident_key (filter engine_open (update_many P f t)))
    \<and> set (map incident_key (filter engine_open (update_many P f t))) \<subseteq> set (map incident_key (filter engine_open t))"
  using assms(1)
proof (induction t)
  case (Cons r t)
  define r' where "r' = (if P r then f r else r)"
  have "incident_key r' = incident_key r" and "engine_open r' \<Longrightarrow> engine_open r" using assms(2,3) by (auto simp: r'_def split: if_splits)
  moreover have "update_many P f (r # t) = r' # update_many P f t" by (simp add: r'_def)
  moreover have "distinct (map incident_key (filter engine_open t))" using Cons.prems by (auto split: if_splits)
  ultimately show ?case using Cons.IH Cons.prems by (auto simp del: update_many_Cons split: if_splits)
qed simp

lemma one_open_same: "one_open d \<Longrightarrow> open_keys d' = open_keys d \<Longrightarrow> one_open d'"
  by (simp add: one_open_def)

lemma findings_upd_key: "incident_key (findings_upd w now f r) = incident_key r" "engine_open (findings_upd w now f r) = engine_open r"
  by (simp_all add: incident_key_def engine_open_def)

lemma refresh_rca_keys: "open_keys (fst (refreshIncidentRca coll g w orgId iid now force d)) = open_keys d"
  by (auto simp: refreshIncidentRca_def store_findings_def open_keys_def Let_def split_beta
      open_keys_update findings_upd_key split: option.split)

lemma analyze_keys: "open_keys (analyzeAfterOpen coll gens w orgId iid now d) = open_keys d"
proof -
  have "open_keys (fold (\<lambda>(k, r) d. fst (refreshIncidentRca coll (gens (Suc k)) w orgId (in_id r) now False d)) xs d) = open_keys d"
    for xs :: "(nat \<times> incident_row) list" and d
    by (induction xs arbitrary: d) (auto simp: refresh_rca_keys)
  then show ?thesis by (simp add: analyzeAfterOpen_def Let_def refresh_rca_keys)
qed

lemma matches_open_key:
  "matches_open orgId rule p r \<longleftrightarrow> engine_open r \<and> incident_key r = (orgId, Some (ar_id rule), Some (me_sourceId p), Some (me_metric p))"
  by (auto simp: matches_open_def engine_open_def incident_key_def)

lemma find_open_iff:
  "find_open orgId rule p d \<noteq> None \<longleftrightarrow> (orgId, Some (ar_id rule), Some (me_sourceId p), Some (me_metric p)) \<in> set (open_keys d)"
proof -
  have "find_open orgId rule p d \<noteq> None \<longleftrightarrow> (\<exists>r \<in> set (incidents d). matches_open orgId rule p r)"
    using find_first_None_iff[of "matches_open orgId rule p" "incidents d"] by (auto simp: find_open_def)
  also have "\<dots> \<longleftrightarrow> (\<exists>r \<in> set (filter engine_open (incidents d)).
      (orgId, Some (ar_id rule), Some (me_sourceId p), Some (me_metric p)) = incident_key r)"
    by (auto simp: matches_open_key)
  finally show ?thesis by (simp only: open_keys_def set_map image_iff)
qed

lemma open_incident_keys:
  "open_keys (open_incident env gens orgId now p rule c v d)
     = open_keys d @ [(orgId, Some (ar_id rule), Some (me_sourceId p), Some (me_metric p))]"
proof -
  have trigger: "open_keys (fst (triggerForIncident sha g r i t x)) = open_keys x" for sha g r i t x
    by (simp add: open_keys_def trigger_incidents)
  have notified: "open_keys (notify env g r i out x) = open_keys x" for g r i out x
    by (simp add: open_keys_def notify_incidents)
  show ?thesis
    unfolding open_incident_def Let_def trigger analyze_keys notified
    by (simp add: open_keys_def add_event_incidents insert_row_def new_incident_def engine_open_def incident_key_def)
qed

lemma keep_incident_keys: "open_keys (keep_incident env g now p rule c v opn d) = open_keys d"
proof -
  have "incident_key (refresh_upd c v p r) = incident_key r" "engine_open (refresh_upd c v p r) = engine_open r" for r
    by (simp_all add: refresh_upd_def incident_key_def engine_open_def)
  then show ?thesis
    by (simp add: keep_incident_def Let_def open_keys_def notify_incidents open_keys_update)
qed

lemma resolve_upd_key: "incident_key (resolve_upd now r) = incident_key r" "\<not> engine_open (resolve_upd now r)"
  by (simp_all add: resolve_upd_def incident_key_def engine_open_def)

lemma auto_resolve_incidents:
  "incidents (auto_resolve env g now rule opn d) = update_many (\<lambda>r. in_id r = in_id opn) (resolve_upd now) (incidents d)"
  by (simp add: auto_resolve_def Let_def notify_incidents add_event_incidents)

lemma auto_resolve_keys:
  assumes "one_open d" and "find_open orgId rule p d = Some opn"
  shows "one_open (auto_resolve env g now rule opn d)
    \<and> (orgId, Some (ar_id rule), Some (me_sourceId p), Some (me_metric p)) \<notin> set (open_keys (auto_resolve env g now rule opn d))"
proof -
  let ?k = "(orgId, Some (ar_id rule), Some (me_sourceId p), Some (me_metric p))"
    and ?t = "update_many (\<lambda>r. in_id r = in_id opn) (resolve_upd now) (incidents d)"
  have dist: "distinct (map incident_key (filter engine_open (incidents d)))"
    using assms(1) by (simp add: one_open_def open_keys_def)
  from assms(2) have opn: "opn \<in> set (incidents d)" "engine_open opn" "incident_key opn = ?k"
    using find_first_SomeD[of "matches_open orgId rule p" "incidents d" opn] by (auto simp: find_open_def matches_open_key)
  have "?k \<notin> incident_key ` set (filter engine_open ?t)"
  proof
    assume "?k \<in> incident_key ` set (filter engine_open ?t)"
    then obtain r where r: "r \<in> set ?t" "engine_open r" "incident_key r = ?k" by auto
    then have "r \<in> set (incidents d)" and "in_id r \<noteq> in_id opn"
      using resolve_upd_key(2) by (auto elim!: update_manyE)
    moreover have "r = opn" using dist r(2,3) opn calculation(1) by (auto simp: distinct_map intro: inj_onD[of incident_key])
    ultimately show False by simp
  qed
  then show ?thesis
    using open_keys_close[OF dist, of "resolve_upd now" "\<lambda>r. in_id r = in_id opn"] resolve_upd_key
    by (simp add: one_open_def open_keys_def auto_resolve_incidents)
qed

text \<open>After one pair of point and rule: the invariant, and whether an incident is open.\<close>

lemma condition_present:
  assumes "rule_condition_of orgId now p rule d cache = (cache', c)"
  shows "(rc_threshold c = None \<and> rc_anomaly c = None) \<longleftrightarrow> (rule_threshold rule = None \<and> \<not> ar_anomalyDetection rule)"
  using assms by (auto simp: rule_condition_of_def split_beta split: if_splits)

lemma evaluate_pair_open:
  assumes "one_open d" and "rule_condition_of orgId now p rule d cache = (cache', c)"
    and "rule_threshold rule \<noteq> None \<or> ar_anomalyDetection rule"
  shows "one_open (fst (evaluate_pair env gens orgId now p rule (d, cache)))"
    and "find_open orgId rule p (fst (evaluate_pair env gens orgId now p rule (d, cache))) \<noteq> None
      \<longleftrightarrow> sustained orgId now p rule c d"
proof -
  let ?k = "(orgId, Some (ar_id rule), Some (me_sourceId p), Some (me_metric p))"
  let ?d' = "fst (evaluate_pair env gens orgId now p rule (d, cache))"
  have ne: "\<not> (rc_threshold c = None \<and> rc_anomaly c = None)" using condition_present[OF assms(2)] assms(3) by blast
  have "one_open ?d' \<and> (?k \<in> set (open_keys ?d') \<longleftrightarrow> sustained orgId now p rule c d)"
  proof (cases "find_open orgId rule p d")
    case None
    then have new: "?k \<notin> set (open_keys d)" using find_open_iff[of orgId rule p d] by simp
    show ?thesis using None assms(1,2) ne new
      by (auto simp: evaluate_pair_def Let_def one_open_def open_incident_keys)
  next
    case (Some opn)
    then have old: "?k \<in> set (open_keys d)" using find_open_iff[of orgId rule p d] by simp
    show ?thesis using Some assms(1,2) ne old auto_resolve_keys[OF assms(1) Some]
      by (auto simp: evaluate_pair_def Let_def one_open_def keep_incident_keys)
  qed
  then show "one_open ?d'" and "find_open orgId rule p ?d' \<noteq> None \<longleftrightarrow> sustained orgId now p rule c d"
    unfolding find_open_iff by blast+
qed

lemma evaluate_pair_one_open: "one_open (fst s) \<Longrightarrow> one_open (fst (evaluate_pair env gens orgId now p rule s))"
proof -
  assume one: "one_open (fst s)"
  obtain d cache where s: "s = (d, cache)" by (cases s)
  obtain cache' c where c: "rule_condition_of orgId now p rule d cache = (cache', c)" by (cases "rule_condition_of orgId now p rule d cache")
  show ?thesis
  proof (cases "rule_threshold rule \<noteq> None \<or> ar_anomalyDetection rule")
    case True
    then show ?thesis using evaluate_pair_open(1)[OF _ c] one s by simp
  next
    case False
    then show ?thesis using condition_present[OF c] one s c by (simp add: evaluate_pair_def)
  qed
qed

lemma evaluate_one_open:
  assumes "one_open (fst s)"
  shows "one_open (fst (evaluateIngestedMetrics env gens orgId rows now s))"
proof -
  have "one_open (fst (fold (\<lambda>(k, p, r). evaluate_pair env (gens k) orgId now p r) xs s))" if "one_open (fst s)" for xs s
    using that
  proof (induction xs arbitrary: s)
    case (Cons x xs)
    obtain k p r where x: "x = (k, p, r)" by (cases x)
    have "one_open (fst (evaluate_pair env (gens k) orgId now p r s))" by (rule evaluate_pair_one_open[OF Cons.prems])
    from Cons.IH[OF this] show ?case by (simp add: x)
  qed simp
  then show ?thesis using assms by (simp add: evaluateIngestedMetrics_def Let_def)
qed

text \<open>
  Incidents do not record the instance they were opened for: a point of another instance of the same
  source and metric that is fine resolves the shared incident although the first one still breaches.
\<close>

lemma shared_incident_resolved_by_other_instance:
  assumes "one_open d" and "rule_threshold rule \<noteq> None \<or> ar_anomalyDetection rule"
    and "me_sourceId q = me_sourceId p" and "me_metric q = me_metric p"
    and "evaluate_pair env gens orgId now p rule (d, cache) = (d1, cache1)"
    and "rule_condition_of orgId now q rule d1 cache1 = (cache2, c)" and "\<not> sustained orgId now q rule c d1"
  shows "find_open orgId rule p (fst (evaluate_pair env gens' orgId now q rule (d1, cache1))) = None"
proof -
  have "one_open d1" using evaluate_pair_one_open[of "(d, cache)"] assms(1,5) by (metis fst_conv)
  from evaluate_pair_open(2)[OF this assms(6,2)] assms(7)
  have "find_open orgId rule q (fst (evaluate_pair env gens' orgId now q rule (d1, cache1))) = None" by blast
  moreover have "matches_open orgId rule p = matches_open orgId rule q" using assms(3,4) by (auto simp: matches_open_def)
  ultimately show ?thesis by (simp add: find_open_def)
qed

section \<open>Properties\<close>


text \<open>Seven minutes above the threshold of a five-minute rule.\<close>

definition sample_senders :: senders where
  "sample_senders = \<lparr>sn_numstr = (\<lambda>_. []), sn_email = (\<lambda>_ _ _. None), sn_parse_url = (\<lambda>_. None), sn_lookup = (\<lambda>_. Inr []),
     sn_exchange = (\<lambda>_ _. Inr 200), sn_show_nat = (\<lambda>_. []), sn_all = True\<rparr>"

definition sample_env :: eval_env where
  "sample_env = \<lparr>ev_senders = sample_senders, ev_APP_BASE_URL = None, ev_allowPrivate = False, ev_wantsLlm = False,
     ev_collation = (\<lambda>n. real (length n)), ev_sha256 = rev\<rparr>"

definition sample_breach_db :: db where
  "sample_breach_db = empty_db\<lparr>metricEntries := [sample_point (-420000) 95, sample_point 0 97], alertRules := [sample_rule]\<rparr>"

lemma sample_breach_sustained:
  "sustained ''acme'' 0 (sample_point 0 97) sample_rule \<lparr>rc_threshold = Some (GT, 90), rc_anomaly = None\<rparr> sample_breach_db"
  by (simp add: sustained_def load_history_def sample_breach_db_def sample_point_def find_many_def order_desc_def
      HISTORY_LOOKBACK_POINTS_def streakSince_def conditionHolds_def isSustained_def sample_rule_def empty_db_def)


end
