(* ===== verification/Alert_Rules.thy ===== *)
theory Alert_Rules
  imports Alerts Audit_Trail
begin

text \<open>
  Alert rules, \<open>src/modules/alerts/rules.ts\<close>, and the constants of \<open>src/modules/alerts/constants.ts\<close>.
  \<open>orderBy name\<close> sorts by the collation of the database, a parameter; so is the URL parser. A
  threshold is a real, so \<open>Number.isFinite\<close> holds for it.
\<close>

section \<open>Constants\<close>

primrec METRICS_BY_SOURCE_KIND :: "metric_source \<Rightarrow> metric_type list" where
  "METRICS_BY_SOURCE_KIND HOST = [CPU_USAGE_PERCENT, LOAD_AVERAGE_1M, MEMORY_USED_PERCENT, MEMORY_USED_BYTES,
     SWAP_USED_PERCENT, DISK_USED_PERCENT, DISK_USED_BYTES, DISK_READ_IOPS, DISK_WRITE_IOPS, DISK_READ_BPS, DISK_WRITE_BPS,
     NETWORK_IN_BPS, NETWORK_OUT_BPS, PROCESS_COUNT, UPTIME_SECONDS, TEMPERATURE_CELSIUS, POWER_WATTS]"
| "METRICS_BY_SOURCE_KIND NETWORK_DEVICE = [LATENCY_MS, UPTIME_SECONDS, TEMPERATURE_CELSIUS, POWER_WATTS,
     BANDWIDTH_IN_BPS, BANDWIDTH_OUT_BPS, BANDWIDTH_UTILIZATION_PERCENT, PACKET_LOSS_PERCENT, INTERFACE_ERRORS_PER_SEC,
     INTERFACE_CRC_ERRORS_PER_SEC]"
| "METRICS_BY_SOURCE_KIND NETWORK_INTERFACE = []"
| "METRICS_BY_SOURCE_KIND DATABASE = [DB_QPS, DB_ACTIVE_CONNECTIONS, DB_CONNECTION_USAGE_PERCENT, DB_CACHE_HIT_RATIO,
     DB_SLOW_QUERIES_PER_MIN, DB_DEADLOCKS_PER_MIN, DB_REPLICATION_LAG_SECONDS, DB_STORAGE_USED_BYTES]"
| "METRICS_BY_SOURCE_KIND ENDPOINT = [ENDPOINT_RESPONSE_MS, ENDPOINT_AVAILABLE, ENDPOINT_SSL_DAYS_LEFT]"

text \<open>\<open>metric.toLowerCase().replace(/_([a-z0-9])/g, upper)\<close>\<close>

fun camel_case :: "string \<Rightarrow> string" where
  "camel_case (c # d # cs) =
     (if c = CHR ''_'' \<and> ((97 \<le> code_unit d \<and> code_unit d \<le> 122) \<or> (48 \<le> code_unit d \<and> code_unit d \<le> 57))
      then upper_char d @ camel_case cs else c # camel_case (d # cs))"
| "camel_case cs = cs"

definition metricTypeMessageKey :: "metric_type \<Rightarrow> string" where
  "metricTypeMessageKey metric = camel_case (toLowerCase (metric_name metric))"

primrec sourceKindMessageKey :: "metric_source \<Rightarrow> string" where
  "sourceKindMessageKey HOST = ''host''"
| "sourceKindMessageKey NETWORK_DEVICE = ''networkDevice''"
| "sourceKindMessageKey NETWORK_INTERFACE = ''networkDevice''"
| "sourceKindMessageKey DATABASE = ''database''"
| "sourceKindMessageKey ENDPOINT = ''endpoint''"

section \<open>Reading\<close>

record alert_rule_view =
  rv_rule :: alert_rule_row
  rv_sourceLabel :: "string option"

datatype list_error = L_forbidden

text \<open>
  The labels are resolved in one query per kind. Looking a label up in the batch of its kind is
  looking it up among the sources of that kind.
\<close>

definition ids_of_kind :: "metric_source \<Rightarrow> alert_rule_row list \<Rightarrow> ident list" where
  "ids_of_kind kind rows = concat (map (\<lambda>r. if ar_sourceKind r = kind
     then (case truthy (ar_sourceId r) of Some s \<Rightarrow> [s] | None \<Rightarrow> []) else []) rows)"

definition listAlertRules :: "(string \<Rightarrow> real) \<Rightarrow> actor \<Rightarrow> db \<Rightarrow> (alert_rule_view list, list_error) result" where
  "listAlertRules collate a d =
     (if \<not> can (Some (a_role a)) alerts_read then fail L_forbidden
      else
        let rows = order_asc (\<lambda>r. collate (ar_name r)) (find_many (\<lambda>r. ar_orgId r = a_orgId a) (alertRules d));
            labels = (\<lambda>kind. resolveSourceLabels d (a_orgId a) kind (ids_of_kind kind rows))
        in ok (map (\<lambda>r. \<lparr>rv_rule = r, rv_sourceLabel = (case truthy (ar_sourceId r) of
                 None \<Rightarrow> None | Some s \<Rightarrow> map_of (labels (ar_sourceKind r)) s)\<rparr>) rows))"

section \<open>Writing\<close>

record alert_rule_input =
  ri_name :: string
  ri_description :: "string option"
  ri_ruleSourceKind :: metric_source
  ri_ruleSourceId :: "ident option"
  ri_ruleMetric :: metric_type
  ri_instanceFilter :: "string option"
  ri_operator :: "alert_operator option"
  ri_threshold :: "real option"
  ri_anomalyDetection :: bool
  ri_anomalySensitivity :: anomaly_sensitivity
  ri_durationSec :: int
  ri_severity :: severity
  ri_channels :: "notification_channel list"
  ri_notifyEmails :: "string list"
  ri_slackWebhookUrl :: "string option"
  ri_teamsWebhookUrl :: "string option"
  ri_webhookUrl :: "string option"
  ri_cooldownSec :: int
  ri_remediationActionId :: "ident option"
  ri_autoRemediate :: bool

datatype alert_rule_write_error =
  AR_forbidden | AR_invalid_source | AR_not_found | AR_condition_required | AR_invalid_remediation | AR_invalid_webhook

definition webhookError :: "(string \<Rightarrow> url option) \<Rightarrow> alert_rule_input \<Rightarrow> bool \<Rightarrow> alert_rule_write_error option" where
  "webhookError parse_url inp allowPrivate =
     (if list_all (\<lambda>u. case u of None \<Rightarrow> True | Some url \<Rightarrow> webhookUrlAllowed parse_url url allowPrivate)
           [ri_slackWebhookUrl inp, ri_teamsWebhookUrl inp, ri_webhookUrl inp]
      then None else Some AR_invalid_webhook)"

definition remediationInOrg :: "ident \<Rightarrow> ident option \<Rightarrow> db \<Rightarrow> bool" where
  "remediationInOrg orgId aid d = (case truthy aid of None \<Rightarrow> True
     | Some i \<Rightarrow> count_rows (\<lambda>r. ra_id r = i \<and> ra_orgId r = orgId) (remediationActions d) = 1)"

definition conditionError :: "alert_rule_input \<Rightarrow> alert_rule_write_error option" where
  "conditionError inp =
     (let hasThreshold = (ri_operator inp \<noteq> None \<and> ri_threshold inp \<noteq> None);
          halfThreshold = ((ri_operator inp = None) \<noteq> (ri_threshold inp = None))
      in if halfThreshold \<or> (\<not> hasThreshold \<and> \<not> ri_anomalyDetection inp) then Some AR_condition_required else None)"

text \<open>The checks create and update share, in their order.\<close>

definition check_rule_input ::
  "(string \<Rightarrow> url option) \<Rightarrow> actor \<Rightarrow> alert_rule_input \<Rightarrow> bool \<Rightarrow> db \<Rightarrow> alert_rule_write_error option" where
  "check_rule_input parse_url a inp allowPrivate d =
     (if \<not> can (Some (a_role a)) alerts_write then Some AR_forbidden
      else case (case conditionError inp of Some e \<Rightarrow> Some e | None \<Rightarrow> webhookError parse_url inp allowPrivate) of
        Some e \<Rightarrow> Some e
      | None \<Rightarrow>
          if (case truthy (ri_ruleSourceId inp) of None \<Rightarrow> False
              | Some s \<Rightarrow> \<not> sourceExists d (a_orgId a) (ri_ruleSourceKind inp) s) then Some AR_invalid_source
          else if \<not> remediationInOrg (a_orgId a) (ri_remediationActionId inp) d then Some AR_invalid_remediation
          else None)"

definition apply_rule_input :: "alert_rule_input \<Rightarrow> alert_rule_row \<Rightarrow> alert_rule_row" where
  "apply_rule_input inp r = r\<lparr>ar_name := ri_name inp, ar_description := ri_description inp, ar_sourceKind := ri_ruleSourceKind inp,
     ar_sourceId := ri_ruleSourceId inp, ar_metric := ri_ruleMetric inp, ar_instanceFilter := ri_instanceFilter inp,
     ar_operator := ri_operator inp, ar_threshold := ri_threshold inp, ar_anomalyDetection := ri_anomalyDetection inp,
     ar_anomalySensitivity := ri_anomalySensitivity inp, ar_durationSec := ri_durationSec inp, ar_severity := ri_severity inp,
     ar_channels := ri_channels inp, ar_notifyEmails := ri_notifyEmails inp, ar_slackWebhookUrl := ri_slackWebhookUrl inp,
     ar_teamsWebhookUrl := ri_teamsWebhookUrl inp, ar_webhookUrl := ri_webhookUrl inp, ar_cooldownSec := ri_cooldownSec inp,
     ar_remediationActionId := ri_remediationActionId inp, ar_autoRemediate := ri_autoRemediate inp\<rparr>"

definition rule_row :: "dbgen \<Rightarrow> ident \<Rightarrow> alert_rule_input \<Rightarrow> alert_rule_row" where
  "rule_row g orgId inp = \<lparr>ar_id = cuid g 0, ar_orgId = orgId, ar_name = ri_name inp, ar_description = ri_description inp,
     ar_enabled = True, ar_sourceKind = ri_ruleSourceKind inp, ar_sourceId = ri_ruleSourceId inp, ar_metric = ri_ruleMetric inp,
     ar_instanceFilter = ri_instanceFilter inp, ar_operator = ri_operator inp, ar_threshold = ri_threshold inp,
     ar_durationSec = ri_durationSec inp, ar_severity = ri_severity inp, ar_anomalyDetection = ri_anomalyDetection inp,
     ar_anomalySensitivity = ri_anomalySensitivity inp, ar_channels = ri_channels inp, ar_notifyEmails = ri_notifyEmails inp,
     ar_slackWebhookUrl = ri_slackWebhookUrl inp, ar_teamsWebhookUrl = ri_teamsWebhookUrl inp, ar_webhookUrl = ri_webhookUrl inp,
     ar_cooldownSec = ri_cooldownSec inp, ar_remediationActionId = ri_remediationActionId inp,
     ar_autoRemediate = ri_autoRemediate inp, ar_createdAt = clock g\<rparr>"

definition rule_metadata :: "alert_rule_input \<Rightarrow> json option" where
  "rule_metadata inp = Some (JObj [(''name'', JStr (ri_name inp)), (''metric'', JStr (metric_name (ri_ruleMetric inp)))])"

definition createAlertRule ::
  "(string \<Rightarrow> url option) \<Rightarrow> dbgen \<Rightarrow> actor \<Rightarrow> alert_rule_input \<Rightarrow> bool \<Rightarrow> db \<Rightarrow> db \<times> (ident, alert_rule_write_error) result" where
  "createAlertRule parse_url g a inp allowPrivate d =
     (case check_rule_input parse_url a inp allowPrivate d of
        Some e \<Rightarrow> (d, fail e)
      | None \<Rightarrow>
          let row = rule_row g (a_orgId a) inp in
          (recordAudit g 1 (actor_entry ''alert_rule.created'' a ''alert_rule'' (ar_id row) (rule_metadata inp))
             (d\<lparr>alertRules := insert_row row (alertRules d)\<rparr>), ok (ar_id row)))"

text \<open>\<open>updateMany\<close> scoped to the organization, then the number of rows decides.\<close>

definition rule_in_org :: "actor \<Rightarrow> ident \<Rightarrow> alert_rule_row \<Rightarrow> bool" where
  "rule_in_org a rid r = (ar_id r = rid \<and> ar_orgId r = a_orgId a)"

definition updateAlertRule ::
  "(string \<Rightarrow> url option) \<Rightarrow> dbgen \<Rightarrow> actor \<Rightarrow> ident \<Rightarrow> alert_rule_input \<Rightarrow> bool \<Rightarrow> db \<Rightarrow> db \<times> (unit, alert_rule_write_error) result" where
  "updateAlertRule parse_url g a rid inp allowPrivate d =
     (case check_rule_input parse_url a inp allowPrivate d of
        Some e \<Rightarrow> (d, fail e)
      | None \<Rightarrow>
          let d1 = d\<lparr>alertRules := update_many (rule_in_org a rid) (apply_rule_input inp) (alertRules d)\<rparr> in
          if count_rows (rule_in_org a rid) (alertRules d) \<noteq> 1 then (d1, fail AR_not_found)
          else (recordAudit g 0 (actor_entry ''alert_rule.updated'' a ''alert_rule'' rid (rule_metadata inp)) d1, ok ()))"

definition setAlertRuleEnabled ::
  "dbgen \<Rightarrow> actor \<Rightarrow> ident \<Rightarrow> bool \<Rightarrow> db \<Rightarrow> db \<times> (unit, alert_rule_write_error) result" where
  "setAlertRuleEnabled g a rid enabled d =
     (if \<not> can (Some (a_role a)) alerts_write then (d, fail AR_forbidden)
      else
        let d1 = d\<lparr>alertRules := update_many (rule_in_org a rid) (\<lambda>r. r\<lparr>ar_enabled := enabled\<rparr>) (alertRules d)\<rparr> in
        if count_rows (rule_in_org a rid) (alertRules d) \<noteq> 1 then (d1, fail AR_not_found)
        else (recordAudit g 0 (actor_entry (if enabled then ''alert_rule.enabled'' else ''alert_rule.disabled'') a ''alert_rule'' rid None) d1, ok ()))"

text \<open>Deleting a rule sets \<open>ruleId\<close> of its incidents to null (\<open>onDelete: SetNull\<close>).\<close>

definition deleteAlertRule :: "dbgen \<Rightarrow> actor \<Rightarrow> ident \<Rightarrow> db \<Rightarrow> db \<times> (unit, alert_rule_write_error) result" where
  "deleteAlertRule g a rid d =
     (if \<not> can (Some (a_role a)) alerts_write then (d, fail AR_forbidden)
      else if count_rows (rule_in_org a rid) (alertRules d) \<noteq> 1
      then (d\<lparr>alertRules := delete_many (rule_in_org a rid) (alertRules d)\<rparr>, fail AR_not_found)
      else (recordAudit g 0 (actor_entry ''alert_rule.deleted'' a ''alert_rule'' rid None)
              (d\<lparr>alertRules := delete_many (rule_in_org a rid) (alertRules d),
                 incidents := update_many (\<lambda>i. in_ruleId i = Some rid) (\<lambda>i. i\<lparr>in_ruleId := None\<rparr>) (incidents d)\<rparr>), ok ()))"

datatype test_error = T_forbidden | T_not_found | T_no_channel

definition sendTestNotification ::
  "senders \<Rightarrow> dbgen \<Rightarrow> actor \<Rightarrow> ident \<Rightarrow> bool \<Rightarrow> string option \<Rightarrow> db \<Rightarrow> db \<times> (channel_result list, test_error) result" where
  "sendTestNotification sn g a rid allowPrivate baseUrl d =
     (if \<not> can (Some (a_role a)) alerts_write then (d, fail T_forbidden)
      else case find_first (rule_in_org a rid) (alertRules d) of
        None \<Rightarrow> (d, fail T_not_found)
      | Some rule \<Rightarrow>
          let results = dispatchIncidentNotification sn (rule_channels rule)
                \<lparr>no_id = ''test-'' @ ar_id rule, no_title = ar_name rule, no_severity = ar_severity rule,
                 no_sourceKind = Some (ar_sourceKind rule), no_sourceLabel = None, no_metric = Some (ar_metric rule),
                 no_triggerValue = None, no_peakValue = None\<rparr> N_test baseUrl allowPrivate
          in if results = [] then (d, fail T_no_channel)
             else (recordAudit g 0 (actor_entry ''alert_rule.test_sent'' a ''alert_rule'' (ar_id rule)
                     (Some (JObj [(''name'', JStr (ar_name rule)), (''results'', JArr (map (\<lambda>r. JObj [
                        (''channel'', JStr (channel_name (cr_channel r))), (''ok'', JBool (cr_ok r)),
                        (''code'', opt_json JStr (cr_code r))]) results))]))) d, ok results))"

section \<open>What a stored rule satisfies\<close>

text \<open>
  The condition is complete, every webhook is one the deployment may call, and the source and the
  remediation the checks accepted belong to the organization.
\<close>

definition rule_complete :: "alert_rule_row \<Rightarrow> bool" where
  "rule_complete r = ((ar_operator r = None) = (ar_threshold r = None) \<and> (ar_operator r \<noteq> None \<or> ar_anomalyDetection r))"

definition rule_webhooks :: "alert_rule_row \<Rightarrow> string option list" where
  "rule_webhooks r = [ar_slackWebhookUrl r, ar_teamsWebhookUrl r, ar_webhookUrl r]"

definition rule_wf :: "(string \<Rightarrow> url option) \<Rightarrow> bool \<Rightarrow> alert_rule_row \<Rightarrow> bool" where
  "rule_wf parse_url allowPrivate r = (rule_complete r
     \<and> list_all (\<lambda>u. case u of None \<Rightarrow> True | Some url \<Rightarrow> webhookUrlAllowed parse_url url allowPrivate) (rule_webhooks r))"

definition rules_wf :: "(string \<Rightarrow> url option) \<Rightarrow> bool \<Rightarrow> db \<Rightarrow> bool" where
  "rules_wf parse_url allowPrivate d = list_all (rule_wf parse_url allowPrivate) (alertRules d)"

lemma check_rule_inputD:
  assumes "check_rule_input parse_url a inp ap d = None"
  shows "can (Some (a_role a)) alerts_write"
    and "conditionError inp = None" and "webhookError parse_url inp ap = None"
    and "truthy (ri_ruleSourceId inp) = Some s \<Longrightarrow> sourceExists d (a_orgId a) (ri_ruleSourceKind inp) s"
    and "remediationInOrg (a_orgId a) (ri_remediationActionId inp) d"
  using assms by (auto simp: check_rule_input_def split: if_splits option.splits)

lemma conditionError_None:
  "conditionError inp = None \<longleftrightarrow> (ri_operator inp = None) = (ri_threshold inp = None) \<and> (ri_operator inp \<noteq> None \<or> ri_anomalyDetection inp)"
  by (auto simp: conditionError_def Let_def)

lemma checked_row_wf:
  assumes "check_rule_input parse_url a inp ap d = None"
  shows "rule_wf parse_url ap (rule_row g orgId inp)" and "rule_wf parse_url ap (apply_rule_input inp r)"
  using check_rule_inputD(2,3)[OF assms]
  by (auto simp: rule_wf_def rule_complete_def rule_webhooks_def rule_row_def apply_rule_input_def conditionError_None
      webhookError_def split: if_splits)

lemma create_rules_wf [inv_intros]:
  "rules_wf parse_url ap d \<Longrightarrow> rules_wf parse_url ap (fst (createAlertRule parse_url g a inp ap d))"
  using checked_row_wf(1)[of parse_url a inp ap d g "a_orgId a"]
  by (auto simp: createAlertRule_def rules_wf_def insert_row_def recordAudit_def Let_def split: option.split)

lemma update_rules_wf [inv_intros]:
  "rules_wf parse_url ap d \<Longrightarrow> rules_wf parse_url ap (fst (updateAlertRule parse_url g a rid inp ap d))"
  using checked_row_wf(2)[of parse_url a inp ap d]
  by (auto simp: updateAlertRule_def rules_wf_def recordAudit_def Let_def split: option.split intro: update_many_all)

lemma enable_rules_wf [inv_intros]:
  "rules_wf parse_url ap d \<Longrightarrow> rules_wf parse_url ap (fst (setAlertRuleEnabled g a rid en d))"
  by (auto simp: setAlertRuleEnabled_def rules_wf_def recordAudit_def Let_def rule_wf_def rule_complete_def rule_webhooks_def
      intro!: update_many_all)

lemma delete_rules_wf [inv_intros]:
  "rules_wf parse_url ap d \<Longrightarrow> rules_wf parse_url ap (fst (deleteAlertRule g a rid d))"
  by (auto simp: deleteAlertRule_def rules_wf_def recordAudit_def delete_many_def list_all_iff)

lemma test_rules_wf [inv_intros]:
  "rules_wf parse_url ap d \<Longrightarrow> rules_wf parse_url ap (fst (sendTestNotification sn g a rid ap' base d))"
  by (auto simp: sendTestNotification_def rules_wf_def recordAudit_def Let_def split: option.split)

datatype rule_cmd =
    C_create actor alert_rule_input
  | C_update actor ident alert_rule_input
  | C_enable actor ident bool
  | C_delete actor ident
  | C_test senders actor ident "string option"

definition rule_op :: "(string \<Rightarrow> url option) \<Rightarrow> bool \<Rightarrow> dbgen \<times> rule_cmd \<Rightarrow> db \<Rightarrow> db" where
  "rule_op parse_url ap gc d = (case gc of (g, c) \<Rightarrow> case c of
     C_create a inp \<Rightarrow> fst (createAlertRule parse_url g a inp ap d)
   | C_update a rid inp \<Rightarrow> fst (updateAlertRule parse_url g a rid inp ap d)
   | C_enable a rid en \<Rightarrow> fst (setAlertRuleEnabled g a rid en d)
   | C_delete a rid \<Rightarrow> fst (deleteAlertRule g a rid d)
   | C_test sn a rid base \<Rightarrow> fst (sendTestNotification sn g a rid ap base d))"

interpretation rule_store: kept_invariant "rules_wf parse_url ap" "rule_op parse_url ap" for parse_url ap
  by unfold_locales (auto simp: rule_op_def inv_intros split: rule_cmd.split prod.split)

lemma complete_rule_has_condition:
  assumes "rule_complete r"
  shows "rc_threshold (snd (rule_condition_of orgId now p r d cache)) \<noteq> None \<or> rc_anomaly (snd (rule_condition_of orgId now p r d cache)) \<noteq> None"
  using assms by (auto simp: rule_complete_def rule_condition_of_def rule_threshold_def split_beta Let_def split: option.split)

text \<open>C33.
  Every rule that any sequence of rule operations (create, update, enable, disable, delete, test; with
  any actors and inputs) leaves in a database whose rules were well formed has a complete condition,
  so its evaluation is never skipped, and only webhooks that the save-time guard allows.
\<close>

theorem stored_rules_evaluable:
  assumes "rules_wf parse_url ap d0"
    and "d = fold (rule_op parse_url ap) cmds d0"
    and "r \<in> set (alertRules d)"
  shows "(rc_threshold (snd (rule_condition_of orgId now p r d cache)) \<noteq> None
      \<or> rc_anomaly (snd (rule_condition_of orgId now p r d cache)) \<noteq> None)
    \<and> list_all (\<lambda>u. case u of None \<Rightarrow> True | Some url \<Rightarrow> webhookUrlAllowed parse_url url ap)
        [ar_slackWebhookUrl r, ar_teamsWebhookUrl r, ar_webhookUrl r]"
proof -
  have "rule_wf parse_url ap r"
    using rule_store.fold_inv[OF assms(1), of cmds] assms(2,3) by (auto simp: rules_wf_def list_all_iff)
  then show ?thesis
    using complete_rule_has_condition[of r orgId now p d cache] unfolding rule_wf_def rule_webhooks_def by blast
qed

definition sample_rule_input :: alert_rule_input where
  "sample_rule_input = \<lparr>ri_name = ''CPU'', ri_description = None, ri_ruleSourceKind = HOST, ri_ruleSourceId = Some ''h1'',
     ri_ruleMetric = CPU_USAGE_PERCENT, ri_instanceFilter = None, ri_operator = Some GT, ri_threshold = Some 90,
     ri_anomalyDetection = False, ri_anomalySensitivity = MEDIUM, ri_durationSec = 300, ri_severity = WARNING,
     ri_channels = [], ri_notifyEmails = [], ri_slackWebhookUrl = None, ri_teamsWebhookUrl = None, ri_webhookUrl = None,
     ri_cooldownSec = 600, ri_remediationActionId = None, ri_autoRemediate = False\<rparr>"

definition sample_rule_db :: db where
  "sample_rule_db = sample_db\<lparr>monitoredHosts := [sample_host]\<rparr>"

definition sample_metric :: metric_row where
  "sample_metric = \<lparr>me_time = 0, me_orgId = ''acme'', me_sourceKind = HOST, me_sourceId = ''h1'',
     me_metric = CPU_USAGE_PERCENT, me_instance = [], me_value = 95\<rparr>"

definition sample_created :: db where
  "sample_created = fold (rule_op (\<lambda>u. None) False) [(sample_gen, C_create (sample_actor ''ann'' ''acme'' OWNER) sample_rule_input)] sample_rule_db"

lemma sample_created_rules: "alertRules sample_created = [rule_row sample_gen ''acme'' sample_rule_input]"
  by code_simp

theorem stored_rules_evaluable_witness:
  "rc_threshold (snd (rule_condition_of ''acme'' 0 sample_metric (rule_row sample_gen ''acme'' sample_rule_input) sample_created []))
     = Some (GT, 90)
   \<and> list_all (\<lambda>u. case u of None \<Rightarrow> True | Some url \<Rightarrow> webhookUrlAllowed (\<lambda>u. None) url False)
       [ar_slackWebhookUrl (rule_row sample_gen ''acme'' sample_rule_input), None]"
  using stored_rules_evaluable[of "\<lambda>u. None" False sample_rule_db sample_created
      "[(sample_gen, C_create (sample_actor ''ann'' ''acme'' OWNER) sample_rule_input)]"
      "rule_row sample_gen ''acme'' sample_rule_input" "''acme''" 0 sample_metric "[]"]
  by (simp add: sample_created_rules sample_created_def[symmetric] rules_wf_def sample_rule_db_def sample_db_def empty_db_def
      rule_condition_of_def rule_threshold_def rule_row_def sample_rule_input_def)

end
