(* ===== verification/Incidents.thy ===== *)
theory Incidents
  imports Alert_Rules
begin

text \<open>
  Incidents as people handle them, \<open>src/modules/incidents/service.ts\<close>: the lists, and acknowledging,
  resolving, reopening, annotating and re-analysing one. Beside the definitions: the life cycle as a step relation and
  the proof that every operation, and the evaluation of new measurements, follows it.

  Each operation is one transaction; \<open>now\<close> is its \<open>new Date()\<close>. A column ordered descending lists
  nulls first, as PostgreSQL does.
\<close>

section \<open>Lists\<close>

record incident_event_view =
  ev_row :: incident_event_row
  ev_actorEmail :: "string option"

record incident_rca_view =
  iv_findings :: "rca_findings option"
  iv_confidence :: "real option"
  iv_summaryEn :: "string option"
  iv_summaryFr :: "string option"
  iv_model :: "string option"
  iv_narrativePending :: bool
  iv_narrativeFailed :: bool

record incident_remediation_view =
  ir_id :: ident
  ir_actionName :: "string option"
  ir_hostLabel :: "string option"
  ir_status :: execution_status
  ir_statusReason :: "string option"
  ir_exitCode :: "int option"

record incident_view =
  iv_incident :: incident_row
  iv_rca :: incident_rca_view
  iv_remediations :: "incident_remediation_view list"
  iv_events :: "incident_event_view list"

definition EVENTS_PER_INCIDENT :: nat where "EVENTS_PER_INCIDENT = 30"

text \<open>The nested selections: at most five executions, newest first, and thirty events, oldest first.\<close>

definition incident_executions :: "db \<Rightarrow> ident \<Rightarrow> remediation_execution_row list" where
  "incident_executions d iid = take 5 (order_desc re_createdAt (find_many (\<lambda>e. re_incidentId e = Some iid) (remediationExecutions d)))"

definition incident_events :: "db \<Rightarrow> ident \<Rightarrow> incident_event_row list" where
  "incident_events d iid = take EVENTS_PER_INCIDENT (order_asc ie_createdAt (find_many (\<lambda>e. ie_incidentId e = iid) (incidentEvents d)))"

definition remediation_view :: "db \<Rightarrow> remediation_execution_row \<Rightarrow> incident_remediation_view" where
  "remediation_view d e = \<lparr>ir_id = re_id e,
     ir_actionName = map_option ra_name (find_first (\<lambda>a. ra_id a = re_actionId e) (remediationActions d)),
     ir_hostLabel = (case re_hostId e of None \<Rightarrow> None | Some hid \<Rightarrow>
        map_option (\<lambda>h. case h_displayName h of Some n \<Rightarrow> n | None \<Rightarrow> h_hostname h) (find_first (\<lambda>h. h_id h = hid) (monitoredHosts d))),
     ir_status = re_status e, ir_statusReason = re_statusReason e, ir_exitCode = re_exitCode e\<rparr>"

definition rca_section :: "incident_row \<Rightarrow> incident_rca_view" where
  "rca_section r = \<lparr>iv_findings = in_rcaFindings r, iv_confidence = in_rcaConfidence r, iv_summaryEn = in_rcaSummaryEn r,
     iv_summaryFr = in_rcaSummaryFr r, iv_model = in_rcaModel r, iv_narrativePending = (in_rcaLlmRequestedAt r \<noteq> None),
     iv_narrativeFailed = (in_rcaLlmRequestedAt r = None \<and> in_rcaLlmError r \<noteq> None \<and> truthy (in_rcaSummaryEn r) = None)\<rparr>"

definition toRows :: "db \<Rightarrow> incident_row list \<Rightarrow> incident_view list" where
  "toRows d incs =
     (let actorIds = concat (map (\<lambda>i. List.map_filter ie_actorId (incident_events d (in_id i))) incs);
          emailById = map_of (map (\<lambda>u. (u_id u, u_email u)) (find_many (\<lambda>u. u_id u \<in> set actorIds) (users d)))
      in map (\<lambda>i. \<lparr>iv_incident = i, iv_rca = rca_section i,
           iv_remediations = map (remediation_view d) (incident_executions d (in_id i)),
           iv_events = map (\<lambda>e. \<lparr>ev_row = e, ev_actorEmail = (case truthy (ie_actorId e) of None \<Rightarrow> None | Some u \<Rightarrow> emailById u)\<rparr>)
             (incident_events d (in_id i))\<rparr>) incs)"

definition listActiveIncidents :: "actor \<Rightarrow> db \<Rightarrow> (incident_view list, list_error) result" where
  "listActiveIncidents a d =
     (if \<not> can (Some (a_role a)) incidents_read then fail L_forbidden
      else ok (toRows d (order_desc (\<lambda>r. int (severity_rank (in_severity r))) (order_desc in_startedAt
        (find_many (\<lambda>r. in_orgId r = a_orgId a \<and> in_status r \<noteq> RESOLVED) (incidents d))))))"

definition order_desc_nulls_first :: "('r \<Rightarrow> int option) \<Rightarrow> 'r list \<Rightarrow> 'r list" where
  "order_desc_nulls_first key t = filter (\<lambda>r. key r = None) t @ order_desc (\<lambda>r. the (key r)) (filter (\<lambda>r. key r \<noteq> None) t)"

definition listResolvedIncidents :: "actor \<Rightarrow> int \<Rightarrow> db \<Rightarrow> (incident_view list, list_error) result" where
  "listResolvedIncidents a limit d =
     (if \<not> can (Some (a_role a)) incidents_read then fail L_forbidden
      else ok (toRows d (take (nat (min (max limit 1) 200)) (order_desc_nulls_first in_resolvedAt
        (find_many (\<lambda>r. in_orgId r = a_orgId a \<and> in_status r = RESOLVED) (incidents d))))))"

section \<open>Operations\<close>

datatype incident_write_error = IW_forbidden | IW_not_found | IW_invalid_status

definition ownedIncident :: "ident \<Rightarrow> ident \<Rightarrow> db \<Rightarrow> incident_row option" where
  "ownedIncident orgId iid d = find_first (\<lambda>r. in_id r = iid \<and> in_orgId r = orgId) (incidents d)"

definition set_incident :: "ident \<Rightarrow> (incident_row \<Rightarrow> incident_row) \<Rightarrow> db \<Rightarrow> db" where
  "set_incident iid f d = d\<lparr>incidents := update_many (\<lambda>r. in_id r = iid) f (incidents d)\<rparr>"

definition actor_event :: "dbgen \<Rightarrow> actor \<Rightarrow> ident \<Rightarrow> incident_event_type \<Rightarrow> string option \<Rightarrow> incident_event_row" where
  "actor_event g a iid ty message = \<lparr>ie_id = cuid g 0, ie_incidentId = iid, ie_type = ty, ie_message = message,
     ie_actorId = Some (a_userId a), ie_data = None, ie_createdAt = clock g\<rparr>"

definition ack_upd :: "actor \<Rightarrow> ms \<Rightarrow> incident_row \<Rightarrow> incident_row" where
  "ack_upd a now r = r\<lparr>in_status := ACKNOWLEDGED, in_acknowledgedAt := Some now, in_acknowledgedBy := Some (a_userId a)\<rparr>"

definition close_upd :: "actor \<Rightarrow> string option \<Rightarrow> ms \<Rightarrow> incident_row \<Rightarrow> incident_row" where
  "close_upd a note now r = r\<lparr>in_status := RESOLVED, in_resolvedAt := Some now, in_resolvedBy := Some (a_userId a), in_resolutionNote := note\<rparr>"

definition reopen_upd :: "incident_row \<Rightarrow> incident_row" where
  "reopen_upd r = r\<lparr>in_status := OPEN, in_acknowledgedAt := None, in_acknowledgedBy := None, in_resolvedAt := None,
     in_resolvedBy := None, in_resolutionNote := None\<rparr>"

definition acknowledgeIncident :: "dbgen \<Rightarrow> actor \<Rightarrow> ident \<Rightarrow> ms \<Rightarrow> db \<Rightarrow> db \<times> (unit, incident_write_error) result" where
  "acknowledgeIncident g a iid now d =
     (if \<not> can (Some (a_role a)) incidents_acknowledge then (d, fail IW_forbidden)
      else case ownedIncident (a_orgId a) iid d of
        None \<Rightarrow> (d, fail IW_not_found)
      | Some i \<Rightarrow>
          if in_status i \<noteq> OPEN then (d, fail IW_invalid_status)
          else (add_event (actor_event g a iid EV_ACKNOWLEDGED None) (set_incident iid (ack_upd a now) d), ok ()))"

definition resolveIncident :: "dbgen \<Rightarrow> actor \<Rightarrow> ident \<Rightarrow> string option \<Rightarrow> ms \<Rightarrow> db \<Rightarrow> db \<times> (unit, incident_write_error) result" where
  "resolveIncident g a iid note now d =
     (if \<not> can (Some (a_role a)) incidents_acknowledge then (d, fail IW_forbidden)
      else case ownedIncident (a_orgId a) iid d of
        None \<Rightarrow> (d, fail IW_not_found)
      | Some i \<Rightarrow>
          if in_status i = RESOLVED then (d, fail IW_invalid_status)
          else (add_event (actor_event g a iid EV_RESOLVED note) (set_incident iid (close_upd a note now) d), ok ()))"

definition reopenIncident :: "dbgen \<Rightarrow> actor \<Rightarrow> ident \<Rightarrow> db \<Rightarrow> db \<times> (unit, incident_write_error) result" where
  "reopenIncident g a iid d =
     (if \<not> can (Some (a_role a)) incidents_acknowledge then (d, fail IW_forbidden)
      else case ownedIncident (a_orgId a) iid d of
        None \<Rightarrow> (d, fail IW_not_found)
      | Some i \<Rightarrow>
          if in_status i \<noteq> RESOLVED then (d, fail IW_invalid_status)
          else (add_event (actor_event g a iid EV_REOPENED None) (set_incident iid reopen_upd d), ok ()))"

definition addIncidentNote :: "dbgen \<Rightarrow> actor \<Rightarrow> ident \<Rightarrow> string \<Rightarrow> db \<Rightarrow> db \<times> (unit, incident_write_error) result" where
  "addIncidentNote g a iid message d =
     (if \<not> can (Some (a_role a)) incidents_acknowledge then (d, fail IW_forbidden)
      else case ownedIncident (a_orgId a) iid d of
        None \<Rightarrow> (d, fail IW_not_found)
      | Some i \<Rightarrow> (add_event (actor_event g a iid EV_NOTE (Some message)) d, ok ()))"

text \<open>\<open>reanalyzeIncident\<close> forces the analysis, which also queues a narrative when one is wanted.\<close>

definition reanalyzeIncident ::
  "(ident \<Rightarrow> real) \<Rightarrow> dbgen \<Rightarrow> bool \<Rightarrow> actor \<Rightarrow> ident \<Rightarrow> ms \<Rightarrow> db \<Rightarrow> db \<times> (unit, incident_write_error) result" where
  "reanalyzeIncident coll g wantsLlm a iid now d =
     (if \<not> can (Some (a_role a)) incidents_acknowledge then (d, fail IW_forbidden)
      else case find_first (\<lambda>r. in_id r = iid \<and> in_orgId r = a_orgId a) (incidents d) of
        None \<Rightarrow> (d, fail IW_not_found)
      | Some i \<Rightarrow> (fst (refreshIncidentRca coll g wantsLlm (a_orgId a) iid now True d), ok ()))"

section \<open>The life cycle\<close>

text \<open>What people may do with an incident, by its status. A note leaves it where it is.\<close>

inductive lifecycle :: "incident_status \<Rightarrow> incident_event_type \<Rightarrow> incident_status \<Rightarrow> bool" where
  acknowledged: "lifecycle OPEN EV_ACKNOWLEDGED ACKNOWLEDGED"
| resolved: "s \<noteq> RESOLVED \<Longrightarrow> lifecycle s EV_RESOLVED RESOLVED"
| reopened: "lifecycle RESOLVED EV_REOPENED OPEN"
| noted: "lifecycle s EV_NOTE s"

inductive_simps lifecycle_simps:
  "lifecycle s EV_ACKNOWLEDGED s'"
  "lifecycle s EV_RESOLVED s'"
  "lifecycle s EV_REOPENED s'"
  "lifecycle s EV_NOTE s'"

datatype incident_cmd = I_acknowledge | I_resolve "string option" | I_reopen | I_note string

primrec cmd_event :: "incident_cmd \<Rightarrow> incident_event_type" where
  "cmd_event I_acknowledge = EV_ACKNOWLEDGED"
| "cmd_event (I_resolve note) = EV_RESOLVED"
| "cmd_event I_reopen = EV_REOPENED"
| "cmd_event (I_note message) = EV_NOTE"

primrec incident_op :: "incident_cmd \<Rightarrow> dbgen \<Rightarrow> actor \<Rightarrow> ident \<Rightarrow> ms \<Rightarrow> db \<Rightarrow> db \<times> (unit, incident_write_error) result" where
  "incident_op I_acknowledge g a iid now d = acknowledgeIncident g a iid now d"
| "incident_op (I_resolve note) g a iid now d = resolveIncident g a iid note now d"
| "incident_op I_reopen g a iid now d = reopenIncident g a iid d"
| "incident_op (I_note message) g a iid now d = addIncidentNote g a iid message d"

text \<open>All four have one shape: the guards, then an update of the one row and an event.\<close>

primrec cmd_upd :: "incident_cmd \<Rightarrow> actor \<Rightarrow> ms \<Rightarrow> incident_row \<Rightarrow> incident_row" where
  "cmd_upd I_acknowledge a now = ack_upd a now"
| "cmd_upd (I_resolve note) a now = close_upd a note now"
| "cmd_upd I_reopen a now = reopen_upd"
| "cmd_upd (I_note message) a now = (\<lambda>r. r)"

primrec cmd_message :: "incident_cmd \<Rightarrow> string option" where
  "cmd_message I_acknowledge = None"
| "cmd_message (I_resolve note) = note"
| "cmd_message I_reopen = None"
| "cmd_message (I_note message) = Some message"

definition cmd_allowed :: "incident_cmd \<Rightarrow> incident_status \<Rightarrow> bool" where
  "cmd_allowed c s = (\<exists>s'. lifecycle s (cmd_event c) s')"

lemma cmd_allowed_simps [simp]:
  "cmd_allowed I_acknowledge s \<longleftrightarrow> s = OPEN"
  "cmd_allowed (I_resolve note) s \<longleftrightarrow> s \<noteq> RESOLVED"
  "cmd_allowed I_reopen s \<longleftrightarrow> s = RESOLVED"
  "cmd_allowed (I_note message) s"
  by (auto simp: cmd_allowed_def lifecycle_simps)

lemma set_incident_same: "set_incident iid (\<lambda>r. r) d = d"
  by (simp add: set_incident_def update_many_def)

lemma incident_op_shape:
  "incident_op c g a iid now d =
     (if \<not> can (Some (a_role a)) incidents_acknowledge then (d, fail IW_forbidden)
      else case ownedIncident (a_orgId a) iid d of
        None \<Rightarrow> (d, fail IW_not_found)
      | Some i \<Rightarrow>
          if \<not> cmd_allowed c (in_status i) then (d, fail IW_invalid_status)
          else (add_event (actor_event g a iid (cmd_event c) (cmd_message c)) (set_incident iid (cmd_upd c a now) d), ok ()))"
  by (cases c) (auto simp: acknowledgeIncident_def resolveIncident_def reopenIncident_def addIncidentNote_def
      set_incident_same split: option.split)

lemma cmd_upd_id [simp]: "in_id (cmd_upd c a now r) = in_id r" "in_orgId (cmd_upd c a now r) = in_orgId r"
  by (cases c; simp add: ack_upd_def close_upd_def reopen_upd_def)+

lemma cmd_upd_lifecycle: "cmd_allowed c (in_status r) \<Longrightarrow> lifecycle (in_status r) (cmd_event c) (in_status (cmd_upd c a now r))"
  by (cases c) (auto simp: ack_upd_def close_upd_def reopen_upd_def lifecycle_simps)

interpretation incident_rows: keyed_update in_id "\<lambda>(c, a, now). cmd_upd c a now"
  by unfold_locales (simp add: split_beta)

lemma owned_after:
  assumes "distinct (map in_id (incidents d))" and "ownedIncident orgId iid d = Some r"
  shows "ownedIncident orgId iid (add_event e (set_incident iid (cmd_upd c a now) d)) = Some (cmd_upd c a now r)"
proof -
  have r: "r \<in> set (incidents d)" "in_id r = iid" "in_orgId r = orgId"
    using find_first_SomeD assms(2) by (force simp: ownedIncident_def)+
  have upd: "find_first (\<lambda>x. in_id x = iid) (update_many (\<lambda>x. in_id x = iid) (cmd_upd c a now) (incidents d)) = Some (cmd_upd c a now r)"
    using incident_rows.find_update[OF assms(1) r(1), of "\<lambda>x. in_id x = iid" "(c, a, now)"] r(2) by simp
  have both: "find_first (\<lambda>x. in_id x = iid \<and> in_orgId x = orgId) t = Some y"
    if "find_first (\<lambda>x. in_id x = iid) t = Some y" "in_orgId y = orgId" for t y
    using that by (induction t) (auto split: if_splits)
  show ?thesis using both[OF upd] r by (simp add: ownedIncident_def add_event_def set_incident_def)
qed

lemma set_incident_others:
  assumes "\<And>r. in_id (f r) = in_id r"
  shows "filter (\<lambda>r. in_id r \<noteq> iid) (incidents (set_incident iid f d)) = filter (\<lambda>r. in_id r \<noteq> iid) (incidents d)"
  using assms by (simp add: set_incident_def filter_update_many)

text \<open>C32.
  Acknowledging, resolving, reopening and annotating an incident implement the life cycle: the
  operation succeeds exactly when the actor may acknowledge, the incident belongs to the actor's
  organization and the life cycle has the step. Then the incident makes that step, every other
  incident stays as it was, and one event naming the actor is appended. Otherwise nothing is written and
  the error says which of the three conditions failed.
\<close>

theorem incident_lifecycle:
  assumes "distinct (map in_id (incidents d))" and "incident_op c g a iid now d = (d', res)"
  shows "res = (if \<not> can (Some (a_role a)) incidents_acknowledge then fail IW_forbidden
      else case ownedIncident (a_orgId a) iid d of None \<Rightarrow> fail IW_not_found
        | Some r \<Rightarrow> if \<nexists>s'. lifecycle (in_status r) (cmd_event c) s' then fail IW_invalid_status else ok ())
    \<and> (if res \<noteq> ok () then d' = d
       else (\<exists>r r' e. ownedIncident (a_orgId a) iid d = Some r \<and> ownedIncident (a_orgId a) iid d' = Some r'
           \<and> lifecycle (in_status r) (cmd_event c) (in_status r')
           \<and> incidentEvents d' = incidentEvents d @ [e]
           \<and> ie_incidentId e = iid \<and> ie_type e = cmd_event c \<and> ie_actorId e = Some (a_userId a))
         \<and> filter (\<lambda>r. in_id r \<noteq> iid) (incidents d') = filter (\<lambda>r. in_id r \<noteq> iid) (incidents d))"
proof (cases "ownedIncident (a_orgId a) iid d")
  case None
  with assms(2) show ?thesis by (auto simp: incident_op_shape)
next
  case (Some r)
  show ?thesis
  proof (cases "can (Some (a_role a)) incidents_acknowledge \<and> cmd_allowed c (in_status r)")
    case True
    then have d': "d' = add_event (actor_event g a iid (cmd_event c) (cmd_message c)) (set_incident iid (cmd_upd c a now) d)"
      and res: "res = ok ()" using assms(2) Some by (simp_all add: incident_op_shape)
    have "filter (\<lambda>r. in_id r \<noteq> iid) (incidents d') = filter (\<lambda>r. in_id r \<noteq> iid) (incidents d)"
      unfolding d' add_event_incidents by (rule set_incident_others) simp
    moreover have "incidentEvents d' = incidentEvents d @ [actor_event g a iid (cmd_event c) (cmd_message c)]"
      by (simp add: d' add_event_def set_incident_def insert_row_def)
    moreover have "ownedIncident (a_orgId a) iid d' = Some (cmd_upd c a now r)" unfolding d' by (rule owned_after[OF assms(1) Some])
    ultimately show ?thesis
      using True Some res cmd_upd_lifecycle[of c r a now] by (auto simp: cmd_allowed_def actor_event_def)
  next
    case False
    with assms(2) Some show ?thesis by (auto simp: incident_op_shape cmd_allowed_def split: if_splits)
  qed
qed

definition sample_incident_db :: db where
  "sample_incident_db = sample_db\<lparr>incidents := [sample_incident]\<rparr>"

theorem incident_lifecycle_witness:
  "snd (incident_op I_acknowledge sample_gen (sample_actor ''ann'' ''acme'' OWNER) ''i1'' 5 sample_incident_db) = ok ()
   \<and> snd (incident_op I_reopen sample_gen (sample_actor ''ann'' ''acme'' OWNER) ''i1'' 5 sample_incident_db) = fail IW_invalid_status"
proof -
  have dist: "distinct (map in_id (incidents sample_incident_db))" by (simp add: sample_incident_db_def)
  have own: "ownedIncident ''acme'' ''i1'' sample_incident_db = Some sample_incident" by code_simp
  have may: "can (Some OWNER) incidents_acknowledge" by code_simp
  show ?thesis
    using incident_lifecycle[OF dist prod.collapse[symmetric], of I_acknowledge sample_gen "sample_actor ''ann'' ''acme'' OWNER" "''i1''" 5]
      incident_lifecycle[OF dist prod.collapse[symmetric], of I_reopen sample_gen "sample_actor ''ann'' ''acme'' OWNER" "''i1''" 5]
    by (simp add: sample_actor_def own may sample_incident_def lifecycle_simps)
qed

section \<open>Time stamps\<close>

text \<open>
  A property of single incidents that every update of the evaluation and of the analysis keeps holds of
  all incidents after a batch. The laws are those of the updates the evaluation makes.
\<close>

locale incident_property =
  fixes Q :: "incident_row \<Rightarrow> bool"
  assumes Q_findings: "Q r \<Longrightarrow> Q (findings_upd w now f r)"
    and Q_refresh: "Q r \<Longrightarrow> Q (refresh_upd c v p r)"
    and Q_auto_resolve: "Q r \<Longrightarrow> Q (resolve_upd now r)"
    and Q_new: "Q (new_incident g orgId rule p v now d)"
begin

definition all_incidents :: "db \<Rightarrow> bool" where
  "all_incidents d = list_all Q (incidents d)"

lemma all_update: "(\<And>r. Q r \<Longrightarrow> Q (f r)) \<Longrightarrow> list_all Q t \<Longrightarrow> list_all Q (update_many P f t)"
  by (rule update_many_all) auto

lemma all_refresh_rca: "all_incidents d \<Longrightarrow> all_incidents (fst (refreshIncidentRca coll g w orgId iid now force d))"
  by (auto simp: refreshIncidentRca_def store_findings_def all_incidents_def Let_def split_beta Q_findings
      intro: all_update split: option.split)

lemma all_analyze: "all_incidents d \<Longrightarrow> all_incidents (analyzeAfterOpen coll gens w orgId iid now d)"
proof -
  have "all_incidents (fold (\<lambda>(k, r) d. fst (refreshIncidentRca coll (gens (Suc k)) w orgId (in_id r) now False d)) xs d)"
    if "all_incidents d" for xs :: "(nat \<times> incident_row) list" and d
    using that by (induction xs arbitrary: d) (auto simp: all_refresh_rca)
  then show "all_incidents d \<Longrightarrow> ?thesis" by (simp add: analyzeAfterOpen_def Let_def all_refresh_rca)
qed

lemma all_same: "incidents d' = incidents d \<Longrightarrow> all_incidents d' = all_incidents d"
  by (simp add: all_incidents_def)

lemma all_open:
  assumes "all_incidents d"
  shows "all_incidents (open_incident env gens orgId now p rule c v d)"
proof -
  have "all_incidents (d\<lparr>incidents := insert_row (new_incident (gens 0) orgId rule p v now d) (incidents d)\<rparr>)"
    using assms by (simp add: all_incidents_def insert_row_def Q_new)
  then show ?thesis
    unfolding open_incident_def Let_def
    by (simp add: all_same[OF trigger_incidents] all_analyze all_same[OF notify_incidents] all_same[OF add_event_incidents])
qed

lemma all_keep: "all_incidents d \<Longrightarrow> all_incidents (keep_incident env g now p rule c v opn d)"
  by (auto simp: keep_incident_def Let_def all_incidents_def notify_incidents intro: all_update Q_refresh)

lemma all_resolve: "all_incidents d \<Longrightarrow> all_incidents (auto_resolve env g now rule opn d)"
  by (auto simp: all_incidents_def auto_resolve_incidents intro: all_update Q_auto_resolve)

lemma all_pair: "all_incidents (fst s) \<Longrightarrow> all_incidents (fst (evaluate_pair env gens orgId now p rule s))"
  by (auto simp: evaluate_pair_def Let_def split_beta all_open all_keep all_resolve split: option.split)

lemma all_batch: "all_incidents (fst s) \<Longrightarrow> all_incidents (fst (evaluateIngestedMetrics env gens orgId rows now s))"
proof -
  have "all_incidents (fst (fold (\<lambda>(k, p, r). evaluate_pair env (gens k) orgId now p r) xs s))"
    if "all_incidents (fst s)" for xs s
    using that
  proof (induction xs arbitrary: s)
    case (Cons x xs)
    obtain k p r where x: "x = (k, p, r)" by (cases x)
    from Cons.IH[OF all_pair[OF Cons.prems]] show ?case by (simp add: x)
  qed simp
  then show "all_incidents (fst s) \<Longrightarrow> ?thesis" by (simp add: evaluateIngestedMetrics_def Let_def)
qed

end

text \<open>The stamps agree with the status.\<close>

definition stamped :: "incident_row \<Rightarrow> bool" where
  "stamped r = (case in_status r of
     OPEN \<Rightarrow> in_acknowledgedAt r = None \<and> in_acknowledgedBy r = None \<and> in_resolvedAt r = None \<and> in_resolvedBy r = None
   | ACKNOWLEDGED \<Rightarrow> in_acknowledgedAt r \<noteq> None \<and> in_acknowledgedBy r \<noteq> None \<and> in_resolvedAt r = None \<and> in_resolvedBy r = None
   | RESOLVED \<Rightarrow> in_resolvedAt r \<noteq> None)"

interpretation stamps: incident_property stamped
  by unfold_locales (auto simp: stamped_def findings_upd_def refresh_upd_def resolve_upd_def new_incident_def
      split: incident_status.splits)

lemma cmd_upd_stamped: "stamped r \<Longrightarrow> cmd_allowed c (in_status r) \<Longrightarrow> stamped (cmd_upd c a now r)"
  by (cases c) (auto simp: stamped_def ack_upd_def close_upd_def reopen_upd_def)

lemma incident_op_stamped:
  assumes "distinct (map in_id (incidents d))" and "list_all stamped (incidents d)"
  shows "list_all stamped (incidents (fst (incident_op c g a iid now d)))"
    and "map in_id (incidents (fst (incident_op c g a iid now d))) = map in_id (incidents d)"
proof -
  have "stamped (cmd_upd c a now x)"
    if "ownedIncident (a_orgId a) iid d = Some r" "cmd_allowed c (in_status r)" "x \<in> set (incidents d)" "in_id x = iid" for r x
  proof -
    have "r \<in> set (incidents d)" "in_id r = iid" using find_first_SomeD that(1) by (force simp: ownedIncident_def)+
    then have "x = r" using that(3,4) assms(1) by (auto simp: distinct_map dest: inj_onD)
    then show ?thesis using that(2,3) assms(2) by (auto simp: list_all_iff intro: cmd_upd_stamped)
  qed
  then show "list_all stamped (incidents (fst (incident_op c g a iid now d)))"
    using assms(2) by (auto simp: incident_op_shape add_event_incidents set_incident_def intro!: update_many_all split: option.split)
  show "map in_id (incidents (fst (incident_op c g a iid now d))) = map in_id (incidents d)"
    by (auto simp: incident_op_shape add_event_incidents set_incident_def map_update_many split: option.split)
qed

lemma reanalyze_stamped:
  "list_all stamped (incidents d) \<Longrightarrow> list_all stamped (incidents (fst (reanalyzeIncident coll g w a iid now d)))"
  using stamps.all_refresh_rca[of d coll g w "a_orgId a" iid now True]
  by (auto simp: reanalyzeIncident_def stamps.all_incidents_def split: option.split)

lemma delete_rule_stamped:
  "list_all stamped (incidents d) \<Longrightarrow> list_all stamped (incidents (fst (deleteAlertRule g a rid d)))"
  by (auto simp: deleteAlertRule_def recordAudit_def stamped_def intro!: update_many_all split: incident_status.splits)

text \<open>The time stamps of an incident agree with its status: an open one is neither acknowledged nor
  resolved, an acknowledged one has who and when, and a resolved one when. People's
  operations, a new analysis, deleting the rule and evaluating a batch of measurements all keep this,
  whatever their arguments.
\<close>

lemma incident_stamps_kept:
  assumes "list_all stamped (incidents d)" and "distinct (map in_id (incidents d))"
  shows "list_all stamped (incidents (fst (incident_op c g a iid now d)))
    \<and> list_all stamped (incidents (fst (reanalyzeIncident coll g w a iid now d)))
    \<and> list_all stamped (incidents (fst (deleteAlertRule g a rid d)))
    \<and> list_all stamped (incidents (fst (evaluateIngestedMetrics env gens orgId rows now (d, cache)) ))"
  using incident_op_stamped(1)[OF assms(2,1)] reanalyze_stamped[OF assms(1)] delete_rule_stamped[OF assms(1)]
    stamps.all_batch[of "(d, cache)"] assms(1) by (simp add: stamps.all_incidents_def)

lemma incident_stamps_kept_witness:
  "list_all stamped (incidents (fst (incident_op I_acknowledge sample_gen (sample_actor ''ann'' ''acme'' OWNER) ''i1'' 5 sample_incident_db)))"
proof -
  have "list_all stamped (incidents sample_incident_db)" "distinct (map in_id (incidents sample_incident_db))"
    by (simp_all add: sample_incident_db_def stamped_def sample_incident_def)
  from incident_stamps_kept[OF this] show ?thesis by blast
qed

section \<open>At most one open incident per rule, source and metric\<close>

text \<open>
  Evaluation never opens a second one (\<open>evaluate_one_open\<close>), and neither do people's operations, except
  reopening: an incident resolved before a newer one of the same rule, source and metric was opened
  comes back beside it. The evaluation then only ever updates the first of the two.
\<close>

lemma cmd_upd_keys: "incident_key (cmd_upd c a now r) = incident_key r"
  by (cases c) (simp_all add: incident_key_def ack_upd_def close_upd_def reopen_upd_def)

lemma cmd_upd_closes:
  assumes "c \<noteq> I_reopen" and "engine_open (cmd_upd c a now r)" and "cmd_allowed c (in_status r)"
  shows "engine_open r"
  using assms by (cases c) (auto simp: engine_open_def ack_upd_def close_upd_def)

lemma incident_op_one_open:
  assumes "distinct (map in_id (incidents d))" and "one_open d" and "c \<noteq> I_reopen"
  shows "one_open (fst (incident_op c g a iid now d))"
proof (cases "ownedIncident (a_orgId a) iid d")
  case None
  with assms(2) show ?thesis by (simp add: incident_op_shape)
next
  case (Some r)
  have r: "r \<in> set (incidents d)" "in_id r = iid" using find_first_SomeD Some by (force simp: ownedIncident_def)+
  let ?f = "\<lambda>x. if cmd_allowed c (in_status x) then cmd_upd c a now x else x"
  have only: "x = r" if "x \<in> set (incidents d)" "in_id x = iid" for x
    using that r assms(1) by (auto simp: distinct_map dest: inj_onD)
  have "update_many (\<lambda>x. in_id x = iid) (cmd_upd c a now) (incidents d) = update_many (\<lambda>x. in_id x = iid) ?f (incidents d)"
    if "cmd_allowed c (in_status r)" using that only by (auto simp: update_many_def)
  moreover have "distinct (map incident_key (filter engine_open (update_many (\<lambda>x. in_id x = iid) ?f (incidents d))))"
    using open_keys_close[of "incidents d" ?f "\<lambda>x. in_id x = iid"] assms(2,3) cmd_upd_closes cmd_upd_keys
    by (auto simp: one_open_def open_keys_def split: if_splits)
  ultimately show ?thesis
    using assms(2) Some by (auto simp: incident_op_shape one_open_def open_keys_def add_event_incidents set_incident_def)
qed

definition twice_open_db :: db where
  "twice_open_db = sample_db\<lparr>incidents := [sample_incident, sample_incident\<lparr>in_id := ''i0'', in_status := RESOLVED, in_resolvedAt := Some 0\<rparr>]\<rparr>"

lemma reopen_opens_twice:
  "one_open twice_open_db \<and> \<not> one_open (fst (reopenIncident sample_gen (sample_actor ''ann'' ''acme'' OWNER) ''i0'' twice_open_db))"
  by code_simp

end
