(* ===== verification/Topology.thy ===== *)
theory Topology
  imports Health Incidents
begin

text \<open>
  The dependency map, \<open>src/modules/topology/service.ts\<close>: its nodes and edges, the live health of the
  nodes, and the operations that edit it. Deleting a node deletes its edges (\<open>onDelete: Cascade\<close>).
  The pure graph algorithms are in \<open>Graph\<close>, \<open>Layout\<close> and \<open>Health\<close>.
\<close>

section \<open>Reading\<close>

record topology_graph =
  tg_nodes :: "topology_node_row list"
  tg_edges :: "dependency_row list"

definition listTopology :: "actor \<Rightarrow> db \<Rightarrow> (topology_graph, list_error) result" where
  "listTopology a d =
     (if \<not> can (Some (a_role a)) topology_read then fail L_forbidden
      else ok \<lparr>tg_nodes = order_asc tn_createdAt (find_many (\<lambda>n. tn_orgId n = a_orgId a) (topologyNodes d)),
               tg_edges = find_many (\<lambda>e. sd_orgId e = a_orgId a) (serviceDependencies d)\<rparr>)"

record node_health_info =
  nh_health :: node_health
  nh_openIncidents :: nat

text \<open>\<open>new Map(entries)\<close>: of two entries with one key the later counts.\<close>

definition js_map :: "('k \<times> 'v) list \<Rightarrow> 'k \<Rightarrow> 'v option" where
  "js_map entries k = map_of (rev entries) k"

definition refs_of :: "topology_node_row list \<Rightarrow> topology_node_kind \<Rightarrow> ident list" where
  "refs_of nodes kind = List.map_filter (\<lambda>n. if tn_kind n = kind then truthy (tn_refId n) else None) nodes"

definition entity_statuses :: "ident \<Rightarrow> topology_node_row list \<Rightarrow> db \<Rightarrow> (ident \<times> health_status) list" where
  "entity_statuses orgId nodes d =
     map (\<lambda>h. (h_id h, h_status h)) (find_many (\<lambda>h. h_id h \<in> set (refs_of nodes NODE_HOST) \<and> h_orgId h = orgId) (monitoredHosts d))
   @ map (\<lambda>x. (nd_id x, nd_status x)) (find_many (\<lambda>x. nd_id x \<in> set (refs_of nodes NODE_NETWORK_DEVICE) \<and> nd_orgId x = orgId) (networkDevices d))
   @ map (\<lambda>x. (db_id x, db_status x)) (find_many (\<lambda>x. db_id x \<in> set (refs_of nodes NODE_DATABASE) \<and> db_orgId x = orgId) (databaseInstances d))
   @ map (\<lambda>x. (ep_id x, ep_status x)) (find_many (\<lambda>x. ep_id x \<in> set (refs_of nodes NODE_ENDPOINT) \<and> ep_orgId x = orgId) (endpointChecks d))"

definition device_ports :: "ident \<Rightarrow> topology_node_row list \<Rightarrow> db \<Rightarrow> (ident \<times> ident) list" where
  "device_ports orgId nodes d = map (\<lambda>i. (ni_id i, ni_deviceId i))
     (find_many (\<lambda>i. ni_deviceId i \<in> set (refs_of nodes NODE_NETWORK_DEVICE)
        \<and> list_ex (\<lambda>x. nd_id x = ni_deviceId i \<and> nd_orgId x = orgId) (networkDevices d)) (networkInterfaces d))"

text \<open>An incident on a port counts for its device; every entity stands for itself.\<close>

definition ref_of_source :: "(ident \<times> health_status) list \<Rightarrow> (ident \<times> ident) list \<Rightarrow> ident \<Rightarrow> ident option" where
  "ref_of_source statuses ports = js_map (ports @ map (\<lambda>(ref, _). (ref, ref)) statuses)"

definition severities_of :: "ident \<Rightarrow> (ident \<Rightarrow> ident option) \<Rightarrow> ident \<Rightarrow> db \<Rightarrow> severity list" where
  "severities_of orgId refOf ref d = map in_severity (filter (\<lambda>i. case in_sourceId i of None \<Rightarrow> False | Some s \<Rightarrow> refOf s = Some ref)
     (find_many (\<lambda>i. in_orgId i = orgId \<and> in_status i \<noteq> RESOLVED
        \<and> (case in_sourceId i of None \<Rightarrow> False | Some s \<Rightarrow> refOf s \<noteq> None)) (incidents d)))"

definition node_health_entry ::
  "ident \<Rightarrow> (ident \<times> health_status) list \<Rightarrow> (ident \<Rightarrow> ident option) \<Rightarrow> db \<Rightarrow> topology_node_row \<Rightarrow> (ident \<times> node_health_info) option" where
  "node_health_entry orgId statuses refOf d n =
     (case truthy (tn_refId n) of
        None \<Rightarrow> None
      | Some ref \<Rightarrow> (case js_map statuses ref of
            None \<Rightarrow> None
          | Some st \<Rightarrow> let sev = severities_of orgId refOf ref d
              in Some (tn_id n, \<lparr>nh_health = combineHealth (Some st) sev, nh_openIncidents = length sev\<rparr>)))"

definition topologyHealth :: "actor \<Rightarrow> topology_node_row list \<Rightarrow> db \<Rightarrow> ((ident \<times> node_health_info) list, list_error) result" where
  "topologyHealth a nodes d =
     (if \<not> can (Some (a_role a)) topology_read then fail L_forbidden
      else
        let statuses = entity_statuses (a_orgId a) nodes d;
            refOf = ref_of_source statuses (device_ports (a_orgId a) nodes d)
        in ok (List.map_filter (node_health_entry (a_orgId a) statuses refOf d) nodes))"

section \<open>Writing\<close>

datatype topology_write_error = TW_forbidden | TW_invalid_ref | TW_already_exists | TW_not_found

record create_node_input =
  cn_kind :: topology_node_kind
  cn_refId :: "ident option"
  cn_label :: string
  cn_positionX :: real
  cn_positionY :: real

primrec refExists :: "topology_node_kind \<Rightarrow> db \<Rightarrow> ident \<Rightarrow> ident \<Rightarrow> bool" where
  "refExists NODE_HOST d orgId refId = list_ex (\<lambda>h. h_id h = refId \<and> h_orgId h = orgId) (monitoredHosts d)"
| "refExists NODE_NETWORK_DEVICE d orgId refId = list_ex (\<lambda>x. nd_id x = refId \<and> nd_orgId x = orgId) (networkDevices d)"
| "refExists NODE_DATABASE d orgId refId = list_ex (\<lambda>x. db_id x = refId \<and> db_orgId x = orgId) (databaseInstances d)"
| "refExists NODE_ENDPOINT d orgId refId = list_ex (\<lambda>x. ep_id x = refId \<and> ep_orgId x = orgId) (endpointChecks d)"
| "refExists NODE_SERVICE d orgId refId = False"
| "refExists NODE_EXTERNAL d orgId refId = False"

primrec node_kind_name :: "topology_node_kind \<Rightarrow> string" where
  "node_kind_name NODE_HOST = ''HOST''"
| "node_kind_name NODE_NETWORK_DEVICE = ''NETWORK_DEVICE''"
| "node_kind_name NODE_DATABASE = ''DATABASE''"
| "node_kind_name NODE_ENDPOINT = ''ENDPOINT''"
| "node_kind_name NODE_SERVICE = ''SERVICE''"
| "node_kind_name NODE_EXTERNAL = ''EXTERNAL''"

definition is_logical :: "topology_node_kind \<Rightarrow> bool" where
  "is_logical kind = (kind = NODE_SERVICE \<or> kind = NODE_EXTERNAL)"

definition node_for :: "ident \<Rightarrow> topology_node_kind \<Rightarrow> ident \<Rightarrow> topology_node_row \<Rightarrow> bool" where
  "node_for orgId kind ref n = (tn_orgId n = orgId \<and> tn_kind n = kind \<and> tn_refId n = Some ref)"

definition createNode :: "dbgen \<Rightarrow> actor \<Rightarrow> create_node_input \<Rightarrow> db \<Rightarrow> db \<times> (ident, topology_write_error) result" where
  "createNode g a inp d =
     (if \<not> can (Some (a_role a)) topology_write then (d, fail TW_forbidden)
      else if \<not> is_logical (cn_kind inp) \<and> (case truthy (cn_refId inp) of None \<Rightarrow> True
                | Some ref \<Rightarrow> \<not> refExists (cn_kind inp) d (a_orgId a) ref) then (d, fail TW_invalid_ref)
      else if \<not> is_logical (cn_kind inp) \<and> (case truthy (cn_refId inp) of None \<Rightarrow> False
                | Some ref \<Rightarrow> find_first (node_for (a_orgId a) (cn_kind inp) ref) (topologyNodes d) \<noteq> None) then (d, fail TW_already_exists)
      else
        let node = \<lparr>tn_id = cuid g 0, tn_orgId = a_orgId a, tn_kind = cn_kind inp,
              tn_refId = (if is_logical (cn_kind inp) then None else cn_refId inp), tn_label = cn_label inp,
              tn_positionX = cn_positionX inp, tn_positionY = cn_positionY inp, tn_createdAt = clock g\<rparr>
        in (recordAudit g 1 (actor_entry ''topology.node_created'' a ''topology_node'' (tn_id node)
              (Some (JObj [(''kind'', JStr (node_kind_name (cn_kind inp))), (''label'', JStr (cn_label inp))])))
              (d\<lparr>topologyNodes := insert_row node (topologyNodes d)\<rparr>), ok (tn_id node)))"

definition node_in_org :: "actor \<Rightarrow> ident \<Rightarrow> topology_node_row \<Rightarrow> bool" where
  "node_in_org a nid n = (tn_id n = nid \<and> tn_orgId n = a_orgId a)"

definition touches :: "ident \<Rightarrow> dependency_row \<Rightarrow> bool" where
  "touches nid e = (sd_parentNodeId e = nid \<or> sd_childNodeId e = nid)"

definition delete_nodes :: "actor \<Rightarrow> ident \<Rightarrow> db \<Rightarrow> db" where
  "delete_nodes a nid d =
     (if count_rows (node_in_org a nid) (topologyNodes d) = 0 then d
      else d\<lparr>topologyNodes := delete_many (node_in_org a nid) (topologyNodes d),
             serviceDependencies := delete_many (touches nid) (serviceDependencies d)\<rparr>)"

definition deleteNode :: "dbgen \<Rightarrow> actor \<Rightarrow> ident \<Rightarrow> db \<Rightarrow> db \<times> (unit, topology_write_error) result" where
  "deleteNode g a nid d =
     (if \<not> can (Some (a_role a)) topology_write then (d, fail TW_forbidden)
      else
        let d1 = delete_nodes a nid d in
        if count_rows (node_in_org a nid) (topologyNodes d) \<noteq> 1 then (d1, fail TW_not_found)
        else (recordAudit g 0 (actor_entry ''topology.node_deleted'' a ''topology_node'' nid None) d1, ok ()))"

definition move_nodes :: "actor \<Rightarrow> ident \<Rightarrow> real \<Rightarrow> real \<Rightarrow> db \<Rightarrow> db" where
  "move_nodes a nid x y d =
     d\<lparr>topologyNodes := update_many (node_in_org a nid) (\<lambda>n. n\<lparr>tn_positionX := x, tn_positionY := y\<rparr>) (topologyNodes d)\<rparr>"

definition updateNodePosition :: "actor \<Rightarrow> ident \<Rightarrow> real \<Rightarrow> real \<Rightarrow> db \<Rightarrow> db \<times> (unit, topology_write_error) result" where
  "updateNodePosition a nid x y d =
     (if \<not> can (Some (a_role a)) topology_write then (d, fail TW_forbidden)
      else (move_nodes a nid x y d, if count_rows (node_in_org a nid) (topologyNodes d) \<noteq> 1 then fail TW_not_found else ok ()))"

definition MAX_LAYOUT_NODES :: nat where "MAX_LAYOUT_NODES = 500"

definition updateNodePositions :: "actor \<Rightarrow> (ident \<times> real \<times> real) list \<Rightarrow> db \<Rightarrow> db \<times> (nat, topology_write_error) result" where
  "updateNodePositions a positions d =
     (if \<not> can (Some (a_role a)) topology_write then (d, fail TW_forbidden)
      else if length positions > MAX_LAYOUT_NODES then (d, fail TW_invalid_ref)
      else fold (\<lambda>(nid, x, y) (d, r). (move_nodes a nid x y d,
             case r of ok n \<Rightarrow> ok (n + count_rows (node_in_org a nid) (topologyNodes d)) | fail e \<Rightarrow> fail e)) positions (d, ok 0))"

record create_dependency_input =
  cd_parentNodeId :: ident
  cd_childNodeId :: ident
  cd_kind :: dependency_kind
  cd_criticality :: severity
  cd_label :: "string option"

definition createDependency :: "dbgen \<Rightarrow> actor \<Rightarrow> create_dependency_input \<Rightarrow> db \<Rightarrow> db \<times> (ident, topology_write_error) result" where
  "createDependency g a inp d =
     (if \<not> can (Some (a_role a)) topology_write then (d, fail TW_forbidden)
      else if cd_parentNodeId inp = cd_childNodeId inp then (d, fail TW_invalid_ref)
      else if find_first (node_in_org a (cd_parentNodeId inp)) (topologyNodes d) = None
            \<or> find_first (node_in_org a (cd_childNodeId inp)) (topologyNodes d) = None then (d, fail TW_invalid_ref)
      else if find_first (\<lambda>e. sd_parentNodeId e = cd_parentNodeId inp \<and> sd_childNodeId e = cd_childNodeId inp \<and> sd_kind e = cd_kind inp)
                (serviceDependencies d) \<noteq> None then (d, fail TW_already_exists)
      else
        let dep = \<lparr>sd_id = cuid g 0, sd_orgId = a_orgId a, sd_parentNodeId = cd_parentNodeId inp, sd_childNodeId = cd_childNodeId inp,
              sd_kind = cd_kind inp, sd_criticality = cd_criticality inp, sd_label = truthy (cd_label inp)\<rparr>
        in (recordAudit g 1 (actor_entry ''topology.dependency_created'' a ''service_dependency'' (sd_id dep) None)
              (d\<lparr>serviceDependencies := insert_row dep (serviceDependencies d)\<rparr>), ok (sd_id dep)))"

definition deleteDependency :: "dbgen \<Rightarrow> actor \<Rightarrow> ident \<Rightarrow> db \<Rightarrow> db \<times> (unit, topology_write_error) result" where
  "deleteDependency g a eid d =
     (if \<not> can (Some (a_role a)) topology_write then (d, fail TW_forbidden)
      else
        let mine = (\<lambda>e. sd_id e = eid \<and> sd_orgId e = a_orgId a);
            d1 = d\<lparr>serviceDependencies := delete_many mine (serviceDependencies d)\<rparr>
        in if count_rows mine (serviceDependencies d) \<noteq> 1 then (d1, fail TW_not_found)
           else (recordAudit g 0 (actor_entry ''topology.dependency_deleted'' a ''service_dependency'' eid None) d1, ok ()))"

section \<open>The map stays well formed\<close>

definition edge_wf :: "topology_node_row list \<Rightarrow> dependency_row \<Rightarrow> bool" where
  "edge_wf ns e = (sd_parentNodeId e \<noteq> sd_childNodeId e
     \<and> list_ex (\<lambda>n. tn_id n = sd_parentNodeId e \<and> tn_orgId n = sd_orgId e) ns
     \<and> list_ex (\<lambda>n. tn_id n = sd_childNodeId e \<and> tn_orgId n = sd_orgId e) ns)"

definition entity_key :: "topology_node_row \<Rightarrow> ident \<times> topology_node_kind \<times> ident option" where
  "entity_key n = (tn_orgId n, tn_kind n, tn_refId n)"

definition map_wf :: "db \<Rightarrow> bool" where
  "map_wf d = (distinct (map tn_id (topologyNodes d))
     \<and> list_all (\<lambda>n. (tn_refId n = None) = is_logical (tn_kind n)) (topologyNodes d)
     \<and> distinct (map entity_key (filter (\<lambda>n. tn_refId n \<noteq> None) (topologyNodes d)))
     \<and> list_all (edge_wf (topologyNodes d)) (serviceDependencies d)
     \<and> distinct (map (\<lambda>e. (sd_parentNodeId e, sd_childNodeId e, sd_kind e)) (serviceDependencies d)))"

datatype topology_cmd =
    T_create_node dbgen actor create_node_input
  | T_delete_node dbgen actor ident
  | T_move actor ident real real
  | T_layout actor "(ident \<times> real \<times> real) list"
  | T_create_edge dbgen actor create_dependency_input
  | T_delete_edge dbgen actor ident

text \<open>An insertion under an id that is taken violates the primary key and rolls back.\<close>

primrec topology_exec :: "topology_cmd \<Rightarrow> db \<Rightarrow> db" where
  "topology_exec (T_create_node g a inp) d =
     (if list_ex (\<lambda>n. tn_id n = cuid g 0) (topologyNodes d) then d else fst (createNode g a inp d))"
| "topology_exec (T_delete_node g a nid) d = fst (deleteNode g a nid d)"
| "topology_exec (T_move a nid x y) d = fst (updateNodePosition a nid x y d)"
| "topology_exec (T_layout a ps) d = fst (updateNodePositions a ps d)"
| "topology_exec (T_create_edge g a inp) d =
     (if list_ex (\<lambda>e. sd_id e = cuid g 0) (serviceDependencies d) then d else fst (createDependency g a inp d))"
| "topology_exec (T_delete_edge g a eid) d = fst (deleteDependency g a eid d)"

primrec topology_org :: "topology_cmd \<Rightarrow> ident" where
  "topology_org (T_create_node g a inp) = a_orgId a"
| "topology_org (T_delete_node g a nid) = a_orgId a"
| "topology_org (T_move a nid x y) = a_orgId a"
| "topology_org (T_layout a ps) = a_orgId a"
| "topology_org (T_create_edge g a inp) = a_orgId a"
| "topology_org (T_delete_edge g a eid) = a_orgId a"

definition map_rows :: "ident \<Rightarrow> db \<Rightarrow> topology_node_row list \<times> dependency_row list" where
  "map_rows orgId d = (filter (\<lambda>n. tn_orgId n = orgId) (topologyNodes d), filter (\<lambda>e. sd_orgId e = orgId) (serviceDependencies d))"

lemma map_wf_audit [simp]: "map_wf (recordAudit g k e d) = map_wf d"
  by (simp add: map_wf_def)

lemma map_rows_audit [simp]: "map_rows orgId (recordAudit g k e d) = map_rows orgId d"
  by (simp add: map_rows_def)

text \<open>Creating a node.\<close>

lemma createNode_cases:
  obtains "fst (createNode g a inp d) = d"
  | node where "tn_id node = cuid g 0" "tn_orgId node = a_orgId a" "(tn_refId node = None) = is_logical (tn_kind node)"
      "tn_refId node \<noteq> None \<Longrightarrow> \<forall>n \<in> set (topologyNodes d). entity_key n \<noteq> entity_key node"
      "topologyNodes (fst (createNode g a inp d)) = topologyNodes d @ [node]"
      "serviceDependencies (fst (createNode g a inp d)) = serviceDependencies d"
proof (cases "fst (createNode g a inp d) = d")
  case False
  let ?ref = "if is_logical (cn_kind inp) then None else cn_refId inp"
  define node where "node = \<lparr>tn_id = cuid g 0, tn_orgId = a_orgId a, tn_kind = cn_kind inp, tn_refId = ?ref, tn_label = cn_label inp,
              tn_positionX = cn_positionX inp, tn_positionY = cn_positionY inp, tn_createdAt = clock g\<rparr>"
  have ref: "\<not> is_logical (cn_kind inp) \<Longrightarrow> \<exists>s. cn_refId inp = Some s
      \<and> find_first (node_for (a_orgId a) (cn_kind inp) s) (topologyNodes d) = None"
    using False by (auto simp: createNode_def truthy_def or_null_def split: option.splits if_splits)
  have rows: "topologyNodes (fst (createNode g a inp d)) = topologyNodes d @ [node]"
      "serviceDependencies (fst (createNode g a inp d)) = serviceDependencies d"
    using False by (auto simp: createNode_def node_def insert_row_def Let_def split: if_splits)
  have "\<forall>n \<in> set (topologyNodes d). entity_key n \<noteq> entity_key node" if "tn_refId node \<noteq> None"
  proof -
    have log: "\<not> is_logical (cn_kind inp)" using that by (auto simp: node_def split: if_splits)
    from ref[OF log] log show ?thesis by (auto simp: find_first_None_iff node_for_def entity_key_def node_def)
  qed
  then show ?thesis using rows ref by (intro that(2)[of node]) (auto simp: node_def)
qed

lemma edge_wf_mono: "edge_wf ns e \<Longrightarrow> set ns \<subseteq> set ns' \<Longrightarrow> edge_wf ns' e"
  by (auto simp: edge_wf_def list_ex_iff)

lemma edge_wf_keys:
  "edge_wf ns e \<longleftrightarrow> sd_parentNodeId e \<noteq> sd_childNodeId e
     \<and> (sd_parentNodeId e, sd_orgId e) \<in> set (map (\<lambda>n. (tn_id n, tn_orgId n)) ns)
     \<and> (sd_childNodeId e, sd_orgId e) \<in> set (map (\<lambda>n. (tn_id n, tn_orgId n)) ns)"
  by (auto simp: edge_wf_def list_ex_iff image_iff) metis+

lemma createNode_wf:
  assumes "map_wf d" and "\<not> list_ex (\<lambda>n. tn_id n = cuid g 0) (topologyNodes d)"
  shows "map_wf (fst (createNode g a inp d))"
proof (rule createNode_cases[of g a inp d])
  fix node
  assume "tn_id node = cuid g 0" "(tn_refId node = None) = is_logical (tn_kind node)"
    and "tn_refId node \<noteq> None \<Longrightarrow> \<forall>n \<in> set (topologyNodes d). entity_key n \<noteq> entity_key node"
    and "topologyNodes (fst (createNode g a inp d)) = topologyNodes d @ [node]"
      "serviceDependencies (fst (createNode g a inp d)) = serviceDependencies d"
  moreover have "list_all (edge_wf (topologyNodes d @ [node])) (serviceDependencies d)"
    using assms(1) by (auto simp: map_wf_def list_all_iff elim!: edge_wf_mono)
  ultimately show ?thesis using assms by (auto simp: map_wf_def list_ex_iff)
qed (use assms in simp)

lemma createNode_foreign: "orgId \<noteq> a_orgId a \<Longrightarrow> map_rows orgId (fst (createNode g a inp d)) = map_rows orgId d"
  by (rule createNode_cases[of g a inp d]) (auto simp: map_rows_def)

text \<open>Deleting a node with its edges.\<close>

lemma delete_nodes_wf: "map_wf d \<Longrightarrow> map_wf (delete_nodes a nid d)"
proof -
  assume wf: "map_wf d"
  have "edge_wf (delete_many (node_in_org a nid) ns) e" if "edge_wf ns e" "\<not> touches nid e" for ns e
    using that by (auto simp: edge_wf_def touches_def list_ex_iff delete_many_def node_in_org_def)
  moreover have "distinct (map entity_key (filter Q (delete_many P ns)))" if "distinct (map entity_key (filter Q ns))" for P Q ns
  proof -
    have "filter Q (delete_many P ns) = filter (\<lambda>n. \<not> P n) (filter Q ns)" by (simp add: delete_many_def conj_commute)
    then show ?thesis using that by (simp only: distinct_map_filter)
  qed
  ultimately show ?thesis
    using wf by (auto simp: delete_nodes_def map_wf_def distinct_map_delete_many list_all_iff set_delete_many)
qed

lemma delete_nodes_foreign:
  assumes "map_wf d" and "orgId \<noteq> a_orgId a"
  shows "map_rows orgId (delete_nodes a nid d) = map_rows orgId d"
proof (cases "count_rows (node_in_org a nid) (topologyNodes d) = 0")
  case False
  then obtain n where n: "n \<in> set (topologyNodes d)" "tn_id n = nid" "tn_orgId n = a_orgId a"
    using count_rows_zero[of "node_in_org a nid"] by (auto simp: node_in_org_def)
  have "sd_orgId e = a_orgId a" if e: "e \<in> set (serviceDependencies d)" and t: "touches nid e" for e
  proof -
    have "edge_wf (topologyNodes d) e" using assms(1) e by (simp add: map_wf_def list_all_iff)
    then obtain m where m: "m \<in> set (topologyNodes d)" "tn_id m = nid" "tn_orgId m = sd_orgId e"
      using t by (auto simp: edge_wf_def touches_def list_ex_iff)
    have "m = n" using m n assms(1) by (auto simp: map_wf_def distinct_map dest: inj_onD)
    with m n show ?thesis by simp
  qed
  then have "filter (\<lambda>e. sd_orgId e = orgId) (delete_many (touches nid) (serviceDependencies d))
      = filter (\<lambda>e. sd_orgId e = orgId) (serviceDependencies d)"
    using assms(2) by (intro filter_delete_many) auto
  moreover have "filter (\<lambda>n. tn_orgId n = orgId) (delete_many (node_in_org a nid) (topologyNodes d))
      = filter (\<lambda>n. tn_orgId n = orgId) (topologyNodes d)"
    using assms(2) by (intro filter_delete_many) (auto simp: node_in_org_def)
  ultimately show ?thesis using False by (simp add: delete_nodes_def map_rows_def)
qed (simp add: delete_nodes_def)

text \<open>Moving nodes.\<close>

lemma move_nodes_keys:
  "map tn_id (topologyNodes (move_nodes a nid x y d)) = map tn_id (topologyNodes d)"
  "map (\<lambda>n. (tn_id n, tn_orgId n)) (topologyNodes (move_nodes a nid x y d)) = map (\<lambda>n. (tn_id n, tn_orgId n)) (topologyNodes d)"
  "map entity_key (topologyNodes (move_nodes a nid x y d)) = map entity_key (topologyNodes d)"
  by (simp_all add: move_nodes_def map_update_many entity_key_def)

lemma move_nodes_wf: "map_wf d \<Longrightarrow> map_wf (move_nodes a nid x y d)"
proof -
  assume wf: "map_wf d"
  let ?ns = "topologyNodes (move_nodes a nid x y d)"
  have "edge_wf ?ns e = edge_wf (topologyNodes d) e" for e by (simp only: edge_wf_keys move_nodes_keys(2))
  moreover have "map entity_key (filter (\<lambda>n. tn_refId n \<noteq> None) (update_many P (\<lambda>n. n\<lparr>tn_positionX := x, tn_positionY := y\<rparr>) ns))
      = map entity_key (filter (\<lambda>n. tn_refId n \<noteq> None) ns)" for P ns
    by (induction ns) (auto simp: entity_key_def)
  moreover have "list_all (\<lambda>n. (tn_refId n = None) = is_logical (tn_kind n)) ?ns"
    using wf by (auto simp: map_wf_def move_nodes_def intro!: update_many_all)
  ultimately show ?thesis
    using wf move_nodes_keys(1)[of a nid x y d] by (simp add: map_wf_def move_nodes_def list_all_iff)
qed

lemma move_nodes_foreign: "orgId \<noteq> a_orgId a \<Longrightarrow> map_rows orgId (move_nodes a nid x y d) = map_rows orgId d"
  by (auto simp: map_rows_def move_nodes_def node_in_org_def intro!: filter_update_many)

lemma layout_fold:
  assumes "\<And>nid x y d. Q d \<Longrightarrow> Q (move_nodes a nid x y d)" and "Q d"
  shows "Q (fst (updateNodePositions a ps d))"
proof -
  have "Q (fst (fold (\<lambda>(nid, x, y) (d, r). (move_nodes a nid x y d,
             case r of ok n \<Rightarrow> ok (n + count_rows (node_in_org a nid) (topologyNodes d)) | fail e \<Rightarrow> fail e)) ps (d, r)))"
    if "Q d" for d and r :: "(nat, topology_write_error) result"
    using that assms(1) by (induction ps arbitrary: d r) auto
  then show ?thesis using assms(2) by (simp add: updateNodePositions_def)
qed

text \<open>Edges.\<close>

lemma createDependency_cases:
  obtains "fst (createDependency g a inp d) = d"
  | e where "sd_orgId e = a_orgId a" "edge_wf (topologyNodes d) e"
      "(sd_parentNodeId e, sd_childNodeId e, sd_kind e) \<notin> (\<lambda>e. (sd_parentNodeId e, sd_childNodeId e, sd_kind e)) ` set (serviceDependencies d)"
      "topologyNodes (fst (createDependency g a inp d)) = topologyNodes d"
      "serviceDependencies (fst (createDependency g a inp d)) = serviceDependencies d @ [e]"
proof (cases "fst (createDependency g a inp d) = d")
  case False
  define e where "e = \<lparr>sd_id = cuid g 0, sd_orgId = a_orgId a, sd_parentNodeId = cd_parentNodeId inp, sd_childNodeId = cd_childNodeId inp,
              sd_kind = cd_kind inp, sd_criticality = cd_criticality inp, sd_label = truthy (cd_label inp)\<rparr>"
  show ?thesis
    using False by (intro that(2)[of e]) (auto simp: createDependency_def Let_def e_def edge_wf_def insert_row_def node_in_org_def
        list_ex_iff find_first_None_iff dest!: find_first_SomeD split: if_splits)
qed

lemma createDependency_wf: "map_wf d \<Longrightarrow> map_wf (fst (createDependency g a inp d))"
  by (rule createDependency_cases[of g a inp d]) (auto simp: map_wf_def)

lemma createDependency_foreign: "orgId \<noteq> a_orgId a \<Longrightarrow> map_rows orgId (fst (createDependency g a inp d)) = map_rows orgId d"
  by (rule createDependency_cases[of g a inp d]) (auto simp: map_rows_def)

lemma deleteDependency_rows:
  "topologyNodes (fst (deleteDependency g a eid d)) = topologyNodes d"
  "serviceDependencies (fst (deleteDependency g a eid d)) = (if can (Some (a_role a)) topology_write
     then delete_many (\<lambda>e. sd_id e = eid \<and> sd_orgId e = a_orgId a) (serviceDependencies d) else serviceDependencies d)"
  by (simp_all add: deleteDependency_def Let_def)

lemma deleteDependency_wf: "map_wf d \<Longrightarrow> map_wf (fst (deleteDependency g a eid d))"
  by (auto simp: map_wf_def deleteDependency_rows distinct_map_delete_many list_all_iff set_delete_many)

lemma deleteDependency_foreign: "orgId \<noteq> a_orgId a \<Longrightarrow> map_rows orgId (fst (deleteDependency g a eid d)) = map_rows orgId d"
  by (auto simp: map_rows_def deleteDependency_rows intro!: filter_delete_many)

interpretation topology: tenant_scoped map_wf topology_exec topology_org map_rows
proof unfold_locales
  fix d c
  assume "map_wf d"
  then show "map_wf (topology_exec c d)"
    by (cases c) (auto simp: createNode_wf createDependency_wf deleteDependency_wf deleteNode_def Let_def delete_nodes_wf
        updateNodePosition_def move_nodes_wf intro: layout_fold)
next
  fix d orgId c
  assume "map_wf d" and "orgId \<noteq> topology_org c"
  then show "map_rows orgId (topology_exec c d) = map_rows orgId d"
    by (cases c) (auto simp: createNode_foreign createDependency_foreign deleteDependency_foreign deleteNode_def Let_def
        delete_nodes_foreign updateNodePosition_def move_nodes_foreign
        intro: layout_fold[where Q = "\<lambda>x. map_rows orgId x = map_rows orgId d"])
qed

section \<open>What the health view shows\<close>

text \<open>A node of the view: its entity exists in the organization, and its health is that of the entity combined with its open incidents.\<close>

lemma mem_map_filter: "y \<in> set (List.map_filter f xs) \<longleftrightarrow> (\<exists>x \<in> set xs. f x = Some y)"
  by (induction xs) (auto simp: List.map_filter_def split: option.splits)

lemma topologyHealth_node:
  assumes "topologyHealth a nodes d = ok hs" and "(nid, info) \<in> set hs"
  obtains n ref st sev where "n \<in> set nodes" "tn_id n = nid" "tn_refId n = Some ref"
    "js_map (entity_statuses (a_orgId a) nodes d) ref = Some st"
    "sev = severities_of (a_orgId a) (ref_of_source (entity_statuses (a_orgId a) nodes d) (device_ports (a_orgId a) nodes d)) ref d"
    "nh_openIncidents info = length sev" "nh_health info = combineHealth (Some st) sev"
proof -
  let ?st = "entity_statuses (a_orgId a) nodes d"
  from assms obtain n where n: "n \<in> set nodes"
      "node_health_entry (a_orgId a) ?st (ref_of_source ?st (device_ports (a_orgId a) nodes d)) d n = Some (nid, info)"
    by (auto simp: topologyHealth_def Let_def mem_map_filter split: if_splits)
  then obtain ref st where "truthy (tn_refId n) = Some ref" and "js_map ?st ref = Some st"
    by (auto simp: node_health_entry_def split: option.splits)
  with n that show thesis
    by (fastforce simp: node_health_entry_def Let_def truthy_def or_null_def split: option.splits if_splits)
qed

lemma entity_statuses_own:
  assumes "(ref, st) \<in> set (entity_statuses orgId nodes d)"
  shows "(\<exists>h \<in> set (monitoredHosts d). h_id h = ref \<and> h_orgId h = orgId) \<or> (\<exists>x \<in> set (networkDevices d). nd_id x = ref \<and> nd_orgId x = orgId)
     \<or> (\<exists>x \<in> set (databaseInstances d). db_id x = ref \<and> db_orgId x = orgId) \<or> (\<exists>x \<in> set (endpointChecks d). ep_id x = ref \<and> ep_orgId x = orgId)"
  using assms by (auto simp: entity_statuses_def find_many_def)

section \<open>Properties\<close>

text \<open>C39.
  After any sequence of map edits by any members, a map that was well formed still is: every edge
  joins two different existing nodes of its own organization, no edge is there twice, a
  monitored entity has at most one node per organization, and exactly the service and external nodes have
  no entity. An organization none of whose members made an edit keeps its map exactly.
\<close>

theorem topology_edits_safe:
  assumes "map_wf d"
  shows "(\<forall>e \<in> set (serviceDependencies (fold topology_exec cmds d)). sd_parentNodeId e \<noteq> sd_childNodeId e
        \<and> (\<exists>p \<in> set (topologyNodes (fold topology_exec cmds d)). tn_id p = sd_parentNodeId e \<and> tn_orgId p = sd_orgId e)
        \<and> (\<exists>c \<in> set (topologyNodes (fold topology_exec cmds d)). tn_id c = sd_childNodeId e \<and> tn_orgId c = sd_orgId e))
    \<and> map_wf (fold topology_exec cmds d)
    \<and> ((\<forall>c \<in> set cmds. topology_org c \<noteq> orgId) \<longrightarrow> map_rows orgId (fold topology_exec cmds d) = map_rows orgId d)"
proof -
  have "map_wf (fold topology_exec cmds d)" using topology.fold_inv[OF assms] .
  then show ?thesis
    using topology.foreign_rows_all[OF assms, of cmds orgId] by (auto simp: map_wf_def list_all_iff edge_wf_def list_ex_iff)
qed

definition sample_edits :: "topology_cmd list" where
  "sample_edits = [
     T_create_node sample_gen (sample_actor ''ann'' ''acme'' OWNER)
       \<lparr>cn_kind = NODE_SERVICE, cn_refId = None, cn_label = ''shop'', cn_positionX = 0, cn_positionY = 0\<rparr>,
     T_create_node (sample_gen\<lparr>cuid := (\<lambda>k. ''n2'')\<rparr>) (sample_actor ''ann'' ''acme'' OWNER)
       \<lparr>cn_kind = NODE_HOST, cn_refId = Some ''h1'', cn_label = ''web'', cn_positionX = 0, cn_positionY = 0\<rparr>,
     T_create_edge sample_gen (sample_actor ''ann'' ''acme'' OWNER)
       \<lparr>cd_parentNodeId = ''c'', cd_childNodeId = ''n2'', cd_kind = DEPENDS_ON, cd_criticality = CRITICAL, cd_label = None\<rparr>]"

theorem topology_edits_safe_witness:
  "length (serviceDependencies (fold topology_exec sample_edits sample_rule_db)) = 1
   \<and> map_wf (fold topology_exec sample_edits sample_rule_db)
   \<and> map_rows ''beta'' (fold topology_exec sample_edits sample_rule_db) = ([], [])"
proof -
  have wf: "map_wf sample_rule_db" by code_simp
  have edge: "length (serviceDependencies (fold topology_exec sample_edits sample_rule_db)) = 1" by code_simp
  have orgs: "\<forall>c \<in> set sample_edits. topology_org c \<noteq> ''beta''" by (simp add: sample_edits_def sample_actor_def)
  have none: "map_rows ''beta'' sample_rule_db = ([], [])" by code_simp
  show ?thesis using topology_edits_safe[OF wf, of sample_edits "''beta''"] edge orgs none by simp
qed

end
