(* ===== verification/Signature.thy ===== *)
theory Signature
  imports Totp Target_Guard Notify
begin

text \<open>
  Signatures of the telemetry API, \<open>src/lib/telemetry/signature.ts\<close>. \<open>hmac secret message\<close> is
  \<open>createHmac("sha256", secret).update(message).digest("hex")\<close>; what is used of it, 64 lower-case hex
  digits, is the hypothesis \<open>hex_digests\<close>. Timestamps and skews are whole seconds and the server time whole
  milliseconds, for which the comparison of the source is exact.
\<close>

section \<open>Headers\<close>

definition KEY_ID_HEADER :: string where "KEY_ID_HEADER = ''x-ikelyane-key-id''"
definition SIGNATURE_HEADER :: string where "SIGNATURE_HEADER = ''x-ikelyane-signature''"

record parsed_signature =
  ps_timestamp :: int
  ps_signatures :: "string list"

definition lower_hex_char :: "char \<Rightarrow> bool" where
  "lower_hex_char c = (let n = code_unit c in (48 \<le> n \<and> n \<le> 57) \<or> (97 \<le> n \<and> n \<le> 102))"

text \<open>\<open>/^[0-9a-f]{64}$/\<close> and \<open>/^\d{9,12}$/\<close>\<close>

definition HEX_SHA256 :: "string \<Rightarrow> bool" where
  "HEX_SHA256 s = (length s = 64 \<and> list_all lower_hex_char s)"

definition unix_seconds :: "string \<Rightarrow> bool" where
  "unix_seconds s = (9 \<le> length s \<and> length s \<le> 12 \<and> list_all is_digit_char s)"

definition dec_number :: "string \<Rightarrow> int" where
  "dec_number s = (case numeral_in digit_value 10 0 s of Some n \<Rightarrow> int n | None \<Rightarrow> 0)"

text \<open>\<open>indexOf("=")\<close> and the two slices around it\<close>

fun split_equals :: "string \<Rightarrow> (string \<times> string) option" where
  "split_equals [] = None"
| "split_equals (c # cs) = (if c = CHR ''='' then Some ([], cs)
     else map_option (\<lambda>(n, v). (c # n, v)) (split_equals cs))"

fun signature_parts :: "string list \<Rightarrow> int option \<Rightarrow> string list \<Rightarrow> (int option \<times> string list) option" where
  "signature_parts [] timestamp sigs = Some (timestamp, sigs)"
| "signature_parts (part # parts) timestamp sigs =
     (case split_equals part of
        None \<Rightarrow> None
      | Some (n, v) \<Rightarrow>
          let name = js_trim n; value' = js_trim v in
          if name = ''t'' then (if unix_seconds value' then signature_parts parts (Some (dec_number value')) sigs else None)
          else if name = ''v1'' then (let hex = toLowerCase value' in if HEX_SHA256 hex then signature_parts parts timestamp (sigs @ [hex]) else None)
          else signature_parts parts timestamp sigs)"

definition parseSignatureHeader :: "string option \<Rightarrow> parsed_signature option" where
  "parseSignatureHeader hdr =
     (case truthy hdr of
        None \<Rightarrow> None
      | Some h \<Rightarrow>
          if length h > 512 then None
          else (case signature_parts (split_on (CHR '','') h) None [] of
              Some (Some t, sigs) \<Rightarrow> if sigs = [] \<or> length sigs > 4 then None else Some \<lparr>ps_timestamp = t, ps_signatures = sigs\<rparr>
            | _ \<Rightarrow> None))"

section \<open>Signing and verifying\<close>

definition int_string :: "int \<Rightarrow> string" where
  "int_string n = (if n < 0 then CHR ''-'' # dec_string (nat (- n)) else dec_string (nat n))"

definition computeSignature :: "(string \<Rightarrow> string \<Rightarrow> string) \<Rightarrow> string \<Rightarrow> int \<Rightarrow> string \<Rightarrow> string" where
  "computeSignature hmac secret timestamp rawBody = hmac secret (int_string timestamp @ ''.'' @ rawBody)"

text \<open>\<open>Buffer.from(s, "hex")\<close> stops at the first pair that is not hexadecimal.\<close>

fun hex_bytes :: "string \<Rightarrow> nat list" where
  "hex_bytes (c # d # cs) = (case (hex_value c, hex_value d) of
     (Some a, Some b) \<Rightarrow> (16 * a + b) # hex_bytes cs | _ \<Rightarrow> [])"
| "hex_bytes cs = []"

text \<open>\<open>timingSafeEqual\<close> throws (\<open>None\<close>) on buffers of different lengths.\<close>

definition timingSafeEqual :: "nat list \<Rightarrow> nat list \<Rightarrow> bool option" where
  "timingSafeEqual a b = (if length a = length b then Some (a = b) else None)"

fun verify_pairs :: "bool \<Rightarrow> (nat list \<times> nat list) list \<Rightarrow> bool option" where
  "verify_pairs valid [] = Some valid"
| "verify_pairs valid ((e, c) # ps) = (case timingSafeEqual e c of None \<Rightarrow> None | Some eq \<Rightarrow> verify_pairs (valid \<or> eq) ps)"

definition verifySignature ::
  "(string \<Rightarrow> string \<Rightarrow> string) \<Rightarrow> string list \<Rightarrow> parsed_signature \<Rightarrow> string \<Rightarrow> bool option" where
  "verifySignature hmac secrets parsed rawBody = verify_pairs False
     (concat (map (\<lambda>s. map (\<lambda>c. (hex_bytes (computeSignature hmac s (ps_timestamp parsed) rawBody), hex_bytes c)) (ps_signatures parsed)) secrets))"

definition isTimestampFresh :: "int \<Rightarrow> ms \<Rightarrow> int \<Rightarrow> bool" where
  "isTimestampFresh timestampSeconds nowMs maxSkewSeconds = (\<bar>nowMs - timestampSeconds * 1000\<bar> \<le> maxSkewSeconds * 1000)"

definition signResponse :: "(string \<Rightarrow> string \<Rightarrow> string) \<Rightarrow> string list \<Rightarrow> string \<Rightarrow> ms \<Rightarrow> string" where
  "signResponse hmac secrets rawBody nowMs =
     (let t = nowMs div 1000 in
      str_join '','' ((''t='' @ int_string t) # map (\<lambda>s. ''v1='' @ computeSignature hmac s t rawBody) secrets))"

definition hex_digests :: "(string \<Rightarrow> string \<Rightarrow> string) \<Rightarrow> bool" where
  "hex_digests hmac \<longleftrightarrow> (\<forall>k m. HEX_SHA256 (hmac k m))"

section \<open>Comparing bytes is comparing digests\<close>

lemma lower_hex_value:
  assumes "lower_hex_char c"
  obtains v where "hex_value c = Some v" and "v < 16"
    and "\<And>c'. lower_hex_char c' \<Longrightarrow> hex_value c' = Some v \<Longrightarrow> c' = c"
proof -
  have inj: "c' = c" if "code_unit c' = code_unit c" for c' using that by (simp add: code_unit_def)
  show thesis
  proof (cases "code_unit c \<le> 57")
    case True
    then have "hex_value c = Some (code_unit c - 48)" and n: "48 \<le> code_unit c" using assms by (auto simp: lower_hex_char_def hex_value_def Let_def)
    moreover have "c' = c" if "lower_hex_char c'" "hex_value c' = Some (code_unit c - 48)" for c'
      using that n True by (intro inj) (auto simp: lower_hex_char_def hex_value_def Let_def split: if_splits)
    ultimately show thesis using that True by auto
  next
    case False
    then have "hex_value c = Some (code_unit c - 87)" and n: "97 \<le> code_unit c" "code_unit c \<le> 102"
      using assms by (auto simp: lower_hex_char_def hex_value_def Let_def)
    moreover have "c' = c" if "lower_hex_char c'" "hex_value c' = Some (code_unit c - 87)" for c'
      using that n by (intro inj) (auto simp: lower_hex_char_def hex_value_def Let_def split: if_splits)
    ultimately show thesis using that n by auto
  qed
qed

lemma hex_bytes_length: "list_all lower_hex_char s \<Longrightarrow> length (hex_bytes s) = length s div 2"
proof (induction s rule: hex_bytes.induct)
  case (1 c d cs)
  then have hex: "lower_hex_char c" "lower_hex_char d" by simp_all
  obtain x where "hex_value c = Some x" using lower_hex_value[OF hex(1)] by metis
  moreover obtain y where "hex_value d = Some y" using lower_hex_value[OF hex(2)] by metis
  ultimately show ?case using 1 by simp
qed auto

lemma hex_bytes_inj:
  assumes "list_all lower_hex_char s" and "list_all lower_hex_char s'" and "length s = length s'" and "even (length s)"
    and "hex_bytes s = hex_bytes s'"
  shows "s = s'"
  using assms
proof (induction s arbitrary: s' rule: hex_bytes.induct)
  case (1 c d cs)
  from 1(4) obtain c' d' cs' where s': "s' = c' # d' # cs'" by (cases s'; cases "tl s'") auto
  obtain a where a: "hex_value c = Some a" "a < 16" "\<And>z. lower_hex_char z \<Longrightarrow> hex_value z = Some a \<Longrightarrow> z = c"
    using lower_hex_value[of c] 1(2) by auto
  obtain b where b: "hex_value d = Some b" "b < 16" "\<And>z. lower_hex_char z \<Longrightarrow> hex_value z = Some b \<Longrightarrow> z = d"
    using lower_hex_value[of d] 1(2) by auto
  obtain a' where a': "hex_value c' = Some a'" "a' < 16" using lower_hex_value[of c'] 1(3) s' by auto
  obtain b' where b': "hex_value d' = Some b'" "b' < 16" using lower_hex_value[of d'] 1(3) s' by auto
  have eq: "16 * a + b = 16 * a' + b'" and tail: "hex_bytes cs = hex_bytes cs'"
    using 1(6) s' a(1) b(1) a'(1) b'(1) by simp_all
  have "a' = a"
    using arg_cong[OF eq, of "\<lambda>n. n div 16"] a(2) b(2) a'(2) b'(2) by simp
  moreover have "b' = b" using eq calculation by simp
  moreover have "cs = cs'" using 1(2,3,4,5) s' by (intro 1(1)[OF refl a(1) b(1)] tail) simp_all
  moreover have "c' = c" using a(3)[of c'] a'(1) \<open>a' = a\<close> 1(3) s' by simp
  moreover have "d' = d" using b(3)[of d'] b'(1) \<open>b' = b\<close> 1(3) s' by simp
  ultimately show ?case using s' by simp
qed auto

lemma timingSafeEqual_digests:
  assumes "HEX_SHA256 x" and "HEX_SHA256 y"
  shows "timingSafeEqual (hex_bytes x) (hex_bytes y) = Some (x = y)"
  using assms hex_bytes_inj[of x y] by (auto simp: timingSafeEqual_def HEX_SHA256_def hex_bytes_length)

lemma verify_pairs_digests:
  "list_all (\<lambda>(x, y). HEX_SHA256 x \<and> HEX_SHA256 y) ps
   \<Longrightarrow> verify_pairs v (map (\<lambda>(x, y). (hex_bytes x, hex_bytes y)) ps) = Some (v \<or> list_ex (\<lambda>(x, y). x = y) ps)"
  by (induction ps arbitrary: v) (auto simp: timingSafeEqual_digests)

text \<open>The constant-time loop accepts exactly when one signature is the digest under one of the secrets.\<close>

lemma verifySignature_iff:
  assumes "hex_digests hmac" and "list_all HEX_SHA256 (ps_signatures p)"
  shows "verifySignature hmac secrets p body
    = Some (\<exists>s \<in> set secrets. computeSignature hmac s (ps_timestamp p) body \<in> set (ps_signatures p))"
proof -
  let ?ps = "concat (map (\<lambda>s. map (\<lambda>c. (computeSignature hmac s (ps_timestamp p) body, c)) (ps_signatures p)) secrets)"
  have "verifySignature hmac secrets p body = verify_pairs False (map (\<lambda>(x, y). (hex_bytes x, hex_bytes y)) ?ps)"
    by (simp add: verifySignature_def map_concat comp_def)
  moreover have "list_all (\<lambda>(x, y). HEX_SHA256 x \<and> HEX_SHA256 y) ?ps"
    using assms by (auto simp: list_all_iff hex_digests_def computeSignature_def)
  ultimately show ?thesis using verify_pairs_digests[of ?ps False] by (auto simp: list_ex_iff)
qed

section \<open>Reading a header back\<close>

lemma numeral_in_append:
  "numeral_in dv b acc (s @ t) = (case numeral_in dv b acc s of None \<Rightarrow> None | Some n \<Rightarrow> numeral_in dv b n t)"
  by (induction s arbitrary: acc) (auto split: option.split)

lemma dec_string_number: "numeral_in digit_value 10 0 (dec_string n) = Some n"
proof (induction n rule: dec_string.induct)
  case (1 n)
  have dig: "digit_value (char_of (48 + k)) = Some k" if "k < 10" for k :: nat
    using that by (simp add: digit_value_def code_unit_def)
  show ?case
  proof (cases "n < 10")
    case True
    then show ?thesis by (subst dec_string.simps) (simp add: dig)
  next
    case False
    with 1 show ?thesis by (subst dec_string.simps) (simp add: numeral_in_append dig)
  qed
qed

lemma dec_string_length_ge: "10 ^ k \<le> n \<Longrightarrow> Suc k \<le> length (dec_string n)"
proof (induction k arbitrary: n)
  case 0
  then show ?case by (subst dec_string.simps) auto
next
  case (Suc k)
  then have "10 ^ k \<le> n div 10" and "\<not> n < 10" using Suc.prems by (auto simp: less_eq_div_iff_mult_less_eq)
      (metis Suc.prems le_trans mult_le_mono2 mult.right_neutral one_le_numeral one_le_power power_Suc not_le)
  then show ?case using Suc.IH[of "n div 10"] by (subst dec_string.simps) simp
qed

lemma unix_seconds_dec: "10 ^ 8 \<le> n \<Longrightarrow> n < 10 ^ 12 \<Longrightarrow> unix_seconds (dec_string n)"
  using dec_string_length[of n 11] dec_string_length_ge[of 8 n] by (simp add: unix_seconds_def dec_string_digits)

text \<open>Signed headers contain neither blanks nor stray commas.\<close>

definition header_char :: "char \<Rightarrow> bool" where
  "header_char c = (is_digit_char c \<or> lower_hex_char c)"

lemma header_char_plain: "header_char c \<Longrightarrow> \<not> js_space c \<and> c \<noteq> CHR '','' \<and> c \<noteq> CHR ''=''"
  by (auto simp: header_char_def is_digit_char_def lower_hex_char_def js_space_def code_unit_def Let_def)

lemma js_trim_plain: "list_all header_char s \<Longrightarrow> js_trim s = s"
proof -
  assume "list_all header_char s"
  then have "\<forall>c \<in> set s. \<not> js_space c" using header_char_plain by (auto simp: list_all_iff)
  moreover have "rev s \<noteq> [] \<Longrightarrow> hd (rev s) \<in> set s" using hd_in_set[of "rev s"] by simp
  ultimately have "dropWhile js_space s = s" "dropWhile js_space (rev s) = rev s" by (auto simp: dropWhile_eq_self_iff)
  then show ?thesis by (simp add: js_trim_def)
qed

lemma toLowerCase_hex: "list_all lower_hex_char s \<Longrightarrow> toLowerCase s = s"
  by (induction s) (auto simp: toLowerCase_def lower_char_def lower_hex_char_def Let_def)

lemma split_equals_app: "list_all (\<lambda>c. c \<noteq> CHR ''='') n \<Longrightarrow> split_equals (n @ CHR ''='' # v) = Some (n, v)"
  by (induction n) auto

lemma split_on_app: "list_all (\<lambda>c. c \<noteq> d) w \<Longrightarrow> split_on d (w @ d # r) = w # split_on d r"
  by (induction w) auto

lemma split_on_join: "ws \<noteq> [] \<Longrightarrow> list_all (list_all (\<lambda>c. c \<noteq> d)) ws \<Longrightarrow> split_on d (str_join [d] ws) = ws"
  by (induction "[d]" ws rule: str_join.induct) (auto simp: split_on_plain split_on_app list_all_iff)

lemma parse_sig_parts:
  assumes "list_all HEX_SHA256 sigs"
  shows "signature_parts (map (\<lambda>x. ''v1='' @ x) sigs) t acc = Some (t, acc @ sigs)"
  using assms
proof (induction sigs arbitrary: acc)
  case (Cons x sigs)
  have hex: "list_all lower_hex_char x" using Cons.prems by (simp add: HEX_SHA256_def)
  then have "list_all header_char x" by (auto simp: list_all_iff header_char_def)
  from js_trim_plain[OF this] have trim: "js_trim x = x" .
  have split: "split_equals (''v1='' @ x) = Some (''v1'', x)" by simp
  have name: "js_trim ''v1'' = ''v1''" by (simp add: js_trim_def js_space_def code_unit_def)
  show ?case
    using Cons by (simp add: split[simplified] name trim toLowerCase_hex[OF hex] Let_def)
qed simp

lemma header_parts_plain:
  assumes "list_all HEX_SHA256 sigs"
  shows "list_all (list_all (\<lambda>c. c \<noteq> CHR '','')) ((''t='' @ dec_string n) # map (\<lambda>x. ''v1='' @ x) sigs)"
proof -
  have "c \<noteq> CHR '',''" if "c \<in> set x" "x = dec_string n \<or> x \<in> set sigs" for c x
    using that assms dec_string_digits[of n] header_char_plain[of c] by (auto simp: list_all_iff HEX_SHA256_def header_char_def)
  then show ?thesis by (auto simp: list_all_iff)
qed

lemma length_join: "length (str_join sep ws) \<le> sum_list (map length ws) + length ws * length sep"
  by (induction sep ws rule: str_join.induct) auto

lemma header_length:
  assumes "list_all HEX_SHA256 sigs" and "length sigs \<le> 4" and "length (dec_string n) \<le> 12"
  shows "length (str_join '','' ((''t='' @ dec_string n) # map (\<lambda>x. ''v1='' @ x) sigs)) \<le> 512"
proof -
  have "list_all (\<lambda>x. length x = 64) sigs \<Longrightarrow> sum_list (map (\<lambda>x. length (''v1='' @ x)) sigs) = 67 * length sigs" for sigs :: "string list"
    by (induction sigs) auto
  then have "sum_list (map (\<lambda>x. length (''v1='' @ x)) sigs) = 67 * length sigs"
    using assms(1) by (auto simp: HEX_SHA256_def list_all_iff)
  then show ?thesis
    using length_join[of "'',''" "(''t='' @ dec_string n) # map (\<lambda>x. ''v1='' @ x) sigs"] assms(2,3) by (simp add: comp_def)
qed

lemma str_join_nonempty: "w \<noteq> [] \<Longrightarrow> str_join sep (w # ws) \<noteq> []"
  by (cases ws) auto

lemma parse_signed_header:
  assumes "list_all HEX_SHA256 sigs" and "sigs \<noteq> []" and "length sigs \<le> 4" and "10 ^ 8 \<le> n" and "n < 10 ^ 12"
  shows "parseSignatureHeader (Some (str_join '','' ((''t='' @ dec_string n) # map (\<lambda>x. ''v1='' @ x) sigs)))
    = Some \<lparr>ps_timestamp = int n, ps_signatures = sigs\<rparr>"
proof -
  define ws where "ws = (''t='' @ dec_string n) # map (\<lambda>x. ''v1='' @ x) sigs"
  define h where "h = str_join '','' ws"
  have us: "unix_seconds (dec_string n)" by (rule unix_seconds_dec[OF assms(4,5)])
  then have "list_all header_char (dec_string n)" by (auto simp: unix_seconds_def header_char_def list_all_iff)
  from js_trim_plain[OF this] have trim: "js_trim (dec_string n) = dec_string n" .
  have name: "js_trim ''t'' = ''t''" by (simp add: js_trim_def js_space_def code_unit_def)
  have parts: "split_on (CHR '','') h = ws"
    unfolding h_def using header_parts_plain[OF assms(1)] by (intro split_on_join) (auto simp: ws_def)
  have "signature_parts ws None [] = Some (Some (dec_number (dec_string n)), sigs)"
    using parse_sig_parts[OF assms(1), of "Some (dec_number (dec_string n))" "[]"] us by (simp add: ws_def name trim Let_def)
  moreover have "dec_number (dec_string n) = int n" by (simp add: dec_number_def dec_string_number)
  moreover have "length h \<le> 512" unfolding h_def ws_def by (rule header_length[OF assms(1,3)]) (use us in \<open>simp add: unix_seconds_def\<close>)
  moreover have "truthy (Some h) = Some h"
    using str_join_nonempty[of "''t='' @ dec_string n"] unfolding h_def ws_def truthy_def or_null_def by simp
  ultimately have "parseSignatureHeader (Some h) = Some \<lparr>ps_timestamp = int n, ps_signatures = sigs\<rparr>"
    using assms(2,3) by (simp add: parseSignatureHeader_def parts)
  then show ?thesis unfolding h_def ws_def .
qed

lemma signResponse_shape:
  assumes "0 \<le> now"
  shows "signResponse hmac secrets body now = str_join '','' ((''t='' @ dec_string (nat (now div 1000)))
    # map (\<lambda>x. ''v1='' @ x) (map (\<lambda>s. computeSignature hmac s (now div 1000) body) secrets))"
  using assms by (simp add: signResponse_def int_string_def Let_def comp_def pos_imp_zdiv_neg_iff)

lemma signed_response_read:
  fixes now :: ms and body :: string
  assumes "hex_digests hmac" and "secrets \<noteq> []" and "length secrets \<le> 4" and "10 ^ 11 \<le> now" and "now < 10 ^ 15"
  defines "p \<equiv> \<lparr>ps_timestamp = now div 1000, ps_signatures = map (\<lambda>s. computeSignature hmac s (now div 1000) body) secrets\<rparr>"
  shows "parseSignatureHeader (Some (signResponse hmac secrets body now)) = Some p"
    and "verifySignature hmac held p body
      = Some (\<exists>k \<in> set held. computeSignature hmac k (now div 1000) body \<in> (\<lambda>s. computeSignature hmac s (now div 1000) body) ` set secrets)"
proof -
  let ?sigs = "map (\<lambda>s. computeSignature hmac s (now div 1000) body) secrets"
  have sigs: "list_all HEX_SHA256 ?sigs" using assms(1) by (auto simp: list_all_iff hex_digests_def computeSignature_def)
  have n: "0 \<le> now" "10 ^ 8 \<le> nat (now div 1000)" "nat (now div 1000) < 10 ^ 12" using assms(4,5) by auto
  have t: "int (nat (now div 1000)) = now div 1000" using n(1) by (simp add: pos_imp_zdiv_nonneg_iff)
  show "parseSignatureHeader (Some (signResponse hmac secrets body now)) = Some p"
    unfolding signResponse_shape[OF n(1)] p_def by (rule parse_signed_header[OF sigs _ _ n(2,3), unfolded t]) (use assms(2,3) in simp_all)
  show "verifySignature hmac held p body
      = Some (\<exists>k \<in> set held. computeSignature hmac k (now div 1000) body \<in> (\<lambda>s. computeSignature hmac s (now div 1000) body) ` set secrets)"
    using verifySignature_iff[OF assms(1), of p held body] sigs by (simp add: p_def)
qed

section \<open>Properties\<close>

text \<open>What the platform signs, the verification accepts: the header \<open>signResponse\<close> writes with one to
  four secrets is read back as its timestamp and one digest per secret, is fresh within any
  tolerance of at least one second, and verifies with any single one of the secrets. Holding the body
  and the timestamp fixed, a secret none of whose digests is listed is refused.
\<close>

lemma signed_header_verifies:
  assumes "hex_digests hmac" and "secrets \<noteq> []" and "length secrets \<le> 4" and "10 ^ 11 \<le> now" and "now < 10 ^ 15"
  shows "\<exists>p. parseSignatureHeader (Some (signResponse hmac secrets body now)) = Some p
    \<and> ps_timestamp p = now div 1000
    \<and> (\<forall>skew \<ge> 1. isTimestampFresh (ps_timestamp p) now skew)
    \<and> (\<forall>held. verifySignature hmac held p body
         = Some (\<exists>k \<in> set held. \<exists>s \<in> set secrets. computeSignature hmac k (now div 1000) body = computeSignature hmac s (now div 1000) body))
    \<and> (\<forall>s \<in> set secrets. verifySignature hmac [s] p body = Some True)"
proof -
  let ?p = "\<lparr>ps_timestamp = now div 1000, ps_signatures = map (\<lambda>s. computeSignature hmac s (now div 1000) body) secrets\<rparr>"
  note read = signed_response_read[OF assms, where body = body]
  have fresh: "isTimestampFresh (now div 1000) now skew" if "1 \<le> skew" for skew
    using that by (simp add: isTimestampFresh_def)
  show ?thesis by (intro exI[of _ ?p] conjI read(1) allI impI ballI) (auto simp: fresh read(2))
qed

text \<open>A digest of the documented shape for the witnesses: the length of the text, in unary.\<close>

definition toy_hmac :: "string \<Rightarrow> string \<Rightarrow> string" where
  "toy_hmac k m = take 64 (replicate (length k) (CHR ''a'') @ replicate 64 (CHR ''0''))"

lemma toy_hmac_hex: "hex_digests toy_hmac"
  by (auto simp: hex_digests_def HEX_SHA256_def toy_hmac_def list_all_iff lower_hex_char_def code_unit_def Let_def
      dest!: in_set_takeD split: if_splits)

lemma signed_header_verifies_witness:
  "\<exists>p. parseSignatureHeader (Some (signResponse toy_hmac [''new'', ''old''] ''{}'' 1700000000123)) = Some p
     \<and> ps_timestamp p = 1700000000 \<and> verifySignature toy_hmac [''old''] p ''{}'' = Some True"
  using signed_header_verifies[OF toy_hmac_hex, of "[''new'', ''old'']" 1700000000123 "''{}''"] by auto

end
