(* ===== verification/Probe.thy ===== *)
theory Probe
  imports Signature
begin

text \<open>
  One synthetic HTTP check, \<open>src/modules/saas/runner/probe.ts\<close>: the request, the redirects with every hop vetted
  again, the assertions and the error codes. The network is a parameter (\<open>probe_net\<close>): URL parsing, name resolution and the
  servers, each free to answer differently at every hop, the clock, and whether the timer had fired when a hop failed.
  \<open>probe\<close> gives the requests that went out, with the addresses they were sent to, beside the result. The loop
  of the source has no bound of its own; its termination proof is the redirect limit.
\<close>

section \<open>Requests, responses, results\<close>

datatype probe_code =
    PE_invalid_url | PE_blocked_target | PE_dns | PE_connection | PE_tls | PE_timeout | PE_too_many_redirects
  | PE_status_mismatch | PE_body_mismatch

record web_url = url +
  url_origin :: string

record probe_request =
  pq_url :: string
  pq_method :: string
  pq_headers :: "(string \<times> string) list"
  pq_body :: "string option"
  pq_expectedStatus :: int
  pq_expectedBodyContains :: "string option"
  pq_followRedirects :: bool
  pq_verifySsl :: bool
  pq_timeoutMs :: int

record probe_options =
  po_allowPrivateTargets :: bool
  po_userAgent :: "string option"

record tls_info =
  ti_validTo :: ms
  ti_issuer :: "string option"

record probe_result =
  pr_passed :: bool
  pr_statusCode :: "int option"
  pr_responseMs :: "real option"
  pr_error :: "probe_code option"
  pr_errorDetail :: "string option"
  pr_tls :: "tls_info option"

definition MAX_REDIRECTS :: nat where "MAX_REDIRECTS = 5"
definition MAX_BODY_BYTES :: nat where "MAX_BODY_BYTES = 1024 * 1024"

definition METHODS_WITH_BODY :: "string list" where
  "METHODS_WITH_BODY = [''POST'', ''PUT'', ''PATCH'', ''DELETE'']"

text \<open>A certificate as the runtime reports it; a name that occurs several times is an array. \<open>pc_validTo\<close> is absent when missing or not a date.\<close>

datatype cert_name = One_name string | Many_names "string list"

record peer_certificate =
  pc_validTo :: "ms option"
  pc_O :: "cert_name option"
  pc_CN :: "cert_name option"

record server_response =
  sv_statusCode :: int
  sv_location :: "string option"
  sv_chunks :: "nat list list"
  sv_certificate :: "peer_certificate option"

record wire_request =
  wq_url :: web_url
  wq_method :: string
  wq_headers :: "(string \<times> string) list"
  wq_body :: "string option"
  wq_rejectUnauthorized :: bool
  wq_addresses :: "string list"

record probe_net =
  pn_parse :: "string \<Rightarrow> web_url option"
  pn_resolve :: "string \<Rightarrow> web_url \<Rightarrow> web_url option"
  pn_lookup :: "nat \<Rightarrow> string \<Rightarrow> string + string list"
  pn_all :: bool
  pn_exchange :: "nat \<Rightarrow> wire_request \<Rightarrow> string + server_response"
  pn_utf8 :: "nat list \<Rightarrow> string"
  pn_elapsed :: "nat \<Rightarrow> real"
  pn_aborted :: "nat \<Rightarrow> bool"

section \<open>Errors and certificates\<close>

fun str_includes :: "string \<Rightarrow> string \<Rightarrow> bool" where
  "str_includes [] p = (p = [])"
| "str_includes (c # cs) p = (starts_with (c # cs) p \<or> str_includes cs p)"

text \<open>\<open>/CERT|SSL|TLS|SELF_SIGNED|UNABLE_TO_(GET|VERIFY)|HOSTNAME|ERR_TLS/i\<close>\<close>

definition fold_case :: "char \<Rightarrow> char" where
  "fold_case c = (case upper_char c of [u] \<Rightarrow> u | _ \<Rightarrow> c)"

definition tls_code :: "string \<Rightarrow> bool" where
  "tls_code code = list_ex (str_includes (map fold_case code))
     [''CERT'', ''SSL'', ''TLS'', ''SELF_SIGNED'', ''UNABLE_TO_GET'', ''UNABLE_TO_VERIFY'', ''HOSTNAME'', ''ERR_TLS'']"

definition classifyNetworkError :: "net_error \<Rightarrow> probe_code \<times> string option" where
  "classifyNetworkError e = (case e of
       Blocked_target a \<Rightarrow> (PE_blocked_target, Some a)
     | Errno code \<Rightarrow>
         if code = ''EBLOCKEDTARGET'' then (PE_blocked_target, None)
         else if code \<in> {''ENOTFOUND'', ''EAI_AGAIN'', ''EAI_NODATA'', ''EAI_NONAME''} then (PE_dns, Some code)
         else if tls_code code then (PE_tls, Some code)
         else if code = ''ABORT_ERR'' then (PE_timeout, None)
         else (PE_connection, or_null code))"

definition truthy_name :: "cert_name option \<Rightarrow> cert_name option" where
  "truthy_name n = (case n of Some (One_name s) \<Rightarrow> if s = [] then None else n | _ \<Rightarrow> n)"

definition certificateOf :: "peer_certificate option \<Rightarrow> tls_info option" where
  "certificateOf cert = (case cert of None \<Rightarrow> None | Some p \<Rightarrow>
     (case pc_validTo p of None \<Rightarrow> None | Some t \<Rightarrow>
        Some \<lparr>ti_validTo = t,
          ti_issuer = (case (case truthy_name (pc_O p) of None \<Rightarrow> truthy_name (pc_CN p) | n \<Rightarrow> n) of
             None \<Rightarrow> None | Some (One_name s) \<Rightarrow> Some s | Some (Many_names []) \<Rightarrow> None | Some (Many_names (s # _)) \<Rightarrow> Some s)\<rparr>))"

section \<open>One request\<close>

text \<open>The \<open>data\<close> events: chunks are kept until the cap is reached, then the rest is not read.\<close>

fun read_body :: "nat list list \<Rightarrow> nat \<Rightarrow> nat list \<Rightarrow> nat list" where
  "read_body [] len got = got"
| "read_body (c # cs) len got =
     (let got' = got @ take (MAX_BODY_BYTES - len) c; len' = len + length c
      in if len' \<ge> MAX_BODY_BYTES then got' else read_body cs len' got')"

record hop_response =
  hp_statusCode :: int
  hp_location :: "string option"
  hp_body :: "string option"
  hp_tls :: "tls_info option"

definition base_headers :: "probe_options \<Rightarrow> (string \<times> string) list" where
  "base_headers opts = [(''user-agent'', case po_userAgent opts of Some ua \<Rightarrow> ua | None \<Rightarrow> ''IkelyaneMonitor-SyntheticCheck/1.0''), (''accept'', ''*/*'')]"

text \<open>Spreading the configured headers over the two fixed ones replaces them where the names agree.\<close>

definition merge_headers :: "(string \<times> string) list \<Rightarrow> (string \<times> string) list \<Rightarrow> (string \<times> string) list" where
  "merge_headers base hs = filter (\<lambda>(n, _). n \<notin> fst ` set hs) base @ hs"

definition requestOnce ::
  "probe_net \<Rightarrow> probe_request \<Rightarrow> probe_options \<Rightarrow> nat \<Rightarrow> web_url \<Rightarrow> string \<Rightarrow> (string \<times> string) list \<Rightarrow> string option \<Rightarrow> bool
   \<Rightarrow> wire_request list \<times> (hop_response, net_error) result" where
  "requestOnce nw req opts hop u method headers body readBody =
     (case connect_to (pn_lookup nw hop) (pn_all nw) (po_allowPrivateTargets opts) (url.truncate u) of
        Inl e \<Rightarrow> ([], fail e)
      | Inr addrs \<Rightarrow>
          let w = \<lparr>wq_url = u, wq_method = method, wq_headers = merge_headers (base_headers opts) headers, wq_body = body,
                   wq_rejectUnauthorized = (if url_protocol u = ''https:'' then pq_verifySsl req else True), wq_addresses = addrs\<rparr>
          in ([w], case pn_exchange nw hop w of
               Inl code \<Rightarrow> fail (Errno code)
             | Inr s \<Rightarrow> ok \<lparr>hp_statusCode = sv_statusCode s, hp_location = sv_location s,
                 hp_body = (if readBody then Some (pn_utf8 nw (read_body (sv_chunks s) 0 [])) else None),
                 hp_tls = (if url_protocol u = ''https:'' then certificateOf (sv_certificate s) else None)\<rparr>))"

section \<open>The check\<close>

record probe_state =
  ps_url :: web_url
  ps_method :: string
  ps_headers :: "(string \<times> string) list"
  ps_body :: "string option"
  ps_tls :: "tls_info option"
  ps_statusCode :: "int option"

definition outcome :: "probe_state \<Rightarrow> probe_code \<Rightarrow> string option \<Rightarrow> real option \<Rightarrow> probe_result" where
  "outcome st code detail elapsed = \<lparr>pr_passed = False, pr_statusCode = ps_statusCode st, pr_responseMs = elapsed,
     pr_error = Some code, pr_errorDetail = detail, pr_tls = ps_tls st\<rparr>"

definition caught :: "probe_net \<Rightarrow> probe_request \<Rightarrow> nat \<Rightarrow> probe_state \<Rightarrow> net_error \<Rightarrow> probe_result" where
  "caught nw req hop st e =
     (if pn_aborted nw hop then outcome st PE_timeout (Some (int_string (pq_timeoutMs req) @ '' ms'')) None
      else let (code, detail) = classifyNetworkError e in outcome st code detail None)"

definition is_redirect :: "int \<Rightarrow> bool" where
  "is_redirect code = (code \<in> {301, 302, 303, 307, 308})"

text \<open>Where a redirect leads: headers are dropped at a change of origin, and the method becomes \<open>GET\<close> as in browsers.\<close>

definition follow :: "hop_response \<Rightarrow> web_url \<Rightarrow> probe_state \<Rightarrow> probe_state" where
  "follow r next st =
     (let st1 = st\<lparr>ps_url := next, ps_headers := (if url_origin next \<noteq> url_origin (ps_url st) then [] else ps_headers st)\<rparr>
      in if hp_statusCode r = 303
            \<or> ((hp_statusCode r = 301 \<or> hp_statusCode r = 302) \<and> ps_method st \<noteq> ''GET'' \<and> ps_method st \<noteq> ''HEAD'')
         then st1\<lparr>ps_method := (if ps_method st = ''HEAD'' then ''HEAD'' else ''GET''), ps_body := None\<rparr>
         else st1)"

definition judge :: "probe_net \<Rightarrow> probe_request \<Rightarrow> nat \<Rightarrow> bool \<Rightarrow> hop_response \<Rightarrow> probe_state \<Rightarrow> probe_result" where
  "judge nw req hop needBody r st =
     (if hp_statusCode r \<noteq> pq_expectedStatus req
      then outcome st PE_status_mismatch (Some (''HTTP '' @ int_string (hp_statusCode r))) (Some (pn_elapsed nw hop))
      else if needBody \<and> \<not> str_includes (case hp_body r of Some b \<Rightarrow> b | None \<Rightarrow> []) (the (pq_expectedBodyContains req))
      then outcome st PE_body_mismatch None (Some (pn_elapsed nw hop))
      else \<lparr>pr_passed = True, pr_statusCode = ps_statusCode st, pr_responseMs = Some (pn_elapsed nw hop), pr_error = None,
            pr_errorDetail = None, pr_tls = ps_tls st\<rparr>)"

function probe_loop ::
  "probe_net \<Rightarrow> probe_request \<Rightarrow> probe_options \<Rightarrow> bool \<Rightarrow> nat \<Rightarrow> probe_state \<Rightarrow> wire_request list \<times> probe_result" where
  "probe_loop nw req opts needBody hop st =
     (if url_protocol (ps_url st) \<noteq> ''http:'' \<and> url_protocol (ps_url st) \<noteq> ''https:''
      then ([], outcome st PE_invalid_url (Some (url_protocol (ps_url st))) None)
      else case assertLiteralTargetAllowed (url.truncate (ps_url st)) (po_allowPrivateTargets opts) of
        Some e \<Rightarrow> ([], caught nw req hop st e)
      | None \<Rightarrow>
        (case requestOnce nw req opts hop (ps_url st) (ps_method st) (ps_headers st) (ps_body st) needBody of
           (ws, fail e) \<Rightarrow> (ws, caught nw req hop st e)
         | (ws, ok r) \<Rightarrow>
             let st1 = st\<lparr>ps_tls := (case ps_tls st of None \<Rightarrow> hp_tls r | t \<Rightarrow> t), ps_statusCode := Some (hp_statusCode r)\<rparr>
             in if pq_followRedirects req \<and> is_redirect (hp_statusCode r) \<and> hp_location r \<noteq> None \<and> hp_location r \<noteq> Some []
                then if MAX_REDIRECTS \<le> hop then (ws, outcome st1 PE_too_many_redirects (Some ''> 5'') None)
                     else (case pn_resolve nw (the (hp_location r)) (ps_url st) of
                             None \<Rightarrow> (ws, outcome st1 PE_invalid_url (Some ''Location'') None)
                           | Some next \<Rightarrow> let (ws', res) = probe_loop nw req opts needBody (Suc hop) (follow r next st1) in (ws @ ws', res))
                else (ws, judge nw req hop needBody r st1)))"
  by pat_completeness auto
termination by (relation "measure (\<lambda>(nw, req, opts, needBody, hop, st). MAX_REDIRECTS - hop)") auto

declare probe_loop.simps [simp del]

definition probe :: "probe_net \<Rightarrow> probe_request \<Rightarrow> probe_options \<Rightarrow> wire_request list \<times> probe_result" where
  "probe nw req opts =
     (case pn_parse nw (pq_url req) of
        None \<Rightarrow> ([], \<lparr>pr_passed = False, pr_statusCode = None, pr_responseMs = None, pr_error = Some PE_invalid_url, pr_errorDetail = None, pr_tls = None\<rparr>)
      | Some u \<Rightarrow>
          let method = toUpperCase (pq_method req);
              body = (if method \<in> set METHODS_WITH_BODY then (case pq_body req of Some b \<Rightarrow> or_null b | None \<Rightarrow> None) else None);
              needBody = (pq_expectedBodyContains req \<noteq> None \<and> pq_expectedBodyContains req \<noteq> Some [] \<and> method \<noteq> ''HEAD'')
          in probe_loop nw req opts needBody 0
               \<lparr>ps_url = u, ps_method = method, ps_headers = pq_headers req, ps_body = body, ps_tls = None, ps_statusCode = None\<rparr>)"

section \<open>Lemmas\<close>

lemma read_body_capped: "len = length got \<Longrightarrow> len < MAX_BODY_BYTES \<or> cs = [] \<Longrightarrow> len \<le> MAX_BODY_BYTES \<Longrightarrow> read_body cs len got = take MAX_BODY_BYTES (got @ concat cs)"
proof (induction cs len got rule: read_body.induct)
  case (2 c cs len got)
  show ?case
  proof (cases "len + length c \<ge> MAX_BODY_BYTES")
    case True
    then show ?thesis using 2(2,4) by (simp add: Let_def)
  next
    case False
    then have "take (MAX_BODY_BYTES - len) c = c" by simp
    then show ?thesis using 2 False by (simp add: Let_def)
  qed
qed simp

text \<open>Evaluating the assertion on what was downloaded is evaluating it on the first megabyte of the body.\<close>

lemma read_body_prefix: "read_body cs 0 [] = take MAX_BODY_BYTES (concat cs)"
  using read_body_capped[of 0 "[]" cs] by (simp add: MAX_BODY_BYTES_def)

definition sent :: "probe_net \<Rightarrow> probe_options \<Rightarrow> nat \<Rightarrow> probe_state \<Rightarrow> wire_request \<Rightarrow> bool" where
  "sent nw opts hop st w = (wq_url w = ps_url st \<and> wq_headers w = merge_headers (base_headers opts) (ps_headers st)
     \<and> url_protocol (ps_url st) \<in> {''http:'', ''https:''}
     \<and> assertLiteralTargetAllowed (url.truncate (ps_url st)) (po_allowPrivateTargets opts) = None
     \<and> connect_to (pn_lookup nw hop) (pn_all nw) (po_allowPrivateTargets opts) (url.truncate (ps_url st)) = Inr (wq_addresses w))"

definition sound_result :: "probe_request \<Rightarrow> probe_result \<Rightarrow> bool" where
  "sound_result req r = ((pr_passed r \<longleftrightarrow> pr_error r = None)
     \<and> (pr_passed r \<longrightarrow> pr_statusCode r = Some (pq_expectedStatus req) \<and> pr_responseMs r \<noteq> None))"

lemma outcome_sound [simp]: "sound_result req (outcome st code detail t)" "\<not> pr_passed (outcome st code detail t)"
  by (simp_all add: sound_result_def outcome_def)

lemma caught_sound [simp]: "sound_result req (caught nw req hop st e)" "\<not> pr_passed (caught nw req hop st e)"
  by (simp_all add: caught_def split_beta)

lemma judge_sound: "ps_statusCode st = Some (hp_statusCode r) \<Longrightarrow> sound_result req (judge nw req hop needBody r st)"
  by (simp add: judge_def) (simp add: sound_result_def)

lemma requestOnce_shape:
  assumes "requestOnce nw req opts hop u method headers body rb = (ws, x)"
  shows "(ws = [] \<and> (\<exists>e. x = fail e)) \<or> (\<exists>w. ws = [w] \<and> wq_url w = u \<and> wq_headers w = merge_headers (base_headers opts) headers
    \<and> connect_to (pn_lookup nw hop) (pn_all nw) (po_allowPrivateTargets opts) (url.truncate u) = Inr (wq_addresses w))"
  using assms by (auto simp: requestOnce_def Let_def split: sum.splits)

text \<open>One turn of the loop: it refuses the target, ends with its request, or follows a redirect.\<close>

lemma probe_loop_cases:
  obtains (refused) r where "probe_loop nw req opts nb hop st = ([], r)" "sound_result req r" "\<not> pr_passed r"
  | (final) w r where "probe_loop nw req opts nb hop st = ([w], r)" "sent nw opts hop st w" "sound_result req r"
  | (redirect) w st' where "probe_loop nw req opts nb hop st = (w # fst (probe_loop nw req opts nb (Suc hop) st'), snd (probe_loop nw req opts nb (Suc hop) st'))"
      "sent nw opts hop st w" "hop < MAX_REDIRECTS" "pq_followRedirects req"
      "ps_headers st' = (if url_origin (ps_url st') = url_origin (ps_url st) then ps_headers st else [])"
proof -
  let ?res = "probe_loop nw req opts nb hop st"
  consider (scheme) "url_protocol (ps_url st) \<notin> {''http:'', ''https:''}"
    | (literal) e where "url_protocol (ps_url st) \<in> {''http:'', ''https:''}"
        "assertLiteralTargetAllowed (url.truncate (ps_url st)) (po_allowPrivateTargets opts) = Some e"
    | (out) "url_protocol (ps_url st) \<in> {''http:'', ''https:''}"
        "assertLiteralTargetAllowed (url.truncate (ps_url st)) (po_allowPrivateTargets opts) = None" by fastforce
  then show thesis
  proof cases
    case scheme
    then show thesis by (intro refused[of "outcome st PE_invalid_url (Some (url_protocol (ps_url st))) None"]) (subst probe_loop.simps, simp_all)
  next
    case (literal e)
    then show thesis by (intro refused[of "caught nw req hop st e"]) (subst probe_loop.simps, auto)
  next
    case out
    obtain ws x where once: "requestOnce nw req opts hop (ps_url st) (ps_method st) (ps_headers st) (ps_body st) nb = (ws, x)"
      by (cases "requestOnce nw req opts hop (ps_url st) (ps_method st) (ps_headers st) (ps_body st) nb")
    show thesis
    proof (cases x)
      case (fail e)
      then have res: "?res = (ws, caught nw req hop st e)" using out once by (subst probe_loop.simps) auto
      from requestOnce_shape[OF once] show thesis
        using refused[of "caught nw req hop st e"] final[of _ "caught nw req hop st e"] res out by (auto simp: sent_def)
    next
      case (ok r)
      then obtain w where ws: "ws = [w]" and w: "sent nw opts hop st w" using requestOnce_shape[OF once] out by (auto simp: sent_def)
      define st1 where "st1 = st\<lparr>ps_tls := (case ps_tls st of None \<Rightarrow> hp_tls r | t \<Rightarrow> t), ps_statusCode := Some (hp_statusCode r)\<rparr>"
      define go where "go = (pq_followRedirects req \<and> is_redirect (hp_statusCode r) \<and> hp_location r \<noteq> None \<and> hp_location r \<noteq> Some [])"
      have res: "?res = (if go
          then if MAX_REDIRECTS \<le> hop then (ws, outcome st1 PE_too_many_redirects (Some ''> 5'') None)
               else (case pn_resolve nw (the (hp_location r)) (ps_url st) of None \<Rightarrow> (ws, outcome st1 PE_invalid_url (Some ''Location'') None)
                     | Some next \<Rightarrow> let (ws', res) = probe_loop nw req opts nb (Suc hop) (follow r next st1) in (ws @ ws', res))
          else (ws, judge nw req hop nb r st1))"
        using out once ok unfolding st1_def go_def by (subst probe_loop.simps) (auto simp: Let_def)
      have judged: "sound_result req (judge nw req hop nb r st1)" by (rule judge_sound) (simp add: st1_def)
      consider (stop) "\<not> go" | (many) "go" "MAX_REDIRECTS \<le> hop" | (bad) "go" "hop < MAX_REDIRECTS" "pn_resolve nw (the (hp_location r)) (ps_url st) = None"
        | (on) nxt where "go" "hop < MAX_REDIRECTS" "pn_resolve nw (the (hp_location r)) (ps_url st) = Some nxt"
        by (meson not_le option.exhaust)
      then show thesis
      proof cases
        case stop
        then show thesis using res ws w judged by (intro final) simp_all
      next
        case many
        then have "?res = ([w], outcome st1 PE_too_many_redirects (Some ''> 5'') None)" using res ws by simp
        from final[OF this w outcome_sound(1)] show thesis .
      next
        case bad
        then have "?res = ([w], outcome st1 PE_invalid_url (Some ''Location'') None)" using res ws by simp
        from final[OF this w outcome_sound(1)] show thesis .
      next
        case on
        have "ps_headers (follow r nxt st1) = (if url_origin (ps_url (follow r nxt st1)) = url_origin (ps_url st) then ps_headers st else [])"
          by (simp add: follow_def st1_def Let_def)
        then show thesis using on res ws w by (intro redirect) (simp_all add: split_beta go_def)
      qed
    qed
  qed
qed

definition header_safe :: "probe_request \<Rightarrow> probe_options \<Rightarrow> string \<Rightarrow> wire_request \<Rightarrow> bool" where
  "header_safe req opts orig w = (wq_headers w = base_headers opts
     \<or> wq_headers w = merge_headers (base_headers opts) (pq_headers req) \<and> url_origin (wq_url w) = orig)"

lemma probe_loop_safe:
  assumes "ps_headers st = [] \<or> ps_headers st = pq_headers req \<and> url_origin (ps_url st) = orig" and "hop \<le> MAX_REDIRECTS"
  shows "length (fst (probe_loop nw req opts nb hop st)) \<le> Suc MAX_REDIRECTS - hop \<and> sound_result req (snd (probe_loop nw req opts nb hop st))
    \<and> (\<not> pq_followRedirects req \<longrightarrow> length (fst (probe_loop nw req opts nb hop st)) \<le> 1)
    \<and> (\<forall>w \<in> set (fst (probe_loop nw req opts nb hop st)). header_safe req opts orig w \<and> (\<exists>h s. sent nw opts h s w))"
  using assms
proof (induction "MAX_REDIRECTS - hop" arbitrary: hop st rule: less_induct)
  case less
  have own: "header_safe req opts orig w" if "sent nw opts hop st w" for w
    using that less.prems(1) by (auto simp: sent_def header_safe_def merge_headers_def split_beta)
  show ?case
  proof (cases rule: probe_loop_cases[of nw req opts nb hop st, case_names refused final redirect])
    case (refused r)
    then show ?thesis by simp
  next
    case (final w r)
    then show ?thesis using own less.prems(2) by auto
  next
    case (redirect w st')
    have "ps_headers st' = [] \<or> ps_headers st' = pq_headers req \<and> url_origin (ps_url st') = orig"
      using redirect(5) less.prems(1) by auto
    moreover have "MAX_REDIRECTS - Suc hop < MAX_REDIRECTS - hop" "Suc hop \<le> MAX_REDIRECTS" using redirect(3) by simp_all
    ultimately have "length (fst (probe_loop nw req opts nb (Suc hop) st')) \<le> Suc MAX_REDIRECTS - Suc hop
      \<and> sound_result req (snd (probe_loop nw req opts nb (Suc hop) st'))
      \<and> (\<forall>w \<in> set (fst (probe_loop nw req opts nb (Suc hop) st')). header_safe req opts orig w \<and> (\<exists>h s. sent nw opts h s w))"
      using less.hyps by blast
    then show ?thesis using redirect own by auto
  qed
qed

section \<open>Properties\<close>

text \<open>C28.
  A synthetic check cannot be turned against the platform or leak what it was configured with, whatever the
  servers, the redirects and the resolver answer. It always ends, after at most six requests (one when
  redirects are not followed); unless private targets are allowed, every address it connects to, at every hop, is public; the
  configured headers, which may carry credentials, go only to the origin the check was configured for; and it
  passes only on the expected status, with a failure code in every other case.
\<close>

theorem probe_stays_safe:
  assumes "probe nw req opts = (ws, r)"
  shows "length ws \<le> 6 \<and> (\<not> pq_followRedirects req \<longrightarrow> length ws \<le> 1)
    \<and> (\<not> po_allowPrivateTargets opts \<longrightarrow> (\<forall>w \<in> set ws. \<forall>a \<in> set (wq_addresses w). isPublicAddress a))
    \<and> (\<forall>w \<in> set ws. wq_headers w \<noteq> base_headers opts
         \<longrightarrow> (\<exists>u. pn_parse nw (pq_url req) = Some u \<and> url_origin (wq_url w) = url_origin u))
    \<and> (\<forall>w \<in> set ws. url_protocol (wq_url w) \<in> {''http:'', ''https:''})
    \<and> (pr_passed r \<longleftrightarrow> pr_error r = None) \<and> (pr_passed r \<longrightarrow> pr_statusCode r = Some (pq_expectedStatus req))"
proof (cases "pn_parse nw (pq_url req)")
  case None
  then show ?thesis using assms by (auto simp: probe_def)
next
  case (Some u)
  then obtain nb st where st: "probe_loop nw req opts nb 0 st = (ws, r)" "ps_headers st = pq_headers req" "ps_url st = u"
    using assms by (auto simp: probe_def Let_def)
  have "ps_headers st = [] \<or> ps_headers st = pq_headers req \<and> url_origin (ps_url st) = url_origin u" using st(2,3) by simp
  note safe = probe_loop_safe[OF this, of 0 nw opts nb, unfolded st(1)]
  have "isPublicAddress a" if "w \<in> set ws" "a \<in> set (wq_addresses w)" "\<not> po_allowPrivateTargets opts" for w a
    using that safe connect_public by (fastforce simp: sent_def)
  then show ?thesis using safe Some by (fastforce simp: MAX_REDIRECTS_def sound_result_def header_safe_def sent_def)
qed

text \<open>A server that redirects to another origin: the second request carries no configured header.\<close>

definition sample_net :: probe_net where
  "sample_net = \<lparr>pn_parse = (\<lambda>s. Some \<lparr>url_protocol = ''https:'', url_hostname = ''shop'', url_origin = ''https://shop''\<rparr>),
     pn_resolve = (\<lambda>s u. Some \<lparr>url_protocol = ''https:'', url_hostname = ''cdn'', url_origin = ''https://cdn''\<rparr>),
     pn_lookup = (\<lambda>_ _. Inr [''8.8.8.8'']), pn_all = True,
     pn_exchange = (\<lambda>hop _. Inr \<lparr>sv_statusCode = (if hop = 0 then 302 else 200), sv_location = Some ''https://cdn/'', sv_chunks = [], sv_certificate = None\<rparr>),
     pn_utf8 = (\<lambda>_. []), pn_elapsed = (\<lambda>_. 12), pn_aborted = (\<lambda>_. False)\<rparr>"

definition sample_probe :: probe_request where
  "sample_probe = \<lparr>pq_url = ''https://shop/'', pq_method = ''get'', pq_headers = [(''authorization'', ''s3cret'')], pq_body = None, pq_expectedStatus = 200,
     pq_expectedBodyContains = None, pq_followRedirects = True, pq_verifySsl = True, pq_timeoutMs = 10000\<rparr>"

definition sample_options :: probe_options where
  "sample_options = \<lparr>po_allowPrivateTargets = False, po_userAgent = None\<rparr>"

theorem probe_stays_safe_witness:
  "\<exists>ws r. probe sample_net sample_probe sample_options = (ws, r) \<and> length ws = 2 \<and> length ws \<le> 6 \<and> pr_passed r \<and> pr_statusCode r = Some 200
    \<and> map wq_headers ws = [base_headers sample_options @ [(''authorization'', ''s3cret'')], base_headers sample_options]"
proof -
  have names: "isIP ''shop'' = 0" "isIP ''cdn'' = 0" by (simp_all add: isIP_def parse_ip_def parse_simps)
  have quad: "''8.8.8.8'' = dotted 8 8 8 8" by code_simp
  have pub: "isPublicAddress ''8.8.8.8''" unfolding quad by (simp add: public_quad special_use_v4_def)
  have up: "toUpperCase ''get'' = ''GET''" by code_simp
  note unfold = probe_def probe_loop.simps sample_net_def sample_probe_def sample_options_def requestOnce_def connect_to_def
    assertLiteralTargetAllowed_def hostnameOf_def guardedLookup_def is_redirect_def follow_def judge_def MAX_REDIRECTS_def url.truncate_def
    merge_headers_def base_headers_def METHODS_WITH_BODY_def certificateOf_def
  obtain ws r where run: "probe sample_net sample_probe sample_options = (ws, r)" by (cases "probe sample_net sample_probe sample_options")
  have "length ws = 2 \<and> map wq_headers ws = [base_headers sample_options @ [(''authorization'', ''s3cret'')], base_headers sample_options] \<and> pr_error r = None"
    using run names pub up by (auto simp: unfold Let_def)
  then show ?thesis using probe_stays_safe[OF run] run by (auto simp: sample_probe_def)
qed

end
