(* ===== verification/Secrets.thy ===== *)
theory Secrets
  imports Signature
begin

text \<open>
  Encryption at rest, \<open>src/lib/crypto.ts\<close>: the textual format \<open>v1:<iv>:<tag>:<ciphertext>\<close> around
  AES-256-GCM. The cipher is a parameter (\<open>gcm\<close>): \<open>seal\<close> gives ciphertext and tag, \<open>unseal\<close> is \<open>None\<close>
  when \<open>final()\<close> throws. Random bytes are arguments; an exception is \<open>None\<close>. Bytes are numbers below 256.
\<close>

section \<open>Base64url\<close>

fun b64_groups :: "nat list \<Rightarrow> nat list" where
  "b64_groups (a # b # c # r) = [a div 4, a mod 4 * 16 + b div 16, b mod 16 * 4 + c div 64, c mod 64] @ b64_groups r"
| "b64_groups [a, b] = [a div 4, a mod 4 * 16 + b div 16, b mod 16 * 4]"
| "b64_groups [a] = [a div 4, a mod 4 * 16]"
| "b64_groups [] = []"

fun b64_ungroup :: "nat list \<Rightarrow> nat list" where
  "b64_ungroup (p # q # r # s # t) = [p * 4 + q div 16, q mod 16 * 16 + r div 4, r mod 4 * 64 + s] @ b64_ungroup t"
| "b64_ungroup [p, q, r] = [p * 4 + q div 16, q mod 16 * 16 + r div 4]"
| "b64_ungroup [p, q] = [p * 4 + q div 16]"
| "b64_ungroup _ = []"

definition b64_char :: "nat \<Rightarrow> char" where
  "b64_char n = (if n < 26 then char_of (65 + n) else if n < 52 then char_of (71 + n) else if n < 62 then char_of (n - 4)
     else if n = 62 then CHR ''-'' else CHR ''_'')"

definition b64_value :: "char \<Rightarrow> nat option" where
  "b64_value c = (let n = code_unit c in
     if 65 \<le> n \<and> n \<le> 90 then Some (n - 65) else if 97 \<le> n \<and> n \<le> 122 then Some (n - 71)
     else if 48 \<le> n \<and> n \<le> 57 then Some (n + 4) else if n = 43 \<or> n = 45 then Some 62
     else if n = 47 \<or> n = 95 then Some 63 else None)"

text \<open>The decoder of \<open>Buffer\<close> ignores what is not in the alphabet and accepts both variants of it.\<close>

definition toBase64url :: "nat list \<Rightarrow> string" where
  "toBase64url bytes = map b64_char (b64_groups bytes)"

definition fromBase64url :: "string \<Rightarrow> nat list" where
  "fromBase64url s = b64_ungroup (List.map_filter b64_value (takeWhile (\<lambda>c. c \<noteq> CHR ''='') s))"

section \<open>Secrets\<close>

record gcm =
  seal :: "nat list \<Rightarrow> nat list \<Rightarrow> string \<Rightarrow> string \<Rightarrow> nat list \<times> nat list"
  unseal :: "nat list \<Rightarrow> nat list \<Rightarrow> string \<Rightarrow> nat list \<Rightarrow> nat list \<Rightarrow> string option"

definition VERSION :: string where "VERSION = ''v1''"
definition IV_BYTES :: nat where "IV_BYTES = 12"

definition encryptSecret :: "gcm \<Rightarrow> nat list \<Rightarrow> nat list \<Rightarrow> string \<Rightarrow> string \<Rightarrow> string" where
  "encryptSecret c key iv plaintext aad =
     (let (ciphertext, tag) = seal c key iv aad plaintext
      in str_join '':'' [VERSION, toBase64url iv, toBase64url tag, toBase64url ciphertext])"

definition decryptSecret :: "gcm \<Rightarrow> nat list \<Rightarrow> string \<Rightarrow> string \<Rightarrow> string option" where
  "decryptSecret c key payload aad =
     (case split_on (CHR '':'') payload of
        [version, iv, tag, ciphertext] \<Rightarrow>
          if version \<noteq> VERSION \<or> iv = [] \<or> tag = [] then None
          else unseal c key (fromBase64url iv) aad (fromBase64url tag) (fromBase64url ciphertext)
      | _ \<Rightarrow> None)"

definition hostSecretAad :: "string \<Rightarrow> string" where
  "hostSecretAad keyId = ''host:'' @ keyId"

definition generateAgentCredentials :: "nat list \<Rightarrow> nat list \<Rightarrow> string \<times> string" where
  "generateAgentCredentials random18 random32 = (''ikm_'' @ toBase64url random18, toBase64url random32)"

text \<open>What is used of the cipher: decrypting under the same key, vector, data and tag restores the text, and tags are bytes.\<close>

definition gcm_law :: "gcm \<Rightarrow> bool" where
  "gcm_law c \<longleftrightarrow> (\<forall>key iv aad p ct tag. seal c key iv aad p = (ct, tag) \<longrightarrow>
     unseal c key iv aad tag ct = Some p \<and> tag \<noteq> [] \<and> list_all (\<lambda>b. b < 256) tag \<and> list_all (\<lambda>b. b < 256) ct)"

section \<open>Lemmas\<close>

lemma byte_parts:
  fixes b :: nat
  assumes "b < 256"
  shows "b div 4 < 64" and "b div 16 < 16" and "b div 64 < 4"
  using assms by (auto intro: less_mult_imp_div_less)

lemma b64_ungroup_groups: "list_all (\<lambda>b. b < 256) bs \<Longrightarrow> b64_ungroup (b64_groups bs) = bs"
proof (induction bs rule: b64_groups.induct)
  case (1 a b c r)
  then show ?case using byte_parts(2)[of b] byte_parts(3)[of c] by simp
next
  case (2 a b)
  then show ?case using byte_parts(2)[of b] by simp
qed simp_all

lemma b64_groups_small: "list_all (\<lambda>b. b < 256) bs \<Longrightarrow> list_all (\<lambda>n. n < 64) (b64_groups bs)"
proof (induction bs rule: b64_groups.induct)
  case (1 a b c r)
  then have "a div 4 < 64" "b div 16 < 16" "c div 64 < 4" using byte_parts by simp_all
  moreover have "a mod 4 < 4" "b mod 16 < 16" by simp_all
  ultimately have "a mod 4 * 16 + b div 16 < 64" "b mod 16 * 4 + c div 64 < 64" by linarith+
  then show ?case using 1 \<open>a div 4 < 64\<close> by simp
next
  case (2 a b)
  then have "a div 4 < 64" "b div 16 < 16" using byte_parts by simp_all
  moreover have "a mod 4 < 4" "b mod 16 < 16" by simp_all
  ultimately have "a mod 4 * 16 + b div 16 < 64" "b mod 16 * 4 < 64" by linarith+
  then show ?case using \<open>a div 4 < 64\<close> by simp
next
  case (3 a)
  have "a mod 4 < 4" by simp
  then have "a mod 4 * 16 < 64" by linarith
  then show ?case using 3 byte_parts by simp
qed simp

lemma b64_value_char: "n < 64 \<Longrightarrow> b64_value (b64_char n) = Some n"
proof -
  assume n: "n < 64"
  have u: "code_unit (char_of k) = k" if "k < 256" for k :: nat using that by (simp add: code_unit_def)
  consider "n < 26" | "26 \<le> n" "n < 52" | "52 \<le> n" "n < 62" | "n = 62" | "n = 63" using n by linarith
  then show ?thesis
    by cases (auto simp: b64_char_def b64_value_def u Let_def code_unit_def)
qed

lemma b64_char_plain: "n < 64 \<Longrightarrow> b64_char n \<noteq> CHR '':'' \<and> b64_char n \<noteq> CHR ''=''"
proof -
  assume "n < 64"
  then have "b64_value (b64_char n) \<noteq> None" by (simp add: b64_value_char)
  then show ?thesis by (auto simp: b64_value_def code_unit_def)
qed

lemma fromBase64url_to: "list_all (\<lambda>b. b < 256) bs \<Longrightarrow> fromBase64url (toBase64url bs) = bs"
proof -
  assume bytes: "list_all (\<lambda>b. b < 256) bs"
  from b64_groups_small[OF bytes] have g: "list_all (\<lambda>n. n < 64) (b64_groups bs)" .
  then have "takeWhile (\<lambda>c. c \<noteq> CHR ''='') (map b64_char (b64_groups bs)) = map b64_char (b64_groups bs)"
    using b64_char_plain by (auto simp: takeWhile_eq_all_conv list_all_iff)
  moreover have "List.map_filter b64_value (map b64_char ns) = ns" if "list_all (\<lambda>n. n < 64) ns" for ns
    using that by (induction ns) (auto simp: List.map_filter_def b64_value_char)
  ultimately show ?thesis using g b64_ungroup_groups[OF bytes] by (simp only: fromBase64url_def toBase64url_def)
qed

lemma toBase64url_plain: "list_all (\<lambda>b. b < 256) bs \<Longrightarrow> list_all (\<lambda>c. c \<noteq> CHR '':'') (toBase64url bs)"
  using b64_groups_small b64_char_plain by (fastforce simp: toBase64url_def list_all_iff)

lemma toBase64url_nonempty: "bs \<noteq> [] \<Longrightarrow> toBase64url bs \<noteq> []"
  by (cases bs rule: b64_groups.cases) (simp_all add: toBase64url_def)

lemma decrypt_encrypt:
  assumes "gcm_law c" and "iv \<noteq> []" and "list_all (\<lambda>b. b < 256) iv"
  shows "decryptSecret c key (encryptSecret c key iv plaintext aad) aad' =
    (let (ct, tag) = seal c key iv aad plaintext in unseal c key iv aad' tag ct)"
proof -
  obtain ct tag where s: "seal c key iv aad plaintext = (ct, tag)" by (cases "seal c key iv aad plaintext")
  with assms(1) have tag: "tag \<noteq> []" "list_all (\<lambda>b. b < 256) tag" "list_all (\<lambda>b. b < 256) ct" unfolding gcm_law_def by blast+
  have "split_on (CHR '':'') (str_join '':'' [VERSION, toBase64url iv, toBase64url tag, toBase64url ct])
      = [VERSION, toBase64url iv, toBase64url tag, toBase64url ct]"
    using tag assms(3) by (intro split_on_join) (auto simp: toBase64url_plain VERSION_def)
  then show ?thesis
    using tag assms(2,3) s by (simp add: encryptSecret_def decryptSecret_def fromBase64url_to toBase64url_nonempty)
qed

lemma decrypt_own:
  assumes "gcm_law c" and "length iv = IV_BYTES" and "list_all (\<lambda>b. b < 256) iv"
  shows "decryptSecret c key (encryptSecret c key iv plaintext aad) aad = Some plaintext"
proof -
  have "iv \<noteq> []" using assms(2) by (auto simp: IV_BYTES_def)
  from decrypt_encrypt[OF assms(1) this assms(3)] assms(1) show ?thesis
    unfolding gcm_law_def by (metis (no_types, lifting) case_prod_conv old.prod.exhaust)
qed

section \<open>Properties\<close>

text \<open>A secret that was encrypted is restored by decrypting it with the same key and the same owner:
  the textual format loses nothing, whatever the secret, the owner and the initialization vector. A
  payload that does not have exactly four parts, or another version, is refused.
\<close>

lemma secret_restored:
  assumes "gcm_law c" and "length iv = IV_BYTES" and "list_all (\<lambda>b. b < 256) iv"
  shows "decryptSecret c key (encryptSecret c key iv plaintext aad) aad = Some plaintext
    \<and> (length (split_on (CHR '':'') payload) \<noteq> 4 \<or> hd (split_on (CHR '':'') payload) \<noteq> ''v1'' \<longrightarrow> decryptSecret c key payload aad = None)"
proof -
  note decrypt_own[OF assms, of key plaintext aad]
  moreover have "length (split_on (CHR '':'') payload) \<noteq> 4 \<or> hd (split_on (CHR '':'') payload) \<noteq> ''v1'' \<Longrightarrow> decryptSecret c key payload aad = None"
    by (auto simp: decryptSecret_def VERSION_def split: list.split)
  ultimately show ?thesis by blast
qed

text \<open>A cipher with the documented law: the text in the clear, the tag the number of the key's bytes.\<close>

definition toy_gcm :: gcm where
  "toy_gcm = \<lparr>seal = (\<lambda>key iv aad p. (map of_char p, [length key mod 256])),
     unseal = (\<lambda>key iv aad tag ct. if tag = [length key mod 256] then Some (map char_of ct) else None)\<rparr>"

lemma toy_gcm_law: "gcm_law toy_gcm"
  by (auto simp: gcm_law_def toy_gcm_def list_all_iff comp_def)

lemma secret_restored_witness:
  "decryptSecret toy_gcm [1, 2, 3] (encryptSecret toy_gcm [1, 2, 3] [0, 1, 2, 3, 4, 5, 6, 7, 8, 9, 10, 255] ''s3cret'' ''host:ikm_1'') ''host:ikm_1'' = Some ''s3cret''
   \<and> decryptSecret toy_gcm [1, 2, 3] ''v2:a:b:c'' ''host:ikm_1'' = None"
  using secret_restored[OF toy_gcm_law, of "[0, 1, 2, 3, 4, 5, 6, 7, 8, 9, 10, 255]" "[1, 2, 3]" "''s3cret''" "''host:ikm_1''" "''v2:a:b:c''"]
  by (simp add: IV_BYTES_def)

end
