(* ===== verification/Agents.thy ===== *)
theory Agents
  imports Secrets Audit_Trail Interfaces Samples
begin

text \<open>
  Agents and their credentials: \<open>src/modules/servers/hosts.ts\<close> (registering a host, rotating its secret,
  switching it off) and \<open>src/lib/telemetry/auth.ts\<close> (authenticating a signed request). An HTTP error is its
  status and machine-readable code; the message for humans is left out. \<open>Unexpected\<close> is any other
  exception (a stored secret that does not decrypt), which the routes answer with status 500.
  \<open>orderBy hostname\<close> sorts by the collation of the database, a parameter.
\<close>

section \<open>Hosts\<close>

definition SECRET_ROTATION_GRACE_HOURS :: int where "SECRET_ROTATION_GRACE_HOURS = 24"

definition host_char :: "char \<Rightarrow> bool" where
  "host_char c = (let n = code_unit c in (48 \<le> n \<and> n \<le> 57) \<or> (65 \<le> n \<and> n \<le> 90) \<or> (97 \<le> n \<and> n \<le> 122))"

text \<open>\<open>/^[A-Za-z0-9][A-Za-z0-9._-]{0,252}$/\<close>\<close>

definition HOSTNAME :: "string \<Rightarrow> bool" where
  "HOSTNAME s = (case s of [] \<Rightarrow> False
     | c # cs \<Rightarrow> host_char c \<and> length cs \<le> 252 \<and> list_all (\<lambda>c. host_char c \<or> c = CHR ''.'' \<or> c = CHR ''_'' \<or> c = CHR ''-'') cs)"

record host_view =
  hv_host :: host_row
  hv_rotationPending :: bool

datatype host_error = HE_forbidden | HE_invalid_hostname | HE_hostname_taken | HE_not_found

definition listHosts :: "(string \<Rightarrow> real) \<Rightarrow> actor \<Rightarrow> ms \<Rightarrow> db \<Rightarrow> (host_view list, host_error) result" where
  "listHosts collate a now d =
     (if \<not> can (Some (a_role a)) hosts_read then fail HE_forbidden
      else ok (map (\<lambda>h. \<lparr>hv_host = h, hv_rotationPending = (case h_previousSecretExpiresAt h of None \<Rightarrow> False | Some t \<Rightarrow> t > now)\<rparr>)
        (order_asc (\<lambda>h. collate (h_hostname h)) (find_many (\<lambda>h. h_orgId h = a_orgId a) (monitoredHosts d)))))"

record host_credentials =
  hc_hostId :: ident
  hc_keyId :: string
  hc_secret :: string

text \<open>The randomness of one call: 18 bytes of the key id, 32 of the secret, 12 of the initialization vector.\<close>

record agent_random =
  rnd_key :: "nat list"
  rnd_secret :: "nat list"
  rnd_iv :: "nat list"

definition new_host :: "gcm \<Rightarrow> nat list \<Rightarrow> agent_random \<Rightarrow> dbgen \<Rightarrow> actor \<Rightarrow> string \<Rightarrow> string option \<Rightarrow> host_row" where
  "new_host c key rnd g a hostname displayName =
     (let (keyId, secret) = generateAgentCredentials (rnd_key rnd) (rnd_secret rnd)
      in \<lparr>h_id = cuid g 0, h_orgId = a_orgId a, h_hostname = hostname,
          h_displayName = (case displayName of None \<Rightarrow> None | Some n \<Rightarrow> or_null (take 120 (js_trim n))), h_enabled = True,
          h_keyId = keyId, h_hmacSecretEnc = encryptSecret c key (rnd_iv rnd) secret (hostSecretAad keyId),
          h_secretRotatedAt = clock g, h_previousHmacSecretEnc = None, h_previousSecretExpiresAt = None,
          h_osFamily = OTHER, h_status = UNKNOWN, h_lastSeenAt = None, h_remediationMode = None, h_remediationAllowlist = [],
          h_agentVersion = None, h_firstSeenAt = None, h_createdAt = clock g, h_inventory = no_inventory\<rparr>)"

definition registerHost ::
  "gcm \<Rightarrow> nat list \<Rightarrow> agent_random \<Rightarrow> dbgen \<Rightarrow> actor \<Rightarrow> string \<Rightarrow> string option \<Rightarrow> db \<Rightarrow> db \<times> (host_credentials, host_error) result" where
  "registerHost c key rnd g a rawName displayName d =
     (if \<not> can (Some (a_role a)) hosts_write then (d, fail HE_forbidden)
      else
        let hostname = js_trim rawName;
            (keyId, secret) = generateAgentCredentials (rnd_key rnd) (rnd_secret rnd)
        in if \<not> HOSTNAME hostname then (d, fail HE_invalid_hostname)
           else if find_first (\<lambda>h. h_orgId h = a_orgId a \<and> h_hostname h = hostname) (monitoredHosts d) \<noteq> None
           then (d, fail HE_hostname_taken)
           else
             let host = new_host c key rnd g a hostname displayName
             in (recordAudit g 1 (actor_entry ''host.registered'' a ''host'' (h_id host) (Some (JObj [(''hostname'', JStr hostname)])))
                   (d\<lparr>monitoredHosts := insert_row host (monitoredHosts d)\<rparr>),
                 ok \<lparr>hc_hostId = h_id host, hc_keyId = keyId, hc_secret = secret\<rparr>))"

definition rotate_upd :: "string \<Rightarrow> string \<Rightarrow> ms \<Rightarrow> host_row \<Rightarrow> host_row" where
  "rotate_upd oldEnc newEnc now h = h\<lparr>h_previousHmacSecretEnc := Some oldEnc,
     h_previousSecretExpiresAt := Some (now + SECRET_ROTATION_GRACE_HOURS * 3600 * 1000),
     h_hmacSecretEnc := newEnc, h_secretRotatedAt := now\<rparr>"

definition rotateHostSecret ::
  "gcm \<Rightarrow> nat list \<Rightarrow> agent_random \<Rightarrow> dbgen \<Rightarrow> actor \<Rightarrow> ident \<Rightarrow> ms \<Rightarrow> db \<Rightarrow> db \<times> (host_credentials, host_error) result" where
  "rotateHostSecret c key rnd g a hostId now d =
     (if \<not> can (Some (a_role a)) hosts_rotate_secret then (d, fail HE_forbidden)
      else case find_first (\<lambda>h. h_id h = hostId \<and> h_orgId h = a_orgId a) (monitoredHosts d) of
        None \<Rightarrow> (d, fail HE_not_found)
      | Some host \<Rightarrow>
          let secret = snd (generateAgentCredentials (rnd_key rnd) (rnd_secret rnd));
              enc = encryptSecret c key (rnd_iv rnd) secret (hostSecretAad (h_keyId host))
          in (recordAudit g 0 (actor_entry ''host.secret_rotated'' a ''host'' (h_id host)
                (Some (JObj [(''hostname'', JStr (h_hostname host)), (''graceHours'', JNum (of_int SECRET_ROTATION_GRACE_HOURS))])))
                (d\<lparr>monitoredHosts := update_many (\<lambda>h. h_id h = h_id host) (rotate_upd (h_hmacSecretEnc host) enc now) (monitoredHosts d)\<rparr>),
              ok \<lparr>hc_hostId = h_id host, hc_keyId = h_keyId host, hc_secret = secret\<rparr>))"

definition setHostEnabled :: "dbgen \<Rightarrow> actor \<Rightarrow> ident \<Rightarrow> bool \<Rightarrow> db \<Rightarrow> db \<times> (unit, host_error) result" where
  "setHostEnabled g a hostId enabled d =
     (if \<not> can (Some (a_role a)) hosts_write then (d, fail HE_forbidden)
      else
        let mine = (\<lambda>h. h_id h = hostId \<and> h_orgId h = a_orgId a);
            d1 = d\<lparr>monitoredHosts := update_many mine (\<lambda>h. h\<lparr>h_enabled := enabled\<rparr>) (monitoredHosts d)\<rparr>
        in if count_rows mine (monitoredHosts d) \<noteq> 1 then (d1, fail HE_not_found)
           else (recordAudit g 0 (actor_entry (if enabled then ''host.enabled'' else ''host.disabled'') a ''host'' hostId None) d1, ok ()))"

section \<open>Authentication\<close>

datatype telemetry_exn = Http nat string | Unexpected

record agent =
  ag_hostId :: ident
  ag_orgId :: ident
  ag_hostname :: string
  ag_keyId :: string
  ag_firstSeenAt :: "ms option"
  ag_responseSecrets :: "string list"

record auth_input =
  ai_keyId :: "string option"
  ai_signatureHeader :: "string option"
  ai_rawBody :: string
  ai_nowMs :: ms
  ai_maxSkewSeconds :: int

definition DUMMY_SECRET :: string where "DUMMY_SECRET = ''ikelyane-dummy-secret-for-constant-work''"

definition INVALID_SIGNATURE :: telemetry_exn where "INVALID_SIGNATURE = Http 401 ''invalid_signature''"

definition previous_valid :: "host_row \<Rightarrow> ms \<Rightarrow> string option" where
  "previous_valid h now = (case (truthy (h_previousHmacSecretEnc h), h_previousSecretExpiresAt h) of
     (Some enc, Some t) \<Rightarrow> if t > now then Some enc else None | _ \<Rightarrow> None)"

text \<open>The secrets in force; \<open>None\<close> when one of them does not decrypt.\<close>

definition host_secrets :: "gcm \<Rightarrow> nat list \<Rightarrow> host_row \<Rightarrow> ms \<Rightarrow> string list option" where
  "host_secrets c key h now =
     (case decryptSecret c key (h_hmacSecretEnc h) (hostSecretAad (h_keyId h)) of
        None \<Rightarrow> None
      | Some s \<Rightarrow> (case previous_valid h now of
            None \<Rightarrow> Some [s]
          | Some enc \<Rightarrow> map_option (\<lambda>old. [s, old]) (decryptSecret c key enc (hostSecretAad (h_keyId h)))))"

definition check_host :: "gcm \<Rightarrow> nat list \<Rightarrow> (string \<Rightarrow> string \<Rightarrow> string) \<Rightarrow> host_row \<Rightarrow> parsed_signature \<Rightarrow> auth_input \<Rightarrow> (agent, telemetry_exn) result" where
  "check_host c key hmac h p inp =
     (case host_secrets c key h (ai_nowMs inp) of
        None \<Rightarrow> fail Unexpected
      | Some secrets \<Rightarrow>
          (case verifySignature hmac secrets p (ai_rawBody inp) of
             None \<Rightarrow> fail Unexpected
           | Some valid \<Rightarrow>
               if \<not> valid then fail INVALID_SIGNATURE
               else if \<not> h_enabled h then fail (Http 403 ''host_disabled'')
               else ok \<lparr>ag_hostId = h_id h, ag_orgId = h_orgId h, ag_hostname = h_hostname h, ag_keyId = h_keyId h,
                        ag_firstSeenAt = h_firstSeenAt h, ag_responseSecrets = secrets\<rparr>))"

definition authenticateAgent :: "gcm \<Rightarrow> nat list \<Rightarrow> (string \<Rightarrow> string \<Rightarrow> string) \<Rightarrow> auth_input \<Rightarrow> db \<Rightarrow> (agent, telemetry_exn) result" where
  "authenticateAgent c key hmac inp d =
     (case truthy (ai_keyId inp) of
        None \<Rightarrow> fail (Http 401 ''missing_key_id'')
      | Some keyId \<Rightarrow>
          if truthy (ai_signatureHeader inp) = None then fail (Http 401 ''missing_signature'')
          else (case parseSignatureHeader (ai_signatureHeader inp) of
              None \<Rightarrow> fail (Http 401 ''malformed_signature'')
            | Some p \<Rightarrow>
                if \<not> isTimestampFresh (ps_timestamp p) (ai_nowMs inp) (ai_maxSkewSeconds inp) then fail (Http 401 ''timestamp_out_of_tolerance'')
                else (case find_first (\<lambda>h. h_keyId h = keyId) (monitoredHosts d) of
                    None \<Rightarrow> if verifySignature hmac [DUMMY_SECRET] p (ai_rawBody inp) = None then fail Unexpected else fail INVALID_SIGNATURE
                  | Some h \<Rightarrow> check_host c key hmac h p inp)))"

section \<open>Lemmas\<close>

lemma signature_parts_hex:
  "signature_parts parts t sigs = Some (t', sigs') \<Longrightarrow> list_all HEX_SHA256 sigs \<Longrightarrow> list_all HEX_SHA256 sigs'"
  by (induction parts t sigs rule: signature_parts.induct)
     (auto simp: Let_def split: option.splits if_splits prod.splits)

lemma parsed_hex: "parseSignatureHeader h = Some p \<Longrightarrow> list_all HEX_SHA256 (ps_signatures p)"
  using signature_parts_hex[of _ None "[]"] by (auto simp: parseSignatureHeader_def split: option.splits if_splits prod.splits)

text \<open>Verification never raises on a header that was parsed.\<close>

lemma verify_parsed:
  assumes "hex_digests hmac" and "parseSignatureHeader h = Some p"
  shows "verifySignature hmac secrets p body
    = Some (\<exists>s \<in> set secrets. computeSignature hmac s (ps_timestamp p) body \<in> set (ps_signatures p))"
  by (rule verifySignature_iff[OF assms(1) parsed_hex[OF assms(2)]])

definition request_signed :: "(string \<Rightarrow> string \<Rightarrow> string) \<Rightarrow> string \<Rightarrow> parsed_signature \<Rightarrow> auth_input \<Rightarrow> bool" where
  "request_signed hmac secret p inp = (computeSignature hmac secret (ps_timestamp p) (ai_rawBody inp) \<in> set (ps_signatures p))"

text \<open>A well-formed request reaches the host lookup.\<close>

definition well_formed_request :: "auth_input \<Rightarrow> string \<Rightarrow> parsed_signature \<Rightarrow> bool" where
  "well_formed_request inp keyId p = (truthy (ai_keyId inp) = Some keyId \<and> parseSignatureHeader (ai_signatureHeader inp) = Some p
     \<and> isTimestampFresh (ps_timestamp p) (ai_nowMs inp) (ai_maxSkewSeconds inp))"

lemma parsed_header_present: "parseSignatureHeader h = Some p \<Longrightarrow> truthy h \<noteq> None"
  by (cases "truthy h") (auto simp: parseSignatureHeader_def)

lemma authenticate_cases:
  assumes "hex_digests hmac"
  obtains (early) code where "authenticateAgent c key hmac inp d = fail (Http 401 code)" "\<not> (\<exists>keyId p. well_formed_request inp keyId p)"
  | (unknown) keyId p where "well_formed_request inp keyId p" "find_first (\<lambda>h. h_keyId h = keyId) (monitoredHosts d) = None"
      "authenticateAgent c key hmac inp d = fail INVALID_SIGNATURE"
  | (known) keyId p h where "well_formed_request inp keyId p" "find_first (\<lambda>h. h_keyId h = keyId) (monitoredHosts d) = Some h"
      "authenticateAgent c key hmac inp d = check_host c key hmac h p inp"
proof (cases "\<exists>keyId p. well_formed_request inp keyId p")
  case True
  then obtain keyId p where w: "well_formed_request inp keyId p" by blast
  then have a: "authenticateAgent c key hmac inp d = (case find_first (\<lambda>h. h_keyId h = keyId) (monitoredHosts d) of
      None \<Rightarrow> fail INVALID_SIGNATURE | Some h \<Rightarrow> check_host c key hmac h p inp)"
    using verify_parsed[OF assms, of "ai_signatureHeader inp" p] parsed_header_present[of "ai_signatureHeader inp" p]
    by (auto simp: authenticateAgent_def well_formed_request_def split: option.split)
  show thesis
  proof (cases "find_first (\<lambda>h. h_keyId h = keyId) (monitoredHosts d)")
    case None
    with w a unknown show thesis by simp
  next
    case (Some h)
    with w a known show thesis by simp
  qed
next
  case False
  then have "\<exists>code. authenticateAgent c key hmac inp d = fail (Http 401 code)"
    by (auto simp: authenticateAgent_def well_formed_request_def split: option.split)
  with False early show thesis by blast
qed

lemma check_host_result:
  assumes "hex_digests hmac" and "well_formed_request inp keyId p"
  shows "check_host c key hmac h p inp = (case host_secrets c key h (ai_nowMs inp) of
      None \<Rightarrow> fail Unexpected
    | Some secrets \<Rightarrow> if \<not> (\<exists>s \<in> set secrets. request_signed hmac s p inp) then fail INVALID_SIGNATURE
        else if \<not> h_enabled h then fail (Http 403 ''host_disabled'')
        else ok \<lparr>ag_hostId = h_id h, ag_orgId = h_orgId h, ag_hostname = h_hostname h, ag_keyId = h_keyId h,
                 ag_firstSeenAt = h_firstSeenAt h, ag_responseSecrets = secrets\<rparr>)"
  using verify_parsed[OF assms(1)] assms(2)
  by (auto simp: check_host_def request_signed_def well_formed_request_def split: option.split)

lemma authenticate_known:
  assumes "hex_digests hmac" and "well_formed_request inp keyId p"
    and "find_first (\<lambda>h. h_keyId h = keyId) (monitoredHosts d) = Some h"
  shows "authenticateAgent c key hmac inp d = check_host c key hmac h p inp"
  using assms(2,3) parsed_header_present[of "ai_signatureHeader inp" p] by (auto simp: authenticateAgent_def well_formed_request_def)


text \<open>Looking a host up by its key after a rotation.\<close>

lemma rotate_upd_key [simp]: "h_keyId (rotate_upd old new now h) = h_keyId h" "h_id (rotate_upd old new now h) = h_id h"
    "h_enabled (rotate_upd old new now h) = h_enabled h"
  by (simp_all add: rotate_upd_def)

interpretation host_keys: keyed_update h_keyId "\<lambda>(old, new, now). rotate_upd old new now"
  by unfold_locales (simp add: split_beta)

lemma encrypt_nonempty: "encryptSecret c key iv s aad \<noteq> []"
  by (simp add: encryptSecret_def VERSION_def split_beta)

lemma rotated_secrets:
  assumes "gcm_law c" and "length (rnd_iv rnd) = IV_BYTES" and "list_all (\<lambda>b. b < 256) (rnd_iv rnd)"
    and "decryptSecret c key (h_hmacSecretEnc h) (hostSecretAad (h_keyId h)) = Some old"
  shows "host_secrets c key (rotate_upd (h_hmacSecretEnc h) (encryptSecret c key (rnd_iv rnd) secret (hostSecretAad (h_keyId h))) t h) now
    = Some (secret # (if now < t + 24 * 3600 * 1000 then [old] else []))"
proof -
  note new = decrypt_own[OF assms(1-3), of key secret "hostSecretAad (h_keyId h)"]
  have "h_hmacSecretEnc h \<noteq> []" using assms(4) by (auto simp: decryptSecret_def)
  then show ?thesis
    using new assms(4) by (simp add: host_secrets_def previous_valid_def rotate_upd_def truthy_def or_null_def SECRET_ROTATION_GRACE_HOURS_def)
qed

text \<open>Rotating a host's secret opens no gap and leaves no old key behind: after a rotation at time \<open>t\<close> a
  well-formed request of the host is accepted exactly when the host is enabled and the request is signed
  with the new secret or, strictly before \<open>t\<close> plus 24 hours, with the one that was current before.
\<close>

lemma rotation_grace_exact:
  assumes "gcm_law c" and "hex_digests hmac" and "length (rnd_iv rnd) = IV_BYTES" and "list_all (\<lambda>b. b < 256) (rnd_iv rnd)"
    and "distinct (map h_keyId (monitoredHosts d))"
    and "rotateHostSecret c key rnd g a hostId t d = (d', ok creds)"
    and "find_first (\<lambda>h. h_id h = hostId \<and> h_orgId h = a_orgId a) (monitoredHosts d) = Some h"
    and "decryptSecret c key (h_hmacSecretEnc h) (hostSecretAad (h_keyId h)) = Some old"
    and "well_formed_request inp (hc_keyId creds) p"
  shows "(\<exists>ag. authenticateAgent c key hmac inp d' = ok ag)
    \<longleftrightarrow> h_enabled h \<and> (request_signed hmac (hc_secret creds) p inp
          \<or> ai_nowMs inp < t + 24 * 3600 * 1000 \<and> request_signed hmac old p inp)"
proof -
  let ?enc = "encryptSecret c key (rnd_iv rnd) (hc_secret creds) (hostSecretAad (h_keyId h))"
  let ?h' = "rotate_upd (h_hmacSecretEnc h) ?enc t h"
  have h: "h \<in> set (monitoredHosts d)" "h_id h = hostId" using find_first_SomeD[OF assms(7)] by simp_all
  have creds: "hc_keyId creds = h_keyId h" "hc_secret creds = snd (generateAgentCredentials (rnd_key rnd) (rnd_secret rnd))"
    and d': "monitoredHosts d' = update_many (\<lambda>x. h_id x = h_id h) (rotate_upd (h_hmacSecretEnc h) ?enc t) (monitoredHosts d)"
    using assms(6,7) by (auto simp: rotateHostSecret_def Let_def split: if_splits)
  have "find_first (\<lambda>x. h_keyId x = h_keyId h) (monitoredHosts d') = Some ?h'"
    using host_keys.find_update[OF assms(5) h(1), of "\<lambda>x. h_id x = h_id h" "(h_hmacSecretEnc h, ?enc, t)"] by (simp add: d')
  then have "authenticateAgent c key hmac inp d' = check_host c key hmac ?h' p inp"
    using authenticate_known[OF assms(2,9)] creds(1) by simp
  also have "\<dots> = (if \<not> (\<exists>s \<in> set (hc_secret creds # (if ai_nowMs inp < t + 24 * 3600 * 1000 then [old] else [])). request_signed hmac s p inp)
      then fail INVALID_SIGNATURE else if \<not> h_enabled h then fail (Http 403 ''host_disabled'')
      else ok \<lparr>ag_hostId = h_id ?h', ag_orgId = h_orgId ?h', ag_hostname = h_hostname ?h', ag_keyId = h_keyId ?h',
                 ag_firstSeenAt = h_firstSeenAt ?h', ag_responseSecrets = hc_secret creds # (if ai_nowMs inp < t + 24 * 3600 * 1000 then [old] else [])\<rparr>)"
    unfolding check_host_result[OF assms(2,9)] rotated_secrets[OF assms(1,3,4,8)] by simp
  finally show ?thesis by auto
qed

text \<open>A host whose secret is encrypted by \<open>toy_gcm\<close>, and a request signed with it.\<close>

definition sample_iv :: "nat list" where "sample_iv = [0, 1, 2, 3, 4, 5, 6, 7, 8, 9, 10, 11]"

definition sample_random :: agent_random where
  "sample_random = \<lparr>rnd_key = [1, 2, 3], rnd_secret = [4, 5, 6, 7], rnd_iv = sample_iv\<rparr>"

definition sample_agent_host :: host_row where
  "sample_agent_host = sample_host\<lparr>h_hmacSecretEnc := encryptSecret toy_gcm [9] sample_iv ''old'' (hostSecretAad ''k1'')\<rparr>"

definition sample_agent_db :: db where
  "sample_agent_db = sample_db\<lparr>monitoredHosts := [sample_agent_host]\<rparr>"

definition sample_request :: auth_input where
  "sample_request = \<lparr>ai_keyId = Some ''k1'', ai_signatureHeader = Some (signResponse toy_hmac [''old''] ''{}'' 1700000000000),
     ai_rawBody = ''{}'', ai_nowMs = 1700000001000, ai_maxSkewSeconds = 300\<rparr>"

definition sample_parsed :: parsed_signature where
  "sample_parsed = \<lparr>ps_timestamp = 1700000000, ps_signatures = [computeSignature toy_hmac ''old'' 1700000000 ''{}'']\<rparr>"

lemma sample_header_parsed: "parseSignatureHeader (Some (signResponse toy_hmac [''old''] ''{}'' 1700000000000)) = Some sample_parsed"
proof -
  have hex: "list_all HEX_SHA256 [computeSignature toy_hmac ''old'' 1700000000 ''{}'']"
    using toy_hmac_hex by (simp add: hex_digests_def computeSignature_def)
  show ?thesis
    using parse_signed_header[OF hex, of 1700000000] signResponse_shape[of 1700000000000 toy_hmac "[''old'']" "''{}''"]
    by (simp add: sample_parsed_def)
qed

lemma sample_request_well_formed: "well_formed_request sample_request ''k1'' sample_parsed"
  by (simp add: well_formed_request_def sample_request_def sample_header_parsed truthy_def or_null_def isTimestampFresh_def)
     (simp add: sample_parsed_def)

lemma sample_iv_ok: "length sample_iv = IV_BYTES" "list_all (\<lambda>b. b < 256) sample_iv" "sample_iv \<noteq> []"
  by (simp_all add: sample_iv_def IV_BYTES_def)

lemma sample_secret: "decryptSecret toy_gcm [9] (h_hmacSecretEnc sample_agent_host) (hostSecretAad (h_keyId sample_agent_host)) = Some ''old''"
  using decrypt_own[OF toy_gcm_law sample_iv_ok(1,2), of "[9]" "''old''" "hostSecretAad ''k1''"]
  by (simp add: sample_agent_host_def sample_host_def)

lemma sample_signed: "request_signed toy_hmac ''old'' sample_parsed sample_request"
  by (simp add: request_signed_def sample_parsed_def sample_request_def)


lemma rotation_grace_exact_witness:
  "\<exists>ag. authenticateAgent toy_gcm [9] toy_hmac sample_request
     (fst (rotateHostSecret toy_gcm [9] sample_random sample_gen (sample_actor ''ann'' ''acme'' OWNER) ''h1'' 1699999999000 sample_agent_db)) = ok ag"
proof -
  let ?r = "rotateHostSecret toy_gcm [9] sample_random sample_gen (sample_actor ''ann'' ''acme'' OWNER) ''h1'' 1699999999000 sample_agent_db"
  have may: "can (Some OWNER) hosts_rotate_secret" by code_simp
  have found: "find_first (\<lambda>h. h_id h = ''h1'' \<and> h_orgId h = a_orgId (sample_actor ''ann'' ''acme'' OWNER)) (monitoredHosts sample_agent_db)
      = Some sample_agent_host"
    by (simp add: sample_agent_db_def sample_agent_host_def sample_host_def sample_actor_def)
  obtain creds where r: "?r = (fst ?r, ok creds)" "hc_keyId creds = ''k1''"
    using may found by (auto simp: rotateHostSecret_def Let_def sample_actor_def sample_agent_host_def sample_host_def)
  have iv: "length (rnd_iv sample_random) = IV_BYTES" "list_all (\<lambda>b. b < 256) (rnd_iv sample_random)"
    using sample_iv_ok by (simp_all add: sample_random_def)
  have dist: "distinct (map h_keyId (monitoredHosts sample_agent_db))" by (simp add: sample_agent_db_def)
  have w: "well_formed_request sample_request (hc_keyId creds) sample_parsed" using sample_request_well_formed r(2) by simp
  have "h_enabled sample_agent_host" "ai_nowMs sample_request < 1699999999000 + 24 * 3600 * 1000"
    by (simp_all add: sample_agent_host_def sample_host_def sample_request_def)
  then show ?thesis
    using rotation_grace_exact[OF toy_gcm_law toy_hmac_hex iv dist r(1) found sample_secret w] sample_signed by blast
qed

end
