(* ===== verification/Telemetry.thy ===== *)
theory Telemetry
  imports Agents "HOL-Library.Char_ord"
begin

text \<open>
  What an agent sends, \<open>src/lib/telemetry/schemas.ts\<close>, and the time series it becomes,
  \<open>src/lib/telemetry/metrics.ts\<close>. A payload is the value \<open>safeParse\<close> returns; \<open>valid_payload\<close> are the bounds
  the schema enforces on it (strings already trimmed, defaults filled in). A timestamp is the time
  value of \<open>new Date(iso)\<close>, \<open>None\<close> when that is not a number. The values of enumerations are their Prisma
  counterparts. Numbers are reals, so \<open>Number.isFinite\<close> holds for them.
\<close>

section \<open>Payloads\<close>

record inventory_report =
  iv_osFamily :: os_family
  iv_facts :: host_inventory
  iv_ipAddresses :: "string list option"
  iv_agentVersion :: "string option"

record cpu_report =
  cpu_usagePercent :: real
  cpu_loadAverage1m :: "real option"

record memory_report =
  mem_usedPercent :: "real option"
  mem_usedBytes :: "real option"
  mem_swapUsedPercent :: "real option"

record disk_report =
  dk_mount :: string
  dk_device :: "string option"
  dk_usedPercent :: "real option"
  dk_usedBytes :: "real option"
  dk_readIops :: "real option"
  dk_writeIops :: "real option"
  dk_readBps :: "real option"
  dk_writeBps :: "real option"

record nic_report =
  nic_name :: string
  nic_inBps :: real
  nic_outBps :: real

record sensor_report =
  sr_sensor :: string
  sr_celsius :: real

record system_report =
  sy_collectedAt :: "ms option"
  sy_inventory :: "inventory_report option"
  sy_cpu :: "cpu_report option"
  sy_memory :: "memory_report option"
  sy_disks :: "disk_report list"
  sy_network :: "nic_report list"
  sy_processCount :: "real option"
  sy_uptimeSeconds :: "real option"
  sy_temperatures :: "sensor_report list"
  sy_powerWatts :: "real option"

record port_report =
  po_ifIndex :: int
  po_name :: string
  po_alias :: "string option"
  po_description :: "string option"
  po_macAddress :: "string option"
  po_speedMbps :: "int option"
  po_mtu :: "int option"
  po_adminStatus :: "oper_status option"
  po_operStatus :: oper_status
  po_inBps :: real
  po_outBps :: real
  po_utilizationPercent :: "real option"
  po_packetLossPercent :: "real option"
  po_inErrors :: "int option"
  po_outErrors :: "int option"
  po_crcErrors :: "int option"
  po_inDiscards :: "int option"
  po_outDiscards :: "int option"
  po_errorsPerSec :: "real option"
  po_crcErrorsPerSec :: "real option"
  po_lastChangeAt :: "ms option"

record device_report =
  dv_collectedAt :: "ms option"
  dv_ipAddress :: string
  dv_name :: "string option"
  dv_type :: "network_device_type option"
  dv_vendor :: "string option"
  dv_model :: "string option"
  dv_firmwareVersion :: "string option"
  dv_serialNumber :: "string option"
  dv_sysName :: "string option"
  dv_sysDescr :: "string option"
  dv_sysLocation :: "string option"
  dv_sysContact :: "string option"
  dv_uptimeSeconds :: "real option"
  dv_snmpVersion :: "snmp_version option"
  dv_reachable :: bool
  dv_latencyMs :: "real option"
  dv_temperatureCelsius :: "real option"
  dv_powerWatts :: "real option"
  dv_interfaces :: "port_report list"

record query_report =
  qr_capturedAt :: "ms option"
  qr_fingerprint :: string
  qr_queryText :: "string option"
  qr_durationMs :: real
  qr_calls :: "int option"
  qr_rowsExamined :: "int option"
  qr_rowsReturned :: "int option"
  qr_databaseName :: "string option"
  qr_userName :: "string option"

record database_report =
  dr_collectedAt :: "ms option"
  dr_name :: string
  dr_engine :: database_engine
  dr_version :: "string option"
  dr_endpoint :: "string option"
  dr_isReplica :: "bool option"
  dr_storageQuotaBytes :: "int option"
  dr_maxConnections :: "int option"
  dr_slowQueryThresholdMs :: "int option"
  dr_reachable :: bool
  dr_qps :: "real option"
  dr_activeConnections :: "int option"
  dr_connectionUsagePercent :: "real option"
  dr_cacheHitRatio :: "real option"
  dr_slowQueriesPerMin :: "real option"
  dr_deadlocksPerMin :: "real option"
  dr_deadlocksTotal :: "int option"
  dr_replicationLagSeconds :: "real option"
  dr_storageUsedBytes :: "int option"
  dr_slowQueries :: "query_report list"

record agent_report =
  at_version :: string
  at_remediation :: "(string \<times> string list) option"

record telemetry_payload =
  tp_schemaVersion :: int
  tp_agent :: agent_report
  tp_system :: "system_report option"
  tp_snmpDevices :: "device_report list"
  tp_databases :: "database_report list"

section \<open>The bounds of the schema\<close>

definition MAX_SAFE_INTEGER :: int where "MAX_SAFE_INTEGER = 2 ^ 53 - 1"
definition TELEMETRY_SCHEMA_VERSION :: int where "TELEMETRY_SCHEMA_VERSION = 1"

definition opt_ok :: "('a \<Rightarrow> bool) \<Rightarrow> 'a option \<Rightarrow> bool" where
  "opt_ok P x = (case x of None \<Rightarrow> True | Some v \<Rightarrow> P v)"

definition v_percent :: "real \<Rightarrow> bool" where "v_percent x = (0 \<le> x \<and> x \<le> 100)"
definition v_ratio :: "real \<Rightarrow> bool" where "v_ratio x = (0 \<le> x \<and> x \<le> 1)"
definition v_nonNegative :: "real \<Rightarrow> bool" where "v_nonNegative x = (0 \<le> x)"
definition v_bytes :: "int \<Rightarrow> bool" where "v_bytes n = (0 \<le> n \<and> n \<le> MAX_SAFE_INTEGER)"
definition v_bytes_real :: "real \<Rightarrow> bool" where "v_bytes_real x = (x = of_int \<lfloor>x\<rfloor> \<and> v_bytes \<lfloor>x\<rfloor>)"
definition v_text :: "nat \<Rightarrow> nat \<Rightarrow> string \<Rightarrow> bool" where "v_text lo hi s = (js_trim s = s \<and> lo \<le> length s \<and> length s \<le> hi)"
definition v_int :: "int \<Rightarrow> int \<Rightarrow> int \<Rightarrow> bool" where "v_int lo hi n = (lo \<le> n \<and> n \<le> hi)"
definition v_celsius :: "real \<Rightarrow> bool" where "v_celsius x = (-100 \<le> x \<and> x \<le> 300)"
definition v_watts :: "real \<Rightarrow> bool" where "v_watts x = (0 \<le> x \<and> x \<le> 1000000)"

lemmas v_defs = v_percent_def v_ratio_def v_nonNegative_def v_celsius_def v_watts_def opt_ok_def

definition valid_inventory :: "inventory_report \<Rightarrow> bool" where
  "valid_inventory i = (let f = iv_facts i in
     opt_ok (v_text 1 255) (hi_osName f) \<and> opt_ok (v_text 1 255) (hi_osVersion f) \<and> opt_ok (v_text 1 255) (hi_kernelVersion f)
     \<and> opt_ok (v_text 1 32) (hi_arch f) \<and> opt_ok (v_text 1 255) (hi_cpuModel f) \<and> opt_ok (v_int 1 4096) (hi_cpuCores f)
     \<and> opt_ok (v_int 1 8192) (hi_cpuThreads f) \<and> opt_ok (v_int 1 20000) (hi_cpuFrequencyMhz f) \<and> opt_ok v_bytes (hi_memoryTotalBytes f)
     \<and> opt_ok v_bytes (hi_diskTotalBytes f) \<and> opt_ok (\<lambda>ips. length ips \<le> 32 \<and> list_all (\<lambda>s. isIP s \<noteq> 0) ips) (iv_ipAddresses i)
     \<and> opt_ok (v_text 0 64) (hi_macAddress f) \<and> opt_ok (v_text 0 64) (hi_virtualization f) \<and> opt_ok (v_text 0 64) (hi_cloudProvider f)
     \<and> opt_ok (v_text 0 64) (hi_cloudRegion f) \<and> opt_ok (v_text 0 64) (iv_agentVersion i))"

definition valid_disk :: "disk_report \<Rightarrow> bool" where
  "valid_disk k = (v_text 1 255 (dk_mount k) \<and> opt_ok (v_text 1 128) (dk_device k) \<and> opt_ok v_percent (dk_usedPercent k)
     \<and> opt_ok v_bytes_real (dk_usedBytes k) \<and> opt_ok v_nonNegative (dk_readIops k) \<and> opt_ok v_nonNegative (dk_writeIops k)
     \<and> opt_ok v_nonNegative (dk_readBps k) \<and> opt_ok v_nonNegative (dk_writeBps k))"

definition valid_system :: "system_report \<Rightarrow> bool" where
  "valid_system s = (opt_ok valid_inventory (sy_inventory s)
     \<and> opt_ok (\<lambda>c. v_percent (cpu_usagePercent c) \<and> opt_ok v_nonNegative (cpu_loadAverage1m c)) (sy_cpu s)
     \<and> opt_ok (\<lambda>m. opt_ok v_percent (mem_usedPercent m) \<and> opt_ok v_bytes_real (mem_usedBytes m) \<and> opt_ok v_percent (mem_swapUsedPercent m)) (sy_memory s)
     \<and> length (sy_disks s) \<le> 64 \<and> list_all valid_disk (sy_disks s)
     \<and> length (sy_network s) \<le> 64
     \<and> list_all (\<lambda>n. v_text 1 128 (nic_name n) \<and> v_nonNegative (nic_inBps n) \<and> v_nonNegative (nic_outBps n)) (sy_network s)
     \<and> opt_ok (\<lambda>x. x = of_int \<lfloor>x\<rfloor> \<and> v_int 0 10000000 \<lfloor>x\<rfloor>) (sy_processCount s) \<and> opt_ok v_nonNegative (sy_uptimeSeconds s)
     \<and> length (sy_temperatures s) \<le> 64 \<and> list_all (\<lambda>t. v_text 1 128 (sr_sensor t) \<and> v_celsius (sr_celsius t)) (sy_temperatures s)
     \<and> opt_ok v_watts (sy_powerWatts s))"

definition valid_port :: "port_report \<Rightarrow> bool" where
  "valid_port p = (v_int 0 2147483647 (po_ifIndex p) \<and> v_text 1 255 (po_name p) \<and> opt_ok (v_text 0 255) (po_alias p)
     \<and> opt_ok (v_text 0 255) (po_description p) \<and> opt_ok (v_text 0 64) (po_macAddress p) \<and> opt_ok (v_int 0 100000000) (po_speedMbps p)
     \<and> opt_ok (v_int 0 65535) (po_mtu p) \<and> v_nonNegative (po_inBps p) \<and> v_nonNegative (po_outBps p)
     \<and> opt_ok v_percent (po_utilizationPercent p) \<and> opt_ok v_percent (po_packetLossPercent p) \<and> opt_ok v_bytes (po_inErrors p)
     \<and> opt_ok v_bytes (po_outErrors p) \<and> opt_ok v_bytes (po_crcErrors p) \<and> opt_ok v_bytes (po_inDiscards p) \<and> opt_ok v_bytes (po_outDiscards p)
     \<and> opt_ok v_nonNegative (po_errorsPerSec p) \<and> opt_ok v_nonNegative (po_crcErrorsPerSec p))"

definition valid_device :: "device_report \<Rightarrow> bool" where
  "valid_device v = (isIP (dv_ipAddress v) \<noteq> 0 \<and> opt_ok (v_text 1 255) (dv_name v) \<and> opt_ok (v_text 1 255) (dv_vendor v)
     \<and> opt_ok (v_text 1 255) (dv_model v) \<and> opt_ok (v_text 1 255) (dv_firmwareVersion v) \<and> opt_ok (v_text 1 255) (dv_serialNumber v)
     \<and> opt_ok (v_text 1 255) (dv_sysName v) \<and> opt_ok (\<lambda>s. length s \<le> 2000) (dv_sysDescr v) \<and> opt_ok (v_text 1 255) (dv_sysLocation v)
     \<and> opt_ok (v_text 1 255) (dv_sysContact v) \<and> opt_ok v_nonNegative (dv_uptimeSeconds v) \<and> opt_ok v_nonNegative (dv_latencyMs v)
     \<and> opt_ok v_celsius (dv_temperatureCelsius v) \<and> opt_ok v_watts (dv_powerWatts v)
     \<and> length (dv_interfaces v) \<le> 1024 \<and> list_all valid_port (dv_interfaces v))"

definition valid_query :: "query_report \<Rightarrow> bool" where
  "valid_query q = (v_text 1 128 (qr_fingerprint q) \<and> opt_ok (\<lambda>s. length s \<le> 4000) (qr_queryText q) \<and> v_nonNegative (qr_durationMs q)
     \<and> opt_ok (v_int 1 1000000000) (qr_calls q) \<and> opt_ok v_bytes (qr_rowsExamined q) \<and> opt_ok v_bytes (qr_rowsReturned q)
     \<and> opt_ok (v_text 0 128) (qr_databaseName q) \<and> opt_ok (v_text 0 128) (qr_userName q))"

definition valid_database :: "database_report \<Rightarrow> bool" where
  "valid_database b = (v_text 1 128 (dr_name b) \<and> opt_ok (v_text 0 64) (dr_version b)
     \<and> opt_ok (\<lambda>s. v_text 0 255 s \<and> \<not> str_includes s ''@'') (dr_endpoint b) \<and> opt_ok v_bytes (dr_storageQuotaBytes b)
     \<and> opt_ok (v_int 0 10000000) (dr_maxConnections b) \<and> opt_ok (v_int 1 3600000) (dr_slowQueryThresholdMs b)
     \<and> opt_ok v_nonNegative (dr_qps b) \<and> opt_ok (v_int 0 10000000) (dr_activeConnections b) \<and> opt_ok v_percent (dr_connectionUsagePercent b)
     \<and> opt_ok v_ratio (dr_cacheHitRatio b) \<and> opt_ok v_nonNegative (dr_slowQueriesPerMin b) \<and> opt_ok v_nonNegative (dr_deadlocksPerMin b)
     \<and> opt_ok v_bytes (dr_deadlocksTotal b) \<and> opt_ok v_nonNegative (dr_replicationLagSeconds b) \<and> opt_ok v_bytes (dr_storageUsedBytes b)
     \<and> length (dr_slowQueries b) \<le> 100 \<and> list_all valid_query (dr_slowQueries b))"

definition valid_agent :: "agent_report \<Rightarrow> bool" where
  "valid_agent g = (v_text 1 64 (at_version g)
     \<and> opt_ok (\<lambda>(mode, allowed). mode \<in> {''disabled'', ''allowlist'', ''any''} \<and> length allowed \<le> 200 \<and> list_all HEX_SHA256 allowed) (at_remediation g))"

definition valid_payload :: "telemetry_payload \<Rightarrow> bool" where
  "valid_payload p = (tp_schemaVersion p = TELEMETRY_SCHEMA_VERSION \<and> valid_agent (tp_agent p)
     \<and> opt_ok valid_system (tp_system p)
     \<and> length (tp_snmpDevices p) \<le> 200 \<and> list_all valid_device (tp_snmpDevices p)
     \<and> length (tp_databases p) \<le> 100 \<and> list_all valid_database (tp_databases p)
     \<and> (tp_system p \<noteq> None \<or> tp_snmpDevices p \<noteq> [] \<or> tp_databases p \<noteq> []))"

section \<open>Times and rows\<close>

record ingest_context =
  cx_now :: ms
  cx_maxBackfillMs :: int
  cx_maxSkewMs :: int

text \<open>An error ends the request: \<open>fail\<close> carries the exception.\<close>

definition parseCollectedAt :: "ms option \<Rightarrow> ingest_context \<Rightarrow> (ms, telemetry_exn) result" where
  "parseCollectedAt stamp ctx = (case stamp of
     None \<Rightarrow> fail (Http 422 ''timestamp_out_of_range'')
   | Some time \<Rightarrow> let age = cx_now ctx - time in
       if age > cx_maxBackfillMs ctx \<or> age < - cx_maxSkewMs ctx then fail (Http 422 ''timestamp_out_of_range'') else ok time)"

record row_source =
  rs_orgId :: ident
  rs_sourceKind :: metric_source
  rs_sourceId :: ident
  rs_time :: ms

definition add_at :: "row_source \<Rightarrow> metric_type \<Rightarrow> real option \<Rightarrow> string \<Rightarrow> metric_row list" where
  "add_at s metric v inst = (case v of None \<Rightarrow> [] | Some x \<Rightarrow>
     [\<lparr>me_time = rs_time s, me_orgId = rs_orgId s, me_sourceKind = rs_sourceKind s, me_sourceId = rs_sourceId s,
       me_metric = metric, me_instance = inst, me_value = x\<rparr>])"

definition add_row :: "row_source \<Rightarrow> metric_type \<Rightarrow> real option \<Rightarrow> metric_row list" where
  "add_row s metric v = add_at s metric v []"

definition opt_bind :: "'a option \<Rightarrow> ('a \<Rightarrow> 'b option) \<Rightarrow> 'b option" where
  "opt_bind x f = (case x of None \<Rightarrow> None | Some v \<Rightarrow> f v)"

definition disk_rows :: "row_source \<Rightarrow> disk_report \<Rightarrow> metric_row list" where
  "disk_rows s k = (let io = (case dk_device k of Some v \<Rightarrow> v | None \<Rightarrow> dk_mount k) in
     add_at s DISK_USED_PERCENT (dk_usedPercent k) (dk_mount k) @ add_at s DISK_USED_BYTES (dk_usedBytes k) (dk_mount k)
     @ add_at s DISK_READ_IOPS (dk_readIops k) io @ add_at s DISK_WRITE_IOPS (dk_writeIops k) io
     @ add_at s DISK_READ_BPS (dk_readBps k) io @ add_at s DISK_WRITE_BPS (dk_writeBps k) io)"

definition systemMetricRows :: "ident \<Rightarrow> ident \<Rightarrow> system_report \<Rightarrow> ms \<Rightarrow> metric_row list" where
  "systemMetricRows orgId hostId y time =
     (let s = \<lparr>rs_orgId = orgId, rs_sourceKind = HOST, rs_sourceId = hostId, rs_time = time\<rparr> in
      add_row s CPU_USAGE_PERCENT (map_option cpu_usagePercent (sy_cpu y)) @ add_row s LOAD_AVERAGE_1M (opt_bind (sy_cpu y) cpu_loadAverage1m)
      @ add_row s MEMORY_USED_PERCENT (opt_bind (sy_memory y) mem_usedPercent) @ add_row s MEMORY_USED_BYTES (opt_bind (sy_memory y) mem_usedBytes)
      @ add_row s SWAP_USED_PERCENT (opt_bind (sy_memory y) mem_swapUsedPercent)
      @ concat (map (disk_rows s) (sy_disks y))
      @ concat (map (\<lambda>n. add_at s NETWORK_IN_BPS (Some (nic_inBps n)) (nic_name n) @ add_at s NETWORK_OUT_BPS (Some (nic_outBps n)) (nic_name n)) (sy_network y))
      @ concat (map (\<lambda>t. add_at s TEMPERATURE_CELSIUS (Some (sr_celsius t)) (sr_sensor t)) (sy_temperatures y))
      @ add_row s PROCESS_COUNT (sy_processCount y) @ add_row s UPTIME_SECONDS (sy_uptimeSeconds y) @ add_row s POWER_WATTS (sy_powerWatts y))"

definition port_rows :: "row_source \<Rightarrow> port_report \<Rightarrow> metric_row list" where
  "port_rows s p = add_at s BANDWIDTH_IN_BPS (Some (po_inBps p)) (po_name p) @ add_at s BANDWIDTH_OUT_BPS (Some (po_outBps p)) (po_name p)
     @ add_at s BANDWIDTH_UTILIZATION_PERCENT (po_utilizationPercent p) (po_name p) @ add_at s PACKET_LOSS_PERCENT (po_packetLossPercent p) (po_name p)
     @ add_at s INTERFACE_ERRORS_PER_SEC (po_errorsPerSec p) (po_name p) @ add_at s INTERFACE_CRC_ERRORS_PER_SEC (po_crcErrorsPerSec p) (po_name p)"

definition deviceMetricRows :: "ident \<Rightarrow> ident \<Rightarrow> device_report \<Rightarrow> ms \<Rightarrow> metric_row list" where
  "deviceMetricRows orgId deviceId v time =
     (let s = \<lparr>rs_orgId = orgId, rs_sourceKind = NETWORK_DEVICE, rs_sourceId = deviceId, rs_time = time\<rparr> in
      add_row s LATENCY_MS (dv_latencyMs v) @ add_row s UPTIME_SECONDS (dv_uptimeSeconds v)
      @ add_row s TEMPERATURE_CELSIUS (dv_temperatureCelsius v) @ add_row s POWER_WATTS (dv_powerWatts v)
      @ concat (map (port_rows s) (dv_interfaces v)))"

definition connection_usage :: "database_report \<Rightarrow> int option \<Rightarrow> real option" where
  "connection_usage b maxConnections = (case dr_connectionUsagePercent b of Some u \<Rightarrow> Some u
     | None \<Rightarrow> (case (dr_activeConnections b, maxConnections) of
         (Some n, Some m) \<Rightarrow> if m > 0 then Some (min 100 (of_int n / of_int m * 100)) else None
       | _ \<Rightarrow> None))"

definition databaseMetricRows :: "ident \<Rightarrow> ident \<Rightarrow> database_report \<Rightarrow> ms \<Rightarrow> int option \<Rightarrow> metric_row list" where
  "databaseMetricRows orgId dbId b time maxConnections =
     (let s = \<lparr>rs_orgId = orgId, rs_sourceKind = DATABASE, rs_sourceId = dbId, rs_time = time\<rparr> in
      add_row s DB_QPS (dr_qps b) @ add_row s DB_ACTIVE_CONNECTIONS (map_option of_int (dr_activeConnections b))
      @ add_row s DB_CONNECTION_USAGE_PERCENT (connection_usage b maxConnections) @ add_row s DB_CACHE_HIT_RATIO (dr_cacheHitRatio b)
      @ add_row s DB_SLOW_QUERIES_PER_MIN (dr_slowQueriesPerMin b) @ add_row s DB_DEADLOCKS_PER_MIN (dr_deadlocksPerMin b)
      @ add_row s DB_REPLICATION_LAG_SECONDS (dr_replicationLagSeconds b) @ add_row s DB_STORAGE_USED_BYTES (map_option of_int (dr_storageUsedBytes b)))"

section \<open>Values stay in the range of their metric\<close>

fun metric_range :: "metric_type \<Rightarrow> real \<Rightarrow> bool" where
  "metric_range CPU_USAGE_PERCENT v = v_percent v"
| "metric_range MEMORY_USED_PERCENT v = v_percent v"
| "metric_range SWAP_USED_PERCENT v = v_percent v"
| "metric_range DISK_USED_PERCENT v = v_percent v"
| "metric_range BANDWIDTH_UTILIZATION_PERCENT v = v_percent v"
| "metric_range PACKET_LOSS_PERCENT v = v_percent v"
| "metric_range DB_CONNECTION_USAGE_PERCENT v = v_percent v"
| "metric_range DB_CACHE_HIT_RATIO v = v_ratio v"
| "metric_range TEMPERATURE_CELSIUS v = v_celsius v"
| "metric_range POWER_WATTS v = v_watts v"
| "metric_range m v = v_nonNegative v"

definition row_ok :: "ident \<Rightarrow> metric_source \<Rightarrow> ident \<Rightarrow> ms \<Rightarrow> metric_row \<Rightarrow> bool" where
  "row_ok orgId kind sid time r = (me_orgId r = orgId \<and> me_sourceKind r = kind \<and> me_sourceId r = sid \<and> me_time r = time
     \<and> metric_range (me_metric r) (me_value r))"

lemma add_at_ok: "opt_ok (metric_range m) v \<Longrightarrow> list_all (row_ok (rs_orgId s) (rs_sourceKind s) (rs_sourceId s) (rs_time s)) (add_at s m v inst)"
  by (auto simp: add_at_def row_ok_def opt_ok_def split: option.splits)

lemma add_row_ok: "opt_ok (metric_range m) v \<Longrightarrow> list_all (row_ok (rs_orgId s) (rs_sourceKind s) (rs_sourceId s) (rs_time s)) (add_row s m v)"
  by (simp add: add_row_def add_at_ok)

lemma opt_ok_simps [simp]:
  "opt_ok P None" "opt_ok P (Some v) = P v" "opt_ok P (map_option f x) = opt_ok (P \<circ> f) x"
  "opt_ok P (opt_bind y g) = opt_ok (\<lambda>v. opt_ok P (g v)) y"
  by (auto simp: opt_ok_def opt_bind_def split: option.split)

lemma opt_ok_mono: "opt_ok P x \<Longrightarrow> (\<And>v. P v \<Longrightarrow> Q v) \<Longrightarrow> opt_ok Q x"
  by (auto simp: opt_ok_def split: option.splits)

lemma v_bytes_nonneg: "v_bytes_real x \<Longrightarrow> v_nonNegative x" "v_bytes n \<Longrightarrow> v_nonNegative (of_int n)" "v_int 0 hi n \<Longrightarrow> v_nonNegative (of_int n)"
proof -
  show "v_bytes_real x \<Longrightarrow> v_nonNegative x" unfolding v_bytes_real_def v_bytes_def v_nonNegative_def by (metis of_int_0_le_iff)
qed (auto simp: v_bytes_def v_nonNegative_def v_int_def)

lemma range_nonneg: "metric_range m = (\<lambda>v. v_nonNegative v) \<Longrightarrow> opt_ok v_nonNegative x \<Longrightarrow> opt_ok (metric_range m) x"
  by simp

lemma list_all_concat_map: "list_all P (concat (map f xs)) \<longleftrightarrow> list_all (\<lambda>x. list_all P (f x)) xs"
  by (induction xs) auto

lemma metric_range_eq:
  "metric_range CPU_USAGE_PERCENT = v_percent" "metric_range MEMORY_USED_PERCENT = v_percent" "metric_range SWAP_USED_PERCENT = v_percent"
  "metric_range DISK_USED_PERCENT = v_percent" "metric_range BANDWIDTH_UTILIZATION_PERCENT = v_percent" "metric_range PACKET_LOSS_PERCENT = v_percent"
  "metric_range DB_CONNECTION_USAGE_PERCENT = v_percent" "metric_range DB_CACHE_HIT_RATIO = v_ratio" "metric_range TEMPERATURE_CELSIUS = v_celsius"
  "metric_range POWER_WATTS = v_watts" "metric_range LOAD_AVERAGE_1M = v_nonNegative" "metric_range MEMORY_USED_BYTES = v_nonNegative"
  "metric_range DISK_USED_BYTES = v_nonNegative" "metric_range DISK_READ_IOPS = v_nonNegative" "metric_range DISK_WRITE_IOPS = v_nonNegative"
  "metric_range DISK_READ_BPS = v_nonNegative" "metric_range DISK_WRITE_BPS = v_nonNegative" "metric_range NETWORK_IN_BPS = v_nonNegative"
  "metric_range NETWORK_OUT_BPS = v_nonNegative" "metric_range PROCESS_COUNT = v_nonNegative" "metric_range UPTIME_SECONDS = v_nonNegative"
  "metric_range BANDWIDTH_IN_BPS = v_nonNegative" "metric_range BANDWIDTH_OUT_BPS = v_nonNegative" "metric_range INTERFACE_ERRORS_PER_SEC = v_nonNegative"
  "metric_range INTERFACE_CRC_ERRORS_PER_SEC = v_nonNegative" "metric_range LATENCY_MS = v_nonNegative" "metric_range DB_QPS = v_nonNegative"
  "metric_range DB_ACTIVE_CONNECTIONS = v_nonNegative" "metric_range DB_SLOW_QUERIES_PER_MIN = v_nonNegative"
  "metric_range DB_DEADLOCKS_PER_MIN = v_nonNegative" "metric_range DB_REPLICATION_LAG_SECONDS = v_nonNegative" "metric_range DB_STORAGE_USED_BYTES = v_nonNegative"
  by (rule ext, simp)+

lemma disk_rows_ok: "valid_disk k \<Longrightarrow> list_all (row_ok (rs_orgId s) (rs_sourceKind s) (rs_sourceId s) (rs_time s)) (disk_rows s k)"
  using opt_ok_mono[of v_bytes_real "dk_usedBytes k" v_nonNegative] v_bytes_nonneg(1)
  by (simp add: disk_rows_def Let_def valid_disk_def metric_range_eq add_at_ok)

lemma port_rows_ok: "valid_port p \<Longrightarrow> list_all (row_ok (rs_orgId s) (rs_sourceKind s) (rs_sourceId s) (rs_time s)) (port_rows s p)"
  by (simp add: port_rows_def valid_port_def metric_range_eq add_at_ok)

lemma systemMetricRows_ok:
  assumes "valid_system y"
  shows "list_all (row_ok orgId HOST hostId time) (systemMetricRows orgId hostId y time)"
proof -
  define s where "s = \<lparr>rs_orgId = orgId, rs_sourceKind = HOST, rs_sourceId = hostId, rs_time = time\<rparr>"
  have src: "row_ok orgId HOST hostId time = row_ok (rs_orgId s) (rs_sourceKind s) (rs_sourceId s) (rs_time s)" by (simp add: s_def)
  have cpu: "opt_ok (v_percent \<circ> cpu_usagePercent) (sy_cpu y)" "opt_ok (\<lambda>c. opt_ok v_nonNegative (cpu_loadAverage1m c)) (sy_cpu y)"
    and mem: "opt_ok (\<lambda>m. opt_ok v_percent (mem_usedPercent m)) (sy_memory y)" "opt_ok (\<lambda>m. opt_ok v_nonNegative (mem_usedBytes m)) (sy_memory y)"
      "opt_ok (\<lambda>m. opt_ok v_percent (mem_swapUsedPercent m)) (sy_memory y)"
    and count: "opt_ok v_nonNegative (sy_processCount y)"
    using assms by (auto simp: valid_system_def elim!: opt_ok_mono intro: v_bytes_nonneg(1))
      (metis v_bytes_nonneg(3))
  have lists: "list_all (\<lambda>k. list_all (row_ok (rs_orgId s) (rs_sourceKind s) (rs_sourceId s) (rs_time s)) (disk_rows s k)) (sy_disks y)"
    using assms disk_rows_ok[of _ s] by (auto simp: valid_system_def list_all_iff)
  show ?thesis
    unfolding systemMetricRows_def Let_def s_def[symmetric] src list_all_append list_all_concat_map
    using assms cpu mem count lists
    by (auto simp: valid_system_def metric_range_eq add_row_ok add_at_ok elim!: list.pred_mono_strong)
qed

lemma deviceMetricRows_ok:
  assumes "valid_device v"
  shows "list_all (row_ok orgId NETWORK_DEVICE deviceId time) (deviceMetricRows orgId deviceId v time)"
proof -
  define s where "s = \<lparr>rs_orgId = orgId, rs_sourceKind = NETWORK_DEVICE, rs_sourceId = deviceId, rs_time = time\<rparr>"
  have src: "row_ok orgId NETWORK_DEVICE deviceId time = row_ok (rs_orgId s) (rs_sourceKind s) (rs_sourceId s) (rs_time s)" by (simp add: s_def)
  have "list_all (\<lambda>p. list_all (row_ok (rs_orgId s) (rs_sourceKind s) (rs_sourceId s) (rs_time s)) (port_rows s p)) (dv_interfaces v)"
    using assms port_rows_ok[of _ s] by (auto simp: valid_device_def list_all_iff)
  then show ?thesis
    unfolding deviceMetricRows_def Let_def s_def[symmetric] src list_all_append list_all_concat_map
    using assms by (simp add: valid_device_def metric_range_eq add_row_ok)
qed

lemma connection_usage_ok:
  assumes "valid_database b"
  shows "opt_ok v_percent (connection_usage b m)"
proof -
  have "0 \<le> of_int n / of_int k * (100 :: real)" if "0 \<le> n" "0 < k" for n k :: int using that by simp
  then show ?thesis
    using assms by (auto simp: connection_usage_def valid_database_def v_percent_def v_int_def split: option.splits)
qed

lemma databaseMetricRows_ok:
  assumes "valid_database b"
  shows "list_all (row_ok orgId DATABASE dbId time) (databaseMetricRows orgId dbId b time m)"
proof -
  define s where "s = \<lparr>rs_orgId = orgId, rs_sourceKind = DATABASE, rs_sourceId = dbId, rs_time = time\<rparr>"
  have src: "row_ok orgId DATABASE dbId time = row_ok (rs_orgId s) (rs_sourceKind s) (rs_sourceId s) (rs_time s)" by (simp add: s_def)
  have "opt_ok (v_nonNegative \<circ> of_int) (dr_activeConnections b)" "opt_ok (v_nonNegative \<circ> of_int) (dr_storageUsedBytes b)"
    using assms by (auto simp: valid_database_def elim!: opt_ok_mono intro: v_bytes_nonneg(2,3))
  then show ?thesis
    unfolding databaseMetricRows_def Let_def s_def[symmetric] src list_all_append
    using assms connection_usage_ok[OF assms, of m] by (simp add: valid_database_def metric_range_eq add_row_ok)
qed

end
