(* ===== verification/Ingest.thy ===== *)
theory Ingest
  imports Telemetry Alerts
begin

text \<open>
  Storing telemetry: \<open>src/lib/telemetry/ingest.ts\<close> with \<open>src/modules/servers/ingest.ts\<close>,
  \<open>src/modules/network/ingest.ts\<close> and \<open>src/modules/databases/ingest.ts\<close>. One request is one transaction: an exception anywhere leaves the database as
  it was. \<open>undefined\<close> in an update, and \<open>COALESCE\<close>, keep the stored value (\<open>keep\<close>). The ids of the \<open>k\<close>-th device, port,
  database and slow query come from the generators in \<open>ingest_gens\<close>; a textual address stands for
  the value of its \<open>inet\<close> column.
\<close>

record ingest_gens =
  ig_device :: "nat \<Rightarrow> dbgen"
  ig_port :: "nat \<Rightarrow> dbgen"
  ig_database :: "nat \<Rightarrow> dbgen"
  ig_query :: "nat \<Rightarrow> dbgen"

definition keep :: "'a option \<Rightarrow> 'a option \<Rightarrow> 'a option" where
  "keep old new = (case new of None \<Rightarrow> old | Some v \<Rightarrow> Some v)"

definition keep_value :: "'a \<Rightarrow> 'a option \<Rightarrow> 'a" where
  "keep_value old new = (case new of None \<Rightarrow> old | Some v \<Rightarrow> v)"

definition js_round :: "real \<Rightarrow> int" where
  "js_round x = \<lfloor>x + 1 / 2\<rfloor>"

text \<open>\<open>createMany\<close> with \<open>skipDuplicates\<close>: a row whose unique key is taken, also by an earlier row of the same call, is skipped.\<close>

primrec create_many_skip :: "('r \<Rightarrow> 'k) \<Rightarrow> 'r list \<Rightarrow> 'r list \<Rightarrow> 'r list \<times> nat" where
  "create_many_skip key [] t = (t, 0)"
| "create_many_skip key (r # rs) t =
     (if key r \<in> key ` set t then create_many_skip key rs t
      else let (t', n) = create_many_skip key rs (t @ [r]) in (t', Suc n))"

section \<open>The host\<close>

definition heartbeat_upd :: "agent \<Rightarrow> agent_report \<Rightarrow> ms \<Rightarrow> host_row \<Rightarrow> host_row" where
  "heartbeat_upd ag info now h = h\<lparr>h_status := UP, h_lastSeenAt := Some now, h_agentVersion := Some (at_version info),
     h_remediationMode := Some (case at_remediation info of None \<Rightarrow> ''disabled'' | Some (mode, _) \<Rightarrow> mode),
     h_remediationAllowlist := (case at_remediation info of Some (mode, allowed) \<Rightarrow> if mode = ''allowlist'' then allowed else [] | None \<Rightarrow> []),
     h_firstSeenAt := (if ag_firstSeenAt ag = None then Some now else h_firstSeenAt h)\<rparr>"

text \<open>\<open>update\<close> throws when the row is gone.\<close>

definition recordHeartbeat :: "agent \<Rightarrow> agent_report \<Rightarrow> ms \<Rightarrow> db \<Rightarrow> (db, telemetry_exn) result" where
  "recordHeartbeat ag info now d =
     (if find_first (\<lambda>h. h_id h = ag_hostId ag) (monitoredHosts d) = None then fail Unexpected
      else ok (d\<lparr>monitoredHosts := update_many (\<lambda>h. h_id h = ag_hostId ag) (heartbeat_upd ag info now) (monitoredHosts d)\<rparr>))"

definition merge_inventory :: "host_inventory \<Rightarrow> inventory_report \<Rightarrow> host_inventory" where
  "merge_inventory old i = (let f = iv_facts i in
     \<lparr>hi_osName = keep (hi_osName old) (hi_osName f), hi_osVersion = keep (hi_osVersion old) (hi_osVersion f),
      hi_kernelVersion = keep (hi_kernelVersion old) (hi_kernelVersion f), hi_arch = keep (hi_arch old) (hi_arch f),
      hi_cpuModel = keep (hi_cpuModel old) (hi_cpuModel f), hi_cpuCores = keep (hi_cpuCores old) (hi_cpuCores f),
      hi_cpuThreads = keep (hi_cpuThreads old) (hi_cpuThreads f), hi_cpuFrequencyMhz = keep (hi_cpuFrequencyMhz old) (hi_cpuFrequencyMhz f),
      hi_memoryTotalBytes = keep (hi_memoryTotalBytes old) (hi_memoryTotalBytes f), hi_diskTotalBytes = keep (hi_diskTotalBytes old) (hi_diskTotalBytes f),
      hi_ipAddresses = keep_value (hi_ipAddresses old) (iv_ipAddresses i), hi_macAddress = keep (hi_macAddress old) (hi_macAddress f),
      hi_virtualization = keep (hi_virtualization old) (hi_virtualization f), hi_cloudProvider = keep (hi_cloudProvider old) (hi_cloudProvider f),
      hi_cloudRegion = keep (hi_cloudRegion old) (hi_cloudRegion f)\<rparr>)"

definition inventory_upd :: "inventory_report \<Rightarrow> host_row \<Rightarrow> host_row" where
  "inventory_upd i h = h\<lparr>h_osFamily := iv_osFamily i, h_inventory := merge_inventory (h_inventory h) i,
     h_agentVersion := keep (h_agentVersion h) (iv_agentVersion i)\<rparr>"

definition ingestSystem :: "agent \<Rightarrow> system_report \<Rightarrow> ingest_context \<Rightarrow> db \<Rightarrow> (db \<times> metric_row list, telemetry_exn) result" where
  "ingestSystem ag y ctx d =
     (case parseCollectedAt (sy_collectedAt y) ctx of
        fail e \<Rightarrow> fail e
      | ok time \<Rightarrow>
          let d1 = (case sy_inventory y of None \<Rightarrow> d
                | Some i \<Rightarrow> d\<lparr>monitoredHosts := update_many (\<lambda>h. h_id h = ag_hostId ag) (inventory_upd i) (monitoredHosts d)\<rparr>)
          in ok (d1, systemMetricRows (ag_orgId ag) (ag_hostId ag) y time))"

section \<open>Network devices\<close>

text \<open>The last report of an index wins, at the place of the first.\<close>

definition ports_by_index :: "port_report list \<Rightarrow> port_report list" where
  "ports_by_index ps = map snd (fold (\<lambda>p m. map_set (po_ifIndex p) p m) ps [])"

definition new_port :: "ident \<Rightarrow> ident \<Rightarrow> ms \<Rightarrow> port_report \<Rightarrow> network_interface_row" where
  "new_port uuid deviceId now p = \<lparr>ni_id = uuid, ni_deviceId = deviceId, ni_ifIndex = po_ifIndex p, ni_name = po_name p,
     ni_alias = None, ni_description = None, ni_macAddress = None, ni_speedMbps = None, ni_mtu = None,
     ni_adminStatus = OPER_UNKNOWN, ni_operStatus = po_operStatus p, ni_inBps = 0, ni_outBps = 0,
     ni_utilizationPercent = None, ni_packetLossPercent = None, ni_inErrors = 0, ni_outErrors = 0, ni_crcErrors = 0,
     ni_inDiscards = 0, ni_outDiscards = 0, ni_lastChangeAt = None, ni_lastPolledAt = None, ni_updatedAt = now\<rparr>"

definition port_upd :: "ms \<Rightarrow> ms \<Rightarrow> port_report \<Rightarrow> network_interface_row \<Rightarrow> network_interface_row" where
  "port_upd polledAt now p n = n\<lparr>ni_name := po_name p, ni_alias := keep (ni_alias n) (po_alias p),
     ni_description := keep (ni_description n) (po_description p), ni_macAddress := keep (ni_macAddress n) (po_macAddress p),
     ni_speedMbps := keep (ni_speedMbps n) (po_speedMbps p), ni_mtu := keep (ni_mtu n) (po_mtu p),
     ni_adminStatus := keep_value (ni_adminStatus n) (po_adminStatus p), ni_operStatus := po_operStatus p,
     ni_inBps := js_round (po_inBps p), ni_outBps := js_round (po_outBps p),
     ni_utilizationPercent := po_utilizationPercent p, ni_packetLossPercent := po_packetLossPercent p,
     ni_inErrors := keep_value (ni_inErrors n) (po_inErrors p), ni_outErrors := keep_value (ni_outErrors n) (po_outErrors p),
     ni_crcErrors := keep_value (ni_crcErrors n) (po_crcErrors p), ni_inDiscards := keep_value (ni_inDiscards n) (po_inDiscards p),
     ni_outDiscards := keep_value (ni_outDiscards n) (po_outDiscards p), ni_lastChangeAt := keep (ni_lastChangeAt n) (po_lastChangeAt p),
     ni_lastPolledAt := Some polledAt, ni_updatedAt := now\<rparr>"

definition upsertInterfaces :: "dbgen \<Rightarrow> ident \<Rightarrow> port_report list \<Rightarrow> ms \<Rightarrow> ms \<Rightarrow> db \<Rightarrow> db \<times> nat" where
  "upsertInterfaces g deviceId interfaces polledAt now d =
     (if interfaces = [] then (d, 0)
      else
        let ports = ports_by_index interfaces;
            t1 = fst (create_many_skip (\<lambda>n. (ni_deviceId n, ni_ifIndex n))
                   (map (\<lambda>(j, p). new_port (cuid g j) deviceId now p) (enumerate 0 ports)) (networkInterfaces d));
            t2 = map (\<lambda>n. if ni_deviceId n = deviceId then (case find_first (\<lambda>p. po_ifIndex p = ni_ifIndex n) ports of
                     None \<Rightarrow> n | Some p \<Rightarrow> port_upd polledAt now p n) else n) t1
        in (d\<lparr>networkInterfaces := t2\<rparr>, length ports))"

definition device_upd :: "device_report \<Rightarrow> ms \<Rightarrow> network_device_row \<Rightarrow> network_device_row" where
  "device_upd v time x = x\<lparr>nd_type := keep_value (nd_type x) (dv_type v), nd_vendor := keep (nd_vendor x) (dv_vendor v),
     nd_model := keep (nd_model x) (dv_model v), nd_firmwareVersion := keep (nd_firmwareVersion x) (dv_firmwareVersion v),
     nd_serialNumber := keep (nd_serialNumber x) (dv_serialNumber v), nd_sysName := keep (nd_sysName x) (dv_sysName v),
     nd_sysDescr := keep (nd_sysDescr x) (dv_sysDescr v), nd_sysLocation := keep (nd_sysLocation x) (dv_sysLocation v),
     nd_sysContact := keep (nd_sysContact x) (dv_sysContact v),
     nd_uptimeSeconds := keep (nd_uptimeSeconds x) (map_option js_round (dv_uptimeSeconds v)),
     nd_powerWatts := keep (nd_powerWatts x) (dv_powerWatts v), nd_snmpVersion := keep_value (nd_snmpVersion x) (dv_snmpVersion v),
     nd_status := (if dv_reachable v then UP else DOWN), nd_lastPolledAt := Some time\<rparr>"

definition new_device :: "dbgen \<Rightarrow> agent \<Rightarrow> device_report \<Rightarrow> ms \<Rightarrow> network_device_row" where
  "new_device g ag v time = device_upd v time
     \<lparr>nd_id = cuid g 0, nd_orgId = ag_orgId ag,
      nd_name = (case dv_name v of Some n \<Rightarrow> n | None \<Rightarrow> (case dv_sysName v of Some n \<Rightarrow> n | None \<Rightarrow> dv_ipAddress v)),
      nd_ipAddress = dv_ipAddress v, nd_type = DEVICE_OTHER, nd_tags = [], nd_enabled = True, nd_vendor = None, nd_model = None,
      nd_firmwareVersion = None, nd_serialNumber = None, nd_sysName = None, nd_sysDescr = None, nd_sysLocation = None,
      nd_sysContact = None, nd_uptimeSeconds = None, nd_powerWatts = None, nd_pollerHostId = Some (ag_hostId ag), nd_pollIntervalSec = 60,
      nd_snmpVersion = V2C, nd_snmpPort = 161, nd_snmpTimeoutMs = 3000, nd_snmpRetries = 1, nd_snmpCommunityEnc = None,
      nd_snmpV3Username = None, nd_snmpV3SecurityLevel = None, nd_snmpV3AuthProtocol = None, nd_snmpV3AuthKeyEnc = None,
      nd_snmpV3PrivProtocol = None, nd_snmpV3PrivKeyEnc = None, nd_snmpV3ContextName = None, nd_status = UNKNOWN,
      nd_lastPolledAt = None, nd_createdAt = clock g\<rparr>"

definition is_device :: "agent \<Rightarrow> device_report \<Rightarrow> network_device_row \<Rightarrow> bool" where
  "is_device ag v x = (nd_orgId x = ag_orgId ag \<and> nd_ipAddress x = dv_ipAddress v)"

text \<open>The table after the upsert and the id of the device.\<close>

definition upsert_device :: "dbgen \<Rightarrow> agent \<Rightarrow> device_report \<Rightarrow> ms \<Rightarrow> network_device_row list \<Rightarrow> network_device_row list \<times> ident" where
  "upsert_device g ag v time t =
     (case find_first (is_device ag v) t of
        Some x \<Rightarrow> (update_many (is_device ag v) (device_upd v time) t, nd_id x)
      | None \<Rightarrow> (insert_row (new_device g ag v time) t, cuid g 0))"

definition ingest_device :: "dbgen \<Rightarrow> dbgen \<Rightarrow> agent \<Rightarrow> device_report \<Rightarrow> ingest_context \<Rightarrow> db \<Rightarrow> (db \<times> metric_row list \<times> nat, telemetry_exn) result" where
  "ingest_device g gp ag v ctx d =
     (case parseCollectedAt (dv_collectedAt v) ctx of
        fail e \<Rightarrow> fail e
      | ok time \<Rightarrow>
          let (t, did) = upsert_device g ag v time (networkDevices d);
              d1 = d\<lparr>networkDevices := t\<rparr>
          in if dv_reachable v
             then let (d2, n) = upsertInterfaces gp did (dv_interfaces v) time (cx_now ctx) d1
                  in ok (d2, deviceMetricRows (ag_orgId ag) did v time, n)
             else ok (d1, [], 0))"

primrec ingestSnmpDevices ::
  "ingest_gens \<Rightarrow> nat \<Rightarrow> agent \<Rightarrow> device_report list \<Rightarrow> ingest_context \<Rightarrow> db \<Rightarrow> (db \<times> metric_row list \<times> nat, telemetry_exn) result" where
  "ingestSnmpDevices gs k ag [] ctx d = ok (d, [], 0)"
| "ingestSnmpDevices gs k ag (v # vs) ctx d =
     (case ingest_device (ig_device gs k) (ig_port gs k) ag v ctx d of
        fail e \<Rightarrow> fail e
      | ok (d1, rows, n) \<Rightarrow>
          (case ingestSnmpDevices gs (Suc k) ag vs ctx d1 of
             fail e \<Rightarrow> fail e
           | ok (d2, rows', n') \<Rightarrow> ok (d2, rows @ rows', n + n')))"

section \<open>Databases\<close>

definition database_upd :: "database_report \<Rightarrow> ms \<Rightarrow> database_row \<Rightarrow> database_row" where
  "database_upd b time x = x\<lparr>db_version := keep (db_version x) (dr_version b), db_endpoint := keep (db_endpoint x) (dr_endpoint b),
     db_isReplica := keep_value (db_isReplica x) (dr_isReplica b), db_storageQuotaBytes := keep (db_storageQuotaBytes x) (dr_storageQuotaBytes b),
     db_maxConnections := keep (db_maxConnections x) (dr_maxConnections b),
     db_slowQueryThresholdMs := keep_value (db_slowQueryThresholdMs x) (dr_slowQueryThresholdMs b),
     db_storageUsedBytes := keep (db_storageUsedBytes x) (dr_storageUsedBytes b),
     db_activeConnections := keep (db_activeConnections x) (dr_activeConnections b),
     db_cacheHitRatio := keep (db_cacheHitRatio x) (dr_cacheHitRatio b), db_deadlocksTotal := keep (db_deadlocksTotal x) (dr_deadlocksTotal b),
     db_replicationLagSeconds := keep (db_replicationLagSeconds x) (dr_replicationLagSeconds b),
     db_status := (if dr_reachable b then UP else DOWN), db_lastPolledAt := Some time\<rparr>"

definition new_database :: "dbgen \<Rightarrow> agent \<Rightarrow> database_report \<Rightarrow> ms \<Rightarrow> database_row" where
  "new_database g ag b time = database_upd b time
     \<lparr>db_id = cuid g 0, db_orgId = ag_orgId ag, db_hostId = Some (ag_hostId ag), db_name = dr_name b, db_engine = dr_engine b,
      db_version = None, db_endpoint = None, db_isReplica = False, db_tags = [], db_enabled = True, db_storageQuotaBytes = None,
      db_storageUsedBytes = None, db_maxConnections = None, db_activeConnections = None, db_cacheHitRatio = None,
      db_deadlocksTotal = None, db_replicationLagSeconds = None, db_slowQueryThresholdMs = 1000, db_status = UNKNOWN,
      db_lastPolledAt = None, db_createdAt = clock g\<rparr>"

definition is_database :: "agent \<Rightarrow> database_report \<Rightarrow> database_row \<Rightarrow> bool" where
  "is_database ag b x = (db_orgId x = ag_orgId ag \<and> db_hostId x = Some (ag_hostId ag) \<and> db_engine x = dr_engine b \<and> db_name x = dr_name b)"

definition upsert_database :: "dbgen \<Rightarrow> agent \<Rightarrow> database_report \<Rightarrow> ms \<Rightarrow> database_row list \<Rightarrow> database_row list \<times> database_row" where
  "upsert_database g ag b time t =
     (case find_first (is_database ag b) t of
        Some x \<Rightarrow> (update_many (is_database ag b) (database_upd b time) t, database_upd b time x)
      | None \<Rightarrow> (insert_row (new_database g ag b time) t, new_database g ag b time))"

primrec parse_queries :: "dbgen \<Rightarrow> nat \<Rightarrow> ident \<Rightarrow> ingest_context \<Rightarrow> query_report list \<Rightarrow> (slow_query_row list, telemetry_exn) result" where
  "parse_queries g j dbId ctx [] = ok []"
| "parse_queries g j dbId ctx (q # qs) =
     (case parseCollectedAt (qr_capturedAt q) ctx of
        fail e \<Rightarrow> fail e
      | ok time \<Rightarrow>
          (case parse_queries g (Suc j) dbId ctx qs of
             fail e \<Rightarrow> fail e
           | ok rows \<Rightarrow> ok (\<lparr>sq_id = cuid g j, sq_dbInstanceId = dbId, sq_capturedAt = time, sq_fingerprint = qr_fingerprint q,
               sq_queryText = qr_queryText q, sq_durationMs = qr_durationMs q, sq_calls = (case qr_calls q of Some n \<Rightarrow> n | None \<Rightarrow> 1),
               sq_rowsExamined = qr_rowsExamined q, sq_rowsReturned = qr_rowsReturned q, sq_databaseName = qr_databaseName q,
               sq_userName = qr_userName q\<rparr> # rows)))"

definition query_key :: "slow_query_row \<Rightarrow> ident \<times> string \<times> ms" where
  "query_key q = (sq_dbInstanceId q, sq_fingerprint q, sq_capturedAt q)"

definition ingest_database :: "dbgen \<Rightarrow> dbgen \<Rightarrow> agent \<Rightarrow> database_report \<Rightarrow> ingest_context \<Rightarrow> db \<Rightarrow> (db \<times> metric_row list \<times> nat, telemetry_exn) result" where
  "ingest_database g gq ag b ctx d =
     (case parseCollectedAt (dr_collectedAt b) ctx of
        fail e \<Rightarrow> fail e
      | ok time \<Rightarrow>
          let (t, stored) = upsert_database g ag b time (databaseInstances d);
              d1 = d\<lparr>databaseInstances := t\<rparr>;
              rows = (if dr_reachable b then databaseMetricRows (ag_orgId ag) (db_id stored) b time (db_maxConnections stored) else [])
          in (case parse_queries gq 0 (db_id stored) ctx (dr_slowQueries b) of
                fail e \<Rightarrow> fail e
              | ok qs \<Rightarrow> let (q, n) = create_many_skip query_key qs (slowQueryLogs d1) in ok (d1\<lparr>slowQueryLogs := q\<rparr>, rows, n)))"

primrec ingestDatabases ::
  "ingest_gens \<Rightarrow> nat \<Rightarrow> agent \<Rightarrow> database_report list \<Rightarrow> ingest_context \<Rightarrow> db \<Rightarrow> (db \<times> metric_row list \<times> nat, telemetry_exn) result" where
  "ingestDatabases gs k ag [] ctx d = ok (d, [], 0)"
| "ingestDatabases gs k ag (b # bs) ctx d =
     (case ingest_database (ig_database gs k) (ig_query gs k) ag b ctx d of
        fail e \<Rightarrow> fail e
      | ok (d1, rows, n) \<Rightarrow>
          (case ingestDatabases gs (Suc k) ag bs ctx d1 of
             fail e \<Rightarrow> fail e
           | ok (d2, rows', n') \<Rightarrow> ok (d2, rows @ rows', n + n')))"

section \<open>Time series\<close>

definition METRIC_INSERT_CHUNK :: nat where "METRIC_INSERT_CHUNK = 5000"

definition metric_key :: "metric_row \<Rightarrow> ident \<times> metric_type \<times> string \<times> ms" where
  "metric_key r = (me_sourceId r, me_metric r, me_instance r, me_time r)"

function write_chunks :: "nat \<Rightarrow> metric_row list \<Rightarrow> metric_row list \<Rightarrow> nat \<Rightarrow> metric_row list \<times> nat" where
  "write_chunks i rows t stored =
     (if i < length rows
      then let (t', n) = create_many_skip metric_key (take METRIC_INSERT_CHUNK (drop i rows)) t
           in write_chunks (i + METRIC_INSERT_CHUNK) rows t' (stored + n)
      else (t, stored))"
  by pat_completeness auto
termination by (relation "measure (\<lambda>(i, rows, t, stored). length rows - i)") (auto simp: METRIC_INSERT_CHUNK_def)

declare write_chunks.simps [simp del]

definition writeMetricRows :: "metric_row list \<Rightarrow> db \<Rightarrow> db \<times> nat" where
  "writeMetricRows rows d = (let (t, n) = write_chunks 0 rows (metricEntries d) 0 in (d\<lparr>metricEntries := t\<rparr>, n))"

record ingest_result =
  ir_metricsReceived :: nat
  ir_metricsStored :: nat
  ir_devices :: nat
  ir_interfaces :: nat
  ir_databases :: nat
  ir_slowQueriesStored :: nat

text \<open>The body of the transaction: the new database, the rows it wrote and the counts.\<close>

definition ingest_transaction ::
  "ingest_gens \<Rightarrow> agent \<Rightarrow> telemetry_payload \<Rightarrow> ingest_context \<Rightarrow> db \<Rightarrow> (db \<times> metric_row list \<times> ingest_result, telemetry_exn) result" where
  "ingest_transaction gs ag p ctx d =
     (case recordHeartbeat ag (tp_agent p) (cx_now ctx) d of
        fail e \<Rightarrow> fail e
      | ok d0 \<Rightarrow>
          (case (case tp_system p of None \<Rightarrow> ok (d0, []) | Some y \<Rightarrow> ingestSystem ag y ctx d0) of
             fail e \<Rightarrow> fail e
           | ok (d1, rows1) \<Rightarrow>
               (case ingestSnmpDevices gs 0 ag (tp_snmpDevices p) ctx d1 of
                  fail e \<Rightarrow> fail e
                | ok (d2, rows2, ports) \<Rightarrow>
                    (case ingestDatabases gs 0 ag (tp_databases p) ctx d2 of
                       fail e \<Rightarrow> fail e
                     | ok (d3, rows3, queries) \<Rightarrow>
                         let rows = rows1 @ rows2 @ rows3;
                             (d4, n) = writeMetricRows rows d3
                         in ok (d4, rows, \<lparr>ir_metricsReceived = length rows, ir_metricsStored = n, ir_devices = length (tp_snmpDevices p),
                              ir_interfaces = ports, ir_databases = length (tp_databases p), ir_slowQueriesStored = queries\<rparr>)))))"

definition ingestTelemetry ::
  "eval_env \<Rightarrow> (nat \<Rightarrow> nat \<Rightarrow> dbgen) \<Rightarrow> ingest_gens \<Rightarrow> agent \<Rightarrow> telemetry_payload \<Rightarrow> ingest_context \<Rightarrow> db \<times> baseline_cache
     \<Rightarrow> (db \<times> baseline_cache) \<times> (ingest_result, telemetry_exn) result" where
  "ingestTelemetry env gens gs ag p ctx s =
     (case ingest_transaction gs ag p ctx (fst s) of
        fail e \<Rightarrow> (s, fail e)
      | ok (d1, rows, result) \<Rightarrow> (evaluateIngestedMetrics env gens (ag_orgId ag) rows (cx_now ctx) (d1, snd s), ok result))"

section \<open>Lemmas: inserting without duplicates\<close>

lemma create_many_skip_append:
  "create_many_skip key (xs @ ys) t = (let (t1, n) = create_many_skip key xs t; (t2, m) = create_many_skip key ys t1 in (t2, n + m))"
  by (induction xs arbitrary: t) (auto simp: Let_def split_beta)

lemma create_many_skip_present: "key ` set xs \<subseteq> key ` set t \<Longrightarrow> create_many_skip key xs t = (t, 0)"
  by (induction xs) auto

lemma create_many_skip_props:
  assumes "create_many_skip key xs t = (t', n)"
  shows "key ` set t' = key ` set t \<union> key ` set xs" and "\<exists>new. t' = t @ new \<and> length new = n \<and> set new \<subseteq> set xs"
    and "distinct (map key t) \<Longrightarrow> distinct (map key t')"
proof -
  have "key ` set t' = key ` set t \<union> key ` set xs \<and> (\<exists>new. t' = t @ new \<and> length new = n \<and> set new \<subseteq> set xs)
      \<and> (distinct (map key t) \<longrightarrow> distinct (map key t'))"
    using assms
  proof (induction xs arbitrary: t n)
    case (Cons x xs)
    show ?case
    proof (cases "key x \<in> key ` set t")
      case True
      with Cons show ?thesis by force
    next
      case False
      obtain t1 m where r: "create_many_skip key xs (t @ [x]) = (t1, m)" by (cases "create_many_skip key xs (t @ [x])")
      with Cons.prems False have e: "t' = t1" "n = Suc m" by simp_all
      have "create_many_skip key xs (t @ [x]) = (t', m)" using r e by simp
      from Cons.IH[OF this] False e show ?thesis by force
    qed
  qed simp
  then show "key ` set t' = key ` set t \<union> key ` set xs" and "\<exists>new. t' = t @ new \<and> length new = n \<and> set new \<subseteq> set xs"
    and "distinct (map key t) \<Longrightarrow> distinct (map key t')" by blast+
qed

lemma create_many_skip_count: "create_many_skip key xs t = (t', n) \<Longrightarrow> n \<le> length xs"
  by (induction xs arbitrary: t n) (force simp: Let_def split_beta split: if_splits)+

lemma write_chunks_whole:
  "write_chunks i rows t stored = (let (t', n) = create_many_skip metric_key (drop i rows) t in (t', stored + n))"
proof (induction i rows t stored rule: write_chunks.induct)
  case (1 i rows t stored)
  show ?case
  proof (cases "i < length rows")
    case True
    obtain t1 n where c: "create_many_skip metric_key (take METRIC_INSERT_CHUNK (drop i rows)) t = (t1, n)"
      by (cases "create_many_skip metric_key (take METRIC_INSERT_CHUNK (drop i rows)) t")
    have "drop i rows = take METRIC_INSERT_CHUNK (drop i rows) @ drop (i + METRIC_INSERT_CHUNK) rows"
      by (metis add.commute append_take_drop_id drop_drop)
    then have "create_many_skip metric_key (drop i rows) t
        = (let (t2, m) = create_many_skip metric_key (drop (i + METRIC_INSERT_CHUNK) rows) t1 in (t2, n + m))"
      using create_many_skip_append[of metric_key "take METRIC_INSERT_CHUNK (drop i rows)" "drop (i + METRIC_INSERT_CHUNK) rows" t] c
      by (simp add: Let_def)
    then show ?thesis using 1[OF True c[symmetric] refl] True c by (subst write_chunks.simps) (simp add: split_beta Let_def)
  next
    case False
    then show ?thesis by (subst write_chunks.simps) simp
  qed
qed

lemma writeMetricRows_whole:
  "writeMetricRows rows d = (let (t, n) = create_many_skip metric_key rows (metricEntries d) in (d\<lparr>metricEntries := t\<rparr>, n))"
  by (simp add: writeMetricRows_def write_chunks_whole Let_def split_beta)

section \<open>Lemmas: what a report is filed under\<close>

lemma parseCollectedAt_ok: "parseCollectedAt s ctx = ok t \<Longrightarrow> s = Some t"
  by (auto simp: parseCollectedAt_def Let_def split: option.splits if_splits)

lemma parseCollectedAt_bounds:
  "parseCollectedAt s ctx = ok t \<Longrightarrow> cx_now ctx - cx_maxBackfillMs ctx \<le> t \<and> t \<le> cx_now ctx + cx_maxSkewMs ctx"
  by (auto simp: parseCollectedAt_def Let_def split: option.splits if_splits)

lemma find_first_update_many: "(\<And>x. Q (f x) = Q x) \<Longrightarrow> find_first Q (update_many P f t) = map_option (\<lambda>x. if P x then f x else x) (find_first Q t)"
  by (induction t) auto

definition device_id :: "agent \<Rightarrow> device_report \<Rightarrow> network_device_row list \<Rightarrow> ident option" where
  "device_id ag v t = map_option nd_id (find_first (is_device ag v) t)"

lemma device_upd_keys [simp]: "nd_id (device_upd v time x) = nd_id x" "is_device ag w (device_upd v time x) = is_device ag w x"
  by (simp_all add: device_upd_def is_device_def)

lemma new_device_keys: "nd_id (new_device g ag v time) = cuid g 0" "is_device ag v (new_device g ag v time)"
  by (simp_all add: new_device_def is_device_def device_upd_def)

lemma upsert_device_id:
  assumes "upsert_device g ag v time t = (t', did)"
  shows "device_id ag v t' = Some did" and "device_id ag w t = Some i \<Longrightarrow> device_id ag w t' = Some i"
proof -
  show "device_id ag v t' = Some did"
    using assms by (auto simp: upsert_device_def device_id_def insert_row_def find_first_append find_first_update_many new_device_keys split: option.splits)
  show "device_id ag w t = Some i \<Longrightarrow> device_id ag w t' = Some i"
    using assms by (auto simp: upsert_device_def device_id_def insert_row_def find_first_append find_first_update_many split: option.splits)
qed

definition device_rows :: "agent \<Rightarrow> network_device_row list \<Rightarrow> device_report \<Rightarrow> metric_row list" where
  "device_rows ag t v = (if dv_reachable v then deviceMetricRows (ag_orgId ag) (the (device_id ag v t)) v (the (dv_collectedAt v)) else [])"

lemma upsertInterfaces_frame:
  "networkDevices (fst (upsertInterfaces g did ps pa now d)) = networkDevices d"
  "databaseInstances (fst (upsertInterfaces g did ps pa now d)) = databaseInstances d"
  "slowQueryLogs (fst (upsertInterfaces g did ps pa now d)) = slowQueryLogs d"
  "metricEntries (fst (upsertInterfaces g did ps pa now d)) = metricEntries d"
  by (simp_all add: upsertInterfaces_def Let_def)

lemma ingest_device_ok:
  assumes "ingest_device g gp ag v ctx d = ok (d', rows, n)"
  shows "device_id ag v (networkDevices d') \<noteq> None" and "device_id ag w (networkDevices d) = Some i \<Longrightarrow> device_id ag w (networkDevices d') = Some i"
    and "rows = device_rows ag (networkDevices d') v"
    and "databaseInstances d' = databaseInstances d" "slowQueryLogs d' = slowQueryLogs d" "metricEntries d' = metricEntries d"
proof -
  from assms obtain time where time: "parseCollectedAt (dv_collectedAt v) ctx = ok time"
    by (auto simp: ingest_device_def split: result.splits)
  obtain t did where u: "upsert_device g ag v time (networkDevices d) = (t, did)" by (cases "upsert_device g ag v time (networkDevices d)")
  have "(d', rows) = (if dv_reachable v
      then (fst (upsertInterfaces gp did (dv_interfaces v) time (cx_now ctx) (d\<lparr>networkDevices := t\<rparr>)), deviceMetricRows (ag_orgId ag) did v time)
      else (d\<lparr>networkDevices := t\<rparr>, []))"
    using assms time u by (simp add: ingest_device_def split_beta Let_def split: if_splits)
  then have d': "networkDevices d' = t" "databaseInstances d' = databaseInstances d" "slowQueryLogs d' = slowQueryLogs d" "metricEntries d' = metricEntries d"
    and rows: "rows = (if dv_reachable v then deviceMetricRows (ag_orgId ag) did v time else [])"
    by (simp_all add: upsertInterfaces_frame split: if_splits)
  show "device_id ag v (networkDevices d') \<noteq> None" and "device_id ag w (networkDevices d) = Some i \<Longrightarrow> device_id ag w (networkDevices d') = Some i"
    using upsert_device_id[OF u] d'(1) by auto
  show "rows = device_rows ag (networkDevices d') v"
    using rows upsert_device_id(1)[OF u] d'(1) parseCollectedAt_ok[OF time] by (simp add: device_rows_def)
  show "databaseInstances d' = databaseInstances d" "slowQueryLogs d' = slowQueryLogs d" "metricEntries d' = metricEntries d" by fact+
qed

lemma ingest_devices_ok:
  assumes "ingestSnmpDevices gs k ag vs ctx d = ok (d', rows, n)"
  shows "\<forall>v \<in> set vs. device_id ag v (networkDevices d') \<noteq> None" and "device_id ag w (networkDevices d) = Some i \<Longrightarrow> device_id ag w (networkDevices d') = Some i"
    and "rows = concat (map (device_rows ag (networkDevices d')) vs)"
    and "databaseInstances d' = databaseInstances d" "slowQueryLogs d' = slowQueryLogs d" "metricEntries d' = metricEntries d"
proof -
  have "(\<forall>v \<in> set vs. device_id ag v (networkDevices d') \<noteq> None) \<and> (\<forall>w i. device_id ag w (networkDevices d) = Some i \<longrightarrow> device_id ag w (networkDevices d') = Some i)
    \<and> rows = concat (map (device_rows ag (networkDevices d')) vs)
    \<and> databaseInstances d' = databaseInstances d \<and> slowQueryLogs d' = slowQueryLogs d \<and> metricEntries d' = metricEntries d"
    using assms
  proof (induction vs arbitrary: k d rows n)
    case (Cons v vs)
    from Cons.prems obtain d1 rows1 n1 rows2 n2 where
      one: "ingest_device (ig_device gs k) (ig_port gs k) ag v ctx d = ok (d1, rows1, n1)"
      and rest: "ingestSnmpDevices gs (Suc k) ag vs ctx d1 = ok (d', rows2, n2)" and rows: "rows = rows1 @ rows2"
      by (auto split: result.splits)
    note o = ingest_device_ok[OF one] and IH = Cons.IH[OF rest]
    obtain i where i: "device_id ag v (networkDevices d1) = Some i" using o(1) by auto
    then have "device_id ag v (networkDevices d') = Some i" using IH by blast
    then have "rows1 = device_rows ag (networkDevices d') v" using i o(3) by (simp add: device_rows_def)
    then show ?case using \<open>device_id ag v (networkDevices d') = Some i\<close> IH o rows by auto
  qed simp
  then show "\<forall>v \<in> set vs. device_id ag v (networkDevices d') \<noteq> None" and "device_id ag w (networkDevices d) = Some i \<Longrightarrow> device_id ag w (networkDevices d') = Some i"
    and "rows = concat (map (device_rows ag (networkDevices d')) vs)"
    and "databaseInstances d' = databaseInstances d" "slowQueryLogs d' = slowQueryLogs d" "metricEntries d' = metricEntries d" by blast+
qed

text \<open>Databases: the id and the connection limit a report is filed with.\<close>

definition database_of :: "agent \<Rightarrow> database_report \<Rightarrow> database_row list \<Rightarrow> database_row option" where
  "database_of ag b t = find_first (is_database ag b) t"

definition instance_key :: "database_report \<Rightarrow> database_engine \<times> string" where
  "instance_key b = (dr_engine b, dr_name b)"

definition same_view :: "database_row \<Rightarrow> database_row \<Rightarrow> bool" where
  "same_view x y = (db_id x = db_id y \<and> db_maxConnections x = db_maxConnections y)"

definition settled :: "database_report \<Rightarrow> database_row \<Rightarrow> bool" where
  "settled b x = (dr_maxConnections b \<noteq> None \<longrightarrow> db_maxConnections x = dr_maxConnections b)"

lemma database_upd_keys [simp]: "db_id (database_upd b time x) = db_id x" "is_database ag c (database_upd b time x) = is_database ag c x"
  "settled b (database_upd b time x)" "settled b x \<Longrightarrow> db_maxConnections (database_upd b time x) = db_maxConnections x"
  by (auto simp: database_upd_def is_database_def settled_def keep_def split: option.splits)

lemma new_database_keys: "is_database ag b (new_database g ag b time)" "settled b (new_database g ag b time)"
  by (auto simp: new_database_def is_database_def database_upd_def settled_def keep_def split: option.split)

lemma other_instance: "instance_key c \<noteq> instance_key b \<Longrightarrow> is_database ag c x \<Longrightarrow> \<not> is_database ag b x"
  by (auto simp: is_database_def instance_key_def)

lemma upsert_database_view:
  assumes "upsert_database g ag b time t = (t', x)"
  shows "database_of ag b t' = Some x" and "settled b x"
    and "database_of ag b t = Some y \<Longrightarrow> db_id x = db_id y" and "database_of ag b t = Some y \<Longrightarrow> settled b y \<Longrightarrow> same_view x y"
    and "instance_key c \<noteq> instance_key b \<Longrightarrow> database_of ag c t = Some z \<Longrightarrow> database_of ag c t' = Some z"
proof -
  show "database_of ag b t' = Some x" and "settled b x"
    using assms by (auto simp: upsert_database_def database_of_def insert_row_def find_first_append find_first_update_many new_database_keys
        dest: find_first_SomeD split: option.splits)
  show "database_of ag b t = Some y \<Longrightarrow> db_id x = db_id y" and "database_of ag b t = Some y \<Longrightarrow> settled b y \<Longrightarrow> same_view x y"
    using assms by (auto simp: upsert_database_def database_of_def same_view_def)
  show "database_of ag c t' = Some z" if "instance_key c \<noteq> instance_key b" "database_of ag c t = Some z"
    using assms that other_instance[OF that(1)] find_first_SomeD[of "is_database ag c" t z]
    by (auto simp: upsert_database_def database_of_def insert_row_def find_first_append find_first_update_many split: option.splits)
qed

definition database_rows :: "agent \<Rightarrow> database_row list \<Rightarrow> database_report \<Rightarrow> metric_row list" where
  "database_rows ag t b = (if dr_reachable b then (let x = the (database_of ag b t) in
     databaseMetricRows (ag_orgId ag) (db_id x) b (the (dr_collectedAt b)) (db_maxConnections x)) else [])"

definition query_keys :: "ident \<Rightarrow> database_report \<Rightarrow> (ident \<times> string \<times> ms) set" where
  "query_keys i b = (\<lambda>q. (i, qr_fingerprint q, the (qr_capturedAt q))) ` set (dr_slowQueries b)"

lemma parse_queries_keys: "parse_queries g j i ctx qs = ok rows \<Longrightarrow> query_key ` set rows = (\<lambda>q. (i, qr_fingerprint q, the (qr_capturedAt q))) ` set qs"
proof (induction qs arbitrary: j rows)
  case (Cons q qs)
  from Cons.prems obtain time r rows' where t: "parseCollectedAt (qr_capturedAt q) ctx = ok time"
      and rest: "parse_queries g (Suc j) i ctx qs = ok rows'" and rows: "rows = r # rows'"
      and r: "sq_dbInstanceId r = i" "sq_fingerprint r = qr_fingerprint q" "sq_capturedAt r = time"
    by (auto split: result.splits)
  have "query_key r = (i, qr_fingerprint q, the (qr_capturedAt q))" using r parseCollectedAt_ok[OF t] by (simp add: query_key_def)
  then show ?case using Cons.IH[OF rest] rows by simp
qed simp

lemma database_rows_same_view:
  "database_of ag b t = Some x \<Longrightarrow> database_of ag b t' = Some y \<Longrightarrow> same_view y x \<Longrightarrow> database_rows ag t' b = database_rows ag t b"
  by (simp add: database_rows_def same_view_def)

lemma ingest_database_ok:
  assumes "ingest_database g gq ag b ctx d = ok (d', rows, n)"
  obtains time x qs where "upsert_database g ag b time (databaseInstances d) = (databaseInstances d', x)"
    and "rows = database_rows ag (databaseInstances d') b" and "metricEntries d' = metricEntries d"
    and "query_key ` set qs = query_keys (db_id x) b" and "create_many_skip query_key qs (slowQueryLogs d) = (slowQueryLogs d', n)"
proof -
  from assms obtain time where time: "parseCollectedAt (dr_collectedAt b) ctx = ok time"
    by (auto simp: ingest_database_def split: result.splits)
  obtain t x where u: "upsert_database g ag b time (databaseInstances d) = (t, x)" by (cases "upsert_database g ag b time (databaseInstances d)")
  from assms time u obtain qs where qs: "parse_queries gq 0 (db_id x) ctx (dr_slowQueries b) = ok qs"
    by (auto simp: ingest_database_def Let_def split: result.splits)
  obtain l m where l: "create_many_skip query_key qs (slowQueryLogs d) = (l, m)" by (cases "create_many_skip query_key qs (slowQueryLogs d)")
  have d': "d' = d\<lparr>databaseInstances := t, slowQueryLogs := l\<rparr>" "n = m"
    and rows: "rows = (if dr_reachable b then databaseMetricRows (ag_orgId ag) (db_id x) b time (db_maxConnections x) else [])"
    using assms time u qs l by (auto simp: ingest_database_def Let_def)
  show thesis
  proof (rule that)
    show "rows = database_rows ag (databaseInstances d') b"
      using rows upsert_database_view(1)[OF u] parseCollectedAt_ok[OF time] by (simp add: d' database_rows_def Let_def)
    show "query_key ` set qs = query_keys (db_id x) b" using parse_queries_keys[OF qs] by (simp add: query_keys_def)
  qed (use u l d' in simp_all)
qed

text \<open>After a whole list of different instances: every report is filed, and what was filed stays where it was.\<close>

lemma ingest_databases_ok:
  assumes "ingestDatabases gs k ag bs ctx d = ok (d', rows, n)" and "distinct (map instance_key bs)"
  shows "(\<forall>b \<in> set bs. \<exists>x. database_of ag b (databaseInstances d') = Some x \<and> settled b x \<and> query_keys (db_id x) b \<subseteq> query_key ` set (slowQueryLogs d'))
    \<and> (\<forall>c z. instance_key c \<notin> set (map instance_key bs) \<longrightarrow> database_of ag c (databaseInstances d) = Some z \<longrightarrow> database_of ag c (databaseInstances d') = Some z)
    \<and> (\<forall>b z. b \<in> set bs \<longrightarrow> database_of ag b (databaseInstances d) = Some z \<longrightarrow> settled b z
         \<longrightarrow> (\<exists>x. database_of ag b (databaseInstances d') = Some x \<and> same_view x z))
    \<and> rows = concat (map (database_rows ag (databaseInstances d')) bs)
    \<and> query_key ` set (slowQueryLogs d) \<subseteq> query_key ` set (slowQueryLogs d') \<and> metricEntries d' = metricEntries d"
  using assms
proof (induction bs arbitrary: k d rows n)
  case (Cons b bs)
  from Cons.prems obtain d1 rows1 n1 rows2 n2 where
    one: "ingest_database (ig_database gs k) (ig_query gs k) ag b ctx d = ok (d1, rows1, n1)"
    and rest: "ingestDatabases gs (Suc k) ag bs ctx d1 = ok (d', rows2, n2)" and rows: "rows = rows1 @ rows2"
    by (auto split: result.splits)
  obtain time x qs where u: "upsert_database (ig_database gs k) ag b time (databaseInstances d) = (databaseInstances d1, x)"
    and rows1: "rows1 = database_rows ag (databaseInstances d1) b" and m: "metricEntries d1 = metricEntries d"
    and q: "query_key ` set qs = query_keys (db_id x) b" "create_many_skip query_key qs (slowQueryLogs d) = (slowQueryLogs d1, n1)"
    by (rule ingest_database_ok[OF one])
  note v = upsert_database_view[OF u] and keys = create_many_skip_props(1)[OF q(2)]
  have dist: "instance_key b \<notin> set (map instance_key bs)" "distinct (map instance_key bs)" using Cons.prems(2) by simp_all
  note IH = Cons.IH[OF rest dist(2)]
  have b': "database_of ag b (databaseInstances d') = Some x" using IH dist(1) v(1) by blast
  have rows': "rows1 = database_rows ag (databaseInstances d') b" using v(1) b' by (simp add: rows1 database_rows_def)
  have sub: "query_key ` set (slowQueryLogs d1) \<subseteq> query_key ` set (slowQueryLogs d')" using IH by (elim conjE)
  have qk: "query_keys (db_id x) b \<subseteq> query_key ` set (slowQueryLogs d')" using sub unfolding keys q(1) by simp
  have other: "instance_key c \<noteq> instance_key b" if "c \<in> set bs" for c using that dist(1) by (metis image_eqI set_map)
  show ?case
  proof (intro conjI allI impI ballI)
    fix c assume "c \<in> set (b # bs)"
    then show "\<exists>x. database_of ag c (databaseInstances d') = Some x \<and> settled c x \<and> query_keys (db_id x) c \<subseteq> query_key ` set (slowQueryLogs d')"
      using IH b' qk v(2) by auto
  next
    fix c z assume "instance_key c \<notin> set (map instance_key (b # bs))" "database_of ag c (databaseInstances d) = Some z"
    then show "database_of ag c (databaseInstances d') = Some z" using IH v(5)[of c z] by auto
  next
    fix c z assume c: "c \<in> set (b # bs)" "database_of ag c (databaseInstances d) = Some z" "settled c z"
    show "\<exists>x. database_of ag c (databaseInstances d') = Some x \<and> same_view x z"
    proof (cases "c = b")
      case True
      then show ?thesis using b' v(4) c by blast
    next
      case False
      then have "c \<in> set bs" using c(1) by simp
      then show ?thesis using IH v(5)[OF other c(2)] c(3) by blast
    qed
  next
    show "rows = concat (map (database_rows ag (databaseInstances d')) (b # bs))" using IH rows rows' by simp
    show "query_key ` set (slowQueryLogs d) \<subseteq> query_key ` set (slowQueryLogs d')" using sub unfolding keys by simp
    show "metricEntries d' = metricEntries d" using IH m by simp
  qed
qed simp

text \<open>A database that is known, with its slow queries, is only refreshed.\<close>

lemma ingest_databases_frame: "ingestDatabases gs k ag bs ctx d = ok (d', rows, n) \<Longrightarrow> networkDevices d' = networkDevices d"
  by (induction bs arbitrary: k d rows n) (auto simp: ingest_database_def Let_def split_beta split: result.splits)

lemma ingest_databases_metrics: "ingestDatabases gs k ag bs ctx d = ok (d', rows, n) \<Longrightarrow> metricEntries d' = metricEntries d"
  by (induction bs arbitrary: k d rows n) (auto simp: ingest_database_def Let_def split_beta split: result.splits)

lemma upsert_database_known:
  "upsert_database g ag b time t = (t', x) \<Longrightarrow> database_of ag b t \<noteq> None \<Longrightarrow> map db_id t' = map db_id t"
  by (auto simp: upsert_database_def database_of_def update_many_def split: option.splits)

lemma ingest_databases_known:
  assumes "ingestDatabases gs k ag bs ctx d = ok (d', rows, n)" and "distinct (map instance_key bs)"
    and "\<forall>b \<in> set bs. \<exists>z. database_of ag b (databaseInstances d) = Some z \<and> query_keys (db_id z) b \<subseteq> query_key ` set (slowQueryLogs d)"
  shows "n = 0 \<and> slowQueryLogs d' = slowQueryLogs d \<and> map db_id (databaseInstances d') = map db_id (databaseInstances d)"
  using assms
proof (induction bs arbitrary: k d rows n)
  case (Cons b bs)
  from Cons.prems(1) obtain d1 rows1 n1 rows2 n2 where
    one: "ingest_database (ig_database gs k) (ig_query gs k) ag b ctx d = ok (d1, rows1, n1)"
    and rest: "ingestDatabases gs (Suc k) ag bs ctx d1 = ok (d', rows2, n2)" and n: "n = n1 + n2"
    by (auto split: result.splits)
  obtain time x qs where u: "upsert_database (ig_database gs k) ag b time (databaseInstances d) = (databaseInstances d1, x)"
    and q: "query_key ` set qs = query_keys (db_id x) b" "create_many_skip query_key qs (slowQueryLogs d) = (slowQueryLogs d1, n1)"
    by (rule ingest_database_ok[OF one])
  note v = upsert_database_view[OF u]
  obtain z where z: "database_of ag b (databaseInstances d) = Some z" "query_keys (db_id z) b \<subseteq> query_key ` set (slowQueryLogs d)"
    using Cons.prems(3) by auto
  have "query_key ` set qs \<subseteq> query_key ` set (slowQueryLogs d)" using q(1) z(2) v(3)[OF z(1)] by simp
  from create_many_skip_present[OF this] q(2) have logs: "slowQueryLogs d1 = slowQueryLogs d" "n1 = 0" by simp_all
  have ids: "map db_id (databaseInstances d1) = map db_id (databaseInstances d)" using upsert_database_known[OF u] z(1) by simp
  have other: "instance_key c \<noteq> instance_key b" if "c \<in> set bs" for c using that Cons.prems(2) by (metis distinct.simps(2) image_eqI list.simps(9) set_map)
  have known: "\<forall>c \<in> set bs. \<exists>z. database_of ag c (databaseInstances d1) = Some z \<and> query_keys (db_id z) c \<subseteq> query_key ` set (slowQueryLogs d1)"
  proof
    fix c assume c: "c \<in> set bs"
    then obtain y where "database_of ag c (databaseInstances d) = Some y" "query_keys (db_id y) c \<subseteq> query_key ` set (slowQueryLogs d)"
      using Cons.prems(3) by auto
    then show "\<exists>z. database_of ag c (databaseInstances d1) = Some z \<and> query_keys (db_id z) c \<subseteq> query_key ` set (slowQueryLogs d1)"
      using v(5)[OF other[OF c]] logs(1) by auto
  qed
  have "distinct (map instance_key bs)" using Cons.prems(2) by simp
  from Cons.IH[OF rest this known] show ?case using logs ids n by simp
qed simp

lemma ingest_devices_known:
  assumes "ingestSnmpDevices gs k ag vs ctx d = ok (d', rows, n)" and "\<forall>v \<in> set vs. device_id ag v (networkDevices d) \<noteq> None"
  shows "map nd_id (networkDevices d') = map nd_id (networkDevices d)"
  using assms
proof (induction vs arbitrary: k d rows n)
  case (Cons v vs)
  from Cons.prems(1) obtain d1 rows1 n1 rows2 n2 where
    one: "ingest_device (ig_device gs k) (ig_port gs k) ag v ctx d = ok (d1, rows1, n1)"
    and rest: "ingestSnmpDevices gs (Suc k) ag vs ctx d1 = ok (d', rows2, n2)"
    by (auto split: result.splits)
  from one obtain time where "networkDevices d1 = fst (upsert_device (ig_device gs k) ag v time (networkDevices d))"
    by (auto simp: ingest_device_def Let_def split_beta upsertInterfaces_frame split: result.splits if_splits)
  then have "map nd_id (networkDevices d1) = map nd_id (networkDevices d)"
    using Cons.prems(2) by (auto simp: upsert_device_def device_id_def update_many_def split: option.splits)
  moreover have "\<forall>w \<in> set vs. device_id ag w (networkDevices d1) \<noteq> None"
    using Cons.prems(2) ingest_device_ok(2)[OF one] by fastforce
  ultimately show ?case using Cons.IH[OF rest] by simp
qed simp

section \<open>Lemmas: the transaction\<close>

definition system_rows :: "agent \<Rightarrow> telemetry_payload \<Rightarrow> metric_row list" where
  "system_rows ag p = (case tp_system p of None \<Rightarrow> []
     | Some y \<Rightarrow> systemMetricRows (ag_orgId ag) (ag_hostId ag) y (the (sy_collectedAt y)))"

lemma host_steps_frame:
  assumes "recordHeartbeat ag info now d = ok d0"
    and "(case tp_system p of None \<Rightarrow> ok (d0, []) | Some y \<Rightarrow> ingestSystem ag y ctx d0) = ok (d1, rows)"
  shows "networkDevices d1 = networkDevices d" "databaseInstances d1 = databaseInstances d" "slowQueryLogs d1 = slowQueryLogs d"
    "metricEntries d1 = metricEntries d" "rows = system_rows ag p"
  using assms
  by (auto simp: recordHeartbeat_def ingestSystem_def system_rows_def Let_def split: if_splits option.splits result.splits dest!: parseCollectedAt_ok)

lemma ingest_transactionE:
  assumes "ingest_transaction gs ag p ctx d = ok (d', rows, r)"
  obtains d1 d2 d3 rows2 ports rows3 where
    "networkDevices d1 = networkDevices d" "databaseInstances d1 = databaseInstances d" "slowQueryLogs d1 = slowQueryLogs d"
    "ingestSnmpDevices gs 0 ag (tp_snmpDevices p) ctx d1 = ok (d2, rows2, ports)"
    "ingestDatabases gs 0 ag (tp_databases p) ctx d2 = ok (d3, rows3, ir_slowQueriesStored r)"
    "rows = system_rows ag p @ rows2 @ rows3" "ir_metricsReceived r = length rows"
    "networkDevices d' = networkDevices d2" "databaseInstances d' = databaseInstances d3" "slowQueryLogs d' = slowQueryLogs d3"
    "create_many_skip metric_key rows (metricEntries d) = (metricEntries d', ir_metricsStored r)"
proof -
  from assms obtain d0 where h: "recordHeartbeat ag (tp_agent p) (cx_now ctx) d = ok d0"
    by (auto simp: ingest_transaction_def split: result.splits)
  with assms obtain d1 rows1 where y: "(case tp_system p of None \<Rightarrow> ok (d0, []) | Some y \<Rightarrow> ingestSystem ag y ctx d0) = ok (d1, rows1)"
    by (auto simp: ingest_transaction_def split: result.splits)
  with assms h obtain d2 rows2 ports where v: "ingestSnmpDevices gs 0 ag (tp_snmpDevices p) ctx d1 = ok (d2, rows2, ports)"
    by (auto simp: ingest_transaction_def split: result.splits)
  with assms h y obtain d3 rows3 queries where b: "ingestDatabases gs 0 ag (tp_databases p) ctx d2 = ok (d3, rows3, queries)"
    by (auto simp: ingest_transaction_def split: result.splits)
  note f = host_steps_frame[OF h y]
  have m: "metricEntries d3 = metricEntries d" using ingest_databases_metrics[OF b] ingest_devices_ok(6)[OF v] f(4) by simp
  obtain t n where c: "create_many_skip metric_key (rows1 @ rows2 @ rows3) (metricEntries d) = (t, n)"
    by (cases "create_many_skip metric_key (rows1 @ rows2 @ rows3) (metricEntries d)")
  from assms h y v b c m have "d' = d3\<lparr>metricEntries := t\<rparr>" "rows = rows1 @ rows2 @ rows3"
      "ir_metricsReceived r = length rows" "ir_metricsStored r = n" "ir_slowQueriesStored r = queries"
    by (auto simp: ingest_transaction_def writeMetricRows_whole Let_def)
  then show thesis using that[OF f(1-3) v, of d3 rows3] b c f(5) ingest_databases_frame[OF b] by simp
qed

text \<open>Which requests are accepted: every time in them must lie in the window of the context.\<close>

definition in_range :: "ingest_context \<Rightarrow> ms option \<Rightarrow> bool" where
  "in_range ctx s = (case s of None \<Rightarrow> False | Some t \<Rightarrow> cx_now ctx - cx_maxBackfillMs ctx \<le> t \<and> t \<le> cx_now ctx + cx_maxSkewMs ctx)"

definition stamps :: "telemetry_payload \<Rightarrow> ms option list" where
  "stamps p = (case tp_system p of None \<Rightarrow> [] | Some y \<Rightarrow> [sy_collectedAt y]) @ map dv_collectedAt (tp_snmpDevices p)
     @ concat (map (\<lambda>b. dr_collectedAt b # map qr_capturedAt (dr_slowQueries b)) (tp_databases p))"

definition out_of_range :: telemetry_exn where
  "out_of_range = Http 422 ''timestamp_out_of_range''"

lemma parse_in_range: "parseCollectedAt s ctx = (if in_range ctx s then ok (the s) else fail out_of_range)"
  by (auto simp: parseCollectedAt_def in_range_def out_of_range_def Let_def split: option.split)

text \<open>\<open>succeeds_when P r\<close>: the step succeeds exactly when \<open>P\<close>, and fails with 422 otherwise.\<close>

definition succeeds_when :: "bool \<Rightarrow> ('a, telemetry_exn) result \<Rightarrow> bool" where
  "succeeds_when P r = (if P then is_ok r else r = fail out_of_range)"

lemma succeeds_when_ok [simp]: "succeeds_when P (ok x) = P" "succeeds_when P (fail e) = (\<not> P \<and> e = out_of_range)"
  by (auto simp: succeeds_when_def)

lemma ingest_device_when: "succeeds_when (in_range ctx (dv_collectedAt v)) (ingest_device g gp ag v ctx d)"
  by (auto simp: ingest_device_def parse_in_range succeeds_when_def Let_def split_beta)

lemma ingest_devices_when: "succeeds_when (list_all (in_range ctx) (map dv_collectedAt vs)) (ingestSnmpDevices gs k ag vs ctx d)"
proof (induction vs arbitrary: k d)
  case (Cons v vs)
  note step = ingest_device_when[of ctx v "ig_device gs k" "ig_port gs k" ag d]
  show ?case
  proof (cases "ingest_device (ig_device gs k) (ig_port gs k) ag v ctx d")
    case (ok x)
    obtain d1 rows n where x: "x = (d1, rows, n)" by (cases x)
    show ?thesis using step ok x Cons.IH[of "Suc k" d1] by (auto simp: succeeds_when_def split: result.split if_splits)
  qed (use step in simp)
qed simp

lemma parse_queries_when: "succeeds_when (list_all (in_range ctx) (map qr_capturedAt qs)) (parse_queries g j i ctx qs)"
proof (induction qs arbitrary: j)
  case (Cons q qs)
  show ?case using Cons.IH[of "Suc j"] by (cases "parse_queries g (Suc j) i ctx qs") (auto simp: parse_in_range)
qed simp

lemma ingest_database_when:
  "succeeds_when (in_range ctx (dr_collectedAt b) \<and> list_all (in_range ctx) (map qr_capturedAt (dr_slowQueries b))) (ingest_database g gq ag b ctx d)"
proof -
  let ?x = "snd (upsert_database g ag b (the (dr_collectedAt b)) (databaseInstances d))"
  show ?thesis using parse_queries_when[of ctx "dr_slowQueries b" gq 0 "db_id ?x"]
    by (cases "parse_queries gq 0 (db_id ?x) ctx (dr_slowQueries b)") (auto simp: ingest_database_def parse_in_range Let_def split_beta)
qed

lemma ingest_databases_when:
  "succeeds_when (list_all (in_range ctx) (concat (map (\<lambda>b. dr_collectedAt b # map qr_capturedAt (dr_slowQueries b)) bs))) (ingestDatabases gs k ag bs ctx d)"
proof (induction bs arbitrary: k d)
  case (Cons b bs)
  note step = ingest_database_when[of ctx b "ig_database gs k" "ig_query gs k" ag d]
  show ?case
  proof (cases "ingest_database (ig_database gs k) (ig_query gs k) ag b ctx d")
    case (ok x)
    obtain d1 rows n where x: "x = (d1, rows, n)" by (cases x)
    show ?thesis using step ok x Cons.IH[of "Suc k" d1] by (auto simp: succeeds_when_def split: result.split if_splits)
  qed (use step in auto)
qed simp

lemma ingest_transaction_when:
  "ingest_transaction gs ag p ctx d = (if find_first (\<lambda>h. h_id h = ag_hostId ag) (monitoredHosts d) = None then fail Unexpected
     else if list_all (in_range ctx) (stamps p) then ok (the_value (ingest_transaction gs ag p ctx d)) else fail out_of_range)"
proof (cases "recordHeartbeat ag (tp_agent p) (cx_now ctx) d")
  case (fail e)
  then show ?thesis by (auto simp: ingest_transaction_def recordHeartbeat_def split: if_splits)
next
  case (ok d0)
  then have host: "find_first (\<lambda>h. h_id h = ag_hostId ag) (monitoredHosts d) \<noteq> None" by (auto simp: recordHeartbeat_def split: if_splits)
  let ?sys = "case tp_system p of None \<Rightarrow> ok (d0, []) | Some y \<Rightarrow> ingestSystem ag y ctx d0"
  have sys: "succeeds_when (list_all (in_range ctx) (case tp_system p of None \<Rightarrow> [] | Some y \<Rightarrow> [sy_collectedAt y])) ?sys"
    by (auto simp: ingestSystem_def parse_in_range Let_def split: option.split)
  have "succeeds_when (list_all (in_range ctx) (stamps p)) (ingest_transaction gs ag p ctx d)"
  proof (cases ?sys)
    case (ok x)
    note one = this
    obtain d1 rows1 where x: "x = (d1, rows1)" by (cases x)
    note dev = ingest_devices_when[of ctx "tp_snmpDevices p" gs 0 ag d1]
    show ?thesis
    proof (cases "ingestSnmpDevices gs 0 ag (tp_snmpDevices p) ctx d1")
      case (ok y)
      note two = this
      obtain d2 rows2 n where y: "y = (d2, rows2, n)" by (cases y)
      note db = ingest_databases_when[of ctx "tp_databases p" gs 0 ag d2]
      show ?thesis
        using \<open>recordHeartbeat ag (tp_agent p) (cx_now ctx) d = ok d0\<close> one x two y sys dev db
        by (cases "ingestDatabases gs 0 ag (tp_databases p) ctx d2") (auto simp: ingest_transaction_def stamps_def Let_def split_beta)
    next
      case (fail e)
      then show ?thesis using \<open>recordHeartbeat ag (tp_agent p) (cx_now ctx) d = ok d0\<close> one x sys dev by (auto simp: ingest_transaction_def stamps_def)
    qed
  next
    case (fail e)
    then show ?thesis using \<open>recordHeartbeat ag (tp_agent p) (cx_now ctx) d = ok d0\<close> sys by (auto simp: ingest_transaction_def stamps_def)
  qed
  then show ?thesis using host by (cases "ingest_transaction gs ag p ctx d") (auto simp: succeeds_when_def split: if_splits)
qed

lemma ingest_transaction_fails:
  "ingest_transaction gs ag p ctx d = fail e \<Longrightarrow>
     if find_first (\<lambda>h. h_id h = ag_hostId ag) (monitoredHosts d) = None then e = Unexpected
     else e = out_of_range \<and> \<not> list_all (in_range ctx) (stamps p)"
  using ingest_transaction_when[of gs ag p ctx d] by (metis result.distinct(1) result.inject(2))

lemma ingest_transaction_succeeds:
  assumes "find_first (\<lambda>h. h_id h = ag_hostId ag) (monitoredHosts d) \<noteq> None" and "list_all (in_range ctx) (stamps p)"
  obtains d' rows r where "ingest_transaction gs ag p ctx d = ok (d', rows, r)"
  using assms that ingest_transaction_fails[of gs ag p ctx d] by (cases "ingest_transaction gs ag p ctx d") auto

lemma ingest_transaction_accepted:
  assumes "ingest_transaction gs ag p ctx d = ok x"
  shows "find_first (\<lambda>h. h_id h = ag_hostId ag) (monitoredHosts d) \<noteq> None" and "list_all (in_range ctx) (stamps p)"
  using ingest_transaction_when[of gs ag p ctx d] assms by (metis result.distinct(1))+

text \<open>The transaction adds no host and removes none.\<close>

lemma ingest_devices_hosts: "ingestSnmpDevices gs k ag vs ctx d = ok (d', rows, n) \<Longrightarrow> monitoredHosts d' = monitoredHosts d"
  by (induction vs arbitrary: k d rows n) (auto simp: ingest_device_def upsertInterfaces_def Let_def split_beta split: result.splits if_splits)

lemma ingest_databases_hosts: "ingestDatabases gs k ag bs ctx d = ok (d', rows, n) \<Longrightarrow> monitoredHosts d' = monitoredHosts d"
  by (induction bs arbitrary: k d rows n) (auto simp: ingest_database_def Let_def split_beta split: result.splits)

lemma host_upd_ids [simp]: "h_id (heartbeat_upd ag info now h) = h_id h" "h_id (inventory_upd i h) = h_id h"
  by (simp_all add: heartbeat_upd_def inventory_upd_def)

lemma ingest_transaction_hosts:
  assumes "ingest_transaction gs ag p ctx d = ok (d', rows, r)"
  shows "map h_id (monitoredHosts d') = map h_id (monitoredHosts d)"
proof -
  from assms obtain d0 d1 rows1 where h: "recordHeartbeat ag (tp_agent p) (cx_now ctx) d = ok d0"
    and y: "(case tp_system p of None \<Rightarrow> ok (d0, []) | Some y \<Rightarrow> ingestSystem ag y ctx d0) = ok (d1, rows1)"
    and d': "monitoredHosts d' = monitoredHosts d1"
    by (auto simp: ingest_transaction_def writeMetricRows_whole Let_def split_beta split: result.splits dest!: ingest_devices_hosts ingest_databases_hosts)
  have "map h_id (monitoredHosts d1) = map h_id (monitoredHosts d0)"
    using y by (auto simp: ingestSystem_def Let_def update_many_def split: option.splits result.splits)
  moreover have "map h_id (monitoredHosts d0) = map h_id (monitoredHosts d)"
    using h by (auto simp: recordHeartbeat_def update_many_def split: if_splits)
  ultimately show ?thesis using d' by simp
qed

lemma host_known_ids: "map h_id t = map h_id t' \<Longrightarrow> find_first (\<lambda>h. h_id h = i) t = None \<longleftrightarrow> find_first (\<lambda>h. h_id h = i) t' = None"
  unfolding find_first_None_iff by (metis (no_types, lifting) image_iff list.set_map)

lemma same_agent:
  assumes "ag_hostId ag' = ag_hostId ag" and "ag_orgId ag' = ag_orgId ag"
  shows "device_id ag' = device_id ag" "database_of ag' = database_of ag" "device_rows ag' = device_rows ag"
    "database_rows ag' = database_rows ag" "system_rows ag' = system_rows ag"
proof -
  have "is_device ag' = is_device ag" "is_database ag' = is_database ag"
    using assms by (simp_all add: fun_eq_iff is_device_def is_database_def)
  then show 1: "device_id ag' = device_id ag" "database_of ag' = database_of ag"
    by (simp_all add: device_id_def[abs_def] database_of_def[abs_def])
  show "device_rows ag' = device_rows ag" "database_rows ag' = database_rows ag" "system_rows ag' = system_rows ag"
    unfolding device_rows_def[abs_def] database_rows_def[abs_def] system_rows_def[abs_def] assms 1 by (rule refl)+
qed

lemma device_rows_kept:
  assumes "\<forall>v \<in> set vs. device_id ag v t \<noteq> None" and "\<And>v i. device_id ag v t = Some i \<Longrightarrow> device_id ag v t' = Some i"
  shows "map (device_rows ag t') vs = map (device_rows ag t) vs"
  using assms by (fastforce simp: device_rows_def)

lemma ingest_databases_again:
  assumes a: "ingestDatabases gs 0 ag bs ctx e2 = ok (e3, rb, n)" and b: "ingestDatabases gs' 0 ag' bs ctx' f2 = ok (f3, rb', n')"
    and dist: "distinct (map instance_key bs)" and ag: "ag_hostId ag' = ag_hostId ag" "ag_orgId ag' = ag_orgId ag"
    and f2: "databaseInstances f2 = databaseInstances e3" "slowQueryLogs f2 = slowQueryLogs e3"
  shows "rb' = rb" "n' = 0" "slowQueryLogs f3 = slowQueryLogs e3" "map db_id (databaseInstances f3) = map db_id (databaseInstances e3)"
proof -
  note same = same_agent[OF ag] and AD = ingest_databases_ok[OF a dist] and BD = ingest_databases_ok[OF b dist]
  have filed: "\<exists>x. database_of ag c (databaseInstances e3) = Some x \<and> settled c x \<and> query_keys (db_id x) c \<subseteq> query_key ` set (slowQueryLogs e3)"
    if "c \<in> set bs" for c using AD that by (elim conjE) blast
  have kept: "\<exists>x. database_of ag c (databaseInstances f3) = Some x \<and> same_view x z"
    if "c \<in> set bs" "database_of ag c (databaseInstances e3) = Some z" "settled c z" for c z
    using BD that unfolding f2 same(2) by (elim conjE) blast
  have "database_rows ag (databaseInstances f3) c = database_rows ag (databaseInstances e3) c" if c: "c \<in> set bs" for c
  proof -
    obtain z where z: "database_of ag c (databaseInstances e3) = Some z" "settled c z" using filed[OF c] by blast
    with kept[OF c] show ?thesis using database_rows_same_view[OF z(1)] by blast
  qed
  then have "map (database_rows ag (databaseInstances f3)) bs = map (database_rows ag (databaseInstances e3)) bs" by simp
  moreover have "rb = concat (map (database_rows ag (databaseInstances e3)) bs)" using AD by (elim conjE)
  moreover have "rb' = concat (map (database_rows ag (databaseInstances f3)) bs)" using BD unfolding same(4) by (elim conjE)
  ultimately show "rb' = rb" by (simp only:)
  have "\<forall>c \<in> set bs. \<exists>z. database_of ag' c (databaseInstances f2) = Some z \<and> query_keys (db_id z) c \<subseteq> query_key ` set (slowQueryLogs f2)"
    using filed unfolding f2 same(2) by blast
  from ingest_databases_known[OF b dist this] f2
  show "n' = 0" "slowQueryLogs f3 = slowQueryLogs e3" "map db_id (databaseInstances f3) = map db_id (databaseInstances e3)" by simp_all
qed

section \<open>Lemmas: every stored point belongs to the agent\<close>

definition database_sources :: "database_row list \<Rightarrow> (ident \<times> ident \<times> ident option) set" where
  "database_sources t = (\<lambda>y. (db_id y, db_orgId y, db_hostId y)) ` set t"

definition device_sources :: "network_device_row list \<Rightarrow> (ident \<times> ident) set" where
  "device_sources t = (\<lambda>y. (nd_id y, nd_orgId y)) ` set t"

text \<open>A point a request of the agent may store: of its organization, on time, in the range of its metric, and of a source that is its own.\<close>

definition point_ok :: "agent \<Rightarrow> ingest_context \<Rightarrow> db \<Rightarrow> metric_row \<Rightarrow> bool" where
  "point_ok ag ctx d x = (me_orgId x = ag_orgId ag \<and> in_range ctx (Some (me_time x)) \<and> metric_range (me_metric x) (me_value x)
     \<and> (case me_sourceKind x of
          HOST \<Rightarrow> me_sourceId x = ag_hostId ag
        | NETWORK_DEVICE \<Rightarrow> (me_sourceId x, ag_orgId ag) \<in> device_sources (networkDevices d)
        | DATABASE \<Rightarrow> (me_sourceId x, ag_orgId ag, Some (ag_hostId ag)) \<in> database_sources (databaseInstances d)
        | _ \<Rightarrow> False))"

lemma point_ok_mono:
  "point_ok ag ctx d x \<Longrightarrow> device_sources (networkDevices d) \<subseteq> device_sources (networkDevices d')
   \<Longrightarrow> database_sources (databaseInstances d) \<subseteq> database_sources (databaseInstances d') \<Longrightarrow> point_ok ag ctx d' x"
  by (auto simp: point_ok_def split: metric_source.splits)

lemma upsert_database_sources:
  assumes "upsert_database g ag b time t = (t', x)"
  shows "database_sources t \<subseteq> database_sources t'" and "(db_id x, ag_orgId ag, Some (ag_hostId ag)) \<in> database_sources t'"
proof -
  let ?k = "\<lambda>y. (db_id y, db_orgId y, db_hostId y)"
  have "map ?k (update_many (is_database ag b) (database_upd b time) t) = map ?k t"
    by (rule map_update_many) (simp add: database_upd_def)
  then show "database_sources t \<subseteq> database_sources t'"
    using assms unfolding database_sources_def set_map[symmetric] by (auto simp: upsert_database_def insert_row_def simp del: set_map split: option.splits)
  have "find_first (is_database ag b) t' = Some x" using upsert_database_view(1)[OF assms] by (simp add: database_of_def)
  from find_first_SomeD[OF this] show "(db_id x, ag_orgId ag, Some (ag_hostId ag)) \<in> database_sources t'"
    by (auto simp: database_sources_def is_database_def intro!: image_eqI[of _ _ x])
qed

lemma ingest_database_points:
  assumes "ingest_database g gq ag b ctx d = ok (d', rows, n)" and "valid_database b"
  shows "database_sources (databaseInstances d) \<subseteq> database_sources (databaseInstances d')" and "list_all (point_ok ag ctx d') rows"
    and "networkDevices d' = networkDevices d"
proof -
  obtain t x where u: "upsert_database g ag b (the (dr_collectedAt b)) (databaseInstances d) = (t, x)"
    by (cases "upsert_database g ag b (the (dr_collectedAt b)) (databaseInstances d)")
  have rng: "in_range ctx (Some (the (dr_collectedAt b)))"
    using assms(1) by (cases "dr_collectedAt b") (auto simp: ingest_database_def parse_in_range in_range_def split: if_splits)
  have d': "databaseInstances d' = t" "networkDevices d' = networkDevices d"
    and rows: "rows = (if dr_reachable b then databaseMetricRows (ag_orgId ag) (db_id x) b (the (dr_collectedAt b)) (db_maxConnections x) else [])"
    using assms(1) u by (auto simp: ingest_database_def parse_in_range Let_def split_beta split: result.splits if_splits)
  note src = upsert_database_sources[OF u]
  show "database_sources (databaseInstances d) \<subseteq> database_sources (databaseInstances d')" using src(1) d'(1) by simp
  show "list_all (point_ok ag ctx d') rows"
    using rows databaseMetricRows_ok[OF assms(2), of "ag_orgId ag" "db_id x" "the (dr_collectedAt b)" "db_maxConnections x"] src(2) d'(1) rng
    by (auto simp: list_all_iff row_ok_def point_ok_def)
  show "networkDevices d' = networkDevices d" by fact
qed

lemma ingest_databases_points:
  assumes "ingestDatabases gs k ag bs ctx d = ok (d', rows, n)" and "list_all valid_database bs"
  shows "database_sources (databaseInstances d) \<subseteq> database_sources (databaseInstances d') \<and> list_all (point_ok ag ctx d') rows"
  using assms
proof (induction bs arbitrary: k d rows n)
  case (Cons b bs)
  from Cons.prems obtain d1 rows1 n1 rows2 n2 where
    one: "ingest_database (ig_database gs k) (ig_query gs k) ag b ctx d = ok (d1, rows1, n1)"
    and rest: "ingestDatabases gs (Suc k) ag bs ctx d1 = ok (d', rows2, n2)" and rows: "rows = rows1 @ rows2"
    by (auto split: result.splits)
  have v: "valid_database b" "list_all valid_database bs" using Cons.prems(2) by simp_all
  note o = ingest_database_points[OF one v(1)] and IH = Cons.IH[OF rest v(2)]
  have "list_all (point_ok ag ctx d') rows1"
    using o(2) IH ingest_databases_frame[OF rest] by (auto simp: list_all_iff intro: point_ok_mono[of ag ctx d1 _ d'])
  then show ?case using o(1) IH rows by auto
qed simp

lemma device_points:
  assumes "\<forall>v \<in> set vs. device_id ag v (networkDevices d) \<noteq> None" and "list_all valid_device vs"
    and "list_all (in_range ctx) (map dv_collectedAt vs)"
  shows "list_all (point_ok ag ctx d) (concat (map (device_rows ag (networkDevices d)) vs))"
proof (unfold list_all_concat_map, unfold list_all_iff, intro ballI)
  fix v x assume v: "v \<in> set vs" and x: "x \<in> set (device_rows ag (networkDevices d) v)"
  obtain y where y: "find_first (is_device ag v) (networkDevices d) = Some y" using assms(1) v by (auto simp: device_id_def)
  have "(nd_id y, ag_orgId ag) \<in> device_sources (networkDevices d)"
    using find_first_SomeD[OF y] by (auto simp: device_sources_def is_device_def intro!: image_eqI[of _ _ y])
  moreover have "in_range ctx (dv_collectedAt v)" using assms(3) v by (auto simp: list_all_iff)
  then have "in_range ctx (Some (the (dv_collectedAt v)))" by (cases "dv_collectedAt v") (auto simp: in_range_def)
  moreover have "valid_device v" using assms(2) v by (simp add: list_all_iff)
  note deviceMetricRows_ok[OF this, of "ag_orgId ag" "nd_id y" "the (dv_collectedAt v)"]
  ultimately show "point_ok ag ctx d x"
    using x y by (auto simp: device_rows_def device_id_def list_all_iff row_ok_def point_ok_def split: if_splits)
qed

lemma system_points:
  assumes "opt_ok valid_system (tp_system p)" and "list_all (in_range ctx) (stamps p)"
  shows "list_all (point_ok ag ctx d) (system_rows ag p)"
proof (cases "tp_system p")
  case (Some y)
  then have "in_range ctx (Some (the (sy_collectedAt y)))" using assms(2) by (cases "sy_collectedAt y") (auto simp: stamps_def in_range_def)
  moreover have "valid_system y" using assms(1) Some by (simp add: opt_ok_def)
  ultimately show ?thesis using systemMetricRows_ok[of y "ag_orgId ag" "ag_hostId ag" "the (sy_collectedAt y)"] Some
    by (auto simp: system_rows_def list_all_iff row_ok_def point_ok_def)
qed (simp add: system_rows_def)

section \<open>Properties\<close>

text \<open>C25.
  A retried request is harmless: when an agent sends a payload again that was already stored
  (each database instance at most once in it, all its times still accepted), the request succeeds and
  yields the very same time-series points, of which none is stored a second time; no slow query,
  device or database instance is added either.
\<close>

theorem retry_stores_nothing:
  assumes "ingest_transaction gs ag p ctx d = ok (d1, rows, r)" and "distinct (map instance_key (tp_databases p))"
    and "ag_hostId ag' = ag_hostId ag" and "ag_orgId ag' = ag_orgId ag" and "list_all (in_range ctx') (stamps p)"
  shows "\<exists>d2 r'. ingest_transaction gs' ag' p ctx' d1 = ok (d2, rows, r') \<and> ir_metricsStored r' = 0 \<and> ir_slowQueriesStored r' = 0
    \<and> metricEntries d2 = metricEntries d1 \<and> slowQueryLogs d2 = slowQueryLogs d1
    \<and> map nd_id (networkDevices d2) = map nd_id (networkDevices d1)
    \<and> map db_id (databaseInstances d2) = map db_id (databaseInstances d1)"
proof -
  have "find_first (\<lambda>h. h_id h = ag_hostId ag') (monitoredHosts d1) \<noteq> None"
    using host_known_ids[OF ingest_transaction_hosts[OF assms(1)]] ingest_transaction_accepted(1)[OF assms(1)] assms(3) by simp
  then obtain d2 rows' r' where again: "ingest_transaction gs' ag' p ctx' d1 = ok (d2, rows', r')"
    using ingest_transaction_succeeds assms(5) by blast
  obtain e1 e2 e3 rv n rb where a: "ingestSnmpDevices gs 0 ag (tp_snmpDevices p) ctx e1 = ok (e2, rv, n)"
    "ingestDatabases gs 0 ag (tp_databases p) ctx e2 = ok (e3, rb, ir_slowQueriesStored r)"
    and rows: "rows = system_rows ag p @ rv @ rb"
    and t1: "networkDevices d1 = networkDevices e2" "databaseInstances d1 = databaseInstances e3" "slowQueryLogs d1 = slowQueryLogs e3"
    and put: "create_many_skip metric_key rows (metricEntries d) = (metricEntries d1, ir_metricsStored r)"
    by (rule ingest_transactionE[OF assms(1)]) blast
  obtain f1 f2 f3 rv' n' rb' where frame: "networkDevices f1 = networkDevices d1" "databaseInstances f1 = databaseInstances d1"
      "slowQueryLogs f1 = slowQueryLogs d1"
    and b: "ingestSnmpDevices gs' 0 ag' (tp_snmpDevices p) ctx' f1 = ok (f2, rv', n')"
    "ingestDatabases gs' 0 ag' (tp_databases p) ctx' f2 = ok (f3, rb', ir_slowQueriesStored r')"
    and rows': "rows' = system_rows ag' p @ rv' @ rb'"
    and t2: "networkDevices d2 = networkDevices f2" "databaseInstances d2 = databaseInstances f3" "slowQueryLogs d2 = slowQueryLogs f3"
    and put': "create_many_skip metric_key rows' (metricEntries d1) = (metricEntries d2, ir_metricsStored r')"
    by (rule ingest_transactionE[OF again]) blast
  note same = same_agent[OF assms(3,4)] and A = ingest_devices_ok[OF a(1)] and B = ingest_devices_ok[OF b(1)]
  have known: "\<forall>v \<in> set (tp_snmpDevices p). device_id ag v (networkDevices f1) \<noteq> None" using A(1) frame(1) t1(1) by simp
  have "map (device_rows ag (networkDevices f2)) (tp_snmpDevices p) = map (device_rows ag (networkDevices e2)) (tp_snmpDevices p)"
    by (rule device_rows_kept[OF A(1)]) (rule B(2)[unfolded frame(1) t1(1) same(1)])
  then have rv: "rv' = rv" using A(3) B(3)[unfolded same(3)] by (simp only:)
  have "databaseInstances f2 = databaseInstances e3" "slowQueryLogs f2 = slowQueryLogs e3" using B(4,5) frame(2,3) t1(2,3) by simp_all
  note D = ingest_databases_again[OF a(2) b(2) assms(2-4) this]
  have eq: "rows' = rows" using rows rows' rv D(1) same(5) by simp
  have "metric_key ` set rows \<subseteq> metric_key ` set (metricEntries d1)" using create_many_skip_props(1)[OF put] by simp
  from create_many_skip_present[OF this] have m: "metricEntries d2 = metricEntries d1" "ir_metricsStored r' = 0" using put' eq by simp_all
  have "map nd_id (networkDevices d2) = map nd_id (networkDevices d1)"
    using ingest_devices_known[OF b(1)] known same(1) t2(1) frame(1) by simp
  then show ?thesis using again eq m D(2-4) t1 t2 by simp
qed

text \<open>A first report of one database with a slow query, sent twice.\<close>

definition sample_agent :: agent where
  "sample_agent = \<lparr>ag_hostId = ''h1'', ag_orgId = ''acme'', ag_hostname = ''web'', ag_keyId = ''k1'', ag_firstSeenAt = None, ag_responseSecrets = []\<rparr>"

definition sample_query :: query_report where
  "sample_query = \<lparr>qr_capturedAt = Some 95, qr_fingerprint = ''f1'', qr_queryText = None, qr_durationMs = 2000, qr_calls = None,
     qr_rowsExamined = None, qr_rowsReturned = None, qr_databaseName = None, qr_userName = None\<rparr>"

definition sample_database :: database_report where
  "sample_database = \<lparr>dr_collectedAt = Some 90, dr_name = ''main'', dr_engine = POSTGRESQL, dr_version = None, dr_endpoint = None,
     dr_isReplica = None, dr_storageQuotaBytes = None, dr_maxConnections = Some 100, dr_slowQueryThresholdMs = None, dr_reachable = True,
     dr_qps = Some 12, dr_activeConnections = Some 40, dr_connectionUsagePercent = None, dr_cacheHitRatio = None,
     dr_slowQueriesPerMin = None, dr_deadlocksPerMin = None, dr_deadlocksTotal = None, dr_replicationLagSeconds = None,
     dr_storageUsedBytes = None, dr_slowQueries = [sample_query]\<rparr>"

definition sample_payload :: telemetry_payload where
  "sample_payload = \<lparr>tp_schemaVersion = 1, tp_agent = \<lparr>at_version = ''1.2'', at_remediation = None\<rparr>, tp_system = None,
     tp_snmpDevices = [], tp_databases = [sample_database]\<rparr>"

definition sample_context :: "ms \<Rightarrow> ingest_context" where
  "sample_context now = \<lparr>cx_now = now, cx_maxBackfillMs = 1000, cx_maxSkewMs = 300\<rparr>"

definition sample_ingest_gens :: ingest_gens where
  "sample_ingest_gens = \<lparr>ig_device = (\<lambda>_. sample_gen), ig_port = (\<lambda>_. sample_gen), ig_database = (\<lambda>_. sample_gen), ig_query = (\<lambda>_. sample_gen)\<rparr>"

definition sample_ingest_db :: db where
  "sample_ingest_db = sample_db\<lparr>monitoredHosts := [sample_host]\<rparr>"

definition sample_ingested where
  "sample_ingested = ingest_transaction sample_ingest_gens sample_agent sample_payload (sample_context 100) sample_ingest_db"

lemma sample_stamps: "list_all (in_range (sample_context t)) (stamps sample_payload)" if "90 \<le> t" "t \<le> 1000"
  using that by (simp add: stamps_def sample_payload_def sample_database_def sample_query_def in_range_def sample_context_def)

lemma sample_ingest_ok: "\<exists>d rows r. sample_ingested = ok (d, rows, r)"
proof -
  have "find_first (\<lambda>h. h_id h = ag_hostId sample_agent) (monitoredHosts sample_ingest_db) \<noteq> None"
    by (simp add: sample_agent_def sample_ingest_db_def sample_host_def)
  moreover have "list_all (in_range (sample_context 100)) (stamps sample_payload)" by (rule sample_stamps) simp_all
  ultimately obtain d rows r where "sample_ingested = ok (d, rows, r)"
    unfolding sample_ingested_def by (rule ingest_transaction_succeeds)
  then show ?thesis by blast
qed

theorem retry_stores_nothing_witness:
  "\<exists>d1 rows r d2 r'. sample_ingested = ok (d1, rows, r)
    \<and> ingest_transaction sample_ingest_gens (sample_agent\<lparr>ag_firstSeenAt := Some 100\<rparr>) sample_payload (sample_context 160) d1 = ok (d2, rows, r')
    \<and> ir_metricsStored r' = 0 \<and> metricEntries d2 = metricEntries d1"
proof -
  obtain d1 rows r where one: "sample_ingested = ok (d1, rows, r)" using sample_ingest_ok by blast
  have "distinct (map instance_key (tp_databases sample_payload))" by (simp add: sample_payload_def)
  moreover have "list_all (in_range (sample_context 160)) (stamps sample_payload)" by (rule sample_stamps) simp_all
  ultimately have "\<exists>d2 r'. ingest_transaction sample_ingest_gens (sample_agent\<lparr>ag_firstSeenAt := Some 100\<rparr>) sample_payload (sample_context 160) d1 = ok (d2, rows, r')
    \<and> ir_metricsStored r' = 0 \<and> ir_slowQueriesStored r' = 0 \<and> metricEntries d2 = metricEntries d1 \<and> slowQueryLogs d2 = slowQueryLogs d1
    \<and> map nd_id (networkDevices d2) = map nd_id (networkDevices d1) \<and> map db_id (databaseInstances d2) = map db_id (databaseInstances d1)"
    by (intro retry_stores_nothing[OF one[unfolded sample_ingested_def]]) simp_all
  with one show ?thesis by (elim exE conjE) (intro exI conjI)
qed


text \<open>C24.
  What a valid request stores is bounded by the agent that signed it: it only appends points, at most
  as many as it carried and none under a key that is taken, and every new point is of the agent's
  organization, has a time in the accepted window and a value in the range of its metric, and
  belongs to the agent's host, a network device of its organization or a database of its host.
\<close>

theorem stored_points_valid:
  assumes "valid_payload p" and "ingest_transaction gs ag p ctx d = ok (d1, rows, r)"
  shows "\<exists>new. metricEntries d1 = metricEntries d @ new \<and> length new = ir_metricsStored r \<and> list_all (point_ok ag ctx d1) new
    \<and> ir_metricsStored r \<le> ir_metricsReceived r
    \<and> (distinct (map metric_key (metricEntries d)) \<longrightarrow> distinct (map metric_key (metricEntries d1)))"
proof -
  obtain e1 e2 e3 rv n rb where a: "ingestSnmpDevices gs 0 ag (tp_snmpDevices p) ctx e1 = ok (e2, rv, n)"
    "ingestDatabases gs 0 ag (tp_databases p) ctx e2 = ok (e3, rb, ir_slowQueriesStored r)"
    and rows: "rows = system_rows ag p @ rv @ rb" "ir_metricsReceived r = length rows"
    and t1: "networkDevices d1 = networkDevices e2" "databaseInstances d1 = databaseInstances e3"
    and put: "create_many_skip metric_key rows (metricEntries d) = (metricEntries d1, ir_metricsStored r)"
    by (rule ingest_transactionE[OF assms(2)]) blast
  have v: "opt_ok valid_system (tp_system p)" "list_all valid_device (tp_snmpDevices p)" "list_all valid_database (tp_databases p)"
    using assms(1) by (simp_all add: valid_payload_def)
  note rng = ingest_transaction_accepted(2)[OF assms(2)]
  have "list_all (in_range ctx) (map dv_collectedAt (tp_snmpDevices p))" using rng by (simp add: stamps_def)
  with ingest_devices_ok(1)[OF a(1)] v(2) have "list_all (point_ok ag ctx d1) rv"
    unfolding ingest_devices_ok(3)[OF a(1)] t1(1)[symmetric] by (intro device_points)
  moreover have "list_all (point_ok ag ctx d1) rb"
    using ingest_databases_points[OF a(2) v(3)] t1 ingest_databases_frame[OF a(2)] by (auto simp: list_all_iff intro: point_ok_mono[of ag ctx e3 _ d1])
  ultimately have ok: "list_all (point_ok ag ctx d1) rows" using system_points[OF v(1) rng, of ag d1] rows(1) by simp
  from create_many_skip_props(2)[OF put] obtain new where new: "metricEntries d1 = metricEntries d @ new" "length new = ir_metricsStored r" "set new \<subseteq> set rows" by blast
  moreover have "ir_metricsStored r \<le> length rows" using create_many_skip_count[OF put] .
  ultimately show ?thesis using ok rows(2) create_many_skip_props(3)[OF put] by (auto simp: list_all_iff)
qed

theorem stored_points_valid_witness:
  "\<exists>d1 rows r new. sample_ingested = ok (d1, rows, r) \<and> metricEntries d1 = metricEntries sample_ingest_db @ new
     \<and> list_all (point_ok sample_agent (sample_context 100) d1) new"
proof -
  obtain d1 rows r where one: "sample_ingested = ok (d1, rows, r)" using sample_ingest_ok by blast
  have "js_trim ''1.2'' = ''1.2''" "js_trim ''main'' = ''main''" "js_trim ''f1'' = ''f1''" by code_simp+
  then have "valid_payload sample_payload"
    by (simp add: valid_payload_def sample_payload_def valid_agent_def v_text_def sample_database_def sample_query_def valid_database_def
        valid_query_def TELEMETRY_SCHEMA_VERSION_def v_nonNegative_def v_int_def)
  from stored_points_valid[OF this one[unfolded sample_ingested_def]] one show ?thesis by blast
qed

end
