(* ===== verification/Inventory.thy ===== *)
theory Inventory
  imports Ingest
begin

text \<open>
  The settings administrators keep on top of what agents discover: network devices with their SNMP
  credentials (\<open>src/modules/network/devices.ts\<close>) and database instances (\<open>src/modules/databases/instances.ts\<close>).
  \<open>randomBytes n\<close> is the first \<open>n\<close> bytes of a random source. A credential is stored encrypted and bound to the id
  of its device and to its field; the only reader of the clear text is \<open>listDevicesForPoller\<close>, where
  \<open>None\<close> is the exception of a ciphertext that does not decrypt. \<open>orderBy name\<close> sorts by the collation of the database, a parameter.
  Deleting a device deletes its interfaces (\<open>onDelete: Cascade\<close>).
\<close>

section \<open>Network devices\<close>

definition deviceSecretAad :: "ident \<Rightarrow> string \<Rightarrow> string" where
  "deviceSecretAad deviceId field = ''device:'' @ deviceId @ '':'' @ field"

definition randomBytes :: "(nat \<Rightarrow> byte) \<Rightarrow> nat \<Rightarrow> nat list" where
  "randomBytes src n = map (\<lambda>i. unat (src i)) [0..<n]"

definition generateDeviceId :: "(nat \<Rightarrow> byte) \<Rightarrow> ident" where
  "generateDeviceId src = ''dev_'' @ toBase64url (randomBytes src 12)"

record device_view =
  dw_id :: ident
  dw_name :: string
  dw_ipAddress :: string
  dw_type :: network_device_type
  dw_tags :: "string list"
  dw_enabled :: bool
  dw_vendor :: "string option"
  dw_model :: "string option"
  dw_sysName :: "string option"
  dw_sysLocation :: "string option"
  dw_pollerHostId :: "ident option"
  dw_pollerHostname :: "string option"
  dw_pollIntervalSec :: int
  dw_snmpVersion :: snmp_version
  dw_snmpPort :: int
  dw_snmpTimeoutMs :: int
  dw_snmpRetries :: int
  dw_snmpV3Username :: "string option"
  dw_snmpV3SecurityLevel :: "snmp_security_level option"
  dw_hasSecret :: bool
  dw_status :: health_status
  dw_lastPolledAt :: "ms option"
  dw_createdAt :: ms

datatype device_write_error = DE_forbidden | DE_invalid_ip | DE_ip_taken | DE_invalid_poller | DE_not_found

definition device_view_of :: "db \<Rightarrow> network_device_row \<Rightarrow> device_view" where
  "device_view_of d x = \<lparr>dw_id = nd_id x, dw_name = nd_name x, dw_ipAddress = nd_ipAddress x, dw_type = nd_type x, dw_tags = nd_tags x,
     dw_enabled = nd_enabled x, dw_vendor = nd_vendor x, dw_model = nd_model x, dw_sysName = nd_sysName x, dw_sysLocation = nd_sysLocation x,
     dw_pollerHostId = nd_pollerHostId x,
     dw_pollerHostname = (case nd_pollerHostId x of None \<Rightarrow> None
        | Some hid \<Rightarrow> map_option h_hostname (find_first (\<lambda>h. h_id h = hid) (monitoredHosts d))),
     dw_pollIntervalSec = nd_pollIntervalSec x, dw_snmpVersion = nd_snmpVersion x, dw_snmpPort = nd_snmpPort x,
     dw_snmpTimeoutMs = nd_snmpTimeoutMs x, dw_snmpRetries = nd_snmpRetries x, dw_snmpV3Username = nd_snmpV3Username x,
     dw_snmpV3SecurityLevel = nd_snmpV3SecurityLevel x,
     dw_hasSecret = (truthy (nd_snmpCommunityEnc x) \<noteq> None \<or> truthy (nd_snmpV3AuthKeyEnc x) \<noteq> None),
     dw_status = nd_status x, dw_lastPolledAt = nd_lastPolledAt x, dw_createdAt = nd_createdAt x\<rparr>"

definition listDevices :: "(string \<Rightarrow> real) \<Rightarrow> actor \<Rightarrow> db \<Rightarrow> (device_view list, device_write_error) result" where
  "listDevices collate a d =
     (if \<not> can (Some (a_role a)) devices_read then fail DE_forbidden
      else ok (map (device_view_of d) (order_asc (\<lambda>x. collate (nd_name x)) (find_many (\<lambda>x. nd_orgId x = a_orgId a) (networkDevices d)))))"

record device_input =
  di_name :: string
  di_ipAddress :: string
  di_type :: network_device_type
  di_tags :: "string list"
  di_pollerHostId :: "ident option"
  di_pollIntervalSec :: int
  di_snmpVersion :: snmp_version
  di_snmpPort :: int
  di_snmpTimeoutMs :: int
  di_snmpRetries :: int
  di_snmpCommunity :: "string option"
  di_snmpV3Username :: "string option"
  di_snmpV3SecurityLevel :: "snmp_security_level option"
  di_snmpV3AuthProtocol :: "snmp_auth_protocol option"
  di_snmpV3AuthKey :: "string option"
  di_snmpV3PrivProtocol :: "snmp_priv_protocol option"
  di_snmpV3PrivKey :: "string option"
  di_snmpV3ContextName :: "string option"

definition resolvePoller :: "ident \<Rightarrow> ident option \<Rightarrow> db \<Rightarrow> bool" where
  "resolvePoller orgId pollerHostId d = (case truthy pollerHostId of None \<Rightarrow> True
     | Some hid \<Rightarrow> find_first (\<lambda>h. h_id h = hid \<and> h_orgId h = orgId) (monitoredHosts d) \<noteq> None)"

text \<open>The randomness of one call: the id of a new device and one initialization vector per encrypted field.\<close>

record device_random =
  dx_id :: "nat \<Rightarrow> byte"
  dx_community :: "nat \<Rightarrow> byte"
  dx_authKey :: "nat \<Rightarrow> byte"
  dx_privKey :: "nat \<Rightarrow> byte"

definition seal_field :: "gcm \<Rightarrow> nat list \<Rightarrow> (nat \<Rightarrow> byte) \<Rightarrow> ident \<Rightarrow> string \<Rightarrow> string option \<Rightarrow> string option" where
  "seal_field c key src deviceId field secret =
     map_option (\<lambda>s. encryptSecret c key (randomBytes src IV_BYTES) s (deviceSecretAad deviceId field)) (truthy secret)"

text \<open>\<open>credentialFields\<close>, spread into a \<open>create\<close> or an \<open>update\<close>: what is undefined keeps its value.\<close>

definition credentialFields :: "gcm \<Rightarrow> nat list \<Rightarrow> device_random \<Rightarrow> ident \<Rightarrow> device_input \<Rightarrow> network_device_row \<Rightarrow> network_device_row" where
  "credentialFields c key rnd deviceId inp x = x\<lparr>nd_snmpVersion := di_snmpVersion inp, nd_snmpPort := di_snmpPort inp,
     nd_snmpTimeoutMs := di_snmpTimeoutMs inp, nd_snmpRetries := di_snmpRetries inp,
     nd_snmpCommunityEnc := keep (nd_snmpCommunityEnc x) (seal_field c key (dx_community rnd) deviceId ''community'' (di_snmpCommunity inp)),
     nd_snmpV3Username := keep (nd_snmpV3Username x) (di_snmpV3Username inp),
     nd_snmpV3SecurityLevel := keep (nd_snmpV3SecurityLevel x) (di_snmpV3SecurityLevel inp),
     nd_snmpV3AuthProtocol := keep (nd_snmpV3AuthProtocol x) (di_snmpV3AuthProtocol inp),
     nd_snmpV3AuthKeyEnc := keep (nd_snmpV3AuthKeyEnc x) (seal_field c key (dx_authKey rnd) deviceId ''authKey'' (di_snmpV3AuthKey inp)),
     nd_snmpV3PrivProtocol := keep (nd_snmpV3PrivProtocol x) (di_snmpV3PrivProtocol inp),
     nd_snmpV3PrivKeyEnc := keep (nd_snmpV3PrivKeyEnc x) (seal_field c key (dx_privKey rnd) deviceId ''privKey'' (di_snmpV3PrivKey inp)),
     nd_snmpV3ContextName := keep (nd_snmpV3ContextName x) (di_snmpV3ContextName inp)\<rparr>"

definition device_metadata :: "device_input \<Rightarrow> json" where
  "device_metadata inp = JObj [(''name'', JStr (di_name inp)), (''ipAddress'', JStr (di_ipAddress inp))]"

definition registered_device :: "gcm \<Rightarrow> nat list \<Rightarrow> device_random \<Rightarrow> dbgen \<Rightarrow> actor \<Rightarrow> device_input \<Rightarrow> network_device_row" where
  "registered_device c key rnd g a inp = credentialFields c key rnd (generateDeviceId (dx_id rnd)) inp
     \<lparr>nd_id = generateDeviceId (dx_id rnd), nd_orgId = a_orgId a, nd_name = di_name inp, nd_ipAddress = di_ipAddress inp, nd_type = di_type inp,
      nd_tags = di_tags inp, nd_enabled = True, nd_vendor = None, nd_model = None, nd_firmwareVersion = None, nd_serialNumber = None,
      nd_sysName = None, nd_sysDescr = None, nd_sysLocation = None, nd_sysContact = None, nd_uptimeSeconds = None, nd_powerWatts = None,
      nd_pollerHostId = di_pollerHostId inp, nd_pollIntervalSec = di_pollIntervalSec inp,
      nd_snmpVersion = V2C, nd_snmpPort = 161, nd_snmpTimeoutMs = 3000, nd_snmpRetries = 1, nd_snmpCommunityEnc = None,
      nd_snmpV3Username = None, nd_snmpV3SecurityLevel = None, nd_snmpV3AuthProtocol = None, nd_snmpV3AuthKeyEnc = None,
      nd_snmpV3PrivProtocol = None, nd_snmpV3PrivKeyEnc = None, nd_snmpV3ContextName = None, nd_status = UNKNOWN,
      nd_lastPolledAt = None, nd_createdAt = clock g\<rparr>"

definition registerDevice ::
  "gcm \<Rightarrow> nat list \<Rightarrow> device_random \<Rightarrow> dbgen \<Rightarrow> actor \<Rightarrow> device_input \<Rightarrow> db \<Rightarrow> db \<times> (ident, device_write_error) result" where
  "registerDevice c key rnd g a inp d =
     (if \<not> can (Some (a_role a)) devices_write then (d, fail DE_forbidden)
      else if isIP (di_ipAddress inp) = 0 then (d, fail DE_invalid_ip)
      else if \<not> resolvePoller (a_orgId a) (di_pollerHostId inp) d then (d, fail DE_invalid_poller)
      else if find_first (\<lambda>x. nd_orgId x = a_orgId a \<and> nd_ipAddress x = di_ipAddress inp) (networkDevices d) \<noteq> None then (d, fail DE_ip_taken)
      else let id = generateDeviceId (dx_id rnd)
        in (recordAudit g 0 (actor_entry ''device.registered'' a ''device'' id (Some (device_metadata inp)))
              (d\<lparr>networkDevices := insert_row (registered_device c key rnd g a inp) (networkDevices d)\<rparr>), ok id))"

definition device_settings :: "gcm \<Rightarrow> nat list \<Rightarrow> device_random \<Rightarrow> ident \<Rightarrow> device_input \<Rightarrow> network_device_row \<Rightarrow> network_device_row" where
  "device_settings c key rnd did inp x = credentialFields c key rnd did inp
     (x\<lparr>nd_name := di_name inp, nd_ipAddress := di_ipAddress inp, nd_type := di_type inp, nd_tags := di_tags inp,
        nd_pollerHostId := di_pollerHostId inp, nd_pollIntervalSec := di_pollIntervalSec inp\<rparr>)"

definition updateDevice ::
  "gcm \<Rightarrow> nat list \<Rightarrow> device_random \<Rightarrow> dbgen \<Rightarrow> actor \<Rightarrow> ident \<Rightarrow> device_input \<Rightarrow> db \<Rightarrow> db \<times> (unit, device_write_error) result" where
  "updateDevice c key rnd g a did inp d =
     (if \<not> can (Some (a_role a)) devices_write then (d, fail DE_forbidden)
      else if isIP (di_ipAddress inp) = 0 then (d, fail DE_invalid_ip)
      else if find_first (\<lambda>x. nd_id x = did \<and> nd_orgId x = a_orgId a) (networkDevices d) = None then (d, fail DE_not_found)
      else if \<not> resolvePoller (a_orgId a) (di_pollerHostId inp) d then (d, fail DE_invalid_poller)
      else if (case find_first (\<lambda>x. nd_orgId x = a_orgId a \<and> nd_ipAddress x = di_ipAddress inp) (networkDevices d) of
                 Some other \<Rightarrow> nd_id other \<noteq> did | None \<Rightarrow> False) then (d, fail DE_ip_taken)
      else (recordAudit g 0 (actor_entry ''device.updated'' a ''device'' did (Some (device_metadata inp)))
              (d\<lparr>networkDevices := update_many (\<lambda>x. nd_id x = did) (device_settings c key rnd did inp) (networkDevices d)\<rparr>), ok ()))"

definition device_in_org :: "actor \<Rightarrow> ident \<Rightarrow> network_device_row \<Rightarrow> bool" where
  "device_in_org a did x = (nd_id x = did \<and> nd_orgId x = a_orgId a)"

definition setDeviceEnabled :: "dbgen \<Rightarrow> actor \<Rightarrow> ident \<Rightarrow> bool \<Rightarrow> db \<Rightarrow> db \<times> (unit, device_write_error) result" where
  "setDeviceEnabled g a did enabled d =
     (if \<not> can (Some (a_role a)) devices_write then (d, fail DE_forbidden)
      else let d1 = d\<lparr>networkDevices := update_many (device_in_org a did) (\<lambda>x. x\<lparr>nd_enabled := enabled\<rparr>) (networkDevices d)\<rparr>
        in if count_rows (device_in_org a did) (networkDevices d) \<noteq> 1 then (d1, fail DE_not_found)
           else (recordAudit g 0 (actor_entry (if enabled then ''device.enabled'' else ''device.disabled'') a ''device'' did None) d1, ok ()))"

definition deleteDevice :: "dbgen \<Rightarrow> actor \<Rightarrow> ident \<Rightarrow> db \<Rightarrow> db \<times> (unit, device_write_error) result" where
  "deleteDevice g a did d =
     (if \<not> can (Some (a_role a)) devices_write then (d, fail DE_forbidden)
      else let d1 = d\<lparr>networkDevices := delete_many (device_in_org a did) (networkDevices d),
               networkInterfaces := (if list_ex (device_in_org a did) (networkDevices d)
                 then delete_many (\<lambda>n. ni_deviceId n = did) (networkInterfaces d) else networkInterfaces d)\<rparr>
        in if count_rows (device_in_org a did) (networkDevices d) \<noteq> 1 then (d1, fail DE_not_found)
           else (recordAudit g 0 (actor_entry ''device.deleted'' a ''device'' did None) d1, ok ()))"

section \<open>Configuration for the poller\<close>

record poller_v3 =
  pv_username :: "string option"
  pv_securityLevel :: "snmp_security_level option"
  pv_authProtocol :: "snmp_auth_protocol option"
  pv_authKey :: "string option"
  pv_privProtocol :: "snmp_priv_protocol option"
  pv_privKey :: "string option"
  pv_contextName :: "string option"

record poller_device =
  pd_id :: ident
  pd_ipAddress :: string
  pd_type :: network_device_type
  pd_pollIntervalSec :: int
  pd_snmpVersion :: snmp_version
  pd_snmpPort :: int
  pd_snmpTimeoutMs :: int
  pd_snmpRetries :: int
  pd_snmpCommunity :: "string option"
  pd_snmpV3 :: poller_v3

definition open_field :: "gcm \<Rightarrow> nat list \<Rightarrow> ident \<Rightarrow> string \<Rightarrow> string option \<Rightarrow> string option option" where
  "open_field c key deviceId field enc = (case truthy enc of None \<Rightarrow> Some None
     | Some e \<Rightarrow> map_option Some (decryptSecret c key e (deviceSecretAad deviceId field)))"

definition poller_device_of :: "gcm \<Rightarrow> nat list \<Rightarrow> network_device_row \<Rightarrow> poller_device option" where
  "poller_device_of c key x =
     (case (open_field c key (nd_id x) ''community'' (nd_snmpCommunityEnc x), open_field c key (nd_id x) ''authKey'' (nd_snmpV3AuthKeyEnc x),
            open_field c key (nd_id x) ''privKey'' (nd_snmpV3PrivKeyEnc x)) of
        (Some community, Some authKey, Some privKey) \<Rightarrow>
          Some \<lparr>pd_id = nd_id x, pd_ipAddress = nd_ipAddress x, pd_type = nd_type x, pd_pollIntervalSec = nd_pollIntervalSec x,
            pd_snmpVersion = nd_snmpVersion x, pd_snmpPort = nd_snmpPort x, pd_snmpTimeoutMs = nd_snmpTimeoutMs x, pd_snmpRetries = nd_snmpRetries x,
            pd_snmpCommunity = community,
            pd_snmpV3 = \<lparr>pv_username = nd_snmpV3Username x, pv_securityLevel = nd_snmpV3SecurityLevel x, pv_authProtocol = nd_snmpV3AuthProtocol x,
              pv_authKey = authKey, pv_privProtocol = nd_snmpV3PrivProtocol x, pv_privKey = privKey, pv_contextName = nd_snmpV3ContextName x\<rparr>\<rparr>
      | _ \<Rightarrow> None)"

definition polled_by :: "ident \<Rightarrow> ident \<Rightarrow> network_device_row \<Rightarrow> bool" where
  "polled_by orgId hostId x = (nd_orgId x = orgId \<and> nd_pollerHostId x = Some hostId \<and> nd_enabled x)"

definition listDevicesForPoller :: "gcm \<Rightarrow> nat list \<Rightarrow> (string \<Rightarrow> real) \<Rightarrow> ident \<Rightarrow> ident \<Rightarrow> db \<Rightarrow> poller_device list option" where
  "listDevicesForPoller c key collate orgId pollerHostId d =
     collect (map (poller_device_of c key) (order_asc (\<lambda>x. collate (nd_name x)) (find_many (polled_by orgId pollerHostId) (networkDevices d))))"

section \<open>Database instances\<close>

datatype database_write_error = BE_forbidden | BE_not_found

record database_view =
  bw_row :: database_row
  bw_hostname :: "string option"

definition listDatabases :: "(string \<Rightarrow> real) \<Rightarrow> actor \<Rightarrow> db \<Rightarrow> (database_view list, database_write_error) result" where
  "listDatabases collate a d =
     (if \<not> can (Some (a_role a)) databases_read then fail BE_forbidden
      else ok (map (\<lambda>x. \<lparr>bw_row = x, bw_hostname = (case db_hostId x of None \<Rightarrow> None
            | Some hid \<Rightarrow> map_option h_hostname (find_first (\<lambda>h. h_id h = hid) (monitoredHosts d)))\<rparr>)
        (order_asc (\<lambda>x. collate (db_name x)) (find_many (\<lambda>x. db_orgId x = a_orgId a) (databaseInstances d)))))"

record database_settings =
  ds_tags :: "string list"
  ds_slowQueryThresholdMs :: int

definition write_database :: "dbgen \<Rightarrow> actor \<Rightarrow> ident \<Rightarrow> string \<Rightarrow> (database_row \<Rightarrow> database_row) \<Rightarrow> db \<Rightarrow> db \<times> (unit, database_write_error) result" where
  "write_database g a bid action upd d =
     (if \<not> can (Some (a_role a)) databases_write then (d, fail BE_forbidden)
      else let P = (\<lambda>x. db_id x = bid \<and> db_orgId x = a_orgId a);
               d1 = d\<lparr>databaseInstances := update_many P upd (databaseInstances d)\<rparr>
        in if count_rows P (databaseInstances d) \<noteq> 1 then (d1, fail BE_not_found)
           else (recordAudit g 0 (actor_entry action a ''database'' bid None) d1, ok ()))"

definition updateDatabaseSettings :: "dbgen \<Rightarrow> actor \<Rightarrow> ident \<Rightarrow> database_settings \<Rightarrow> db \<Rightarrow> db \<times> (unit, database_write_error) result" where
  "updateDatabaseSettings g a bid inp d =
     write_database g a bid ''database.updated'' (\<lambda>x. x\<lparr>db_tags := ds_tags inp, db_slowQueryThresholdMs := ds_slowQueryThresholdMs inp\<rparr>) d"

definition setDatabaseEnabled :: "dbgen \<Rightarrow> actor \<Rightarrow> ident \<Rightarrow> bool \<Rightarrow> db \<Rightarrow> db \<times> (unit, database_write_error) result" where
  "setDatabaseEnabled g a bid enabled d =
     write_database g a bid (if enabled then ''database.enabled'' else ''database.disabled'') (\<lambda>x. x\<lparr>db_enabled := enabled\<rparr>) d"

section \<open>Lemmas: credentials\<close>

lemma randomBytes_iv: "length (randomBytes src n) = n" "list_all (\<lambda>b. b < 256) (randomBytes src n)"
proof -
  have "unat (src i) < 256" for i using unsigned_less[of "src i", where ?'a = nat] by simp
  then show "length (randomBytes src n) = n" "list_all (\<lambda>b. b < 256) (randomBytes src n)" by (simp_all add: randomBytes_def list_all_iff)
qed

lemma truthy_None [simp]: "truthy None = None"
  by (simp add: truthy_def)

lemma open_seal:
  assumes "gcm_law c"
  shows "open_field c key did field (seal_field c key src did field s) = Some (truthy s)"
  using decrypt_own[OF assms randomBytes_iv(1) randomBytes_iv(2), of key src _ "deviceSecretAad did field"]
  by (cases "truthy s") (simp_all add: open_field_def seal_field_def truthy_def or_null_def encrypt_nonempty)

lemma open_keep_seal:
  assumes "gcm_law c"
  shows "open_field c key did field (keep old (seal_field c key src did field s))
    = (case truthy s of None \<Rightarrow> open_field c key did field old | Some v \<Rightarrow> Some (Some v))"
  using open_seal[OF assms, of key did field src s] by (cases "truthy s") (simp_all add: keep_def seal_field_def)

definition device_opens :: "gcm \<Rightarrow> nat list \<Rightarrow> network_device_row \<Rightarrow> bool" where
  "device_opens c key x = (poller_device_of c key x \<noteq> None)"

lemma device_opens_iff:
  "device_opens c key x \<longleftrightarrow> open_field c key (nd_id x) ''community'' (nd_snmpCommunityEnc x) \<noteq> None
     \<and> open_field c key (nd_id x) ''authKey'' (nd_snmpV3AuthKeyEnc x) \<noteq> None \<and> open_field c key (nd_id x) ''privKey'' (nd_snmpV3PrivKeyEnc x) \<noteq> None"
  by (auto simp: device_opens_def poller_device_of_def split: option.splits)

lemma credentialFields_keys [simp]:
  "nd_id (credentialFields c key rnd did inp x) = nd_id x" "nd_orgId (credentialFields c key rnd did inp x) = nd_orgId x"
  "nd_pollerHostId (credentialFields c key rnd did inp x) = nd_pollerHostId x" "nd_enabled (credentialFields c key rnd did inp x) = nd_enabled x"
  by (simp_all add: credentialFields_def)

lemma device_settings_keys [simp]: "nd_id (device_settings c key rnd did inp x) = nd_id x" "nd_orgId (device_settings c key rnd did inp x) = nd_orgId x"
  by (simp_all add: device_settings_def)

lemma credentialFields_opens:
  assumes "gcm_law c" and "device_opens c key x" and "nd_id x = did"
  shows "device_opens c key (credentialFields c key rnd did inp x)"
  using assms(2,3) unfolding device_opens_iff by (simp add: credentialFields_def open_keep_seal[OF assms(1)] split: option.split)

lemma device_settings_opens:
  assumes "gcm_law c" and "device_opens c key x" and "nd_id x = did"
  shows "device_opens c key (device_settings c key rnd did inp x)"
  unfolding device_settings_def by (rule credentialFields_opens[OF assms(1)]) (use assms(2,3) in \<open>simp_all add: device_opens_iff\<close>)

lemma registered_device_opens: "gcm_law c \<Longrightarrow> device_opens c key (registered_device c key rnd g a inp)"
  unfolding registered_device_def by (rule credentialFields_opens) (simp_all add: device_opens_iff open_field_def)

lemma ingested_device_opens:
  "device_opens c key (device_upd v time x) = device_opens c key x" "device_opens c key (new_device g ag v time)"
  by (simp_all add: device_opens_iff device_upd_def new_device_def open_field_def)

section \<open>The registry as a machine\<close>

text \<open>
  What writes network devices: administrators and agents. An insertion under an id that is taken raises and leaves
  the database as it was. \<open>device_registry\<close> interprets the shared contract of organizations: every command keeps the
  ids unique and every stored credential readable, and leaves the devices of other organizations alone.
\<close>

datatype device_cmd =
    V_register device_random dbgen actor device_input
  | V_update device_random dbgen actor ident device_input
  | V_enable dbgen actor ident bool
  | V_delete dbgen actor ident
  | V_ingest ingest_gens agent telemetry_payload ingest_context

definition device_ids_unique :: "db \<Rightarrow> bool" where
  "device_ids_unique d = distinct (map nd_id (networkDevices d))"

definition commit_devices :: "db \<Rightarrow> db \<Rightarrow> db" where
  "commit_devices d d' = (if device_ids_unique d' then d' else d)"

primrec device_exec :: "gcm \<Rightarrow> nat list \<Rightarrow> device_cmd \<Rightarrow> db \<Rightarrow> db" where
  "device_exec c key (V_register rnd g a inp) d = commit_devices d (fst (registerDevice c key rnd g a inp d))"
| "device_exec c key (V_update rnd g a did inp) d = fst (updateDevice c key rnd g a did inp d)"
| "device_exec c key (V_enable g a did enabled) d = fst (setDeviceEnabled g a did enabled d)"
| "device_exec c key (V_delete g a did) d = fst (deleteDevice g a did d)"
| "device_exec c key (V_ingest gs ag p ctx) d =
     (case ingest_transaction gs ag p ctx d of fail e \<Rightarrow> d | ok (d', _) \<Rightarrow> commit_devices d d')"

primrec device_org :: "device_cmd \<Rightarrow> ident" where
  "device_org (V_register rnd g a inp) = a_orgId a"
| "device_org (V_update rnd g a did inp) = a_orgId a"
| "device_org (V_enable g a did enabled) = a_orgId a"
| "device_org (V_delete g a did) = a_orgId a"
| "device_org (V_ingest gs ag p ctx) = ag_orgId ag"

definition org_devices :: "ident \<Rightarrow> db \<Rightarrow> network_device_row list" where
  "org_devices orgId d = filter (\<lambda>x. nd_orgId x = orgId) (networkDevices d)"

definition device_inv :: "gcm \<times> nat list \<Rightarrow> db \<Rightarrow> bool" where
  "device_inv ck d = (gcm_law (fst ck) \<and> device_ids_unique d \<and> list_all (device_opens (fst ck) (snd ck)) (networkDevices d))"

lemma audit_devices [simp]: "networkDevices (recordAudit g k e d) = networkDevices d"
  by (simp add: recordAudit_def)

lemma update_many_all_opens:
  "list_all P t \<Longrightarrow> (\<And>x. x \<in> set t \<Longrightarrow> P x \<Longrightarrow> Q x \<Longrightarrow> P (f x)) \<Longrightarrow> list_all P (update_many Q f t)"
  by (auto simp: list_all_iff update_many_def)

lemma filter_update_many_same:
  assumes "\<And>y. y \<in> set t \<Longrightarrow> Q y \<Longrightarrow> \<not> P y \<and> \<not> P (f y)"
  shows "filter P (update_many Q f t) = filter P t"
  using assms by (induction t) auto

lemma register_devices:
  "networkDevices (fst (registerDevice c key rnd g a inp d)) = networkDevices d
   \<or> networkDevices (fst (registerDevice c key rnd g a inp d)) = networkDevices d @ [registered_device c key rnd g a inp]"
  by (simp add: registerDevice_def Let_def insert_row_def)

lemma update_devices:
  "networkDevices (fst (updateDevice c key rnd g a did inp d)) = networkDevices d
   \<or> (\<exists>x \<in> set (networkDevices d). nd_id x = did \<and> nd_orgId x = a_orgId a)
     \<and> networkDevices (fst (updateDevice c key rnd g a did inp d)) = update_many (\<lambda>x. nd_id x = did) (device_settings c key rnd did inp) (networkDevices d)"
proof (cases "find_first (\<lambda>x. nd_id x = did \<and> nd_orgId x = a_orgId a) (networkDevices d)")
  case None
  then show ?thesis by (simp add: updateDevice_def)
next
  case (Some x)
  then have "x \<in> set (networkDevices d) \<and> nd_id x = did \<and> nd_orgId x = a_orgId a" using find_first_SomeD[OF Some] by simp
  moreover have "networkDevices (fst (updateDevice c key rnd g a did inp d)) = networkDevices d
      \<or> networkDevices (fst (updateDevice c key rnd g a did inp d)) = update_many (\<lambda>x. nd_id x = did) (device_settings c key rnd did inp) (networkDevices d)"
    by (simp add: updateDevice_def)
  ultimately show ?thesis by blast
qed

lemma enable_devices:
  "networkDevices (fst (setDeviceEnabled g a did enabled d)) = networkDevices d
   \<or> networkDevices (fst (setDeviceEnabled g a did enabled d)) = update_many (device_in_org a did) (\<lambda>x. x\<lparr>nd_enabled := enabled\<rparr>) (networkDevices d)"
  by (simp add: setDeviceEnabled_def Let_def)

lemma delete_devices:
  "networkDevices (fst (deleteDevice g a did d)) = networkDevices d
   \<or> networkDevices (fst (deleteDevice g a did d)) = delete_many (device_in_org a did) (networkDevices d)"
  by (simp add: deleteDevice_def Let_def)

lemma upsert_device_opens:
  "list_all (device_opens c key) t \<Longrightarrow> list_all (device_opens c key) (fst (upsert_device g ag v time t))"
  by (auto simp: upsert_device_def insert_row_def ingested_device_opens intro!: update_many_all_opens split: option.split)

lemma upsert_device_foreign:
  assumes "orgId \<noteq> ag_orgId ag"
  shows "filter (\<lambda>x. nd_orgId x = orgId) (fst (upsert_device g ag v time t)) = filter (\<lambda>x. nd_orgId x = orgId) t"
proof -
  have "filter (\<lambda>x. nd_orgId x = orgId) (update_many (is_device ag v) (device_upd v time) t) = filter (\<lambda>x. nd_orgId x = orgId) t"
    using assms by (induction t) (auto simp: is_device_def device_upd_def)
  then show ?thesis using assms
    by (auto simp: upsert_device_def insert_row_def new_device_def device_upd_def split: option.split)
qed

lemma ingest_devices_registry:
  assumes "ingestSnmpDevices gs k ag vs ctx d = ok (d', rows, n)"
  shows "(list_all (device_opens c key) (networkDevices d) \<longrightarrow> list_all (device_opens c key) (networkDevices d'))
    \<and> (orgId \<noteq> ag_orgId ag \<longrightarrow> org_devices orgId d' = org_devices orgId d)"
  using assms
proof (induction vs arbitrary: k d rows n)
  case (Cons v vs)
  from Cons.prems obtain d1 rows1 n1 rows2 n2 where
    one: "ingest_device (ig_device gs k) (ig_port gs k) ag v ctx d = ok (d1, rows1, n1)"
    and rest: "ingestSnmpDevices gs (Suc k) ag vs ctx d1 = ok (d', rows2, n2)"
    by (auto split: result.splits)
  from one obtain time where d1: "networkDevices d1 = fst (upsert_device (ig_device gs k) ag v time (networkDevices d))"
    by (auto simp: ingest_device_def Let_def split_beta upsertInterfaces_frame split: result.splits if_splits)
  show ?case using Cons.IH[OF rest] upsert_device_opens[of c key "networkDevices d" "ig_device gs k" ag v time]
      upsert_device_foreign[of orgId ag "ig_device gs k" v time "networkDevices d"] by (simp add: org_devices_def d1)
qed simp

lemma ingest_transaction_registry:
  assumes "ingest_transaction gs ag p ctx d = ok (d', rows, r)"
  shows "list_all (device_opens c key) (networkDevices d) \<Longrightarrow> list_all (device_opens c key) (networkDevices d')"
    and "orgId \<noteq> ag_orgId ag \<Longrightarrow> org_devices orgId d' = org_devices orgId d"
proof -
  obtain d1 d2 rows2 n where "networkDevices d1 = networkDevices d" "ingestSnmpDevices gs 0 ag (tp_snmpDevices p) ctx d1 = ok (d2, rows2, n)"
    "networkDevices d' = networkDevices d2" by (rule ingest_transactionE[OF assms]) blast
  then show "list_all (device_opens c key) (networkDevices d) \<Longrightarrow> list_all (device_opens c key) (networkDevices d')"
    and "orgId \<noteq> ag_orgId ag \<Longrightarrow> org_devices orgId d' = org_devices orgId d"
    using ingest_devices_registry[of gs 0 ag "tp_snmpDevices p" ctx d1 d2 rows2 n c key orgId] by (simp_all add: org_devices_def)
qed

lemma commit_devices_cases: "commit_devices d d' = d \<or> commit_devices d d' = d' \<and> device_ids_unique d'"
  by (simp add: commit_devices_def)

lemma device_exec_inv:
  assumes "device_inv ck d"
  shows "device_inv ck (device_exec (fst ck) (snd ck) cmd d)"
proof -
  obtain c key where ck: "ck = (c, key)" by (cases ck)
  have law: "gcm_law c" and u: "device_ids_unique d" and o: "list_all (device_opens c key) (networkDevices d)"
    using assms by (simp_all add: device_inv_def ck)
  let ?I = "\<lambda>t. distinct (map nd_id t) \<and> list_all (device_opens c key) t"
  have "?I (networkDevices (device_exec c key cmd d))"
  proof (cases cmd)
    case (V_register rnd g a inp)
    then show ?thesis using u o registered_device_opens[OF law, of key rnd g a inp]
        register_devices[of c key rnd g a inp d] commit_devices_cases[of d "fst (registerDevice c key rnd g a inp d)"]
      by (auto simp: device_ids_unique_def)
  next
    case (V_update rnd g a did inp)
    have "?I (update_many (\<lambda>x. nd_id x = did) (device_settings c key rnd did inp) (networkDevices d))"
      using u o by (auto simp: map_update_many device_ids_unique_def intro!: update_many_all_opens device_settings_opens[OF law])
    then show ?thesis using V_update u o update_devices[of c key rnd g a did inp d] by (auto simp: device_ids_unique_def)
  next
    case (V_enable g a did enabled)
    have "?I (update_many (device_in_org a did) (\<lambda>x. x\<lparr>nd_enabled := enabled\<rparr>) (networkDevices d))"
      using u o by (auto simp: map_update_many device_ids_unique_def device_opens_iff intro!: update_many_all_opens)
    then show ?thesis using V_enable u o enable_devices[of g a did enabled d] by (auto simp: device_ids_unique_def)
  next
    case (V_delete g a did)
    have "?I (delete_many (device_in_org a did) (networkDevices d))"
      using u o by (auto simp: distinct_map_delete_many device_ids_unique_def list_all_iff set_delete_many)
    then show ?thesis using V_delete u o delete_devices[of g a did d] by (auto simp: device_ids_unique_def)
  next
    case (V_ingest gs ag p ctx)
    then show ?thesis using u o ingest_transaction_registry(1)[of gs ag p ctx d _ _ _ c key]
      by (auto simp: device_ids_unique_def commit_devices_def split: result.split)
  qed
  then show ?thesis by (simp add: device_inv_def ck law device_ids_unique_def)
qed

lemma device_exec_foreign:
  assumes "device_inv ck d" and "orgId \<noteq> device_org cmd"
  shows "org_devices orgId (device_exec (fst ck) (snd ck) cmd d) = org_devices orgId d"
proof (cases cmd)
  case (V_register rnd g a inp)
  then show ?thesis using assms(2) register_devices[of "fst ck" "snd ck" rnd g a inp d]
      commit_devices_cases[of d "fst (registerDevice (fst ck) (snd ck) rnd g a inp d)"]
    by (auto simp: org_devices_def registered_device_def)
next
  case (V_update rnd g a did inp)
  have "filter (\<lambda>x. nd_orgId x = orgId) (update_many (\<lambda>x. nd_id x = did) (device_settings (fst ck) (snd ck) rnd did inp) (networkDevices d))
      = filter (\<lambda>x. nd_orgId x = orgId) (networkDevices d)" if "\<exists>x \<in> set (networkDevices d). nd_id x = did \<and> nd_orgId x = a_orgId a"
  proof (rule filter_update_many_same)
    fix y assume "y \<in> set (networkDevices d)" "nd_id y = did"
    with that assms(1) have "nd_orgId y = a_orgId a" by (auto simp: device_inv_def device_ids_unique_def dest: inj_onD simp: distinct_map)
    then show "nd_orgId y \<noteq> orgId \<and> nd_orgId (device_settings (fst ck) (snd ck) rnd did inp y) \<noteq> orgId" using assms(2) V_update by simp
  qed
  then show ?thesis using V_update update_devices[of "fst ck" "snd ck" rnd g a did inp d] unfolding org_devices_def by fastforce
next
  case (V_enable g a did enabled)
  have "filter (\<lambda>x. nd_orgId x = orgId) (update_many (device_in_org a did) (\<lambda>x. x\<lparr>nd_enabled := enabled\<rparr>) (networkDevices d))
      = filter (\<lambda>x. nd_orgId x = orgId) (networkDevices d)"
    by (rule filter_update_many_same) (use assms(2) V_enable in \<open>auto simp: device_in_org_def\<close>)
  then show ?thesis using V_enable enable_devices[of g a did enabled d] by (auto simp: org_devices_def)
next
  case (V_delete g a did)
  have "filter (\<lambda>x. nd_orgId x = orgId) (delete_many (device_in_org a did) (networkDevices d)) = filter (\<lambda>x. nd_orgId x = orgId) (networkDevices d)"
    by (rule filter_delete_many) (use assms(2) V_delete in \<open>auto simp: device_in_org_def\<close>)
  then show ?thesis using V_delete delete_devices[of g a did d] by (auto simp: org_devices_def)
next
  case (V_ingest gs ag p ctx)
  then show ?thesis using assms(2) ingest_transaction_registry(2)[of gs ag p ctx d _ _ _ orgId]
    by (auto simp: commit_devices_def split: result.split)
qed

interpretation device_registry: tenant_scoped "device_inv ck" "device_exec (fst ck) (snd ck)" device_org org_devices for ck
  by unfold_locales (rule device_exec_inv, assumption, rule device_exec_foreign, assumption+)

section \<open>Lemmas: what the poller gets\<close>

lemma collect_all: "list_all (\<lambda>x. x \<noteq> None) xs \<Longrightarrow> collect xs = Some (map the xs)"
  by (induction xs rule: collect.induct) auto

lemma polled_own: "find_many (polled_by orgId hid) (networkDevices d) = find_many (polled_by orgId hid) (org_devices orgId d)"
  by (auto simp: find_many_def org_devices_def polled_by_def intro: filter_cong)

lemma poller_list:
  assumes "device_inv (c, key) d"
  shows "listDevicesForPoller c key coll orgId hid d
    = Some (map (\<lambda>x. the (poller_device_of c key x)) (order_asc (\<lambda>x. coll (nd_name x)) (find_many (polled_by orgId hid) (networkDevices d))))"
proof -
  have "list_all (\<lambda>y. y \<noteq> None) (map (poller_device_of c key) (order_asc (\<lambda>x. coll (nd_name x)) (find_many (polled_by orgId hid) (networkDevices d))))"
    using assms by (auto simp: device_inv_def list_all_iff device_opens_def set_find_many)
  from collect_all[OF this] show ?thesis by (simp add: listDevicesForPoller_def comp_def)
qed

lemma poller_device_id: "device_opens c key x \<Longrightarrow> pd_id (the (poller_device_of c key x)) = nd_id x"
  by (auto simp: device_opens_def poller_device_of_def split: option.splits)

lemma poller_device_settings:
  assumes "gcm_law c" and "poller_device_of c key x = Some p" and "nd_id x = did"
  shows "\<exists>q. poller_device_of c key (device_settings c key rnd did inp x) = Some q \<and> pd_id q = did \<and> pd_ipAddress q = di_ipAddress inp
    \<and> pd_snmpVersion q = di_snmpVersion inp \<and> pd_snmpCommunity q = keep (pd_snmpCommunity p) (truthy (di_snmpCommunity inp))
    \<and> pv_authKey (pd_snmpV3 q) = keep (pv_authKey (pd_snmpV3 p)) (truthy (di_snmpV3AuthKey inp))
    \<and> pv_privKey (pd_snmpV3 q) = keep (pv_privKey (pd_snmpV3 p)) (truthy (di_snmpV3PrivKey inp))"
proof -
  have old: "open_field c key did ''community'' (nd_snmpCommunityEnc x) = Some (pd_snmpCommunity p)"
    "open_field c key did ''authKey'' (nd_snmpV3AuthKeyEnc x) = Some (pv_authKey (pd_snmpV3 p))"
    "open_field c key did ''privKey'' (nd_snmpV3PrivKeyEnc x) = Some (pv_privKey (pd_snmpV3 p))"
    using assms(2,3) by (auto simp: poller_device_of_def split: option.splits)
  have new: "open_field c key did field (keep e (seal_field c key src did field s)) = Some (keep v (truthy s))"
    if "open_field c key did field e = Some v" for field e src s v
    using that open_keep_seal[OF assms(1), of key did field e src s] by (simp add: keep_def split: option.split)
  show ?thesis using new[OF old(1)] new[OF old(2)] new[OF old(3)] assms(3)
    by (simp add: poller_device_of_def device_settings_def credentialFields_def)
qed

lemma registered_poller_device:
  assumes "gcm_law c"
  shows "\<exists>q. poller_device_of c key (registered_device c key rnd g a inp) = Some q \<and> pd_snmpCommunity q = truthy (di_snmpCommunity inp)
    \<and> pv_authKey (pd_snmpV3 q) = truthy (di_snmpV3AuthKey inp) \<and> pv_privKey (pd_snmpV3 q) = truthy (di_snmpV3PrivKey inp)"
proof -
  have new: "open_field c key did field (keep None (seal_field c key src did field s)) = Some (truthy s)" for did field src s
    using open_keep_seal[OF assms, of key did field None src s] by (simp add: open_field_def split: option.splits)
  show ?thesis by (simp add: poller_device_of_def registered_device_def credentialFields_def new)
qed

section \<open>Properties\<close>

text \<open>C26.
  SNMP credentials reach exactly the poller they are meant for. Whatever administrators and agents of any
  organizations do, the configuration of a poller can always be read (no stored
  credential becomes unreadable) and lists exactly the enabled devices of its organization that are assigned to it, each
  once; and requests of other organizations do not change it.
\<close>

theorem poller_configuration_exact:
  assumes "device_inv (c, key) d"
  shows "(\<exists>cfgs. listDevicesForPoller c key coll orgId hid (fold (device_exec c key) cmds d) = Some cfgs \<and> distinct (map pd_id cfgs)
      \<and> set (map pd_id cfgs) = nd_id ` {x \<in> set (networkDevices (fold (device_exec c key) cmds d)). nd_orgId x = orgId \<and> nd_pollerHostId x = Some hid \<and> nd_enabled x})
    \<and> ((\<forall>cmd \<in> set cmds. device_org cmd \<noteq> orgId) \<longrightarrow>
         listDevicesForPoller c key coll orgId hid (fold (device_exec c key) cmds d) = listDevicesForPoller c key coll orgId hid d)"
proof -
  let ?d = "fold (device_exec c key) cmds d"
  let ?t = "order_asc (\<lambda>x. coll (nd_name x)) (find_many (polled_by orgId hid) (networkDevices ?d))"
  have inv: "device_inv (c, key) ?d" using device_registry.fold_inv[OF assms, of cmds] by simp
  have opens: "device_opens c key x" if "x \<in> set ?t" for x
    using that inv by (auto simp: device_inv_def list_all_iff set_find_many)
  then have "map pd_id (map (\<lambda>x. the (poller_device_of c key x)) ?t) = map nd_id ?t" by (simp add: poller_device_id)
  moreover have "distinct (map nd_id ?t)"
    using inv by (auto simp: device_inv_def device_ids_unique_def order_asc_def find_many_def distinct_map_filter distinct_map inj_on_subset)
  moreover have "set (map nd_id ?t) = nd_id ` {x \<in> set (networkDevices ?d). nd_orgId x = orgId \<and> nd_pollerHostId x = Some hid \<and> nd_enabled x}"
    by (auto simp: set_find_many polled_by_def)
  moreover have "listDevicesForPoller c key coll orgId hid ?d = listDevicesForPoller c key coll orgId hid d" if "\<forall>cmd \<in> set cmds. device_org cmd \<noteq> orgId"
    using device_registry.foreign_rows_all[OF assms that] polled_own[of orgId hid] by (simp add: listDevicesForPoller_def)
  ultimately show ?thesis using poller_list[OF inv, of coll orgId hid] by metis
qed

text \<open>A switch polled by a host, registered with a community and edited without one.\<close>

definition sample_device_random :: device_random where
  "sample_device_random = \<lparr>dx_id = (\<lambda>_. 0), dx_community = (\<lambda>_. 0), dx_authKey = (\<lambda>_. 0), dx_privKey = (\<lambda>_. 0)\<rparr>"

definition sample_device_input :: "string option \<Rightarrow> device_input" where
  "sample_device_input community = \<lparr>di_name = ''switch'', di_ipAddress = ''10.0.0.9'', di_type = SWITCH, di_tags = [], di_pollerHostId = Some ''h1'',
     di_pollIntervalSec = 60, di_snmpVersion = V2C, di_snmpPort = 161, di_snmpTimeoutMs = 3000, di_snmpRetries = 1,
     di_snmpCommunity = community, di_snmpV3Username = None, di_snmpV3SecurityLevel = None, di_snmpV3AuthProtocol = None,
     di_snmpV3AuthKey = None, di_snmpV3PrivProtocol = None, di_snmpV3PrivKey = None, di_snmpV3ContextName = None\<rparr>"

lemma sample_device_inv: "device_inv (toy_gcm, [1, 2, 3]) sample_ingest_db"
  by (simp add: device_inv_def toy_gcm_law device_ids_unique_def sample_ingest_db_def sample_db_def empty_db_def)

theorem poller_configuration_exact_witness:
  "\<exists>cfgs. listDevicesForPoller toy_gcm [1, 2, 3] (\<lambda>_. 0) ''acme'' ''h1''
      (fold (device_exec toy_gcm [1, 2, 3]) [V_register sample_device_random sample_gen (sample_actor ''ann'' ''acme'' OWNER) (sample_device_input (Some ''public''))]
        sample_ingest_db) = Some cfgs \<and> distinct (map pd_id cfgs)"
  using poller_configuration_exact[OF sample_device_inv,
      of "\<lambda>_. 0" "''acme''" "''h1''" "[V_register sample_device_random sample_gen (sample_actor ''ann'' ''acme'' OWNER) (sample_device_input (Some ''public''))]"]
  by blast

text \<open>C27.
  A credential typed in by an administrator is what the poller receives, and leaving the field empty in a later
  edit keeps it: after a registration and an update, the configuration of the poller has, for
  the community and the two keys, the value of the update when there is one and that of the registration otherwise.
\<close>

theorem credentials_reach_poller:
  assumes "device_inv (c, key) d" and "registerDevice c key rnd g a inp d = (d1, ok did)" and "did \<notin> nd_id ` set (networkDevices d)"
    and "updateDevice c key rnd' g' a' did inp' d1 = (d2, ok ())" and "di_pollerHostId inp' = Some hid"
  shows "\<exists>cfgs cfg. listDevicesForPoller c key coll (a_orgId a) hid d2 = Some cfgs \<and> cfg \<in> set cfgs \<and> pd_id cfg = did
    \<and> pd_ipAddress cfg = di_ipAddress inp' \<and> pd_snmpVersion cfg = di_snmpVersion inp'
    \<and> pd_snmpCommunity cfg = keep (truthy (di_snmpCommunity inp)) (truthy (di_snmpCommunity inp'))
    \<and> pv_authKey (pd_snmpV3 cfg) = keep (truthy (di_snmpV3AuthKey inp)) (truthy (di_snmpV3AuthKey inp'))
    \<and> pv_privKey (pd_snmpV3 cfg) = keep (truthy (di_snmpV3PrivKey inp)) (truthy (di_snmpV3PrivKey inp'))"
proof -
  let ?x = "registered_device c key rnd g a inp"
  have law: "gcm_law c" using assms(1) by (simp add: device_inv_def)
  have d1: "networkDevices d1 = networkDevices d @ [?x]" and did: "did = generateDeviceId (dx_id rnd)"
    using assms(2) by (auto simp: registerDevice_def Let_def insert_row_def split: if_splits)
  have x: "nd_id ?x = did" "nd_orgId ?x = a_orgId a" "nd_enabled ?x" by (simp_all add: registered_device_def did)
  have "device_exec c key (V_register rnd g a inp) d = d1"
    using assms(1-3) d1 x(1) by (simp add: commit_devices_def device_ids_unique_def device_inv_def)
  then have inv: "device_inv (c, key) d2"
    using device_registry.fold_inv[OF assms(1), of "[V_register rnd g a inp, V_update rnd' g' a' did inp']"] assms(4) by simp
  have d2: "networkDevices d2 = update_many (\<lambda>x. nd_id x = did) (device_settings c key rnd' did inp') (networkDevices d1)"
    using assms(4) by (auto simp: updateDevice_def split: if_splits)
  let ?y = "device_settings c key rnd' did inp' ?x"
  have "?y \<in> set (networkDevices d2)" unfolding d2 d1 using x(1) by (auto simp: update_many_def)
  moreover have "nd_orgId ?y = a_orgId a" "nd_pollerHostId ?y = Some hid" "nd_enabled ?y"
    using x assms(5) by (simp_all add: device_settings_def)
  ultimately have "the (poller_device_of c key ?y) \<in> set (map (\<lambda>x. the (poller_device_of c key x))
      (order_asc (\<lambda>x. coll (nd_name x)) (find_many (polled_by (a_orgId a) hid) (networkDevices d2))))"
    by (auto simp: set_find_many polled_by_def)
  moreover obtain p where p: "poller_device_of c key ?x = Some p" "pd_snmpCommunity p = truthy (di_snmpCommunity inp)"
    "pv_authKey (pd_snmpV3 p) = truthy (di_snmpV3AuthKey inp)" "pv_privKey (pd_snmpV3 p) = truthy (di_snmpV3PrivKey inp)"
    using registered_poller_device[OF law] by blast
  ultimately show ?thesis
    using poller_list[OF inv, of coll "a_orgId a" hid] poller_device_settings[OF law p(1) x(1), of rnd' inp'] p(2-4) by fastforce
qed

definition sample_registered where
  "sample_registered = registerDevice toy_gcm [1, 2, 3] sample_device_random sample_gen (sample_actor ''ann'' ''acme'' OWNER)
     (sample_device_input (Some ''public'')) sample_ingest_db"

definition sample_updated where
  "sample_updated = updateDevice toy_gcm [1, 2, 3] sample_device_random sample_gen (sample_actor ''ann'' ''acme'' OWNER)
     (generateDeviceId (\<lambda>_. 0)) (sample_device_input None) (fst sample_registered)"

theorem credentials_reach_poller_witness:
  "\<exists>cfgs cfg. listDevicesForPoller toy_gcm [1, 2, 3] (\<lambda>_. 0) ''acme'' ''h1'' (fst sample_updated) = Some cfgs
     \<and> cfg \<in> set cfgs \<and> pd_ipAddress cfg = ''10.0.0.9'' \<and> pd_snmpCommunity cfg = Some ''public''"
proof -
  let ?a = "sample_actor ''ann'' ''acme'' OWNER"
  have quad: "''10.0.0.9'' = dotted 10 0 0 9" by code_simp
  have ip: "isIP ''10.0.0.9'' \<noteq> 0" unfolding quad by (simp add: isIP_dotted)
  have may: "can (Some OWNER) devices_write" by code_simp
  have host: "resolvePoller ''acme'' (Some ''h1'') d" if "monitoredHosts d = [sample_host]" for d
    using that by (simp add: resolvePoller_def truthy_def or_null_def sample_host_def)
  have one: "sample_registered = (fst sample_registered, ok (generateDeviceId (\<lambda>_. 0)))"
    and t: "networkDevices (fst sample_registered) = [registered_device toy_gcm [1, 2, 3] sample_device_random sample_gen ?a (sample_device_input (Some ''public''))]"
    and h: "monitoredHosts (fst sample_registered) = [sample_host]"
    using ip may host[of sample_ingest_db] unfolding sample_registered_def
    by (simp_all add: registerDevice_def sample_device_input_def sample_actor_def sample_device_random_def Let_def insert_row_def
        recordAudit_def sample_ingest_db_def sample_db_def empty_db_def)
  have two: "sample_updated = (fst sample_updated, ok ())"
    using ip may host[OF h] unfolding sample_updated_def
    by (simp add: updateDevice_def t sample_device_input_def sample_actor_def registered_device_def credentialFields_def sample_device_random_def)
  have fresh: "generateDeviceId (\<lambda>_. 0) \<notin> nd_id ` set (networkDevices sample_ingest_db)"
    by (simp add: sample_ingest_db_def sample_db_def empty_db_def)
  have "di_pollerHostId (sample_device_input None) = Some ''h1''" by (simp add: sample_device_input_def)
  moreover have "registerDevice toy_gcm [1, 2, 3] sample_device_random sample_gen ?a (sample_device_input (Some ''public'')) sample_ingest_db
      = (fst sample_registered, ok (generateDeviceId (\<lambda>_. 0)))" using one by (subst sample_registered_def[symmetric])
  moreover have "updateDevice toy_gcm [1, 2, 3] sample_device_random sample_gen ?a (generateDeviceId (\<lambda>_. 0)) (sample_device_input None)
      (fst sample_registered) = (fst sample_updated, ok ())" using two by (subst sample_updated_def[symmetric])
  ultimately obtain cfgs cfg where "listDevicesForPoller toy_gcm [1, 2, 3] (\<lambda>_. 0) (a_orgId ?a) ''h1'' (fst sample_updated) = Some cfgs" "cfg \<in> set cfgs"
      "pd_ipAddress cfg = di_ipAddress (sample_device_input None)"
      "pd_snmpCommunity cfg = keep (truthy (di_snmpCommunity (sample_device_input (Some ''public'')))) (truthy (di_snmpCommunity (sample_device_input None)))"
    using credentials_reach_poller[OF sample_device_inv _ fresh] by blast
  moreover have "a_orgId ?a = ''acme''" "di_ipAddress (sample_device_input None) = ''10.0.0.9''"
    "keep (truthy (di_snmpCommunity (sample_device_input (Some ''public'')))) (truthy (di_snmpCommunity (sample_device_input None))) = Some ''public''"
    by (simp_all add: sample_actor_def sample_device_input_def truthy_def or_null_def keep_def)
  ultimately show ?thesis by (metis (no_types))
qed

end
