(* ===== verification/Energy_Sla.thy ===== *)
theory Energy_Sla
  imports Schema
begin

text \<open>
  The estimates of \<open>src/modules/finops/energy.ts\<close> and the service-level arithmetic of
  \<open>src/modules/saas/sla.ts\<close>, over the reals (floating-point rounding is not modelled). Default
  arguments are written out at the call.
\<close>

section \<open>Energy\<close>

definition estimatePowerWatts :: "real \<Rightarrow> real \<Rightarrow> real \<Rightarrow> real" where
  "estimatePowerWatts cpuUtilizationPercent idleWatts maxWatts =
     (let u = min 100 (max 0 cpuUtilizationPercent) / 100;
          low = min idleWatts maxWatts;
          high = max idleWatts maxWatts
      in low + (high - low) * u)"

definition energyKwh :: "real \<Rightarrow> real \<Rightarrow> real \<Rightarrow> real" where
  "energyKwh averageWatts hours powerUsageEffectiveness =
     (max 0 averageWatts * max 0 hours * max 1 powerUsageEffectiveness) / 1000"

definition carbonKgCo2e :: "real \<Rightarrow> real \<Rightarrow> real" where
  "carbonKgCo2e kwh gridIntensityGco2PerKwh = (max 0 kwh * max 0 gridIntensityGco2PerKwh) / 1000"

definition energyCost :: "real \<Rightarrow> real \<Rightarrow> real" where
  "energyCost kwh pricePerKwh = max 0 kwh * max 0 pricePerKwh"

definition wastedCapacityRatio :: "real \<Rightarrow> real \<Rightarrow> real" where
  "wastedCapacityRatio averageUtilizationPercent targetUtilizationPercent =
     (let target = max 1 (min 100 targetUtilizationPercent);
          used = max 0 (min 100 averageUtilizationPercent)
      in max 0 (1 - used / target))"

section \<open>Service levels\<close>

definition sslDaysLeft :: "ms \<Rightarrow> ms \<Rightarrow> int" where
  "sslDaysLeft expiresAt now = (expiresAt - now) div (24 * 60 * 60 * 1000)"

definition availabilityPercent :: "real \<Rightarrow> real \<Rightarrow> real option" where
  "availabilityPercent successfulChecks totalChecks =
     (if totalChecks \<le> 0 then None else Some (min successfulChecks totalChecks / totalChecks * 100))"

definition errorBudgetMinutes :: "real \<Rightarrow> real \<Rightarrow> real" where
  "errorBudgetMinutes slaTargetPercent windowDays =
     (let target = min 100 (max 0 slaTargetPercent) in (1 - target / 100) * windowDays * 24 * 60)"

definition isSlaBreached :: "real \<Rightarrow> real \<Rightarrow> real \<Rightarrow> bool" where
  "isSlaBreached downtimeMinutes slaTargetPercent windowDays =
     (downtimeMinutes > errorBudgetMinutes slaTargetPercent windowDays)"

section \<open>Lemmas\<close>

text \<open>The estimated draw stays between the two given powers and grows with utilization.\<close>

lemma estimatePowerWatts_bounds:
  shows "min a b \<le> estimatePowerWatts u a b" and "estimatePowerWatts u a b \<le> max a b"
proof -
  define k where "k = min 100 (max 0 u) / 100"
  have k: "0 \<le> k" "k \<le> 1" by (simp_all add: k_def)
  have "0 \<le> (max a b - min a b) * k" using k by (intro mult_nonneg_nonneg) auto
  moreover have "(max a b - min a b) * k \<le> max a b - min a b" using k by (intro mult_left_le) auto
  ultimately show "min a b \<le> estimatePowerWatts u a b" "estimatePowerWatts u a b \<le> max a b"
    unfolding estimatePowerWatts_def k_def[symmetric] Let_def by linarith+
qed

lemma estimatePowerWatts_mono: "u \<le> v \<Longrightarrow> estimatePowerWatts u a b \<le> estimatePowerWatts v a b"
  unfolding estimatePowerWatts_def Let_def
  by (intro add_left_mono mult_left_mono divide_right_mono) (auto simp: min_def max_def)

lemma wasted_bounds: shows "0 \<le> wastedCapacityRatio u t" and "wastedCapacityRatio u t \<le> 1"
  by (simp_all add: wastedCapacityRatio_def Let_def)

lemma wasted_zero_iff:
  "wastedCapacityRatio u t = 0 \<longleftrightarrow> max 1 (min 100 t) \<le> max 0 (min 100 u)"
proof -
  define k where "k = max 1 (min 100 t)"
  have "0 < k" by (simp add: k_def)
  moreover have "max 0 (1 - r) = 0 \<longleftrightarrow> 1 \<le> r" for r :: real by (simp add: max_def)
  ultimately have "max 0 (1 - max 0 (min 100 u) / k) = 0 \<longleftrightarrow> k \<le> max 0 (min 100 u)"
    by (simp only: pos_le_divide_eq mult_1)
  then show ?thesis by (simp add: wastedCapacityRatio_def k_def)
qed

lemma availability_range:
  "availabilityPercent s n = Some a \<Longrightarrow> 0 \<le> s \<Longrightarrow> 0 \<le> a \<and> a \<le> 100"
  by (auto simp: availabilityPercent_def divide_le_eq split: if_splits)

lemma sslDaysLeft_expired: "sslDaysLeft e now < 0 \<longleftrightarrow> e < now"
  by (simp add: sslDaysLeft_def pos_imp_zdiv_neg_iff)

section \<open>Properties\<close>

text \<open>Judging an SLA by its error budget is judging the availability over the whole window: for a
  target between 0 and 100 percent and a window of positive length, the SLA is breached exactly when
  the share of the window's minutes that were up is below the target.
\<close>

lemma sla_budget_equivalence:
  assumes "0 < windowDays" and "0 \<le> target" and "target \<le> 100"
  shows "isSlaBreached downtime target windowDays
      \<longleftrightarrow> (1 - downtime / (windowDays * 24 * 60)) * 100 < target"
proof -
  let ?w = "windowDays * 24 * 60"
  have w: "0 < ?w" using assms(1) by simp
  have "isSlaBreached downtime target windowDays \<longleftrightarrow> (1 - target / 100) * ?w < downtime"
    using assms(2,3) by (simp add: isSlaBreached_def errorBudgetMinutes_def max_def min_def mult.assoc)
  also have "\<dots> \<longleftrightarrow> 1 - target / 100 < downtime / ?w" by (rule pos_less_divide_eq[OF w, symmetric])
  also have "\<dots> \<longleftrightarrow> (1 - downtime / ?w) * 100 < target" by (simp add: field_simps)
  finally show ?thesis .
qed

text \<open>99.9 percent over 30 days allow 43.2 minutes: 44 break it.\<close>

lemma sla_budget_equivalence_witness:
  "isSlaBreached 44 99.9 30 \<and> (1 - 44 / (30 * 24 * 60)) * 100 < (99.9 :: real)"
  using sla_budget_equivalence[of 30 "99.9" 44]
  by (simp add: isSlaBreached_def errorBudgetMinutes_def)

end
