(* ===== verification/Checks.thy ===== *)
theory Checks
  imports Probe Inventory Energy_Sla "HOL-Library.Multiset"
begin

text \<open>
  Synthetic endpoint checks: their configuration (\<open>src/modules/saas/endpoints.ts\<close>) and the runner that
  claims, probes and records them (\<open>src/modules/saas/runner/runner.ts\<close>). A claim is one statement of the database: it
  takes the due checks no other runner has locked (\<open>FOR UPDATE SKIP LOCKED\<close>; \<open>locked\<close> is a parameter), oldest first,
  and pushes their next run one interval ahead. The returned rows are listed in that order. \<open>parse_url\<close> gives the
  parts and the normalised text of a URL.
\<close>

section \<open>Configuration\<close>

record endpoint_view =
  ew_id :: ident
  ew_name :: string
  ew_url :: string
  ew_method :: http_method
  ew_expectedStatus :: int
  ew_expectedBodyContains :: "string option"
  ew_intervalSec :: int
  ew_timeoutMs :: int
  ew_regions :: "string list"
  ew_tags :: "string list"
  ew_enabled :: bool
  ew_followRedirects :: bool
  ew_verifySsl :: bool
  ew_slaTargetPercent :: real
  ew_sslExpiresAt :: "ms option"
  ew_sslIssuer :: "string option"
  ew_status :: health_status
  ew_lastCheckedAt :: "ms option"
  ew_lastStatusCode :: "int option"
  ew_lastResponseMs :: "real option"
  ew_consecutiveFailures :: int
  ew_lastError :: "string option"
  ew_lastErrorDetail :: "string option"
  ew_createdAt :: ms

datatype endpoint_write_error = EE_forbidden | EE_invalid_url | EE_not_found

definition endpoint_view_of :: "endpoint_row \<Rightarrow> endpoint_view" where
  "endpoint_view_of e = \<lparr>ew_id = ep_id e, ew_name = ep_name e, ew_url = ep_url e, ew_method = ep_method e,
     ew_expectedStatus = ep_expectedStatus e, ew_expectedBodyContains = ep_expectedBodyContains e, ew_intervalSec = ep_intervalSec e,
     ew_timeoutMs = ep_timeoutMs e, ew_regions = ep_regions e, ew_tags = ep_tags e, ew_enabled = ep_enabled e,
     ew_followRedirects = ep_followRedirects e, ew_verifySsl = ep_verifySsl e, ew_slaTargetPercent = ep_slaTargetPercent e,
     ew_sslExpiresAt = ep_sslExpiresAt e, ew_sslIssuer = ep_sslIssuer e, ew_status = ep_status e, ew_lastCheckedAt = ep_lastCheckedAt e,
     ew_lastStatusCode = ep_lastStatusCode e, ew_lastResponseMs = ep_lastResponseMs e, ew_consecutiveFailures = ep_consecutiveFailures e,
     ew_lastError = ep_lastError e, ew_lastErrorDetail = ep_lastErrorDetail e, ew_createdAt = ep_createdAt e\<rparr>"

definition listEndpoints :: "(string \<Rightarrow> real) \<Rightarrow> actor \<Rightarrow> db \<Rightarrow> (endpoint_view list, endpoint_write_error) result" where
  "listEndpoints collate a d =
     (if \<not> can (Some (a_role a)) endpoints_read then fail EE_forbidden
      else ok (map endpoint_view_of (order_asc (\<lambda>e. collate (ep_name e)) (find_many (\<lambda>e. ep_orgId e = a_orgId a) (endpointChecks d)))))"

record endpoint_input =
  ei_name :: string
  ei_url :: string
  ei_method :: http_method
  ei_expectedStatus :: int
  ei_expectedBodyContains :: "string option"
  ei_intervalSec :: int
  ei_timeoutMs :: int
  ei_tags :: "string list"
  ei_followRedirects :: bool
  ei_verifySsl :: bool
  ei_slaTargetPercent :: real

definition normalizeUrl :: "(string \<Rightarrow> (url \<times> string) option) \<Rightarrow> string \<Rightarrow> string option" where
  "normalizeUrl parse_url input = (case parse_url input of
       None \<Rightarrow> None
     | Some (u, href) \<Rightarrow> if url_protocol u \<noteq> ''http:'' \<and> url_protocol u \<noteq> ''https:'' then None else or_null href)"

definition endpoint_settings :: "endpoint_input \<Rightarrow> string \<Rightarrow> endpoint_row \<Rightarrow> endpoint_row" where
  "endpoint_settings inp href e = e\<lparr>ep_name := ei_name inp, ep_url := href, ep_method := ei_method inp,
     ep_expectedStatus := ei_expectedStatus inp, ep_expectedBodyContains := truthy (ei_expectedBodyContains inp),
     ep_intervalSec := ei_intervalSec inp, ep_timeoutMs := ei_timeoutMs inp, ep_tags := ei_tags inp,
     ep_followRedirects := ei_followRedirects inp, ep_verifySsl := ei_verifySsl inp, ep_slaTargetPercent := ei_slaTargetPercent inp\<rparr>"

definition new_endpoint :: "dbgen \<Rightarrow> actor \<Rightarrow> endpoint_input \<Rightarrow> string \<Rightarrow> endpoint_row" where
  "new_endpoint g a inp href = endpoint_settings inp href
     \<lparr>ep_id = cuid g 0, ep_orgId = a_orgId a, ep_name = [], ep_url = [], ep_method = GET, ep_headers = None, ep_body = None, ep_expectedStatus = 200,
      ep_expectedBodyContains = None, ep_followRedirects = True, ep_verifySsl = True, ep_intervalSec = 60, ep_timeoutMs = 10000,
      ep_regions = [], ep_enabled = True, ep_tags = [], ep_slaTargetPercent = 999 / 10, ep_sslExpiresAt = None, ep_sslIssuer = None,
      ep_status = UNKNOWN, ep_lastCheckedAt = None, ep_lastStatusCode = None, ep_lastResponseMs = None, ep_consecutiveFailures = 0,
      ep_lastError = None, ep_lastErrorDetail = None, ep_nextRunAt = None, ep_createdAt = clock g\<rparr>"

definition endpoint_metadata :: "endpoint_input \<Rightarrow> string \<Rightarrow> json" where
  "endpoint_metadata inp href = JObj [(''name'', JStr (ei_name inp)), (''url'', JStr href)]"

definition createEndpoint ::
  "(string \<Rightarrow> (url \<times> string) option) \<Rightarrow> dbgen \<Rightarrow> actor \<Rightarrow> endpoint_input \<Rightarrow> db \<Rightarrow> db \<times> (ident, endpoint_write_error) result" where
  "createEndpoint parse_url g a inp d =
     (if \<not> can (Some (a_role a)) endpoints_write then (d, fail EE_forbidden)
      else case normalizeUrl parse_url (ei_url inp) of
        None \<Rightarrow> (d, fail EE_invalid_url)
      | Some href \<Rightarrow>
          (recordAudit g 1 (actor_entry ''endpoint.created'' a ''endpoint'' (cuid g 0) (Some (endpoint_metadata inp href)))
             (d\<lparr>endpointChecks := insert_row (new_endpoint g a inp href) (endpointChecks d)\<rparr>), ok (cuid g 0)))"

definition endpoint_in_org :: "actor \<Rightarrow> ident \<Rightarrow> endpoint_row \<Rightarrow> bool" where
  "endpoint_in_org a eid e = (ep_id e = eid \<and> ep_orgId e = a_orgId a)"

definition updateEndpoint ::
  "(string \<Rightarrow> (url \<times> string) option) \<Rightarrow> dbgen \<Rightarrow> actor \<Rightarrow> ident \<Rightarrow> endpoint_input \<Rightarrow> db \<Rightarrow> db \<times> (unit, endpoint_write_error) result" where
  "updateEndpoint parse_url g a eid inp d =
     (if \<not> can (Some (a_role a)) endpoints_write then (d, fail EE_forbidden)
      else case normalizeUrl parse_url (ei_url inp) of
        None \<Rightarrow> (d, fail EE_invalid_url)
      | Some href \<Rightarrow>
          let d1 = d\<lparr>endpointChecks := update_many (endpoint_in_org a eid) (\<lambda>e. (endpoint_settings inp href e)\<lparr>ep_nextRunAt := None\<rparr>) (endpointChecks d)\<rparr>
          in if count_rows (endpoint_in_org a eid) (endpointChecks d) \<noteq> 1 then (d1, fail EE_not_found)
             else (recordAudit g 0 (actor_entry ''endpoint.updated'' a ''endpoint'' eid (Some (endpoint_metadata inp href))) d1, ok ()))"

definition setEndpointEnabled :: "dbgen \<Rightarrow> actor \<Rightarrow> ident \<Rightarrow> bool \<Rightarrow> db \<Rightarrow> db \<times> (unit, endpoint_write_error) result" where
  "setEndpointEnabled g a eid enabled d =
     (if \<not> can (Some (a_role a)) endpoints_write then (d, fail EE_forbidden)
      else let d1 = d\<lparr>endpointChecks := update_many (endpoint_in_org a eid)
                 (\<lambda>e. if enabled then e\<lparr>ep_enabled := True, ep_nextRunAt := None\<rparr> else e\<lparr>ep_enabled := False\<rparr>) (endpointChecks d)\<rparr>
        in if count_rows (endpoint_in_org a eid) (endpointChecks d) \<noteq> 1 then (d1, fail EE_not_found)
           else (recordAudit g 0 (actor_entry (if enabled then ''endpoint.enabled'' else ''endpoint.disabled'') a ''endpoint'' eid None) d1, ok ()))"

definition deleteEndpoint :: "dbgen \<Rightarrow> actor \<Rightarrow> ident \<Rightarrow> db \<Rightarrow> db \<times> (unit, endpoint_write_error) result" where
  "deleteEndpoint g a eid d =
     (if \<not> can (Some (a_role a)) endpoints_write then (d, fail EE_forbidden)
      else let d1 = d\<lparr>endpointChecks := delete_many (endpoint_in_org a eid) (endpointChecks d)\<rparr>
        in if count_rows (endpoint_in_org a eid) (endpointChecks d) \<noteq> 1 then (d1, fail EE_not_found)
           else (recordAudit g 0 (actor_entry ''endpoint.deleted'' a ''endpoint'' eid None) d1, ok ()))"

definition requestEndpointCheck :: "actor \<Rightarrow> ident \<Rightarrow> db \<Rightarrow> db \<times> (unit, endpoint_write_error) result" where
  "requestEndpointCheck a eid d =
     (if \<not> can (Some (a_role a)) endpoints_check then (d, fail EE_forbidden)
      else let P = (\<lambda>e. endpoint_in_org a eid e \<and> ep_enabled e)
        in (d\<lparr>endpointChecks := update_many P (\<lambda>e. e\<lparr>ep_nextRunAt := None\<rparr>) (endpointChecks d)\<rparr>,
            if count_rows P (endpointChecks d) = 1 then ok () else fail EE_not_found))"

text \<open>\<open>groupBy sourceId\<close>: one group per id that occurs.\<close>

definition check_rows :: "actor \<Rightarrow> ident list \<Rightarrow> ms \<Rightarrow> db \<Rightarrow> metric_row list" where
  "check_rows a ids since d = find_many (\<lambda>r. me_orgId r = a_orgId a \<and> me_metric r = ENDPOINT_AVAILABLE \<and> me_sourceId r \<in> set ids \<and> since \<le> me_time r) (metricEntries d)"

definition endpointAvailability :: "actor \<Rightarrow> ident list \<Rightarrow> ms \<Rightarrow> db \<Rightarrow> (ident \<times> real) list" where
  "endpointAvailability a ids since d =
     (if \<not> can (Some (a_role a)) endpoints_read \<or> ids = [] then []
      else let rows = check_rows a ids since d
        in map (\<lambda>i. let vs = map me_value (filter (\<lambda>r. me_sourceId r = i) rows) in (i, sum_list vs / real (length vs) * 100))
             (remdups (map me_sourceId rows)))"

definition endpointFailedChecks :: "actor \<Rightarrow> ident list \<Rightarrow> ms \<Rightarrow> db \<Rightarrow> (ident \<times> nat) list" where
  "endpointFailedChecks a ids since d =
     (if \<not> can (Some (a_role a)) endpoints_read \<or> ids = [] then []
      else let rows = filter (\<lambda>r. me_value r = 0) (check_rows a ids since d)
        in map (\<lambda>i. (i, length (filter (\<lambda>r. me_sourceId r = i) rows))) (remdups (map me_sourceId rows)))"

section \<open>The runner\<close>

definition FAILURES_BEFORE_DOWN :: int where "FAILURES_BEFORE_DOWN = 2"

definition nextHealth :: "bool \<Rightarrow> int \<Rightarrow> health_status \<times> int" where
  "nextHealth passed previousFailures =
     (if passed then (UP, 0)
      else let n = previousFailures + 1 in (if n \<ge> FAILURES_BEFORE_DOWN then DOWN else DEGRADED, n))"

definition MAX_HEADERS :: nat where "MAX_HEADERS = 50"

definition header_name_char :: "char \<Rightarrow> bool" where
  "header_name_char c = (host_char c \<or> c \<in> set (''!#$%&*+.^_`|~-'' @ [CHR 0x27]))"

definition HEADER_NAME :: "string \<Rightarrow> bool" where
  "HEADER_NAME s = (s \<noteq> [] \<and> list_all header_name_char s)"

definition bad_header_char :: "char \<Rightarrow> bool" where
  "bad_header_char c = (code_unit c \<in> {13, 10, 0})"

text \<open>The entries of an object are listed in the order JavaScript enumerates them; setting \<open>__proto__\<close> to a string does nothing.\<close>

definition sanitizeHeaders :: "json option \<Rightarrow> (string \<times> string) list" where
  "sanitizeHeaders v = (case v of
       Some (JObj kvs) \<Rightarrow> fold (\<lambda>(name, x) out. case x of
           JStr s \<Rightarrow> if HEADER_NAME name \<and> \<not> list_ex bad_header_char s \<and> toLowerCase name \<noteq> ''__proto__'' then map_set (toLowerCase name) s out else out
         | _ \<Rightarrow> out) (take MAX_HEADERS kvs) []
     | _ \<Rightarrow> [])"

record claimed_check =
  ck_id :: ident
  ck_orgId :: ident
  ck_url :: string
  ck_method :: http_method
  ck_headers :: "json option"
  ck_body :: "string option"
  ck_expectedStatus :: int
  ck_expectedBodyContains :: "string option"
  ck_followRedirects :: bool
  ck_verifySsl :: bool
  ck_timeoutMs :: int
  ck_consecutiveFailures :: int

definition claimed :: "endpoint_row \<Rightarrow> claimed_check" where
  "claimed e = \<lparr>ck_id = ep_id e, ck_orgId = ep_orgId e, ck_url = ep_url e, ck_method = ep_method e, ck_headers = ep_headers e, ck_body = ep_body e,
     ck_expectedStatus = ep_expectedStatus e, ck_expectedBodyContains = ep_expectedBodyContains e, ck_followRedirects = ep_followRedirects e,
     ck_verifySsl = ep_verifySsl e, ck_timeoutMs = ep_timeoutMs e, ck_consecutiveFailures = ep_consecutiveFailures e\<rparr>"

definition is_due :: "ms \<Rightarrow> endpoint_row \<Rightarrow> bool" where
  "is_due now e = (ep_enabled e \<and> (case ep_nextRunAt e of None \<Rightarrow> True | Some t \<Rightarrow> t \<le> now))"

definition due_checks :: "(ident \<Rightarrow> bool) \<Rightarrow> ident list option \<Rightarrow> ms \<Rightarrow> db \<Rightarrow> endpoint_row list" where
  "due_checks locked scope now d =
     (let due = find_many (\<lambda>e. is_due now e \<and> (case scope of None \<Rightarrow> True | Some orgs \<Rightarrow> ep_orgId e \<in> set orgs) \<and> \<not> locked (ep_id e)) (endpointChecks d)
      in filter (\<lambda>e. ep_nextRunAt e = None) due @ order_asc (\<lambda>e. the (ep_nextRunAt e)) (filter (\<lambda>e. ep_nextRunAt e \<noteq> None) due))"

definition claimDueChecks ::
  "(ident \<Rightarrow> bool) \<Rightarrow> int \<Rightarrow> ident list option \<Rightarrow> ms \<Rightarrow> db \<Rightarrow> db \<times> claimed_check list" where
  "claimDueChecks locked limit scope now d =
     (if limit \<le> 0 \<or> scope = Some [] then (d, [])
      else let due = take (nat limit) (due_checks locked scope now d)
        in (d\<lparr>endpointChecks := update_many (\<lambda>e. ep_id e \<in> ep_id ` set due) (\<lambda>e. e\<lparr>ep_nextRunAt := Some (now + seconds (ep_intervalSec e))\<rparr>) (endpointChecks d)\<rparr>,
            map claimed due))"

definition resultMetricRows :: "ident \<Rightarrow> ident \<Rightarrow> probe_result \<Rightarrow> ms \<Rightarrow> metric_row list" where
  "resultMetricRows orgId endpointId r now =
     (let row = (\<lambda>m v. \<lparr>me_time = now, me_orgId = orgId, me_sourceKind = ENDPOINT, me_sourceId = endpointId, me_metric = m, me_instance = [], me_value = v\<rparr>)
      in [row ENDPOINT_AVAILABLE (if pr_passed r then 1 else 0)]
         @ (case pr_responseMs r of None \<Rightarrow> [] | Some t \<Rightarrow> [row ENDPOINT_RESPONSE_MS (of_int (js_round (t * 10)) / 10)])
         @ (case pr_tls r of None \<Rightarrow> [] | Some c \<Rightarrow> [row ENDPOINT_SSL_DAYS_LEFT (of_int (sslDaysLeft (ti_validTo c) now))]))"

primrec probe_code_name :: "probe_code \<Rightarrow> string" where
  "probe_code_name PE_invalid_url = ''invalid_url''"
| "probe_code_name PE_blocked_target = ''blocked_target''"
| "probe_code_name PE_dns = ''dns''"
| "probe_code_name PE_connection = ''connection''"
| "probe_code_name PE_tls = ''tls''"
| "probe_code_name PE_timeout = ''timeout''"
| "probe_code_name PE_too_many_redirects = ''too_many_redirects''"
| "probe_code_name PE_status_mismatch = ''status_mismatch''"
| "probe_code_name PE_body_mismatch = ''body_mismatch''"

definition result_upd :: "claimed_check \<Rightarrow> probe_result \<Rightarrow> ms \<Rightarrow> endpoint_row \<Rightarrow> endpoint_row" where
  "result_upd check r now e =
     (let (st, n) = nextHealth (pr_passed r) (ck_consecutiveFailures check);
          e1 = e\<lparr>ep_status := st, ep_consecutiveFailures := n, ep_lastCheckedAt := Some now, ep_lastStatusCode := pr_statusCode r,
                 ep_lastResponseMs := pr_responseMs r, ep_lastError := map_option probe_code_name (pr_error r),
                 ep_lastErrorDetail := map_option (take 200) (pr_errorDetail r)\<rparr>
      in case pr_tls r of None \<Rightarrow> e1
         | Some c \<Rightarrow> e1\<lparr>ep_sslExpiresAt := Some (ti_validTo c), ep_sslIssuer := map_option (take 200) (ti_issuer c)\<rparr>)"

definition recordResult ::
  "eval_env \<Rightarrow> (nat \<Rightarrow> nat \<Rightarrow> dbgen) \<Rightarrow> claimed_check \<Rightarrow> probe_result \<Rightarrow> ms \<Rightarrow> db \<times> baseline_cache \<Rightarrow> (db \<times> baseline_cache) \<times> bool" where
  "recordResult env gens check r now s =
     (let d = fst s;
          P = (\<lambda>e. ep_id e = ck_id check \<and> ep_orgId e = ck_orgId check);
          d1 = d\<lparr>endpointChecks := update_many P (result_upd check r now) (endpointChecks d)\<rparr>
      in if count_rows P (endpointChecks d) \<noteq> 1 then ((d1, snd s), False)
         else
           let rows = resultMetricRows (ck_orgId check) (ck_id check) r now;
               d2 = d1\<lparr>metricEntries := fst (create_many_skip metric_key rows (metricEntries d1))\<rparr>
           in (evaluateIngestedMetrics env gens (ck_orgId check) rows now (d2, snd s), True))"

primrec method_name :: "http_method \<Rightarrow> string" where
  "method_name GET = ''GET''"
| "method_name HEAD = ''HEAD''"
| "method_name POST = ''POST''"
| "method_name PUT = ''PUT''"
| "method_name PATCH = ''PATCH''"
| "method_name DELETE = ''DELETE''"
| "method_name OPTIONS = ''OPTIONS''"

definition check_request :: "claimed_check \<Rightarrow> probe_request" where
  "check_request check = \<lparr>pq_url = ck_url check, pq_method = method_name (ck_method check), pq_headers = sanitizeHeaders (ck_headers check), pq_body = ck_body check,
     pq_expectedStatus = ck_expectedStatus check, pq_expectedBodyContains = ck_expectedBodyContains check, pq_followRedirects = ck_followRedirects check,
     pq_verifySsl = ck_verifySsl check, pq_timeoutMs = ck_timeoutMs check\<rparr>"

definition runCheck ::
  "eval_env \<Rightarrow> (nat \<Rightarrow> nat \<Rightarrow> dbgen) \<Rightarrow> probe_net \<Rightarrow> probe_options \<Rightarrow> claimed_check \<Rightarrow> ms \<Rightarrow> db \<times> baseline_cache \<Rightarrow> (db \<times> baseline_cache) \<times> probe_result" where
  "runCheck env gens nw opts check now s =
     (let r = snd (probe nw (check_request check) opts) in (fst (recordResult env gens check r now s), r))"

text \<open>All claimed checks are probed and recorded; they end in some order, here the order of the claim.\<close>

definition runDueChecksOnce ::
  "eval_env \<Rightarrow> (nat \<Rightarrow> nat \<Rightarrow> nat \<Rightarrow> dbgen) \<Rightarrow> (ident \<Rightarrow> probe_net) \<Rightarrow> (ident \<Rightarrow> ms) \<Rightarrow> (ident \<Rightarrow> bool) \<Rightarrow> int \<Rightarrow> probe_options \<Rightarrow> ident list option \<Rightarrow> ms
     \<Rightarrow> db \<times> baseline_cache \<Rightarrow> (db \<times> baseline_cache) \<times> nat" where
  "runDueChecksOnce env gens nws ends locked limit opts scope now s =
     (let (d1, checks) = claimDueChecks locked limit scope now (fst s)
      in (fold (\<lambda>(k, check) s. fst (runCheck env (gens k) (nws (ck_id check)) opts check (ends (ck_id check)) s)) (enumerate 0 checks) (d1, snd s), length checks))"

text \<open>
  \<open>runCheckLoop\<close>: any number of runners share the database; each keeps its probes in flight and its own baseline cache.
  A tick claims as many checks as the concurrency leaves room for, a probe that ends stores its result (or fails to) and
  leaves the set, an aborted runner claims nothing more. The steps of all runners interleave in any order; a tick whose
  claim throws is no step.
\<close>

record runners =
  rn_db :: db
  rn_cache :: "nat \<Rightarrow> baseline_cache"
  rn_inFlight :: "nat \<Rightarrow> claimed_check list"
  rn_aborted :: "nat \<Rightarrow> bool"

datatype runner_op =
    Tick nat "ident \<Rightarrow> bool" ms
  | Finish nat nat bool "nat \<Rightarrow> nat \<Rightarrow> dbgen" probe_net ms
  | Abort nat

definition loop_limit :: "int \<Rightarrow> nat \<Rightarrow> runners \<Rightarrow> int" where
  "loop_limit concurrency k s = concurrency - int (length (rn_inFlight s k))"

definition loop_tick :: "int \<Rightarrow> nat \<Rightarrow> (ident \<Rightarrow> bool) \<Rightarrow> ms \<Rightarrow> runners \<Rightarrow> runners" where
  "loop_tick concurrency k locked now s =
     (if rn_aborted s k then s
      else let (d, checks) = claimDueChecks locked (loop_limit concurrency k s) None now (rn_db s)
        in s\<lparr>rn_db := d, rn_inFlight := (rn_inFlight s)(k := rn_inFlight s k @ checks)\<rparr>)"

definition loop_finish ::
  "eval_env \<Rightarrow> probe_options \<Rightarrow> nat \<Rightarrow> nat \<Rightarrow> bool \<Rightarrow> (nat \<Rightarrow> nat \<Rightarrow> dbgen) \<Rightarrow> probe_net \<Rightarrow> ms \<Rightarrow> runners \<Rightarrow> runners" where
  "loop_finish env opts k i stored gens nw now s =
     (if i < length (rn_inFlight s k) then
        let s1 = s\<lparr>rn_inFlight := (rn_inFlight s)(k := take i (rn_inFlight s k) @ drop (Suc i) (rn_inFlight s k))\<rparr>
        in if \<not> stored then s1
           else let (d, c) = fst (runCheck env gens nw opts (rn_inFlight s k ! i) now (rn_db s, rn_cache s k))
             in s1\<lparr>rn_db := d, rn_cache := (rn_cache s)(k := c)\<rparr>
      else s)"

primrec runner_exec :: "eval_env \<Rightarrow> probe_options \<Rightarrow> int \<Rightarrow> runner_op \<Rightarrow> runners \<Rightarrow> runners" where
  "runner_exec env opts concurrency (Tick k locked now) s = loop_tick concurrency k locked now s"
| "runner_exec env opts concurrency (Finish k i stored gens nw now) s = loop_finish env opts k i stored gens nw now s"
| "runner_exec env opts concurrency (Abort k) s = s\<lparr>rn_aborted := (rn_aborted s)(k := True)\<rparr>"

text \<open>The checks a step claims, each with the time of its claim, and those of a whole run.\<close>

primrec step_claims :: "int \<Rightarrow> runner_op \<Rightarrow> runners \<Rightarrow> (ident \<times> ms) list" where
  "step_claims concurrency (Tick k locked now) s =
     (if rn_aborted s k then [] else map (\<lambda>c. (ck_id c, now)) (snd (claimDueChecks locked (loop_limit concurrency k s) None now (rn_db s))))"
| "step_claims concurrency (Finish k i stored gens nw now) s = []"
| "step_claims concurrency (Abort k) s = []"

primrec run_claims :: "eval_env \<Rightarrow> probe_options \<Rightarrow> int \<Rightarrow> runner_op list \<Rightarrow> runners \<Rightarrow> (ident \<times> ms) list" where
  "run_claims env opts concurrency [] s = []"
| "run_claims env opts concurrency (c # cs) s =
     step_claims concurrency c s @ run_claims env opts concurrency cs (runner_exec env opts concurrency c s)"

section \<open>What an evaluation leaves alone\<close>

text \<open>
  The evaluation of a batch writes incidents, their events and remediation executions. Whatever can be read off the
  database without these three tables is the same afterwards.
\<close>

locale evaluation_frame =
  fixes obs :: "db \<Rightarrow> 'a"
  assumes obs_incidents: "obs (d\<lparr>incidents := i\<rparr>) = obs d"
    and obs_events: "obs (d\<lparr>incidentEvents := e\<rparr>) = obs d"
    and obs_executions: "obs (d\<lparr>remediationExecutions := x\<rparr>) = obs d"
begin

lemma obs_create: "obs (fst (createExecution sha g ci now d)) = obs d"
  by (auto simp: createExecution_def Let_def obs_executions split: option.split)

lemma obs_trigger: "obs (fst (triggerForIncident sha g rule i now d)) = obs d"
  using obs_create[of sha g _ now d]
  by (auto simp: triggerForIncident_def Let_def split_beta obs_events split: option.split)

lemma obs_add_event: "obs (add_event ev d) = obs d"
  by (simp add: add_event_def obs_events)

lemma obs_notify: "obs (notify env g rule i out d) = obs d"
  by (simp add: notify_def Let_def obs_add_event)

lemma obs_store: "obs (store_findings g w iid now f d) = obs d"
  by (simp add: store_findings_def obs_incidents obs_events)

lemma obs_refresh: "obs (fst (refreshIncidentRca coll g w orgId iid now force d)) = obs d"
  by (auto simp: refreshIncidentRca_def Let_def split_beta obs_store split: option.split)

lemma obs_analyze: "obs (analyzeAfterOpen coll gens w orgId iid now d) = obs d"
proof -
  have "obs (fold (\<lambda>(k, r) d. fst (refreshIncidentRca coll (gens (Suc k)) w orgId (in_id r) now False d)) xs d) = obs d"
    for xs :: "(nat \<times> incident_row) list" and d
    by (induction xs arbitrary: d) (auto simp: obs_refresh)
  then show ?thesis by (simp add: analyzeAfterOpen_def Let_def obs_refresh)
qed

lemma obs_pair: "obs (fst (evaluate_pair env gens orgId now p rule s)) = obs (fst s)"
  by (auto simp: evaluate_pair_def open_incident_def keep_incident_def auto_resolve_def Let_def split_beta
      obs_trigger obs_analyze obs_notify obs_add_event obs_incidents split: option.split)

lemma obs_batch: "obs (fst (evaluateIngestedMetrics env gens orgId rows now s)) = obs (fst s)"
proof -
  have "obs (fst (fold (\<lambda>(k, p, r). evaluate_pair env (gens k) orgId now p r) xs s)) = obs (fst s)"
    for xs :: "(nat \<times> metric_row \<times> alert_rule_row) list" and s
    by (induction xs arbitrary: s) (auto simp: obs_pair)
  then show ?thesis by (simp add: evaluateIngestedMetrics_def Let_def)
qed

end

interpretation checks_kept: evaluation_frame endpointChecks
  by unfold_locales simp_all

interpretation points_kept: evaluation_frame metricEntries
  by unfold_locales simp_all

section \<open>Lemmas: claiming\<close>

definition claimable :: "(ident \<Rightarrow> bool) \<Rightarrow> ident list option \<Rightarrow> ms \<Rightarrow> endpoint_row \<Rightarrow> bool" where
  "claimable locked scope now e = (is_due now e \<and> (case scope of None \<Rightarrow> True | Some orgs \<Rightarrow> ep_orgId e \<in> set orgs) \<and> \<not> locked (ep_id e))"

lemma mset_due_checks: "mset (due_checks locked scope now d) = mset (filter (claimable locked scope now) (endpointChecks d))"
proof -
  define due where "due = filter (claimable locked scope now) (endpointChecks d)"
  have "mset (filter (\<lambda>e. ep_nextRunAt e = None) due) + mset (filter (\<lambda>e. ep_nextRunAt e \<noteq> None) due) = mset due"
    using multiset_partition[of "mset due" "\<lambda>e. ep_nextRunAt e = None"] by (simp add: mset_filter)
  then show ?thesis by (simp add: due_checks_def find_many_def order_asc_def due_def claimable_def[abs_def])
qed

lemma set_due_checks: "set (due_checks locked scope now d) = {e \<in> set (endpointChecks d). claimable locked scope now e}"
  using arg_cong[OF mset_due_checks, of set_mset] by auto

lemma distinct_due_checks:
  assumes "distinct (map ep_id (endpointChecks d))"
  shows "distinct (map ep_id (due_checks locked scope now d))"
proof -
  have "mset (map ep_id (due_checks locked scope now d)) = mset (map ep_id (filter (claimable locked scope now) (endpointChecks d)))"
    by (simp only: mset_map mset_due_checks)
  then show ?thesis using assms distinct_map_filter mset_eq_imp_distinct_iff by metis
qed

lemma claimed_id [simp]: "ck_id (claimed e) = ep_id e" "ck_orgId (claimed e) = ep_orgId e"
  by (simp_all add: claimed_def)

definition claim_upd :: "ms \<Rightarrow> endpoint_row \<Rightarrow> endpoint_row" where
  "claim_upd now e = e\<lparr>ep_nextRunAt := Some (now + seconds (ep_intervalSec e))\<rparr>"

lemma claim_upd_simps [simp]: "ep_id (claim_upd now e) = ep_id e" "ep_intervalSec (claim_upd now e) = ep_intervalSec e"
  "ep_nextRunAt (claim_upd now e) = Some (now + seconds (ep_intervalSec e))"
  by (simp_all add: claim_upd_def)

lemma claimDueChecks_result:
  assumes "claimDueChecks locked limit scope now d = (d', cs)"
  shows "endpointChecks d' = update_many (\<lambda>e. ep_id e \<in> ck_id ` set cs) (claim_upd now) (endpointChecks d)"
    and "int (length cs) \<le> max 0 limit"
    and "c \<in> set cs \<Longrightarrow> \<exists>e \<in> set (endpointChecks d). c = claimed e \<and> claimable locked scope now e"
    and "distinct (map ep_id (endpointChecks d)) \<Longrightarrow> distinct (map ck_id cs)"
proof -
  define due where "due = take (nat limit) (due_checks locked scope now d)"
  have split: "(d' = d \<and> cs = []) \<or> (cs = map claimed due \<and> 0 < limit \<and>
      endpointChecks d' = update_many (\<lambda>e. ep_id e \<in> ep_id ` set due) (claim_upd now) (endpointChecks d))"
    using assms by (auto simp: claimDueChecks_def due_def claim_upd_def[abs_def] Let_def split: if_splits)
  have ids: "ck_id ` set (map claimed due) = ep_id ` set due" by (simp add: image_image)
  show "endpointChecks d' = update_many (\<lambda>e. ep_id e \<in> ck_id ` set cs) (claim_upd now) (endpointChecks d)"
    using split ids by (auto simp: update_many_none)
  show "int (length cs) \<le> max 0 limit" using split by (auto simp: due_def)
  show "\<exists>e \<in> set (endpointChecks d). c = claimed e \<and> claimable locked scope now e" if "c \<in> set cs"
  proof -
    from that split obtain e where "e \<in> set due" "c = claimed e" by auto
    moreover from this(1) have "e \<in> set (due_checks locked scope now d)" by (auto simp: due_def dest: in_set_takeD)
    ultimately show ?thesis by (auto simp: set_due_checks)
  qed
  show "distinct (map ck_id cs)" if "distinct (map ep_id (endpointChecks d))"
  proof -
    have "distinct (map ep_id due)" using distinct_due_checks[OF that] by (simp add: due_def take_map[symmetric])
    then show ?thesis using split by (auto simp: comp_def)
  qed
qed

section \<open>Lemmas: the runners\<close>

definition check_interval :: "db \<Rightarrow> (ident \<times> int) list" where
  "check_interval d = map (\<lambda>e. (ep_id e, ep_intervalSec e)) (endpointChecks d)"

definition not_before :: "ident \<Rightarrow> ms \<Rightarrow> db \<Rightarrow> bool" where
  "not_before x n d = (\<forall>e \<in> set (endpointChecks d). ep_id e = x \<longrightarrow> (\<exists>m. ep_nextRunAt e = Some m \<and> n \<le> m))"

lemma result_upd_schedule [simp]: "ep_id (result_upd c r now e) = ep_id e" "ep_intervalSec (result_upd c r now e) = ep_intervalSec e"
  "ep_nextRunAt (result_upd c r now e) = ep_nextRunAt e"
  by (simp_all add: result_upd_def Let_def split_beta split: option.split)

lemma recordResult_checks:
  "endpointChecks (fst (fst (recordResult env gens c r now s)))
     = update_many (\<lambda>e. ep_id e = ck_id c \<and> ep_orgId e = ck_orgId c) (result_upd c r now) (endpointChecks (fst s))"
  by (simp add: recordResult_def Let_def checks_kept.obs_batch)

lemma finish_checks:
  "\<exists>P c r. endpointChecks (rn_db (loop_finish env opts k i stored gens nw now s)) = update_many P (result_upd c r now) (endpointChecks (rn_db s))"
proof -
  have none: "t = update_many (\<lambda>_. False) f t" for f and t :: "endpoint_row list" by (simp add: update_many_none)
  show ?thesis
  proof (cases "i < length (rn_inFlight s k) \<and> stored")
    case True
    define c r where "c = rn_inFlight s k ! i" and "r = snd (probe nw (check_request c) opts)"
    have "rn_db (loop_finish env opts k i stored gens nw now s) = fst (fst (recordResult env gens c r now (rn_db s, rn_cache s k)))"
      using True by (simp add: loop_finish_def runCheck_def Let_def split_beta c_def r_def)
    then show ?thesis using recordResult_checks[of env gens c r now "(rn_db s, rn_cache s k)"] by auto
  next
    case False
    then have "rn_db (loop_finish env opts k i stored gens nw now s) = rn_db s" by (auto simp: loop_finish_def Let_def)
    then show ?thesis using none by metis
  qed
qed

lemma tick_db:
  assumes "\<not> rn_aborted s k"
  shows "rn_db (loop_tick conc k locked now s) = fst (claimDueChecks locked (loop_limit conc k s) None now (rn_db s))"
    and "rn_inFlight (loop_tick conc k locked now s) k' =
      (if k' = k then rn_inFlight s k @ snd (claimDueChecks locked (loop_limit conc k s) None now (rn_db s)) else rn_inFlight s k')"
  using assms by (simp_all add: loop_tick_def split_beta Let_def)

lemma exec_interval [simp]: "check_interval (rn_db (runner_exec env opts conc c s)) = check_interval (rn_db s)"
proof (cases c)
  case (Tick k locked now)
  show ?thesis
  proof (cases "rn_aborted s k")
    case False
    obtain d' cs where r: "claimDueChecks locked (loop_limit conc k s) None now (rn_db s) = (d', cs)" by fastforce
    show ?thesis using tick_db(1)[OF False] claimDueChecks_result(1)[OF r] by (simp add: Tick r check_interval_def map_update_many)
  qed (simp add: Tick loop_tick_def)
next
  case (Finish k i stored gens nw now)
  then show ?thesis using finish_checks[of env opts k i stored gens nw now s] by (auto simp: check_interval_def map_update_many)
qed simp

lemma check_interval_keys: "map fst (check_interval d) = map ep_id (endpointChecks d)"
  by (simp add: check_interval_def comp_def)

lemma interval_of_row:
  assumes "distinct (map ep_id (endpointChecks d))" and "e \<in> set (endpointChecks d)"
  shows "map_of (check_interval d) (ep_id e) = Some (ep_intervalSec e)"
  using assms by (intro map_of_is_SomeI) (auto simp: check_interval_keys, auto simp: check_interval_def)

definition intervals_ok :: "db \<Rightarrow> bool" where
  "intervals_ok d = (distinct (map fst (check_interval d)) \<and> (\<forall>(x, v) \<in> set (check_interval d). 0 \<le> v))"

lemma intervals_okD:
  "intervals_ok d \<Longrightarrow> distinct (map ep_id (endpointChecks d))"
  "intervals_ok d \<Longrightarrow> e \<in> set (endpointChecks d) \<Longrightarrow> 0 \<le> ep_intervalSec e"
  by (auto simp: intervals_ok_def check_interval_keys, auto simp: check_interval_def)

lemma intervals_ok_exec [simp]: "intervals_ok (rn_db (runner_exec env opts conc c s)) = intervals_ok (rn_db s)"
  by (simp add: intervals_ok_def)

text \<open>A check that is not due before a time is not claimed before it, and stays so until it is claimed.\<close>

lemma step_not_before:
  assumes "intervals_ok (rn_db s)" and n: "not_before x n (rn_db s)"
  shows "(\<forall>u. (x, u) \<in> set (step_claims conc c s) \<longrightarrow> n \<le> u) \<and> not_before x n (rn_db (runner_exec env opts conc c s))"
proof (cases c)
  case (Tick k locked now)
  show ?thesis
  proof (cases "rn_aborted s k")
    case False
    obtain d' cs where r: "claimDueChecks locked (loop_limit conc k s) None now (rn_db s) = (d', cs)" by fastforce
    note R = claimDueChecks_result[OF r]
    have iv: "0 \<le> seconds (ep_intervalSec e)" if "e \<in> set (endpointChecks (rn_db s))" for e
      using intervals_okD(2)[OF assms(1) that] by (simp add: seconds_def)
    have due: "n \<le> now" if "x \<in> ck_id ` set cs"
      using that R(3) n by (fastforce simp: not_before_def claimable_def is_due_def)
    have "not_before x n d'"
      using n due iv by (auto simp: not_before_def R(1) set_update_many add_increasing2 split: if_splits)
    then show ?thesis using due tick_db(1)[OF False] False by (auto simp: Tick r)
  qed (use n in \<open>simp add: Tick loop_tick_def\<close>)
next
  case (Finish k i stored gens nw now)
  from finish_checks[of env opts k i stored gens nw now s]
  show ?thesis using n by (auto simp: Finish not_before_def set_update_many split: if_splits)
qed (use n in simp)

lemma step_spaces:
  assumes "intervals_ok (rn_db s)" and "(x, u) \<in> set (step_claims conc c s)"
  shows "not_before x (u + seconds (the (map_of (check_interval (rn_db s)) x))) (rn_db (runner_exec env opts conc c s))"
proof -
  from assms(2) obtain k locked now where c: "c = Tick k locked now" and run: "\<not> rn_aborted s k"
    by (cases c) (auto split: if_splits)
  obtain d' cs where r: "claimDueChecks locked (loop_limit conc k s) None now (rn_db s) = (d', cs)" by fastforce
  have x: "x \<in> ck_id ` set cs" "u = now" using assms(2) run by (auto simp: c r)
  have "\<exists>m. ep_nextRunAt e = Some m \<and> u + seconds (the (map_of (check_interval (rn_db s)) x)) \<le> m"
    if "e \<in> set (endpointChecks d')" "ep_id e = x" for e
  proof -
    from that(1) obtain e0 where e0: "e0 \<in> set (endpointChecks (rn_db s))"
      and e: "e = (if ep_id e0 \<in> ck_id ` set cs then claim_upd now e0 else e0)"
      by (auto simp: claimDueChecks_result(1)[OF r] set_update_many)
    have "ep_id e0 = x" using e that(2) by (simp split: if_splits)
    then show ?thesis using e x interval_of_row[OF intervals_okD(1)[OF assms(1)] e0] by simp
  qed
  then show ?thesis using tick_db(1)[OF run] by (simp add: c r not_before_def)
qed

lemma run_not_before:
  "intervals_ok (rn_db s) \<Longrightarrow> not_before x n (rn_db s) \<Longrightarrow> (x, u) \<in> set (run_claims env opts conc cs s) \<Longrightarrow> n \<le> u"
proof (induction cs arbitrary: s)
  case (Cons c cs)
  then show ?case
    using Cons.IH[of "runner_exec env opts conc c s"] step_not_before[OF Cons.prems(1,2), of conc c env opts] by auto
qed simp

lemma step_claims_distinct: "intervals_ok (rn_db s) \<Longrightarrow> distinct (map fst (step_claims conc c s))"
proof (cases c)
  case (Tick k locked now)
  assume "intervals_ok (rn_db s)"
  then show ?thesis
    using claimDueChecks_result(4)[OF surjective_pairing, OF intervals_okD(1), of "rn_db s" locked "loop_limit conc k s" None now]
    by (simp add: Tick comp_def)
qed simp_all

definition spaced :: "(ident \<times> int) list \<Rightarrow> (ident \<times> ms) list \<Rightarrow> bool" where
  "spaced intervals claims = sorted_wrt (\<lambda>(x, t) (y, u). x = y \<longrightarrow> t + seconds (the (map_of intervals x)) \<le> u) claims"

lemma spaced_distinct: "distinct (map fst cs) \<Longrightarrow> spaced iv cs"
  by (induction cs) (auto simp: spaced_def image_iff)

lemma run_claims_spaced: "intervals_ok (rn_db s) \<Longrightarrow> spaced (check_interval (rn_db s)) (run_claims env opts conc cs s)"
proof (induction cs arbitrary: s)
  case (Cons c cs)
  have "t + seconds (the (map_of (check_interval (rn_db s)) x)) \<le> u"
    if "(x, t) \<in> set (step_claims conc c s)" and "(x, u) \<in> set (run_claims env opts conc cs (runner_exec env opts conc c s))" for x t u
    using run_not_before[OF _ step_spaces[OF Cons.prems that(1)] that(2)] Cons.prems by simp
  then show ?case
    using Cons.IH[of "runner_exec env opts conc c s"] Cons.prems spaced_distinct[OF step_claims_distinct[OF Cons.prems, of conc c]]
    by (auto simp: spaced_def sorted_wrt_append)
qed (simp add: spaced_def)

definition within_concurrency :: "int \<Rightarrow> runners \<Rightarrow> bool" where
  "within_concurrency conc s = (\<forall>k. int (length (rn_inFlight s k)) \<le> conc)"

lemma exec_within: "within_concurrency conc s \<Longrightarrow> within_concurrency conc (runner_exec env opts conc c s)"
proof (cases c)
  case (Tick k locked now)
  assume w: "within_concurrency conc s"
  have "int (length (snd (claimDueChecks locked (loop_limit conc k s) None now (rn_db s)))) \<le> loop_limit conc k s"
    using claimDueChecks_result(2)[OF surjective_pairing, of locked "loop_limit conc k s" None now "rn_db s"] w
    by (auto simp: within_concurrency_def loop_limit_def)
  then show ?thesis using w tick_db(2)[of s k conc locked now]
    by (cases "rn_aborted s k") (simp_all add: Tick within_concurrency_def loop_limit_def loop_tick_def)
next
  case (Finish k i stored gens nw now)
  assume w: "within_concurrency conc s"
  have "int (length (rn_inFlight (loop_finish env opts k i stored gens nw now s) k')) \<le> int (length (rn_inFlight s k'))" for k'
    by (simp add: loop_finish_def Let_def split_beta)
  then show ?thesis using w unfolding Finish within_concurrency_def runner_exec.simps by (meson order_trans)
qed (simp add: within_concurrency_def)

lemma claim_exhaustive:
  assumes "int (count_rows (claimable locked scope now) (endpointChecks d)) \<le> limit" and "scope \<noteq> Some []"
  shows "set (map ck_id (snd (claimDueChecks locked limit scope now d))) = ep_id ` {e \<in> set (endpointChecks d). claimable locked scope now e}"
proof -
  have "length (due_checks locked scope now d) = count_rows (claimable locked scope now) (endpointChecks d)"
    using mset_due_checks[of locked scope now d] unfolding count_rows_def by (metis size_mset)
  then have "take (nat limit) (due_checks locked scope now d) = due_checks locked scope now d" using assms(1) by simp
  moreover have "due_checks locked scope now d = []" if "limit \<le> 0"
    using that assms(1) \<open>length (due_checks locked scope now d) = _\<close>
    by (metis length_0_conv of_nat_le_0_iff order_trans)
  ultimately show ?thesis
    using assms(2) set_due_checks[of locked scope now d] by (cases "limit \<le> 0") (auto simp: claimDueChecks_def Let_def)
qed

interpretation runner_machine: kept_invariant "within_concurrency conc" "runner_exec env opts conc" for conc env opts
  by unfold_locales (rule exec_within)

section \<open>Lemmas: the history of a check\<close>

text \<open>Runs of one check, one after the other: each is claimed with the row as it is and recorded before the next.\<close>

type_synonym check_run = "(nat \<Rightarrow> nat \<Rightarrow> dbgen) \<times> probe_result \<times> ms"

definition serial_run :: "eval_env \<Rightarrow> ident \<Rightarrow> check_run \<Rightarrow> db \<times> baseline_cache \<Rightarrow> db \<times> baseline_cache" where
  "serial_run env eid run s = (case find_first (\<lambda>e. ep_id e = eid) (endpointChecks (fst s)) of
       None \<Rightarrow> s | Some e \<Rightarrow> fst (recordResult env (fst run) (claimed e) (fst (snd run)) (snd (snd run)) s))"

abbreviation run_passed :: "check_run \<Rightarrow> bool" where "run_passed run \<equiv> pr_passed (fst (snd run))"
abbreviation run_time :: "check_run \<Rightarrow> ms" where "run_time run \<equiv> snd (snd run)"

definition failing_streak :: "check_run list \<Rightarrow> nat" where
  "failing_streak runs = length (takeWhile (\<lambda>run. \<not> run_passed run) (rev runs))"

definition available_row :: "ident \<Rightarrow> ident \<Rightarrow> check_run \<Rightarrow> metric_row" where
  "available_row orgId eid run = \<lparr>me_time = run_time run, me_orgId = orgId, me_sourceKind = ENDPOINT, me_sourceId = eid,
     me_metric = ENDPOINT_AVAILABLE, me_instance = [], me_value = (if run_passed run then 1 else 0)\<rparr>"

definition availability_of :: "ident \<Rightarrow> metric_row \<Rightarrow> bool" where
  "availability_of eid r = (me_sourceId r = eid \<and> me_metric r = ENDPOINT_AVAILABLE)"

lemma failing_streak_simps: "failing_streak [] = 0" "failing_streak (runs @ [run]) = (if run_passed run then 0 else Suc (failing_streak runs))"
  by (simp_all add: failing_streak_def)

lemma create_many_skip_new:
  "distinct (map key xs) \<Longrightarrow> key ` set xs \<inter> key ` set t = {} \<Longrightarrow> fst (create_many_skip key xs t) = t @ xs"
proof (induction xs arbitrary: t)
  case (Cons x xs)
  have "fst (create_many_skip key xs (t @ [x])) = (t @ [x]) @ xs" using Cons.prems by (intro Cons.IH) auto
  then show ?case using Cons.prems by (auto simp: split_beta Let_def)
qed simp

lemma resultMetricRows_shape:
  "filter (availability_of eid) (resultMetricRows orgId eid r now) = [available_row orgId eid (g, r, now)]"
  "distinct (map metric_key (resultMetricRows orgId eid r now))"
  "x \<in> set (resultMetricRows orgId eid r now) \<Longrightarrow> me_sourceId x = eid \<and> me_time x = now"
  by (auto simp: resultMetricRows_def Let_def metric_key_def availability_of_def available_row_def split: option.splits)

lemma recordResult_points:
  assumes "e \<in> set (endpointChecks (fst s))" and "distinct (map ep_id (endpointChecks (fst s)))"
    and "\<forall>m \<in> set (metricEntries (fst s)). me_sourceId m = ep_id e \<longrightarrow> me_time m \<noteq> now"
  shows "metricEntries (fst (fst (recordResult env gens (claimed e) r now s)))
      = metricEntries (fst s) @ resultMetricRows (ep_orgId e) (ep_id e) r now"
proof -
  have one: "count_rows (\<lambda>x. ep_id x = ep_id e \<and> ep_orgId x = ep_orgId e) (endpointChecks (fst s)) = 1"
    using count_rows_unique[OF assms(2,1), of "\<lambda>x. ep_id x = ep_id e \<and> ep_orgId x = ep_orgId e"] by simp
  have new: "fst (create_many_skip metric_key (resultMetricRows (ep_orgId e) (ep_id e) r now) (metricEntries (fst s)))
      = metricEntries (fst s) @ resultMetricRows (ep_orgId e) (ep_id e) r now"
    using assms(3) resultMetricRows_shape(3)
    by (intro create_many_skip_new resultMetricRows_shape(2)) (fastforce simp: metric_key_def)
  show ?thesis using one new by (simp add: recordResult_def Let_def points_kept.obs_batch)
qed

lemma result_upd_health:
  "ep_orgId (result_upd c r now e) = ep_orgId e"
  "ep_status (result_upd c r now e) = fst (nextHealth (pr_passed r) (ck_consecutiveFailures c))"
  "ep_consecutiveFailures (result_upd c r now e) = snd (nextHealth (pr_passed r) (ck_consecutiveFailures c))"
  "ep_lastCheckedAt (result_upd c r now e) = Some now"
  by (simp_all add: result_upd_def Let_def split_beta split: option.split)

lemma claimed_failures: "ck_consecutiveFailures (claimed e) = ep_consecutiveFailures e"
  by (simp add: claimed_def)

definition health_after :: "check_run list \<Rightarrow> endpoint_row \<Rightarrow> bool" where
  "health_after runs e = (ep_consecutiveFailures e = int (failing_streak runs) \<and>
     (runs \<noteq> [] \<longrightarrow> ep_lastCheckedAt e = Some (run_time (last runs)) \<and>
        ep_status e = (if failing_streak runs = 0 then UP else if failing_streak runs = 1 then DEGRADED else DOWN)))"

definition history_stored :: "ident \<Rightarrow> ident \<Rightarrow> check_run list \<Rightarrow> db \<Rightarrow> bool" where
  "history_stored orgId eid runs d =
     (distinct (map ep_id (endpointChecks d)) \<and>
      (\<exists>e \<in> set (endpointChecks d). ep_id e = eid \<and> ep_orgId e = orgId \<and> health_after runs e) \<and>
      filter (availability_of eid) (metricEntries d) = map (available_row orgId eid) runs \<and>
      (\<forall>m \<in> set (metricEntries d). me_sourceId m = eid \<longrightarrow> me_time m \<in> run_time ` set runs))"

lemma serial_run_step:
  assumes "history_stored orgId eid runs (fst s)" and "run_time run \<notin> run_time ` set runs"
  shows "history_stored orgId eid (runs @ [run]) (fst (serial_run env eid run s))"
proof -
  obtain g r t where run: "run = (g, r, t)" by (cases run)
  from assms(1) obtain e where dist: "distinct (map ep_id (endpointChecks (fst s)))" and e: "e \<in> set (endpointChecks (fst s))" "ep_id e = eid" "ep_orgId e = orgId"
    and h: "health_after runs e" and pts: "filter (availability_of eid) (metricEntries (fst s)) = map (available_row orgId eid) runs"
    and times: "\<forall>m \<in> set (metricEntries (fst s)). me_sourceId m = eid \<longrightarrow> me_time m \<in> run_time ` set runs"
    by (auto simp: history_stored_def)
  define d' where "d' = fst (serial_run env eid run s)"
  have "find_first (\<lambda>x. ep_id x = eid) (endpointChecks (fst s)) = Some e" using find_first_key[OF dist e(1)] e(2) by simp
  then have d': "d' = fst (fst (recordResult env g (claimed e) r t s))" by (simp add: d'_def serial_run_def run)
  have checks: "endpointChecks d' = update_many (\<lambda>x. ep_id x = eid \<and> ep_orgId x = orgId) (result_upd (claimed e) r t) (endpointChecks (fst s))"
    using recordResult_checks[of env g "claimed e" r t s] e by (simp add: d')
  have fresh: "\<forall>m \<in> set (metricEntries (fst s)). me_sourceId m = ep_id e \<longrightarrow> me_time m \<noteq> t" using times assms(2) e(2) by (auto simp: run)
  have points: "metricEntries d' = metricEntries (fst s) @ resultMetricRows orgId eid r t"
    using recordResult_points[OF e(1) dist fresh, of env g r] e by (simp add: d')
  have "result_upd (claimed e) r t e \<in> set (endpointChecks d')" using e by (auto simp: checks set_update_many)
  moreover have "health_after (runs @ [run]) (result_upd (claimed e) r t e)"
    using h by (auto simp: health_after_def result_upd_health claimed_failures failing_streak_simps nextHealth_def FAILURES_BEFORE_DOWN_def Let_def run)
  moreover have "distinct (map ep_id (endpointChecks d'))" by (simp add: checks map_update_many dist)
  moreover have "filter (availability_of eid) (metricEntries d') = map (available_row orgId eid) (runs @ [run])"
    by (simp add: points pts resultMetricRows_shape(1)[of eid orgId r t g] run)
  moreover have "\<forall>m \<in> set (metricEntries d'). me_sourceId m = eid \<longrightarrow> me_time m \<in> run_time ` set (runs @ [run])"
    using times resultMetricRows_shape(3)[of _ orgId eid r t] by (auto simp: points run)
  ultimately show ?thesis unfolding history_stored_def d'_def[symmetric] using e result_upd_health(1) result_upd_schedule(1) by blast
qed

lemma serial_runs_stored:
  assumes "history_stored orgId eid [] (fst s)" and "distinct (map run_time runs)"
  shows "history_stored orgId eid runs (fst (fold (serial_run env eid) runs s))"
  using assms(2)
proof (induction runs rule: rev_induct)
  case (snoc run runs)
  then show ?case using serial_run_step[of orgId eid runs "fold (serial_run env eid) runs s" run env] by auto
qed (simp add: assms(1))

lemma check_rows_history:
  assumes "history_stored (a_orgId a) eid runs d"
  shows "check_rows a [eid] since d = map (available_row (a_orgId a) eid) (filter (\<lambda>run. since \<le> run_time run) runs)"
proof -
  have "check_rows a [eid] since d = filter (\<lambda>r. me_orgId r = a_orgId a \<and> since \<le> me_time r) (filter (availability_of eid) (metricEntries d))"
    unfolding check_rows_def find_many_def filter_filter by (rule filter_cong) (auto simp: availability_of_def)
  also have "\<dots> = filter (\<lambda>r. me_orgId r = a_orgId a \<and> since \<le> me_time r) (map (available_row (a_orgId a) eid) runs)"
    using assms by (simp add: history_stored_def)
  finally show ?thesis by (simp add: filter_map comp_def available_row_def)
qed

lemma available_values: "sum_list (map me_value (map (available_row orgId eid) runs)) = real (length (filter run_passed runs))"
  by (induction runs) (auto simp: available_row_def)

lemma remdups_same: "remdups (map (\<lambda>_. x) xs) = (if xs = [] then [] else [x])"
  by (induction xs) (auto simp: image_constant_conv)

lemma available_row_simps [simp]: "me_sourceId (available_row orgId eid run) = eid"
  "me_value (available_row orgId eid run) = (if run_passed run then 1 else 0)"
  by (simp_all add: available_row_def)

lemma endpointAvailability_history:
  fixes since :: ms
  assumes "history_stored (a_orgId a) eid runs d" and "can (Some (a_role a)) endpoints_read"
  defines "window \<equiv> filter (\<lambda>run. since \<le> run_time run) runs"
  shows "endpointAvailability a [eid] since d =
     (case availabilityPercent (real (length (filter run_passed window))) (real (length window)) of None \<Rightarrow> [] | Some p \<Rightarrow> [(eid, p)])"
proof -
  have rows: "check_rows a [eid] since d = map (available_row (a_orgId a) eid) window"
    using check_rows_history[OF assms(1)] by (simp add: window_def)
  have "length (filter run_passed window) \<le> length window" by simp
  then show ?thesis
    using assms(2) available_values[of "a_orgId a" eid window]
    by (cases "window = []") (auto simp: endpointAvailability_def Let_def rows comp_def remdups_same availabilityPercent_def min_def)
qed

lemma endpointFailedChecks_history:
  fixes since :: ms
  assumes "history_stored (a_orgId a) eid runs d" and "can (Some (a_role a)) endpoints_read"
  defines "failed \<equiv> length (filter (\<lambda>run. since \<le> run_time run \<and> \<not> run_passed run) runs)"
  shows "endpointFailedChecks a [eid] since d = (if failed = 0 then [] else [(eid, failed)])"
proof -
  define misses where "misses = filter (\<lambda>run. since \<le> run_time run \<and> \<not> run_passed run) runs"
  have "filter (\<lambda>r. me_value r = 0) (check_rows a [eid] since d) = map (available_row (a_orgId a) eid) misses"
    using check_rows_history[OF assms(1)] by (simp add: misses_def filter_map comp_def conj_commute cong: conj_cong)
  then show ?thesis using assms(2)
    by (cases "misses = []") (auto simp: endpointFailedChecks_def Let_def comp_def remdups_same failed_def misses_def[symmetric])
qed

text \<open>
  The count of failures is the one read when the check was claimed. When a probe lasts longer than the interval (timeouts up
  to two minutes and intervals from ten seconds are accepted) the check is claimed again before it is recorded, and the two failures count as one.
\<close>

lemma overlapping_failures_count_once:
  assumes "\<not> pr_passed r1" and "\<not> pr_passed r2" and "ep_consecutiveFailures e = 0"
    and "e' \<in> set (endpointChecks (fst (fst (recordResult env g2 (claimed e) r2 t2 (fst (recordResult env g1 (claimed e) r1 t1 s))))))"
    and "ep_id e' = ep_id e" and "ep_orgId e' = ep_orgId e"
  shows "ep_consecutiveFailures e' = 1 \<and> ep_status e' = DEGRADED"
proof -
  from assms(4) obtain e0 where "e' = (if ep_id e0 = ep_id e \<and> ep_orgId e0 = ep_orgId e then result_upd (claimed e) r2 t2 e0 else e0)"
    by (auto simp: recordResult_checks set_update_many)
  moreover from this have "ep_id e0 = ep_id e \<and> ep_orgId e0 = ep_orgId e" using assms(5,6) by (auto split: if_splits)
  ultimately have "e' = result_upd (claimed e) r2 t2 e0" by simp
  then show ?thesis using assms(2,3) by (simp add: result_upd_health claimed_failures nextHealth_def FAILURES_BEFORE_DOWN_def)
qed

section \<open>Properties\<close>



definition sample_check :: endpoint_row where
  "sample_check = new_endpoint sample_gen (sample_actor ''bob'' ''acme'' ADMIN)
     \<lparr>ei_name = ''Site'', ei_url = ''https://acme.org/'', ei_method = GET, ei_expectedStatus = 200, ei_expectedBodyContains = None,
      ei_intervalSec = 60, ei_timeoutMs = 1000, ei_tags = [], ei_followRedirects = True, ei_verifySsl = True, ei_slaTargetPercent = 99\<rparr>
     ''https://acme.org/''"

definition sample_checks_db :: db where
  "sample_checks_db = sample_db\<lparr>endpointChecks := [sample_check]\<rparr>"

definition sample_runners :: runners where
  "sample_runners = \<lparr>rn_db = sample_checks_db, rn_cache = (\<lambda>_. []), rn_inFlight = (\<lambda>_. []), rn_aborted = (\<lambda>_. False)\<rparr>"

definition sample_outcome :: "bool \<Rightarrow> probe_result" where
  "sample_outcome passed = \<lparr>pr_passed = passed, pr_statusCode = None, pr_responseMs = None, pr_error = None, pr_errorDetail = None, pr_tls = None\<rparr>"

text \<open>Two runners look for work at the same moment and again a minute later; the check is claimed once each time.\<close>

definition sample_ticks :: "runner_op list" where
  "sample_ticks = [Tick 0 (\<lambda>_. False) 1000, Tick 1 (\<lambda>_. False) 1500, Finish 0 0 False (\<lambda>_ _. sample_gen) sample_net 2000, Tick 1 (\<lambda>_. False) 61000]"

lemma sample_run_claims: "run_claims sample_env sample_options 2 sample_ticks sample_runners = [(''c'', 1000), (''c'', 61000)]"
  by (simp add: sample_ticks_def sample_runners_def sample_checks_db_def sample_check_def new_endpoint_def endpoint_settings_def sample_gen_def
      loop_tick_def loop_finish_def loop_limit_def claimDueChecks_def due_checks_def find_many_def order_asc_def is_due_def claimed_def seconds_def Let_def)



end
