(* ===== verification/Api.thy ===== *)
theory Api
  imports Inventory Remediation
begin

text \<open>
  The four routes agents call: \<open>src/app/api/v1/telemetry/route.ts\<close>, \<open>poller-config/route.ts\<close>,
  \<open>remediation/next/route.ts\<close> and \<open>remediation/result/route.ts\<close> under the same directory. A handler is
  one function of the request, the time and the state; the \<open>try\<close> block of the source is a
  \<open>result\<close> whose failures \<open>errorResponse\<close> turns into answers, an exception of any other kind into 500. Parameters: the
  cipher and the digest (as in \<open>Agents\<close>), \<open>JSON.parse\<close> (\<open>None\<close> when it throws) and the \<open>safeParse\<close> of the telemetry
  schema (\<open>None\<close> when it fails). Messages and the list of issues, which only people read, are left out; a
  \<open>Content-Length\<close> that is absent or not a number is \<open>None\<close>.
\<close>

section \<open>Requests and responses\<close>

record server =
  srv_gcm :: gcm
  srv_key :: "nat list"
  srv_hmac :: "string \<Rightarrow> string \<Rightarrow> string"
  TELEMETRY_MAX_BODY_BYTES :: int
  TELEMETRY_MAX_CLOCK_SKEW_SECONDS :: int
  TELEMETRY_MAX_BACKFILL_DAYS :: int

record http_request =
  rq_keyId :: "string option"
  rq_signature :: "string option"
  rq_contentLength :: "int option"
  rq_text :: string

datatype 'a http_body = Body 'a | Error_body string

record 'a http_response =
  rp_status :: nat
  rp_body :: "'a http_body"
  rp_signature :: "string option"
  rp_allow :: "string option"

definition errorResponse :: "telemetry_exn \<Rightarrow> 'a http_response" where
  "errorResponse e = (case e of
       Http status code \<Rightarrow> \<lparr>rp_status = status, rp_body = Error_body code, rp_signature = None, rp_allow = None\<rparr>
     | Unexpected \<Rightarrow> \<lparr>rp_status = 500, rp_body = Error_body ''internal_error'', rp_signature = None, rp_allow = None\<rparr>)"

definition ok_response :: "'a \<Rightarrow> 'a http_response" where
  "ok_response x = \<lparr>rp_status = 200, rp_body = Body x, rp_signature = None, rp_allow = None\<rparr>"

definition method_not_allowed :: "string \<Rightarrow> 'a http_response" where
  "method_not_allowed allow = \<lparr>rp_status = 405, rp_body = Error_body ''method_not_allowed'', rp_signature = None, rp_allow = Some allow\<rparr>"

definition auth_of :: "server \<Rightarrow> http_request \<Rightarrow> string \<Rightarrow> ms \<Rightarrow> db \<Rightarrow> (agent, telemetry_exn) result" where
  "auth_of srv rq rawBody now d = authenticateAgent (srv_gcm srv) (srv_key srv) (srv_hmac srv)
     \<lparr>ai_keyId = rq_keyId rq, ai_signatureHeader = rq_signature rq, ai_rawBody = rawBody, ai_nowMs = now,
      ai_maxSkewSeconds = TELEMETRY_MAX_CLOCK_SKEW_SECONDS srv\<rparr> d"

section \<open>Telemetry\<close>

record stored_answer =
  sa_receivedAt :: ms
  sa_host :: string
  sa_result :: ingest_result

definition telemetry_context :: "server \<Rightarrow> ms \<Rightarrow> ingest_context" where
  "telemetry_context srv now = \<lparr>cx_now = now, cx_maxBackfillMs = TELEMETRY_MAX_BACKFILL_DAYS srv * 24 * 60 * 60 * 1000,
     cx_maxSkewMs = TELEMETRY_MAX_CLOCK_SKEW_SECONDS srv * 1000\<rparr>"

definition payload_too_large :: telemetry_exn where "payload_too_large = Http 413 ''payload_too_large''"

definition telemetry_POST ::
  "server \<Rightarrow> (string \<Rightarrow> json option) \<Rightarrow> (json \<Rightarrow> telemetry_payload option) \<Rightarrow> eval_env \<Rightarrow> (nat \<Rightarrow> nat \<Rightarrow> dbgen) \<Rightarrow> ingest_gens \<Rightarrow> http_request \<Rightarrow> ms
     \<Rightarrow> db \<times> baseline_cache \<Rightarrow> (db \<times> baseline_cache) \<times> stored_answer http_response" where
  "telemetry_POST srv parse_json safeParse env gens gs rq now s =
     (if (case rq_contentLength rq of None \<Rightarrow> 0 | Some n \<Rightarrow> n) > TELEMETRY_MAX_BODY_BYTES srv then (s, errorResponse payload_too_large)
      else if int (utf8_length (rq_text rq)) > TELEMETRY_MAX_BODY_BYTES srv then (s, errorResponse payload_too_large)
      else case auth_of srv rq (rq_text rq) now (fst s) of
        fail e \<Rightarrow> (s, errorResponse e)
      | ok ag \<Rightarrow>
          (case parse_json (rq_text rq) of
             None \<Rightarrow> (s, errorResponse (Http 400 ''invalid_json''))
           | Some j \<Rightarrow>
               (case safeParse j of
                  None \<Rightarrow> (s, errorResponse (Http 422 ''invalid_payload''))
                | Some p \<Rightarrow>
                    (case ingestTelemetry env gens gs ag p (telemetry_context srv now) s of
                       (s', fail e) \<Rightarrow> (s', errorResponse e)
                     | (s', ok r) \<Rightarrow> (s', ok_response \<lparr>sa_receivedAt = now, sa_host = ag_hostname ag, sa_result = r\<rparr>)))))"

definition telemetry_GET :: "unit http_response" where "telemetry_GET = method_not_allowed ''POST''"

section \<open>Configuration of the poller\<close>

primrec device_type_name :: "network_device_type \<Rightarrow> string" where
  "device_type_name ROUTER = ''ROUTER''"
| "device_type_name SWITCH = ''SWITCH''"
| "device_type_name FIREWALL = ''FIREWALL''"
| "device_type_name AP = ''AP''"
| "device_type_name UPS = ''UPS''"
| "device_type_name BMC = ''BMC''"
| "device_type_name DEVICE_OTHER = ''OTHER''"

primrec snmp_version_name :: "snmp_version \<Rightarrow> string" where
  "snmp_version_name V1 = ''V1''"
| "snmp_version_name V2C = ''V2C''"
| "snmp_version_name V3 = ''V3''"

record config_snmp =
  cs_version :: string
  cs_port :: int
  cs_timeoutMs :: int
  cs_retries :: int
  cs_community :: "string option"
  cs_v3 :: "poller_v3 option"

record config_device =
  cd_id :: ident
  cd_ipAddress :: string
  cd_type :: string
  cd_pollIntervalSec :: int
  cd_snmp :: config_snmp

definition config_device_of :: "poller_device \<Rightarrow> config_device" where
  "config_device_of d = \<lparr>cd_id = pd_id d, cd_ipAddress = pd_ipAddress d, cd_type = toLowerCase (device_type_name (pd_type d)),
     cd_pollIntervalSec = pd_pollIntervalSec d,
     cd_snmp = \<lparr>cs_version = toLowerCase (snmp_version_name (pd_snmpVersion d)), cs_port = pd_snmpPort d, cs_timeoutMs = pd_snmpTimeoutMs d,
       cs_retries = pd_snmpRetries d, cs_community = pd_snmpCommunity d, cs_v3 = (if pd_snmpVersion d = V3 then Some (pd_snmpV3 d) else None)\<rparr>\<rparr>"

definition poller_config_GET :: "server \<Rightarrow> (string \<Rightarrow> real) \<Rightarrow> http_request \<Rightarrow> ms \<Rightarrow> db \<Rightarrow> config_device list http_response" where
  "poller_config_GET srv collate rq now d =
     (case auth_of srv rq [] now d of
        fail e \<Rightarrow> errorResponse e
      | ok ag \<Rightarrow>
          (case listDevicesForPoller (srv_gcm srv) (srv_key srv) collate (ag_orgId ag) (ag_hostId ag) d of
             None \<Rightarrow> errorResponse Unexpected
           | Some devices \<Rightarrow> ok_response (map config_device_of devices)))"

definition poller_config_POST :: "unit http_response" where "poller_config_POST = method_not_allowed ''GET''"

section \<open>Remediation jobs\<close>

text \<open>\<open>JSON.stringify\<close>; the numbers of the bodies written here are integers.\<close>

definition hex_digit :: "nat \<Rightarrow> char" where
  "hex_digit n = ''0123456789abcdef'' ! (n mod 16)"

definition json_escape :: "char \<Rightarrow> string" where
  "json_escape c = (let n = code_unit c in
     if n = 34 then [CHR 0x5C, CHR 0x22] else if n = 92 then [CHR 0x5C, CHR 0x5C]
     else if n = 8 then CHR 0x5C # ''b'' else if n = 9 then CHR 0x5C # ''t'' else if n = 10 then CHR 0x5C # ''n''
     else if n = 12 then CHR 0x5C # ''f'' else if n = 13 then CHR 0x5C # ''r''
     else if n < 32 then CHR 0x5C # ''u00'' @ [hex_digit (n div 16), hex_digit n] else [c])"

definition json_quote :: "string \<Rightarrow> string" where
  "json_quote s = CHR 0x22 # concat (map json_escape s) @ [CHR 0x22]"

lemma json_member_size [termination_simp]: "x \<in> set xs \<Longrightarrow> size x < size (JArr xs)" "(k, x) \<in> set kvs \<Longrightarrow> size x < size (JObj kvs)"
  by ((induction xs, auto)[1], (induction kvs, auto)[1])

function json_text :: "json \<Rightarrow> string" where
  "json_text JNull = ''null''"
| "json_text (JBool b) = (if b then ''true'' else ''false'')"
| "json_text (JNum r) = int_string \<lfloor>r\<rfloor>"
| "json_text (JStr s) = json_quote s"
| "json_text (JArr xs) = ''['' @ str_join '','' (map json_text xs) @ '']''"
| "json_text (JObj kvs) = ''{'' @ str_join '','' (map (\<lambda>kv. json_quote (fst kv) @ '':'' @ json_text (snd kv)) kvs) @ ''}''"
  by pat_completeness auto
termination by (relation "measure size") (auto dest: json_member_size)

definition job_json :: "delivered_execution option \<Rightarrow> json" where
  "job_json job = JObj [(''execution'', case job of None \<Rightarrow> JNull
     | Some x \<Rightarrow> JObj [(''id'', JStr (de_id x)), (''runtime'', JStr (toLowerCase (runtime_name (de_runtime x)))), (''script'', JStr (de_script x)),
         (''sha256'', JStr (de_sha256 x)), (''args'', JObj (map (\<lambda>(k, v). (k, JStr v)) (de_args x))),
         (''timeoutSec'', JNum (of_int (de_timeoutSec x))), (''incidentId'', str_json (de_incidentId x))])]"

definition remediation_next_GET :: "server \<Rightarrow> (nat \<Rightarrow> db \<Rightarrow> db) \<Rightarrow> http_request \<Rightarrow> ms \<Rightarrow> db \<Rightarrow> db \<times> string http_response" where
  "remediation_next_GET srv others rq now d =
     (case auth_of srv rq [] now d of
        fail e \<Rightarrow> (d, errorResponse e)
      | ok ag \<Rightarrow>
          let (d', job) = claimNextExecution others (ag_orgId ag) (ag_hostId ag) now d;
              body = json_text (job_json job)
          in (d', (ok_response body)\<lparr>rp_signature := Some (signResponse (srv_hmac srv) (ag_responseSecrets ag) body now)\<rparr>))"

definition remediation_next_POST :: "unit http_response" where "remediation_next_POST = method_not_allowed ''GET''"

section \<open>Results of jobs\<close>

definition RESULT_MAX_BODY_BYTES :: nat where "RESULT_MAX_BODY_BYTES = 256 * 1024"

definition STATUS_REASONS :: "status_reason list" where
  "STATUS_REASONS = [action_disabled, no_target_host, host_disabled, host_not_accepting, not_in_allowlist, os_not_allowed, already_queued,
     cooldown, rate_limited, cancelled, expired, agent_lost, refused_by_agent_policy, unsupported_runtime, interpreter_not_found, start_failed]"

primrec result_status_name :: "result_status \<Rightarrow> string" where
  "result_status_name R_succeeded = ''succeeded''"
| "result_status_name R_failed = ''failed''"
| "result_status_name R_timed_out = ''timed_out''"
| "result_status_name R_skipped = ''skipped''"

text \<open>The combinators of the schema: a value that is there, one that may be absent, one that may also be \<open>null\<close>.\<close>

definition z_string :: "nat \<Rightarrow> nat \<Rightarrow> json \<Rightarrow> string option" where
  "z_string lo hi j = (case j of JStr s \<Rightarrow> if lo \<le> length s \<and> length s \<le> hi then Some s else None | _ \<Rightarrow> None)"

definition z_enum :: "('a \<Rightarrow> string) \<Rightarrow> 'a list \<Rightarrow> json \<Rightarrow> 'a option" where
  "z_enum name xs j = (case j of JStr s \<Rightarrow> List.find (\<lambda>x. name x = s) xs | _ \<Rightarrow> None)"

definition z_int :: "int \<Rightarrow> int \<Rightarrow> json \<Rightarrow> int option" where
  "z_int lo hi j = (case j of JNum r \<Rightarrow> if r = of_int \<lfloor>r\<rfloor> \<and> lo \<le> \<lfloor>r\<rfloor> \<and> \<lfloor>r\<rfloor> \<le> hi then Some \<lfloor>r\<rfloor> else None | _ \<Rightarrow> None)"

definition z_required :: "(json \<Rightarrow> 'a option) \<Rightarrow> json option \<Rightarrow> 'a option" where
  "z_required f j = (case j of None \<Rightarrow> None | Some x \<Rightarrow> f x)"

definition z_optional :: "(json \<Rightarrow> 'a option) \<Rightarrow> json option \<Rightarrow> 'a option option" where
  "z_optional f j = (case j of None \<Rightarrow> Some None | Some x \<Rightarrow> map_option Some (f x))"

definition z_nullish :: "(json \<Rightarrow> 'a option) \<Rightarrow> json option \<Rightarrow> 'a option option" where
  "z_nullish f j = (case j of None \<Rightarrow> Some None | Some JNull \<Rightarrow> Some None | Some x \<Rightarrow> map_option Some (f x))"

definition ResultSchema :: "json \<Rightarrow> execution_result_input option" where
  "ResultSchema j = (case j of
       JObj kvs \<Rightarrow>
         (case (z_required (z_string 1 64) (map_of kvs ''executionId''),
                z_required (z_enum result_status_name [R_succeeded, R_failed, R_timed_out, R_skipped]) (map_of kvs ''status''),
                z_nullish (z_enum reason_name STATUS_REASONS) (map_of kvs ''reason''),
                z_nullish (z_int (- 2147483648) 2147483647) (map_of kvs ''exitCode''),
                z_nullish (z_int 0 (24 * 3600 * 1000)) (map_of kvs ''durationMs''),
                z_optional (z_string 0 RESULT_MAX_BODY_BYTES) (map_of kvs ''stdout''),
                z_optional (z_string 0 RESULT_MAX_BODY_BYTES) (map_of kvs ''stderr'')) of
            (Some i, Some st, Some re, Some ec, Some du, Some so, Some se) \<Rightarrow>
              Some \<lparr>xr_executionId = i, xr_status = st, xr_reason = re, xr_exitCode = ec, xr_durationMs = du, xr_stdout = so, xr_stderr = se\<rparr>
          | _ \<Rightarrow> None)
     | _ \<Rightarrow> None)"

definition remediation_result_POST ::
  "server \<Rightarrow> (string \<Rightarrow> json option) \<Rightarrow> dbgen \<Rightarrow> http_request \<Rightarrow> ms \<Rightarrow> db \<Rightarrow> db \<times> unit http_response" where
  "remediation_result_POST srv parse_json g rq now d =
     (if utf8_length (rq_text rq) > RESULT_MAX_BODY_BYTES then (d, errorResponse payload_too_large)
      else case auth_of srv rq (rq_text rq) now d of
        fail e \<Rightarrow> (d, errorResponse e)
      | ok ag \<Rightarrow>
          (case parse_json (rq_text rq) of
             None \<Rightarrow> (d, errorResponse (Http 400 ''invalid_json''))
           | Some j \<Rightarrow>
               (case ResultSchema j of
                  None \<Rightarrow> (d, errorResponse (Http 422 ''invalid_payload''))
                | Some inp \<Rightarrow>
                    let (d', stored) = recordExecutionResult g (ag_orgId ag) (ag_hostId ag) inp now d
                    in (d', if stored then ok_response () else errorResponse (Http 409 ''not_running'')))))"

section \<open>Lemmas\<close>

primrec error_status :: "telemetry_exn \<Rightarrow> nat" where
  "error_status (Http status code) = status"
| "error_status Unexpected = 500"

lemma errorResponse_status [simp]: "rp_status (errorResponse e) = error_status e"
  by (cases e) (simp_all add: errorResponse_def)

lemma ok_response_simps [simp]: "rp_status (ok_response x) = 200" "rp_body (ok_response x) = Body x"
  by (simp_all add: ok_response_def)

lemma authentication_error: "authenticateAgent c key hmac inp d = fail e \<Longrightarrow> error_status e \<in> {401, 403, 500}"
  by (auto simp: authenticateAgent_def check_host_def INVALID_SIGNATURE_def split: option.splits if_splits)

lemma auth_of_error: "auth_of srv rq body now d = fail e \<Longrightarrow> error_status e \<noteq> 200"
  unfolding auth_of_def by (drule authentication_error) auto

lemma ingestion_error:
  assumes "ingestTelemetry env gens gs ag p ctx s = (s', fail e)"
  shows "s' = s" and "error_status e \<in> {422, 500}"
proof -
  from assms have t: "ingest_transaction gs ag p ctx (fst s) = fail e" "s' = s"
    by (auto simp: ingestTelemetry_def split: result.splits)
  show "s' = s" by (rule t(2))
  show "error_status e \<in> {422, 500}"
    using ingest_transaction_fails[OF t(1)] by (auto simp: out_of_range_def split: if_splits)
qed

lemma ingestion_succeeds_iff:
  "(\<exists>s' r. ingestTelemetry env gens gs ag p ctx s = (s', ok r)) \<longleftrightarrow>
     find_first (\<lambda>h. h_id h = ag_hostId ag) (monitoredHosts (fst s)) \<noteq> None \<and> list_all (in_range ctx) (stamps p)"
proof (cases "ingest_transaction gs ag p ctx (fst s)")
  case (ok x)
  then show ?thesis using ingest_transaction_accepted[OF ok] by (cases x) (simp add: ingestTelemetry_def)
next
  case (fail e)
  then show ?thesis using ingest_transaction_fails[OF fail] by (auto simp: ingestTelemetry_def split: if_splits)
qed

definition fits :: "server \<Rightarrow> http_request \<Rightarrow> bool" where
  "fits srv rq = ((case rq_contentLength rq of None \<Rightarrow> 0 | Some n \<Rightarrow> n) \<le> TELEMETRY_MAX_BODY_BYTES srv
     \<and> int (utf8_length (rq_text rq)) \<le> TELEMETRY_MAX_BODY_BYTES srv)"

lemma telemetry_POST_fits:
  "telemetry_POST srv parse_json safeParse env gens gs rq now s =
     (if \<not> fits srv rq then (s, errorResponse payload_too_large)
      else case auth_of srv rq (rq_text rq) now (fst s) of
        fail e \<Rightarrow> (s, errorResponse e)
      | ok ag \<Rightarrow>
          (case Option.bind (parse_json (rq_text rq)) safeParse of
             None \<Rightarrow> (s, errorResponse (if parse_json (rq_text rq) = None then Http 400 ''invalid_json'' else Http 422 ''invalid_payload''))
           | Some p \<Rightarrow>
                (case ingestTelemetry env gens gs ag p (telemetry_context srv now) s of
                   (s', fail e) \<Rightarrow> (s', errorResponse e)
                 | (s', ok r) \<Rightarrow> (s', ok_response \<lparr>sa_receivedAt = now, sa_host = ag_hostname ag, sa_result = r\<rparr>))))"
  unfolding telemetry_POST_def fits_def by (simp add: not_le Option.bind_def split: option.split result.split)

definition telemetry_acceptable where
  "telemetry_acceptable srv parse_json safeParse rq now d \<longleftrightarrow> fits srv rq
     \<and> (\<exists>ag p. auth_of srv rq (rq_text rq) now d = ok ag \<and> Option.bind (parse_json (rq_text rq)) safeParse = Some p
        \<and> find_first (\<lambda>h. h_id h = ag_hostId ag) (monitoredHosts d) \<noteq> None
        \<and> list_all (in_range (telemetry_context srv now)) (stamps p))"

lemma telemetry_POST_answer:
  assumes "telemetry_POST srv parse_json safeParse env gens gs rq now s = (s', r)"
  shows "if rp_status r = 200 then telemetry_acceptable srv parse_json safeParse rq now (fst s)
    else s' = s \<and> \<not> telemetry_acceptable srv parse_json safeParse rq now (fst s)"
proof (cases "fits srv rq")
  case True
  show ?thesis
  proof (cases "auth_of srv rq (rq_text rq) now (fst s)")
    case (ok ag)
    show ?thesis
    proof (cases "Option.bind (parse_json (rq_text rq)) safeParse")
      case None
      then show ?thesis using assms ok True by (auto simp: telemetry_POST_fits telemetry_acceptable_def split: if_splits)
    next
      case (Some p)
      obtain s1 x where i: "ingestTelemetry env gens gs ag p (telemetry_context srv now) s = (s1, x)" by fastforce
      have acc: "telemetry_acceptable srv parse_json safeParse rq now (fst s) \<longleftrightarrow> (\<exists>s' r. ingestTelemetry env gens gs ag p (telemetry_context srv now) s = (s', result.ok r))"
        using True ok Some ingestion_succeeds_iff[of env gens gs ag p "telemetry_context srv now" s] by (auto simp: telemetry_acceptable_def)
      show ?thesis
      proof (cases x)
        case x: (ok a)
        then show ?thesis using assms True ok Some i acc by (auto simp: telemetry_POST_fits)
      next
        case x: (fail e)
        then show ?thesis using assms True ok Some i acc ingestion_error[OF i[unfolded x]] by (auto simp: telemetry_POST_fits)
      qed
    qed
  next
    case (fail e)
    then show ?thesis using assms True auth_of_error[OF fail] by (auto simp: telemetry_POST_fits telemetry_acceptable_def)
  qed
next
  case False
  then show ?thesis using assms by (auto simp: telemetry_POST_fits telemetry_acceptable_def payload_too_large_def)
qed

text \<open>A result is stored exactly when the execution is running on the reporting host.\<close>

definition running_on :: "ident \<Rightarrow> ident \<Rightarrow> ident \<Rightarrow> remediation_execution_row \<Rightarrow> bool" where
  "running_on eid orgId hostId e = (re_id e = eid \<and> re_orgId e = orgId \<and> re_hostId e = Some hostId \<and> re_status e = RUNNING)"

lemma record_result_not_running:
  assumes "\<forall>e \<in> set (remediationExecutions d). \<not> running_on (xr_executionId inp) orgId hostId e"
  shows "recordExecutionResult g orgId hostId inp now d = (d, False)"
proof -
  have "count_rows (\<lambda>e. running_on (xr_executionId inp) orgId hostId e) (remediationExecutions d) = 0"
    using assms by (simp add: count_rows_zero)
  then show ?thesis using assms
    by (simp add: recordExecutionResult_def Let_def running_on_def update_many_none)
qed

definition reported_upd :: "execution_result_input \<Rightarrow> ms \<Rightarrow> remediation_execution_row \<Rightarrow> remediation_execution_row" where
  "reported_upd inp now e = e\<lparr>re_status := RESULT_STATUS (xr_status inp), re_statusReason := map_option reason_name (xr_reason inp),
     re_exitCode := xr_exitCode inp, re_durationMs := xr_durationMs inp, re_stdout := truncateOutput (xr_stdout inp),
     re_stderr := truncateOutput (xr_stderr inp), re_finishedAt := Some now\<rparr>"

lemma record_result_running:
  assumes "distinct (map re_id (remediationExecutions d))" and "e \<in> set (remediationExecutions d)" and "running_on (xr_executionId inp) orgId hostId e"
  shows "\<exists>d'. recordExecutionResult g orgId hostId inp now d = (d', True)
    \<and> remediationExecutions d' = update_many (running_on (xr_executionId inp) orgId hostId) (reported_upd inp now) (remediationExecutions d)
    \<and> monitoredHosts d' = monitoredHosts d"
proof -
  have "count_rows (running_on (xr_executionId inp) orgId hostId) (remediationExecutions d) = 1"
    using count_rows_unique[OF assms(1,2), of "running_on (xr_executionId inp) orgId hostId"] assms(3) by (simp add: running_on_def)
  then show ?thesis
    by (auto simp: recordExecutionResult_def Let_def running_on_def[abs_def] reported_upd_def[abs_def] split: option.split)
qed

lemma remediation_result_answer:
  assumes "distinct (map re_id (remediationExecutions d))" and "remediation_result_POST srv parse_json g rq now d = (d', r)" and "rp_status r \<noteq> 200"
  shows "d' = d"
proof -
  have "d'' = d" if "recordExecutionResult g orgId hostId inp now d = (d'', False)" for d'' orgId hostId inp
  proof (cases "\<exists>e \<in> set (remediationExecutions d). running_on (xr_executionId inp) orgId hostId e")
    case True
    then obtain e where "e \<in> set (remediationExecutions d)" "running_on (xr_executionId inp) orgId hostId e" ..
    from record_result_running[OF assms(1) this, of g now] that show ?thesis by simp
  next
    case False
    then show ?thesis using record_result_not_running[of d inp orgId hostId g now] that by simp
  qed
  then show ?thesis using assms(2,3)
    by (fastforce simp: remediation_result_POST_def Let_def split: if_splits result.splits option.splits prod.splits)
qed

lemma remediation_result_POST_accepted:
  assumes "utf8_length (rq_text rq) \<le> RESULT_MAX_BODY_BYTES" and "auth_of srv rq (rq_text rq) now d = ok ag"
    and "parse_json (rq_text rq) = Some j" and "ResultSchema j = Some inp"
  shows "remediation_result_POST srv parse_json g rq now d =
    (let (d', stored) = recordExecutionResult g (ag_orgId ag) (ag_hostId ag) inp now d in (d', if stored then ok_response () else errorResponse (Http 409 ''not_running'')))"
  using assms by (simp add: remediation_result_POST_def)

lemma authenticated_host:
  assumes "hex_digests (srv_hmac srv)" and "auth_of srv rq body now d = ok ag"
  shows "\<exists>h. h \<in> set (monitoredHosts d) \<and> h_enabled h \<and> ag_hostId ag = h_id h \<and> ag_orgId ag = h_orgId h
    \<and> host_secrets (srv_gcm srv) (srv_key srv) h now = Some (ag_responseSecrets ag)"
proof (cases rule: authenticate_cases[OF assms(1), of "srv_gcm srv" "srv_key srv" "\<lparr>ai_keyId = rq_keyId rq, ai_signatureHeader = rq_signature rq,
    ai_rawBody = body, ai_nowMs = now, ai_maxSkewSeconds = TELEMETRY_MAX_CLOCK_SKEW_SECONDS srv\<rparr>" d, case_names early unknown known])
  case (known keyId p h)
  have "h \<in> set (monitoredHosts d)" using find_first_SomeD[OF known(2)] by simp
  then show ?thesis using known(3) assms(2)
    by (auto simp: auth_of_def check_host_result[OF assms(1) known(1)] split: option.splits if_splits)
qed (use assms(2) in \<open>auto simp: auth_of_def\<close>)

lemma host_secrets_count: "host_secrets c key h now = Some secrets \<Longrightarrow> secrets \<noteq> [] \<and> length secrets \<le> 4"
  by (auto simp: host_secrets_def split: option.splits)

lemma claim_keeps_ids:
  assumes "distinct (map re_id (remediationExecutions d))"
  shows "map re_id (remediationExecutions (fst (claimNextExecution (\<lambda>k d. d) orgId hostId now d))) = map re_id (remediationExecutions d)"
  using collecting_keys.keys_update
  by (auto simp: claim_sequential[OF assms] claim_cas_def Let_def split: option.split)

lemma claimed_running:
  assumes dist: "distinct (map re_id (remediationExecutions d))"
    and "claimNextExecution (\<lambda>k d. d) orgId hostId now d = (d1, Some x)"
  shows "distinct (map re_id (remediationExecutions d1))" and "\<exists>e \<in> set (remediationExecutions d1). running_on (de_id x) orgId hostId e"
proof -
  show "distinct (map re_id (remediationExecutions d1))" using claim_keeps_ids[OF dist, of orgId hostId now] assms by simp
  from claim_delivers_oldest[OF dist, of orgId hostId now] assms(2) obtain e where
    e: "re_orgId e = orgId" "re_hostId e = Some hostId" "de_id x = re_id e"
      "find_first (\<lambda>r. re_id r = re_id e) (remediationExecutions d1) = Some (e\<lparr>re_status := RUNNING, re_startedAt := Some now\<rparr>)" by auto
  show "\<exists>e \<in> set (remediationExecutions d1). running_on (de_id x) orgId hostId e"
    by (rule bexI[of _ "e\<lparr>re_status := RUNNING, re_startedAt := Some now\<rparr>"]) (use e find_first_SomeD[OF e(4)] in \<open>auto simp: running_on_def\<close>)
qed

lemma result_of_idle_refused:
  assumes "\<forall>e \<in> set (remediationExecutions d). re_id e = eid \<longrightarrow> re_status e \<noteq> RUNNING"
    and "\<And>j inp. parse_json (rq_text q) = Some j \<Longrightarrow> ResultSchema j = Some inp \<Longrightarrow> xr_executionId inp = eid"
  shows "fst (remediation_result_POST srv parse_json g q t d) = d \<and> rp_status (snd (remediation_result_POST srv parse_json g q t d)) \<noteq> 200"
proof -
  have idle: "recordExecutionResult g orgId hostId inp t d = (d, False)" if "xr_executionId inp = eid" for orgId hostId inp
    using assms(1) that by (intro record_result_not_running) (auto simp: running_on_def)
  show ?thesis
    using assms(2) auth_of_error[of srv q "rq_text q" t d]
    by (auto simp: remediation_result_POST_def payload_too_large_def idle split: result.split option.split)
qed

section \<open>Properties\<close>



text \<open>C22. A job is reported once, by the host that took it. After a poll handed out a job, a well-formed report for it is
  stored (200, with the status and exit code of the report) exactly when it is authenticated as the same host; reported by
  any other host it is answered 409 and changes nothing; and once stored, every further report of that job is refused
  and changes nothing.\<close>

theorem job_reported_once:
  assumes "distinct (map re_id (remediationExecutions d))" and "auth_of srv rq [] now d = ok ag"
    and "claimNextExecution (\<lambda>k d. d) (ag_orgId ag) (ag_hostId ag) now d = (d1, Some x)"
    and "utf8_length (rq_text q) \<le> RESULT_MAX_BODY_BYTES" and "parse_json (rq_text q) = Some j" and "ResultSchema j = Some inp"
    and "xr_executionId inp = de_id x" and "auth_of srv q (rq_text q) t d1 = ok ag2"
  shows "fst (remediation_next_GET srv (\<lambda>k d. d) rq now d) = d1 \<and> (\<exists>d2 r2. remediation_result_POST srv parse_json g q t d1 = (d2, r2) \<and>
    (if ag_hostId ag2 = ag_hostId ag \<and> ag_orgId ag2 = ag_orgId ag
     then rp_status r2 = 200
       \<and> (\<exists>e \<in> set (remediationExecutions d2). re_id e = de_id x \<and> re_status e = RESULT_STATUS (xr_status inp) \<and> re_exitCode e = xr_exitCode inp)
       \<and> (\<forall>g' q' t'. (\<forall>j' inp'. parse_json (rq_text q') = Some j' \<and> ResultSchema j' = Some inp' \<longrightarrow> xr_executionId inp' = de_id x) \<longrightarrow>
            fst (remediation_result_POST srv parse_json g' q' t' d2) = d2 \<and> rp_status (snd (remediation_result_POST srv parse_json g' q' t' d2)) \<noteq> 200)
     else rp_status r2 = 409 \<and> d2 = d1))"
proof -
  note run = claimed_running[OF assms(1,3)]
  then obtain e where e: "e \<in> set (remediationExecutions d1)" "running_on (de_id x) (ag_orgId ag) (ag_hostId ag) e" by blast
  have d1: "fst (remediation_next_GET srv (\<lambda>k d. d) rq now d) = d1" using assms(2,3) by (simp add: remediation_next_GET_def Let_def)
  note post = remediation_result_POST_accepted[where parse_json = parse_json, OF assms(4,8,5,6), of g]
  have only: "e' = e" if "e' \<in> set (remediationExecutions d1)" "re_id e' = de_id x" for e'
    using that e run(1) by (auto simp: running_on_def distinct_map inj_on_def)
  show ?thesis
  proof (cases "ag_hostId ag2 = ag_hostId ag \<and> ag_orgId ag2 = ag_orgId ag")
    case True
    obtain d2 where d2: "recordExecutionResult g (ag_orgId ag) (ag_hostId ag) inp t d1 = (d2, True)"
      "remediationExecutions d2 = update_many (running_on (de_id x) (ag_orgId ag) (ag_hostId ag)) (reported_upd inp t) (remediationExecutions d1)"
      using record_result_running[OF run(1) e(1), of inp "ag_orgId ag" "ag_hostId ag" g t] e(2) assms(7) by auto
    have "reported_upd inp t e \<in> set (remediationExecutions d2)" using e by (auto simp: d2(2) set_update_many)
    moreover have final: "RESULT_STATUS (xr_status inp) \<noteq> RUNNING" by (cases "xr_status inp") simp_all
    have "\<forall>y \<in> set (remediationExecutions d2). re_id y = de_id x \<longrightarrow> re_status y \<noteq> RUNNING"
    proof (intro ballI impI)
      fix y assume "y \<in> set (remediationExecutions d2)" "re_id y = de_id x"
      then obtain y0 where y0: "y0 \<in> set (remediationExecutions d1)"
        and y: "y = (if running_on (de_id x) (ag_orgId ag) (ag_hostId ag) y0 then reported_upd inp t y0 else y0)" by (auto simp: d2(2) set_update_many)
      then have "re_id y0 = de_id x" using \<open>re_id y = de_id x\<close> by (simp add: reported_upd_def split: if_splits)
      then have "y = reported_upd inp t e" using only[OF y0] y e(2) by simp
      then show "re_status y \<noteq> RUNNING" using final by (simp add: reported_upd_def)
    qed
    note result_of_idle_refused[OF this]
    ultimately show ?thesis using True d1 post d2(1) e(2) by (auto simp: reported_upd_def running_on_def intro!: bexI[of _ "reported_upd inp t e"])
  next
    case False
    have "recordExecutionResult g (ag_orgId ag2) (ag_hostId ag2) inp t d1 = (d1, False)"
      using only e(2) False assms(7) by (intro record_result_not_running) (auto simp: running_on_def)
    then show ?thesis using False d1 post by simp
  qed
qed

section \<open>Witnesses\<close>

text \<open>A server, a host with one secret, requests it signs, and a job queued for it.\<close>

definition sample_server :: server where
  "sample_server = \<lparr>srv_gcm = toy_gcm, srv_key = [9], srv_hmac = toy_hmac, TELEMETRY_MAX_BODY_BYTES = 1000,
     TELEMETRY_MAX_CLOCK_SKEW_SECONDS = 300, TELEMETRY_MAX_BACKFILL_DAYS = 7\<rparr>"

definition sample_http :: "string \<Rightarrow> http_request" where
  "sample_http body = \<lparr>rq_keyId = Some ''k1'', rq_signature = Some (signResponse toy_hmac [''old''] body 1700000000000),
     rq_contentLength = None, rq_text = body\<rparr>"

definition sample_host_agent :: agent where
  "sample_host_agent = \<lparr>ag_hostId = ''h1'', ag_orgId = ''acme'', ag_hostname = ''web01'', ag_keyId = ''k1'', ag_firstSeenAt = None,
     ag_responseSecrets = [''old'']\<rparr>"

definition sample_job_db :: db where
  "sample_job_db = sample_agent_db\<lparr>remediationExecutions := [new_execution rev sample_gen
     \<lparr>ci_orgId = ''acme'', ci_actionId = ''a1'', ci_hostId = None, ci_trigger = MANUAL, ci_incidentId = None, ci_requestedBy = None, ci_needsApproval = False\<rparr>
     sample_action (Some ''h1'') PENDING None None]\<rparr>"

lemma sample_auth:
  assumes "monitoredHosts d = [sample_agent_host]"
  shows "auth_of sample_server (sample_http body) body 1700000000000 d = ok sample_host_agent"
proof -
  let ?inp = "\<lparr>ai_keyId = Some ''k1'', ai_signatureHeader = Some (signResponse toy_hmac [''old''] body 1700000000000), ai_rawBody = body,
    ai_nowMs = 1700000000000, ai_maxSkewSeconds = 300\<rparr>"
  let ?p = "\<lparr>ps_timestamp = 1700000000, ps_signatures = [computeSignature toy_hmac ''old'' 1700000000 body]\<rparr>"
  have "parseSignatureHeader (Some (signResponse toy_hmac [''old''] body 1700000000000)) = Some ?p"
    using signed_response_read(1)[OF toy_hmac_hex, of "[''old'']" 1700000000000 body] by simp
  then have w: "well_formed_request ?inp ''k1'' ?p" by (simp add: well_formed_request_def truthy_def or_null_def isTimestampFresh_def)
  have found: "find_first (\<lambda>h. h_keyId h = ''k1'') (monitoredHosts d) = Some sample_agent_host"
    using assms by (simp add: sample_agent_host_def sample_host_def)
  have sec: "host_secrets toy_gcm [9] sample_agent_host (ai_nowMs ?inp) = Some [''old'']"
    unfolding host_secrets_def sample_secret by (simp add: previous_valid_def sample_agent_host_def sample_host_def truthy_def)
  have "request_signed toy_hmac ''old'' ?p ?inp" by (simp add: request_signed_def)
  then have "authenticateAgent toy_gcm [9] toy_hmac ?inp d = ok sample_host_agent"
    unfolding authenticate_known[OF toy_hmac_hex w found] check_host_result[OF toy_hmac_hex w] sec
    by (simp add: sample_agent_host_def sample_host_def sample_host_agent_def)
  then show ?thesis by (simp add: auth_of_def sample_server_def sample_http_def)
qed

lemma sample_job_hosts: "monitoredHosts sample_job_db = [sample_agent_host]" "distinct (map re_id (remediationExecutions sample_job_db))"
  by (simp_all add: sample_job_db_def sample_agent_db_def)


definition sample_claim where
  "sample_claim = claimNextExecution (\<lambda>k d. d) ''acme'' ''h1'' 1700000000000 sample_job_db"

lemma sample_claimed: "map_option de_id (snd sample_claim) = Some ''c''" "monitoredHosts (fst sample_claim) = [sample_agent_host]"
proof -
  have "next_pending ''acme'' ''h1'' sample_job_db = Some (hd (remediationExecutions sample_job_db))"
    by (simp add: next_pending_def find_many_def order_asc_def sample_job_db_def new_execution_def)
  then have "sample_claim = (fst (claim_cas ''c'' 1700000000000 sample_job_db), snd sample_claim) \<and> map_option de_id (snd sample_claim) = Some ''c''"
    unfolding sample_claim_def claim_sequential[OF sample_job_hosts(2)] by (simp add: sample_job_db_def new_execution_def sample_gen_def)
  then show "map_option de_id (snd sample_claim) = Some ''c''" "monitoredHosts (fst sample_claim) = [sample_agent_host]"
    using sample_job_hosts(1) by (auto simp: claim_cas_def Let_def dest: arg_cong[of _ _ fst])
qed


definition sample_report :: json where
  "sample_report = JObj [(''executionId'', JStr ''c''), (''status'', JStr ''succeeded''), (''exitCode'', JNum 0)]"

theorem job_reported_once_witness:
  "\<exists>d2 r2. remediation_result_POST sample_server (\<lambda>_. Some sample_report) sample_gen (sample_http ''{}'') 1700000000000 (fst sample_claim) = (d2, r2)
     \<and> rp_status r2 = 200 \<and> (\<exists>e \<in> set (remediationExecutions d2). re_id e = ''c'' \<and> re_status e = SUCCEEDED)"
proof -
  obtain x where x: "snd sample_claim = Some x" "de_id x = ''c''" using sample_claimed(1) by auto
  obtain inp where inp: "ResultSchema sample_report = Some inp" "xr_executionId inp = ''c''" "xr_status inp = R_succeeded"
    by (simp add: ResultSchema_def sample_report_def z_required_def z_string_def z_enum_def z_nullish_def z_optional_def z_int_def)
  have claim: "claimNextExecution (\<lambda>k d. d) (ag_orgId sample_host_agent) (ag_hostId sample_host_agent) 1700000000000 sample_job_db = (fst sample_claim, Some x)"
    using x(1) by (simp add: sample_host_agent_def sample_claim_def[symmetric] prod_eq_iff)
  have "utf8_length (rq_text (sample_http ''{}'')) \<le> RESULT_MAX_BODY_BYTES" by (simp add: sample_http_def utf8_length_def RESULT_MAX_BODY_BYTES_def)
  moreover have "auth_of sample_server (sample_http ''{}'') (rq_text (sample_http ''{}'')) 1700000000000 (fst sample_claim) = ok sample_host_agent"
    using sample_auth[OF sample_claimed(2), of "''{}''"] by (simp add: sample_http_def)
  ultimately show ?thesis
    using job_reported_once[where parse_json = "\<lambda>_. Some sample_report", OF sample_job_hosts(2) sample_auth[OF sample_job_hosts(1)] claim _ refl inp(1), of "sample_http ''{}''" 1700000000000 sample_host_agent sample_gen]
      x(2) inp by auto
qed

end
