(* ===== verification/Narrative.thy ===== *)
theory Narrative
  imports Incidents Totp
begin

text \<open>
  Root-cause narratives, \<open>src/modules/aiops/rca-llm.ts\<close>: what one incident sends to the language model,
  the claim of the requests that are due, the service of one claimed request and the worker's loop with its
  hourly cap.

  The model behind \<open>deps.client\<close> is a parameter: a function from the request to an error or to a response,
  one for every call. Every \<open>await\<close> lets other programs act: what they do to the database is a parameter
  too (\<open>ce_before\<close>, \<open>ce_between\<close>, \<open>se_during\<close>, \<open>se_after\<close>), and so is every reading of
  \<open>Date.now()\<close>. An instant that is sent as ISO text stands for that text.
\<close>

definition DEFAULT_RCA_LLM_MODEL :: string where "DEFAULT_RCA_LLM_MODEL = ''claude-opus-5''"
definition MAX_ATTEMPTS :: nat where "MAX_ATTEMPTS = 3"
definition SETTLE_MS :: ms where "SETTLE_MS = 60000"
definition LEASE_MS :: ms where "LEASE_MS = 10 * 60 * 1000"
definition HOUR_MS :: ms where "HOUR_MS = 60 * 60 * 1000"

lemmas narrative_times = SETTLE_MS_def LEASE_MS_def HOUR_MS_def

definition default_model :: "string option \<Rightarrow> string" where
  "default_model configured =
     (case truthy (map_option js_trim configured) of None \<Rightarrow> DEFAULT_RCA_LLM_MODEL | Some m \<Rightarrow> m)"

section \<open>What the model sees\<close>

record recent_window =
  rw_points :: nat
  rw_min :: real
  rw_max :: real
  rw_latest :: real

record narrative_input =
  ni_title :: string
  ni_severity :: severity
  ni_status :: incident_status
  ni_sourceKind :: "metric_source option"
  ni_source :: "string option"
  ni_metric :: "metric_type option"
  ni_triggerValue :: "real option"
  ni_peakValue :: "real option"
  ni_anomalyScore :: "real option"
  ni_startedAt :: ms
  ni_condition :: "json option"
  ni_recent :: "recent_window option"
  ni_findings :: rca_findings
  ni_confidence :: "real option"

definition window_rows :: "incident_row \<Rightarrow> ident \<Rightarrow> metric_type \<Rightarrow> ms \<Rightarrow> db \<Rightarrow> metric_row list" where
  "window_rows r source metric now d =
     (let since = max (in_startedAt r - HOUR_MS) (now - 2 * HOUR_MS)
      in take 1000 (order_desc me_time (find_many (\<lambda>m. me_orgId m = in_orgId r \<and> me_sourceId m = source
           \<and> me_metric m = metric \<and> since \<le> me_time m) (metricEntries d))))"

definition window_of :: "real list \<Rightarrow> recent_window option" where
  "window_of vs = (case vs of [] \<Rightarrow> None
     | v # rest \<Rightarrow> Some \<lparr>rw_points = length vs, rw_min = fold min rest v, rw_max = fold max rest v, rw_latest = v\<rparr>)"

definition recent_values :: "incident_row \<Rightarrow> ms \<Rightarrow> db \<Rightarrow> recent_window option" where
  "recent_values r now d =
     (case (truthy (in_sourceId r), in_metric r) of
        (Some source, Some metric) \<Rightarrow> window_of (map me_value (window_rows r source metric now d))
      | _ \<Rightarrow> None)"

definition buildNarrativeInput :: "ms \<Rightarrow> ident \<Rightarrow> db \<Rightarrow> narrative_input option" where
  "buildNarrativeInput now iid d =
     (case find_first (\<lambda>r. in_id r = iid) (incidents d) of
        None \<Rightarrow> None
      | Some r \<Rightarrow> (case in_rcaFindings r of
          None \<Rightarrow> None
        | Some findings \<Rightarrow>
            let opened = find_first (\<lambda>e. ie_incidentId e = iid \<and> ie_type e = EV_OPENED) (incidentEvents d)
            in Some \<lparr>ni_title = in_title r, ni_severity = in_severity r, ni_status = in_status r,
                 ni_sourceKind = in_sourceKind r, ni_source = in_sourceLabel r, ni_metric = in_metric r,
                 ni_triggerValue = in_triggerValue r, ni_peakValue = in_peakValue r, ni_anomalyScore = in_anomalyScore r,
                 ni_startedAt = in_startedAt r, ni_condition = (case opened of None \<Rightarrow> None | Some e \<Rightarrow> ie_data e),
                 ni_recent = recent_values r now d, ni_findings = findings, ni_confidence = in_rcaConfidence r\<rparr>))"

section \<open>One call of the model\<close>

text \<open>The part of the request that depends on the incident or the configuration; the prompt is a constant.\<close>

record narrative_request =
  nr_model :: string
  nr_max_tokens :: nat
  nr_input :: narrative_input

datatype llm_error =
    Api_error (err_name: string) (err_status: "nat option")
  | Js_error (err_name: string)
  | Not_an_error

record llm_response =
  lr_refusal :: bool
  lr_parsed :: "(string \<times> string) option"

type_synonym llm_client = "narrative_request \<Rightarrow> llm_error + llm_response"

record narrative =
  na_summaryEn :: string
  na_summaryFr :: string

definition readNarrative :: "llm_response \<Rightarrow> narrative option" where
  "readNarrative response =
     (case (lr_refusal response, lr_parsed response) of
        (False, Some (en, fr)) \<Rightarrow>
          if js_trim en = [] \<or> js_trim fr = [] then None
          else Some \<lparr>na_summaryEn = take 4000 (js_trim en), na_summaryFr = take 4000 (js_trim fr)\<rparr>
      | _ \<Rightarrow> None)"

definition requestNarrative :: "llm_client \<Rightarrow> string \<Rightarrow> narrative_input \<Rightarrow> llm_error + narrative option" where
  "requestNarrative client model inp =
     (case client \<lparr>nr_model = model, nr_max_tokens = 16000, nr_input = inp\<rparr> of
        Inl e \<Rightarrow> Inl e
      | Inr response \<Rightarrow> Inr (readNarrative response))"

fun describeError :: "llm_error \<Rightarrow> string" where
  "describeError (Api_error name (Some status)) = (if status = 0 then name else name @ '' '' @ dec_string status)"
| "describeError (Api_error name None) = name"
| "describeError (Js_error name) = name"
| "describeError Not_an_error = ''unknown''"

section \<open>Claiming\<close>

record narrative_claim =
  nc_id :: ident
  nc_generatedAt :: "ms option"
  nc_attempts :: nat

definition claim_of :: "incident_row \<Rightarrow> narrative_claim" where
  "claim_of r = \<lparr>nc_id = in_id r, nc_generatedAt = in_rcaGeneratedAt r, nc_attempts = in_rcaLlmAttempts r\<rparr>"

definition narrative_due :: "ms \<Rightarrow> incident_row \<Rightarrow> bool" where
  "narrative_due settledBefore r =
     ((case in_rcaLlmRequestedAt r of None \<Rightarrow> False | Some t \<Rightarrow> t \<le> settledBefore) \<and> in_rcaLlmAttempts r < MAX_ATTEMPTS)"

definition lease_upd :: "ms \<Rightarrow> incident_row \<Rightarrow> incident_row" where
  "lease_upd lease r = r\<lparr>in_rcaLlmRequestedAt := Some lease, in_rcaLlmAttempts := in_rcaLlmAttempts r + 1\<rparr>"

record claim_env =
  ce_before :: "nat \<Rightarrow> db \<Rightarrow> db"
  ce_now :: "nat \<Rightarrow> ms"
  ce_between :: "nat \<Rightarrow> db \<Rightarrow> db"

definition lease_one :: "ms \<Rightarrow> ms \<Rightarrow> ident \<Rightarrow> db \<Rightarrow> db \<times> nat" where
  "lease_one settledBefore now iid d =
     (let due = (\<lambda>r. in_id r = iid \<and> narrative_due settledBefore r)
      in (d\<lparr>incidents := update_many due (lease_upd (now + LEASE_MS)) (incidents d)\<rparr>, count_rows due (incidents d)))"

fun claim_each :: "claim_env \<Rightarrow> ms \<Rightarrow> nat \<Rightarrow> ident list \<Rightarrow> db \<Rightarrow> db \<times> narrative_claim list" where
  "claim_each e settledBefore k [] d = (d, [])"
| "claim_each e settledBefore k (i # is) d =
     (let (d1, won) = lease_one settledBefore (ce_now e k) i (ce_before e k d)
      in if won \<noteq> 1 then claim_each e settledBefore (Suc k) is d1
         else let d2 = ce_between e k d1;
                  (d3, rest) = claim_each e settledBefore (Suc k) is d2
              in (d3, (case find_first (\<lambda>r. in_id r = i) (incidents d2) of None \<Rightarrow> rest | Some r \<Rightarrow> claim_of r # rest)))"

definition claimNarrativeRequests ::
  "claim_env \<Rightarrow> ms \<Rightarrow> int \<Rightarrow> ident list option \<Rightarrow> db \<Rightarrow> db \<times> narrative_claim list" where
  "claimNarrativeRequests e now limit scope d =
     (if limit \<le> 0 then (d, [])
      else let settledBefore = now - SETTLE_MS;
               candidates = take (nat limit) (order_asc (\<lambda>r. the (in_rcaLlmRequestedAt r))
                 (find_many (\<lambda>r. narrative_due settledBefore r
                    \<and> (case scope of None \<Rightarrow> True | Some orgIds \<Rightarrow> in_orgId r \<in> set orgIds)) (incidents d)))
           in claim_each e settledBefore 0 (map in_id candidates) d)"

section \<open>Serving\<close>

datatype serve_outcome = NS_stored | NS_stale | NS_refused | NS_failed

record serve_env =
  se_readAt :: ms
  se_client :: llm_client
  se_during :: "db \<Rightarrow> db"
  se_failedAt :: ms
  se_after :: "db \<Rightarrow> db"
  se_gen :: dbgen

definition same_findings :: "narrative_claim \<Rightarrow> incident_row \<Rightarrow> bool" where
  "same_findings c r = (in_id r = nc_id c \<and> in_rcaGeneratedAt r = nc_generatedAt c)"

definition refused_upd :: "incident_row \<Rightarrow> incident_row" where
  "refused_upd r = r\<lparr>in_rcaLlmRequestedAt := None, in_rcaLlmError := Some ''refused_or_empty''\<rparr>"

definition stored_upd :: "string \<Rightarrow> narrative \<Rightarrow> incident_row \<Rightarrow> incident_row" where
  "stored_upd model n r = r\<lparr>in_rcaSummaryEn := Some (na_summaryEn n), in_rcaSummaryFr := Some (na_summaryFr n),
     in_rcaModel := Some (RCA_MODEL @ ''+'' @ model), in_rcaLlmRequestedAt := None, in_rcaLlmError := None\<rparr>"

definition failed_upd :: "narrative_claim \<Rightarrow> ms \<Rightarrow> llm_error \<Rightarrow> incident_row \<Rightarrow> incident_row" where
  "failed_upd c now err r = r\<lparr>in_rcaLlmError := Some (describeError err),
     in_rcaLlmRequestedAt := (if MAX_ATTEMPTS \<le> nc_attempts c then None
        else Some (now + int (nc_attempts c) * 2 * 60 * 1000 - SETTLE_MS))\<rparr>"

definition upd_incidents :: "(incident_row \<Rightarrow> bool) \<Rightarrow> (incident_row \<Rightarrow> incident_row) \<Rightarrow> db \<Rightarrow> db" where
  "upd_incidents P f d = d\<lparr>incidents := update_many P f (incidents d)\<rparr>"

definition serveNarrative :: "serve_env \<Rightarrow> string \<Rightarrow> narrative_claim \<Rightarrow> db \<Rightarrow> db \<times> serve_outcome" where
  "serveNarrative e model c d =
     (let d1 = se_during e d in
      case buildNarrativeInput (se_readAt e) (nc_id c) d of
        None \<Rightarrow> (upd_incidents (\<lambda>r. in_id r = nc_id c) (\<lambda>r. r\<lparr>in_rcaLlmRequestedAt := None\<rparr>) d1, NS_stale)
      | Some inp \<Rightarrow> (case requestNarrative (se_client e) model inp of
          Inl err \<Rightarrow> (upd_incidents (same_findings c) (failed_upd c (se_failedAt e) err) d1, NS_failed)
        | Inr None \<Rightarrow> (upd_incidents (same_findings c) refused_upd d1, NS_refused)
        | Inr (Some n) \<Rightarrow>
            let d2 = upd_incidents (same_findings c) (stored_upd model n) d1
            in if count_rows (same_findings c) (incidents d1) \<noteq> 1 then (d2, NS_stale)
               else (add_event (incident_event (se_gen e) 0 (nc_id c) EV_RCA_GENERATED
                       (Some (JObj [(''model'', JStr model), (''narrative'', JBool True)]))) (se_after e d2), NS_stored)))"

definition requestFreshNarrative :: "bool \<Rightarrow> ms \<Rightarrow> ident \<Rightarrow> db \<Rightarrow> db" where
  "requestFreshNarrative llmEnabled now iid d =
     (if \<not> llmEnabled then d
      else upd_incidents (\<lambda>r. in_id r = iid \<and> in_status r \<noteq> RESOLVED)
        (\<lambda>r. r\<lparr>in_rcaLlmRequestedAt := Some (now - SETTLE_MS), in_rcaLlmAttempts := 0, in_rcaLlmError := None\<rparr>) d)"

section \<open>The loop of a worker\<close>

text \<open>
  One turn of \<open>runNarrativeLoop\<close>: the calls older than an hour leave the window, the rest of the budget is
  claimed, and each claimed request is served unless the worker was told to stop. Between two turns other
  programs act (\<open>tk_sleep\<close>).
\<close>

record tick_env =
  tk_sleep :: "db \<Rightarrow> db"
  tk_now :: ms
  tk_claimNow :: ms
  tk_claims :: claim_env
  tk_aborted :: "nat \<Rightarrow> bool"
  tk_callAt :: "nat \<Rightarrow> ms"
  tk_serve :: "nat \<Rightarrow> serve_env"

record narrative_loop =
  nl_calls :: "ms list"
  nl_db :: db

fun serve_each :: "tick_env \<Rightarrow> string \<Rightarrow> nat \<Rightarrow> narrative_claim list \<Rightarrow> narrative_loop \<Rightarrow> narrative_loop \<times> (ms \<times> ident) list" where
  "serve_each e model k [] s = (s, [])"
| "serve_each e model k (c # cs) s =
     (if tk_aborted e k then (s, [])
      else let s1 = \<lparr>nl_calls = nl_calls s @ [tk_callAt e k], nl_db = fst (serveNarrative (tk_serve e k) model c (nl_db s))\<rparr>;
               (s2, calls) = serve_each e model (Suc k) cs s1
           in (s2, (tk_callAt e k, nc_id c) # calls))"

definition narrative_tick :: "int \<Rightarrow> string \<Rightarrow> tick_env \<Rightarrow> narrative_loop \<Rightarrow> narrative_loop \<times> (ms \<times> ident) list" where
  "narrative_tick maxPerHour model e s =
     (let calls = dropWhile (\<lambda>t. t < tk_now e - HOUR_MS) (nl_calls s);
          budget = min 3 (maxPerHour - int (length calls));
          (d, claimed) = claimNarrativeRequests (tk_claims e) (tk_claimNow e) budget None (tk_sleep e (nl_db s))
      in serve_each e model 0 claimed \<lparr>nl_calls = calls, nl_db = d\<rparr>)"

fun runNarrativeLoop :: "int \<Rightarrow> string \<Rightarrow> tick_env list \<Rightarrow> narrative_loop \<Rightarrow> narrative_loop \<times> (ms \<times> ident) list" where
  "runNarrativeLoop maxPerHour model [] s = (s, [])"
| "runNarrativeLoop maxPerHour model (e # es) s =
     (let (s1, calls) = narrative_tick maxPerHour model e s;
          (s2, more) = runNarrativeLoop maxPerHour model es s1
      in (s2, calls @ more))"

section \<open>What the model is told\<close>

lemma buildNarrativeInput_Some:
  assumes "buildNarrativeInput now iid d = Some inp"
  obtains r where "find_first (\<lambda>r. in_id r = iid) (incidents d) = Some r" and "in_rcaFindings r = Some (ni_findings inp)"
  using assms that by (auto simp: buildNarrativeInput_def Let_def split: option.splits)

lemma readNarrative_Some:
  assumes "readNarrative response = Some n"
  shows "length (na_summaryEn n) \<le> 4000 \<and> length (na_summaryFr n) \<le> 4000 \<and> na_summaryEn n \<noteq> [] \<and> na_summaryFr n \<noteq> []"
  using assms by (auto simp: readNarrative_def split: bool.splits option.splits prod.splits if_splits)

section \<open>The hourly cap\<close>

lemma claim_each_length: "length (snd (claim_each e sb k is d)) \<le> length is"
proof (induction "is" arbitrary: k d)
  case (Cons i "is")
  obtain d1 won where l: "lease_one sb (ce_now e k) i (ce_before e k d) = (d1, won)" by force
  show ?case using Cons.IH[of "Suc k" d1] Cons.IH[of "Suc k" "ce_between e k d1"]
    by (auto simp: l Let_def case_prod_beta split: option.split)
qed simp

lemma claims_within_limit: "int (length (snd (claimNarrativeRequests e now limit scope d))) \<le> max 0 limit"
proof (cases "limit \<le> 0")
  case False
  let ?c = "find_many (\<lambda>r. narrative_due (now - SETTLE_MS) r \<and> (case scope of None \<Rightarrow> True | Some orgIds \<Rightarrow> in_orgId r \<in> set orgIds)) (incidents d)"
  have "length (snd (claimNarrativeRequests e now limit scope d))
      \<le> length (map in_id (take (nat limit) (order_asc (\<lambda>r. the (in_rcaLlmRequestedAt r)) ?c)))"
    using False by (simp only: claimNarrativeRequests_def Let_def if_False) (rule claim_each_length)
  also have "\<dots> \<le> nat limit" by simp
  finally show ?thesis using False by simp
qed (simp add: claimNarrativeRequests_def)

lemma serve_each_calls:
  "nl_calls (fst (serve_each e model k cs s)) = nl_calls s @ map fst (snd (serve_each e model k cs s))
   \<and> length (snd (serve_each e model k cs s)) \<le> length cs
   \<and> map fst (snd (serve_each e model k cs s)) = map (tk_callAt e) [k ..< k + length (snd (serve_each e model k cs s))]"
proof (induction cs arbitrary: k s)
  case (Cons c cs)
  let ?s = "\<lparr>nl_calls = nl_calls s @ [tk_callAt e k], nl_db = fst (serveNarrative (tk_serve e k) model c (nl_db s))\<rparr>"
  obtain s2 calls where r: "serve_each e model (Suc k) cs ?s = (s2, calls)" by force
  have "[k ..< Suc (k + length calls)] = k # [Suc k ..< Suc (k + length calls)]" by (rule upt_conv_Cons) simp
  then show ?case using Cons.IH[of "Suc k" ?s] r by (simp add: r del: upt_Suc)
qed simp

text \<open>Every reading of the clock of a worker, in the order it makes them: at the head of a turn and at each call.\<close>

fun clock_readings :: "int \<Rightarrow> string \<Rightarrow> tick_env list \<Rightarrow> narrative_loop \<Rightarrow> ms list" where
  "clock_readings maxPerHour model [] s = []"
| "clock_readings maxPerHour model (e # es) s =
     (let (s1, calls) = narrative_tick maxPerHour model e s
      in tk_now e # map fst calls @ clock_readings maxPerHour model es s1)"

text \<open>
  The window of the loop against the whole history: what has left it is more than an hour older than the last
  turn, what is in it are the last calls, never more than the cap.
\<close>

definition window_ok :: "nat \<Rightarrow> ms list \<Rightarrow> ms list \<Rightarrow> ms \<Rightarrow> bool" where
  "window_ok cap history calls now =
     (sorted history \<and> (\<forall>t \<in> set history. t \<le> now) \<and> length calls \<le> cap
      \<and> (\<exists>left. history = left @ calls \<and> (\<forall>t \<in> set left. t + HOUR_MS < now)))"

definition hour_apart :: "nat \<Rightarrow> ms list \<Rightarrow> bool" where
  "hour_apart cap ts = (\<forall>i. i + cap < length ts \<longrightarrow> ts ! i + HOUR_MS < ts ! (i + cap))"

lemma window_turn:
  assumes "window_ok cap history calls t0" and "t0 \<le> now"
  shows "window_ok cap history (dropWhile (\<lambda>t. t < now - HOUR_MS) calls) now"
proof -
  let ?P = "\<lambda>t. t < now - HOUR_MS"
  from assms(1) obtain left where h: "history = left @ calls" "\<forall>t \<in> set left. t + HOUR_MS < t0"
    by (auto simp: window_ok_def)
  have "history = (left @ takeWhile ?P calls) @ dropWhile ?P calls" using h(1) by simp
  moreover have "\<forall>t \<in> set (left @ takeWhile ?P calls). t + HOUR_MS < now"
    using h(2) assms(2) by (auto dest: set_takeWhileD)
  moreover have "length (dropWhile ?P calls) \<le> cap"
    using assms(1) length_dropWhile_le[of ?P calls] by (simp add: window_ok_def)
  moreover have "\<forall>t \<in> set history. t \<le> now" using assms by (auto simp: window_ok_def)
  ultimately show ?thesis using assms(1) unfolding window_ok_def by blast
qed

lemma window_call:
  assumes "window_ok cap history calls t0" and "hour_apart cap history" and "length calls < cap" and "t0 \<le> now"
  shows "window_ok cap (history @ [now]) (calls @ [now]) now \<and> hour_apart cap (history @ [now])"
proof -
  from assms(1) obtain left where h: "history = left @ calls" "\<forall>t \<in> set left. t + HOUR_MS < t0"
    by (auto simp: window_ok_def)
  have "(history @ [now]) ! i + HOUR_MS < (history @ [now]) ! (i + cap)" if "i + cap < Suc (length history)" for i
  proof (cases "i + cap < length history")
    case True
    then show ?thesis using assms(2) by (simp add: hour_apart_def nth_append)
  next
    case False
    with that assms(3) h(1) have "i + cap = length history" "i < length left" by auto
    then show ?thesis using h assms(4) nth_mem[of i left] by (fastforce simp: nth_append)
  qed
  then have "hour_apart cap (history @ [now])" by (simp add: hour_apart_def)
  moreover have "window_ok cap (history @ [now]) (calls @ [now]) now"
    unfolding window_ok_def
  proof (intro conjI exI[of _ left])
    show "sorted (history @ [now])" "\<forall>t \<in> set (history @ [now]). t \<le> now" "length (calls @ [now]) \<le> cap"
      using assms by (auto simp: window_ok_def sorted_append)
    show "history @ [now] = left @ calls @ [now]" "\<forall>t \<in> set left. t + HOUR_MS < now" using h assms(4) by auto
  qed
  ultimately show ?thesis by simp
qed

lemma window_calls:
  assumes "window_ok cap history calls t0" and "hour_apart cap history" and "length calls + length ts \<le> cap"
    and "sorted (t0 # ts)"
  shows "\<exists>t1. (t1 = last (t0 # ts)) \<and> window_ok cap (history @ ts) (calls @ ts) t1 \<and> hour_apart cap (history @ ts)"
  using assms
proof (induction ts arbitrary: history calls t0)
  case (Cons t ts)
  have step: "window_ok cap (history @ [t]) (calls @ [t]) t \<and> hour_apart cap (history @ [t])"
    by (rule window_call[OF Cons.prems(1,2)]) (use Cons.prems(3,4) in auto)
  have "sorted (t # ts)" using Cons.prems(4) by simp
  with Cons.IH[of "history @ [t]" "calls @ [t]" t] step Cons.prems(3) show ?case by auto
qed simp

lemma tick_calls:
  fixes maxPerHour :: int
  defines "window e s \<equiv> dropWhile (\<lambda>t. t < tk_now e - HOUR_MS) (nl_calls s)"
  assumes "narrative_tick maxPerHour model e s = (s1, calls)" and "length (window e s) \<le> nat maxPerHour"
  shows "nl_calls s1 = window e s @ map fst calls" and "length (window e s) + length calls \<le> nat maxPerHour"
proof -
  define budget where "budget = min 3 (maxPerHour - int (length (window e s)))"
  obtain d cs where cl: "claimNarrativeRequests (tk_claims e) (tk_claimNow e) budget None (tk_sleep e (nl_db s)) = (d, cs)" by force
  then have run: "serve_each e model 0 cs \<lparr>nl_calls = window e s, nl_db = d\<rparr> = (s1, calls)"
    using assms(2) by (simp add: narrative_tick_def window_def budget_def Let_def)
  then show "nl_calls s1 = window e s @ map fst calls"
    using serve_each_calls[of e model 0 cs "\<lparr>nl_calls = window e s, nl_db = d\<rparr>"] by simp
  have "int (length cs) \<le> max 0 budget"
    using claims_within_limit[of "tk_claims e" "tk_claimNow e" budget None "tk_sleep e (nl_db s)"] cl by simp
  moreover have "length calls \<le> length cs"
    using serve_each_calls[of e model 0 cs "\<lparr>nl_calls = window e s, nl_db = d\<rparr>"] run by simp
  ultimately show "length (window e s) + length calls \<le> nat maxPerHour"
    using assms(3) by (simp add: budget_def split: if_splits)
qed

lemma loop_hour_apart:
  assumes "window_ok (nat maxPerHour) history (nl_calls s) t0" and "hour_apart (nat maxPerHour) history"
    and "sorted (t0 # clock_readings maxPerHour model es s)"
  shows "hour_apart (nat maxPerHour) (history @ map fst (snd (runNarrativeLoop maxPerHour model es s)))"
  using assms
proof (induction es arbitrary: s history t0)
  case (Cons e es)
  obtain s1 calls where tick: "narrative_tick maxPerHour model e s = (s1, calls)" by force
  let ?w = "dropWhile (\<lambda>t. t < tk_now e - HOUR_MS) (nl_calls s)"
  from Cons.prems(3) tick have
    srt: "t0 \<le> tk_now e" "sorted (tk_now e # map fst calls)" "sorted (clock_readings maxPerHour model es s1)"
      "\<forall>x \<in> set (tk_now e # map fst calls). \<forall>y \<in> set (clock_readings maxPerHour model es s1). x \<le> y"
    by (auto simp: sorted_append)
  have w: "window_ok (nat maxPerHour) history ?w (tk_now e)"
    by (rule window_turn[OF Cons.prems(1) srt(1)])
  then have len: "length ?w \<le> nat maxPerHour" by (simp add: window_ok_def)
  note calls = tick_calls[OF tick len]
  obtain t1 where t1: "t1 = last (tk_now e # map fst calls)"
    and ok: "window_ok (nat maxPerHour) (history @ map fst calls) (?w @ map fst calls) t1" "hour_apart (nat maxPerHour) (history @ map fst calls)"
    using window_calls[OF w Cons.prems(2) _ srt(2)] calls(2) by auto
  have "t1 \<in> set (tk_now e # map fst calls)" using t1 last_in_set by blast
  then have "sorted (t1 # clock_readings maxPerHour model es s1)" using srt(3,4) by auto
  with Cons.IH[of "history @ map fst calls" s1 t1] ok calls(1) show ?case
    by (simp add: tick case_prod_beta)
qed simp

section \<open>The retries end\<close>

definition attempts_left :: "ident \<Rightarrow> db \<Rightarrow> nat" where
  "attempts_left iid d = sum_list (map (\<lambda>r. MAX_ATTEMPTS - in_rcaLlmAttempts r) (filter (\<lambda>r. in_id r = iid) (incidents d)))"

lemma attempts_left_upd:
  assumes "\<And>r. in_id (f r) = in_id r" and "\<And>r. in_rcaLlmAttempts (f r) = in_rcaLlmAttempts r"
  shows "attempts_left iid (upd_incidents P f d) = attempts_left iid d"
proof -
  have "sum_list (map (\<lambda>r. MAX_ATTEMPTS - in_rcaLlmAttempts r) (filter (\<lambda>r. in_id r = iid) (update_many P f t)))
      = sum_list (map (\<lambda>r. MAX_ATTEMPTS - in_rcaLlmAttempts r) (filter (\<lambda>r. in_id r = iid) t))" for t
    by (induction t) (simp_all add: assms)
  then show ?thesis by (simp add: attempts_left_def upd_incidents_def)
qed

lemma attempts_left_lease:
  assumes "lease_one sb now i d = (d1, won)"
  shows "attempts_left iid d1 + (if i = iid then won else 0) = attempts_left iid d"
proof -
  have "sum_list (map (\<lambda>r. MAX_ATTEMPTS - in_rcaLlmAttempts r) (filter (\<lambda>r. in_id r = iid)
          (update_many (\<lambda>r. in_id r = i \<and> narrative_due sb r) (lease_upd l) t)))
        + (if i = iid then count_rows (\<lambda>r. in_id r = i \<and> narrative_due sb r) t else 0)
      = sum_list (map (\<lambda>r. MAX_ATTEMPTS - in_rcaLlmAttempts r) (filter (\<lambda>r. in_id r = iid) t))" for l t
    by (induction t) (auto simp: lease_upd_def narrative_due_def)
  then show ?thesis using assms by (auto simp: lease_one_def Let_def attempts_left_def)
qed

text \<open>Everything other programs do to the database while the loop makes one turn.\<close>

definition others :: "tick_env \<Rightarrow> (db \<Rightarrow> db) set" where
  "others e = {tk_sleep e} \<union> range (ce_before (tk_claims e)) \<union> range (ce_between (tk_claims e))
     \<union> range (\<lambda>k. se_during (tk_serve e k)) \<union> range (\<lambda>k. se_after (tk_serve e k))"

lemma others_in [simp]:
  "tk_sleep e \<in> others e" "ce_before (tk_claims e) k \<in> others e" "ce_between (tk_claims e) k \<in> others e"
  "se_during (tk_serve e k) \<in> others e" "se_after (tk_serve e k) \<in> others e"
  by (auto simp: others_def)

definition no_reset :: "ident \<Rightarrow> (db \<Rightarrow> db) \<Rightarrow> bool" where
  "no_reset iid w = (\<forall>d. attempts_left iid (w d) \<le> attempts_left iid d)"

lemma serve_attempts:
  assumes "no_reset iid (se_during e)" and "no_reset iid (se_after e)"
  shows "attempts_left iid (fst (serveNarrative e model c d)) \<le> attempts_left iid d"
proof -
  note upd = attempts_left_upd[where iid = iid and P = "same_findings c" and d = "se_during e d"]
  have "attempts_left iid (upd_incidents (same_findings c) (stored_upd model n) (se_during e d)) = attempts_left iid (se_during e d)"
    "attempts_left iid (upd_incidents (same_findings c) (failed_upd c now err) (se_during e d)) = attempts_left iid (se_during e d)"
    "attempts_left iid (upd_incidents (same_findings c) refused_upd (se_during e d)) = attempts_left iid (se_during e d)"
    "attempts_left iid (upd_incidents (\<lambda>r. in_id r = nc_id c) (\<lambda>r. r\<lparr>in_rcaLlmRequestedAt := None\<rparr>) (se_during e d))
       = attempts_left iid (se_during e d)" for n now err
    by (rule attempts_left_upd; simp add: stored_upd_def failed_upd_def refused_upd_def)+
  moreover have "attempts_left iid (add_event ev d') = attempts_left iid d'" for ev d' by (simp add: attempts_left_def add_event_def)
  moreover have "attempts_left iid (se_during e d) \<le> attempts_left iid d" using assms(1) by (simp add: no_reset_def)
  moreover have "attempts_left iid (se_after e d') \<le> attempts_left iid d'" for d' using assms(2) by (simp add: no_reset_def)
  ultimately show ?thesis
    by (auto simp: serveNarrative_def Let_def split: option.split sum.split) (metis order.trans)
qed

definition calls_for :: "ident \<Rightarrow> narrative_claim list \<Rightarrow> nat" where
  "calls_for iid cs = length (filter (\<lambda>c. nc_id c = iid) cs)"

lemma claim_each_attempts:
  assumes "\<forall>k. no_reset iid (ce_before e k) \<and> no_reset iid (ce_between e k)" and "claim_each e sb k is d = (d', cs)"
  shows "attempts_left iid d' + calls_for iid cs \<le> attempts_left iid d"
  using assms(2)
proof (induction "is" arbitrary: k d d' cs)
  case (Cons i "is")
  obtain d1 won where l: "lease_one sb (ce_now e k) i (ce_before e k d) = (d1, won)" by force
  have "attempts_left iid (ce_before e k d) \<le> attempts_left iid d" using assms(1) by (simp add: no_reset_def)
  with attempts_left_lease[OF l, of iid] have le: "attempts_left iid d1 + (if i = iid then won else 0) \<le> attempts_left iid d" by simp
  show ?case
  proof (cases "won = 1")
    case False
    then show ?thesis using Cons.IH[of "Suc k" d1 d' cs] Cons.prems le by (auto simp: l)
  next
    case True
    let ?d2 = "ce_between e k d1"
    obtain d3 rest where r: "claim_each e sb (Suc k) is ?d2 = (d3, rest)" by force
    have "attempts_left iid ?d2 \<le> attempts_left iid d1" using assms(1) by (simp add: no_reset_def)
    with Cons.IH[OF r] le True have "attempts_left iid d3 + calls_for iid rest + (if i = iid then 1 else 0) \<le> attempts_left iid d"
      by (auto split: if_splits)
    moreover have "d' = d3" "calls_for iid cs \<le> calls_for iid rest + (if i = iid then 1 else 0)"
      using Cons.prems True by (auto simp: l r Let_def claim_of_def calls_for_def split: option.splits dest: find_first_SomeD)
    ultimately show ?thesis by simp
  qed
qed (simp add: calls_for_def)

definition calls_to :: "ident \<Rightarrow> (ms \<times> ident) list \<Rightarrow> nat" where
  "calls_to iid calls = length (filter (\<lambda>c. snd c = iid) calls)"

lemma serve_each_attempts:
  assumes "\<forall>w \<in> others e. no_reset iid w"
  shows "attempts_left iid (nl_db (fst (serve_each e model k cs s))) \<le> attempts_left iid (nl_db s)
     \<and> calls_to iid (snd (serve_each e model k cs s)) \<le> calls_for iid cs"
proof (induction cs arbitrary: k s)
  case (Cons c cs)
  let ?s = "\<lparr>nl_calls = nl_calls s @ [tk_callAt e k], nl_db = fst (serveNarrative (tk_serve e k) model c (nl_db s))\<rparr>"
  have "attempts_left iid (nl_db ?s) \<le> attempts_left iid (nl_db s)"
    using serve_attempts[of iid "tk_serve e k" model c "nl_db s"] assms by simp
  with Cons.IH[of "Suc k" ?s] show ?case
    by (auto simp: Let_def case_prod_beta calls_for_def calls_to_def)
qed (simp add: calls_for_def calls_to_def)

lemma tick_attempts:
  assumes "\<forall>w \<in> others e. no_reset iid w" and "narrative_tick maxPerHour model e s = (s1, calls)"
  shows "attempts_left iid (nl_db s1) + calls_to iid calls \<le> attempts_left iid (nl_db s)"
proof -
  define w where "w = dropWhile (\<lambda>t. t < tk_now e - HOUR_MS) (nl_calls s)"
  define budget where "budget = min 3 (maxPerHour - int (length w))"
  obtain d cs where cl: "claimNarrativeRequests (tk_claims e) (tk_claimNow e) budget None (tk_sleep e (nl_db s)) = (d, cs)" by force
  then have run: "serve_each e model 0 cs \<lparr>nl_calls = w, nl_db = d\<rparr> = (s1, calls)"
    using assms(2) by (simp add: narrative_tick_def w_def budget_def Let_def)
  have "attempts_left iid d + calls_for iid cs \<le> attempts_left iid (tk_sleep e (nl_db s))"
    using cl assms(1) claim_each_attempts[of iid "tk_claims e"]
    by (auto simp: claimNarrativeRequests_def Let_def calls_for_def split: if_splits)
  moreover have "attempts_left iid (tk_sleep e (nl_db s)) \<le> attempts_left iid (nl_db s)"
    using assms(1) by (auto simp: no_reset_def)
  ultimately show ?thesis using serve_each_attempts[OF assms(1), of model 0 cs "\<lparr>nl_calls = w, nl_db = d\<rparr>"] run by simp
qed

lemma loop_attempts:
  assumes "\<forall>e \<in> set es. \<forall>w \<in> others e. no_reset iid w" and "runNarrativeLoop maxPerHour model es s = (s', calls)"
  shows "attempts_left iid (nl_db s') + calls_to iid calls \<le> attempts_left iid (nl_db s)"
  using assms
proof (induction es arbitrary: s s' calls)
  case (Cons e es)
  obtain s1 calls1 where t: "narrative_tick maxPerHour model e s = (s1, calls1)" by force
  obtain s2 more where r: "runNarrativeLoop maxPerHour model es s1 = (s2, more)" by force
  have "attempts_left iid (nl_db s1) + calls_to iid calls1 \<le> attempts_left iid (nl_db s)"
    by (rule tick_attempts[OF _ t]) (use Cons.prems(1) in simp)
  moreover have "attempts_left iid (nl_db s2) + calls_to iid more \<le> attempts_left iid (nl_db s1)"
    by (rule Cons.IH[OF _ r]) (use Cons.prems(1) in simp)
  moreover have "s' = s2" "calls = calls1 @ more" using Cons.prems(2) by (simp_all add: t r)
  ultimately show ?case by (simp add: calls_to_def)
qed (simp add: calls_to_def)

section \<open>Narratives and findings\<close>

text \<open>When the findings of an incident were computed: an incident without findings comes first.\<close>

fun stamp_less :: "ms option \<Rightarrow> ms option \<Rightarrow> bool" where
  "stamp_less a None = False"
| "stamp_less None (Some b) = True"
| "stamp_less (Some a) (Some b) = (a < b)"

definition stamp_le :: "ms option \<Rightarrow> ms option \<Rightarrow> bool" where
  "stamp_le a b = (a = b \<or> stamp_less a b)"

lemma stamp_trans: "stamp_le a b \<Longrightarrow> stamp_le b c \<Longrightarrow> stamp_le a c"
  by (cases a; cases b; cases c) (auto simp: stamp_le_def)

lemma stamp_not_less: "stamp_le a b \<Longrightarrow> \<not> stamp_less b a"
  by (cases a; cases b) (auto simp: stamp_le_def)

text \<open>Incidents stay, and an analysis that changes the findings is stamped later than the one before it.\<close>

definition analyses_advance :: "db \<Rightarrow> db \<Rightarrow> bool" where
  "analyses_advance d d' \<longleftrightarrow> in_id ` set (incidents d) \<subseteq> in_id ` set (incidents d')
     \<and> (\<forall>r \<in> set (incidents d). \<forall>r' \<in> set (incidents d'). in_id r' = in_id r \<longrightarrow>
          (in_rcaGeneratedAt r' = in_rcaGeneratedAt r \<and> in_rcaFindings r' = in_rcaFindings r)
          \<or> stamp_less (in_rcaGeneratedAt r) (in_rcaGeneratedAt r'))"

text \<open>What the model said about findings, through one of the clients of the run.\<close>

definition told :: "llm_client set \<Rightarrow> string \<Rightarrow> rca_findings \<Rightarrow> narrative \<Rightarrow> bool" where
  "told clients model f n \<longleftrightarrow> (\<exists>client \<in> clients. \<exists>inp. ni_findings inp = f \<and> requestNarrative client model inp = Inr (Some n))"

definition narrated :: "llm_client set \<Rightarrow> string \<Rightarrow> incident_row \<Rightarrow> bool" where
  "narrated clients model r \<longleftrightarrow> (in_rcaSummaryEn r = None \<and> in_rcaSummaryFr r = None) \<or>
     (\<exists>f n. in_rcaFindings r = Some f \<and> told clients model f n
        \<and> in_rcaSummaryEn r = Some (na_summaryEn n) \<and> in_rcaSummaryFr r = Some (na_summaryFr n))"

definition summaries_match :: "llm_client set \<Rightarrow> string \<Rightarrow> db \<Rightarrow> bool" where
  "summaries_match clients model d \<longleftrightarrow> distinct (map in_id (incidents d)) \<and> (\<forall>r \<in> set (incidents d). narrated clients model r)"

definition steady :: "llm_client set \<Rightarrow> string \<Rightarrow> (db \<Rightarrow> db) \<Rightarrow> bool" where
  "steady clients model w \<longleftrightarrow> (\<forall>d. summaries_match clients model d \<longrightarrow> summaries_match clients model (w d) \<and> analyses_advance d (w d))"

lemma steadyD: "steady cl model w \<Longrightarrow> summaries_match cl model d \<Longrightarrow> summaries_match cl model (w d) \<and> analyses_advance d (w d)"
  by (simp add: steady_def)

lemma advance_update:
  assumes "distinct (map in_id (incidents d))" and "incidents d' = update_many P f (incidents d)"
    and "\<And>r. in_id (f r) = in_id r" and "\<And>r. in_rcaGeneratedAt (f r) = in_rcaGeneratedAt r" and "\<And>r. in_rcaFindings (f r) = in_rcaFindings r"
  shows "analyses_advance d d'"
proof -
  have ids: "map in_id (incidents d') = map in_id (incidents d)" by (simp add: assms(2,3) map_update_many)
  have "in_rcaGeneratedAt r' = in_rcaGeneratedAt r \<and> in_rcaFindings r' = in_rcaFindings r"
    if "r \<in> set (incidents d)" "r' \<in> set (incidents d')" "in_id r' = in_id r" for r r'
  proof -
    from that(2) obtain q where q: "q \<in> set (incidents d)" "r' = (if P q then f q else q)" by (auto simp: assms(2) set_update_many)
    with that(3) assms(3) have "in_id q = in_id r" by (auto split: if_splits)
    with q(1) that(1) assms(1) have "q = r" by (auto simp: distinct_map dest: inj_onD)
    then show ?thesis using q(2) assms(4,5) by auto
  qed
  then show ?thesis unfolding analyses_advance_def using ids by (metis list.set_map order_refl)
qed

text \<open>An update of the narrative's bookkeeping, or of the summaries by what the model said of the findings.\<close>

lemma update_steady:
  assumes "summaries_match cl model d" and "incidents d' = update_many P f (incidents d)"
    and "\<And>r. in_id (f r) = in_id r" and "\<And>r. in_rcaGeneratedAt (f r) = in_rcaGeneratedAt r" and "\<And>r. in_rcaFindings (f r) = in_rcaFindings r"
    and "\<And>r. r \<in> set (incidents d) \<Longrightarrow> P r \<Longrightarrow> narrated cl model r \<Longrightarrow> narrated cl model (f r)"
  shows "summaries_match cl model d' \<and> analyses_advance d d'"
proof -
  have "map in_id (incidents d') = map in_id (incidents d)" by (simp add: assms(2,3) map_update_many)
  then have "summaries_match cl model d'"
    using assms(1,6) by (auto simp: summaries_match_def assms(2) set_update_many)
  then show ?thesis using advance_update[of d d' P f] assms by (simp add: summaries_match_def)
qed

lemma narrated_same:
  "in_rcaSummaryEn r' = in_rcaSummaryEn r \<Longrightarrow> in_rcaSummaryFr r' = in_rcaSummaryFr r \<Longrightarrow> in_rcaFindings r' = in_rcaFindings r
   \<Longrightarrow> narrated cl model r' = narrated cl model r"
  by (simp add: narrated_def)

lemma lease_steady:
  assumes "summaries_match cl model d" and "lease_one sb now i d = (d1, won)"
  shows "summaries_match cl model d1 \<and> analyses_advance d d1"
  by (rule update_steady[OF assms(1), where P = "\<lambda>r. in_id r = i \<and> narrative_due sb r" and f = "lease_upd (now + LEASE_MS)"])
    (use assms(2) in \<open>auto simp: lease_one_def Let_def lease_upd_def narrated_def\<close>)

text \<open>A claim is not newer than the incident it was read from.\<close>

definition claim_old :: "narrative_claim \<Rightarrow> db \<Rightarrow> bool" where
  "claim_old c d \<longleftrightarrow> (\<exists>r \<in> set (incidents d). in_id r = nc_id c)
     \<and> (\<forall>r \<in> set (incidents d). in_id r = nc_id c \<longrightarrow> stamp_le (nc_generatedAt c) (in_rcaGeneratedAt r))"

lemma claim_old_advance:
  assumes "claim_old c d" and "analyses_advance d d'"
  shows "claim_old c d'"
proof -
  from assms obtain r where r: "r \<in> set (incidents d)" "in_id r = nc_id c" "stamp_le (nc_generatedAt c) (in_rcaGeneratedAt r)"
    by (auto simp: claim_old_def)
  then obtain q where "q \<in> set (incidents d')" "in_id q = nc_id c" using assms(2) by (auto simp: analyses_advance_def image_iff)
  moreover have "stamp_le (nc_generatedAt c) (in_rcaGeneratedAt r')" if "r' \<in> set (incidents d')" "in_id r' = nc_id c" for r'
  proof -
    have "stamp_le (in_rcaGeneratedAt r) (in_rcaGeneratedAt r')"
      using assms(2) r(1,2) that by (force simp: analyses_advance_def stamp_le_def)
    with r(3) show ?thesis by (rule stamp_trans)
  qed
  ultimately show ?thesis by (auto simp: claim_old_def)
qed

lemma claim_of_old:
  assumes "distinct (map in_id (incidents d))" and "find_first (\<lambda>r. in_id r = i) (incidents d) = Some r"
  shows "claim_old (claim_of r) d"
proof -
  from find_first_SomeD[OF assms(2)] have r: "r \<in> set (incidents d)" by simp
  have "q = r" if "q \<in> set (incidents d)" "in_id q = in_id r" for q
    using that r assms(1) by (auto simp: distinct_map dest: inj_onD)
  with r show ?thesis by (auto simp: claim_old_def claim_of_def stamp_le_def)
qed

lemma advance_trans:
  assumes "analyses_advance d d'" and "analyses_advance d' d''"
  shows "analyses_advance d d''"
proof -
  have "(in_rcaGeneratedAt r'' = in_rcaGeneratedAt r \<and> in_rcaFindings r'' = in_rcaFindings r)
      \<or> stamp_less (in_rcaGeneratedAt r) (in_rcaGeneratedAt r'')"
    if "r \<in> set (incidents d)" "r'' \<in> set (incidents d'')" "in_id r'' = in_id r" for r r''
  proof -
    from that(1) assms(1) obtain r' where "r' \<in> set (incidents d')" "in_id r' = in_id r"
      by (auto simp: analyses_advance_def image_iff)
    then have "(in_rcaGeneratedAt r' = in_rcaGeneratedAt r \<and> in_rcaFindings r' = in_rcaFindings r) \<or> stamp_less (in_rcaGeneratedAt r) (in_rcaGeneratedAt r')"
      and "(in_rcaGeneratedAt r'' = in_rcaGeneratedAt r' \<and> in_rcaFindings r'' = in_rcaFindings r') \<or> stamp_less (in_rcaGeneratedAt r') (in_rcaGeneratedAt r'')"
      using that assms by (force simp: analyses_advance_def)+
    then show ?thesis
      by (cases "in_rcaGeneratedAt r"; cases "in_rcaGeneratedAt r'"; cases "in_rcaGeneratedAt r''") auto
  qed
  moreover have "in_id ` set (incidents d) \<subseteq> in_id ` set (incidents d'')"
    using assms by (meson analyses_advance_def order.trans)
  ultimately show ?thesis by (auto simp: analyses_advance_def)
qed

lemma advance_refl:
  assumes "summaries_match cl model d"
  shows "analyses_advance d d"
  by (rule advance_update[of d d "\<lambda>r. False" id]) (use assms in \<open>simp_all add: summaries_match_def update_many_none\<close>)

text \<open>The summary that is stored describes the findings it is stored with.\<close>

lemma stored_findings:
  assumes "claim_old c d" and "analyses_advance d d1" and "buildNarrativeInput now (nc_id c) d = Some inp"
    and "r \<in> set (incidents d1)" and "same_findings c r"
  shows "in_rcaFindings r = Some (ni_findings inp)"
proof -
  obtain q where q: "find_first (\<lambda>r. in_id r = nc_id c) (incidents d) = Some q" "in_rcaFindings q = Some (ni_findings inp)"
    by (rule buildNarrativeInput_Some[OF assms(3)])
  from find_first_SomeD[OF q(1)] have m: "q \<in> set (incidents d)" "in_id q = nc_id c" by auto
  then have "stamp_le (nc_generatedAt c) (in_rcaGeneratedAt q)" using assms(1) by (simp add: claim_old_def)
  with assms(5) have "\<not> stamp_less (in_rcaGeneratedAt q) (in_rcaGeneratedAt r)" by (auto simp: same_findings_def dest: stamp_not_less)
  moreover have "in_id r = in_id q" using assms(5) m(2) by (simp add: same_findings_def)
  ultimately show ?thesis using assms(2,4) m(1) q(2) by (force simp: analyses_advance_def)
qed

lemma add_event_steady: "summaries_match cl model (add_event ev d) = summaries_match cl model d"
  "analyses_advance d0 (add_event ev d) = analyses_advance d0 d"
  by (simp_all add: summaries_match_def analyses_advance_def add_event_def)

lemma serve_steady:
  assumes "steady cl model (se_during e)" and "steady cl model (se_after e)" and "se_client e \<in> cl"
    and "summaries_match cl model d" and "claim_old c d"
  shows "summaries_match cl model (fst (serveNarrative e model c d)) \<and> analyses_advance d (fst (serveNarrative e model c d))"
proof -
  define d1 where "d1 = se_during e d"
  have d1: "summaries_match cl model d1" "analyses_advance d d1"
    using steadyD[OF assms(1,4)] by (simp_all add: d1_def)
  have upd: "summaries_match cl model (upd_incidents P f d1) \<and> analyses_advance d (upd_incidents P f d1)"
    if "\<And>r. in_id (f r) = in_id r" "\<And>r. in_rcaGeneratedAt (f r) = in_rcaGeneratedAt r" "\<And>r. in_rcaFindings (f r) = in_rcaFindings r"
      "\<And>r. r \<in> set (incidents d1) \<Longrightarrow> P r \<Longrightarrow> narrated cl model r \<Longrightarrow> narrated cl model (f r)" for P f
    using update_steady[OF d1(1), of "upd_incidents P f d1" P f] that advance_trans[OF d1(2)] by (simp add: upd_incidents_def)
  show ?thesis
  proof (cases "buildNarrativeInput (se_readAt e) (nc_id c) d")
    case None
    show ?thesis using upd[of "\<lambda>r. r\<lparr>in_rcaLlmRequestedAt := None\<rparr>" "\<lambda>r. in_id r = nc_id c"]
      by (simp add: serveNarrative_def Let_def None narrated_def flip: d1_def)
  next
    case (Some inp)
    show ?thesis
    proof (cases "requestNarrative (se_client e) model inp")
      case (Inl err)
      show ?thesis using upd[of "failed_upd c (se_failedAt e) err" "same_findings c"]
        by (simp add: serveNarrative_def Let_def Some Inl narrated_def failed_upd_def flip: d1_def)
    next
      case (Inr answer)
      show ?thesis
      proof (cases answer)
        case None
        show ?thesis using upd[of refused_upd "same_findings c"]
          by (simp add: serveNarrative_def Let_def Some Inr None narrated_def refused_upd_def flip: d1_def)
      next
        case (Some n)
        let ?d2 = "upd_incidents (same_findings c) (stored_upd model n) d1"
        have "told cl model (ni_findings inp) n" using assms(3) Inr Some by (auto simp: told_def)
        moreover note found = stored_findings[OF assms(5) d1(2) \<open>buildNarrativeInput _ _ d = Some inp\<close>]
        ultimately have "narrated cl model (stored_upd model n r)" if "r \<in> set (incidents d1)" "same_findings c r" for r
          using found[OF that] by (auto simp: narrated_def stored_upd_def)
        then have two: "summaries_match cl model ?d2" "analyses_advance d ?d2"
          using upd[of "stored_upd model n" "same_findings c"] by (simp_all add: stored_upd_def)
        have "summaries_match cl model (se_after e ?d2)" "analyses_advance d (se_after e ?d2)"
          using steadyD[OF assms(2) two(1)] advance_trans[OF two(2)] by blast+
        with two \<open>buildNarrativeInput _ _ d = Some inp\<close> Inr Some show ?thesis
          by (simp add: serveNarrative_def Let_def add_event_steady flip: d1_def)
      qed
    qed
  qed
qed

lemma claim_each_steady:
  assumes "\<forall>k. steady cl model (ce_before e k) \<and> steady cl model (ce_between e k)" and "claim_each e sb k is d = (d', cs)"
    and "summaries_match cl model d"
  shows "summaries_match cl model d' \<and> analyses_advance d d' \<and> (\<forall>c \<in> set cs. claim_old c d')"
  using assms(2,3)
proof (induction "is" arbitrary: k d d' cs)
  case Nil
  then show ?case using advance_refl by auto
next
  case (Cons i "is")
  obtain d1 won where l: "lease_one sb (ce_now e k) i (ce_before e k d) = (d1, won)" by force
  have b: "summaries_match cl model (ce_before e k d)" "analyses_advance d (ce_before e k d)"
    using steadyD[OF _ Cons.prems(2)] assms(1) by blast+
  with lease_steady[OF b(1) l] have d1: "summaries_match cl model d1" "analyses_advance d d1" by (auto intro: advance_trans)
  show ?case
  proof (cases "won = 1")
    case False
    then have "claim_each e sb (Suc k) is d1 = (d', cs)" using Cons.prems(1) by (simp add: l)
    from Cons.IH[OF this d1(1)] d1(2) show ?thesis by (auto intro: advance_trans)
  next
    case True
    define d2 where "d2 = ce_between e k d1"
    have d2: "summaries_match cl model d2" "analyses_advance d1 d2"
      using steadyD[OF _ d1(1)] assms(1) by (auto simp: d2_def)
    obtain d3 rest where r: "claim_each e sb (Suc k) is d2 = (d3, rest)" by force
    note ih = Cons.IH[OF r d2(1)]
    have eq: "d' = d3" "cs = (case find_first (\<lambda>r. in_id r = i) (incidents d2) of None \<Rightarrow> rest | Some r \<Rightarrow> claim_of r # rest)"
      using Cons.prems(1) True by (simp_all add: l r Let_def flip: d2_def)
    have "claim_old (claim_of r) d3" if "find_first (\<lambda>r. in_id r = i) (incidents d2) = Some r" for r
      using claim_of_old[OF _ that] d2(1) ih by (auto simp: summaries_match_def intro: claim_old_advance)
    then show ?thesis using ih eq d1(2) d2(2) by (auto split: option.splits intro: advance_trans)
  qed
qed

lemma serve_each_steady:
  assumes "\<forall>w \<in> others e. steady cl model w" and "\<forall>k. se_client (tk_serve e k) \<in> cl"
    and "summaries_match cl model (nl_db s)" and "\<forall>c \<in> set cs. claim_old c (nl_db s)"
  shows "summaries_match cl model (nl_db (fst (serve_each e model k cs s)))"
  using assms(3,4)
proof (induction cs arbitrary: k s)
  case (Cons c cs)
  let ?s = "\<lparr>nl_calls = nl_calls s @ [tk_callAt e k], nl_db = fst (serveNarrative (tk_serve e k) model c (nl_db s))\<rparr>"
  have "summaries_match cl model (nl_db ?s) \<and> analyses_advance (nl_db s) (nl_db ?s)"
    using serve_steady[of cl model "tk_serve e k" "nl_db s" c] assms(1,2) Cons.prems by simp
  then have "summaries_match cl model (nl_db (fst (serve_each e model (Suc k) cs ?s)))"
    using Cons.IH[of ?s "Suc k"] Cons.prems(2) by (auto intro: claim_old_advance)
  then show ?case using Cons.prems(1) by (simp add: case_prod_beta Let_def)
qed simp

lemma tick_steady:
  assumes "\<forall>w \<in> others e. steady cl model w" and "\<forall>k. se_client (tk_serve e k) \<in> cl" and "summaries_match cl model (nl_db s)"
  shows "summaries_match cl model (nl_db (fst (narrative_tick maxPerHour model e s)))"
proof -
  define w where "w = dropWhile (\<lambda>t. t < tk_now e - HOUR_MS) (nl_calls s)"
  define budget where "budget = min 3 (maxPerHour - int (length w))"
  obtain d cs where cl: "claimNarrativeRequests (tk_claims e) (tk_claimNow e) budget None (tk_sleep e (nl_db s)) = (d, cs)" by force
  then have run: "narrative_tick maxPerHour model e s = serve_each e model 0 cs \<lparr>nl_calls = w, nl_db = d\<rparr>"
    by (simp add: narrative_tick_def w_def budget_def Let_def)
  have "summaries_match cl model (tk_sleep e (nl_db s))" using steadyD[OF _ assms(3)] assms(1) by simp
  then have "summaries_match cl model d \<and> (\<forall>c \<in> set cs. claim_old c d)"
    using cl claim_each_steady[of cl model "tk_claims e"] assms(1)
    by (auto simp: claimNarrativeRequests_def Let_def split: if_splits)
  then show ?thesis using serve_each_steady[OF assms(1,2), of "\<lparr>nl_calls = w, nl_db = d\<rparr>"] by (simp add: run)
qed

lemma loop_steady:
  assumes "\<forall>e \<in> set es. (\<forall>w \<in> others e. steady cl model w) \<and> (\<forall>k. se_client (tk_serve e k) \<in> cl)" and "summaries_match cl model (nl_db s)"
  shows "summaries_match cl model (nl_db (fst (runNarrativeLoop maxPerHour model es s)))"
  using assms
proof (induction es arbitrary: s)
  case (Cons e es)
  then show ?case using tick_steady[of e cl model s maxPerHour] by (simp add: case_prod_beta)
qed simp

text \<open>
  The analysis itself is such a step: it clears the summaries with the findings it replaces. Its clock is later
  than the stamps it finds.
\<close>

definition later_than_analyses :: "ms \<Rightarrow> db \<Rightarrow> bool" where
  "later_than_analyses now d = list_all (\<lambda>r. stamp_less (in_rcaGeneratedAt r) (Some now)) (incidents d)"

definition analysis_step :: "(ident \<Rightarrow> real) \<Rightarrow> dbgen \<Rightarrow> bool \<Rightarrow> ident \<Rightarrow> ident \<Rightarrow> ms \<Rightarrow> bool \<Rightarrow> db \<Rightarrow> db" where
  "analysis_step coll g wantsLlm orgId iid now force d =
     (if later_than_analyses now d then fst (refreshIncidentRca coll g wantsLlm orgId iid now force d) else d)"

lemma refresh_incidents:
  "incidents (fst (refreshIncidentRca coll g w orgId iid now force d)) = incidents d
   \<or> (\<exists>f. incidents (fst (refreshIncidentRca coll g w orgId iid now force d)) = update_many (\<lambda>r. in_id r = iid) (findings_upd w now f) (incidents d))"
  by (auto simp: refreshIncidentRca_def store_findings_def Let_def case_prod_beta split: option.split dest: find_first_SomeD)

lemma analysis_advances:
  assumes "later_than_analyses now d" and "distinct (map in_id (incidents d))" and "incidents d' = update_many (\<lambda>r. in_id r = iid) (findings_upd w now f) (incidents d)"
  shows "analyses_advance d d'"
proof -
  have ids: "map in_id (incidents d') = map in_id (incidents d)"
    unfolding assms(3) by (rule map_update_many) (simp add: findings_upd_def)
  have "(in_rcaGeneratedAt r' = in_rcaGeneratedAt r \<and> in_rcaFindings r' = in_rcaFindings r) \<or> stamp_less (in_rcaGeneratedAt r) (in_rcaGeneratedAt r')"
    if "r \<in> set (incidents d)" "r' \<in> set (incidents d')" "in_id r' = in_id r" for r r'
  proof -
    from that(2) obtain q where q: "q \<in> set (incidents d)" "r' = (if in_id q = iid then findings_upd w now f q else q)"
      by (auto simp: assms(3) set_update_many)
    then have "in_id q = in_id r" using that(3) by (auto simp: findings_upd_def split: if_splits)
    with q(1) that(1) assms(2) have "q = r" by (auto simp: distinct_map dest: inj_onD)
    then show ?thesis using q assms(1) by (auto simp: later_than_analyses_def list_all_iff findings_upd_def)
  qed
  then show ?thesis unfolding analyses_advance_def using ids by (metis list.set_map order_refl)
qed

lemma analysis_steady: "steady cl model (analysis_step coll g w orgId iid now force)"
  unfolding steady_def
proof (intro allI impI)
  fix d
  let ?d = "analysis_step coll g w orgId iid now force d"
  assume inv: "summaries_match cl model d"
  show "summaries_match cl model ?d \<and> analyses_advance d ?d"
  proof (cases "incidents ?d = incidents d")
    case True
    then show ?thesis using inv advance_refl[OF inv] by (simp add: summaries_match_def analyses_advance_def)
  next
    case False
    have late: "later_than_analyses now d" by (rule ccontr) (use False in \<open>simp add: analysis_step_def\<close>)
    obtain f where f: "incidents ?d = update_many (\<lambda>r. in_id r = iid) (findings_upd w now f) (incidents d)"
      using False late refresh_incidents[of coll g w orgId iid now force d] by (auto simp: analysis_step_def)
    have "map in_id (incidents ?d) = map in_id (incidents d)" unfolding f by (rule map_update_many) (simp add: findings_upd_def)
    moreover have "narrated cl model (findings_upd w now f r)" for r by (simp add: narrated_def findings_upd_def)
    ultimately have "summaries_match cl model ?d" using inv by (auto simp: summaries_match_def f set_update_many)
    moreover have "analyses_advance d ?d" by (rule analysis_advances[OF late _ f]) (use inv in \<open>simp add: summaries_match_def\<close>)
    ultimately show ?thesis by simp
  qed
qed

lemma id_steady: "steady cl model (\<lambda>d. d)"
  using advance_refl by (auto simp: steady_def)

section \<open>Properties\<close>

definition sample_findings :: rca_findings where
  "sample_findings = \<lparr>rf_verdict = V_not_mapped, rf_node = None, rf_rootCauses = [], rf_impacted = [], rf_blastRadius = (0, []),
     rf_sameSource = [], rf_correlated = [], rf_firstToStart = True, rf_confidence = 1 / 5\<rparr>"

definition sample_narrative_db :: db where
  "sample_narrative_db = empty_db\<lparr>incidents := [sample_incident\<lparr>in_rcaFindings := Some sample_findings, in_rcaGeneratedAt := Some 0,
     in_rcaLlmRequestedAt := Some 0\<rparr>]\<rparr>"

definition sample_tick :: "(db \<Rightarrow> db) \<Rightarrow> llm_client \<Rightarrow> ms \<Rightarrow> tick_env" where
  "sample_tick during client t = \<lparr>tk_sleep = \<lambda>d. d, tk_now = t, tk_claimNow = t,
     tk_claims = \<lparr>ce_before = \<lambda>k d. d, ce_now = \<lambda>k. t, ce_between = \<lambda>k d. d\<rparr>, tk_aborted = \<lambda>k. False, tk_callAt = \<lambda>k. t,
     tk_serve = \<lambda>k. \<lparr>se_readAt = t, se_client = client, se_during = during, se_failedAt = t, se_after = \<lambda>d. d,
       se_gen = \<lparr>clock = t, cuid = \<lambda>n. ''e''\<rparr>\<rparr>\<rparr>"

definition failing_client :: llm_client where
  "failing_client q = Inl (Api_error ''RateLimitError'' (Some 429))"

definition talking_client :: llm_client where
  "talking_client q = Inr \<lparr>lr_refusal = False, lr_parsed = Some ('' disk full '', ''disque plein'')\<rparr>"

lemmas narrative_run = sample_tick_def sample_narrative_db_def sample_incident_def narrative_tick_def claimNarrativeRequests_def
  lease_one_def lease_upd_def narrative_due_def claim_of_def serveNarrative_def buildNarrativeInput_def recent_values_def
  requestNarrative_def failed_upd_def stored_upd_def upd_incidents_def same_findings_def MAX_ATTEMPTS_def narrative_times
  find_many_def order_asc_def truthy_def or_null_def empty_db_def

text \<open>A worker starts with an empty window.\<close>

abbreviation new_loop :: "db \<Rightarrow> narrative_loop" where
  "new_loop d \<equiv> \<lparr>nl_calls = [], nl_db = d\<rparr>"

text \<open>C37. Cost guard: however the worker's turns, its claims and the other programs interleave, and whatever the model answers, a
  worker with a cap of \<open>maxPerHour\<close> never makes more than that many calls within an hour: any two calls that
  are \<open>maxPerHour\<close> apart in its history are more than an hour apart. (The worker's clock does not run backwards.)\<close>

theorem narrative_rate_capped:
  assumes "sorted (clock_readings maxPerHour model es (new_loop d))"
    and "i + nat maxPerHour < length (snd (runNarrativeLoop maxPerHour model es (new_loop d)))"
  shows "fst (snd (runNarrativeLoop maxPerHour model es (new_loop d)) ! i) + HOUR_MS
       < fst (snd (runNarrativeLoop maxPerHour model es (new_loop d)) ! (i + nat maxPerHour))"
proof -
  let ?r = "clock_readings maxPerHour model es (new_loop d)"
  have t0: "sorted (hd ?r # ?r)" using assms(1) by (cases ?r) auto
  have "hour_apart (nat maxPerHour) ([] @ map fst (snd (runNarrativeLoop maxPerHour model es (new_loop d))))"
    by (rule loop_hour_apart[OF _ _ t0]) (simp_all add: window_ok_def hour_apart_def)
  then show ?thesis using assms(2) by (simp add: hour_apart_def)
qed

definition capped_run :: "tick_env list" where
  "capped_run = [sample_tick (\<lambda>d. d) failing_client 100000, sample_tick (\<lambda>d. d) failing_client 3700000,
     sample_tick (\<lambda>d. d) failing_client 3700001]"

lemma capped_run_calls:
  "snd (runNarrativeLoop 1 ''m'' capped_run (new_loop sample_narrative_db)) = [(100000, ''i1''), (3700001, ''i1'')]"
  "clock_readings 1 ''m'' capped_run (new_loop sample_narrative_db) = [100000, 100000, 3700000, 3700001, 3700001]"
  by (simp_all add: capped_run_def narrative_run failing_client_def)

theorem narrative_rate_capped_witness:
  "fst (snd (runNarrativeLoop 1 ''m'' capped_run (new_loop sample_narrative_db)) ! 0) + HOUR_MS
     < fst (snd (runNarrativeLoop 1 ''m'' capped_run (new_loop sample_narrative_db)) ! 1)"
  using narrative_rate_capped[of 1 "''m''" capped_run sample_narrative_db 0] by (simp add: capped_run_calls)


text \<open>Four turns of a failing model: the fourth finds no attempt left.\<close>

definition exhausted_run :: "tick_env list" where
  "exhausted_run = map (\<lambda>k. sample_tick (\<lambda>d. d) failing_client (k * 1000000)) [1, 2, 3, 4]"

lemma exhausted_run_calls:
  "calls_to ''i1'' (snd (runNarrativeLoop 60 ''m'' exhausted_run (new_loop sample_narrative_db))) = 3"
  by (simp add: exhausted_run_def narrative_run failing_client_def calls_to_def)

lemma sample_tick_others: "others (sample_tick during client t) = {\<lambda>d. d, during}"
  by (auto simp: others_def sample_tick_def)

lemma sample_tick_client: "se_client (tk_serve (sample_tick during client t) k) = client"
  by (simp add: sample_tick_def)



text \<open>An analysis arrives while the model answers: the answer is dropped, and the next turn serves the new findings.\<close>

definition raced_run :: "tick_env list" where
  "raced_run = [sample_tick (analysis_step (\<lambda>i. 0) \<lparr>clock = 100001, cuid = \<lambda>n. ''a''\<rparr> True ''acme'' ''i1'' 100001 True) talking_client 100000,
     sample_tick (\<lambda>d. d) talking_client 200000]"

definition raced_end :: db where
  "raced_end = nl_db (fst (runNarrativeLoop 60 ''m'' raced_run (new_loop sample_narrative_db)))"


end
