(* ===== verification/Forms.thy ===== *)
theory Forms
  imports Totp Complex_Main "HOL-Library.Monad_Syntax"
begin

text \<open>
  What a server action reads and returns: the posted \<open>FormData\<close>, the schemas that check it, and the
  \<open>FormState\<close> of \<open>src/lib/form-state.ts\<close>.

  A form is the list of its entries in the order they were sent; \<open>Object.fromEntries\<close> keeps the last entry
  of a name, \<open>formData.get\<close> the first. A schema is a function from the value of a field (\<open>None\<close> when the
  field is absent) to the parsed value, or \<open>None\<close> when the value is refused. Numbers are exact: the text of a
  number stands for its value before rounding to a double.
\<close>

section \<open>Posted forms\<close>

datatype form_value = Form_text string | Form_file

type_synonym form_data = "(string \<times> form_value) list"

definition form_get :: "form_data \<Rightarrow> string \<Rightarrow> form_value option" where
  "form_get fd k = map_of fd k"

definition form_entry :: "form_data \<Rightarrow> string \<Rightarrow> form_value option" where
  "form_entry fd k = map_of (rev fd) k"

definition form_getAll :: "form_data \<Rightarrow> string \<Rightarrow> form_value list" where
  "form_getAll fd k = map snd (filter (\<lambda>e. fst e = k) fd)"

section \<open>Numbers as text\<close>

text \<open>\<open>Number(text)\<close>; \<open>None\<close> stands for NaN and for the infinities, which every use in the source refuses.\<close>

definition radix_digit :: "char \<Rightarrow> nat option" where
  "radix_digit c = (let n = code_unit c in
     if 48 \<le> n \<and> n \<le> 57 then Some (n - 48)
     else if 65 \<le> n \<and> n \<le> 70 then Some (n - 55)
     else if 97 \<le> n \<and> n \<le> 102 then Some (n - 87) else None)"

definition radix_value :: "nat \<Rightarrow> string \<Rightarrow> nat" where
  "radix_value base s = foldl (\<lambda>n c. base * n + (case radix_digit c of None \<Rightarrow> 0 | Some v \<Rightarrow> v)) 0 s"

definition radix_literal :: "nat \<Rightarrow> string \<Rightarrow> real option" where
  "radix_literal base s =
     (if s \<noteq> [] \<and> list_all (\<lambda>c. case radix_digit c of None \<Rightarrow> False | Some v \<Rightarrow> v < base) s
      then Some (real (radix_value base s)) else None)"

definition signed_digits :: "string \<Rightarrow> (bool \<times> string)" where
  "signed_digits s = (case s of [] \<Rightarrow> (False, [])
     | c # cs \<Rightarrow> if c = CHR ''-'' then (True, cs) else if c = CHR ''+'' then (False, cs) else (False, s))"

definition exponent_part :: "string \<Rightarrow> int option" where
  "exponent_part s = (case s of [] \<Rightarrow> Some 0
     | c # cs \<Rightarrow>
         let (neg, ds) = signed_digits cs
         in if c \<in> {CHR ''e'', CHR ''E''} \<and> ds \<noteq> [] \<and> list_all is_digit_char ds
            then Some (if neg then - int (radix_value 10 ds) else int (radix_value 10 ds)) else None)"

definition fraction_part :: "string \<Rightarrow> string \<times> string" where
  "fraction_part s = (case s of [] \<Rightarrow> ([], [])
     | c # cs \<Rightarrow> if c = CHR ''.'' then (takeWhile is_digit_char cs, dropWhile is_digit_char cs) else ([], s))"

definition scaled :: "nat \<Rightarrow> int \<Rightarrow> real" where
  "scaled m e = (if 0 \<le> e then real m * 10 ^ nat e else real m / 10 ^ nat (- e))"

definition decimal_literal :: "string \<Rightarrow> real option" where
  "decimal_literal s =
     (let i = takeWhile is_digit_char s; (f, rest) = fraction_part (dropWhile is_digit_char s)
      in if i = [] \<and> f = [] then None
         else map_option (\<lambda>e. scaled (radix_value 10 (i @ f)) (e - int (length f))) (exponent_part rest))"

definition js_number :: "string \<Rightarrow> real option" where
  "js_number text =
     (let s = js_trim text; tl2 = drop 2 s; hd2 = map lower_char (take 2 s) in
      if s = [] then Some 0
      else if hd2 = ''0x'' then radix_literal 16 tl2
      else if hd2 = ''0o'' then radix_literal 8 tl2
      else if hd2 = ''0b'' then radix_literal 2 tl2
      else let (neg, t) = signed_digits s in map_option (\<lambda>v. if neg then - v else v) (decimal_literal t))"

lemmas number_eval = js_number_def js_trim_def js_space_def code_unit_def lower_char_def signed_digits_def decimal_literal_def
  fraction_part_def exponent_part_def scaled_def radix_value_def radix_digit_def is_digit_char_def Let_def

section \<open>Schemas\<close>

definition f_string :: "form_value option \<Rightarrow> string option" where
  "f_string v = (case v of Some (Form_text s) \<Rightarrow> Some s | _ \<Rightarrow> None)"

definition f_when :: "('a \<Rightarrow> bool) \<Rightarrow> 'a option \<Rightarrow> 'a option" where
  "f_when P v = (case v of None \<Rightarrow> None | Some x \<Rightarrow> if P x then Some x else None)"

text \<open>\<open>z.string().min(lo).max(hi)\<close>, and the same after \<open>.trim()\<close>.\<close>

definition f_plain :: "nat \<Rightarrow> nat \<Rightarrow> form_value option \<Rightarrow> string option" where
  "f_plain lo hi v = f_when (\<lambda>s. lo \<le> length s \<and> length s \<le> hi) (f_string v)"

definition f_trimmed :: "nat \<Rightarrow> nat \<Rightarrow> form_value option \<Rightarrow> string option" where
  "f_trimmed lo hi v = f_when (\<lambda>s. lo \<le> length s \<and> length s \<le> hi) (map_option js_trim (f_string v))"

definition f_optional :: "(form_value option \<Rightarrow> 'a option) \<Rightarrow> form_value option \<Rightarrow> 'a option option" where
  "f_optional p v = (if v = None then Some None else map_option Some (p v))"

definition f_enum :: "(string \<times> 'a) list \<Rightarrow> form_value option \<Rightarrow> 'a option" where
  "f_enum names v = Option.bind (f_string v) (map_of names)"

definition f_number :: "real \<Rightarrow> real \<Rightarrow> form_value option \<Rightarrow> real option" where
  "f_number lo hi v = f_when (\<lambda>x. lo \<le> x \<and> x \<le> hi) (Option.bind (f_string v) js_number)"

definition f_int :: "int \<Rightarrow> int \<Rightarrow> form_value option \<Rightarrow> int option" where
  "f_int lo hi v =
     map_option floor (f_when (\<lambda>x. x = of_int (floor x)) (f_number (of_int lo) (of_int hi) v))"

definition idSchema :: "form_value option \<Rightarrow> string option" where
  "idSchema = f_plain 1 64"

definition f_bool :: "form_value option \<Rightarrow> bool option" where
  "f_bool = f_enum [(''true'', True), (''false'', False)]"

text \<open>A check box that is sent as \<open>"true"\<close> or not at all.\<close>

definition f_checked :: "form_value option \<Rightarrow> bool option" where
  "f_checked v = map_option (\<lambda>x. x \<noteq> None) (f_optional (f_enum [(''true'', ())]) v)"

definition f_array :: "(form_value option \<Rightarrow> 'a option) \<Rightarrow> form_value list \<Rightarrow> 'a list option" where
  "f_array p vs = (let rs = map (\<lambda>v. p (Some v)) vs in if None \<in> set rs then None else Some (map the rs))"

text \<open>\<open>text ? text.split(",").map(t => t.trim()).filter(Boolean) : []\<close>\<close>

definition comma_list :: "string option \<Rightarrow> string list" where
  "comma_list text = (case text of None \<Rightarrow> []
     | Some t \<Rightarrow> if t = [] then [] else filter (\<lambda>s. s \<noteq> []) (map js_trim (split_on (CHR '','') t)))"

text \<open>\<open>value || null\<close> for an optional text.\<close>

definition non_empty :: "string option \<Rightarrow> string option" where
  "non_empty v = Option.bind v or_null"

section \<open>What an action answers\<close>

text \<open>An action returns a form state or nothing, redirects, or throws (the framework then shows its error page).\<close>

datatype 'a reply =
    Form_error string "(string \<times> int) list"
  | Form_success "'a option" "(string \<times> int) list"
  | Redirect_to string string
  | No_reply
  | Raised

definition errorState :: "string \<Rightarrow> 'a reply" where
  "errorState code = Form_error code []"

definition success :: "'a reply" where
  "success = Form_success None []"

primrec is_error :: "'a reply \<Rightarrow> bool" where
  "is_error (Form_error c ps) = True"
| "is_error (Form_success v ps) = False"
| "is_error (Redirect_to href l) = False"
| "is_error No_reply = False"
| "is_error Raised = False"

section \<open>Lemmas\<close>

named_theorems schema_bounds \<open>what a schema guarantees of the values it accepts\<close>

lemma f_when_Some [simp]: "f_when P v = Some x \<longleftrightarrow> v = Some x \<and> P x"
  by (auto simp: f_when_def split: option.splits if_splits)

lemma f_plain_bounds [schema_bounds]: "f_plain lo hi v = Some s \<Longrightarrow> lo \<le> length s \<and> length s \<le> hi"
  by (simp add: f_plain_def)

lemma f_trimmed_bounds [schema_bounds]: "f_trimmed lo hi v = Some s \<Longrightarrow> lo \<le> length s \<and> length s \<le> hi"
  by (simp add: f_trimmed_def)

lemma f_number_bounds [schema_bounds]: "f_number lo hi v = Some x \<Longrightarrow> lo \<le> x \<and> x \<le> hi"
  by (simp add: f_number_def)

lemma f_int_bounds [schema_bounds]: "f_int lo hi v = Some n \<Longrightarrow> lo \<le> n \<and> n \<le> hi"
  by (auto simp: f_int_def f_number_def)

lemma f_optional_Some: "f_optional p v = Some (Some x) \<longleftrightarrow> v \<noteq> None \<and> p v = Some x"
  by (auto simp: f_optional_def)

lemma f_array_Some:
  assumes "f_array p vs = Some xs"
  shows "length xs = length vs \<and> (\<forall>x \<in> set xs. \<exists>v \<in> set vs. p (Some v) = Some x)"
  using assms by (auto simp: f_array_def Let_def image_iff split: if_splits) (metis option.collapse)

lemma comma_list_nonempty: "[] \<notin> set (comma_list t)"
  by (auto simp: comma_list_def split: option.splits)

lemma non_empty_Some: "non_empty v = Some s \<longleftrightarrow> v = Some s \<and> s \<noteq> []"
  by (cases v) (auto simp: non_empty_def or_null_def)

end
