(* ===== verification/Web.thy ===== *)
theory Web
  imports Request Permissions Sessions Forms
begin

text \<open>
  From a request to an identity: the cookies of \<open>src/lib/auth/session-cookie.ts\<close>, the data access layer
  \<open>src/lib/auth/dal.ts\<close> and the optimistic check of \<open>src/proxy.ts\<close>.

  The environment variables the code reads are a record, a request is its cookies, its headers and its
  language, and a response the cookies it sets. The language negotiation of \<open>next-intl\<close> is a parameter
  of the proxy: whether it answers with a redirect of its own.
\<close>

section \<open>Requests and responses\<close>

record web_config =
  wc_cookieSecure :: "string option"
  wc_nodeEnv :: "string option"
  wc_trustProxyHeaders :: "string option"
  wc_appBaseUrl :: "string option"
  wc_allowRegistration :: "string option"

record web_request =
  wq_cookies :: "(string \<times> string) list"
  wq_headers :: "string \<Rightarrow> string option"
  wq_locale :: string
  wq_now :: ms

record set_cookie =
  ck_name :: string
  ck_value :: string
  ck_httpOnly :: bool
  ck_secure :: bool
  ck_sameSite :: string
  ck_path :: string
  ck_maxAge :: "int option"
  ck_expires :: ms

section \<open>Cookies\<close>

definition SESSION_COOKIE_SECURE :: string where "SESSION_COOKIE_SECURE = ''__Host-ikm_session''"
definition SESSION_COOKIE_PLAIN :: string where "SESSION_COOKIE_PLAIN = ''ikm_session''"
definition TOTP_COOKIE_SECURE :: string where "TOTP_COOKIE_SECURE = ''__Host-ikm_totp''"
definition TOTP_COOKIE_PLAIN :: string where "TOTP_COOKIE_PLAIN = ''ikm_totp''"

lemmas cookie_names = SESSION_COOKIE_SECURE_def SESSION_COOKIE_PLAIN_def TOTP_COOKIE_SECURE_def TOTP_COOKIE_PLAIN_def

definition sessionCookieName :: "bool \<Rightarrow> string" where
  "sessionCookieName secure = (if secure then SESSION_COOKIE_SECURE else SESSION_COOKIE_PLAIN)"

definition totpCookieName :: "bool \<Rightarrow> string" where
  "totpCookieName secure = (if secure then TOTP_COOKIE_SECURE else TOTP_COOKIE_PLAIN)"

definition cookiesAreSecure :: "web_config \<Rightarrow> bool" where
  "cookiesAreSecure c =
     (if wc_cookieSecure c = Some ''true'' then True
      else if wc_cookieSecure c = Some ''false'' then False
      else wc_nodeEnv c = Some ''production'')"

definition readSessionToken :: "web_config \<Rightarrow> web_request \<Rightarrow> string option" where
  "readSessionToken c q = map_of (wq_cookies q) (sessionCookieName (cookiesAreSecure c))"

definition setSessionCookie :: "web_config \<Rightarrow> string \<Rightarrow> ms \<Rightarrow> set_cookie" where
  "setSessionCookie c token expiresAt =
     \<lparr>ck_name = sessionCookieName (cookiesAreSecure c), ck_value = token, ck_httpOnly = True, ck_secure = cookiesAreSecure c,
      ck_sameSite = ''lax'', ck_path = ''/'', ck_maxAge = None, ck_expires = expiresAt\<rparr>"

definition clearSessionCookie :: "web_config \<Rightarrow> set_cookie" where
  "clearSessionCookie c =
     \<lparr>ck_name = sessionCookieName (cookiesAreSecure c), ck_value = [], ck_httpOnly = True, ck_secure = cookiesAreSecure c,
      ck_sameSite = ''lax'', ck_path = ''/'', ck_maxAge = Some 0, ck_expires = 0\<rparr>"

definition readTotpChallengeToken :: "web_config \<Rightarrow> web_request \<Rightarrow> string option" where
  "readTotpChallengeToken c q = map_of (wq_cookies q) (totpCookieName (cookiesAreSecure c))"

definition setTotpChallengeCookie :: "web_config \<Rightarrow> string \<Rightarrow> ms \<Rightarrow> set_cookie" where
  "setTotpChallengeCookie c token expiresAt =
     \<lparr>ck_name = totpCookieName (cookiesAreSecure c), ck_value = token, ck_httpOnly = True, ck_secure = cookiesAreSecure c,
      ck_sameSite = ''lax'', ck_path = ''/'', ck_maxAge = None, ck_expires = expiresAt\<rparr>"

definition clearTotpChallengeCookie :: "web_config \<Rightarrow> set_cookie" where
  "clearTotpChallengeCookie c =
     \<lparr>ck_name = totpCookieName (cookiesAreSecure c), ck_value = [], ck_httpOnly = True, ck_secure = cookiesAreSecure c,
      ck_sameSite = ''lax'', ck_path = ''/'', ck_maxAge = Some 0, ck_expires = 0\<rparr>"

section \<open>The data access layer\<close>

definition trustProxyHeaders :: "web_config \<Rightarrow> bool" where
  "trustProxyHeaders c = (wc_trustProxyHeaders c \<noteq> Some ''false'')"

definition request_ip :: "web_config \<Rightarrow> web_request \<Rightarrow> string option" where
  "request_ip c q = clientIpFromHeaders (wq_headers q ''x-forwarded-for'') (trustProxyHeaders c)"

definition getRequestMeta :: "web_config \<Rightarrow> web_request \<Rightarrow> string option \<times> string option" where
  "getRequestMeta c q = (request_ip c q, wq_headers q ''user-agent'')"

definition strip_slashes :: "string \<Rightarrow> string" where
  "strip_slashes s = rev (dropWhile (\<lambda>c. c = CHR ''/'') (rev s))"

definition getBaseUrl :: "web_config \<Rightarrow> web_request \<Rightarrow> string" where
  "getBaseUrl c q =
     (case non_empty (map_option (\<lambda>u. strip_slashes (js_trim u)) (wc_appBaseUrl c)) of
        Some configured \<Rightarrow> configured
      | None \<Rightarrow>
          let host = (case wq_headers q ''x-forwarded-host'' of Some h \<Rightarrow> h
                | None \<Rightarrow> (case wq_headers q ''host'' of Some h \<Rightarrow> h | None \<Rightarrow> ''localhost:3000''));
              proto = (case wq_headers q ''x-forwarded-proto'' of Some p \<Rightarrow> p
                | None \<Rightarrow> if starts_with host ''localhost'' \<or> starts_with host ''127.0.0.1'' then ''http'' else ''https'')
          in proto @ ''://'' @ host)"

definition registrationOpen :: "web_config \<Rightarrow> bool" where
  "registrationOpen c = (wc_allowRegistration c = Some ''true'')"

definition getSession :: "(string \<Rightarrow> string) \<Rightarrow> web_config \<Rightarrow> web_request \<Rightarrow> db \<Rightarrow> db \<times> session_context option" where
  "getSession hashToken c q d =
     (case non_empty (readSessionToken c q) of
        None \<Rightarrow> (d, None)
      | Some token \<Rightarrow> validateSession hashToken token (wq_now q) d)"

record actor_context =
  ax_session :: session_context
  ax_actor :: actor

datatype authorization_error = Az_unauthenticated | Az_no_organization | Az_forbidden

primrec authorization_code :: "authorization_error \<Rightarrow> string" where
  "authorization_code Az_unauthenticated = ''unauthenticated''"
| "authorization_code Az_no_organization = ''no_organization''"
| "authorization_code Az_forbidden = ''forbidden''"

definition session_actor :: "web_config \<Rightarrow> web_request \<Rightarrow> session_context \<Rightarrow> session_membership \<Rightarrow> actor" where
  "session_actor c q s m = \<lparr>a_userId = su_id (sc_user s), a_email = su_email (sc_user s), a_orgId = sm_orgId m,
     a_role = sm_role m, a_ip = request_ip c q\<rparr>"

definition authorize ::
  "(string \<Rightarrow> string) \<Rightarrow> web_config \<Rightarrow> web_request \<Rightarrow> permission option \<Rightarrow> db
   \<Rightarrow> db \<times> (actor_context, authorization_error) result" where
  "authorize hashToken c q p d =
     (case getSession hashToken c q d of
        (d1, None) \<Rightarrow> (d1, fail Az_unauthenticated)
      | (d1, Some s) \<Rightarrow> (case sc_activeOrg s of
          None \<Rightarrow> (d1, fail Az_no_organization)
        | Some m \<Rightarrow>
            if (case p of None \<Rightarrow> False | Some perm \<Rightarrow> \<not> can (Some (sm_role m)) perm) then (d1, fail Az_forbidden)
            else (d1, ok \<lparr>ax_session = s, ax_actor = session_actor c q s m\<rparr>)))"

text \<open>Pages redirect where actions report the error.\<close>

primrec sign_in_page :: "authorization_error \<Rightarrow> string" where
  "sign_in_page Az_unauthenticated = ''/login''"
| "sign_in_page Az_no_organization = ''/no-organization''"
| "sign_in_page Az_forbidden = ''/forbidden''"

definition requireActor ::
  "(string \<Rightarrow> string) \<Rightarrow> web_config \<Rightarrow> web_request \<Rightarrow> permission option \<Rightarrow> db \<Rightarrow> db \<times> ((string \<times> string) + actor_context)" where
  "requireActor hashToken c q p d =
     (case authorize hashToken c q p d of
        (d1, ok x) \<Rightarrow> (d1, Inr x)
      | (d1, fail e) \<Rightarrow> (d1, Inl (sign_in_page e, wq_locale q)))"

definition requireSession ::
  "(string \<Rightarrow> string) \<Rightarrow> web_config \<Rightarrow> web_request \<Rightarrow> db \<Rightarrow> db \<times> ((string \<times> string) + session_context)" where
  "requireSession hashToken c q d =
     (case getSession hashToken c q d of
        (d1, Some s) \<Rightarrow> (d1, Inr s)
      | (d1, None) \<Rightarrow> (d1, Inl (''/login'', wq_locale q)))"

section \<open>The proxy\<close>

definition PUBLIC_PATH_PREFIXES :: "string list" where
  "PUBLIC_PATH_PREFIXES = [''/login'', ''/register'', ''/invite'', ''/totp'']"

definition locales :: "string list" where "locales = [''en'', ''fr'']"

text \<open>\<open>^/(en|fr)(?=/|$)\<close>: the locale and the rest of the path.\<close>

definition locale_prefix :: "string \<Rightarrow> (string \<times> string) option" where
  "locale_prefix pathname =
     Option.bind (find_first (\<lambda>l. starts_with pathname (CHR ''/'' # l)
         \<and> (let rest = drop (Suc (length l)) pathname in rest = [] \<or> starts_with rest ''/'')) locales)
       (\<lambda>l. Some (l, drop (Suc (length l)) pathname))"

definition is_public :: "string \<Rightarrow> bool" where
  "is_public path = list_ex (\<lambda>prefix. path = prefix \<or> starts_with path (prefix @ ''/'')) PUBLIC_PATH_PREFIXES"

datatype proxy_reply = Pass_on | To_login string string

definition proxy :: "bool \<Rightarrow> (string \<times> string) list \<Rightarrow> string \<Rightarrow> string \<Rightarrow> proxy_reply" where
  "proxy intl_redirects cookies pathname search =
     (if intl_redirects then Pass_on
      else case locale_prefix pathname of
        None \<Rightarrow> Pass_on
      | Some (l, rest) \<Rightarrow>
          let path = (if rest = [] then ''/'' else rest)
          in if is_public path then Pass_on
             else if map_of cookies SESSION_COOKIE_SECURE \<noteq> None \<or> map_of cookies SESSION_COOKIE_PLAIN \<noteq> None then Pass_on
             else To_login l (path @ search))"

section \<open>The shape of an action\<close>

text \<open>
  An action returns the database, the cookies it sets and its reply. \<open>with_session\<close>, \<open>with_actor\<close> and
  \<open>with_input\<close> are the early returns the actions begin with, \<open>settle\<close> is how they end:
  \<open>if (!result.ok) return errorState(result.error)\<close>, else a reply to the value.
\<close>

type_synonym 'a response = "db \<times> set_cookie list \<times> 'a reply"

record web_context =
  wx_hashToken :: "string \<Rightarrow> string"
  wx_config :: web_config
  wx_request :: web_request

definition refuse :: "string \<Rightarrow> db \<Rightarrow> 'a response" where
  "refuse code d = (d, [], errorState code)"

definition with_session :: "web_context \<Rightarrow> (session_context \<Rightarrow> db \<Rightarrow> 'a response) \<Rightarrow> db \<Rightarrow> 'a response" where
  "with_session x f d =
     (case getSession (wx_hashToken x) (wx_config x) (wx_request x) d of
        (d1, None) \<Rightarrow> refuse (authorization_code Az_unauthenticated) d1
      | (d1, Some s) \<Rightarrow> f s d1)"

definition with_actor ::
  "web_context \<Rightarrow> permission option \<Rightarrow> (actor_context \<Rightarrow> db \<Rightarrow> 'a response) \<Rightarrow> db \<Rightarrow> 'a response" where
  "with_actor x p f d =
     (case authorize (wx_hashToken x) (wx_config x) (wx_request x) p d of
        (d1, fail e) \<Rightarrow> refuse (authorization_code e) d1
      | (d1, ok a) \<Rightarrow> f a d1)"

definition with_input :: "'p option \<Rightarrow> string \<Rightarrow> ('p \<Rightarrow> db \<Rightarrow> 'a response) \<Rightarrow> db \<Rightarrow> 'a response" where
  "with_input parsed code f d = (case parsed of None \<Rightarrow> refuse code d | Some v \<Rightarrow> f v d)"

definition settle :: "('e \<Rightarrow> string) \<Rightarrow> ('v \<Rightarrow> 'a reply) \<Rightarrow> db \<times> ('v, 'e) result \<Rightarrow> 'a response" where
  "settle code answer r =
     (case r of (d, fail e) \<Rightarrow> refuse (code e) d | (d, ok v) \<Rightarrow> (d, [], answer v))"

end
