(* ===== verification/Resource_Actions.thy ===== *)
theory Resource_Actions
  imports Web Api Topology Incidents Checks
begin

text \<open>
  The server actions on the resources of an organization, \<open>src/app/actions/\<close>: \<open>hosts.ts\<close>, \<open>databases.ts\<close>,
  \<open>endpoints.ts\<close>, \<open>devices.ts\<close>, \<open>topology.ts\<close>, \<open>incidents.ts\<close>, \<open>alerts.ts\<close> and \<open>remediation.ts\<close>, each with the
  schema of its form. What an action draws or relies on is a parameter (\<open>resource_world\<close>), among it the
  address and URL checks of the schema library.
\<close>

record resource_world =
  rw_gen :: dbgen
  rw_gcm :: gcm
  rw_key :: "nat list"
  rw_agentRandom :: agent_random
  rw_deviceRandom :: device_random
  rw_parseUrl :: "string \<Rightarrow> url option"
  rw_parseCheckUrl :: "string \<Rightarrow> (url \<times> string) option"
  rw_isEmail :: "string \<Rightarrow> bool"
  rw_isUrl :: "string \<Rightarrow> bool"
  rw_senders :: senders
  rw_allowPrivateWebhooks :: bool
  rw_scriptSha256 :: "string \<Rightarrow> string"
  rw_collate :: "ident \<Rightarrow> real"
  rw_wantsLlm :: bool
  rw_random :: "real \<times> real"

section \<open>Names of the enumerations\<close>

definition names_of :: "('a \<Rightarrow> string) \<Rightarrow> 'a list \<Rightarrow> (string \<times> 'a) list" where
  "names_of name xs = map (\<lambda>x. (name x, x)) xs"

definition HttpMethod :: "(string \<times> http_method) list" where
  "HttpMethod = names_of method_name [GET, HEAD, POST, PUT, PATCH, DELETE, OPTIONS]"

definition NetworkDeviceType :: "(string \<times> network_device_type) list" where
  "NetworkDeviceType = names_of device_type_name [ROUTER, SWITCH, FIREWALL, AP, UPS, BMC, DEVICE_OTHER]"

definition SnmpVersion :: "(string \<times> snmp_version) list" where
  "SnmpVersion = names_of snmp_version_name [V1, V2C, V3]"

definition SnmpSecurityLevel :: "(string \<times> snmp_security_level) list" where
  "SnmpSecurityLevel = [(''NO_AUTH_NO_PRIV'', NO_AUTH_NO_PRIV), (''AUTH_NO_PRIV'', AUTH_NO_PRIV), (''AUTH_PRIV'', AUTH_PRIV)]"

definition SnmpAuthProtocol :: "(string \<times> snmp_auth_protocol) list" where
  "SnmpAuthProtocol = [(''MD5'', MD5), (''SHA'', SHA), (''SHA224'', SHA224), (''SHA256'', SHA256), (''SHA384'', SHA384), (''SHA512'', SHA512)]"

definition SnmpPrivProtocol :: "(string \<times> snmp_priv_protocol) list" where
  "SnmpPrivProtocol = [(''DES'', DES), (''AES'', AES), (''AES192'', AES192), (''AES256'', AES256)]"

definition TopologyNodeKind :: "(string \<times> topology_node_kind) list" where
  "TopologyNodeKind = names_of node_kind_name [NODE_HOST, NODE_NETWORK_DEVICE, NODE_DATABASE, NODE_ENDPOINT, NODE_SERVICE, NODE_EXTERNAL]"

definition DependencyKind :: "(string \<times> dependency_kind) list" where
  "DependencyKind = [(''DEPENDS_ON'', DEPENDS_ON), (''HOSTED_ON'', HOSTED_ON), (''CONNECTED_TO'', CONNECTED_TO), (''ROUTES_TO'', ROUTES_TO),
     (''REPLICATES_TO'', REPLICATES_TO)]"

definition Severity :: "(string \<times> severity) list" where
  "Severity = names_of severity_name [INFO, WARNING, CRITICAL]"

definition MetricSource :: "(string \<times> metric_source) list" where
  "MetricSource = names_of source_kind_name [HOST, NETWORK_DEVICE, NETWORK_INTERFACE, DATABASE, ENDPOINT]"

definition MetricType :: "(string \<times> metric_type) list" where
  "MetricType = names_of metric_name [
     CPU_USAGE_PERCENT, LOAD_AVERAGE_1M, MEMORY_USED_PERCENT, MEMORY_USED_BYTES, SWAP_USED_PERCENT, DISK_USED_PERCENT,
     DISK_USED_BYTES, DISK_READ_IOPS, DISK_WRITE_IOPS, DISK_READ_BPS, DISK_WRITE_BPS, NETWORK_IN_BPS, NETWORK_OUT_BPS,
     PROCESS_COUNT, UPTIME_SECONDS, TEMPERATURE_CELSIUS, POWER_WATTS, BANDWIDTH_IN_BPS, BANDWIDTH_OUT_BPS,
     BANDWIDTH_UTILIZATION_PERCENT, PACKET_LOSS_PERCENT, INTERFACE_ERRORS_PER_SEC, INTERFACE_CRC_ERRORS_PER_SEC, LATENCY_MS,
     DB_QPS, DB_ACTIVE_CONNECTIONS, DB_CONNECTION_USAGE_PERCENT, DB_CACHE_HIT_RATIO, DB_SLOW_QUERIES_PER_MIN,
     DB_DEADLOCKS_PER_MIN, DB_REPLICATION_LAG_SECONDS, DB_STORAGE_USED_BYTES, ENDPOINT_RESPONSE_MS, ENDPOINT_AVAILABLE,
     ENDPOINT_SSL_DAYS_LEFT]"

definition AlertOperator :: "(string \<times> alert_operator) list" where
  "AlertOperator = names_of operator_name [GT, GTE, LT, LTE, EQ, NEQ]"

definition AnomalySensitivity :: "(string \<times> anomaly_sensitivity) list" where
  "AnomalySensitivity = [(''LOW'', LOW), (''MEDIUM'', MEDIUM), (''HIGH'', HIGH)]"

definition NotificationChannel :: "(string \<times> notification_channel) list" where
  "NotificationChannel = names_of channel_name [EMAIL, SLACK, TEAMS, WEBHOOK, SMS, PUSH]"

definition ScriptRuntime :: "(string \<times> script_runtime) list" where
  "ScriptRuntime = names_of runtime_name [BASH, POWERSHELL, PYTHON]"

definition OsFamily :: "(string \<times> os_family) list" where
  "OsFamily = [(''WINDOWS'', WINDOWS), (''LINUX'', LINUX), (''MACOS'', MACOS), (''UNIX'', UNIX), (''OTHER'', OTHER)]"

section \<open>Error codes\<close>

primrec host_code :: "host_error \<Rightarrow> string" where
  "host_code HE_forbidden = ''forbidden''"
| "host_code HE_invalid_hostname = ''invalid_hostname''"
| "host_code HE_hostname_taken = ''hostname_taken''"
| "host_code HE_not_found = ''not_found''"

primrec database_code :: "database_write_error \<Rightarrow> string" where
  "database_code BE_forbidden = ''forbidden''"
| "database_code BE_not_found = ''not_found''"

primrec endpoint_code :: "endpoint_write_error \<Rightarrow> string" where
  "endpoint_code EE_forbidden = ''forbidden''"
| "endpoint_code EE_invalid_url = ''invalid_url''"
| "endpoint_code EE_not_found = ''not_found''"

primrec device_code :: "device_write_error \<Rightarrow> string" where
  "device_code DE_forbidden = ''forbidden''"
| "device_code DE_invalid_ip = ''invalid_ip''"
| "device_code DE_ip_taken = ''ip_taken''"
| "device_code DE_invalid_poller = ''invalid_poller''"
| "device_code DE_not_found = ''not_found''"

primrec topology_code :: "topology_write_error \<Rightarrow> string" where
  "topology_code TW_forbidden = ''forbidden''"
| "topology_code TW_invalid_ref = ''invalid_ref''"
| "topology_code TW_already_exists = ''already_exists''"
| "topology_code TW_not_found = ''not_found''"

primrec incident_code :: "incident_write_error \<Rightarrow> string" where
  "incident_code IW_forbidden = ''forbidden''"
| "incident_code IW_not_found = ''not_found''"
| "incident_code IW_invalid_status = ''invalid_status''"

primrec rule_code :: "alert_rule_write_error \<Rightarrow> string" where
  "rule_code AR_forbidden = ''forbidden''"
| "rule_code AR_invalid_source = ''invalid_source''"
| "rule_code AR_not_found = ''not_found''"
| "rule_code AR_condition_required = ''condition_required''"
| "rule_code AR_invalid_remediation = ''invalid_remediation''"
| "rule_code AR_invalid_webhook = ''invalid_webhook''"

primrec test_code :: "test_error \<Rightarrow> string" where
  "test_code T_forbidden = ''forbidden''"
| "test_code T_not_found = ''not_found''"
| "test_code T_no_channel = ''no_channel''"

primrec remediation_code :: "remediation_write_error \<Rightarrow> string" where
  "remediation_code RW_forbidden = ''forbidden''"
| "remediation_code RW_not_found = ''not_found''"
| "remediation_code RW_invalid_host = ''invalid_host''"
| "remediation_code RW_invalid_script = ''invalid_script''"
| "remediation_code RW_invalid_args = ''invalid_args''"

primrec execution_code :: "execution_write_error \<Rightarrow> string" where
  "execution_code EW_forbidden = ''forbidden''"
| "execution_code EW_not_found = ''not_found''"
| "execution_code EW_invalid_status = ''invalid_status''"

section \<open>Shared schemas\<close>

abbreviation form_id :: "form_data \<Rightarrow> ident option" where
  "form_id fd \<equiv> idSchema (form_get fd ''id'')"

definition toggleSchema :: "string \<Rightarrow> form_data \<Rightarrow> (ident \<times> bool) option" where
  "toggleSchema key fd = do {
     i \<leftarrow> idSchema (form_entry fd key);
     enabled \<leftarrow> f_bool (form_entry fd ''enabled'');
     Some (i, enabled) }"

abbreviation request_now :: "web_context \<Rightarrow> ms" where
  "request_now x \<equiv> wq_now (wx_request x)"

section \<open>Hosts\<close>

record issued_credentials =
  ic_hostname :: string
  ic_keyId :: string
  ic_secret :: string

definition registerHostSchema :: "form_data \<Rightarrow> (string \<times> string option) option" where
  "registerHostSchema fd = do {
     hostname \<leftarrow> f_trimmed 1 253 (form_entry fd ''hostname'');
     displayName \<leftarrow> f_optional (f_trimmed 0 120) (form_entry fd ''displayName'');
     Some (hostname, displayName) }"

definition registerHostAction :: "web_context \<Rightarrow> resource_world \<Rightarrow> form_data \<Rightarrow> db \<Rightarrow> issued_credentials response" where
  "registerHostAction x w fd = with_actor x (Some hosts_write) (\<lambda>a. with_input (registerHostSchema fd) ''invalid_hostname'' (\<lambda>(hostname, displayName) d.
     settle host_code (\<lambda>c. Form_success (Some \<lparr>ic_hostname = hostname, ic_keyId = hc_keyId c, ic_secret = hc_secret c\<rparr>) [])
       (registerHost (rw_gcm w) (rw_key w) (rw_agentRandom w) (rw_gen w) (ax_actor a) hostname displayName d)))"

text \<open>\<open>String(formData.get("hostname") ?? "")\<close>\<close>

definition form_display :: "form_value option \<Rightarrow> string" where
  "form_display v = (case v of None \<Rightarrow> [] | Some (Form_text s) \<Rightarrow> s | Some Form_file \<Rightarrow> ''[object File]'')"

definition rotateSecretAction :: "web_context \<Rightarrow> resource_world \<Rightarrow> form_data \<Rightarrow> db \<Rightarrow> issued_credentials response" where
  "rotateSecretAction x w fd = with_actor x (Some hosts_rotate_secret) (\<lambda>a. with_input (idSchema (form_get fd ''hostId'')) ''not_found'' (\<lambda>hostId d.
     settle host_code (\<lambda>c. Form_success (Some \<lparr>ic_hostname = form_display (form_get fd ''hostname''), ic_keyId = hc_keyId c, ic_secret = hc_secret c\<rparr>) [])
       (rotateHostSecret (rw_gcm w) (rw_key w) (rw_agentRandom w) (rw_gen w) (ax_actor a) hostId (request_now x) d)))"

definition toggleHostAction :: "web_context \<Rightarrow> resource_world \<Rightarrow> form_data \<Rightarrow> db \<Rightarrow> unit response" where
  "toggleHostAction x w fd = with_actor x (Some hosts_write) (\<lambda>a. with_input (toggleSchema ''hostId'' fd) ''not_found'' (\<lambda>(hostId, enabled) d.
     settle host_code (\<lambda>_. success) (setHostEnabled (rw_gen w) (ax_actor a) hostId enabled d)))"

section \<open>Databases\<close>

definition databaseSchema :: "form_data \<Rightarrow> database_settings option" where
  "databaseSchema fd = do {
     tags \<leftarrow> f_optional (f_trimmed 0 300) (form_entry fd ''tags'');
     slow \<leftarrow> f_int 1 600000 (form_entry fd ''slowQueryThresholdMs'');
     Some \<lparr>ds_tags = comma_list tags, ds_slowQueryThresholdMs = slow\<rparr> }"

definition updateDatabaseSettingsAction :: "web_context \<Rightarrow> resource_world \<Rightarrow> form_data \<Rightarrow> db \<Rightarrow> unit response" where
  "updateDatabaseSettingsAction x w fd = with_actor x (Some databases_write) (\<lambda>a. with_input (form_id fd) ''not_found'' (\<lambda>i.
     with_input (databaseSchema fd) ''generic'' (\<lambda>settings d.
       settle database_code (\<lambda>_. success) (updateDatabaseSettings (rw_gen w) (ax_actor a) i settings d))))"

definition toggleDatabaseAction :: "web_context \<Rightarrow> resource_world \<Rightarrow> form_data \<Rightarrow> db \<Rightarrow> unit response" where
  "toggleDatabaseAction x w fd = with_actor x (Some databases_write) (\<lambda>a. with_input (toggleSchema ''id'' fd) ''not_found'' (\<lambda>(i, enabled) d.
     settle database_code (\<lambda>_. success) (setDatabaseEnabled (rw_gen w) (ax_actor a) i enabled d)))"

section \<open>Endpoints\<close>

definition endpointSchema :: "form_data \<Rightarrow> endpoint_input option" where
  "endpointSchema fd = do {
     name \<leftarrow> f_trimmed 1 120 (form_entry fd ''name'');
     url \<leftarrow> f_trimmed 1 2048 (form_entry fd ''url'');
     method \<leftarrow> f_enum HttpMethod (form_entry fd ''method'');
     expectedStatus \<leftarrow> f_int 100 599 (form_entry fd ''expectedStatus'');
     expectedBodyContains \<leftarrow> f_optional (f_trimmed 0 500) (form_entry fd ''expectedBodyContains'');
     intervalSec \<leftarrow> f_int 10 86400 (form_entry fd ''intervalSec'');
     timeoutMs \<leftarrow> f_int 100 120000 (form_entry fd ''timeoutMs'');
     tags \<leftarrow> f_optional (f_trimmed 0 300) (form_entry fd ''tags'');
     followRedirects \<leftarrow> f_optional f_bool (form_entry fd ''followRedirects'');
     verifySsl \<leftarrow> f_optional f_bool (form_entry fd ''verifySsl'');
     sla \<leftarrow> f_number 0 100 (form_entry fd ''slaTargetPercent'');
     Some \<lparr>ei_name = name, ei_url = url, ei_method = method, ei_expectedStatus = expectedStatus,
       ei_expectedBodyContains = expectedBodyContains, ei_intervalSec = intervalSec, ei_timeoutMs = timeoutMs,
       ei_tags = comma_list tags, ei_followRedirects = (followRedirects \<noteq> Some False), ei_verifySsl = (verifySsl \<noteq> Some False),
       ei_slaTargetPercent = sla\<rparr> }"

definition createEndpointAction :: "web_context \<Rightarrow> resource_world \<Rightarrow> form_data \<Rightarrow> db \<Rightarrow> unit response" where
  "createEndpointAction x w fd = with_actor x (Some endpoints_write) (\<lambda>a. with_input (endpointSchema fd) ''invalid_url'' (\<lambda>inp d.
     settle endpoint_code (\<lambda>_. success) (createEndpoint (rw_parseCheckUrl w) (rw_gen w) (ax_actor a) inp d)))"

definition updateEndpointAction :: "web_context \<Rightarrow> resource_world \<Rightarrow> form_data \<Rightarrow> db \<Rightarrow> unit response" where
  "updateEndpointAction x w fd = with_actor x (Some endpoints_write) (\<lambda>a. with_input (form_id fd) ''not_found'' (\<lambda>i.
     with_input (endpointSchema fd) ''invalid_url'' (\<lambda>inp d.
       settle endpoint_code (\<lambda>_. success) (updateEndpoint (rw_parseCheckUrl w) (rw_gen w) (ax_actor a) i inp d))))"

definition toggleEndpointAction :: "web_context \<Rightarrow> resource_world \<Rightarrow> form_data \<Rightarrow> db \<Rightarrow> unit response" where
  "toggleEndpointAction x w fd = with_actor x (Some endpoints_write) (\<lambda>a. with_input (toggleSchema ''id'' fd) ''not_found'' (\<lambda>(i, enabled) d.
     settle endpoint_code (\<lambda>_. success) (setEndpointEnabled (rw_gen w) (ax_actor a) i enabled d)))"

definition deleteEndpointAction :: "web_context \<Rightarrow> resource_world \<Rightarrow> form_data \<Rightarrow> db \<Rightarrow> unit response" where
  "deleteEndpointAction x w fd = with_actor x (Some endpoints_write) (\<lambda>a. with_input (form_id fd) ''not_found'' (\<lambda>i d.
     settle endpoint_code (\<lambda>_. success) (deleteEndpoint (rw_gen w) (ax_actor a) i d)))"

definition checkEndpointNowAction :: "web_context \<Rightarrow> resource_world \<Rightarrow> form_data \<Rightarrow> db \<Rightarrow> unit response" where
  "checkEndpointNowAction x w fd = with_actor x (Some endpoints_check) (\<lambda>a. with_input (form_id fd) ''not_found'' (\<lambda>i d.
     settle endpoint_code (\<lambda>_. success) (requestEndpointCheck (ax_actor a) i d)))"

section \<open>Devices\<close>

definition deviceSchema :: "form_data \<Rightarrow> device_input option" where
  "deviceSchema fd = do {
     name \<leftarrow> f_trimmed 1 120 (form_entry fd ''name'');
     ipAddress \<leftarrow> f_trimmed 1 45 (form_entry fd ''ipAddress'');
     dtype \<leftarrow> f_enum NetworkDeviceType (form_entry fd ''type'');
     tags \<leftarrow> f_optional (f_trimmed 0 300) (form_entry fd ''tags'');
     pollerHostId \<leftarrow> f_optional (f_trimmed 0 64) (form_entry fd ''pollerHostId'');
     pollIntervalSec \<leftarrow> f_int 10 86400 (form_entry fd ''pollIntervalSec'');
     snmpVersion \<leftarrow> f_enum SnmpVersion (form_entry fd ''snmpVersion'');
     snmpPort \<leftarrow> f_int 1 65535 (form_entry fd ''snmpPort'');
     snmpTimeoutMs \<leftarrow> f_int 100 60000 (form_entry fd ''snmpTimeoutMs'');
     snmpRetries \<leftarrow> f_int 0 10 (form_entry fd ''snmpRetries'');
     community \<leftarrow> f_optional (f_trimmed 0 255) (form_entry fd ''snmpCommunity'');
     username \<leftarrow> f_optional (f_trimmed 0 255) (form_entry fd ''snmpV3Username'');
     level \<leftarrow> f_optional (f_enum SnmpSecurityLevel) (form_entry fd ''snmpV3SecurityLevel'');
     authProtocol \<leftarrow> f_optional (f_enum SnmpAuthProtocol) (form_entry fd ''snmpV3AuthProtocol'');
     authKey \<leftarrow> f_optional (f_trimmed 0 255) (form_entry fd ''snmpV3AuthKey'');
     privProtocol \<leftarrow> f_optional (f_enum SnmpPrivProtocol) (form_entry fd ''snmpV3PrivProtocol'');
     privKey \<leftarrow> f_optional (f_trimmed 0 255) (form_entry fd ''snmpV3PrivKey'');
     contextName \<leftarrow> f_optional (f_trimmed 0 255) (form_entry fd ''snmpV3ContextName'');
     Some \<lparr>di_name = name, di_ipAddress = ipAddress, di_type = dtype, di_tags = comma_list tags, di_pollerHostId = non_empty pollerHostId,
       di_pollIntervalSec = pollIntervalSec, di_snmpVersion = snmpVersion, di_snmpPort = snmpPort, di_snmpTimeoutMs = snmpTimeoutMs,
       di_snmpRetries = snmpRetries, di_snmpCommunity = non_empty community, di_snmpV3Username = non_empty username,
       di_snmpV3SecurityLevel = level, di_snmpV3AuthProtocol = authProtocol, di_snmpV3AuthKey = non_empty authKey,
       di_snmpV3PrivProtocol = privProtocol, di_snmpV3PrivKey = non_empty privKey, di_snmpV3ContextName = non_empty contextName\<rparr> }"

definition registerDeviceAction :: "web_context \<Rightarrow> resource_world \<Rightarrow> form_data \<Rightarrow> db \<Rightarrow> unit response" where
  "registerDeviceAction x w fd = with_actor x (Some devices_write) (\<lambda>a. with_input (deviceSchema fd) ''invalid_ip'' (\<lambda>inp d.
     settle device_code (\<lambda>_. success) (registerDevice (rw_gcm w) (rw_key w) (rw_deviceRandom w) (rw_gen w) (ax_actor a) inp d)))"

definition updateDeviceAction :: "web_context \<Rightarrow> resource_world \<Rightarrow> form_data \<Rightarrow> db \<Rightarrow> unit response" where
  "updateDeviceAction x w fd = with_actor x (Some devices_write) (\<lambda>a. with_input (form_id fd) ''not_found'' (\<lambda>i.
     with_input (deviceSchema fd) ''invalid_ip'' (\<lambda>inp d.
       settle device_code (\<lambda>_. success) (updateDevice (rw_gcm w) (rw_key w) (rw_deviceRandom w) (rw_gen w) (ax_actor a) i inp d))))"

definition toggleDeviceAction :: "web_context \<Rightarrow> resource_world \<Rightarrow> form_data \<Rightarrow> db \<Rightarrow> unit response" where
  "toggleDeviceAction x w fd = with_actor x (Some devices_write) (\<lambda>a. with_input (toggleSchema ''id'' fd) ''not_found'' (\<lambda>(i, enabled) d.
     settle device_code (\<lambda>_. success) (setDeviceEnabled (rw_gen w) (ax_actor a) i enabled d)))"

definition deleteDeviceAction :: "web_context \<Rightarrow> resource_world \<Rightarrow> form_data \<Rightarrow> db \<Rightarrow> unit response" where
  "deleteDeviceAction x w fd = with_actor x (Some devices_write) (\<lambda>a. with_input (form_id fd) ''not_found'' (\<lambda>i d.
     settle device_code (\<lambda>_. success) (deleteDevice (rw_gen w) (ax_actor a) i d)))"

section \<open>Topology\<close>

definition nodeSchema :: "real \<times> real \<Rightarrow> form_data \<Rightarrow> create_node_input option" where
  "nodeSchema random fd = do {
     kind \<leftarrow> f_enum TopologyNodeKind (form_entry fd ''kind'');
     refId \<leftarrow> f_optional (f_trimmed 0 64) (form_entry fd ''refId'');
     label \<leftarrow> f_trimmed 1 120 (form_entry fd ''label'');
     Some \<lparr>cn_kind = kind, cn_refId = non_empty refId, cn_label = label, cn_positionX = fst random * 500, cn_positionY = snd random * 400\<rparr> }"

definition createNodeAction :: "web_context \<Rightarrow> resource_world \<Rightarrow> form_data \<Rightarrow> db \<Rightarrow> unit response" where
  "createNodeAction x w fd = with_actor x (Some topology_write) (\<lambda>a. with_input (nodeSchema (rw_random w) fd) ''invalid_ref'' (\<lambda>inp d.
     settle topology_code (\<lambda>_. success) (createNode (rw_gen w) (ax_actor a) inp d)))"

definition deleteNodeAction :: "web_context \<Rightarrow> resource_world \<Rightarrow> form_data \<Rightarrow> db \<Rightarrow> unit response" where
  "deleteNodeAction x w fd = with_actor x (Some topology_write) (\<lambda>a. with_input (form_id fd) ''not_found'' (\<lambda>i d.
     settle topology_code (\<lambda>_. success) (deleteNode (rw_gen w) (ax_actor a) i d)))"

definition dependencySchema :: "form_data \<Rightarrow> create_dependency_input option" where
  "dependencySchema fd = do {
     p \<leftarrow> idSchema (form_entry fd ''parentNodeId'');
     c \<leftarrow> idSchema (form_entry fd ''childNodeId'');
     kind \<leftarrow> f_enum DependencyKind (form_entry fd ''kind'');
     criticality \<leftarrow> f_enum Severity (form_entry fd ''criticality'');
     label \<leftarrow> f_optional (f_trimmed 0 120) (form_entry fd ''label'');
     Some \<lparr>cd_parentNodeId = p, cd_childNodeId = c, cd_kind = kind, cd_criticality = criticality, cd_label = label\<rparr> }"

definition createDependencyAction :: "web_context \<Rightarrow> resource_world \<Rightarrow> form_data \<Rightarrow> db \<Rightarrow> unit response" where
  "createDependencyAction x w fd = with_actor x (Some topology_write) (\<lambda>a. with_input (dependencySchema fd) ''invalid_ref'' (\<lambda>inp d.
     settle topology_code (\<lambda>_. success) (createDependency (rw_gen w) (ax_actor a) inp d)))"

definition deleteDependencyAction :: "web_context \<Rightarrow> resource_world \<Rightarrow> form_data \<Rightarrow> db \<Rightarrow> unit response" where
  "deleteDependencyAction x w fd = with_actor x (Some topology_write) (\<lambda>a. with_input (form_id fd) ''not_found'' (\<lambda>i d.
     settle topology_code (\<lambda>_. success) (deleteDependency (rw_gen w) (ax_actor a) i d)))"

text \<open>These actions are called with values instead of a form.\<close>

definition coordinate :: "real \<Rightarrow> bool" where
  "coordinate v = (- 1000000 \<le> v \<and> v \<le> 1000000)"

definition id_value :: "string \<Rightarrow> bool" where
  "id_value s = (idSchema (Some (Form_text s)) \<noteq> None)"

definition positionSchema :: "ident \<times> real \<times> real \<Rightarrow> (ident \<times> real \<times> real) option" where
  "positionSchema p = (case p of (i, px, py) \<Rightarrow> if id_value i \<and> coordinate px \<and> coordinate py then Some p else None)"

definition updateNodePositionAction :: "web_context \<Rightarrow> ident \<Rightarrow> real \<Rightarrow> real \<Rightarrow> db \<Rightarrow> unit response" where
  "updateNodePositionAction x i px py d =
     (case authorize (wx_hashToken x) (wx_config x) (wx_request x) (Some topology_write) d of
        (d1, fail e) \<Rightarrow> (d1, [], No_reply)
      | (d1, ok a) \<Rightarrow> (case positionSchema (i, px, py) of
          None \<Rightarrow> (d1, [], No_reply)
        | Some (i', px', py') \<Rightarrow> (fst (updateNodePosition (ax_actor a) i' px' py' d1), [], No_reply)))"

definition connectNodesAction :: "web_context \<Rightarrow> resource_world \<Rightarrow> ident \<Rightarrow> ident \<Rightarrow> db \<Rightarrow> unit response" where
  "connectNodesAction x w p c = with_actor x (Some topology_write) (\<lambda>a.
     with_input (if id_value p \<and> id_value c then Some (p, c) else None) ''invalid_ref'' (\<lambda>(p', c') d.
       settle topology_code (\<lambda>_. success) (createDependency (rw_gen w) (ax_actor a)
         \<lparr>cd_parentNodeId = p', cd_childNodeId = c', cd_kind = DEPENDS_ON, cd_criticality = WARNING, cd_label = None\<rparr> d)))"

definition layoutSchema :: "(ident \<times> real \<times> real) list \<Rightarrow> (ident \<times> real \<times> real) list option" where
  "layoutSchema ps = (if length ps \<le> MAX_LAYOUT_NODES \<and> list_all (\<lambda>p. positionSchema p \<noteq> None) ps then Some ps else None)"

definition saveLayoutAction :: "web_context \<Rightarrow> (ident \<times> real \<times> real) list \<Rightarrow> db \<Rightarrow> unit response" where
  "saveLayoutAction x ps = with_actor x (Some topology_write) (\<lambda>a. with_input (layoutSchema ps) ''invalid_ref'' (\<lambda>ps' d.
     settle topology_code (\<lambda>_. success) (updateNodePositions (ax_actor a) ps' d)))"

section \<open>Incidents\<close>

definition acknowledgeIncidentAction :: "web_context \<Rightarrow> resource_world \<Rightarrow> form_data \<Rightarrow> db \<Rightarrow> unit response" where
  "acknowledgeIncidentAction x w fd = with_actor x (Some incidents_acknowledge) (\<lambda>a. with_input (form_id fd) ''not_found'' (\<lambda>i d.
     settle incident_code (\<lambda>_. success) (acknowledgeIncident (rw_gen w) (ax_actor a) i (request_now x) d)))"

definition resolveSchema :: "form_data \<Rightarrow> (ident \<times> string option) option" where
  "resolveSchema fd = do {
     i \<leftarrow> idSchema (form_entry fd ''id'');
     note \<leftarrow> f_optional (f_trimmed 0 2000) (form_entry fd ''note'');
     Some (i, non_empty note) }"

definition resolveIncidentAction :: "web_context \<Rightarrow> resource_world \<Rightarrow> form_data \<Rightarrow> db \<Rightarrow> unit response" where
  "resolveIncidentAction x w fd = with_actor x (Some incidents_acknowledge) (\<lambda>a. with_input (resolveSchema fd) ''not_found'' (\<lambda>(i, note) d.
     settle incident_code (\<lambda>_. success) (resolveIncident (rw_gen w) (ax_actor a) i note (request_now x) d)))"

definition reopenIncidentAction :: "web_context \<Rightarrow> resource_world \<Rightarrow> form_data \<Rightarrow> db \<Rightarrow> unit response" where
  "reopenIncidentAction x w fd = with_actor x (Some incidents_acknowledge) (\<lambda>a. with_input (form_id fd) ''not_found'' (\<lambda>i d.
     settle incident_code (\<lambda>_. success) (reopenIncident (rw_gen w) (ax_actor a) i d)))"

definition noteSchema :: "form_data \<Rightarrow> (ident \<times> string) option" where
  "noteSchema fd = do {
     i \<leftarrow> idSchema (form_entry fd ''id'');
     message \<leftarrow> f_trimmed 1 2000 (form_entry fd ''message'');
     Some (i, message) }"

definition addIncidentNoteAction :: "web_context \<Rightarrow> resource_world \<Rightarrow> form_data \<Rightarrow> db \<Rightarrow> unit response" where
  "addIncidentNoteAction x w fd = with_actor x (Some incidents_acknowledge) (\<lambda>a. with_input (noteSchema fd) ''generic'' (\<lambda>(i, message) d.
     settle incident_code (\<lambda>_. success) (addIncidentNote (rw_gen w) (ax_actor a) i message d)))"

definition reanalyzeIncidentAction :: "web_context \<Rightarrow> resource_world \<Rightarrow> form_data \<Rightarrow> db \<Rightarrow> unit response" where
  "reanalyzeIncidentAction x w fd = with_actor x (Some incidents_acknowledge) (\<lambda>a. with_input (form_id fd) ''not_found'' (\<lambda>i d.
     settle incident_code (\<lambda>_. success)
       (reanalyzeIncident (rw_collate w) (rw_gen w) (rw_wantsLlm w) (ax_actor a) i (request_now x) d)))"

section \<open>Alert rules\<close>

definition emailListSchema :: "(string \<Rightarrow> bool) \<Rightarrow> form_value option \<Rightarrow> string list option" where
  "emailListSchema isEmail v = f_when (list_all isEmail) (map_option comma_list (f_optional (f_trimmed 0 1000) v))"

definition http_scheme :: "string \<Rightarrow> bool" where
  "http_scheme s = (starts_with (map lower_char s) ''http://'' \<or> starts_with (map lower_char s) ''https://'')"

definition httpUrlSchema :: "(string \<Rightarrow> bool) \<Rightarrow> form_value option \<Rightarrow> string option option" where
  "httpUrlSchema isUrl v =
     f_when (\<lambda>u. case u of None \<Rightarrow> True | Some s \<Rightarrow> http_scheme s \<and> isUrl s) (map_option non_empty (f_optional (f_trimmed 0 500) v))"

definition operatorSchema :: "form_value option \<Rightarrow> alert_operator option option" where
  "operatorSchema v = map_option (\<lambda>r. Option.bind r id)
     (f_optional (f_enum (([], None) # map (\<lambda>(n, oper). (n, Some oper)) AlertOperator)) v)"

definition thresholdSchema :: "form_value option \<Rightarrow> real option option" where
  "thresholdSchema v = (case v of None \<Rightarrow> Some None
     | Some _ \<Rightarrow> (case map_option js_trim (f_string v) of
         None \<Rightarrow> None
       | Some t \<Rightarrow> if t = [] then Some None else map_option Some (js_number t)))"

definition ruleSchema :: "resource_world \<Rightarrow> form_data \<Rightarrow> alert_rule_input option" where
  "ruleSchema w fd = do {
     name \<leftarrow> f_trimmed 1 120 (form_entry fd ''name'');
     description \<leftarrow> f_optional (f_trimmed 0 500) (form_entry fd ''description'');
     sourceKind \<leftarrow> f_enum MetricSource (form_entry fd ''sourceKind'');
     sourceId \<leftarrow> f_optional (f_trimmed 0 64) (form_entry fd ''sourceId'');
     metric \<leftarrow> f_enum MetricType (form_entry fd ''metric'');
     instanceFilter \<leftarrow> f_optional (f_trimmed 0 200) (form_entry fd ''instanceFilter'');
     operator \<leftarrow> operatorSchema (form_entry fd ''operator'');
     threshold \<leftarrow> thresholdSchema (form_entry fd ''threshold'');
     anomalyDetection \<leftarrow> f_checked (form_entry fd ''anomalyDetection'');
     sensitivity \<leftarrow> f_optional (f_enum AnomalySensitivity) (form_entry fd ''anomalySensitivity'');
     durationSec \<leftarrow> f_int 0 86400 (form_entry fd ''durationSec'');
     severity \<leftarrow> f_enum Severity (form_entry fd ''severity'');
     channels \<leftarrow> f_array (f_enum NotificationChannel) (form_getAll fd ''channels'');
     emails \<leftarrow> emailListSchema (rw_isEmail w) (form_entry fd ''notifyEmails'');
     slack \<leftarrow> httpUrlSchema (rw_isUrl w) (form_entry fd ''slackWebhookUrl'');
     teams \<leftarrow> httpUrlSchema (rw_isUrl w) (form_entry fd ''teamsWebhookUrl'');
     webhook \<leftarrow> httpUrlSchema (rw_isUrl w) (form_entry fd ''webhookUrl'');
     cooldownSec \<leftarrow> f_int 60 86400 (form_entry fd ''cooldownSec'');
     remediation \<leftarrow> f_optional (f_trimmed 0 64) (form_entry fd ''remediationActionId'');
     auto \<leftarrow> f_checked (form_entry fd ''autoRemediate'');
     Some \<lparr>ri_name = name, ri_description = non_empty description, ri_ruleSourceKind = sourceKind, ri_ruleSourceId = non_empty sourceId,
       ri_ruleMetric = metric, ri_instanceFilter = non_empty instanceFilter,
       ri_operator = (if threshold = None then None else operator), ri_threshold = threshold,
       ri_anomalyDetection = anomalyDetection,
       ri_anomalySensitivity = (case sensitivity of None \<Rightarrow> MEDIUM | Some v \<Rightarrow> v),
       ri_durationSec = durationSec, ri_severity = severity, ri_channels = channels, ri_notifyEmails = emails,
       ri_slackWebhookUrl = slack, ri_teamsWebhookUrl = teams, ri_webhookUrl = webhook, ri_cooldownSec = cooldownSec,
       ri_remediationActionId = non_empty remediation, ri_autoRemediate = auto\<rparr> }"

definition createAlertRuleAction :: "web_context \<Rightarrow> resource_world \<Rightarrow> form_data \<Rightarrow> db \<Rightarrow> unit response" where
  "createAlertRuleAction x w fd = with_actor x (Some alerts_write) (\<lambda>a. with_input (ruleSchema w fd) ''generic'' (\<lambda>inp d.
     settle rule_code (\<lambda>_. success) (createAlertRule (rw_parseUrl w) (rw_gen w) (ax_actor a) inp (rw_allowPrivateWebhooks w) d)))"

definition updateAlertRuleAction :: "web_context \<Rightarrow> resource_world \<Rightarrow> form_data \<Rightarrow> db \<Rightarrow> unit response" where
  "updateAlertRuleAction x w fd = with_actor x (Some alerts_write) (\<lambda>a. with_input (form_id fd) ''not_found'' (\<lambda>i.
     with_input (ruleSchema w fd) ''generic'' (\<lambda>inp d.
       settle rule_code (\<lambda>_. success) (updateAlertRule (rw_parseUrl w) (rw_gen w) (ax_actor a) i inp (rw_allowPrivateWebhooks w) d))))"

definition toggleAlertRuleAction :: "web_context \<Rightarrow> resource_world \<Rightarrow> form_data \<Rightarrow> db \<Rightarrow> unit response" where
  "toggleAlertRuleAction x w fd = with_actor x (Some alerts_write) (\<lambda>a. with_input (toggleSchema ''id'' fd) ''not_found'' (\<lambda>(i, enabled) d.
     settle rule_code (\<lambda>_. success) (setAlertRuleEnabled (rw_gen w) (ax_actor a) i enabled d)))"

definition deleteAlertRuleAction :: "web_context \<Rightarrow> resource_world \<Rightarrow> form_data \<Rightarrow> db \<Rightarrow> unit response" where
  "deleteAlertRuleAction x w fd = with_actor x (Some alerts_write) (\<lambda>a. with_input (form_id fd) ''not_found'' (\<lambda>i d.
     settle rule_code (\<lambda>_. success) (deleteAlertRule (rw_gen w) (ax_actor a) i d)))"

text \<open>Only the channel, the outcome and the code go back to the browser.\<close>

type_synonym test_notification = "(notification_channel \<times> bool \<times> string option) list"

definition testAlertRuleNotificationAction :: "web_context \<Rightarrow> resource_world \<Rightarrow> form_data \<Rightarrow> db \<Rightarrow> test_notification response" where
  "testAlertRuleNotificationAction x w fd = with_actor x (Some alerts_write) (\<lambda>a. with_input (form_id fd) ''not_found'' (\<lambda>i d.
     settle test_code (\<lambda>rs. Form_success (Some (map (\<lambda>r. (cr_channel r, cr_ok r, cr_code r)) rs)) [])
       (sendTestNotification (rw_senders w) (rw_gen w) (ax_actor a) i (rw_allowPrivateWebhooks w)
          (Some (getBaseUrl (wx_config x) (wx_request x))) d)))"

section \<open>Remediation\<close>

text \<open>\<open>text.split(/\r?\n/)\<close>: a carriage return right before a line feed belongs to the separator.\<close>

definition strip_cr :: "string \<Rightarrow> string" where
  "strip_cr s = (if s \<noteq> [] \<and> last s = CHR 0x0D then butlast s else s)"

definition split_lines :: "string \<Rightarrow> string list" where
  "split_lines text = (let ps = split_on (CHR 0x0A) text in map strip_cr (butlast ps) @ [last ps])"

fun assoc_put :: "'k \<Rightarrow> 'v \<Rightarrow> ('k \<times> 'v) list \<Rightarrow> ('k \<times> 'v) list" where
  "assoc_put k v [] = [(k, v)]"
| "assoc_put k v ((k', v') # m) = (if k' = k then (k, v) # m else (k', v') # assoc_put k v m)"

definition arg_line :: "string \<Rightarrow> (string \<times> string) option" where
  "arg_line line =
     (let before = takeWhile (\<lambda>c. c \<noteq> CHR ''='') line;
          name = (if length before < length line then js_trim before else [])
      in if ARG_NAME name then Some (name, drop (Suc (length before)) line) else None)"

fun read_args :: "string list \<Rightarrow> (string \<times> string) list \<Rightarrow> (string \<times> string) list option" where
  "read_args [] args = Some args"
| "read_args (line # lines) args =
     (if js_trim line = [] then read_args lines args
      else case arg_line line of None \<Rightarrow> None | Some (name, v) \<Rightarrow> read_args lines (assoc_put name v args))"

definition argsSchema :: "form_value option \<Rightarrow> (string \<times> string) list option" where
  "argsSchema v = do {
     text \<leftarrow> f_optional (f_plain 0 20000) v;
     args \<leftarrow> read_args (split_lines (case text of None \<Rightarrow> [] | Some t \<Rightarrow> t)) [];
     if length args > MAX_ARGS then None else Some args }"

fun normalize_newlines :: "string \<Rightarrow> string" where
  "normalize_newlines [] = []"
| "normalize_newlines [c] = [c]"
| "normalize_newlines (c # c' # cs) =
     (if c = CHR 0x0D \<and> c' = CHR 0x0A then CHR 0x0A # normalize_newlines cs else c # normalize_newlines (c' # cs))"

definition scriptSchema :: "form_value option \<Rightarrow> string option" where
  "scriptSchema v = map_option normalize_newlines (f_plain 0 MAX_SCRIPT_BYTES v)"

text \<open>The first field that is refused decides the error.\<close>

definition field :: "'a option \<Rightarrow> string \<Rightarrow> ('a \<Rightarrow> ('b, string) result) \<Rightarrow> ('b, string) result" where
  "field v code f = (case v of None \<Rightarrow> fail code | Some y \<Rightarrow> f y)"

definition parseAction :: "form_data \<Rightarrow> (action_input, string) result" where
  "parseAction fd =
     field (f_trimmed 1 120 (form_entry fd ''name'')) ''generic'' (\<lambda>name.
     field (f_optional (f_trimmed 0 500) (form_entry fd ''description'')) ''generic'' (\<lambda>description.
     field (f_enum ScriptRuntime (form_entry fd ''runtime'')) ''generic'' (\<lambda>runtime.
     field (scriptSchema (form_entry fd ''scriptBody'')) ''invalid_script'' (\<lambda>scriptBody.
     field (argsSchema (form_entry fd ''args'')) ''invalid_args'' (\<lambda>args.
     field (f_int 1 3600 (form_entry fd ''timeoutSec'')) ''generic'' (\<lambda>timeoutSec.
     field (f_optional (f_trimmed 0 64) (form_entry fd ''targetHostId'')) ''generic'' (\<lambda>targetHostId.
     field (f_array (f_enum OsFamily) (form_getAll fd ''allowedOsFamilies'')) ''generic'' (\<lambda>families.
     field (f_checked (form_entry fd ''requiresApproval'')) ''generic'' (\<lambda>requiresApproval.
     field (f_int 0 86400 (form_entry fd ''cooldownSec'')) ''generic'' (\<lambda>cooldownSec.
     field (f_int 1 60 (form_entry fd ''maxRunsPerHour'')) ''generic'' (\<lambda>maxRunsPerHour.
       ok \<lparr>ai_name = name, ai_description = non_empty description, ai_runtime = runtime, ai_scriptBody = scriptBody, ai_args = args,
         ai_timeoutSec = timeoutSec, ai_targetHostId = non_empty targetHostId, ai_allowedOsFamilies = families,
         ai_requiresApproval = requiresApproval, ai_cooldownSec = cooldownSec, ai_maxRunsPerHour = nat maxRunsPerHour\<rparr>)))))))))))"

definition with_parsed :: "('p, string) result \<Rightarrow> ('p \<Rightarrow> db \<Rightarrow> 'a response) \<Rightarrow> db \<Rightarrow> 'a response" where
  "with_parsed parsed f d = (case parsed of fail code \<Rightarrow> refuse code d | ok v \<Rightarrow> f v d)"

definition createRemediationActionAction :: "web_context \<Rightarrow> resource_world \<Rightarrow> form_data \<Rightarrow> db \<Rightarrow> unit response" where
  "createRemediationActionAction x w fd = with_actor x (Some remediation_write) (\<lambda>a. with_parsed (parseAction fd) (\<lambda>inp d.
     settle remediation_code (\<lambda>_. success) (createRemediationAction (rw_scriptSha256 w) (rw_gen w) (ax_actor a) inp d)))"

definition updateRemediationActionAction :: "web_context \<Rightarrow> resource_world \<Rightarrow> form_data \<Rightarrow> db \<Rightarrow> unit response" where
  "updateRemediationActionAction x w fd = with_actor x (Some remediation_write) (\<lambda>a. with_input (form_id fd) ''not_found'' (\<lambda>i.
     with_parsed (parseAction fd) (\<lambda>inp d.
       settle remediation_code (\<lambda>_. success) (updateRemediationAction (rw_scriptSha256 w) (rw_gen w) (ax_actor a) i inp d))))"

definition toggleRemediationActionAction :: "web_context \<Rightarrow> resource_world \<Rightarrow> form_data \<Rightarrow> db \<Rightarrow> unit response" where
  "toggleRemediationActionAction x w fd = with_actor x (Some remediation_write) (\<lambda>a. with_input (toggleSchema ''id'' fd) ''not_found'' (\<lambda>(i, enabled) d.
     settle remediation_code (\<lambda>_. success) (setRemediationActionEnabled (rw_gen w) (ax_actor a) i enabled d)))"

definition deleteRemediationActionAction :: "web_context \<Rightarrow> resource_world \<Rightarrow> form_data \<Rightarrow> db \<Rightarrow> unit response" where
  "deleteRemediationActionAction x w fd = with_actor x (Some remediation_write) (\<lambda>a. with_input (form_id fd) ''not_found'' (\<lambda>i d.
     settle remediation_code (\<lambda>_. success) (deleteRemediationAction (rw_gen w) (ax_actor a) i d)))"

definition runSchema :: "form_data \<Rightarrow> (ident \<times> ident option) option" where
  "runSchema fd = do {
     actionId \<leftarrow> idSchema (form_entry fd ''actionId'');
     hostId \<leftarrow> f_optional (f_plain 0 64) (form_entry fd ''hostId'');
     Some (actionId, non_empty hostId) }"

definition runRemediationAction :: "web_context \<Rightarrow> resource_world \<Rightarrow> form_data \<Rightarrow> db \<Rightarrow> (string \<times> string option) response" where
  "runRemediationAction x w fd = with_actor x (Some remediation_run) (\<lambda>a. with_input (runSchema fd) ''not_found'' (\<lambda>(actionId, hostId) d.
     settle execution_code (\<lambda>e. Form_success (Some (status_name (ce_status e), map_option reason_name (ce_statusReason e))) [])
       (requestRun (rw_scriptSha256 w) (rw_gen w) (ax_actor a) actionId hostId (request_now x) d)))"

definition approveExecutionAction :: "web_context \<Rightarrow> resource_world \<Rightarrow> form_data \<Rightarrow> db \<Rightarrow> unit response" where
  "approveExecutionAction x w fd = with_actor x (Some remediation_run) (\<lambda>a. with_input (form_id fd) ''not_found'' (\<lambda>i d.
     settle execution_code (\<lambda>_. success) (approveExecution (rw_gen w) (ax_actor a) i (request_now x) d)))"

definition cancelExecutionAction :: "web_context \<Rightarrow> resource_world \<Rightarrow> form_data \<Rightarrow> db \<Rightarrow> unit response" where
  "cancelExecutionAction x w fd = with_actor x (Some remediation_run) (\<lambda>a. with_input (form_id fd) ''not_found'' (\<lambda>i d.
     settle execution_code (\<lambda>_. success) (cancelExecution (rw_gen w) (ax_actor a) i (request_now x) d)))"

section \<open>Arguments survive the form\<close>

text \<open>The default value of the field: \<open>Object.entries(action.args).map(([name, value]) => `${name}=${value}`).join("\n")\<close>\<close>

definition print_args :: "(string \<times> string) list \<Rightarrow> string" where
  "print_args args = str_join [CHR 0x0A] (map (\<lambda>(name, v). name @ ''='' @ v) args)"

text \<open>A value that fits on a line: no line feed, no carriage return at its end.\<close>

definition line_value :: "string \<Rightarrow> bool" where
  "line_value v = (CHR 0x0A \<notin> set v \<and> (v = [] \<or> last v \<noteq> CHR 0x0D))"

lemma arg_name_chars:
  assumes "ARG_NAME n"
  shows "n \<noteq> [] \<and> (\<forall>c \<in> set n. \<not> js_space c \<and> c \<noteq> CHR ''='' \<and> c \<noteq> CHR 0x0A)"
proof -
  have "\<not> js_space c \<and> c \<noteq> CHR ''='' \<and> c \<noteq> CHR 0x0A" if "arg_name_char c" for c
    using that by (auto simp: arg_name_char_def upper_letter_def js_space_def code_unit_def)
  moreover have "arg_name_char c" if "upper_letter c" for c using that by (simp add: arg_name_char_def)
  ultimately show ?thesis using assms by (auto simp: ARG_NAME_def list_all_iff split: list.splits)
qed

lemma arg_line_printed:
  assumes "ARG_NAME n"
  shows "arg_line (n @ ''='' @ v) = Some (n, v)"
proof -
  note c = arg_name_chars[OF assms]
  have "takeWhile (\<lambda>c. c \<noteq> CHR ''='') (n @ ''='' @ v) = n" using c by (subst takeWhile_append2) auto
  moreover have "js_trim n = n" by (rule js_trim_fixed) (use c in auto)
  ultimately show ?thesis using assms by (simp add: arg_line_def Let_def)
qed

lemma printed_line_shown:
  assumes "ARG_NAME n"
  shows "js_trim (n @ ''='' @ v) \<noteq> []"
proof -
  have "\<not> js_space (CHR ''='')" by (simp add: js_space_def code_unit_def)
  then have "CHR ''='' \<in> set (dropWhile js_space (n @ ''='' @ v))" using arg_name_chars[OF assms] by (cases n) auto
  then have "\<exists>c \<in> set (dropWhile js_space (n @ ''='' @ v)). \<not> js_space c" using \<open>\<not> js_space _\<close> by blast
  then show ?thesis by (auto simp: js_trim_def dropWhile_eq_Nil_conv)
qed

lemma assoc_put_new: "k \<notin> fst ` set m \<Longrightarrow> assoc_put k v m = m @ [(k, v)]"
  by (induction m) auto

lemma read_args_printed:
  assumes "list_all (\<lambda>a. ARG_NAME (fst a)) args" and "distinct (map fst (acc @ args))"
  shows "read_args (map (\<lambda>(name, v). name @ ''='' @ v) args) acc = Some (acc @ args)"
  using assms
proof (induction args arbitrary: acc)
  case (Cons a args)
  obtain n v where a: "a = (n, v)" by force
  have "read_args (map (\<lambda>(name, v). name @ ''='' @ v) args) (acc @ [(n, v)]) = Some ((acc @ [(n, v)]) @ args)"
    by (rule Cons.IH) (use Cons.prems a in auto)
  then show ?case
    using Cons.prems a arg_line_printed[of n v] printed_line_shown[of n v] assoc_put_new[of n acc v] by simp
qed simp

lemma split_lines_printed:
  assumes "list_all (\<lambda>a. ARG_NAME (fst a) \<and> line_value (snd a)) args" and "args \<noteq> []"
  shows "split_lines (print_args args) = map (\<lambda>(name, v). name @ ''='' @ v) args"
proof -
  let ?ls = "map (\<lambda>(name, v). name @ ''='' @ v) args"
  have "list_all (list_all (\<lambda>c. c \<noteq> CHR 0x0A)) ?ls"
    using assms(1) by (fastforce simp: list_all_iff line_value_def dest: arg_name_chars)
  then have "split_on (CHR 0x0A) (print_args args) = ?ls" unfolding print_args_def by (intro split_on_join) (use assms(2) in auto)
  moreover have one: "strip_cr (n @ ''='' @ v) = n @ ''='' @ v" if "line_value v" for n v
    using that by (cases "v = []") (auto simp: strip_cr_def line_value_def)
  have "strip_cr l = l" if "l \<in> set ?ls" for l
  proof -
    from that obtain n v where l: "l = n @ ''='' @ v" "(n, v) \<in> set args" by auto
    with assms(1) show ?thesis using one[of v n] by (fastforce simp: list_all_iff)
  qed
  then have "map strip_cr (butlast ?ls) = butlast ?ls" by (intro map_idI) (auto dest: in_set_butlastD)
  ultimately show ?thesis using assms(2) by (simp only: split_lines_def Let_def) simp
qed

text \<open>C38. Saving the form of a remediation action without touching it keeps its arguments: the text the form shows for a set of
  arguments is read back as the same arguments, in the same order, for names the agent accepts and values that fit on a line
  (at most \<open>MAX_ARGS\<close> of them, 20000 characters in all).\<close>

theorem args_form_roundtrip:
  assumes "list_all (\<lambda>a. ARG_NAME (fst a) \<and> line_value (snd a)) args" and "distinct (map fst args)"
    and "length args \<le> MAX_ARGS" and "length (print_args args) \<le> 20000"
  shows "argsSchema (Some (Form_text (print_args args))) = Some args"
proof (cases "args = []")
  case True
  then show ?thesis
    by (simp add: argsSchema_def print_args_def f_optional_def f_plain_def f_string_def f_when_def split_lines_def js_trim_def)
next
  case False
  have names: "list_all (\<lambda>a. ARG_NAME (fst a)) args" using assms(1) by (auto simp: list_all_iff)
  have "read_args (map (\<lambda>(name, v). name @ ''='' @ v) args) [] = Some args"
    using read_args_printed[OF names, of "[]"] assms(2) by simp
  then show ?thesis using split_lines_printed[OF assms(1) False] assms(3,4)
    by (simp add: argsSchema_def f_optional_def f_plain_def f_string_def f_when_def)
qed

theorem args_form_roundtrip_witness:
  "argsSchema (Some (Form_text (print_args [(''UNIT'', ''nginx''), (''OPTS'', ''--a=b c'')]))) = Some [(''UNIT'', ''nginx''), (''OPTS'', ''--a=b c'')]"
  by (rule args_form_roundtrip)
    (simp_all add: ARG_NAME_def arg_name_char_def upper_letter_def code_unit_def line_value_def print_args_def MAX_ARGS_def)

end
