(* ===== verification/Session_Actions.thy ===== *)
theory Session_Actions
  imports Web Login Invitations
begin

text \<open>
  The server actions of \<open>src/app/actions/session.ts\<close>, \<open>onboarding.ts\<close> and \<open>members.ts\<close>: signing in and out,
  the second factor, passwords, sign-up, invitations and members. Each is the whole handler: who is calling,
  what the form says, the business function, the cookies and the reply. The random draws of one request,
  the cryptographic functions and the drawing of the QR code are parameters (\<open>session_world\<close>); so are the
  translated texts of the invitation mail. \<open>revalidatePath\<close> only drops cached pages and is left out.
\<close>

record session_world =
  sw_passwords :: password_functions
  sw_hmac :: hmac
  sw_encrypt :: cipher
  sw_decrypt :: decipher
  sw_gen :: "nat \<Rightarrow> dbgen"
  sw_token :: string
  sw_housekeeping :: bool
  sw_secretBytes :: "byte list"
  sw_codeBytes :: "nat \<Rightarrow> byte list"
  sw_qr :: "string \<Rightarrow> string"
  sw_foldAccents :: "string \<Rightarrow> string"
  sw_slugSuffix :: "nat \<Rightarrow> string"

section \<open>Error codes\<close>

primrec policy_code :: "policy_error \<Rightarrow> string" where
  "policy_code too_short = ''too_short''"
| "policy_code too_long = ''too_long''"
| "policy_code common = ''common''"
| "policy_code contains_email = ''contains_email''"
| "policy_code repetitive = ''repetitive''"

primrec create_user_code :: "create_user_error \<Rightarrow> string" where
  "create_user_code CU_invalid_email = ''invalid_email''"
| "create_user_code CU_email_taken = ''email_taken''"
| "create_user_code (CU_policy e) = policy_code e"

primrec change_password_code :: "change_password_error \<Rightarrow> string" where
  "change_password_code CP_invalid_current_password = ''invalid_current_password''"
| "change_password_code CP_throttled = ''throttled''"
| "change_password_code CP_not_found = ''not_found''"
| "change_password_code (CP_policy e) = policy_code e"

primrec totp_credential_code :: "totp_credential_error \<Rightarrow> string" where
  "totp_credential_code TC_invalid_password = ''invalid_password''"
| "totp_credential_code TC_throttled = ''throttled''"
| "totp_credential_code TC_not_enabled = ''not_enabled''"

primrec invite_code :: "invite_error \<Rightarrow> string" where
  "invite_code IE_forbidden = ''forbidden''"
| "invite_code IE_invalid_email = ''invalid_email''"
| "invite_code IE_role_not_allowed = ''role_not_allowed''"
| "invite_code IE_already_member = ''already_member''"
| "invite_code IE_not_found = ''not_found''"

primrec accept_code :: "accept_error \<Rightarrow> string" where
  "accept_code AE_invalid_or_expired = ''invalid_or_expired''"
| "accept_code AE_sign_in_required = ''sign_in_required''"
| "accept_code AE_email_mismatch = ''email_mismatch''"
| "accept_code AE_account_required = ''account_required''"
| "accept_code (AE_create e) = create_user_code e"

primrec member_code :: "member_error \<Rightarrow> string" where
  "member_code M_forbidden = ''forbidden''"
| "member_code M_not_found = ''not_found''"
| "member_code M_last_owner = ''last_owner''"
| "member_code M_cannot_change_own_role = ''cannot_change_own_role''"

section \<open>Signing in and out\<close>

record login_form =
  lf_email :: string
  lf_password :: string
  lf_next :: "string option"

definition loginSchema :: "form_data \<Rightarrow> login_form option" where
  "loginSchema fd = do {
     email \<leftarrow> f_trimmed 1 254 (form_entry fd ''email'');
     password \<leftarrow> f_plain 1 1024 (form_entry fd ''password'');
     nextPath \<leftarrow> f_optional (f_plain 0 512) (form_entry fd ''next'');
     Some \<lparr>lf_email = email, lf_password = password, lf_next = nextPath\<rparr> }"

definition loginAction :: "web_context \<Rightarrow> session_world \<Rightarrow> form_data \<Rightarrow> db \<Rightarrow> unit response" where
  "loginAction x w fd = with_input (loginSchema fd) ''required'' (\<lambda>p d.
     let (ip, userAgent) = getRequestMeta (wx_config x) (wx_request x);
         l = wq_locale (wx_request x);
         href = safeNextPath (lf_next p) ''/''
     in case signIn (wx_hashToken x) (sw_passwords w)
          \<lparr>sd_gen = sw_gen w 0, sd_token = sw_token w, sd_housekeeping = sw_housekeeping w\<rparr>
          \<lparr>si_email = lf_email p, si_password = lf_password p, si_ip = ip, si_userAgent = userAgent,
           si_nextPath = Some href, si_now = wq_now (wx_request x)\<rparr> d of
          (d1, SI_throttled retryAfterSeconds) \<Rightarrow>
            (d1, [], Form_error ''throttled'' [(''minutes'', max 1 (ceil_div retryAfterSeconds 60))])
        | (d1, SI_totp_required challenge expiresAt) \<Rightarrow>
            (d1, [setTotpChallengeCookie (wx_config x) challenge expiresAt], Redirect_to ''/totp'' l)
        | (d1, SI_invalid_credentials) \<Rightarrow> refuse ''invalid_credentials'' d1
        | (d1, SI_ok token expiresAt uid email ul) \<Rightarrow>
            (d1, [setSessionCookie (wx_config x) token expiresAt], Redirect_to href l))"

definition totpCodeSchema :: "form_data \<Rightarrow> string option" where
  "totpCodeSchema fd = f_trimmed 1 64 (form_entry fd ''code'')"

definition verifyTotpAction :: "web_context \<Rightarrow> session_world \<Rightarrow> form_data \<Rightarrow> db \<Rightarrow> unit response" where
  "verifyTotpAction x w fd d =
     (case non_empty (readTotpChallengeToken (wx_config x) (wx_request x)) of
        None \<Rightarrow> refuse ''totp_challenge_expired'' d
      | Some challenge \<Rightarrow> with_input (totpCodeSchema fd) ''required'' (\<lambda>code d.
          let (ip, userAgent) = getRequestMeta (wx_config x) (wx_request x);
              clear = clearTotpChallengeCookie (wx_config x)
          in case verifyTotpChallenge (wx_hashToken x) (sw_hmac w) (sw_decrypt w) (sw_gen w 0) (sw_token w) challenge code
               ip userAgent (wq_now (wx_request x)) d of
               (d1, fail VT_invalid_code) \<Rightarrow> refuse ''invalid_code'' d1
             | (d1, fail VT_challenge_expired) \<Rightarrow> (d1, [clear], errorState ''totp_challenge_expired'')
             | (d1, fail VT_too_many_attempts) \<Rightarrow> (d1, [clear], errorState ''too_many_attempts'')
             | (d1, fail VT_raised) \<Rightarrow> (d1, [], Raised)
             | (d1, ok v) \<Rightarrow>
                 (d1, [clear, setSessionCookie (wx_config x) (vt_token v) (vt_expiresAt v)],
                  Redirect_to (safeNextPath (vt_nextPath v) ''/'') (wq_locale (wx_request x)))) d)"

definition logout_entry :: "web_context \<Rightarrow> session_context \<Rightarrow> audit_entry" where
  "logout_entry x s = (audit_entry ''auth.logout'')\<lparr>ae_orgId := map_option sm_orgId (sc_activeOrg s), ae_actorId := Some (su_id (sc_user s)),
     ae_actorEmail := Some (su_email (sc_user s)), ae_ipAddress := request_ip (wx_config x) (wx_request x)\<rparr>"

definition logoutAction :: "web_context \<Rightarrow> session_world \<Rightarrow> db \<Rightarrow> unit response" where
  "logoutAction x w d =
     (let token = non_empty (readSessionToken (wx_config x) (wx_request x));
          (d1, session) = getSession (wx_hashToken x) (wx_config x) (wx_request x) d;
          d2 = (case token of None \<Rightarrow> d1 | Some t \<Rightarrow> revokeSessionByToken (wx_hashToken x) t (wq_now (wx_request x)) d1);
          d3 = (case session of None \<Rightarrow> d2 | Some s \<Rightarrow> auditQuietly (sw_gen w 0) 0 (logout_entry x s) d2)
      in (d3, [clearSessionCookie (wx_config x)], Redirect_to ''/login'' (wq_locale (wx_request x))))"

definition switchOrganizationAction :: "web_context \<Rightarrow> form_data \<Rightarrow> db \<Rightarrow> unit response" where
  "switchOrganizationAction x fd d =
     (let (d1, session) = getSession (wx_hashToken x) (wx_config x) (wx_request x) d;
          d2 = (case (session, idSchema (form_get fd ''orgId'')) of
              (Some s, Some orgId) \<Rightarrow> fst (setActiveOrg (sc_sessionId s) (su_id (sc_user s)) orgId d1)
            | _ \<Rightarrow> d1)
      in (d2, [], Redirect_to ''/'' (wq_locale (wx_request x))))"

definition setLocalePreferenceAction :: "web_context \<Rightarrow> string \<Rightarrow> db \<Rightarrow> unit response" where
  "setLocalePreferenceAction x l d =
     (let (d1, session) = getSession (wx_hashToken x) (wx_config x) (wx_request x) d
      in (case (map_of [(''en'', EN), (''fr'', FR)] l, session) of
            (Some v, Some s) \<Rightarrow> setUserLocale (su_id (sc_user s)) v d1
          | _ \<Rightarrow> d1, [], No_reply))"

section \<open>The profile\<close>

definition policyParams :: "(string \<times> int) list" where
  "policyParams = [(''min'', int PASSWORD_MIN_LENGTH), (''max'', int PASSWORD_MAX_LENGTH)]"

definition passwordSchema :: "form_data \<Rightarrow> (string \<times> string) option" where
  "passwordSchema fd = do {
     cur \<leftarrow> f_plain 1 1024 (form_entry fd ''currentPassword'');
     new \<leftarrow> f_plain 1 1024 (form_entry fd ''newPassword'');
     Some (cur, new) }"

definition changePasswordAction :: "web_context \<Rightarrow> session_world \<Rightarrow> form_data \<Rightarrow> db \<Rightarrow> nat response" where
  "changePasswordAction x w fd = with_session x (\<lambda>s. with_input (passwordSchema fd) ''required'' (\<lambda>(cur, new) d.
     case changePassword (pf_verify (sw_passwords w)) (pf_hash (sw_passwords w)) (sw_gen w 0) (su_id (sc_user s)) cur new
       (sc_sessionId s) (request_ip (wx_config x) (wx_request x)) (wq_now (wx_request x)) d of
       (d1, fail e) \<Rightarrow> (d1, [], Form_error (change_password_code e) policyParams)
     | (d1, ok n) \<Rightarrow> (d1, [], Form_success (Some n) [(''count'', int n)])))"

record totp_setup_data =
  ts_secret :: string
  ts_otpauthUri :: string
  ts_qrDataUrl :: string

definition startTotpSetupAction :: "web_context \<Rightarrow> session_world \<Rightarrow> db \<Rightarrow> totp_setup_data response" where
  "startTotpSetupAction x w = with_session x (\<lambda>s d.
     let (d1, (secret, uri)) = startTotpSetup (sw_encrypt w) (sw_secretBytes w) (su_id (sc_user s)) (su_email (sc_user s)) d
     in (d1, [], Form_success (Some \<lparr>ts_secret = secret, ts_otpauthUri = uri, ts_qrDataUrl = sw_qr w uri\<rparr>) []))"

definition totpConfirmSchema :: "form_data \<Rightarrow> string option" where
  "totpConfirmSchema fd = f_trimmed 1 64 (form_entry fd ''code'')"

definition confirmTotpSetupAction :: "web_context \<Rightarrow> session_world \<Rightarrow> form_data \<Rightarrow> db \<Rightarrow> string list response" where
  "confirmTotpSetupAction x w fd = with_session x (\<lambda>s. with_input (totpConfirmSchema fd) ''required'' (\<lambda>code d.
     case confirmTotpSetup (wx_hashToken x) (sw_hmac w) (sw_decrypt w) (sw_gen w 0) (sw_codeBytes w) (su_id (sc_user s)) code
       (wq_now (wx_request x)) d of
       (d1, fail CT_no_pending_setup) \<Rightarrow> refuse ''no_pending_setup'' d1
     | (d1, fail CT_invalid_code) \<Rightarrow> refuse ''invalid_code'' d1
     | (d1, fail CT_raised) \<Rightarrow> (d1, [], Raised)
     | (d1, ok codes) \<Rightarrow> (d1, [], Form_success (Some codes) [])))"

definition totpPasswordSchema :: "form_data \<Rightarrow> string option" where
  "totpPasswordSchema fd = f_plain 1 1024 (form_entry fd ''password'')"

definition disableTotpAction :: "web_context \<Rightarrow> session_world \<Rightarrow> form_data \<Rightarrow> db \<Rightarrow> unit response" where
  "disableTotpAction x w fd = with_session x (\<lambda>s. with_input (totpPasswordSchema fd) ''required'' (\<lambda>password d.
     settle totp_credential_code (\<lambda>_. success)
       (disableTotp (pf_verify (sw_passwords w)) (sw_gen w 0) (su_id (sc_user s)) password
          (request_ip (wx_config x) (wx_request x)) (wq_now (wx_request x)) d)))"

definition regenerateRecoveryCodesAction :: "web_context \<Rightarrow> session_world \<Rightarrow> form_data \<Rightarrow> db \<Rightarrow> string list response" where
  "regenerateRecoveryCodesAction x w fd = with_session x (\<lambda>s. with_input (totpPasswordSchema fd) ''required'' (\<lambda>password d.
     settle totp_credential_code (\<lambda>codes. Form_success (Some codes) [])
       (regenerateRecoveryCodes (wx_hashToken x) (pf_verify (sw_passwords w)) (sw_gen w 0) (sw_codeBytes w) (su_id (sc_user s)) password
          (request_ip (wx_config x) (wx_request x)) (wq_now (wx_request x)) d)))"

section \<open>Onboarding\<close>

definition localeToPrisma :: "string \<Rightarrow> ui_locale" where
  "localeToPrisma l = (if l = ''fr'' then FR else EN)"

record register_form =
  rg_name :: string
  rg_organization :: string
  rg_email :: string
  rg_password :: string

definition registerSchema :: "form_data \<Rightarrow> register_form option" where
  "registerSchema fd = do {
     name \<leftarrow> f_trimmed 1 120 (form_entry fd ''name'');
     organization \<leftarrow> f_trimmed 1 120 (form_entry fd ''organization'');
     email \<leftarrow> f_trimmed 1 254 (form_entry fd ''email'');
     password \<leftarrow> f_plain 1 1024 (form_entry fd ''password'');
     Some \<lparr>rg_name = name, rg_organization = organization, rg_email = email, rg_password = password\<rparr> }"

definition registerAction :: "web_context \<Rightarrow> session_world \<Rightarrow> form_data \<Rightarrow> db \<Rightarrow> unit response" where
  "registerAction x w fd d =
     (if \<not> registrationOpen (wx_config x) then refuse ''forbidden'' d
      else with_input (registerSchema fd) ''required'' (\<lambda>p d.
        let l = wq_locale (wx_request x);
            (ip, userAgent) = getRequestMeta (wx_config x) (wx_request x);
            now = wq_now (wx_request x)
        in case createUser (pf_hash (sw_passwords w)) (sw_gen w 0) 0 (rg_email p) (Some (rg_name p)) (rg_password p)
             (Some (localeToPrisma l)) now d of
             (d1, fail e) \<Rightarrow> (d1, [], Form_error (create_user_code e) policyParams)
           | (d1, ok (uid, email)) \<Rightarrow>
               (case createOrganization (sw_foldAccents w) (sw_slugSuffix w) (sw_gen w 1) (rg_organization p) uid email ip d1 of
                  None \<Rightarrow> (d1, [], Raised)
                | Some (d2, (oid, slug)) \<Rightarrow>
                    let d3 = auditQuietly (sw_gen w 2) 0 ((audit_entry ''auth.register'')\<lparr>ae_orgId := Some oid, ae_actorId := Some uid,
                          ae_actorEmail := Some email, ae_ipAddress := ip\<rparr>) d2;
                        (d4, s) = createSession (wx_hashToken x) (sw_gen w 3) 0 (sw_token w) uid ip userAgent now d3
                    in (d4, [setSessionCookie (wx_config x) (cs_token s) (cs_expiresAt s)], Redirect_to ''/'' l))) d)"

record accept_form =
  af_token :: string
  af_name :: "string option"
  af_password :: "string option"

definition acceptSchema :: "form_data \<Rightarrow> accept_form option" where
  "acceptSchema fd = do {
     token \<leftarrow> f_plain 1 256 (form_entry fd ''token'');
     name \<leftarrow> f_optional (f_trimmed 1 120) (form_entry fd ''name'');
     password \<leftarrow> f_optional (f_plain 0 1024) (form_entry fd ''password'');
     Some \<lparr>af_token = token, af_name = name, af_password = password\<rparr> }"

definition acceptInvitationAction :: "web_context \<Rightarrow> session_world \<Rightarrow> form_data \<Rightarrow> db \<Rightarrow> unit response" where
  "acceptInvitationAction x w fd = with_input (acceptSchema fd) ''required'' (\<lambda>p d.
     let l = wq_locale (wx_request x);
         (ip, userAgent) = getRequestMeta (wx_config x) (wx_request x);
         now = wq_now (wx_request x);
         (d1, current) = getSession (wx_hashToken x) (wx_config x) (wx_request x) d;
         newAccount = map_option (\<lambda>pw. \<lparr>na_name = af_name p, na_password = pw, na_locale = Some (localeToPrisma l)\<rparr>)
           (non_empty (af_password p))
     in case acceptInvitation (wx_hashToken x) (pf_hash (sw_passwords w)) (sw_gen w 0) (af_token p) ip
          (map_option (\<lambda>s. su_id (sc_user s)) current) newAccount now d1 of
          (d2, fail e) \<Rightarrow> (d2, [], Form_error (accept_code e) policyParams)
        | (d2, ok v) \<Rightarrow>
            if ac_createdAccount v
            then let (d3, s) = createSession (wx_hashToken x) (sw_gen w 1) 0 (sw_token w) (ac_userId v) ip userAgent now d2
                 in (d3, [setSessionCookie (wx_config x) (cs_token s) (cs_expiresAt s)], Redirect_to ''/'' l)
            else (case current of None \<Rightarrow> d2
                  | Some s \<Rightarrow> fst (setActiveOrg (sc_sessionId s) (su_id (sc_user s)) (ac_orgId v) d2), [], Redirect_to ''/'' l))"

section \<open>Members\<close>

definition roleSchema :: "form_value option \<Rightarrow> role option" where
  "roleSchema = f_enum [(''OWNER'', OWNER), (''ADMIN'', ADMIN), (''OPERATOR'', OPERATOR), (''VIEWER'', VIEWER)]"

text \<open>The translated texts of the invitation mail.\<close>

record mail_texts =
  mt_role :: "role \<Rightarrow> string"
  mt_body :: "string \<Rightarrow> string \<Rightarrow> string \<Rightarrow> string"
  mt_cta :: string
  mt_expires :: "string \<Rightarrow> string"
  mt_date :: "ms \<Rightarrow> string"
  mt_ignore :: string
  mt_subject :: "string \<Rightarrow> string"

record mail =
  ml_to :: "string list"
  ml_subject :: string
  ml_text :: string

definition sendInvitationEmail :: "mail_texts \<Rightarrow> string \<Rightarrow> string \<Rightarrow> string \<Rightarrow> role \<Rightarrow> string \<Rightarrow> ms \<Rightarrow> mail" where
  "sendInvitationEmail t to orgName inviterEmail r link expiresAt =
     \<lparr>ml_to = [to], ml_subject = mt_subject t orgName,
      ml_text = str_join [CHR 0x0A] [mt_body t inviterEmail orgName (mt_role t r), [], mt_cta t, link, [],
        mt_expires t (mt_date t expiresAt), mt_ignore t]\<rparr>"

record invitation_data =
  iv_link :: string
  iv_email :: string

definition inviteSchema :: "form_data \<Rightarrow> (string \<times> role) option" where
  "inviteSchema fd = do {
     email \<leftarrow> f_trimmed 1 254 (form_entry fd ''email'');
     r \<leftarrow> roleSchema (form_entry fd ''role'');
     Some (email, r) }"

text \<open>The mail is sent at best effort: whether it leaves does not change the reply.\<close>

definition invitation_link :: "web_context \<Rightarrow> string \<Rightarrow> string" where
  "invitation_link x token = getBaseUrl (wx_config x) (wx_request x) @ ''/'' @ wq_locale (wx_request x) @ ''/invite/'' @ token"

definition inviteMemberAction :: "web_context \<Rightarrow> session_world \<Rightarrow> form_data \<Rightarrow> db \<Rightarrow> invitation_data response" where
  "inviteMemberAction x w fd = with_actor x (Some members_invite) (\<lambda>a. with_input (inviteSchema fd) ''invalid_email'' (\<lambda>(email, r) d.
     settle invite_code (\<lambda>(token, iid, expiresAt). Form_success (Some \<lparr>iv_link = invitation_link x token, iv_email = email\<rparr>) [])
       (createInvitation (wx_hashToken x) (sw_gen w 0) (sw_token w) (ax_actor a) email r (wq_now (wx_request x)) d)))"

definition invitation_mail ::
  "web_context \<Rightarrow> mail_texts \<Rightarrow> actor_context \<Rightarrow> string \<Rightarrow> role \<Rightarrow> string \<times> ident \<times> ms \<Rightarrow> mail" where
  "invitation_mail x t a email r created =
     (case created of (token, iid, expiresAt) \<Rightarrow>
        sendInvitationEmail t email (case sc_activeOrg (ax_session a) of None \<Rightarrow> [] | Some m \<Rightarrow> sm_orgName m) (a_email (ax_actor a)) r
          (invitation_link x token) expiresAt)"

definition revokeInvitationAction :: "web_context \<Rightarrow> session_world \<Rightarrow> form_data \<Rightarrow> db \<Rightarrow> unit response" where
  "revokeInvitationAction x w fd = with_actor x (Some members_invite) (\<lambda>a. with_input (idSchema (form_get fd ''invitationId'')) ''not_found'' (\<lambda>iid d.
     settle invite_code (\<lambda>_. success) (revokeInvitation (sw_gen w 0) (ax_actor a) iid (wq_now (wx_request x)) d)))"

definition changeRoleSchema :: "form_data \<Rightarrow> (ident \<times> role) option" where
  "changeRoleSchema fd = do {
     mid \<leftarrow> idSchema (form_entry fd ''membershipId'');
     r \<leftarrow> roleSchema (form_entry fd ''role'');
     Some (mid, r) }"

definition changeRoleAction :: "web_context \<Rightarrow> session_world \<Rightarrow> form_data \<Rightarrow> db \<Rightarrow> unit response" where
  "changeRoleAction x w fd = with_actor x (Some members_manage) (\<lambda>a. with_input (changeRoleSchema fd) ''generic'' (\<lambda>(mid, r) d.
     settle member_code (\<lambda>_. success) (changeMemberRole (sw_gen w 0) (ax_actor a) mid r d)))"

definition removeMemberAction :: "web_context \<Rightarrow> session_world \<Rightarrow> form_data \<Rightarrow> db \<Rightarrow> unit response" where
  "removeMemberAction x w fd = with_actor x None (\<lambda>a. with_input (idSchema (form_get fd ''membershipId'')) ''not_found'' (\<lambda>mid d.
     settle member_code (\<lambda>left. if left then Redirect_to ''/'' (wq_locale (wx_request x)) else success)
       (removeMember (sw_gen w 0) (ax_actor a) mid d)))"

section \<open>A session from cookie to cookie\<close>

definition session_open :: "(string \<Rightarrow> string) \<Rightarrow> string \<Rightarrow> ident \<Rightarrow> ms \<Rightarrow> db \<Rightarrow> bool" where
  "session_open h tok uid ex d = (case find_first (\<lambda>s. s_tokenHash s = h tok) (sessions d) of
     None \<Rightarrow> False
   | Some s \<Rightarrow> s_userId s = uid \<and> s_revokedAt s = None \<and> s_expiresAt s = ex \<and> ex \<le> s_absoluteExpiresAt s)"

definition user_active :: "ident \<Rightarrow> string \<Rightarrow> db \<Rightarrow> bool" where
  "user_active uid email d = (case find_first (\<lambda>u. u_id u = uid) (users d) of
     None \<Rightarrow> False | Some u \<Rightarrow> u_disabledAt u = None \<and> u_email u = email)"

lemma open_session_resolves:
  assumes "session_open h tok uid ex d" and "user_active uid email d" and "now < ex" and "tok \<noteq> []" and "length tok \<le> 256"
  shows "\<exists>s. snd (validateSession h tok now d) = Some s \<and> su_id (sc_user s) = uid \<and> su_email (sc_user s) = email"
  using assms by (auto simp: session_open_def user_active_def validateSession_def Let_def dest: find_first_SomeD split: option.splits)

lemma fresh_session_found:
  assumes "h tok \<notin> s_tokenHash ` set t" and "s_tokenHash s = h tok"
  shows "find_first (\<lambda>s. s_tokenHash s = h tok) (t @ [s]) = Some s"
    and "\<not> P s \<Longrightarrow> find_first (\<lambda>s. s_tokenHash s = h tok) (delete_many P (t @ [s])) = Some s"
  using assms by (induction t) (auto simp: delete_many_def)

lemma signIn_ok:
  assumes "signIn h pf dr inp d = (d1, SI_ok tok ex uid em ul)" and "h (sd_token dr) \<notin> s_tokenHash ` set (sessions d)"
    and "distinct (map u_id (users d))"
  shows "tok = sd_token dr \<and> session_open h tok uid ex d1 \<and> user_active uid (normalizeEmail (si_email inp)) d1"
proof -
  define email where "email = normalizeEmail (si_email inp)"
  have al: "checkLoginThrottle email (si_ip inp) (si_now inp) d = Allowed"
    using assms(1) by (cases "checkLoginThrottle email (si_ip inp) (si_now inp) d") (auto simp: signIn_def Let_def email_def)
  obtain u where u: "find_first (\<lambda>u. u_email u = email) (users d) = Some u"
    using assms(1) al by (cases "find_first (\<lambda>u. u_email u = email) (users d)") (auto simp: signIn_def Let_def email_def)
  have pw: "password_ok pf (si_password inp) (Some u)" "u_disabledAt u = None" "u_totpEnabledAt u = None"
    using assms(1) al u by (auto simp: signIn_def Let_def email_def split: if_splits prod.splits)
  define d2 where "d2 = touch_user pf (si_password inp) (si_now inp) u
      (clearEmailFailures email (recordLoginAttempt (sd_gen dr) 0 email (si_ip inp) True (si_now inp) d))"
  have kept: "sessions d2 = sessions d" "users d2 = users (touch_user pf (si_password inp) (si_now inp) u d)"
    by (simp_all add: d2_def touch_user_def Let_def)
  obtain s where cs: "snd (createSession h (sd_gen dr) 1 (sd_token dr) (u_id u) (si_ip inp) (si_userAgent inp) (si_now inp) d2) = s" by simp
  let ?d3 = "fst (createSession h (sd_gen dr) 1 (sd_token dr) (u_id u) (si_ip inp) (si_userAgent inp) (si_now inp) d2)"
  have run: "tok = sd_token dr" "uid = u_id u" "ex = cs_expiresAt s" "users d1 = users d2"
    "sessions d1 = (if sd_housekeeping dr then sessions (purgeDeadSessions (si_now inp) ?d3) else sessions ?d3)"
    using assms(1) al u pw cs
    by (auto simp: signIn_def Let_def case_prod_beta purgeDeadSessions_def purgeOldAttempts_def simp flip: email_def d2_def)
      (auto simp: createSession_def Let_def)
  have ex: "ex = si_now inp + seconds SESSION_IDLE_SECONDS"
    unfolding run(3) cs[symmetric] by (simp add: createSession_def Let_def session_consts)
  have "session_open h tok uid ex d1"
    using fresh_session_found[where t = "sessions d" and h = h and tok = "sd_token dr"] assms(2)
    by (simp add: session_open_def run(1,2,5) ex kept(1) createSession_sessions purgeDeadSessions_def Let_def session_consts)
  moreover have "user_active uid email d1"
  proof -
    from find_first_SomeD[OF u] have m: "u \<in> set (users d)" "u_email u = email" by auto
    define f :: "user_row \<Rightarrow> user_row" where "f = (\<lambda>r. if u_id r = u_id u then (case (case u_passwordHash u of None \<Rightarrow> None
        | Some st \<Rightarrow> if st \<noteq> [] \<and> pf_needsRehash pf st then or_null (pf_hash pf (si_password inp)) else None) of
          None \<Rightarrow> r\<lparr>u_lastLoginAt := Some (si_now inp)\<rparr>
        | Some hh \<Rightarrow> r\<lparr>u_lastLoginAt := Some (si_now inp), u_passwordHash := Some hh\<rparr>) else r)"
    have us: "users d1 = map f (users d)"
      by (simp add: run(4) kept(2) touch_user_def Let_def update_many_def f_def)
    have fp: "u_id (f r) = u_id r" "u_disabledAt (f r) = u_disabledAt r" "u_email (f r) = u_email r" for r
      by (auto simp: f_def split: option.split)
    have "distinct (map u_id (users d1))" "f u \<in> set (users d1)" using assms(3) m(1) fp by (auto simp: us o_def)
    then have "find_first (\<lambda>r. u_id r = u_id (f u)) (users d1) = Some (f u)" by (rule find_first_key)
    then show ?thesis using pw(2) m(2) fp by (simp add: user_active_def run(2))
  qed
  ultimately show ?thesis using run(1) by (simp add: email_def)
qed

lemma getSession_presented:
  assumes "readSessionToken c q = Some tok" and "tok \<noteq> []"
  shows "getSession h c q d = validateSession h tok (wq_now q) d"
  using assms by (simp add: getSession_def non_empty_def or_null_def)

text \<open>A path of this site: one leading slash, no second one, no backslash, no control character.\<close>

definition same_site :: "string \<Rightarrow> bool" where
  "same_site p = (starts_with p ''/'' \<and> \<not> starts_with p ''//'' \<and> \<not> list_ex forbidden_path_char p)"

lemma safeNextPath_site: "same_site (safeNextPath v ''/'')"
  by (cases v) (auto simp: safeNextPath_def same_site_def forbidden_path_char_def code_unit_def)

text \<open>C6. Signing in and coming back: when the sign-in form answers with a session cookie, the redirect stays on this
  site, and the next request that presents this cookie before it expires is the person whose address was typed. (Tokens are new
  and user ids unique.)\<close>

theorem login_cookie_authenticates:
  assumes "loginSchema fd = Some p" and "loginAction x w fd d = (d1, [ck], Redirect_to href l)"
    and "ck_name ck = sessionCookieName (cookiesAreSecure (wx_config x))"
    and "wx_hashToken x (sw_token w) \<notin> s_tokenHash ` set (sessions d)" and "sw_token w \<noteq> []" and "length (sw_token w) \<le> 256"
    and "distinct (map u_id (users d))"
    and "map_of (wq_cookies q) (ck_name ck) = Some (ck_value ck)" and "wq_now q < ck_expires ck"
  shows "same_site href \<and> (\<exists>s. snd (getSession (wx_hashToken x) (wx_config x) q d1) = Some s
     \<and> su_email (sc_user s) = normalizeEmail (lf_email p))"
proof -
  define inp where "inp = \<lparr>si_email = lf_email p, si_password = lf_password p, si_ip = request_ip (wx_config x) (wx_request x),
     si_userAgent = wq_headers (wx_request x) ''user-agent'', si_nextPath = Some (safeNextPath (lf_next p) ''/''), si_now = wq_now (wx_request x)\<rparr>"
  define dr where "dr = \<lparr>sd_gen = sw_gen w 0, sd_token = sw_token w, sd_housekeeping = sw_housekeeping w\<rparr>"
  obtain d' r where run: "signIn (wx_hashToken x) (sw_passwords w) dr inp d = (d', r)" by force
  have names: "totpCookieName b \<noteq> sessionCookieName b" for b by (simp add: totpCookieName_def sessionCookieName_def cookie_names)
  obtain tok ex uid em ul where ok: "r = SI_ok tok ex uid em ul" "d' = d1" "ck = setSessionCookie (wx_config x) tok ex"
      "href = safeNextPath (lf_next p) ''/''"
    using assms(1-3) run names
    by (cases r) (auto simp: loginAction_def with_input_def getRequestMeta_def Let_def refuse_def errorState_def setTotpChallengeCookie_def
        simp flip: inp_def dr_def)
  from signIn_ok[OF run[unfolded ok(1,2)]] assms(4,7)
  have s: "tok = sw_token w" "session_open (wx_hashToken x) tok uid ex d1" "user_active uid (normalizeEmail (lf_email p)) d1"
    by (auto simp: dr_def inp_def)
  have "readSessionToken (wx_config x) q = Some tok" "wq_now q < ex"
    using assms(8,9) by (simp_all add: readSessionToken_def ok(3) setSessionCookie_def)
  then show ?thesis
    using open_session_resolves[OF s(2,3), of "wq_now q"] getSession_presented[of "wx_config x" q tok] assms(5,6) s(1) ok(4) safeNextPath_site
    by auto
qed

text \<open>C11. Signing out ends the session everywhere: after the sign-out of a request that presented a token, no request that presents
  the same token is authorized, whatever session operations happen in between (short of issuing that very token again),
  and the cookie that is cleared has the name and the attributes it was set with.\<close>

theorem logout_ends_session:
  assumes "readSessionToken (wx_config x) (wx_request x) = Some tok" and "logoutAction x w d = (d1, cks, r)"
    and "readSessionToken (wx_config x) q = Some tok" and "list_all (\<lambda>c. \<not> creates_hash (wx_hashToken x) (wx_hashToken x tok) c) cs"
  shows "snd (authorize (wx_hashToken x) (wx_config x) q perm (fold (session_exec (wx_hashToken x)) cs d1)) = fail Az_unauthenticated
     \<and> cks = [(setSessionCookie (wx_config x) [] 0)\<lparr>ck_maxAge := Some 0\<rparr>]"
proof (cases "tok = []")
  case True
  then show ?thesis using assms(2,3)
    by (auto simp: authorize_def getSession_def non_empty_def or_null_def logoutAction_def Let_def case_prod_beta
        clearSessionCookie_def setSessionCookie_def)
next
  case False
  have "token_dead (wx_hashToken x tok) d1"
    using assms(1,2) False revoke_makes_dead[of "wx_hashToken x" tok]
    by (auto simp: logoutAction_def Let_def case_prod_beta non_empty_def or_null_def auditQuietly_def recordAudit_def token_dead_def
        split: option.splits)
  then have "snd (validateSession (wx_hashToken x) tok (wq_now q) (fold (session_exec (wx_hashToken x)) cs d1)) = None"
    using assms(4) by (intro token_dead_refused fold_keeps_token_dead)
  then have "snd (authorize (wx_hashToken x) (wx_config x) q perm (fold (session_exec (wx_hashToken x)) cs d1)) = fail Az_unauthenticated"
    using getSession_presented[OF assms(3) False]
    by (auto simp: authorize_def case_prod_beta split: option.splits prod.splits)
  moreover have "cks = [(setSessionCookie (wx_config x) [] 0)\<lparr>ck_maxAge := Some 0\<rparr>]"
    using assms(2) by (auto simp: logoutAction_def Let_def case_prod_beta clearSessionCookie_def setSessionCookie_def)
  ultimately show ?thesis by simp
qed

section \<open>Witnesses\<close>

definition sample_config :: web_config where
  "sample_config = \<lparr>wc_cookieSecure = None, wc_nodeEnv = Some ''production'', wc_trustProxyHeaders = None, wc_appBaseUrl = None,
     wc_allowRegistration = None\<rparr>"

definition sample_visit :: "(string \<times> string) list \<Rightarrow> ms \<Rightarrow> web_request" where
  "sample_visit cookies now = \<lparr>wq_cookies = cookies, wq_headers = \<lambda>h. None, wq_locale = ''en'', wq_now = now\<rparr>"

definition sample_context :: "(string \<times> string) list \<Rightarrow> ms \<Rightarrow> web_context" where
  "sample_context cookies now = \<lparr>wx_hashToken = rev, wx_config = sample_config, wx_request = sample_visit cookies now\<rparr>"

definition sample_world :: session_world where
  "sample_world = \<lparr>sw_passwords = sample_pf, sw_hmac = (\<lambda>k m. k), sw_encrypt = (\<lambda>s a. s), sw_decrypt = (\<lambda>e a. Some e),
     sw_gen = (\<lambda>n. sample_gen), sw_token = ''tok'', sw_housekeeping = False, sw_secretBytes = [], sw_codeBytes = (\<lambda>n. []),
     sw_qr = id, sw_foldAccents = id, sw_slugSuffix = (\<lambda>n. [])\<rparr>"

definition sample_login_form :: form_data where
  "sample_login_form = [(''email'', Form_text '' Ann@acme.org''), (''password'', Form_text ''pw''), (''next'', Form_text ''//evil.org'')]"

definition sample_login :: "unit response" where
  "sample_login = loginAction (sample_context [] 0) sample_world sample_login_form sample_db"

lemma sample_login_schema: "loginSchema sample_login_form = Some \<lparr>lf_email = ''Ann@acme.org'', lf_password = ''pw'', lf_next = Some ''//evil.org''\<rparr>"
  by code_simp

lemma sample_login_run:
  "snd sample_login = ([setSessionCookie sample_config ''tok'' 43200000], Redirect_to ''/'' ''en'')"
  unfolding sample_login_def by code_simp

definition sample_session_db :: db where
  "sample_session_db = fst sample_login"

lemma sample_login_result:
  "loginAction (sample_context [] 0) sample_world sample_login_form sample_db
   = (sample_session_db, [setSessionCookie sample_config ''tok'' 43200000], Redirect_to ''/'' ''en'')"
  using sample_login_run by (simp add: sample_session_db_def sample_login_def prod_eq_iff)

lemmas sample_web = sample_context_def sample_visit_def sample_config_def sample_world_def cookie_names
  sessionCookieName_def cookiesAreSecure_def setSessionCookie_def readSessionToken_def

theorem login_cookie_authenticates_witness:
  "\<exists>s. snd (getSession rev sample_config (sample_visit [(''__Host-ikm_session'', ''tok'')] 60000) sample_session_db) = Some s
     \<and> su_email (sc_user s) = normalizeEmail ''Ann@acme.org''"
  using login_cookie_authenticates[OF sample_login_schema sample_login_result, of "sample_visit [(''__Host-ikm_session'', ''tok'')] 60000"]
  by (simp add: sample_web sample_db_def sample_user_def empty_db_def)

theorem logout_ends_session_witness:
  "snd (authorize rev sample_config (sample_visit [(''__Host-ikm_session'', ''tok'')] 70000) (Some hosts_read)
      (fold (session_exec rev) [Validate ''tok'' 65000]
        (fst (logoutAction (sample_context [(''__Host-ikm_session'', ''tok'')] 60000) sample_world sample_session_db))))
   = fail Az_unauthenticated"
  using logout_ends_session[of "sample_context [(''__Host-ikm_session'', ''tok'')] 60000" "''tok''" sample_world sample_session_db
      "fst (logoutAction (sample_context [(''__Host-ikm_session'', ''tok'')] 60000) sample_world sample_session_db)"
      "fst (snd (logoutAction (sample_context [(''__Host-ikm_session'', ''tok'')] 60000) sample_world sample_session_db))"
      "snd (snd (logoutAction (sample_context [(''__Host-ikm_session'', ''tok'')] 60000) sample_world sample_session_db))"
      "sample_visit [(''__Host-ikm_session'', ''tok'')] 70000" "[Validate ''tok'' 65000]" "Some hosts_read"]
  by (simp add: sample_web)

end
