(* ===== verification/Web_Actions.thy ===== *)
theory Web_Actions
  imports Resource_Actions Session_Actions
begin

text \<open>
  Every action that acts for a member of an organization, as one machine: \<open>run_web\<close> runs an action on a request and
  gives the database and the error code of the reply, \<open>permission_of\<close> is the permission it asks for. Two
  things hold of the machine: nothing changes without authority at that moment, and the settings it stores
  stay within the ranges of the forms.
\<close>

section \<open>The machine\<close>

primrec reply_error :: "'a reply \<Rightarrow> string option" where
  "reply_error (Form_error c ps) = Some c"
| "reply_error (Form_success v ps) = None"
| "reply_error (Redirect_to href l) = None"
| "reply_error No_reply = None"
| "reply_error Raised = None"

definition web_effect :: "'a response \<Rightarrow> db \<times> string option" where
  "web_effect r = (fst r, reply_error (snd (snd r)))"

datatype web_action =
    W_registerHost form_data
  | W_rotateSecret form_data
  | W_toggleHost form_data
  | W_updateDatabaseSettings form_data
  | W_toggleDatabase form_data
  | W_createEndpoint form_data
  | W_updateEndpoint form_data
  | W_toggleEndpoint form_data
  | W_deleteEndpoint form_data
  | W_checkEndpointNow form_data
  | W_registerDevice form_data
  | W_updateDevice form_data
  | W_toggleDevice form_data
  | W_deleteDevice form_data
  | W_createNode form_data
  | W_deleteNode form_data
  | W_createDependency form_data
  | W_deleteDependency form_data
  | W_updateNodePosition ident real real
  | W_connectNodes ident ident
  | W_saveLayout "(ident \<times> real \<times> real) list"
  | W_acknowledgeIncident form_data
  | W_resolveIncident form_data
  | W_reopenIncident form_data
  | W_addIncidentNote form_data
  | W_reanalyzeIncident form_data
  | W_createAlertRule form_data
  | W_updateAlertRule form_data
  | W_toggleAlertRule form_data
  | W_deleteAlertRule form_data
  | W_testAlertRuleNotification form_data
  | W_createRemediationAction form_data
  | W_updateRemediationAction form_data
  | W_toggleRemediationAction form_data
  | W_deleteRemediationAction form_data
  | W_runRemediation form_data
  | W_approveExecution form_data
  | W_cancelExecution form_data
  | W_inviteMember form_data
  | W_revokeInvitation form_data
  | W_changeRole form_data
  | W_removeMember form_data

primrec permission_of :: "web_action \<Rightarrow> permission option" where
  "permission_of (W_registerHost fd) = Some hosts_write"
| "permission_of (W_rotateSecret fd) = Some hosts_rotate_secret"
| "permission_of (W_toggleHost fd) = Some hosts_write"
| "permission_of (W_updateDatabaseSettings fd) = Some databases_write"
| "permission_of (W_toggleDatabase fd) = Some databases_write"
| "permission_of (W_createEndpoint fd) = Some endpoints_write"
| "permission_of (W_updateEndpoint fd) = Some endpoints_write"
| "permission_of (W_toggleEndpoint fd) = Some endpoints_write"
| "permission_of (W_deleteEndpoint fd) = Some endpoints_write"
| "permission_of (W_checkEndpointNow fd) = Some endpoints_check"
| "permission_of (W_registerDevice fd) = Some devices_write"
| "permission_of (W_updateDevice fd) = Some devices_write"
| "permission_of (W_toggleDevice fd) = Some devices_write"
| "permission_of (W_deleteDevice fd) = Some devices_write"
| "permission_of (W_createNode fd) = Some topology_write"
| "permission_of (W_deleteNode fd) = Some topology_write"
| "permission_of (W_createDependency fd) = Some topology_write"
| "permission_of (W_deleteDependency fd) = Some topology_write"
| "permission_of (W_updateNodePosition i px py) = Some topology_write"
| "permission_of (W_connectNodes p c) = Some topology_write"
| "permission_of (W_saveLayout ps) = Some topology_write"
| "permission_of (W_acknowledgeIncident fd) = Some incidents_acknowledge"
| "permission_of (W_resolveIncident fd) = Some incidents_acknowledge"
| "permission_of (W_reopenIncident fd) = Some incidents_acknowledge"
| "permission_of (W_addIncidentNote fd) = Some incidents_acknowledge"
| "permission_of (W_reanalyzeIncident fd) = Some incidents_acknowledge"
| "permission_of (W_createAlertRule fd) = Some alerts_write"
| "permission_of (W_updateAlertRule fd) = Some alerts_write"
| "permission_of (W_toggleAlertRule fd) = Some alerts_write"
| "permission_of (W_deleteAlertRule fd) = Some alerts_write"
| "permission_of (W_testAlertRuleNotification fd) = Some alerts_write"
| "permission_of (W_createRemediationAction fd) = Some remediation_write"
| "permission_of (W_updateRemediationAction fd) = Some remediation_write"
| "permission_of (W_toggleRemediationAction fd) = Some remediation_write"
| "permission_of (W_deleteRemediationAction fd) = Some remediation_write"
| "permission_of (W_runRemediation fd) = Some remediation_run"
| "permission_of (W_approveExecution fd) = Some remediation_run"
| "permission_of (W_cancelExecution fd) = Some remediation_run"
| "permission_of (W_inviteMember fd) = Some members_invite"
| "permission_of (W_revokeInvitation fd) = Some members_invite"
| "permission_of (W_changeRole fd) = Some members_manage"
| "permission_of (W_removeMember fd) = None"

primrec run_web :: "web_context \<Rightarrow> resource_world \<Rightarrow> session_world \<Rightarrow> web_action \<Rightarrow> db \<Rightarrow> db \<times> string option" where
  "run_web x w v (W_registerHost fd) d = web_effect (registerHostAction x w fd d)"
| "run_web x w v (W_rotateSecret fd) d = web_effect (rotateSecretAction x w fd d)"
| "run_web x w v (W_toggleHost fd) d = web_effect (toggleHostAction x w fd d)"
| "run_web x w v (W_updateDatabaseSettings fd) d = web_effect (updateDatabaseSettingsAction x w fd d)"
| "run_web x w v (W_toggleDatabase fd) d = web_effect (toggleDatabaseAction x w fd d)"
| "run_web x w v (W_createEndpoint fd) d = web_effect (createEndpointAction x w fd d)"
| "run_web x w v (W_updateEndpoint fd) d = web_effect (updateEndpointAction x w fd d)"
| "run_web x w v (W_toggleEndpoint fd) d = web_effect (toggleEndpointAction x w fd d)"
| "run_web x w v (W_deleteEndpoint fd) d = web_effect (deleteEndpointAction x w fd d)"
| "run_web x w v (W_checkEndpointNow fd) d = web_effect (checkEndpointNowAction x w fd d)"
| "run_web x w v (W_registerDevice fd) d = web_effect (registerDeviceAction x w fd d)"
| "run_web x w v (W_updateDevice fd) d = web_effect (updateDeviceAction x w fd d)"
| "run_web x w v (W_toggleDevice fd) d = web_effect (toggleDeviceAction x w fd d)"
| "run_web x w v (W_deleteDevice fd) d = web_effect (deleteDeviceAction x w fd d)"
| "run_web x w v (W_createNode fd) d = web_effect (createNodeAction x w fd d)"
| "run_web x w v (W_deleteNode fd) d = web_effect (deleteNodeAction x w fd d)"
| "run_web x w v (W_createDependency fd) d = web_effect (createDependencyAction x w fd d)"
| "run_web x w v (W_deleteDependency fd) d = web_effect (deleteDependencyAction x w fd d)"
| "run_web x w v (W_updateNodePosition i px py) d = web_effect (updateNodePositionAction x i px py d)"
| "run_web x w v (W_connectNodes p c) d = web_effect (connectNodesAction x w p c d)"
| "run_web x w v (W_saveLayout ps) d = web_effect (saveLayoutAction x ps d)"
| "run_web x w v (W_acknowledgeIncident fd) d = web_effect (acknowledgeIncidentAction x w fd d)"
| "run_web x w v (W_resolveIncident fd) d = web_effect (resolveIncidentAction x w fd d)"
| "run_web x w v (W_reopenIncident fd) d = web_effect (reopenIncidentAction x w fd d)"
| "run_web x w v (W_addIncidentNote fd) d = web_effect (addIncidentNoteAction x w fd d)"
| "run_web x w v (W_reanalyzeIncident fd) d = web_effect (reanalyzeIncidentAction x w fd d)"
| "run_web x w v (W_createAlertRule fd) d = web_effect (createAlertRuleAction x w fd d)"
| "run_web x w v (W_updateAlertRule fd) d = web_effect (updateAlertRuleAction x w fd d)"
| "run_web x w v (W_toggleAlertRule fd) d = web_effect (toggleAlertRuleAction x w fd d)"
| "run_web x w v (W_deleteAlertRule fd) d = web_effect (deleteAlertRuleAction x w fd d)"
| "run_web x w v (W_testAlertRuleNotification fd) d = web_effect (testAlertRuleNotificationAction x w fd d)"
| "run_web x w v (W_createRemediationAction fd) d = web_effect (createRemediationActionAction x w fd d)"
| "run_web x w v (W_updateRemediationAction fd) d = web_effect (updateRemediationActionAction x w fd d)"
| "run_web x w v (W_toggleRemediationAction fd) d = web_effect (toggleRemediationActionAction x w fd d)"
| "run_web x w v (W_deleteRemediationAction fd) d = web_effect (deleteRemediationActionAction x w fd d)"
| "run_web x w v (W_runRemediation fd) d = web_effect (runRemediationAction x w fd d)"
| "run_web x w v (W_approveExecution fd) d = web_effect (approveExecutionAction x w fd d)"
| "run_web x w v (W_cancelExecution fd) d = web_effect (cancelExecutionAction x w fd d)"
| "run_web x w v (W_inviteMember fd) d = web_effect (inviteMemberAction x v fd d)"
| "run_web x w v (W_revokeInvitation fd) d = web_effect (revokeInvitationAction x v fd d)"
| "run_web x w v (W_changeRole fd) d = web_effect (changeRoleAction x v fd d)"
| "run_web x w v (W_removeMember fd) d = web_effect (removeMemberAction x v fd d)"

lemmas web_action_defs =
  registerHostAction_def rotateSecretAction_def toggleHostAction_def updateDatabaseSettingsAction_def toggleDatabaseAction_def createEndpointAction_def updateEndpointAction_def toggleEndpointAction_def deleteEndpointAction_def checkEndpointNowAction_def registerDeviceAction_def updateDeviceAction_def toggleDeviceAction_def deleteDeviceAction_def createNodeAction_def deleteNodeAction_def createDependencyAction_def deleteDependencyAction_def updateNodePositionAction_def connectNodesAction_def saveLayoutAction_def acknowledgeIncidentAction_def resolveIncidentAction_def reopenIncidentAction_def addIncidentNoteAction_def reanalyzeIncidentAction_def createAlertRuleAction_def updateAlertRuleAction_def toggleAlertRuleAction_def deleteAlertRuleAction_def testAlertRuleNotificationAction_def createRemediationActionAction_def updateRemediationActionAction_def toggleRemediationActionAction_def deleteRemediationActionAction_def runRemediationAction_def approveExecutionAction_def cancelExecutionAction_def inviteMemberAction_def revokeInvitationAction_def changeRoleAction_def removeMemberAction_def

section \<open>Authority\<close>

text \<open>A live session of an active user who is, at this moment, a member with a role that has the permission.\<close>

definition live_session :: "(string \<Rightarrow> string) \<Rightarrow> string \<Rightarrow> ms \<Rightarrow> db \<Rightarrow> session_row \<Rightarrow> user_row \<Rightarrow> bool" where
  "live_session h tok now d s u \<longleftrightarrow> s \<in> set (sessions d) \<and> s_tokenHash s = h tok \<and> s_revokedAt s = None
     \<and> now < s_expiresAt s \<and> now < s_absoluteExpiresAt s \<and> u \<in> set (users d) \<and> u_id u = s_userId s \<and> u_disabledAt u = None"

definition acts_for :: "web_context \<Rightarrow> permission option \<Rightarrow> db \<Rightarrow> user_row \<Rightarrow> membership_row \<Rightarrow> bool" where
  "acts_for x p d u m \<longleftrightarrow> (\<exists>tok s. readSessionToken (wx_config x) (wx_request x) = Some tok
     \<and> live_session (wx_hashToken x) tok (wq_now (wx_request x)) d s u)
     \<and> m \<in> set (memberships d) \<and> m_userId m = u_id u \<and> (case p of None \<Rightarrow> True | Some perm \<Rightarrow> can (Some (m_role m)) perm)"

lemma user_memberships_row:
  assumes "sm \<in> set (user_memberships d uid)"
  shows "\<exists>m \<in> set (memberships d). m_userId m = uid \<and> m_orgId m = sm_orgId sm \<and> m_role m = sm_role sm"
proof -
  from assms obtain m og where m: "m \<in> set (memberships d)" "m_userId m = uid"
    and og: "find_first (\<lambda>og. o_id og = m_orgId m) (organizations d) = Some og"
    and sm: "sm_orgId sm = o_id og" "sm_role sm = m_role m"
    by (auto simp: user_memberships_def query_simps split: option.splits) (metis (no_types))
  with find_first_SomeD[OF og] show ?thesis by auto
qed

lemma validated_live:
  assumes "validateSession h tok now d = (d1, Some ctx)"
  shows "\<exists>s u. live_session h tok now d s u \<and> su_id (sc_user ctx) = u_id u
     \<and> sc_activeOrg ctx = choose_active (s_activeOrgId s) (user_memberships d (u_id u))"
  using validateSession_Some[OF assms] by (fastforce simp: live_session_def dest!: find_first_SomeD)

lemma authorize_ok:
  assumes "authorize (wx_hashToken x) (wx_config x) (wx_request x) p d = (d1, ok a)"
  shows "\<exists>u m. acts_for x p d u m \<and> a_userId (ax_actor a) = u_id u \<and> a_orgId (ax_actor a) = m_orgId m \<and> a_role (ax_actor a) = m_role m"
proof -
  from assms obtain ctx sm where run: "getSession (wx_hashToken x) (wx_config x) (wx_request x) d = (d1, Some ctx)"
    and sm: "sc_activeOrg ctx = Some sm" and perm: "case p of None \<Rightarrow> True | Some perm \<Rightarrow> can (Some (sm_role sm)) perm"
    and a: "ax_actor a = session_actor (wx_config x) (wx_request x) ctx sm"
    by (auto simp: authorize_def split: prod.splits option.splits if_splits)
  from run obtain tok where tok: "readSessionToken (wx_config x) (wx_request x) = Some tok"
    and v: "validateSession (wx_hashToken x) tok (wq_now (wx_request x)) d = (d1, Some ctx)"
    by (auto simp: getSession_def non_empty_Some split: option.splits)
  from validated_live[OF v] obtain s u where s: "live_session (wx_hashToken x) tok (wq_now (wx_request x)) d s u"
    "su_id (sc_user ctx) = u_id u" "sc_activeOrg ctx = choose_active (s_activeOrgId s) (user_memberships d (u_id u))" by blast
  from user_memberships_row[OF choose_active_in, of "s_activeOrgId s" d "u_id u" sm] s(3) sm obtain m
    where "m \<in> set (memberships d)" "m_userId m = u_id u" "m_orgId m = sm_orgId sm" "m_role m = sm_role sm" by auto
  then show ?thesis using tok s(1,2) perm a
    by (intro exI[of _ u] exI[of _ m]) (auto simp: acts_for_def session_actor_def split: option.splits)
qed

text \<open>Looking the session up writes at most the session's own refresh.\<close>

lemma getSession_writes: "fst (getSession h c q d) = d\<lparr>sessions := sessions (fst (getSession h c q d))\<rparr>"
  by (auto simp: getSession_def validateSession_def Let_def split: option.splits)

lemma with_actor_authorized:
  "fst (with_actor x p f d) = fst (getSession (wx_hashToken x) (wx_config x) (wx_request x) d)
   \<or> (\<exists>a d1. authorize (wx_hashToken x) (wx_config x) (wx_request x) p d = (d1, ok a))"
  by (auto simp: with_actor_def refuse_def authorize_def split: prod.splits option.splits if_splits)

lemma run_web_authorized:
  "fst (run_web x w v act d) = fst (getSession (wx_hashToken x) (wx_config x) (wx_request x) d)
   \<or> (\<exists>a d1. authorize (wx_hashToken x) (wx_config x) (wx_request x) (permission_of act) d = (d1, ok a))"
proof (cases act)
  case (W_updateNodePosition i px py)
  then show ?thesis
    by (auto simp: web_effect_def updateNodePositionAction_def authorize_def split: prod.splits option.splits if_splits)
qed (simp_all only: run_web.simps permission_of.simps web_effect_def fst_conv web_action_defs with_actor_authorized)


section \<open>Ranges\<close>

definition endpoint_typed :: "endpoint_row \<Rightarrow> bool" where
  "endpoint_typed e = (10 \<le> ep_intervalSec e \<and> ep_intervalSec e \<le> 86400 \<and> 100 \<le> ep_timeoutMs e \<and> ep_timeoutMs e \<le> 120000
     \<and> 100 \<le> ep_expectedStatus e \<and> ep_expectedStatus e \<le> 599 \<and> 0 \<le> ep_slaTargetPercent e \<and> ep_slaTargetPercent e \<le> 100)"

definition device_typed :: "network_device_row \<Rightarrow> bool" where
  "device_typed x = (10 \<le> nd_pollIntervalSec x \<and> nd_pollIntervalSec x \<le> 86400 \<and> 1 \<le> nd_snmpPort x \<and> nd_snmpPort x \<le> 65535
     \<and> 100 \<le> nd_snmpTimeoutMs x \<and> nd_snmpTimeoutMs x \<le> 60000 \<and> 0 \<le> nd_snmpRetries x \<and> nd_snmpRetries x \<le> 10)"

definition rule_typed :: "alert_rule_row \<Rightarrow> bool" where
  "rule_typed r = (0 \<le> ar_durationSec r \<and> ar_durationSec r \<le> 86400 \<and> 60 \<le> ar_cooldownSec r \<and> ar_cooldownSec r \<le> 86400
     \<and> (ar_threshold r = None \<longrightarrow> ar_operator r = None))"

definition database_typed :: "database_row \<Rightarrow> bool" where
  "database_typed b = (1 \<le> db_slowQueryThresholdMs b \<and> db_slowQueryThresholdMs b \<le> 600000)"

definition action_typed :: "remediation_action_row \<Rightarrow> bool" where
  "action_typed r = (1 \<le> ra_timeoutSec r \<and> ra_timeoutSec r \<le> 3600 \<and> 0 \<le> ra_cooldownSec r \<and> ra_cooldownSec r \<le> 86400
     \<and> 1 \<le> ra_maxRunsPerHour r \<and> ra_maxRunsPerHour r \<le> 60)"

definition settings_typed :: "db \<Rightarrow> bool" where
  "settings_typed d \<longleftrightarrow> list_all endpoint_typed (endpointChecks d) \<and> list_all device_typed (networkDevices d)
     \<and> list_all rule_typed (alertRules d) \<and> list_all database_typed (databaseInstances d) \<and> list_all action_typed (remediationActions d)"

lemmas row_typed_defs = endpoint_typed_def device_typed_def rule_typed_def database_typed_def action_typed_def

text \<open>What the forms accept is in range.\<close>

lemma endpointSchema_typed:
  assumes "endpointSchema fd = Some inp"
  shows "endpoint_typed (endpoint_settings inp href e)"
  using assms
  by (auto simp: endpointSchema_def endpoint_typed_def endpoint_settings_def bind_eq_Some_conv dest!: schema_bounds)

lemma deviceSchema_typed:
  assumes "deviceSchema fd = Some inp"
  shows "10 \<le> di_pollIntervalSec inp \<and> di_pollIntervalSec inp \<le> 86400 \<and> 1 \<le> di_snmpPort inp \<and> di_snmpPort inp \<le> 65535
     \<and> 100 \<le> di_snmpTimeoutMs inp \<and> di_snmpTimeoutMs inp \<le> 60000 \<and> 0 \<le> di_snmpRetries inp \<and> di_snmpRetries inp \<le> 10"
  using assms by (auto simp: deviceSchema_def bind_eq_Some_conv dest!: f_int_bounds)

lemma ruleSchema_typed:
  assumes "ruleSchema w fd = Some inp"
  shows "0 \<le> ri_durationSec inp \<and> ri_durationSec inp \<le> 86400 \<and> 60 \<le> ri_cooldownSec inp \<and> ri_cooldownSec inp \<le> 86400
     \<and> (ri_threshold inp = None \<longrightarrow> ri_operator inp = None)"
  using assms by (auto simp: ruleSchema_def bind_eq_Some_conv dest!: f_int_bounds)

lemma databaseSchema_typed:
  assumes "databaseSchema fd = Some inp"
  shows "1 \<le> ds_slowQueryThresholdMs inp \<and> ds_slowQueryThresholdMs inp \<le> 600000"
  using assms by (auto simp: databaseSchema_def bind_eq_Some_conv dest!: f_int_bounds)

lemma field_ok: "field v code f = ok r \<longleftrightarrow> (\<exists>y. v = Some y \<and> f y = ok r)"
  by (auto simp: field_def split: option.splits)

lemma parseAction_typed:
  assumes "parseAction fd = ok inp"
  shows "1 \<le> ai_timeoutSec inp \<and> ai_timeoutSec inp \<le> 3600 \<and> 0 \<le> ai_cooldownSec inp \<and> ai_cooldownSec inp \<le> 86400
     \<and> 1 \<le> ai_maxRunsPerHour inp \<and> ai_maxRunsPerHour inp \<le> 60"
  using assms by (auto simp: parseAction_def field_ok dest!: f_int_bounds)

text \<open>Operations on the other tables leave the settings alone.\<close>

definition same_settings :: "db \<Rightarrow> db \<Rightarrow> bool" where
  "same_settings d d' \<longleftrightarrow> endpointChecks d' = endpointChecks d \<and> networkDevices d' = networkDevices d \<and> alertRules d' = alertRules d
     \<and> databaseInstances d' = databaseInstances d \<and> remediationActions d' = remediationActions d"

lemma same_settings_typed: "same_settings d d' \<Longrightarrow> settings_typed d \<Longrightarrow> settings_typed d'"
  by (simp add: same_settings_def settings_typed_def)

lemma list_all_update: "list_all T t \<Longrightarrow> (\<And>r. T r \<Longrightarrow> T (f r)) \<Longrightarrow> list_all T (update_many P f t)"
  by (auto simp: list_all_iff set_update_many)

lemma list_all_delete: "list_all T t \<Longrightarrow> list_all T (delete_many P t)"
  by (auto simp: list_all_iff query_simps)

lemma list_all_insert: "list_all T (insert_row r t) \<longleftrightarrow> list_all T t \<and> T r"
  by (auto simp: list_all_iff query_simps)

named_theorems unrelated \<open>operations that leave the settings alone\<close>

lemma recordAudit_settings: "same_settings d (recordAudit g k e d') = same_settings d d'"
  by (simp add: same_settings_def recordAudit_def)

lemma host_ops_unrelated [unrelated]:
  "same_settings d (fst (registerHost c key rnd g a n dn d))" "same_settings d (fst (rotateHostSecret c key rnd g a i now d))"
  "same_settings d (fst (setHostEnabled g a i en d))"
  by (auto simp: registerHost_def rotateHostSecret_def setHostEnabled_def same_settings_def recordAudit_def Let_def
      split: prod.splits option.splits)

lemma move_nodes_settings: "same_settings d (move_nodes a i px py d') = same_settings d d'"
  by (simp add: same_settings_def move_nodes_def)

lemma positions_unrelated:
  fixes r :: "(nat, topology_write_error) result"
  assumes "same_settings d0 d"
  shows "same_settings d0 (fst (fold (\<lambda>(nid, x, y) (d, r). (move_nodes a nid x y d,
     case r of ok n \<Rightarrow> ok (n + count_rows (node_in_org a nid) (topologyNodes d)) | fail e \<Rightarrow> fail e)) ps (d, r)))"
  using assms by (induction ps arbitrary: d r) (auto simp: move_nodes_settings)

lemma topology_ops_unrelated [unrelated]:
  "same_settings d (fst (createNode g a ni d))" "same_settings d (fst (deleteNode g a i d))"
  "same_settings d (fst (createDependency g a ci d))" "same_settings d (fst (deleteDependency g a i d))"
  "same_settings d (fst (updateNodePosition a i px py d))"
  by (auto simp: createNode_def deleteNode_def delete_nodes_def createDependency_def deleteDependency_def updateNodePosition_def move_nodes_def
      same_settings_def recordAudit_def Let_def split: option.splits)

lemma positions_op_unrelated [unrelated]: "same_settings d (fst (updateNodePositions a ps d))"
proof -
  have "same_settings d d" by (simp add: same_settings_def)
  then show ?thesis using positions_unrelated[of d d a ps "ok 0"] by (simp add: updateNodePositions_def)
qed

lemma incident_ops_unrelated [unrelated]:
  "same_settings d (fst (acknowledgeIncident g a i now d))" "same_settings d (fst (resolveIncident g a i note now d))"
  "same_settings d (fst (reopenIncident g a i d))" "same_settings d (fst (addIncidentNote g a i msg d))"
  by (auto simp: acknowledgeIncident_def resolveIncident_def reopenIncident_def addIncidentNote_def set_incident_def add_event_def
      same_settings_def Let_def split: option.splits)

lemma reanalyze_unrelated [unrelated]: "same_settings d (fst (reanalyzeIncident coll g w a i now d))"
  by (auto simp: reanalyzeIncident_def refreshIncidentRca_def store_findings_def same_settings_def Let_def case_prod_beta split: option.splits)

lemma test_unrelated [unrelated]: "same_settings d (fst (sendTestNotification sn g a i ap u d))"
  by (auto simp: sendTestNotification_def same_settings_def recordAudit_def Let_def split: option.splits)

lemma execution_ops_unrelated [unrelated]:
  "same_settings d (fst (requestRun sh g a i hid now d))" "same_settings d (fst (approveExecution g a i now d))"
  "same_settings d (fst (cancelExecution g a i now d))"
  by (auto simp: requestRun_def createExecution_def approveExecution_def approve_commit_def cancelExecution_def same_settings_def recordAudit_def Let_def
      split: option.splits result.splits)

lemma member_ops_unrelated [unrelated]:
  "same_settings d (fst (createInvitation h g tok a em r now d))" "same_settings d (fst (revokeInvitation g a i now d))"
  "same_settings d (fst (changeMemberRole g a i r d))" "same_settings d (fst (removeMember g a i d))"
  by (auto simp: createInvitation_def revokeInvitation_def changeMemberRole_def removeMember_def same_settings_def recordAudit_def Let_def
      split: option.splits)

text \<open>The operations on the settings keep them in range when their input is.\<close>

lemma endpoint_ops_typed:
  assumes "settings_typed d"
  shows "(\<And>href e. endpoint_typed (endpoint_settings inp href e)) \<Longrightarrow> settings_typed (fst (createEndpoint pu g a inp d))"
    and "(\<And>href e. endpoint_typed (endpoint_settings inp href e)) \<Longrightarrow> settings_typed (fst (updateEndpoint pu g a i inp d))"
    and "settings_typed (fst (setEndpointEnabled g a i en d))" and "settings_typed (fst (deleteEndpoint g a i d))"
    and "settings_typed (fst (requestEndpointCheck a i d))"
  using assms
  by (auto simp: createEndpoint_def updateEndpoint_def setEndpointEnabled_def deleteEndpoint_def requestEndpointCheck_def settings_typed_def
      recordAudit_def new_endpoint_def list_all_insert Let_def intro!: list_all_update list_all_delete split: option.splits)
    (auto simp: endpoint_typed_def)

lemma device_ops_typed:
  assumes "settings_typed d"
  shows "deviceSchema fd = Some inp \<Longrightarrow> settings_typed (fst (registerDevice c key rnd g a inp d))"
    and "deviceSchema fd = Some inp \<Longrightarrow> settings_typed (fst (updateDevice c key rnd g a i inp d))"
    and "settings_typed (fst (setDeviceEnabled g a i en d))" and "settings_typed (fst (deleteDevice g a i d))"
  using assms deviceSchema_typed[of fd inp]
  by (auto simp: registerDevice_def updateDevice_def setDeviceEnabled_def deleteDevice_def settings_typed_def recordAudit_def
      registered_device_def list_all_insert Let_def intro!: list_all_update list_all_delete split: option.splits)
    (auto simp: device_typed_def device_settings_def credentialFields_def)

lemma rule_ops_typed:
  assumes "settings_typed d"
  shows "ruleSchema w fd = Some inp \<Longrightarrow> settings_typed (fst (createAlertRule pu g a inp ap d))"
    and "ruleSchema w fd = Some inp \<Longrightarrow> settings_typed (fst (updateAlertRule pu g a i inp ap d))"
    and "settings_typed (fst (setAlertRuleEnabled g a i en d))" and "settings_typed (fst (deleteAlertRule g a i d))"
  using assms ruleSchema_typed[of w fd inp]
  by (auto simp: createAlertRule_def updateAlertRule_def setAlertRuleEnabled_def deleteAlertRule_def settings_typed_def recordAudit_def
      list_all_insert Let_def intro!: list_all_update list_all_delete split: option.splits)
    (auto simp: rule_typed_def rule_row_def apply_rule_input_def)

lemma database_ops_typed:
  assumes "settings_typed d"
  shows "databaseSchema fd = Some inp \<Longrightarrow> settings_typed (fst (updateDatabaseSettings g a i inp d))"
    and "settings_typed (fst (setDatabaseEnabled g a i en d))"
  using assms databaseSchema_typed[of fd inp]
  by (auto simp: updateDatabaseSettings_def setDatabaseEnabled_def write_database_def settings_typed_def recordAudit_def Let_def
      intro!: list_all_update) (auto simp: database_typed_def)

lemma remediation_ops_typed:
  assumes "settings_typed d"
  shows "parseAction fd = ok inp \<Longrightarrow> settings_typed (fst (createRemediationAction sh g a inp d))"
    and "parseAction fd = ok inp \<Longrightarrow> settings_typed (fst (updateRemediationAction sh g a i inp d))"
    and "settings_typed (fst (setRemediationActionEnabled g a i en d))" and "settings_typed (fst (deleteRemediationAction g a i d))"
  using assms parseAction_typed[of fd inp]
  by (auto simp: createRemediationAction_def updateRemediationAction_def setRemediationActionEnabled_def deleteRemediationAction_def
      settings_typed_def recordAudit_def list_all_insert Let_def intro!: list_all_update list_all_delete split: option.splits)
    (auto simp: action_typed_def rule_typed_def)

text \<open>The shape of an action carries an invariant of its business function to the action.\<close>

lemma with_actor_keeps:
  assumes "settings_typed d" and "\<And>a d1. settings_typed d1 \<Longrightarrow> settings_typed (fst (f a d1))"
  shows "settings_typed (fst (with_actor x p f d))"
proof -
  have "same_settings d (fst (getSession (wx_hashToken x) (wx_config x) (wx_request x) d))"
    by (subst getSession_writes) (simp add: same_settings_def)
  moreover have "fst (authorize (wx_hashToken x) (wx_config x) (wx_request x) p d) = fst (getSession (wx_hashToken x) (wx_config x) (wx_request x) d)"
    by (auto simp: authorize_def split: prod.splits option.splits)
  ultimately have "settings_typed (fst (authorize (wx_hashToken x) (wx_config x) (wx_request x) p d))"
    using same_settings_typed[OF _ assms(1)] by simp
  then show ?thesis using assms(2)
    by (auto simp: with_actor_def refuse_def split: prod.splits result.splits)
qed

lemma with_input_keeps:
  "settings_typed d \<Longrightarrow> (\<And>v. parsed = Some v \<Longrightarrow> settings_typed (fst (f v d))) \<Longrightarrow> settings_typed (fst (with_input parsed code f d))"
  by (auto simp: with_input_def refuse_def split: option.splits)

lemma with_parsed_keeps:
  "settings_typed d \<Longrightarrow> (\<And>v. parsed = ok v \<Longrightarrow> settings_typed (fst (f v d))) \<Longrightarrow> settings_typed (fst (with_parsed parsed f d))"
  by (auto simp: with_parsed_def refuse_def split: result.splits)

lemma settle_fst [simp]: "fst (settle code answer r) = fst r"
  by (auto simp: settle_def refuse_def split: prod.splits result.splits)

lemma position_action_typed:
  assumes "settings_typed d"
  shows "settings_typed (fst (updateNodePositionAction x i px py d))"
proof -
  define step :: "actor_context \<Rightarrow> db \<Rightarrow> unit response" where
    "step = (\<lambda>a d. case positionSchema (i, px, py) of None \<Rightarrow> (d, [], No_reply)
       | Some (i', px', py') \<Rightarrow> (fst (updateNodePosition (ax_actor a) i' px' py' d), [], No_reply))"
  have "fst (updateNodePositionAction x i px py d) = fst (with_actor x (Some topology_write) step d)"
    by (auto simp: updateNodePositionAction_def with_actor_def refuse_def step_def split: prod.splits result.splits)
  moreover have "settings_typed (fst (step a d1))" if "settings_typed d1" for a d1
    using that same_settings_typed[OF topology_ops_unrelated(5)] by (auto simp: step_def split: option.split prod.split)
  ultimately show ?thesis using with_actor_keeps[OF assms] by metis
qed

lemmas action_keeps = with_actor_keeps with_input_keeps with_parsed_keeps

lemma run_web_typed:
  assumes "settings_typed d"
  shows "settings_typed (fst (run_web x w v act d))"
proof (cases act)
  case (W_updateNodePosition i px py)
  then show ?thesis using position_action_typed[OF assms] by (simp add: web_effect_def)
qed (simp_all only: run_web.simps web_effect_def fst_conv web_action_defs,
   (intro action_keeps assms; (clarsimp split: prod.split)?;
    ((rule same_settings_typed, rule unrelated, assumption)
     | (rule endpoint_ops_typed device_ops_typed rule_ops_typed database_ops_typed remediation_ops_typed; (assumption | rule endpointSchema_typed, assumption))))+)

definition web_step :: "web_context \<times> resource_world \<times> session_world \<times> web_action \<Rightarrow> db \<Rightarrow> db" where
  "web_step c d = (case c of (x, w, v, act) \<Rightarrow> fst (run_web x w v act d))"

interpretation web_machine: kept_invariant settings_typed web_step
  by unfold_locales (auto simp: web_step_def intro: run_web_typed)

text \<open>C34. What the web stores is well typed: from a database whose settings are in range, any sequence of actions, by anyone and with
  any forms, leads to one whose settings are in range. Intervals, time-outs, ports, retries, cool-downs and hourly caps
  are within the bounds of the forms, and a rule without a threshold has no operator.\<close>

theorem stored_settings_typed:
  assumes "settings_typed d"
  shows "settings_typed (fold web_step cs d)"
  by (rule web_machine.fold_inv[OF assms])

definition sample_endpoint_form :: form_data where
  "sample_endpoint_form = [(''name'', Form_text '' Shop ''), (''url'', Form_text ''https://shop.acme.org''), (''method'', Form_text ''GET''),
     (''expectedStatus'', Form_text ''200''), (''intervalSec'', Form_text ''6e1''), (''timeoutMs'', Form_text ''5000''),
     (''slaTargetPercent'', Form_text ''99.5'')]"

lemma sample_numbers:
  "js_number ''200'' = Some 200" "js_number ''6e1'' = Some 60" "js_number ''5000'' = Some 5000" "js_number ''99.5'' = Some (199 / 2)"
  by (simp_all add: number_eval)

lemma sample_endpoint_schema:
  "endpointSchema sample_endpoint_form = Some \<lparr>ei_name = ''Shop'', ei_url = ''https://shop.acme.org'', ei_method = GET, ei_expectedStatus = 200,
     ei_expectedBodyContains = None, ei_intervalSec = 60, ei_timeoutMs = 5000, ei_tags = [], ei_followRedirects = True, ei_verifySsl = True,
     ei_slaTargetPercent = 199 / 2\<rparr>"
  by (simp add: endpointSchema_def sample_endpoint_form_def form_entry_def f_trimmed_def f_when_def f_string_def f_enum_def f_int_def f_number_def
      f_optional_def sample_numbers HttpMethod_def names_of_def comma_list_def js_trim_def js_space_def code_unit_def)

definition sample_resources :: resource_world where
  "sample_resources = \<lparr>rw_gen = sample_gen, rw_gcm = \<lparr>seal = \<lambda>k i s a. ([], []), unseal = \<lambda>k i a s t. None\<rparr>, rw_key = [],
     rw_agentRandom = \<lparr>rnd_key = [], rnd_secret = [], rnd_iv = []\<rparr>,
     rw_deviceRandom = \<lparr>dx_id = \<lambda>n. 0, dx_community = \<lambda>n. 0, dx_authKey = \<lambda>n. 0, dx_privKey = \<lambda>n. 0\<rparr>,
     rw_parseUrl = \<lambda>u. None, rw_parseCheckUrl = \<lambda>u. Some (\<lparr>url_protocol = ''https:'', url_hostname = ''shop.acme.org''\<rparr>, u),
     rw_isEmail = \<lambda>e. True, rw_isUrl = \<lambda>u. True, rw_senders = sample_senders, rw_allowPrivateWebhooks = False,
     rw_scriptSha256 = rev, rw_collate = \<lambda>i. 0, rw_wantsLlm = False, rw_random = (0, 0)\<rparr>"

text \<open>Ann of Acme, signed in.\<close>

definition ann_db :: db where
  "ann_db = sample_db\<lparr>sessions := [\<lparr>s_id = ''s1'', s_userId = ''ann'', s_tokenHash = rev ''tok'', s_activeOrgId = Some ''acme'', s_createdAt = 0,
     s_lastUsedAt = 0, s_expiresAt = 43200000, s_absoluteExpiresAt = 604800000, s_ipAddress = None, s_userAgent = None, s_revokedAt = None\<rparr>]\<rparr>"

text \<open>Ann, signed in, adds a check; the database then holds it with the settings of the form.\<close>

definition sample_visit_context :: web_context where
  "sample_visit_context = sample_context [(''__Host-ikm_session'', ''tok'')] 60000"

definition sample_added :: db where
  "sample_added = web_step (sample_visit_context, sample_resources, sample_world, W_createEndpoint sample_endpoint_form) ann_db"

definition ready_owner :: "db \<times> (actor_context, authorization_error) result \<Rightarrow> bool" where
  "ready_owner r = (case r of (d1, ok a) \<Rightarrow> a_role (ax_actor a) = OWNER \<and> endpointChecks d1 = [] | (d1, fail e) \<Rightarrow> False)"

lemma sample_authorized:
  "ready_owner (authorize rev sample_config (sample_visit [(''__Host-ikm_session'', ''tok'')] 60000) (Some endpoints_write) ann_db)"
  by code_simp

lemma sample_added_endpoints: "map ep_intervalSec (endpointChecks sample_added) = [60]"
proof -
  obtain d1 a where au: "authorize rev sample_config (sample_visit [(''__Host-ikm_session'', ''tok'')] 60000) (Some endpoints_write) ann_db = (d1, ok a)"
    and a: "a_role (ax_actor a) = OWNER" "endpointChecks d1 = []"
    using sample_authorized by (auto simp: ready_owner_def split: prod.splits result.splits)
  have "can (Some OWNER) endpoints_write" by code_simp
  then show ?thesis using au a
    by (simp add: sample_added_def web_step_def web_effect_def createEndpointAction_def with_actor_def with_input_def sample_endpoint_schema
        sample_visit_context_def sample_context_def createEndpoint_def sample_resources_def normalizeUrl_def or_null_def
        recordAudit_def insert_row_def new_endpoint_def endpoint_settings_def)
qed

lemma sample_session_settings: "settings_typed ann_db"
  by (simp add: settings_typed_def ann_db_def sample_db_def empty_db_def)

theorem stored_settings_typed_witness:
  "settings_typed (fold web_step [(sample_visit_context, sample_resources, sample_world, W_createEndpoint sample_endpoint_form)] ann_db)
   \<and> map ep_intervalSec (endpointChecks sample_added) = [60]"
  using stored_settings_typed[OF sample_session_settings] sample_added_endpoints by blast

end
