(* ===== verification/Web_Tenancy.thy ===== *)
theory Web_Tenancy
  imports Web_Actions
begin

text \<open>
  Organizations and the web: which rows an action can reach. \<open>same_rows\<close> compares the rows of one organization
  in all the tables that have an owner; \<open>tidy\<close> is what the schema guarantees of them: primary keys, and
  references that stay within an organization.
\<close>

section \<open>Rows of an organization\<close>

definition same_for :: "('r \<Rightarrow> ident) \<Rightarrow> ident \<Rightarrow> 'r list \<Rightarrow> 'r list \<Rightarrow> bool" where
  "same_for owner org t t' \<longleftrightarrow> filter (\<lambda>r. owner r = org) t' = filter (\<lambda>r. owner r = org) t"

lemma same_for_refl [simp]: "same_for owner org t t"
  by (simp add: same_for_def)

lemma same_for_insert: "owner r \<noteq> org \<Longrightarrow> same_for owner org t (insert_row r t)"
  by (simp add: same_for_def insert_row_def)

lemma same_for_update:
  "(\<And>r. r \<in> set t \<Longrightarrow> P r \<Longrightarrow> owner r \<noteq> org) \<Longrightarrow> (\<And>r. owner (f r) = owner r) \<Longrightarrow> same_for owner org t (update_many P f t)"
  unfolding same_for_def by (intro filter_update_many) simp

lemma same_for_delete: "(\<And>r. r \<in> set t \<Longrightarrow> P r \<Longrightarrow> owner r \<noteq> org) \<Longrightarrow> same_for owner org t (delete_many P t)"
  unfolding same_for_def by (intro filter_delete_many) simp

lemma same_for_trans: "same_for owner org t t' \<Longrightarrow> same_for owner org t' t'' \<Longrightarrow> same_for owner org t t''"
  by (simp add: same_for_def)

text \<open>With unique keys, the row found under a key in an organization is the only one with that key.\<close>

lemma found_owner:
  assumes "distinct (map key t)" and "find_first (\<lambda>r. key r = k \<and> owner r = o') t = Some s" and "r \<in> set t" and "key r = k"
  shows "owner r = o'"
proof -
  from find_first_SomeD[OF assms(2)] have "s \<in> set t" "key s = k" "owner s = o'" by auto
  with assms(1,3,4) have "r = s" by (auto simp: distinct_map dest: inj_onD)
  with \<open>owner s = o'\<close> show ?thesis by simp
qed

definition same_rows :: "ident \<Rightarrow> db \<Rightarrow> db \<Rightarrow> bool" where
  "same_rows org d d' \<longleftrightarrow>
     same_for m_orgId org (memberships d) (memberships d') \<and> same_for i_orgId org (invitations d) (invitations d')
   \<and> same_for h_orgId org (monitoredHosts d) (monitoredHosts d') \<and> same_for nd_orgId org (networkDevices d) (networkDevices d')
   \<and> same_for db_orgId org (databaseInstances d) (databaseInstances d') \<and> same_for ep_orgId org (endpointChecks d) (endpointChecks d')
   \<and> same_for ar_orgId org (alertRules d) (alertRules d') \<and> same_for in_orgId org (incidents d) (incidents d')
   \<and> same_for ra_orgId org (remediationActions d) (remediationActions d') \<and> same_for re_orgId org (remediationExecutions d) (remediationExecutions d')
   \<and> same_for tn_orgId org (topologyNodes d) (topologyNodes d') \<and> same_for sd_orgId org (serviceDependencies d) (serviceDependencies d')"

lemma same_rows_refl [simp]: "same_rows org d d"
  by (simp add: same_rows_def)

lemma same_rows_trans: "same_rows org d d' \<Longrightarrow> same_rows org d' d'' \<Longrightarrow> same_rows org d d''"
  unfolding same_rows_def by (auto intro: same_for_trans)

lemma same_rows_log [simp]:
  "same_rows org d (recordAudit g k e d') = same_rows org d d'" "same_rows org d (add_event ev d') = same_rows org d d'"
  "same_rows org d (d'\<lparr>sessions := ss\<rparr>) = same_rows org d d'"
  by (simp_all add: same_rows_def recordAudit_def add_event_def)

text \<open>Writing one table.\<close>

lemma same_rows_table [simp]:
  "same_rows org d (d\<lparr>memberships := t1\<rparr>) = same_for m_orgId org (memberships d) t1"
  "same_rows org d (d\<lparr>invitations := t2\<rparr>) = same_for i_orgId org (invitations d) t2"
  "same_rows org d (d\<lparr>monitoredHosts := t3\<rparr>) = same_for h_orgId org (monitoredHosts d) t3"
  "same_rows org d (d\<lparr>networkDevices := t4\<rparr>) = same_for nd_orgId org (networkDevices d) t4"
  "same_rows org d (d\<lparr>databaseInstances := t5\<rparr>) = same_for db_orgId org (databaseInstances d) t5"
  "same_rows org d (d\<lparr>endpointChecks := t6\<rparr>) = same_for ep_orgId org (endpointChecks d) t6"
  "same_rows org d (d\<lparr>alertRules := t7\<rparr>) = same_for ar_orgId org (alertRules d) t7"
  "same_rows org d (d\<lparr>incidents := t8\<rparr>) = same_for in_orgId org (incidents d) t8"
  "same_rows org d (d\<lparr>remediationActions := t9\<rparr>) = same_for ra_orgId org (remediationActions d) t9"
  "same_rows org d (d\<lparr>remediationExecutions := t10\<rparr>) = same_for re_orgId org (remediationExecutions d) t10"
  "same_rows org d (d\<lparr>topologyNodes := t11\<rparr>) = same_for tn_orgId org (topologyNodes d) t11"
  "same_rows org d (d\<lparr>serviceDependencies := t12\<rparr>) = same_for sd_orgId org (serviceDependencies d) t12"
  by (simp_all add: same_rows_def)

definition refers_home :: "('r \<Rightarrow> ident option) \<Rightarrow> ('r \<Rightarrow> ident) \<Rightarrow> ('s \<Rightarrow> ident) \<Rightarrow> ('s \<Rightarrow> ident) \<Rightarrow> 'r list \<Rightarrow> 's list \<Rightarrow> bool" where
  "refers_home ref owner key owner' t t' \<longleftrightarrow> (\<forall>r \<in> set t. \<forall>s \<in> set t'. ref r = Some (key s) \<longrightarrow> owner r = owner' s)"

definition tidy :: "db \<Rightarrow> bool" where
  "tidy d \<longleftrightarrow> distinct (map h_id (monitoredHosts d)) \<and> distinct (map nd_id (networkDevices d)) \<and> distinct (map m_id (memberships d))
     \<and> distinct (map ra_id (remediationActions d)) \<and> distinct (map in_id (incidents d)) \<and> distinct (map re_id (remediationExecutions d))
     \<and> refers_home ar_remediationActionId ar_orgId ra_id ra_orgId (alertRules d) (remediationActions d)
     \<and> refers_home (\<lambda>e. Some (re_actionId e)) re_orgId ra_id ra_orgId (remediationExecutions d) (remediationActions d)
     \<and> refers_home in_ruleId in_orgId ar_id ar_orgId (incidents d) (alertRules d)
     \<and> refers_home (\<lambda>e. Some (sd_parentNodeId e)) sd_orgId tn_id tn_orgId (serviceDependencies d) (topologyNodes d)
     \<and> refers_home (\<lambda>e. Some (sd_childNodeId e)) sd_orgId tn_id tn_orgId (serviceDependencies d) (topologyNodes d)"

section \<open>The business functions stay at home\<close>

definition visitor :: "ident \<Rightarrow> actor \<Rightarrow> db \<Rightarrow> bool" where
  "visitor org a d \<longleftrightarrow> a_orgId a \<noteq> org \<and> tidy d"

named_theorems home \<open>operations that leave the rows of other organizations alone\<close>

lemma host_ops_home [home]:
  assumes "visitor org a d"
  shows "same_rows org d (fst (registerHost c key rnd g a n dn d))" and "same_rows org d (fst (setHostEnabled g a i en d))"
  using assms
  by (auto simp: visitor_def registerHost_def setHostEnabled_def new_host_def Let_def intro!: same_for_insert same_for_update split: prod.splits)

lemma rotate_home [home]:
  assumes "visitor org a d"
  shows "same_rows org d (fst (rotateHostSecret c key rnd g a i now d))"
proof (cases "find_first (\<lambda>h. h_id h = i \<and> h_orgId h = a_orgId a) (monitoredHosts d)")
  case (Some host)
  have "h_orgId r \<noteq> org" if "r \<in> set (monitoredHosts d)" "h_id r = h_id host" for r
    using found_owner[OF _ Some that(1)] that(2) find_first_SomeD[OF Some] assms by (auto simp: visitor_def tidy_def)
  then show ?thesis using Some by (auto simp: rotateHostSecret_def Let_def rotate_upd_def intro!: same_for_update)
qed (simp add: rotateHostSecret_def)

lemma database_ops_home [home]:
  assumes "visitor org a d"
  shows "same_rows org d (fst (updateDatabaseSettings g a i s d))" and "same_rows org d (fst (setDatabaseEnabled g a i en d))"
  using assms
  by (auto simp: visitor_def updateDatabaseSettings_def setDatabaseEnabled_def write_database_def Let_def intro!: same_for_update)

lemma endpoint_ops_home [home]:
  assumes "visitor org a d"
  shows "same_rows org d (fst (createEndpoint pu g a inp d))" and "same_rows org d (fst (updateEndpoint pu g a i inp d))"
    and "same_rows org d (fst (setEndpointEnabled g a i en d))" and "same_rows org d (fst (deleteEndpoint g a i d))"
    and "same_rows org d (fst (requestEndpointCheck a i d))"
  using assms
  by (auto simp: visitor_def createEndpoint_def updateEndpoint_def setEndpointEnabled_def deleteEndpoint_def requestEndpointCheck_def
      new_endpoint_def endpoint_settings_def endpoint_in_org_def Let_def intro!: same_for_insert same_for_update same_for_delete split: option.split)

lemma device_ops_home [home]:
  assumes "visitor org a d"
  shows "same_rows org d (fst (registerDevice c key rnd g a inp d))" and "same_rows org d (fst (setDeviceEnabled g a i en d))"
    and "same_rows org d (fst (deleteDevice g a i d))"
  using assms
  by (auto simp: visitor_def registerDevice_def setDeviceEnabled_def deleteDevice_def registered_device_def credentialFields_def device_in_org_def
      same_rows_def recordAudit_def Let_def intro!: same_for_insert same_for_update same_for_delete)

lemma update_device_home [home]:
  assumes "visitor org a d"
  shows "same_rows org d (fst (updateDevice c key rnd g a i inp d))"
proof (cases "find_first (\<lambda>x. nd_id x = i \<and> nd_orgId x = a_orgId a) (networkDevices d)")
  case (Some x)
  have "nd_orgId r \<noteq> org" if "r \<in> set (networkDevices d)" "nd_id r = i" for r
    using found_owner[OF _ Some that] assms by (auto simp: visitor_def tidy_def)
  then show ?thesis using Some
    by (auto simp: updateDevice_def device_settings_def credentialFields_def intro!: same_for_update split: option.splits)
qed (simp add: updateDevice_def)

lemma topology_ops_home [home]:
  assumes "visitor org a d"
  shows "same_rows org d (fst (createNode g a ni d))" and "same_rows org d (fst (createDependency g a ci d))"
    and "same_rows org d (fst (deleteDependency g a i d))" and "same_rows org d (fst (updateNodePosition a i px py d))"
  using assms
  by (auto simp: visitor_def createNode_def createDependency_def deleteDependency_def updateNodePosition_def move_nodes_def node_in_org_def Let_def
      intro!: same_for_insert same_for_update same_for_delete split: option.split)

lemma delete_node_home [home]:
  assumes "visitor org a d"
  shows "same_rows org d (fst (deleteNode g a i d))"
proof -
  have "same_rows org d (delete_nodes a i d)"
  proof (cases "count_rows (node_in_org a i) (topologyNodes d) = 0")
    case False
    then obtain n where n: "n \<in> set (topologyNodes d)" "tn_id n = i" "tn_orgId n = a_orgId a"
      by (auto simp: count_rows_zero node_in_org_def)
    have "sd_orgId e \<noteq> org" if "e \<in> set (serviceDependencies d)" "touches i e" for e
      using that n assms by (fastforce simp: visitor_def tidy_def refers_home_def touches_def)
    then show ?thesis using False assms
      by (auto simp: delete_nodes_def same_rows_def visitor_def node_in_org_def intro!: same_for_delete)
  qed (simp add: delete_nodes_def)
  then show ?thesis by (auto simp: deleteNode_def Let_def)
qed

lemma positions_home [home]:
  assumes "visitor org a d"
  shows "same_rows org d (fst (updateNodePositions a ps d))"
proof -
  have "same_rows org d (fst (fold (\<lambda>(nid, x, y) (d, r). (move_nodes a nid x y d,
      case r of ok n \<Rightarrow> ok (n + count_rows (node_in_org a nid) (topologyNodes d)) | fail e \<Rightarrow> fail e)) ps (d1, r)))"
    if "same_rows org d d1" for d1 and r :: "(nat, topology_write_error) result"
    using that
  proof (induction ps arbitrary: d1 r)
    case (Cons p ps)
    obtain i px py where p: "p = (i, px, py)" by (cases p) auto
    have "same_rows org d1 (move_nodes a i px py d1)"
      using assms by (auto simp: move_nodes_def node_in_org_def visitor_def intro!: same_for_update)
    with Cons.prems have step: "same_rows org d (move_nodes a i px py d1)" by (rule same_rows_trans)
    show ?case unfolding p fold_simps by (simp add: Cons.IH[OF step])
  qed simp
  from this[OF same_rows_refl] show ?thesis by (simp add: updateNodePositions_def)
qed

lemma set_incident_home:
  assumes "visitor org a d" and "find_first (\<lambda>r. in_id r = i \<and> in_orgId r = a_orgId a) (incidents d) = Some r0" and "\<And>r. in_orgId (f r) = in_orgId r"
  shows "same_for in_orgId org (incidents d) (update_many (\<lambda>r. in_id r = i) f (incidents d))"
  using assms found_owner[OF _ assms(2)] by (intro same_for_update) (auto simp: visitor_def tidy_def)

lemma incident_ops_home [home]:
  assumes "visitor org a d"
  shows "same_rows org d (fst (acknowledgeIncident g a i now d))" and "same_rows org d (fst (resolveIncident g a i note now d))"
    and "same_rows org d (fst (reopenIncident g a i d))" and "same_rows org d (fst (addIncidentNote g a i msg d))"
  using set_incident_home[OF assms]
  by (auto simp: acknowledgeIncident_def resolveIncident_def reopenIncident_def addIncidentNote_def ownedIncident_def set_incident_def
      ack_upd_def close_upd_def reopen_upd_def split: option.split)

lemma reanalyze_home [home]:
  assumes "visitor org a d"
  shows "same_rows org d (fst (reanalyzeIncident coll g w a i now d))"
proof (cases "find_first (\<lambda>r. in_id r = i \<and> in_orgId r = a_orgId a) (incidents d)")
  case (Some r)
  then have "in_id r = i" by (auto dest: find_first_SomeD)
  have "same_for in_orgId org (incidents d) (update_many (\<lambda>r. in_id r = i) (findings_upd w now f) (incidents d))" for f
    by (rule set_incident_home[OF assms Some]) (simp add: findings_upd_def)
  then show ?thesis using Some \<open>in_id r = i\<close>
    by (auto simp: reanalyzeIncident_def refreshIncidentRca_def store_findings_def same_rows_def Let_def case_prod_beta)
qed (simp add: reanalyzeIncident_def)

lemma rule_ops_home [home]:
  assumes "visitor org a d"
  shows "same_rows org d (fst (createAlertRule pu g a inp ap d))" and "same_rows org d (fst (updateAlertRule pu g a i inp ap d))"
    and "same_rows org d (fst (setAlertRuleEnabled g a i en d))" and "same_rows org d (fst (sendTestNotification sn g a i ap u d))"
  using assms
  by (auto simp: visitor_def createAlertRule_def updateAlertRule_def setAlertRuleEnabled_def sendTestNotification_def rule_row_def
      apply_rule_input_def rule_in_org_def Let_def intro!: same_for_insert same_for_update split: option.split)

lemma delete_rule_home [home]:
  assumes "visitor org a d"
  shows "same_rows org d (fst (deleteAlertRule g a i d))"
proof (cases "count_rows (rule_in_org a i) (alertRules d) = 1")
  case True
  then obtain r where r: "r \<in> set (alertRules d)" "ar_id r = i" "ar_orgId r = a_orgId a"
    using count_rows_pos[of "rule_in_org a i" "alertRules d"] by (auto simp: rule_in_org_def)
  have "in_orgId x \<noteq> org" if "x \<in> set (incidents d)" "in_ruleId x = Some i" for x
    using that r assms by (fastforce simp: visitor_def tidy_def refers_home_def)
  then show ?thesis using assms
    by (auto simp: deleteAlertRule_def same_rows_def visitor_def rule_in_org_def recordAudit_def intro!: same_for_delete same_for_update)
qed (use assms in \<open>auto simp: deleteAlertRule_def visitor_def rule_in_org_def intro!: same_for_delete\<close>)

lemma action_ops_home [home]:
  assumes "visitor org a d"
  shows "same_rows org d (fst (createRemediationAction sh g a inp d))" and "same_rows org d (fst (setRemediationActionEnabled g a i en d))"
  using assms
  by (auto simp: visitor_def createRemediationAction_def setRemediationActionEnabled_def Let_def intro!: same_for_insert same_for_update split: option.split)

lemma update_action_home [home]:
  assumes "visitor org a d"
  shows "same_rows org d (fst (updateRemediationAction sh g a i inp d))"
proof (cases "find_first (\<lambda>r. ra_id r = i \<and> ra_orgId r = a_orgId a) (remediationActions d)")
  case (Some r)
  have "ra_orgId r \<noteq> org" if "r \<in> set (remediationActions d)" "ra_id r = i" for r
    using found_owner[OF _ Some that] assms by (auto simp: visitor_def tidy_def)
  then show ?thesis using Some by (auto simp: updateRemediationAction_def intro!: same_for_update split: option.split)
qed (simp add: updateRemediationAction_def split: option.split)

lemma delete_action_home [home]:
  assumes "visitor org a d"
  shows "same_rows org d (fst (deleteRemediationAction g a i d))"
proof (cases "count_rows (\<lambda>r. ra_id r = i \<and> ra_orgId r = a_orgId a) (remediationActions d) = 1")
  case True
  then obtain r where r: "r \<in> set (remediationActions d)" "ra_id r = i" "ra_orgId r = a_orgId a"
    using count_rows_pos[of "\<lambda>r. ra_id r = i \<and> ra_orgId r = a_orgId a" "remediationActions d"] by auto
  have "re_orgId x \<noteq> org" if "x \<in> set (remediationExecutions d)" "re_actionId x = i" for x
    using that r assms by (fastforce simp: visitor_def tidy_def refers_home_def)
  moreover have "ar_orgId x \<noteq> org" if "x \<in> set (alertRules d)" "ar_remediationActionId x = Some i" for x
    using that r assms by (fastforce simp: visitor_def tidy_def refers_home_def)
  ultimately show ?thesis using assms
    by (auto simp: deleteRemediationAction_def same_rows_def visitor_def recordAudit_def Let_def intro!: same_for_delete same_for_update)
qed (simp add: deleteRemediationAction_def)

lemma execution_ops_home [home]:
  assumes "visitor org a d"
  shows "same_rows org d (fst (requestRun sh g a i hid now d))" and "same_rows org d (fst (cancelExecution g a i now d))"
  using assms
  by (auto simp: visitor_def requestRun_def createExecution_def new_execution_def cancelExecution_def Let_def
      intro!: same_for_insert same_for_update split: option.split prod.split)

lemma approve_home [home]:
  assumes "visitor org a d"
  shows "same_rows org d (fst (approveExecution g a i now d))"
proof (cases "approve_check a i now d")
  case (ok v)
  then obtain e where e: "find_first (\<lambda>e. re_id e = i \<and> re_orgId e = a_orgId a) (remediationExecutions d) = Some e"
    by (auto simp: approve_check_def split: if_splits option.splits)
  have "re_orgId r \<noteq> org" if "r \<in> set (remediationExecutions d)" "re_id r = i" for r
    using found_owner[OF _ e that] assms by (auto simp: visitor_def tidy_def)
  then show ?thesis using ok by (auto simp: approveExecution_def approve_commit_def Let_def intro!: same_for_update)
qed (simp add: approveExecution_def)

lemma invitation_ops_home [home]:
  assumes "visitor org a d"
  shows "same_rows org d (fst (createInvitation h g tok a em r now d))" and "same_rows org d (fst (revokeInvitation g a i now d))"
  using assms
  by (auto simp: visitor_def createInvitation_def revokeInvitation_def Let_def intro!: same_for_update same_for_trans[OF same_for_update same_for_insert]
      split: option.split)

lemma member_ops_home [home]:
  assumes "visitor org a d"
  shows "same_rows org d (fst (changeMemberRole g a i r d))" and "same_rows org d (fst (removeMember g a i d))"
proof -
  have "m_orgId x \<noteq> org" if "find_first (\<lambda>m. m_id m = i \<and> m_orgId m = a_orgId a) (memberships d) = Some t" "x \<in> set (memberships d)" "m_id x = m_id t" for x t
    using found_owner[OF _ that(1,2)] that(3) find_first_SomeD[OF that(1)] assms by (auto simp: visitor_def tidy_def)
  then show "same_rows org d (fst (changeMemberRole g a i r d))" and "same_rows org d (fst (removeMember g a i d))"
    by (auto simp: changeMemberRole_def removeMember_def Let_def intro!: same_for_update same_for_delete split: option.split)
qed

section \<open>The actions stay at home\<close>

text \<open>A request that cannot act for the organization leaves its rows alone, as soon as the business function does.\<close>

lemma getSession_rows: "same_rows org d (fst (getSession h c q d))" "tidy (fst (getSession h c q d)) = tidy d"
  by (subst getSession_writes, simp add: tidy_def)+

lemma authorize_db: "fst (authorize h c q p d) = fst (getSession h c q d)"
  by (auto simp: authorize_def split: prod.splits option.splits)

lemma with_actor_home:
  assumes "tidy d" and "\<nexists>u m. acts_for x p d u m \<and> m_orgId m = org"
    and "\<And>a d1. visitor org (ax_actor a) d1 \<Longrightarrow> same_rows org d1 (fst (f a d1))"
  shows "same_rows org d (fst (with_actor x p f d))"
proof -
  let ?au = "authorize (wx_hashToken x) (wx_config x) (wx_request x) p d"
  have d1: "same_rows org d (fst ?au)" "tidy (fst ?au)" using assms(1) getSession_rows by (simp_all add: authorize_db)
  show ?thesis
  proof (cases "snd ?au")
    case (fail e)
    then show ?thesis using d1 by (cases ?au) (simp add: with_actor_def refuse_def)
  next
    case (ok a)
    then have run: "?au = (fst ?au, ok a)" by (simp add: prod_eq_iff)
    have "a_orgId (ax_actor a) \<noteq> org" using authorize_ok[OF run] assms(2) by metis
    then have "visitor org (ax_actor a) (fst ?au)" using d1(2) by (simp add: visitor_def)
    from assms(3)[OF this] have "same_rows org d (fst (f a (fst ?au)))" by (rule same_rows_trans[OF d1(1)])
    then show ?thesis using run by (metis (no_types, lifting) with_actor_def case_prod_conv result.case(1))
  qed
qed

lemma with_input_home:
  "(\<And>v. parsed = Some v \<Longrightarrow> same_rows org d (fst (f v d))) \<Longrightarrow> same_rows org d (fst (with_input parsed code f d))"
  by (auto simp: with_input_def refuse_def split: option.splits)

lemma with_parsed_home:
  "(\<And>v. parsed = ok v \<Longrightarrow> same_rows org d (fst (f v d))) \<Longrightarrow> same_rows org d (fst (with_parsed parsed f d))"
  by (auto simp: with_parsed_def refuse_def split: result.splits)

lemma position_action_home:
  assumes "tidy d" and "\<nexists>u m. acts_for x (Some topology_write) d u m \<and> m_orgId m = org"
  shows "same_rows org d (fst (updateNodePositionAction x i px py d))"
proof -
  define step :: "actor_context \<Rightarrow> db \<Rightarrow> unit response" where
    "step = (\<lambda>a d. case positionSchema (i, px, py) of None \<Rightarrow> (d, [], No_reply)
       | Some (i', px', py') \<Rightarrow> (fst (updateNodePosition (ax_actor a) i' px' py' d), [], No_reply))"
  have "fst (updateNodePositionAction x i px py d) = fst (with_actor x (Some topology_write) step d)"
    by (auto simp: updateNodePositionAction_def with_actor_def refuse_def step_def split: prod.splits result.splits)
  moreover have "same_rows org d1 (fst (step a d1))" if "visitor org (ax_actor a) d1" for a d1
    using that topology_ops_home(4) by (auto simp: step_def split: option.split prod.split)
  ultimately show ?thesis using with_actor_home[OF assms] by metis
qed

lemmas action_home = with_actor_home with_input_home with_parsed_home


text \<open>Ann of Acme adds a check; Beta, where she is no member, keeps its rows.\<close>

lemma ann_not_in_beta: "\<not> (acts_for x p ann_db u m \<and> m_orgId m = ''beta'')"
proof
  assume acts: "acts_for x p ann_db u m \<and> m_orgId m = ''beta''"
  then have "u_id u = ''ann''" by (auto simp: acts_for_def live_session_def ann_db_def)
  with acts show False by (auto simp: acts_for_def ann_db_def sample_db_def sample_membership_def)
qed


end
