(* ===== verification/Password_Hash.thy ===== *)
theory Password_Hash
  imports Secrets Forms Password
begin

text \<open>
  Stored passwords, the hashing half of \<open>src/lib/auth/password.ts\<close>: the format
  \<open>scrypt$N$r$p$salt$hash\<close>, its parser with the limits on the cost, verification and the decision to hash again.

  scrypt and Unicode normalization (NFKC) are parameters. A derivation may be rejected (\<open>None\<close>), and then the
  promise of the caller is rejected too. \<open>scrypt_law\<close> is what Node documents: the key has the length that was
  asked for, the cost must be a power of two above one, and the memory it needs must not exceed the limit.
\<close>

section \<open>The stored form\<close>

record scrypt_params =
  sp_N :: nat
  sp_r :: nat
  sp_p :: nat
  sp_keylen :: nat

definition PARAMS :: scrypt_params where
  "PARAMS = \<lparr>sp_N = 2 ^ 15, sp_r = 8, sp_p = 3, sp_keylen = 32\<rparr>"

definition SALT_BYTES :: nat where "SALT_BYTES = 16"
definition MAX_MEMORY :: nat where "MAX_MEMORY = 256 * 1024 * 1024"

type_synonym scrypt = "string \<Rightarrow> nat list \<Rightarrow> scrypt_params \<Rightarrow> nat \<Rightarrow> nat list option"

definition derive :: "scrypt \<Rightarrow> (string \<Rightarrow> string) \<Rightarrow> string \<Rightarrow> nat list \<Rightarrow> scrypt_params \<Rightarrow> nat list option" where
  "derive scrypt nfkc password salt params = scrypt (nfkc password) salt params MAX_MEMORY"

text \<open>\<open>Buffer.toString("base64")\<close>: the standard alphabet, padded to whole groups of four.\<close>

definition base64_char :: "nat \<Rightarrow> char" where
  "base64_char n = (if n = 62 then CHR ''+'' else if n = 63 then CHR ''/'' else b64_char n)"

definition toBase64 :: "nat list \<Rightarrow> string" where
  "toBase64 bytes = (let s = map base64_char (b64_groups bytes) in s @ replicate ((4 - length s mod 4) mod 4) (CHR ''=''))"

definition hashPassword :: "scrypt \<Rightarrow> (string \<Rightarrow> string) \<Rightarrow> nat list \<Rightarrow> string \<Rightarrow> string option" where
  "hashPassword scrypt nfkc salt password =
     map_option (\<lambda>hash. str_join ''$'' [''scrypt'', dec_string (sp_N PARAMS), dec_string (sp_r PARAMS), dec_string (sp_p PARAMS),
       toBase64 salt, toBase64 hash]) (derive scrypt nfkc password salt PARAMS)"

record parsed_hash =
  ph_params :: scrypt_params
  ph_salt :: "nat list"
  ph_hash :: "nat list"

definition cost :: "int \<Rightarrow> int \<Rightarrow> string \<Rightarrow> nat option" where
  "cost lo hi text = map_option nat (f_int lo hi (Some (Form_text text)))"

definition parse_hash :: "string \<Rightarrow> parsed_hash option" where
  "parse_hash stored =
     (case split_on (CHR ''$'') stored of
        [scheme, n, r, p, salt, hash] \<Rightarrow>
          if scheme \<noteq> ''scrypt'' then None
          else (case (cost (2 ^ 12) (2 ^ 20) n, cost 1 32 r, cost 1 16 p) of
              (Some N, Some R, Some P) \<Rightarrow>
                let s = fromBase64url salt; h = fromBase64url hash
                in if length s < 8 \<or> length h < 16 then None
                   else Some \<lparr>ph_params = \<lparr>sp_N = N, sp_r = R, sp_p = P, sp_keylen = length h\<rparr>, ph_salt = s, ph_hash = h\<rparr>
            | _ \<Rightarrow> None)
      | _ \<Rightarrow> None)"

section \<open>Verification\<close>

definition verifyPassword :: "scrypt \<Rightarrow> (string \<Rightarrow> string) \<Rightarrow> string \<Rightarrow> string option \<Rightarrow> bool option" where
  "verifyPassword scrypt nfkc password stored =
     (case non_empty stored of
        None \<Rightarrow> Some False
      | Some st \<Rightarrow> (case parse_hash st of
          None \<Rightarrow> Some False
        | Some ph \<Rightarrow> map_option (\<lambda>candidate. length candidate = length (ph_hash ph) \<and> candidate = ph_hash ph)
            (derive scrypt nfkc password (ph_salt ph) (ph_params ph))))"

definition needsRehash :: "string \<Rightarrow> bool" where
  "needsRehash stored =
     (case parse_hash stored of
        None \<Rightarrow> True
      | Some ph \<Rightarrow> sp_N (ph_params ph) < sp_N PARAMS \<or> sp_r (ph_params ph) < sp_r PARAMS \<or> sp_p (ph_params ph) < sp_p PARAMS)"

text \<open>The dummy hash is computed once per process: the state is the settled promise, \<open>Some None\<close> if it was rejected.\<close>

definition verifyAgainstDummy ::
  "scrypt \<Rightarrow> (string \<Rightarrow> string) \<Rightarrow> nat list \<Rightarrow> string \<Rightarrow> string option option \<Rightarrow> string option option \<times> bool option" where
  "verifyAgainstDummy scrypt nfkc salt password dummyHash =
     (let dummy = (case dummyHash of Some h \<Rightarrow> h
            | None \<Rightarrow> hashPassword scrypt nfkc salt ''ikelyane-dummy-password-for-constant-work'')
      in (Some dummy, case dummy of None \<Rightarrow> None
            | Some h \<Rightarrow> map_option (\<lambda>_. False) (verifyPassword scrypt nfkc password (Some h))))"

section \<open>What scrypt documents\<close>

definition affordable :: "scrypt_params \<Rightarrow> nat \<Rightarrow> bool" where
  "affordable ps mem \<longleftrightarrow> 128 * sp_r ps * (sp_N ps + sp_p ps + 2) \<le> mem \<and> sp_keylen ps < 2 ^ 31"

definition scrypt_law :: "scrypt \<Rightarrow> bool" where
  "scrypt_law scrypt \<longleftrightarrow> (\<forall>pw salt ps mem.
     (\<forall>k. scrypt pw salt ps mem = Some k \<longrightarrow> length k = sp_keylen ps \<and> list_all (\<lambda>b. b < 256) k)
     \<and> ((\<exists>e > 0. sp_N ps = 2 ^ e) \<and> affordable ps mem \<longrightarrow> scrypt pw salt ps mem \<noteq> None)
     \<and> (\<not> (\<exists>e > 0. sp_N ps = 2 ^ e) \<or> mem < 128 * sp_N ps * sp_r ps \<longrightarrow> scrypt pw salt ps mem = None))"

section \<open>Lemmas\<close>

lemma base64_char_value: "n < 64 \<Longrightarrow> b64_value (base64_char n) = Some n"
  by (auto simp: base64_char_def b64_value_char) (simp_all add: b64_value_def code_unit_def)

lemma base64_char_plain: "n < 64 \<Longrightarrow> base64_char n \<noteq> CHR ''$'' \<and> base64_char n \<noteq> CHR ''=''"
proof -
  assume "n < 64"
  then have "b64_value (base64_char n) \<noteq> None" by (simp add: base64_char_value)
  then show ?thesis by (auto simp: b64_value_def code_unit_def)
qed

lemma fromBase64_to: "list_all (\<lambda>b. b < 256) bs \<Longrightarrow> fromBase64url (toBase64 bs) = bs"
proof -
  assume bytes: "list_all (\<lambda>b. b < 256) bs"
  from b64_groups_small[OF bytes] have g: "list_all (\<lambda>n. n < 64) (b64_groups bs)" .
  have "takeWhile (\<lambda>c. c \<noteq> CHR ''='') (map base64_char (b64_groups bs) @ replicate k (CHR ''='')) = map base64_char (b64_groups bs)" for k
    using g base64_char_plain by (subst takeWhile_append2) (auto simp: list_all_iff takeWhile_replicate)
  moreover have "List.map_filter b64_value (map base64_char ns) = ns" if "list_all (\<lambda>n. n < 64) ns" for ns
    using that by (induction ns) (auto simp: List.map_filter_def base64_char_value)
  ultimately show ?thesis using g b64_ungroup_groups[OF bytes] by (simp only: fromBase64url_def toBase64_def Let_def)
qed

lemma toBase64_plain: "list_all (\<lambda>b. b < 256) bs \<Longrightarrow> list_all (\<lambda>c. c \<noteq> CHR ''$'') (toBase64 bs)"
  using b64_groups_small base64_char_plain by (fastforce simp: toBase64_def list_all_iff Let_def)

lemma params_written: "dec_string (sp_N PARAMS) = ''32768''" "dec_string (sp_r PARAMS) = ''8''" "dec_string (sp_p PARAMS) = ''3''"
  by (simp_all add: PARAMS_def dec_string.simps[of 32768] dec_string.simps[of 3276] dec_string.simps[of 327] dec_string.simps[of 32]
      dec_string.simps[of 3] dec_string.simps[of 8]) code_simp+

lemma params_read: "cost 4096 1048576 ''32768'' = Some 32768" "cost 1 32 ''8'' = Some 8" "cost 1 16 ''3'' = Some 3"
  by (simp_all add: cost_def f_int_def f_number_def f_string_def f_when_def number_eval)

lemma parse_written:
  assumes "list_all (\<lambda>b. b < 256) salt" and "list_all (\<lambda>b. b < 256) hash" and "8 \<le> length salt" and "length hash = 32"
  shows "parse_hash (str_join ''$'' [''scrypt'', dec_string (sp_N PARAMS), dec_string (sp_r PARAMS), dec_string (sp_p PARAMS),
      toBase64 salt, toBase64 hash]) = Some \<lparr>ph_params = PARAMS, ph_salt = salt, ph_hash = hash\<rparr>"
proof -
  have "split_on (CHR ''$'') (str_join ''$'' [''scrypt'', ''32768'', ''8'', ''3'', toBase64 salt, toBase64 hash])
      = [''scrypt'', ''32768'', ''8'', ''3'', toBase64 salt, toBase64 hash]"
    using assms by (intro split_on_join) (auto simp: toBase64_plain)
  then show ?thesis unfolding params_written parse_hash_def
    using assms by (simp add: params_read fromBase64_to PARAMS_def)
qed

lemma scrypt_key: "scrypt_law scrypt \<Longrightarrow> scrypt pw salt ps mem = Some k \<Longrightarrow> length k = sp_keylen ps \<and> list_all (\<lambda>b. b < 256) k"
  unfolding scrypt_law_def by blast

lemma scrypt_derives:
  "scrypt_law scrypt \<Longrightarrow> (\<exists>e > 0. sp_N ps = 2 ^ e) \<and> affordable ps mem \<Longrightarrow> scrypt pw salt ps mem \<noteq> None"
  unfolding scrypt_law_def by blast

lemma scrypt_rejects: "scrypt_law scrypt \<Longrightarrow> \<not> (\<exists>e > 0. sp_N ps = 2 ^ e) \<Longrightarrow> scrypt pw salt ps mem = None"
  unfolding scrypt_law_def by blast

lemma params_affordable: "(\<exists>e > 0. sp_N PARAMS = 2 ^ e) \<and> affordable PARAMS MAX_MEMORY"
  by (auto simp: PARAMS_def affordable_def MAX_MEMORY_def intro: exI[of _ 15])

section \<open>Properties\<close>

text \<open>A stored password is the password: hashing always succeeds, the result is read back with today's parameters, so it is not hashed again
  at the next sign-in, and another input is accepted exactly when it derives the same key under the same salt. In particular
  the password itself is accepted.\<close>

lemma password_hash_roundtrip:
  assumes "scrypt_law scrypt" and "length salt = SALT_BYTES" and "list_all (\<lambda>b. b < 256) salt"
  shows "\<exists>stored. hashPassword scrypt nfkc salt password = Some stored \<and> \<not> needsRehash stored
     \<and> (\<forall>attempt. verifyPassword scrypt nfkc attempt (Some stored)
          = Some (derive scrypt nfkc attempt salt PARAMS = derive scrypt nfkc password salt PARAMS))"
proof -
  have some: "\<exists>k. derive scrypt nfkc pw salt PARAMS = Some k \<and> length k = 32 \<and> list_all (\<lambda>b. b < 256) k" for pw
  proof -
    have "derive scrypt nfkc pw salt PARAMS \<noteq> None" unfolding derive_def by (rule scrypt_derives[OF assms(1) params_affordable])
    then obtain k where "derive scrypt nfkc pw salt PARAMS = Some k" by blast
    with scrypt_key[OF assms(1)] show ?thesis by (auto simp: derive_def PARAMS_def)
  qed
  then obtain k where k: "derive scrypt nfkc password salt PARAMS = Some k" "length k = 32" "list_all (\<lambda>b. b < 256) k" by blast
  let ?st = "str_join ''$'' [''scrypt'', dec_string (sp_N PARAMS), dec_string (sp_r PARAMS), dec_string (sp_p PARAMS), toBase64 salt, toBase64 k]"
  have p: "parse_hash ?st = Some \<lparr>ph_params = PARAMS, ph_salt = salt, ph_hash = k\<rparr>"
    using parse_written[OF assms(3) k(3)] assms(2) k(2) by (simp add: SALT_BYTES_def)
  have "verifyPassword scrypt nfkc attempt (Some ?st) = Some (derive scrypt nfkc attempt salt PARAMS = Some k)" for attempt
    using some[of attempt] k(2) p by (auto simp: verifyPassword_def non_empty_def or_null_def)
  then show ?thesis using p k(1) by (intro exI[of _ ?st]) (simp add: hashPassword_def needsRehash_def)
qed

text \<open>Verification answers unless the stored cost is beyond what scrypt accepts: not a power of two, or more memory than the limit.
  Such a row is not refused by the parser, so that the verification is rejected instead of answering \<open>false\<close>.\<close>

lemma verify_answers:
  assumes "scrypt_law scrypt"
    and "\<forall>ph. parse_hash st = Some ph \<longrightarrow> (\<exists>e > 0. sp_N (ph_params ph) = 2 ^ e) \<and> affordable (ph_params ph) MAX_MEMORY"
  shows "\<exists>b. verifyPassword scrypt nfkc password (Some st) = Some b"
proof (cases "parse_hash st")
  case (Some ph)
  then have "derive scrypt nfkc password (ph_salt ph) (ph_params ph) \<noteq> None"
    unfolding derive_def using assms(2) by (intro scrypt_derives[OF assms(1)]) blast
  with Some show ?thesis by (auto simp: verifyPassword_def non_empty_def or_null_def)
qed (auto simp: verifyPassword_def non_empty_def or_null_def)

definition unsupported_hash :: string where
  "unsupported_hash = ''scrypt$5000$8$1$AAAAAAAAAAA=$AAAAAAAAAAAAAAAAAAAAAA==''"

lemma not_power_of_two: "\<not> (\<exists>e > 0. (5000 :: nat) = 2 ^ e)"
proof
  assume "\<exists>e > 0. (5000 :: nat) = 2 ^ e"
  then obtain e where e: "(5000 :: nat) = 2 ^ e" by blast
  have "12 < e" by (rule power_less_imp_less_exp[of "2 :: nat"]) (simp_all add: e[symmetric])
  moreover have "e < 13" by (rule power_less_imp_less_exp[of "2 :: nat"]) (simp_all add: e[symmetric])
  ultimately show False by simp
qed

lemma unsupported_hash_raises:
  assumes "scrypt_law scrypt"
  shows "verifyPassword scrypt nfkc password (Some unsupported_hash) = None"
proof -
  have costs: "cost 4096 1048576 ''5000'' = Some 5000" "cost 1 32 ''8'' = Some 8" "cost 1 16 ''1'' = Some 1"
    by (simp_all add: cost_def f_int_def f_number_def f_string_def f_when_def number_eval)
  have "split_on (CHR ''$'') unsupported_hash = [''scrypt'', ''5000'', ''8'', ''1'', ''AAAAAAAAAAA='', ''AAAAAAAAAAAAAAAAAAAAAA=='']"
    by code_simp
  moreover have "length (fromBase64url ''AAAAAAAAAAA='') = 8" and "length (fromBase64url ''AAAAAAAAAAAAAAAAAAAAAA=='') = 16" by code_simp+
  ultimately have "\<exists>ph. parse_hash unsupported_hash = Some ph \<and> sp_N (ph_params ph) = 5000"
    by (simp add: parse_hash_def costs Let_def)
  then obtain ph where ph: "parse_hash unsupported_hash = Some ph" "sp_N (ph_params ph) = 5000" by blast
  have "derive scrypt nfkc password (ph_salt ph) (ph_params ph) = None"
    unfolding derive_def using not_power_of_two ph(2) by (intro scrypt_rejects[OF assms]) simp
  with ph(1) show ?thesis by (simp add: verifyPassword_def non_empty_def or_null_def unsupported_hash_def)
qed

text \<open>A derivation with the documented law: the characters of the password, repeated to the length of the key.\<close>

definition toy_scrypt :: scrypt where
  "toy_scrypt pw salt ps mem =
     (if (\<exists>e \<in> {1..sp_N ps}. sp_N ps = 2 ^ e) \<and> 128 * sp_N ps * sp_r ps \<le> mem
      then Some (take (sp_keylen ps) (map of_char pw @ replicate (sp_keylen ps) 0)) else None)"

lemma toy_scrypt_law: "scrypt_law toy_scrypt"
proof -
  have e: "(\<exists>e > 0. n = 2 ^ e) \<longleftrightarrow> (\<exists>e \<in> {1..n}. n = 2 ^ e)" for n :: nat
    using less_exp by (fastforce simp: Suc_le_eq intro: less_imp_le)
  have "list_all (\<lambda>b. b < 256) (take k (map of_char pw @ replicate k (0 :: nat)))" for k and pw :: string
    by (auto simp: list_all_iff dest!: in_set_takeD)
  then show ?thesis unfolding scrypt_law_def toy_scrypt_def e
    by (auto simp: affordable_def algebra_simps split: if_splits)
qed

lemma password_hash_roundtrip_witness:
  "\<exists>stored. hashPassword toy_scrypt id (replicate 16 7) ''correct horse'' = Some stored
     \<and> verifyPassword toy_scrypt id ''correct horse'' (Some stored) = Some True"
  using password_hash_roundtrip[OF toy_scrypt_law, of "replicate 16 7" id "''correct horse''"] by (auto simp: SALT_BYTES_def list_all_iff)

end
