(* ===== verification/Environment.thy ===== *)
theory Environment
  imports Api Forms
begin

text \<open>
  Configuration of the server: the schema and the cache of \<open>src/lib/env.ts\<close>, and the mail transport that
  \<open>src/lib/notify/email.ts\<close> builds from it once per process.

  The environment is a map from names to texts. The error of an invalid configuration is the list of the
  variables that were refused, in the order of the schema; the wording of the rules is left out. Sending is what is
  handed to the transport, the transport itself is code of a library.
\<close>

section \<open>Schema\<close>

record app_env =
  av_DATABASE_URL :: string
  av_IKELYANE_SECRET_KEY :: string
  av_TELEMETRY_MAX_CLOCK_SKEW_SECONDS :: int
  av_TELEMETRY_MAX_BODY_BYTES :: int
  av_TELEMETRY_MAX_BACKFILL_DAYS :: int
  av_SMTP_URL :: "string option"
  av_ALERTS_EMAIL_FROM :: string
  av_CHECKS_ALLOW_PRIVATE_TARGETS :: bool
  av_WEBHOOKS_ALLOW_PRIVATE_TARGETS :: bool
  av_CHECK_RUNNER_CONCURRENCY :: int
  av_AIOPS_LLM_MAX_PER_HOUR :: int

type_synonym process_env = "string \<Rightarrow> string option"

definition env_text :: "process_env \<Rightarrow> string \<Rightarrow> form_value option" where
  "env_text penv name = map_option Form_text (penv name)"

text \<open>\<open>.default(v)\<close>: an absent variable has the default, a present one must be accepted.\<close>

definition env_default :: "(form_value option \<Rightarrow> 'a option) \<Rightarrow> 'a \<Rightarrow> form_value option \<Rightarrow> 'a option" where
  "env_default p v x = (if x = None then Some v else p x)"

definition at_least :: "nat \<Rightarrow> string option \<Rightarrow> string option" where
  "at_least lo = f_when (\<lambda>s. lo \<le> length s)"

definition secret_key_ok :: "string \<Rightarrow> bool" where
  "secret_key_ok v = (length (fromBase64url v) = 32)"

definition refused :: "string \<Rightarrow> 'a option \<Rightarrow> string list" where
  "refused name v = (if v = None then [name] else [])"

definition envSchema :: "process_env \<Rightarrow> string list + app_env" where
  "envSchema penv =
     (let url = at_least 1 (f_string (env_text penv ''DATABASE_URL''));
          key = f_when secret_key_ok (f_string (env_text penv ''IKELYANE_SECRET_KEY''));
          skew = env_default (f_int 1 3600) 300 (env_text penv ''TELEMETRY_MAX_CLOCK_SKEW_SECONDS'');
          body = env_default (f_int 1024 (16 * 1024 * 1024)) (1024 * 1024) (env_text penv ''TELEMETRY_MAX_BODY_BYTES'');
          days = env_default (f_int 1 90) 7 (env_text penv ''TELEMETRY_MAX_BACKFILL_DAYS'');
          smtp = f_optional (\<lambda>v. at_least 1 (map_option js_trim (f_string v))) (env_text penv ''SMTP_URL'');
          sender = env_default (\<lambda>v. at_least 1 (map_option js_trim (f_string v))) ''IkelyaneMonitor <noreply@ikelyane.com>''
            (env_text penv ''ALERTS_EMAIL_FROM'');
          checks = env_default f_bool False (env_text penv ''CHECKS_ALLOW_PRIVATE_TARGETS'');
          hooks = env_default f_bool False (env_text penv ''WEBHOOKS_ALLOW_PRIVATE_TARGETS'');
          conc = env_default (f_int 1 500) 20 (env_text penv ''CHECK_RUNNER_CONCURRENCY'');
          llm = env_default (f_int 1 10000) 60 (env_text penv ''AIOPS_LLM_MAX_PER_HOUR'');
          problems = refused ''DATABASE_URL'' url @ refused ''IKELYANE_SECRET_KEY'' key @ refused ''TELEMETRY_MAX_CLOCK_SKEW_SECONDS'' skew
            @ refused ''TELEMETRY_MAX_BODY_BYTES'' body @ refused ''TELEMETRY_MAX_BACKFILL_DAYS'' days @ refused ''SMTP_URL'' smtp
            @ refused ''ALERTS_EMAIL_FROM'' sender @ refused ''CHECKS_ALLOW_PRIVATE_TARGETS'' checks
            @ refused ''WEBHOOKS_ALLOW_PRIVATE_TARGETS'' hooks @ refused ''CHECK_RUNNER_CONCURRENCY'' conc @ refused ''AIOPS_LLM_MAX_PER_HOUR'' llm
      in if problems \<noteq> [] then Inl problems
         else Inr \<lparr>av_DATABASE_URL = the url, av_IKELYANE_SECRET_KEY = the key, av_TELEMETRY_MAX_CLOCK_SKEW_SECONDS = the skew,
           av_TELEMETRY_MAX_BODY_BYTES = the body, av_TELEMETRY_MAX_BACKFILL_DAYS = the days, av_SMTP_URL = the smtp,
           av_ALERTS_EMAIL_FROM = the sender, av_CHECKS_ALLOW_PRIVATE_TARGETS = the checks, av_WEBHOOKS_ALLOW_PRIVATE_TARGETS = the hooks,
           av_CHECK_RUNNER_CONCURRENCY = the conc, av_AIOPS_LLM_MAX_PER_HOUR = the llm\<rparr>)"

section \<open>The cache\<close>

definition getEnv :: "process_env \<Rightarrow> app_env option \<Rightarrow> app_env option \<times> (string list + app_env)" where
  "getEnv penv cached =
     (case cached of
        Some e \<Rightarrow> (cached, Inr e)
      | None \<Rightarrow> (case envSchema penv of Inl problems \<Rightarrow> (None, Inl problems) | Inr e \<Rightarrow> (Some e, Inr e)))"

definition resetEnvCache :: "app_env option \<Rightarrow> app_env option" where
  "resetEnvCache cached = None"

text \<open>What the routes of the agents read of it (\<open>Api\<close>).\<close>

definition server_of :: "gcm \<Rightarrow> (string \<Rightarrow> string \<Rightarrow> string) \<Rightarrow> app_env \<Rightarrow> server" where
  "server_of c hmac e = \<lparr>srv_gcm = c, srv_key = fromBase64url (av_IKELYANE_SECRET_KEY e), srv_hmac = hmac,
     TELEMETRY_MAX_BODY_BYTES = av_TELEMETRY_MAX_BODY_BYTES e,
     TELEMETRY_MAX_CLOCK_SKEW_SECONDS = av_TELEMETRY_MAX_CLOCK_SKEW_SECONDS e, TELEMETRY_MAX_BACKFILL_DAYS = av_TELEMETRY_MAX_BACKFILL_DAYS e\<rparr>"

section \<open>Mail\<close>

datatype transport = Smtp string | Sendmail | Test_transport

record email_message =
  em_to :: "string list"
  em_subject :: string
  em_text :: string

record outgoing_mail =
  om_from :: string
  om_to :: string
  om_subject :: string
  om_text :: string

record mail_process =
  mp_env :: "app_env option"
  mp_transporter :: "transport option"

definition getTransporter :: "app_env \<Rightarrow> transport option \<Rightarrow> transport" where
  "getTransporter e transporter =
     (case transporter of Some t \<Rightarrow> t
      | None \<Rightarrow> (case non_empty (av_SMTP_URL e) of Some url \<Rightarrow> Smtp url | None \<Rightarrow> Sendmail))"

definition sendEmail ::
  "process_env \<Rightarrow> email_message \<Rightarrow> transport option \<Rightarrow> mail_process \<Rightarrow> mail_process \<times> (string list + transport \<times> outgoing_mail)" where
  "sendEmail penv message transporterOverride st =
     (case getEnv penv (mp_env st) of
        (cached, Inl problems) \<Rightarrow> (st\<lparr>mp_env := cached\<rparr>, Inl problems)
      | (cached, Inr e) \<Rightarrow>
          let mail = \<lparr>om_from = av_ALERTS_EMAIL_FROM e, om_to = str_join '', '' (em_to message), om_subject = em_subject message,
                      om_text = em_text message\<rparr>
          in (case transporterOverride of
                Some t \<Rightarrow> (st\<lparr>mp_env := cached\<rparr>, Inr (t, mail))
              | None \<Rightarrow> let t = getTransporter e (mp_transporter st)
                        in (\<lparr>mp_env = cached, mp_transporter = Some t\<rparr>, Inr (t, mail))))"

section \<open>Lemmas\<close>

lemma refused_empty [simp]: "refused name v = [] \<longleftrightarrow> (\<exists>x. v = Some x)"
  by (auto simp: refused_def)

lemma at_least_Some [simp]: "at_least lo v = Some s \<longleftrightarrow> v = Some s \<and> lo \<le> length s"
  by (simp add: at_least_def)

lemma env_default_int:
  "env_default (f_int lo hi) v x = Some n \<Longrightarrow> lo \<le> v \<Longrightarrow> v \<le> hi \<Longrightarrow> lo \<le> n \<and> n \<le> hi"
  by (auto simp: env_default_def split: if_splits dest: f_int_bounds)

definition env_ok :: "app_env \<Rightarrow> bool" where
  "env_ok e \<longleftrightarrow> av_DATABASE_URL e \<noteq> [] \<and> length (fromBase64url (av_IKELYANE_SECRET_KEY e)) = 32
     \<and> 1 \<le> av_TELEMETRY_MAX_CLOCK_SKEW_SECONDS e \<and> av_TELEMETRY_MAX_CLOCK_SKEW_SECONDS e \<le> 3600
     \<and> 1024 \<le> av_TELEMETRY_MAX_BODY_BYTES e \<and> av_TELEMETRY_MAX_BODY_BYTES e \<le> 16777216
     \<and> 1 \<le> av_TELEMETRY_MAX_BACKFILL_DAYS e \<and> av_TELEMETRY_MAX_BACKFILL_DAYS e \<le> 90
     \<and> av_SMTP_URL e \<noteq> Some [] \<and> av_ALERTS_EMAIL_FROM e \<noteq> []
     \<and> 1 \<le> av_CHECK_RUNNER_CONCURRENCY e \<and> av_CHECK_RUNNER_CONCURRENCY e \<le> 500
     \<and> 1 \<le> av_AIOPS_LLM_MAX_PER_HOUR e \<and> av_AIOPS_LLM_MAX_PER_HOUR e \<le> 10000"

lemma envSchema_parts:
  assumes "envSchema penv = Inr e"
  shows "at_least 1 (f_string (env_text penv ''DATABASE_URL'')) = Some (av_DATABASE_URL e)"
    and "f_when secret_key_ok (f_string (env_text penv ''IKELYANE_SECRET_KEY'')) = Some (av_IKELYANE_SECRET_KEY e)"
    and "env_default (f_int 1 3600) 300 (env_text penv ''TELEMETRY_MAX_CLOCK_SKEW_SECONDS'') = Some (av_TELEMETRY_MAX_CLOCK_SKEW_SECONDS e)"
    and "env_default (f_int 1024 16777216) 1048576 (env_text penv ''TELEMETRY_MAX_BODY_BYTES'') = Some (av_TELEMETRY_MAX_BODY_BYTES e)"
    and "env_default (f_int 1 90) 7 (env_text penv ''TELEMETRY_MAX_BACKFILL_DAYS'') = Some (av_TELEMETRY_MAX_BACKFILL_DAYS e)"
    and "f_optional (\<lambda>v. at_least 1 (map_option js_trim (f_string v))) (env_text penv ''SMTP_URL'') = Some (av_SMTP_URL e)"
    and "env_default (\<lambda>v. at_least 1 (map_option js_trim (f_string v))) ''IkelyaneMonitor <noreply@ikelyane.com>''
      (env_text penv ''ALERTS_EMAIL_FROM'') = Some (av_ALERTS_EMAIL_FROM e)"
    and "env_default (f_int 1 500) 20 (env_text penv ''CHECK_RUNNER_CONCURRENCY'') = Some (av_CHECK_RUNNER_CONCURRENCY e)"
    and "env_default (f_int 1 10000) 60 (env_text penv ''AIOPS_LLM_MAX_PER_HOUR'') = Some (av_AIOPS_LLM_MAX_PER_HOUR e)"
  using assms unfolding envSchema_def Let_def
  by (simp_all del: at_least_Some f_when_Some add: option.collapse split: if_splits) (auto simp del: at_least_Some f_when_Some)

text \<open>An accepted configuration is in range, whatever the environment holds: the key of the cipher has 32 bytes and every limit is bounded.\<close>

lemma envSchema_ok:
  assumes "envSchema penv = Inr e"
  shows "env_ok e"
proof -
  note p = envSchema_parts[OF assms]
  have "av_SMTP_URL e \<noteq> Some []" using p(6) by (auto simp: f_optional_def split: if_splits)
  moreover have "av_ALERTS_EMAIL_FROM e \<noteq> []" using p(7) by (auto simp: env_default_def split: if_splits)
  ultimately show ?thesis
    using p(1,2) env_default_int[OF p(3)] env_default_int[OF p(4)] env_default_int[OF p(5)] env_default_int[OF p(8)] env_default_int[OF p(9)]
    by (auto simp: env_ok_def secret_key_ok_def)
qed

text \<open>Once it was read, the configuration of a process does not change: every later call answers the same, whatever became of the environment.\<close>

lemma getEnv_stable:
  assumes "getEnv penv cached = (cached', Inr e)"
  shows "env_ok e \<or> cached = Some e" and "getEnv penv' cached' = (cached', Inr e)"
  using assms envSchema_ok by (auto simp: getEnv_def split: option.splits sum.splits)

lemma mail_from_configuration:
  assumes "sendEmail penv message None st = (st', Inr (t, mail))"
  shows "\<exists>e. mp_env st' = Some e \<and> om_from mail = av_ALERTS_EMAIL_FROM e \<and> om_to mail = str_join '', '' (em_to message)
     \<and> mp_transporter st' = Some t
     \<and> (mp_transporter st = None \<longrightarrow> t = (case non_empty (av_SMTP_URL e) of Some url \<Rightarrow> Smtp url | None \<Rightarrow> Sendmail))"
  using assms by (auto simp: sendEmail_def getEnv_def getTransporter_def Let_def split: option.splits sum.splits)

definition sample_env :: process_env where
  "sample_env = map_of [(''DATABASE_URL'', ''postgres://db''), (''IKELYANE_SECRET_KEY'', replicate 43 (CHR ''A'')),
     (''TELEMETRY_MAX_BACKFILL_DAYS'', ''0'')]"

text \<open>A refused variable is named, and a missing one that has a default is not.\<close>

lemma sample_env_refused: "envSchema sample_env = Inl [''TELEMETRY_MAX_BACKFILL_DAYS'']"
proof -
  have "js_number ''0'' = Some 0" by (simp add: number_eval)
  then have "f_int 1 90 (Some (Form_text ''0'')) = None" by (simp add: f_int_def f_number_def f_string_def f_when_def)
  moreover have "length (fromBase64url (replicate 43 (CHR ''A''))) = 32" by code_simp
  ultimately show ?thesis
    by (simp add: envSchema_def sample_env_def env_text_def env_default_def f_string_def f_when_def at_least_def refused_def
        secret_key_ok_def f_optional_def Let_def)
qed

end
