(* ===== verification/Setup_Scripts.thy ===== *)
theory Setup_Scripts
  imports Tenancy Agents Forms
begin

text \<open>
  The two commands that set an installation up, \<open>src/scripts/create-owner.ts\<close> (the first account) and
  \<open>src/scripts/provision-host.ts\<close> (an agent). The command line is the list of its words; what a command prints
  is its outcome. Hashing, the cipher and everything random are arguments; the key of the cipher is absent
  when the configuration is invalid.
\<close>

definition script_arg :: "string list \<Rightarrow> string \<Rightarrow> string option" where
  "script_arg argv name = (case dropWhile (\<lambda>w. w \<noteq> ''--'' @ name) argv of _ # v # _ \<Rightarrow> Some v | _ \<Rightarrow> None)"

section \<open>The first account\<close>

datatype owner_outcome =
    CO_usage
  | CO_no_database
  | CO_refused create_user_error
  | CO_raised
  | CO_created string string string

definition initial_password :: "nat list \<Rightarrow> string" where
  "initial_password random18 = toBase64url random18"

definition create_owner ::
  "(string \<Rightarrow> string) \<Rightarrow> (string \<Rightarrow> string) \<Rightarrow> (nat \<Rightarrow> string) \<Rightarrow> dbgen \<Rightarrow> dbgen \<Rightarrow> nat list \<Rightarrow> string option \<Rightarrow> string list \<Rightarrow> ms \<Rightarrow> db
   \<Rightarrow> db \<times> owner_outcome" where
  "create_owner hashPassword fold_accents suffix g g' random18 databaseUrl argv now d =
     (case (non_empty (script_arg argv ''email''), non_empty (script_arg argv ''org'')) of
        (Some email, Some organization) \<Rightarrow>
          if non_empty databaseUrl = None then (d, CO_no_database)
          else
            let password = initial_password random18;
                locale_opt = Some (if script_arg argv ''locale'' = Some ''fr'' then FR else EN)
            in (case createUser hashPassword g 0 email (script_arg argv ''name'') password locale_opt now d of
                  (d1, fail e) \<Rightarrow> (d1, CO_refused e)
                | (d1, ok (uid, em)) \<Rightarrow>
                    (case createOrganization fold_accents suffix g' organization uid em None d1 of
                       None \<Rightarrow> (d1, CO_raised)
                     | Some (d2, oid, slug) \<Rightarrow> (d2, CO_created slug em password)))
      | _ \<Rightarrow> (d, CO_usage))"

section \<open>An agent\<close>

datatype provision_outcome =
    PH_usage
  | PH_bad_slug
  | PH_no_database
  | PH_taken
  | PH_raised
  | PH_registered ident string string

text \<open>\<open>/^[a-z0-9][a-z0-9-]{1,62}$/\<close>\<close>

definition org_slug :: "string \<Rightarrow> bool" where
  "org_slug s = (case s of [] \<Rightarrow> False
     | c # cs \<Rightarrow> lower_alnum c \<and> 1 \<le> length cs \<and> length cs \<le> 62 \<and> list_all slug_char cs)"

definition upsert_org :: "ident \<Rightarrow> string \<Rightarrow> db \<Rightarrow> db \<times> org_row" where
  "upsert_org oid slug d =
     (case find_first (\<lambda>og. o_slug og = slug) (organizations d) of
        Some og \<Rightarrow> (d, og)
      | None \<Rightarrow> let og = \<lparr>o_id = oid, o_name = slug, o_slug = slug\<rparr> in (d\<lparr>organizations := insert_row og (organizations d)\<rparr>, og))"

definition provisioned_host :: "gcm \<Rightarrow> nat list \<Rightarrow> agent_random \<Rightarrow> dbgen \<Rightarrow> ident \<Rightarrow> string \<Rightarrow> string option \<Rightarrow> host_row" where
  "provisioned_host c key rnd g orgId hostname display =
     (let (keyId, secret) = generateAgentCredentials (rnd_key rnd) (rnd_secret rnd)
      in \<lparr>h_id = cuid g 1, h_orgId = orgId, h_hostname = hostname, h_displayName = display, h_enabled = True,
          h_keyId = keyId, h_hmacSecretEnc = encryptSecret c key (rnd_iv rnd) secret (hostSecretAad keyId),
          h_secretRotatedAt = clock g, h_previousHmacSecretEnc = None, h_previousSecretExpiresAt = None,
          h_osFamily = OTHER, h_status = UNKNOWN, h_lastSeenAt = None, h_remediationMode = None, h_remediationAllowlist = [],
          h_agentVersion = None, h_firstSeenAt = None, h_createdAt = clock g, h_inventory = no_inventory\<rparr>)"

definition provision_host ::
  "gcm \<Rightarrow> nat list option \<Rightarrow> agent_random \<Rightarrow> dbgen \<Rightarrow> string option \<Rightarrow> string list \<Rightarrow> db \<Rightarrow> db \<times> provision_outcome" where
  "provision_host c key_opt rnd g databaseUrl argv d =
     (case (non_empty (script_arg argv ''org''), non_empty (script_arg argv ''hostname'')) of
        (Some slug, Some hostname) \<Rightarrow>
          if \<not> org_slug slug then (d, PH_bad_slug)
          else if non_empty databaseUrl = None then (d, PH_no_database)
          else
            let (d1, og) = upsert_org (cuid g 0) slug d
            in (case key_opt of
                  None \<Rightarrow> (d1, PH_raised)
                | Some key \<Rightarrow>
                    let host = provisioned_host c key rnd g (o_id og) hostname (script_arg argv ''display'')
                    in if list_ex (\<lambda>h. h_keyId h = h_keyId host \<or> (h_orgId h = o_id og \<and> h_hostname h = hostname)) (monitoredHosts d1)
                       then (d1, PH_taken)
                       else (d1\<lparr>monitoredHosts := insert_row host (monitoredHosts d1)\<rparr>,
                             PH_registered (h_id host) (h_keyId host) (snd (generateAgentCredentials (rnd_key rnd) (rnd_secret rnd)))))
      | _ \<Rightarrow> (d, PH_usage))"

section \<open>Properties\<close>

text \<open>The first owner: when the command prints a slug, an address and a password, there is an active account with that address whose stored
  hash is the one of that password, and it is the owner of a new organization with that slug. When it is refused, nothing changed.\<close>

lemma create_owner_founds:
  assumes "create_owner hashPassword fa suffix g g' rnd url argv now d = (d', out)"
  shows "case out of
      CO_created slug em pw \<Rightarrow> (\<exists>u m og. u \<in> set (users d') \<and> u_email u = em \<and> u_disabledAt u = None
        \<and> u_passwordHash u = Some (hashPassword pw) \<and> validatePasswordPolicy pw (Some em) = ok ()
        \<and> og \<in> set (organizations d') \<and> o_slug og = slug \<and> (\<forall>x \<in> set (organizations d). o_slug x \<noteq> slug)
        \<and> m \<in> set (memberships d') \<and> m_userId m = u_id u \<and> m_orgId m = o_id og \<and> m_role m = OWNER)
    | CO_raised \<Rightarrow> memberships d' = memberships d \<and> organizations d' = organizations d
    | _ \<Rightarrow> d' = d"
proof (cases "\<exists>slug em pw. out = CO_created slug em pw")
  case True
  then obtain slug em pw where out: "out = CO_created slug em pw" by blast
  with assms obtain email organization nm lo d1 uid oid
    where user: "createUser hashPassword g 0 email nm pw lo now d = (d1, ok (uid, em))"
      and org: "createOrganization fa suffix g' organization uid em None d1 = Some (d', oid, slug)"
    by (auto simp: create_owner_def Let_def split: option.splits if_splits prod.splits result.splits)
  from user obtain u where u: "users d1 = users d @ [u]" "u_id u = uid" "u_email u = em" "u_disabledAt u = None"
      "u_passwordHash u = Some (hashPassword pw)" "validatePasswordPolicy pw (Some em) = ok ()" "organizations d1 = organizations d"
    by (auto simp: createUser_def Let_def insert_row_def split: if_splits option.splits result.splits)
  from org have o: "users d' = users d1" "organizations d' = organizations d1 @ [og] \<Longrightarrow> o_id og = oid \<and> o_slug og = slug"
    "\<exists>og. organizations d' = organizations d1 @ [og]" "\<forall>x \<in> set (organizations d1). o_slug x \<noteq> slug" for og
    by (auto simp: createOrganization_def Let_def insert_row_def recordAudit_def find_first_None_iff split: if_splits)
  from o(3) obtain og where og: "organizations d' = organizations d1 @ [og]" by blast
  from createOrganization_memberships[OF org] obtain m where m: "memberships d' = memberships d1 @ [m]"
    "m_userId m = uid" "m_orgId m = oid" "m_role m = OWNER" by blast
  have "u \<in> set (users d')" "m \<in> set (memberships d')" "og \<in> set (organizations d')" by (simp_all add: u(1) o(1) m(1) og)
  moreover have "\<forall>x \<in> set (organizations d). o_slug x \<noteq> slug" using o(4) u(7) by simp
  ultimately show ?thesis unfolding out owner_outcome.case using u(2-6) m(2-4) o(2)[OF og]
    by (intro exI[of _ u] exI[of _ m] exI[of _ og]) simp
next
  case False
  then show ?thesis using assms
    by (auto simp: create_owner_def createUser_def Let_def split: option.splits if_splits prod.splits result.splits owner_outcome.splits)
qed

text \<open>A provisioned agent can talk to the platform: the row that was stored is found by the printed key id, is enabled, and its only secret is
  the printed one.\<close>

lemma provisioned_host_usable:
  assumes "gcm_law c" and "length (rnd_iv rnd) = IV_BYTES" and "list_all (\<lambda>b. b < 256) (rnd_iv rnd)"
    and "provision_host c (Some key) rnd g url argv d = (d', PH_registered hid keyId secret)"
  shows "\<exists>h. find_first (\<lambda>h. h_keyId h = keyId) (monitoredHosts d') = Some h \<and> h_id h = hid \<and> h_enabled h
     \<and> host_secrets c key h now = Some [secret]
     \<and> (\<exists>og \<in> set (organizations d'). o_id og = h_orgId h \<and> script_arg argv ''org'' = Some (o_slug og))"
proof -
  from assms(4) have "\<exists>slug hostname. script_arg argv ''org'' = Some slug \<and> (case upsert_org (cuid g 0) slug d of (d1, og) \<Rightarrow>
      let h = provisioned_host c key rnd g (o_id og) hostname (script_arg argv ''display'')
      in \<not> list_ex (\<lambda>x. h_keyId x = h_keyId h) (monitoredHosts d1) \<and> d' = d1\<lparr>monitoredHosts := insert_row h (monitoredHosts d1)\<rparr>
         \<and> hid = h_id h \<and> keyId = h_keyId h \<and> secret = snd (generateAgentCredentials (rnd_key rnd) (rnd_secret rnd)))"
    by (auto simp: provision_host_def Let_def non_empty_Some list_ex_iff split: option.splits if_splits prod.splits)
  then obtain slug hostname where slug: "script_arg argv ''org'' = Some slug" and rest: "case upsert_org (cuid g 0) slug d of (d1, og) \<Rightarrow>
      let h = provisioned_host c key rnd g (o_id og) hostname (script_arg argv ''display'')
      in \<not> list_ex (\<lambda>x. h_keyId x = h_keyId h) (monitoredHosts d1) \<and> d' = d1\<lparr>monitoredHosts := insert_row h (monitoredHosts d1)\<rparr>
         \<and> hid = h_id h \<and> keyId = h_keyId h \<and> secret = snd (generateAgentCredentials (rnd_key rnd) (rnd_secret rnd))" by (elim exE conjE that)
  obtain d1 og where up: "upsert_org (cuid g 0) slug d = (d1, og)" by force
  define h where "h = provisioned_host c key rnd g (o_id og) hostname (script_arg argv ''display'')"
  have facts: "\<not> list_ex (\<lambda>x. h_keyId x = h_keyId h) (monitoredHosts d1)" "d' = d1\<lparr>monitoredHosts := insert_row h (monitoredHosts d1)\<rparr>"
      "hid = h_id h" "keyId = h_keyId h" "secret = snd (generateAgentCredentials (rnd_key rnd) (rnd_secret rnd))"
    using rest by (simp_all add: up h_def Let_def)
  have og: "og \<in> set (organizations d1) \<and> o_slug og = slug"
    using up by (auto simp: upsert_org_def Let_def insert_row_def dest: find_first_SomeD split: option.splits)
  have "find_first (\<lambda>x. h_keyId x = keyId) (monitoredHosts d1) = None"
    using facts by (auto simp: find_first_None_iff list_ex_iff)
  then have "find_first (\<lambda>x. h_keyId x = keyId) (monitoredHosts d') = Some h"
    using facts by (simp add: insert_row_def find_first_append)
  moreover have "host_secrets c key h now = Some [secret]"
    using decrypt_own[OF assms(1-3)] facts by (auto simp: host_secrets_def h_def provisioned_host_def previous_valid_def truthy_def split: prod.splits)
  moreover have "h_enabled h" "h_orgId h = o_id og" by (simp_all add: h_def provisioned_host_def split: prod.splits)
  ultimately show ?thesis using facts og slug by auto
qed

text \<open>An agent in an organization nobody owns: the command creates a missing organization without members, and its map of people stays empty.\<close>

lemma provisioned_org_unowned:
  assumes "find_first (\<lambda>og. o_slug og = slug) (organizations d) = None" and "\<forall>m \<in> set (memberships d). m_orgId m \<noteq> cuid g 0"
    and "provision_host c key_opt rnd g url argv d = (d', out)" and "script_arg argv ''org'' = Some slug" and "out = PH_registered hid k s"
  shows "(\<exists>og \<in> set (organizations d'). o_slug og = slug \<and> o_id og = cuid g 0) \<and> org_owners (cuid g 0) d' = 0"
proof -
  from assms(3-5) assms(1) have m: "memberships d' = memberships d"
    and o: "organizations d' = organizations d @ [\<lparr>o_id = cuid g 0, o_name = slug, o_slug = slug\<rparr>]"
    by (auto simp: provision_host_def upsert_org_def Let_def insert_row_def non_empty_Some split: option.splits if_splits prod.splits)
  show ?thesis using assms(2) by (auto simp: o m org_owners_def count_rows_zero)
qed

definition sample_command :: "string list" where
  "sample_command = [''node'', ''provision-host'', ''--org'', ''acme-labs'', ''--hostname'', ''web-01'']"

lemma provisioned_host_usable_witness:
  "\<exists>h. find_first (\<lambda>h. h_keyId h = ''ikm_'') (monitoredHosts (fst (provision_host toy_gcm (Some [9])
      \<lparr>rnd_key = [], rnd_secret = [1, 2, 3], rnd_iv = replicate 12 5\<rparr> sample_gen (Some ''db'') sample_command sample_db))) = Some h
    \<and> host_secrets toy_gcm [9] h 0 = Some [''AQID'']"
proof -
  let ?r = "\<lparr>rnd_key = [], rnd_secret = [1, 2, 3], rnd_iv = replicate 12 5\<rparr> :: agent_random"
  have "snd (provision_host toy_gcm (Some [9]) ?r sample_gen (Some ''db'') sample_command sample_db)
      = PH_registered (cuid sample_gen 1) ''ikm_'' ''AQID''" by code_simp
  then have run: "provision_host toy_gcm (Some [9]) ?r sample_gen (Some ''db'') sample_command sample_db
      = (fst (provision_host toy_gcm (Some [9]) ?r sample_gen (Some ''db'') sample_command sample_db), PH_registered (cuid sample_gen 1) ''ikm_'' ''AQID'')"
    by (metis prod.collapse)
  have iv: "length (rnd_iv ?r) = IV_BYTES" "list_all (\<lambda>b. b < 256) (rnd_iv ?r)" by (simp_all add: IV_BYTES_def list_all_iff)
  show ?thesis using provisioned_host_usable[OF toy_gcm_law iv run, of 0] by blast
qed

end
