(* ===== verification/Remediation_Views.thy ===== *)
theory Remediation_Views
  imports Remediation
begin

text \<open>
  What the remediation pages show: \<open>listRemediationActions\<close> of \<open>src/modules/remediation/actions.ts\<close> and
  \<open>listExecutions\<close> of \<open>executions.ts\<close>. The digest and the collation of the database are parameters, and so are the two
  time stamps of an action, which nothing else reads.
\<close>

definition host_label :: "ident option \<Rightarrow> db \<Rightarrow> string option" where
  "host_label hid d = (case Option.bind hid (\<lambda>i. find_first (\<lambda>h. h_id h = i) (monitoredHosts d)) of
       None \<Rightarrow> None
     | Some h \<Rightarrow> Some (case h_displayName h of Some n \<Rightarrow> n | None \<Rightarrow> h_hostname h))"

section \<open>Actions\<close>

record action_view =
  rv_id :: ident
  rv_name :: string
  rv_description :: "string option"
  rv_enabled :: bool
  rv_runtime :: script_runtime
  rv_scriptBody :: string
  rv_scriptSha256 :: string
  rv_args :: "(string \<times> string) list"
  rv_timeoutSec :: int
  rv_targetHostId :: "ident option"
  rv_targetHostLabel :: "string option"
  rv_allowedOsFamilies :: "os_family list"
  rv_requiresApproval :: bool
  rv_cooldownSec :: int
  rv_maxRunsPerHour :: nat
  rv_createdAt :: ms
  rv_updatedAt :: ms

definition scriptSha256 :: "(string \<Rightarrow> string) \<Rightarrow> string \<Rightarrow> string" where
  "scriptSha256 sha256 script = sha256 script"

definition action_view_of :: "(string \<Rightarrow> string) \<Rightarrow> (ident \<Rightarrow> ms \<times> ms) \<Rightarrow> db \<Rightarrow> remediation_action_row \<Rightarrow> action_view" where
  "action_view_of sha256 stamps d a =
     \<lparr>rv_id = ra_id a, rv_name = ra_name a, rv_description = ra_description a, rv_enabled = ra_enabled a, rv_runtime = ra_runtime a,
      rv_scriptBody = ra_scriptBody a, rv_scriptSha256 = scriptSha256 sha256 (ra_scriptBody a), rv_args = readArgs (ra_args a),
      rv_timeoutSec = ra_timeoutSec a, rv_targetHostId = ra_targetHostId a, rv_targetHostLabel = host_label (ra_targetHostId a) d,
      rv_allowedOsFamilies = ra_allowedOsFamilies a, rv_requiresApproval = ra_requiresApproval a, rv_cooldownSec = ra_cooldownSec a,
      rv_maxRunsPerHour = ra_maxRunsPerHour a, rv_createdAt = fst (stamps (ra_id a)), rv_updatedAt = snd (stamps (ra_id a))\<rparr>"

definition listRemediationActions ::
  "(string \<Rightarrow> string) \<Rightarrow> (string \<Rightarrow> 'k :: linorder) \<Rightarrow> (ident \<Rightarrow> ms \<times> ms) \<Rightarrow> actor \<Rightarrow> db \<Rightarrow> (action_view list, unit) result" where
  "listRemediationActions sha256 collate stamps a d =
     (if \<not> can (Some (a_role a)) remediation_read then fail ()
      else ok (map (action_view_of sha256 stamps d)
        (order_asc (\<lambda>r. collate (ra_name r)) (find_many (\<lambda>r. ra_orgId r = a_orgId a) (remediationActions d)))))"

section \<open>Executions\<close>

record execution_filter =
  xf_actionId :: "ident option"
  xf_incidentId :: "ident option"
  xf_limit :: "nat option"

record execution_view =
  xv_execution :: remediation_execution_row
  xv_actionName :: string
  xv_hostLabel :: "string option"
  xv_requestedByEmail :: "string option"
  xv_approvedByEmail :: "string option"

text \<open>The e-mail addresses are looked up among the users the rows name.\<close>

definition row_users :: "remediation_execution_row list \<Rightarrow> ident list" where
  "row_users rows = remdups (filter (\<lambda>i. i \<noteq> []) (List.map_filter id (concat (map (\<lambda>r. [re_requestedBy r, re_approvedBy r]) rows))))"

definition email_in :: "user_row list \<Rightarrow> ident option \<Rightarrow> string option" where
  "email_in us uid = Option.bind (case uid of None \<Rightarrow> None | Some i \<Rightarrow> or_null i) (\<lambda>i. map_option u_email (find_first (\<lambda>u. u_id u = i) us))"

definition wanted :: "(ident option) \<Rightarrow> ident option \<Rightarrow> bool" where
  "wanted f v = (case Option.bind f or_null of None \<Rightarrow> True | Some i \<Rightarrow> v = Some i)"

definition execution_rows :: "actor \<Rightarrow> execution_filter \<Rightarrow> db \<Rightarrow> remediation_execution_row list" where
  "execution_rows a f d =
     take (min (case xf_limit f of None \<Rightarrow> 50 | Some n \<Rightarrow> n) 200)
       (order_desc re_createdAt (find_many (\<lambda>r. re_orgId r = a_orgId a \<and> wanted (xf_actionId f) (Some (re_actionId r))
          \<and> wanted (xf_incidentId f) (re_incidentId r)) (remediationExecutions d)))"

text \<open>The action of an execution is there: the column refers to it and a deleted action takes its executions along.\<close>

definition action_name :: "db \<Rightarrow> ident \<Rightarrow> string" where
  "action_name d aid = (case find_first (\<lambda>x. ra_id x = aid) (remediationActions d) of Some x \<Rightarrow> ra_name x | None \<Rightarrow> [])"

definition listExecutions :: "actor \<Rightarrow> execution_filter \<Rightarrow> db \<Rightarrow> (execution_view list, unit) result" where
  "listExecutions a f d =
     (if \<not> can (Some (a_role a)) remediation_read then fail ()
      else
        let rows = execution_rows a f d;
            found = find_many (\<lambda>u. u_id u \<in> set (row_users rows)) (users d)
        in ok (map (\<lambda>r. \<lparr>xv_execution = r, xv_actionName = action_name d (re_actionId r), xv_hostLabel = host_label (re_hostId r) d,
             xv_requestedByEmail = email_in found (re_requestedBy r), xv_approvedByEmail = email_in found (re_approvedBy r)\<rparr>) rows))"

section \<open>Properties\<close>

lemma row_users_requested: "r \<in> set rows \<Longrightarrow> re_requestedBy r = Some i \<Longrightarrow> i \<noteq> [] \<Longrightarrow> i \<in> set (row_users rows)"
  by (force simp: row_users_def List.map_filter_def)

lemma row_users_approved: "r \<in> set rows \<Longrightarrow> re_approvedBy r = Some i \<Longrightarrow> i \<noteq> [] \<Longrightarrow> i \<in> set (row_users rows)"
  by (force simp: row_users_def List.map_filter_def)

lemma email_in_found:
  assumes "\<And>i. uid = Some i \<Longrightarrow> i \<noteq> [] \<Longrightarrow> i \<in> S"
  shows "email_in (find_many (\<lambda>u. u_id u \<in> S) us) uid = email_in us uid"
proof (cases "Option.bind uid or_null")
  case None
  then show ?thesis by (cases uid) (simp_all add: email_in_def)
next
  case (Some i)
  then have "uid = Some i" and "i \<noteq> []" by (cases uid; auto simp: or_null_def split: if_splits)+
  with assms have "i \<in> S" by blast
  then have "find_first (\<lambda>u. u_id u = i) (find_many (\<lambda>u. u_id u \<in> S) us) = find_first (\<lambda>u. u_id u = i) us"
    by (induction us) (auto simp: find_many_def)
  then show ?thesis using \<open>uid = Some i\<close> \<open>i \<noteq> []\<close> by (simp add: email_in_def or_null_def)
qed

text \<open>Looking the addresses up for a page at once shows the same as looking each of them up.\<close>

lemma executions_emails_exact:
  assumes "listExecutions a f d = ok vs" and "v \<in> set vs"
  shows "xv_requestedByEmail v = email_in (users d) (re_requestedBy (xv_execution v))
     \<and> xv_approvedByEmail v = email_in (users d) (re_approvedBy (xv_execution v))"
proof -
  from assms obtain r where r: "r \<in> set (execution_rows a f d)"
    and v: "xv_execution v = r"
      "xv_requestedByEmail v = email_in (find_many (\<lambda>u. u_id u \<in> set (row_users (execution_rows a f d))) (users d)) (re_requestedBy r)"
      "xv_approvedByEmail v = email_in (find_many (\<lambda>u. u_id u \<in> set (row_users (execution_rows a f d))) (users d)) (re_approvedBy r)"
    by (auto simp: listExecutions_def Let_def split: if_splits)
  have "email_in (find_many (\<lambda>u. u_id u \<in> set (row_users (execution_rows a f d))) (users d)) (re_requestedBy r) = email_in (users d) (re_requestedBy r)"
    by (intro email_in_found row_users_requested[OF r])
  moreover have "email_in (find_many (\<lambda>u. u_id u \<in> set (row_users (execution_rows a f d))) (users d)) (re_approvedBy r) = email_in (users d) (re_approvedBy r)"
    by (intro email_in_found row_users_approved[OF r])
  ultimately show ?thesis by (simp add: v)
qed

text \<open>A page shows at most two hundred executions, all of the organization of the reader, the newest first; an action is shown with the digest
  that its next execution would be frozen with.\<close>

lemma execution_page:
  assumes "listExecutions a f d = ok vs"
  shows "length vs \<le> 200" and "\<forall>v \<in> set vs. xv_execution v \<in> set (remediationExecutions d) \<and> re_orgId (xv_execution v) = a_orgId a"
    and "sorted (map (\<lambda>v. - re_createdAt (xv_execution v)) vs)"
proof -
  from assms have vs: "map xv_execution vs = execution_rows a f d"
    by (auto simp: listExecutions_def Let_def comp_def split: if_splits)
  have "length vs = length (execution_rows a f d)" by (simp add: vs[symmetric])
  then show "length vs \<le> 200" by (simp add: execution_rows_def)
  have "set (execution_rows a f d) \<subseteq> {r \<in> set (remediationExecutions d). re_orgId r = a_orgId a}"
    by (auto simp: execution_rows_def find_many_def dest!: in_set_takeD)
  then show "\<forall>v \<in> set vs. xv_execution v \<in> set (remediationExecutions d) \<and> re_orgId (xv_execution v) = a_orgId a"
    unfolding vs[symmetric] by auto
  have "sorted (map (\<lambda>r. - re_createdAt r) (execution_rows a f d))"
    unfolding execution_rows_def take_map[symmetric] by (intro sorted_wrt_take) (simp add: order_desc_def)
  then show "sorted (map (\<lambda>v. - re_createdAt (xv_execution v)) vs)" unfolding vs[symmetric] by (simp add: comp_def)
qed

lemma actions_shown:
  assumes "listRemediationActions sha256 collate stamps a d = ok vs"
  shows "set vs = action_view_of sha256 stamps d ` {r \<in> set (remediationActions d). ra_orgId r = a_orgId a}"
  using assms by (auto simp: listRemediationActions_def find_many_def split: if_splits)

end
