(* ===== verification/Spec2Isabelle.thy ===== *)
theory Spec2Isabelle
  imports Tenancy Login Layout Topology Checks Api Narrative Web_Tenancy
    Password_Hash Environment Setup_Scripts Remediation_Views
begin

text \<open>
  Verification of IkelyaneMonitor, a multi-tenant monitoring platform: agents on hosts send signed telemetry,
  the platform stores it, evaluates alert rules, opens incidents, looks for root causes on a dependency map, notifies
  people and queues remediation scripts that agents collect; people work through sessions, roles and invitations; a
  separate runner probes web endpoints. The theories model the server-side TypeScript under \<open>src/src\<close> (paths below
  are relative to it).

  \<^bold>\<open>Conventions.\<close> \<open>Prelude\<close> has results (\<open>lib/result.ts\<close>), JavaScript strings, dates as integer milliseconds and the
  Prisma queries as functions on tables; a table is the list of its rows in insertion order. \<open>Schema\<close> has the
  enumerations, rows and the database record of \<open>prisma/schema.prisma\<close>. An operation takes and returns the whole
  database; a source of ids and creation times (\<open>dbgen\<close>), the actor, the clock and everything random are arguments. Errors are
  values of the \<open>result\<close> type with the error codes of the source. A transaction is one step; where the source
  reads and writes in separate statements, the two halves are separate definitions or take the actions of others in between as an
  argument. \<open>Interfaces\<close> states the contracts components share (compare-and-set, updates that keep keys, kept
  invariants, tenant-scoped operations) as locales; each is interpreted on the operations of the components, and
  \<open>Permissions\<close> and \<open>Checks\<close> add one each (delegation between roles, what an alert evaluation leaves alone). \<open>Samples\<close> has rows for
  the witnesses.

  \<^bold>\<open>Accounts and access\<close> (\<open>lib/auth\<close>).
  \<^item> \<open>Permissions\<close>: \<open>permissions.ts\<close>; roles form a strict hierarchy and never delegate upwards.
  \<^item> \<open>Audit_Trail\<close>: \<open>audit.ts\<close>. \<open>Throttle\<close>: \<open>throttle.ts\<close>; refusals end after the announced wait. \<open>Request\<close>: \<open>request.ts\<close>; redirects stay on the site.
  \<^item> \<open>Sessions\<close>: \<open>sessions.ts\<close> as a machine; lifetimes are bounded and revocation is final.
  \<^item> \<open>Members\<close>, \<open>Users\<close>, \<open>Password\<close>: \<open>members.ts\<close>, \<open>users.ts\<close> and the policy of \<open>password.ts\<close>; \<open>Password_Hash\<close>: its stored hashes,
    which accept the password they were made of and no input with another key.
  \<^item> \<open>Totp\<close>, \<open>Two_Factor\<close>, \<open>Login\<close>: \<open>totp.ts\<close>, \<open>two-factor.ts\<close>, \<open>login.ts\<close>; a session needs every factor, guesses are bounded, codes are spent.
  \<^item> \<open>Invitations\<close>: \<open>invitations.ts\<close>; at most one request accepts an invitation under every interleaving.
  \<^item> \<open>Tenancy\<close>: all operations on memberships, invitations and remediation together; owners are never lost, tenants are isolated.

  \<^bold>\<open>Agents and telemetry\<close> (\<open>lib/telemetry\<close>, \<open>lib/crypto.ts\<close>, \<open>app/api/v1\<close>).
  \<^item> \<open>Secrets\<close>: the stored form of secrets and its round trip. \<open>Signature\<close>: signed headers.
  \<^item> \<open>Agents\<close>: \<open>modules/servers/hosts.ts\<close> and \<open>auth.ts\<close>; authentication is sound, rotation has an exact grace period.
  \<^item> \<open>Telemetry\<close>, \<open>Ingest\<close>: \<open>schemas.ts\<close>, \<open>metrics.ts\<close>, \<open>ingest.ts\<close> and the three \<open>modules/*/ingest.ts\<close>; a report is stored as a
    whole or not at all, a retry stores nothing, stored points are in range.
  \<^item> \<open>Inventory\<close>: \<open>modules/network/devices.ts\<close>, \<open>modules/databases/instances.ts\<close>; pollers get exactly their devices and credentials.
  \<^item> \<open>Api\<close>: the four routes; refused requests leave no trace, jobs are authentic and reported once.

  \<^bold>\<open>Monitoring\<close> (\<open>modules\<close>).
  \<^item> \<open>Anomaly\<close>: \<open>aiops/anomaly.ts\<close>, \<open>aiops/baseline.ts\<close> with its process-wide cache. \<open>Alerts\<close>, \<open>Alert_Rules\<close>, \<open>Notify\<close>: \<open>alerts\<close>; an
    evaluation settles on the sustained condition, stored rules can be evaluated.
  \<^item> \<open>Target_Guard\<close>: \<open>lib/net/target-guard.ts\<close>, \<open>lib/notify/http.ts\<close>; webhooks never reach private addresses.
  \<^item> \<open>Incidents\<close>: \<open>incidents/service.ts\<close> refines an abstract lifecycle. \<open>Rca\<close>: \<open>aiops/rca.ts\<close>.
  \<^item> \<open>Graph\<close>, \<open>Layout\<close>, \<open>Health\<close>, \<open>Topology\<close>: \<open>topology\<close>; reachability, layered drawing, health, edits of the map.
  \<^item> \<open>Remediation_Actions\<close>, \<open>Remediation\<close>, \<open>Remediation_Views\<close>: \<open>remediation\<close>; the lifecycle of executions, guard-rails, approval, delivery.
  \<^item> \<open>Probe\<close>, \<open>Checks\<close>: \<open>saas/runner\<close>, \<open>saas/endpoints.ts\<close>; probes stay safe, runners do not overlap, reported availability is the history.
  \<^item> \<open>Energy_Sla\<close>: \<open>finops/energy.ts\<close>, \<open>saas/sla.ts\<close>.

  \<^item> \<open>Narrative\<close>: \<open>aiops/rca-llm.ts\<close>, the requests for a text by a language model as a machine of workers, analyses and model calls that
    interleave; calls per hour are capped, retries end, a stored text belongs to the findings beside it.

  \<^bold>\<open>The web application\<close> (\<open>app/actions\<close>, \<open>lib/form-state.ts\<close>, \<open>lib/auth/dal.ts\<close>, \<open>lib/auth/session-cookie.ts\<close>, \<open>proxy.ts\<close>).
  \<^item> \<open>Forms\<close>: form data, the schemas of the actions and JavaScript's conversion of strings to numbers.
  \<^item> \<open>Web\<close>: cookies, the data of a request, \<open>authorize\<close>, the pages' redirects and the check of the proxy.
  \<^item> \<open>Session_Actions\<close>: \<open>session.ts\<close>, \<open>onboarding.ts\<close>, \<open>members.ts\<close>; a sign-in's cookie authenticates the next request, signing out ends it.
  \<^item> \<open>Resource_Actions\<close>: the other eight files of actions; arguments survive their form.
  \<^item> \<open>Web_Actions\<close>, \<open>Web_Tenancy\<close>: the 42 actions that act for an organization as one machine; nothing changes without the permission,
    stored settings stay in range, the rows of an organization change only for its members.

  \<^bold>\<open>Operation.\<close> \<open>Environment\<close>: \<open>lib/env.ts\<close>, \<open>lib/notify/email.ts\<close>; an accepted configuration is in range and fixed for the process.
  \<open>Setup_Scripts\<close>: \<open>scripts/create-owner.ts\<close>, \<open>scripts/provision-host.ts\<close>; the printed credentials are the stored ones.

  \<^bold>\<open>Loops and bounds.\<close> Loops are recursive functions with termination proofs (breadth-first and depth-first search, the walk
  over layers, chunked inserts, redirects, the text of a JSON value, the turns of a worker); attempts the source limits are bounded by the source's own constants
  (three attempts to collect a job, five redirects, three calls of the model). No function uses fuel. Statistics are computed over exact reals, so rounding
  of floating point is not modelled; bytes and blocks of the codecs are words or naturals with their ranges proved.

  \<^bold>\<open>Parameters.\<close> Cryptography (SHA-256, HMAC, AES-GCM, scrypt) is an argument with its documented law where a theorem needs
  one (decryption undoes encryption, digests are hexadecimal); so are name resolution, the network, URL and JSON parsing, the
  telemetry schema's parser, the collation of the database, the senders of notifications, the language model, the locale
  negotiation of the framework and the translated texts of a mail.

  \<^bold>\<open>Not modelled.\<close> React pages and components and their translations (they hold no state of the system and only call what is
  modelled), invalidation of the page cache, formatting of numbers, the text of the prompt for the language model,
  the Go agent, the process management of \<open>scripts/worker.ts\<close>, generated Prisma code, and the timers of the workers.
\<close>

section \<open>Properties that span components\<close>

text \<open>C1. An organization never loses its last owner: from the moment it is created, whatever sequence of
  role changes, departures, removals, accepted invitations and other creations follows, whoever
  issues them, it has at least one owner.\<close>

theorem last_owner_never_lost:
  assumes "createOrganization fa suffix g name uid email ip d = Some (d', oid, slug)"
    and "membership_ids_unique d" and "\<not> membership_taken g d"
  shows "1 \<le> org_owners oid (fold (access_exec h hp fa) cs d')"
proof -
  obtain m where m: "m_id m = cuid g 1" "m_orgId m = oid" "m_role m = OWNER" "memberships d' = memberships d @ [m]"
    using createOrganization_memberships[OF assms(1)] by blast
  have "m_id m \<notin> m_id ` set (memberships d)" using assms(3) m(1) by (auto simp: membership_taken_def list_ex_iff)
  with assms(2) m have "org_owned oid d'"
    by (simp add: org_owned_def membership_ids_unique_def org_owners_def)
  from access_machine.fold_inv[OF this] show ?thesis by (simp add: org_owned_def)
qed

definition sample_founding where
  "sample_founding = createOrganization id (\<lambda>k. ''x'') sample_gen ''New Org'' ''bob'' ''bob@acme.org'' None sample_db"

theorem last_owner_never_lost_witness:
  "1 \<le> org_owners ''c'' (fold (access_exec rev rev id)
     [Member_op (Remove sample_gen (sample_actor ''bob'' ''c'' OWNER) ''cc''),
      Member_op (ChangeRole sample_gen (sample_actor ''ann'' ''c'' OWNER) ''cc'' VIEWER)]
     (fst (the sample_founding)))"
proof (rule last_owner_never_lost)
  have "map_option snd sample_founding = Some (''c'', ''new-org'')" by code_simp
  then show "createOrganization id (\<lambda>k. ''x'') sample_gen ''New Org'' ''bob'' ''bob@acme.org'' None sample_db
      = Some (fst (the sample_founding), ''c'', ''new-org'')"
    by (cases sample_founding) (auto simp: sample_founding_def)
  show "membership_ids_unique sample_db" by code_simp
  show "\<not> membership_taken sample_gen sample_db" by code_simp
qed



end
